(* ===== verification/Prelude.thy ===== *)
theory Prelude
  imports Complex_Main "HOL-Library.Sublist" "HOL-Library.AList"
begin

text \<open>
  What the components share: the collections of lemmas, the HTTP error values, the Python string
  operations, decimal formatting, Python dictionaries as association lists in insertion order, and
  the SQL statements (SELECT, UPDATE, DELETE) as list functions over rows in rowid order.

  Strings are Isabelle strings; a character stands for the code point of the same number, so the
  strings of the model are the Python strings over U+0000 to U+00FF, and \<open>length\<close> counts code
  points as \<open>len\<close> does. The character classes below (white space, digits, letters, case) are
  those of Python on that range.
\<close>

named_theorems model_defs "definitions a component proof unfolds together"
named_theorems inv_intros "each operation preserves its component's invariant"

section \<open>Errors\<close>

text \<open>An \<^verbatim>\<open>HTTPException\<close>: status code and detail.\<close>

datatype http_error = HTTPError (status_code: nat) (detail: string)

text \<open>What an uncaught exception becomes.\<close>

definition INTERNAL_ERROR :: http_error where
  "INTERNAL_ERROR = HTTPError 500 ''Internal Server Error''"

definition is_ok :: "'e + 'a \<Rightarrow> bool" where
  "is_ok r = (case r of Inl _ \<Rightarrow> False | Inr _ \<Rightarrow> True)"

lemma is_ok_simps [simp]: "is_ok (Inr x)" "\<not> is_ok (Inl e)"
  by (simp_all add: is_ok_def)

lemma if_Inl_Inr [simp]:
  "(if c then Inl e else Inr x) = Inr y \<longleftrightarrow> \<not> c \<and> x = y"
  "(if c then Inl e else Inr x) = Inl d \<longleftrightarrow> c \<and> e = d"
  by auto

section \<open>Python strings\<close>

definition cp :: "char \<Rightarrow> nat" where
  "cp c = of_char c"

lemma cp_eq_iff [simp]: "cp c = cp d \<longleftrightarrow> c = d"
  by (simp add: cp_def)

text \<open>\<open>str.isspace\<close>, \<open>str.isdigit\<close>, \<open>str.isalnum\<close> and \<open>str.lower\<close> of one character.\<close>

definition py_space :: "char \<Rightarrow> bool" where
  "py_space c = (let n = cp c in
     9 \<le> n \<and> n \<le> 13 \<or> 28 \<le> n \<and> n \<le> 32 \<or> n = 133 \<or> n = 160)"

definition ascii_digit :: "char \<Rightarrow> bool" where
  "ascii_digit c = (48 \<le> cp c \<and> cp c \<le> 57)"

definition ascii_upper :: "char \<Rightarrow> bool" where
  "ascii_upper c = (65 \<le> cp c \<and> cp c \<le> 90)"

definition ascii_lower :: "char \<Rightarrow> bool" where
  "ascii_lower c = (97 \<le> cp c \<and> cp c \<le> 122)"

definition ascii_alnum :: "char \<Rightarrow> bool" where
  "ascii_alnum c = (ascii_digit c \<or> ascii_upper c \<or> ascii_lower c)"

definition py_digit :: "char \<Rightarrow> bool" where
  "py_digit c = (ascii_digit c \<or> cp c = 178 \<or> cp c = 179 \<or> cp c = 185)"

definition py_alnum :: "char \<Rightarrow> bool" where
  "py_alnum c = (ascii_alnum c \<or> (let n = cp c in
     n = 170 \<or> n = 178 \<or> n = 179 \<or> n = 181 \<or> n = 185 \<or> n = 186 \<or> 188 \<le> n \<and> n \<le> 190
     \<or> 192 \<le> n \<and> n \<le> 214 \<or> 216 \<le> n \<and> n \<le> 246 \<or> 248 \<le> n))"

definition py_lower_char :: "char \<Rightarrow> char" where
  "py_lower_char c = (let n = cp c in
     if 65 \<le> n \<and> n \<le> 90 \<or> 192 \<le> n \<and> n \<le> 214 \<or> 216 \<le> n \<and> n \<le> 222 then char_of (n + 32) else c)"

definition py_lower :: "string \<Rightarrow> string" where
  "py_lower s = map py_lower_char s"

definition py_isdigit :: "string \<Rightarrow> bool" where
  "py_isdigit s = (s \<noteq> [] \<and> list_all py_digit s)"

definition py_isascii :: "string \<Rightarrow> bool" where
  "py_isascii s = list_all (\<lambda>c. cp c < 128) s"

text \<open>\<open>str.lstrip\<close>, \<open>str.rstrip\<close> with the characters to drop, and \<open>str.strip\<close>.\<close>

definition rstrip_by :: "(char \<Rightarrow> bool) \<Rightarrow> string \<Rightarrow> string" where
  "rstrip_by p s = rev (dropWhile p (rev s))"

definition py_strip :: "string \<Rightarrow> string" where
  "py_strip s = rstrip_by py_space (dropWhile py_space s)"

text \<open>\<open>"".join(s.split())\<close>: the string without its white space.\<close>

definition remove_ws :: "string \<Rightarrow> string" where
  "remove_ws s = filter (\<lambda>c. \<not> py_space c) s"

text \<open>\<open>s.split(sep)\<close> for a one-character separator: never empty.\<close>

fun split_on :: "char \<Rightarrow> string \<Rightarrow> string list" where
  "split_on c [] = [[]]"
| "split_on c (x # xs) =
     (if x = c then [] # split_on c xs
      else (case split_on c xs of [] \<Rightarrow> [[x]] | w # ws \<Rightarrow> (x # w) # ws))"

fun join_with :: "string \<Rightarrow> string list \<Rightarrow> string" where
  "join_with sep [] = []"
| "join_with sep [w] = w"
| "join_with sep (w # v # ws) = w @ sep @ join_with sep (v # ws)"

definition contains :: "string \<Rightarrow> string \<Rightarrow> bool" where
  "contains sub s = sublist sub s"

lemma split_on_nonempty [simp]: "split_on c s \<noteq> []"
  by (induction s) (auto split: list.splits)

lemma join_split_on [simp]: "join_with [c] (split_on c s) = s"
proof (induction s)
  case (Cons x xs)
  then show ?case
    by (cases "split_on c xs"; cases "tl (split_on c xs)") (auto)
qed simp

lemma split_on_no_sep: "w \<in> set (split_on c s) \<Longrightarrow> c \<notin> set w"
  by (induction s arbitrary: w) (auto split: if_splits list.splits)

section \<open>Decimal numbers\<close>

definition digit_char :: "nat \<Rightarrow> char" where
  "digit_char d = char_of (48 + d)"

fun nat_str :: "nat \<Rightarrow> string" where
  "nat_str n = (if n < 10 then [digit_char n] else nat_str (n div 10) @ [digit_char (n mod 10)])"

declare nat_str.simps [simp del]

text \<open>\<open>s.zfill(k)\<close> of a string without a sign, and the format \<open>0kd\<close> of a natural number.\<close>

definition zfill :: "nat \<Rightarrow> string \<Rightarrow> string" where
  "zfill k s = replicate (k - length s) (CHR ''0'') @ s"

definition nat_val :: "string \<Rightarrow> nat" where
  "nat_val s = foldl (\<lambda>a c. 10 * a + (cp c - 48)) 0 s"

lemma cp_digit_char: "d < 10 \<Longrightarrow> cp (digit_char d) = 48 + d"
  by (simp add: cp_def digit_char_def)

lemma nat_val_append_one: "nat_val (s @ [c]) = 10 * nat_val s + (cp c - 48)"
  by (simp add: nat_val_def)

lemma nat_val_nat_str [simp]: "nat_val (nat_str n) = n"
proof (induction n rule: nat_str.induct)
  case (1 n)
  show ?case
  proof (cases "n < 10")
    case True
    then show ?thesis by (simp add: nat_str.simps [of n] nat_val_def cp_digit_char)
  next
    case False
    with 1 have "nat_val (nat_str (n div 10)) = n div 10" by simp
    with False show ?thesis
      by (simp add: nat_str.simps [of n] nat_val_append_one cp_digit_char)
  qed
qed

lemma nat_val_zeros: "foldl (\<lambda>a c. 10 * a + (cp c - 48)) 0 (replicate k (CHR ''0'')) = 0"
  by (induction k) (simp_all add: cp_def)

lemma nat_val_zfill [simp]: "nat_val (zfill k s) = nat_val s"
  by (simp add: nat_val_def zfill_def nat_val_zeros)

lemma zfill_nat_str_inj: "zfill k (nat_str m) = zfill k (nat_str n) \<Longrightarrow> m = n"
  by (drule arg_cong [where f = nat_val]) simp

lemma ascii_digit_digit_char: "d < 10 \<Longrightarrow> ascii_digit (digit_char d)"
  by (simp add: ascii_digit_def cp_digit_char)

lemma nat_str_digits: "c \<in> set (nat_str n) \<Longrightarrow> ascii_digit c"
proof (induction n rule: nat_str.induct)
  case (1 n)
  then show ?case
    by (cases "n < 10") (auto simp: nat_str.simps [of n] ascii_digit_digit_char)
qed

lemma nat_str_nonempty [simp]: "nat_str n \<noteq> []"
  by (simp add: nat_str.simps [of n])

lemma length_nat_str_mono: "m \<le> n \<Longrightarrow> length (nat_str m) \<le> length (nat_str n)"
proof (induction n arbitrary: m rule: nat_str.induct)
  case (1 n)
  show ?case
  proof (cases "m < 10")
    case True
    then have "length (nat_str m) = 1" by (simp add: nat_str.simps [of m])
    then show ?thesis using nat_str_nonempty [of n] by (cases "nat_str n") auto
  next
    case False
    with "1.prems" have "\<not> n < 10" and "m div 10 \<le> n div 10" by (auto intro: div_le_mono)
    with 1 have "length (nat_str (m div 10)) \<le> length (nat_str (n div 10))" by blast
    with False \<open>\<not> n < 10\<close> show ?thesis by (simp add: nat_str.simps [of n] nat_str.simps [of m])
  qed
qed

section \<open>Rows of a table\<close>

text \<open>
  A table is the list of its rows in rowid order. UPDATE and DELETE report the rows they match
  (\<open>cursor.rowcount\<close>); \<open>fetchone\<close> is the first row a SELECT returns.
\<close>

definition sql_update :: "('r \<Rightarrow> bool) \<Rightarrow> ('r \<Rightarrow> 'r) \<Rightarrow> 'r list \<Rightarrow> 'r list" where
  "sql_update P f rows = map (\<lambda>r. if P r then f r else r) rows"

definition sql_delete :: "('r \<Rightarrow> bool) \<Rightarrow> 'r list \<Rightarrow> 'r list" where
  "sql_delete P rows = filter (\<lambda>r. \<not> P r) rows"

definition rowcount :: "('r \<Rightarrow> bool) \<Rightarrow> 'r list \<Rightarrow> nat" where
  "rowcount P rows = length (filter P rows)"

definition fetchone :: "('r \<Rightarrow> bool) \<Rightarrow> 'r list \<Rightarrow> 'r option" where
  "fetchone P rows = find P rows"

lemma length_sql_update [simp]: "length (sql_update P f rows) = length rows"
  by (simp add: sql_update_def)

lemma set_sql_update: "set (sql_update P f rows) = (\<lambda>r. if P r then f r else r) ` set rows"
  by (simp add: sql_update_def)

lemma set_sql_delete [simp]: "set (sql_delete P rows) = {r \<in> set rows. \<not> P r}"
  by (auto simp: sql_delete_def)

lemma sql_update_keeps:
  assumes "\<And>r. P r \<Longrightarrow> k (f r) = k r"
  shows "map k (sql_update P f rows) = map k rows"
  using assms by (simp add: sql_update_def)

lemma distinct_map_sql_delete [simp]:
  "distinct (map k rows) \<Longrightarrow> distinct (map k (sql_delete P rows))"
  by (simp add: sql_delete_def distinct_map_filter)

lemma fetchone_Some:
  "fetchone P rows = Some r \<Longrightarrow> r \<in> set rows \<and> P r"
  by (auto simp: fetchone_def find_Some_iff)

lemma fetchone_None: "fetchone P rows = None \<longleftrightarrow> (\<forall>r\<in>set rows. \<not> P r)"
  by (auto simp: fetchone_def find_None_iff)

text \<open>With a unique key, a row selected by its key is the only such row.\<close>

lemma fetchone_key:
  assumes "distinct (map k rows)" and "r \<in> set rows"
  shows "fetchone (\<lambda>x. k x = k r) rows = Some r"
  using assms by (induction rows) (auto simp: fetchone_def)

lemma distinct_map_eq:
  "distinct (map k rows) \<Longrightarrow> a \<in> set rows \<Longrightarrow> b \<in> set rows \<Longrightarrow> k a = k b \<Longrightarrow> a = b"
  by (auto simp: distinct_map inj_on_def)

lemma rowcount_0_iff: "rowcount P rows = 0 \<longleftrightarrow> (\<forall>r\<in>set rows. \<not> P r)"
  by (auto simp: rowcount_def filter_empty_conv)

lemma rowcount_pos_iff: "0 < rowcount P rows \<longleftrightarrow> (\<exists>r\<in>set rows. P r)"
  using rowcount_0_iff [of P rows] by auto

text \<open>The same fact for the filters a count is taken with.\<close>

lemma length_filter_pos_iff: "0 < length (filter P xs) \<longleftrightarrow> (\<exists>x\<in>set xs. P x)"
  using rowcount_pos_iff [of P xs] by (simp add: rowcount_def)

lemma rowcount_sql_delete [simp]: "rowcount P (sql_delete P rows) = 0"
  by (auto simp: rowcount_0_iff)

lemma sql_update_none: "\<forall>r\<in>set rows. \<not> P r \<Longrightarrow> sql_update P f rows = rows"
  by (induction rows) (auto simp: sql_update_def)

text \<open>A unique column after the update of one row to a value no other row has.\<close>

lemma distinct_update_key:
  assumes "distinct (map k rows)" and "distinct (map c rows)"
    and "\<And>r. c (f r) = v" and "\<And>r. r \<in> set rows \<Longrightarrow> k r \<noteq> i \<Longrightarrow> c r \<noteq> v"
  shows "distinct (map c (sql_update (\<lambda>r. k r = i) f rows))"
  using assms
proof (induction rows)
  case (Cons a rows)
  show ?case
  proof (cases "k a = i")
    case True
    then have "\<forall>r\<in>set rows. k r \<noteq> i" using Cons.prems(1) by (simp add: image_iff) metis
    moreover from this have "\<forall>r\<in>set rows. c r \<noteq> v" using Cons.prems(4) by simp
    ultimately show ?thesis
      using True Cons.prems(2,3) sql_update_none [of rows "\<lambda>r. k r = i" f] by (auto simp: sql_update_def)
  next
    case False
    then have "c a \<notin> c ` set (sql_update (\<lambda>r. k r = i) f rows)"
      using Cons.prems by (auto simp: set_sql_update)
    then show ?thesis using False Cons by (auto simp: sql_update_def)
  qed
qed (simp add: sql_update_def)

section \<open>Roles of lists under a filter\<close>

lemma length_filter_mono:
  "(\<And>x. x \<in> set xs \<Longrightarrow> P x \<Longrightarrow> Q x) \<Longrightarrow> length (filter P xs) \<le> length (filter Q xs)"
  by (induction xs) (auto simp: le_SucI)

lemma hd_dropWhile_not: "dropWhile P xs \<noteq> [] \<Longrightarrow> \<not> P (hd (dropWhile P xs))"
  by (induction xs) auto

lemma takeWhile_dropWhile_sorted:
  "sorted xs \<Longrightarrow> dropWhile (\<lambda>x. x < c) xs = filter (\<lambda>x. c \<le> x) xs"
proof (induction xs)
  case (Cons a xs)
  then show ?case
    by (cases "a < c") (auto intro!: filter_True [symmetric])
qed simp

end
