(* ===== verification/Regex.thy ===== *)
theory Regex
  imports Prelude
begin

text \<open>
  The part of Python's regular expressions the code uses: character classes, concatenation,
  alternatives, \<open>*\<close>, \<open>?\<close> and \<open>{m,n}\<close>, over the anchored patterns \<open>^...$\<close>. \<open>rlang\<close> is the language
  of a pattern and \<open>rmatch\<close> an executable matcher by derivatives; \<open>rmatch_iff\<close> says they agree.
  \<open>re_fullmatch\<close> and \<open>re_match_anchored\<close> are Python's two ways to apply such a pattern: \<open>$\<close> also
  matches before a newline that ends the string, so \<open>match\<close> accepts one trailing newline that
  \<open>fullmatch\<close> refuses.
\<close>

section \<open>Patterns and their language\<close>

datatype regex =
    RZero
  | REps
  | RCls "char \<Rightarrow> bool"
  | RAlt regex regex
  | RSeq regex regex
  | RStar regex
  | RRep regex nat nat

definition lconc :: "string set \<Rightarrow> string set \<Rightarrow> string set" where
  "lconc A B = {u @ v | u v. u \<in> A \<and> v \<in> B}"

primrec lpow :: "nat \<Rightarrow> string set \<Rightarrow> string set" where
  "lpow 0 A = {[]}"
| "lpow (Suc k) A = lconc A (lpow k A)"

primrec rlang :: "regex \<Rightarrow> string set" where
  "rlang RZero = {}"
| "rlang REps = {[]}"
| "rlang (RCls p) = {[c] | c. p c}"
| "rlang (RAlt r s) = rlang r \<union> rlang s"
| "rlang (RSeq r s) = lconc (rlang r) (rlang s)"
| "rlang (RStar r) = (\<Union>k. lpow k (rlang r))"
| "rlang (RRep r m n) = (\<Union>k\<in>{m..n}. lpow k (rlang r))"

section \<open>The matcher\<close>

primrec nullable :: "regex \<Rightarrow> bool" where
  "nullable RZero = False"
| "nullable REps = True"
| "nullable (RCls p) = False"
| "nullable (RAlt r s) = (nullable r \<or> nullable s)"
| "nullable (RSeq r s) = (nullable r \<and> nullable s)"
| "nullable (RStar r) = True"
| "nullable (RRep r m n) = (m \<le> n \<and> (m = 0 \<or> nullable r))"

text \<open>Constructors that drop the impossible and the empty branch, to keep derivatives small.\<close>

definition mk_alt :: "regex \<Rightarrow> regex \<Rightarrow> regex" where
  "mk_alt r s = (case r of RZero \<Rightarrow> s | _ \<Rightarrow> (case s of RZero \<Rightarrow> r | _ \<Rightarrow> RAlt r s))"

definition mk_seq :: "regex \<Rightarrow> regex \<Rightarrow> regex" where
  "mk_seq r s = (case r of RZero \<Rightarrow> RZero | REps \<Rightarrow> s | _ \<Rightarrow> RSeq r s)"

primrec rderiv :: "char \<Rightarrow> regex \<Rightarrow> regex" where
  "rderiv c RZero = RZero"
| "rderiv c REps = RZero"
| "rderiv c (RCls p) = (if p c then REps else RZero)"
| "rderiv c (RAlt r s) = mk_alt (rderiv c r) (rderiv c s)"
| "rderiv c (RSeq r s) =
     (if nullable r then mk_alt (mk_seq (rderiv c r) s) (rderiv c s) else mk_seq (rderiv c r) s)"
| "rderiv c (RStar r) = mk_seq (rderiv c r) (RStar r)"
| "rderiv c (RRep r m n) =
     (if n = 0 \<or> n < m then RZero else mk_seq (rderiv c r) (RRep r (m - 1) (n - 1)))"

primrec rmatch :: "regex \<Rightarrow> string \<Rightarrow> bool" where
  "rmatch r [] = nullable r"
| "rmatch r (c # s) = (case rderiv c r of RZero \<Rightarrow> False | r' \<Rightarrow> rmatch r' s)"

section \<open>The matcher decides the language\<close>

lemma rlang_mk_alt [simp]: "rlang (mk_alt r s) = rlang r \<union> rlang s"
  by (auto simp: mk_alt_def split: regex.splits)

lemma lconc_simps [simp]: "lconc {} B = {}" "lconc {[]} B = B" "lconc A {} = {}" "lconc A {[]} = A"
  by (auto simp: lconc_def)

lemma rlang_mk_seq [simp]: "rlang (mk_seq r s) = lconc (rlang r) (rlang s)"
  by (auto simp: mk_seq_def split: regex.splits)

lemma Nil_in_lconc [simp]: "[] \<in> lconc A B \<longleftrightarrow> [] \<in> A \<and> [] \<in> B"
  by (auto simp: lconc_def)

lemma Nil_in_lpow [simp]: "[] \<in> lpow k A \<longleftrightarrow> k = 0 \<or> [] \<in> A"
  by (induction k) auto

lemma nullable_iff: "nullable r \<longleftrightarrow> [] \<in> rlang r"
  by (induction r) auto

lemma Cons_in_lconc:
  "c # s \<in> lconc A B \<longleftrightarrow>
     (\<exists>u v. s = u @ v \<and> c # u \<in> A \<and> v \<in> B) \<or> ([] \<in> A \<and> c # s \<in> B)"
  by (auto simp: lconc_def Cons_eq_append_conv)

text \<open>Powers of a language with the empty word grow; in any case the first factor can be chosen
  to hold the first character.\<close>

lemma lpow_Suc_mono: "[] \<in> A \<Longrightarrow> lpow k A \<subseteq> lpow (Suc k) A"
  by (auto simp: lconc_def intro: exI [of _ "[]"])

lemma lpow_mono: "[] \<in> A \<Longrightarrow> j \<le> k \<Longrightarrow> lpow j A \<subseteq> lpow k A"
proof (induction k)
  case (Suc k)
  then show ?case
    using lpow_Suc_mono [OF Suc.prems(1), of k] by (cases "j = Suc k") auto
qed auto

lemma Cons_in_lpow_Suc:
  "c # s \<in> lpow (Suc k) A \<longleftrightarrow> (\<exists>u v. s = u @ v \<and> c # u \<in> A \<and> v \<in> lpow k A)"
proof (induction k)
  case 0
  then show ?case by (auto simp: Cons_in_lconc)
next
  case (Suc k)
  have "\<exists>u v. s = u @ v \<and> c # u \<in> A \<and> v \<in> lpow (Suc k) A"
    if e: "[] \<in> A" and m: "c # s \<in> lpow (Suc k) A"
  proof -
    from m Suc.IH obtain u v where "s = u @ v" "c # u \<in> A" "v \<in> lpow k A" by auto
    then show ?thesis using lpow_Suc_mono [OF e, of k] by blast
  qed
  then show ?case
    by (subst lpow.simps(2)) (auto simp only: Cons_in_lconc)
qed

lemma Cons_in_lpow:
  "c # s \<in> lpow k A \<longleftrightarrow> (\<exists>u v. k \<noteq> 0 \<and> s = u @ v \<and> c # u \<in> A \<and> v \<in> lpow (k - 1) A)"
  using Cons_in_lpow_Suc [of c s "k - 1" A] by (cases k) auto

lemma rderiv_iff: "s \<in> rlang (rderiv c r) \<longleftrightarrow> c # s \<in> rlang r"
proof (induction r arbitrary: s)
  case (RSeq r1 r2)
  then show ?case
    by (auto simp: Cons_in_lconc nullable_iff) (auto simp: lconc_def)
next
  case (RStar r)
  have "c # s \<in> rlang (RStar r) \<longleftrightarrow> (\<exists>u v. s = u @ v \<and> c # u \<in> rlang r \<and> v \<in> rlang (RStar r))"
  proof
    assume "\<exists>u v. s = u @ v \<and> c # u \<in> rlang r \<and> v \<in> rlang (RStar r)"
    then obtain u v k where "s = u @ v" "c # u \<in> rlang r" "v \<in> lpow k (rlang r)" by auto
    then have "c # s \<in> lpow (Suc k) (rlang r)" by (auto simp only: Cons_in_lpow_Suc)
    then show "c # s \<in> rlang (RStar r)" by (simp only: rlang.simps UN_iff) blast
  qed (auto simp: Cons_in_lpow)
  with RStar show ?case by (auto simp: lconc_def)
next
  case (RRep r m n)
  have "c # s \<in> rlang (RRep r m n) \<longleftrightarrow>
    (\<exists>k\<in>{m..n}. \<exists>u v. k \<noteq> 0 \<and> s = u @ v \<and> c # u \<in> rlang r \<and> v \<in> lpow (k - 1) (rlang r))"
    by (simp add: Cons_in_lpow)
  also have "\<dots> \<longleftrightarrow> (n \<noteq> 0 \<and> m \<le> n \<and>
    (\<exists>k\<in>{m - 1..n - 1}. \<exists>u v. s = u @ v \<and> c # u \<in> rlang r \<and> v \<in> lpow k (rlang r)))"
    (is "?L \<longleftrightarrow> ?R")
  proof
    assume ?L
    then obtain k u v where "k \<in> {m..n}" "k \<noteq> 0" "s = u @ v" "c # u \<in> rlang r"
        "v \<in> lpow (k - 1) (rlang r)" by blast
    moreover from this have "k - 1 \<in> {m - 1..n - 1}" "n \<noteq> 0" "m \<le> n" by auto
    ultimately show ?R by blast
  next
    assume ?R
    then obtain k u v where k: "k \<in> {m - 1..n - 1}" "n \<noteq> 0" "m \<le> n" and "s = u @ v" "c # u \<in> rlang r"
        "v \<in> lpow k (rlang r)" by blast
    moreover from k have "Suc k \<in> {m..n}" by auto
    ultimately show ?L by (intro bexI [of _ "Suc k"]) auto
  qed
  finally show ?case using RRep by (auto simp: lconc_def)
qed auto

lemma rmatch_iff: "rmatch r s \<longleftrightarrow> s \<in> rlang r"
proof (induction s arbitrary: r)
  case (Cons c s)
  have "rmatch r (c # s) \<longleftrightarrow> s \<in> rlang (rderiv c r)"
    using Cons.IH [of "rderiv c r"] by (cases "rderiv c r") simp_all
  then show ?case by (simp only: rderiv_iff)
qed (simp add: nullable_iff)

section \<open>The characters a pattern admits\<close>

primrec rchars :: "regex \<Rightarrow> char \<Rightarrow> bool" where
  "rchars RZero c = False"
| "rchars REps c = False"
| "rchars (RCls p) c = p c"
| "rchars (RAlt r s) c = (rchars r c \<or> rchars s c)"
| "rchars (RSeq r s) c = (rchars r c \<or> rchars s c)"
| "rchars (RStar r) c = rchars r c"
| "rchars (RRep r m n) c = rchars r c"

lemma lpow_chars:
  assumes "\<And>s. s \<in> A \<Longrightarrow> list_all p s"
  shows "s \<in> lpow k A \<Longrightarrow> list_all p s"
  by (induction k arbitrary: s) (auto simp: lconc_def dest: assms)

lemma list_all_mono_chars: "list_all p s \<Longrightarrow> (\<And>c. p c \<Longrightarrow> q c) \<Longrightarrow> list_all q s"
  by (auto simp: list_all_iff)

lemma rlang_chars: "s \<in> rlang r \<Longrightarrow> list_all (rchars r) s"
proof (induction r arbitrary: s)
  case (RAlt r1 r2)
  then show ?case by (fastforce simp: list_all_iff)
next
  case (RSeq r1 r2)
  then show ?case by (fastforce simp: list_all_iff lconc_def)
next
  case (RStar r)
  then have "list_all (rchars r) s" by (auto dest: lpow_chars [rotated])
  then show ?case by (simp add: list_all_iff)
next
  case (RRep r m n)
  then have "list_all (rchars r) s" by (auto dest: lpow_chars [rotated])
  then show ?case by (simp add: list_all_iff)
qed auto

lemma rmatch_chars: "rmatch r s \<Longrightarrow> c \<in> set s \<Longrightarrow> rchars r c"
  using rlang_chars [of s r] by (auto simp: rmatch_iff list_all_iff)

text \<open>A pattern that starts with a class: the string starts with a character of it.\<close>

lemma rmatch_head:
  "rmatch (RSeq (RCls p) r) s \<Longrightarrow> \<exists>c t. s = c # t \<and> p c \<and> rmatch r t"
  by (auto simp: rmatch_iff lconc_def)

section \<open>Building patterns\<close>

definition ropt :: "regex \<Rightarrow> regex" where
  "ropt r = RAlt REps r"

definition rplus :: "regex \<Rightarrow> regex" where
  "rplus r = RSeq r (RStar r)"

definition rchr :: "char \<Rightarrow> regex" where
  "rchr c = RCls (\<lambda>x. x = c)"

definition rrange :: "char \<Rightarrow> char \<Rightarrow> char \<Rightarrow> bool" where
  "rrange a b c = (cp a \<le> cp c \<and> cp c \<le> cp b)"

lemma rchars_build [simp]:
  "rchars (ropt r) c = rchars r c" "rchars (rplus r) c = rchars r c" "rchars (rchr d) c = (c = d)"
  by (auto simp: ropt_def rplus_def rchr_def)

section \<open>Python's match and fullmatch\<close>

definition re_fullmatch :: "regex \<Rightarrow> string \<Rightarrow> bool" where
  "re_fullmatch r s = rmatch r s"

text \<open>\<open>re.match(r"^...$", s)\<close>: the whole string, or all of it but a newline at its end.\<close>

definition re_match_anchored :: "regex \<Rightarrow> string \<Rightarrow> bool" where
  "re_match_anchored r s =
     (rmatch r s \<or> (s \<noteq> [] \<and> last s = CHR 0x0A \<and> rmatch r (butlast s)))"

lemma re_match_anchored_iff:
  "re_match_anchored r s \<longleftrightarrow> rmatch r s \<or> (\<exists>t. s = t @ [CHR 0x0A] \<and> rmatch r t)"
  by (cases s rule: rev_cases) (auto simp: re_match_anchored_def)

end
