(* ===== verification/Validation.thy ===== *)
theory Validation
  imports Regex
begin

text \<open>
  \<^verbatim>\<open>core/validation.py\<close>, \<^verbatim>\<open>models/common.py\<close> and the container name check of
  \<^verbatim>\<open>core/container.py\<close>: the formats of the values that reach shell scripts and host paths. A
  validator returns the value or an error (\<^verbatim>\<open>ValueError\<close>); its argument is an option, \<open>None\<close> for
  Python's \<open>None\<close>. On the strings of the model \<open>\d\<close> is an ASCII digit. The lookahead of \<open>_HOST\<close> is
  a bound on the length, since \<open>fullmatch\<close> leaves no newline in the string.
\<close>

section \<open>The patterns\<close>

definition alnum_cls :: regex where
  "alnum_cls = RCls ascii_alnum"

definition digit_cls :: regex where
  "digit_cls = RCls ascii_digit"

definition one_of :: "string \<Rightarrow> char \<Rightarrow> bool" where
  "one_of cs c = (ascii_alnum c \<or> c \<in> set cs)"

definition host_label :: regex where
  "host_label = RSeq alnum_cls (ropt (RSeq (RRep (RCls (one_of ''-'')) 0 61) alnum_cls))"

definition HOST :: regex where
  "HOST = RSeq host_label (RStar (RSeq (rchr (CHR ''.'')) host_label))"

definition octet :: regex where
  "octet = RAlt (RSeq (rchr (CHR ''2'')) (RSeq (rchr (CHR ''5'')) (RCls (rrange (CHR ''0'') (CHR ''5'')))))
     (RAlt (RSeq (rchr (CHR ''2'')) (RSeq (RCls (rrange (CHR ''0'') (CHR ''4''))) digit_cls))
       (RSeq (ropt (rchr (CHR ''1''))) (RSeq (ropt digit_cls) digit_cls)))"

definition IPV4 :: regex where
  "IPV4 = RSeq octet (RRep (RSeq (rchr (CHR ''.'')) octet) 3 3)"

definition VERSION :: regex where
  "VERSION = RSeq (RRep digit_cls 1 4)
     (RSeq (RRep (RSeq (rchr (CHR ''.'')) (RRep digit_cls 1 4)) 1 3)
       (ropt (RSeq (rchr (CHR ''-'')) (RRep alnum_cls 1 16))))"

definition GROUP :: regex where
  "GROUP = RSeq alnum_cls (RRep (RCls (one_of ''_.-'')) 0 63)"

definition TOKEN :: regex where
  "TOKEN = RSeq alnum_cls (RRep (RCls (one_of ''+/=_.:-'')) 0 1023)"

definition CONTAINER :: regex where
  "CONTAINER = RSeq alnum_cls (RRep (RCls (one_of ''_.-'')) 0 63)"

definition PATH :: regex where
  "PATH = RSeq (rchr (CHR ''/'')) (RRep (RCls (one_of ''_.@+/-'')) 0 4095)"

section \<open>The validators\<close>

datatype value_error =
    InvalidValue string "string option"
  | DotDotNotAllowed
  | PathNotAbsolute
  | PathContainsDotDot
  | BadName string

definition check_pattern :: "string option \<Rightarrow> regex \<Rightarrow> string \<Rightarrow> value_error + string" where
  "check_pattern v pat what = (case v of
     None \<Rightarrow> Inl (InvalidValue what v)
   | Some s \<Rightarrow> if \<not> re_fullmatch pat s then Inl (InvalidValue what v) else Inr s)"

definition host_match :: "string \<Rightarrow> bool" where
  "host_match s = (1 \<le> length s \<and> length s \<le> 253 \<and> re_fullmatch HOST s)"

definition validate_host :: "string option \<Rightarrow> value_error + string" where
  "validate_host v = (case v of
     Some s \<Rightarrow> if re_fullmatch IPV4 s \<or> host_match s then Inr s
               else Inl (InvalidValue ''host (expected an IPv4 address or hostname)'' v)
   | None \<Rightarrow> Inl (InvalidValue ''host (expected an IPv4 address or hostname)'' v))"

definition validate_version :: "string option \<Rightarrow> value_error + string" where
  "validate_version v = check_pattern v VERSION ''version (expected e.g. 4.14.2)''"

definition validate_group :: "string option \<Rightarrow> value_error + string" where
  "validate_group v = check_pattern v GROUP ''group (letters, digits, '.', '_', '-')''"

definition validate_token :: "string option \<Rightarrow> value_error + string" where
  "validate_token v = check_pattern v TOKEN ''key/token (letters, digits and + / = _ . : -)''"

definition validate_container_ref :: "string option \<Rightarrow> value_error + string" where
  "validate_container_ref v = check_pattern v CONTAINER ''container name''"

definition validate_container_path :: "string option \<Rightarrow> value_error + string" where
  "validate_container_path v =
     (case check_pattern v PATH ''path (absolute; letters, digits and _ . @ + / - only)'' of
        Inl e \<Rightarrow> Inl e
      | Inr s \<Rightarrow> if ''..'' \<in> set (split_on (CHR ''/'') s) then Inl DotDotNotAllowed else Inr s)"

definition validate_absolute_path :: "string \<Rightarrow> value_error + string" where
  "validate_absolute_path s =
     (if \<not> (s \<noteq> [] \<and> hd s = CHR ''/'') then Inl PathNotAbsolute
      else if contains ''..'' s then Inl PathContainsDotDot
      else validate_container_path (Some s))"

text \<open>\<open>optional\<close> lets \<open>None\<close> and the empty string through unchecked.\<close>

definition optional ::
  "(string option \<Rightarrow> value_error + string) \<Rightarrow> string option \<Rightarrow> value_error + string option" where
  "optional check v =
     (if v = None \<or> v = Some [] then Inr v
      else (case check v of Inl e \<Rightarrow> Inl e | Inr s \<Rightarrow> Inr (Some s)))"

definition INSTALL_FIELD_CHECKS ::
  "(string \<times> (string option \<Rightarrow> value_error + string option)) list" where
  "INSTALL_FIELD_CHECKS =
     [(''siem_ip'', optional validate_host),
      (''siem_version'', optional validate_version),
      (''siem_auth_key'', optional validate_token),
      (''agent_group'', optional validate_group)]"

definition ALPHANUM_START :: regex where
  "ALPHANUM_START = RSeq alnum_cls (RStar (RCls (one_of ''_-'')))"

definition validate_alphanumeric_name :: "string \<Rightarrow> value_error + string" where
  "validate_alphanumeric_name s =
     (if \<not> re_match_anchored ALPHANUM_START s then Inl (BadName s) else Inr s)"

definition CONTAINER_NAME_PATTERN :: regex where
  "CONTAINER_NAME_PATTERN = RSeq alnum_cls (RStar (RCls (one_of ''_.-'')))"

definition validate_container_name :: "string \<Rightarrow> bool" where
  "validate_container_name s = (re_match_anchored CONTAINER_NAME_PATTERN s \<and> length s \<le> 50)"

lemmas pattern_defs =
  HOST_def IPV4_def VERSION_def GROUP_def TOKEN_def CONTAINER_def PATH_def host_label_def octet_def
  alnum_cls_def digit_cls_def

section \<open>What an accepted value can contain\<close>

text \<open>
  The characters that a POSIX shell, in a word outside quotes, takes as they are: none of the
  blanks, quotes, expansion, globbing, redirection or control characters.
\<close>

definition shell_inert_char :: "char \<Rightarrow> bool" where
  "shell_inert_char c = one_of ''+/=_.:@-'' c"

definition shell_inert :: "string \<Rightarrow> bool" where
  "shell_inert s = (s \<noteq> [] \<and> list_all shell_inert_char s \<and> hd s \<noteq> CHR ''-'')"

definition shell_special :: "char list" where
  "shell_special = '' !#$%&*();<>?[]^`{|}~,'' @
     [CHR 0x22, CHR 0x27, CHR 0x5C, CHR 0x0A, CHR 0x0D, CHR 0x09, CHR 0x00]"

lemma shell_special_not_inert: "list_all (\<lambda>c. \<not> shell_inert_char c) shell_special"
  by (simp add: shell_special_def shell_inert_char_def one_of_def cp_def ascii_alnum_def
      ascii_digit_def ascii_lower_def ascii_upper_def)

lemma shell_inert_not_special: "shell_inert_char c \<Longrightarrow> c \<notin> set shell_special"
  using shell_special_not_inert by (auto simp: list_all_iff)

lemma shell_inert_charI:
  "ascii_alnum c \<Longrightarrow> shell_inert_char c" "ascii_digit c \<Longrightarrow> shell_inert_char c"
  "one_of cs c \<Longrightarrow> set cs \<subseteq> set ''+/=_.:@-'' \<Longrightarrow> shell_inert_char c"
  unfolding shell_inert_char_def one_of_def ascii_alnum_def by blast+

lemma alnum_not_dash: "ascii_alnum c \<Longrightarrow> c \<noteq> CHR ''-''"
  by (auto simp: ascii_alnum_def ascii_digit_def ascii_upper_def ascii_lower_def cp_def)

text \<open>One fact for all the patterns: the first class and the characters decide inertness.\<close>

lemma pattern_inert:
  assumes m: "re_fullmatch (RSeq (RCls p) r) s"
    and p: "\<And>c. p c \<Longrightarrow> shell_inert_char c \<and> c \<noteq> CHR ''-''"
    and r: "\<And>c. rchars r c \<Longrightarrow> shell_inert_char c"
  shows "shell_inert s"
proof -
  from m obtain c t where s: "s = c # t" "p c" "rmatch r t"
    unfolding re_fullmatch_def using rmatch_head by blast
  then show ?thesis
    using p r rmatch_chars [of r t] by (auto simp: shell_inert_def list_all_iff)
qed

lemma check_pattern_Inr:
  "check_pattern v pat what = Inr s \<longleftrightarrow> v = Some s \<and> re_fullmatch pat s"
  by (auto simp: check_pattern_def split: option.splits)

lemma inert_GROUP: "re_fullmatch GROUP s \<Longrightarrow> shell_inert s"
  unfolding GROUP_def alnum_cls_def
  by (erule pattern_inert) (auto intro: shell_inert_charI simp: alnum_not_dash)

lemma inert_TOKEN: "re_fullmatch TOKEN s \<Longrightarrow> shell_inert s"
  unfolding TOKEN_def alnum_cls_def
  by (erule pattern_inert) (auto intro: shell_inert_charI simp: alnum_not_dash)

lemma inert_PATH: "re_fullmatch PATH s \<Longrightarrow> shell_inert s"
  unfolding PATH_def rchr_def
  by (erule pattern_inert) (auto intro: shell_inert_charI simp: shell_inert_char_def one_of_def)

text \<open>For the patterns whose first factor is not a single class: no word starts with a dash.\<close>

lemma pattern_first:
  assumes m: "re_fullmatch r s" and i: "\<And>c. rchars r c \<Longrightarrow> shell_inert_char c"
    and n: "\<not> nullable r" and d: "rderiv (CHR ''-'') r = RZero"
  shows "shell_inert s"
proof (cases s)
  case Nil
  with m n show ?thesis by (simp add: re_fullmatch_def)
next
  case (Cons c t)
  have "c \<noteq> CHR ''-''"
    using m d unfolding Cons by (auto simp: re_fullmatch_def)
  then show ?thesis
    using Cons m i rmatch_chars [of r s] by (auto simp: shell_inert_def list_all_iff re_fullmatch_def)
qed

lemma dash_not_alnum [simp]: "\<not> ascii_alnum (CHR ''-'')" "\<not> ascii_digit (CHR ''-'')"
  by (simp_all add: ascii_alnum_def ascii_digit_def ascii_upper_def ascii_lower_def cp_def)

lemma inert_HOST: "re_fullmatch HOST s \<Longrightarrow> shell_inert s"
  by (erule pattern_first)
    (auto intro: shell_inert_charI simp: pattern_defs mk_seq_def mk_alt_def ropt_def rchr_def
      shell_inert_char_def one_of_def)

lemma digit_alnum: "ascii_digit c \<Longrightarrow> ascii_alnum c"
  by (simp add: ascii_alnum_def)

lemma digit_between: "rrange (CHR ''0'') d c \<Longrightarrow> cp d \<le> 57 \<Longrightarrow> ascii_digit c"
  by (simp add: rrange_def ascii_digit_def cp_def)

lemma octet_chars: "rchars octet c \<Longrightarrow> ascii_digit c"
  by (auto simp: octet_def digit_cls_def cp_def intro: digit_between)
    (simp_all add: ascii_digit_def cp_def)

lemma IPV4_chars: "rchars IPV4 c \<Longrightarrow> ascii_digit c \<or> c = CHR ''.''"
  using octet_chars by (auto simp: IPV4_def)

lemma IPV4_inert_chars: "rchars IPV4 c \<Longrightarrow> shell_inert_char c"
  by (drule IPV4_chars) (auto simp: shell_inert_char_def one_of_def dest: digit_alnum)

lemma inert_IPV4: "re_fullmatch IPV4 s \<Longrightarrow> shell_inert s"
  by (erule pattern_first [OF _ IPV4_inert_chars])
    (simp_all add: IPV4_def octet_def digit_cls_def mk_seq_def mk_alt_def ropt_def rchr_def)

lemma inert_VERSION: "re_fullmatch VERSION s \<Longrightarrow> shell_inert s"
  by (erule pattern_first)
    (auto simp: VERSION_def alnum_cls_def digit_cls_def mk_seq_def
      mk_alt_def ropt_def rchr_def shell_inert_char_def one_of_def dest: digit_alnum)

lemmas inert_patterns =
  inert_HOST inert_IPV4 inert_VERSION inert_GROUP inert_TOKEN inert_PATH

lemma validators_Inr:
  "validate_host v = Inr s \<longleftrightarrow> v = Some s \<and> (re_fullmatch IPV4 s \<or> host_match s)"
  "validate_version v = Inr s \<longleftrightarrow> v = Some s \<and> re_fullmatch VERSION s"
  "validate_group v = Inr s \<longleftrightarrow> v = Some s \<and> re_fullmatch GROUP s"
  "validate_token v = Inr s \<longleftrightarrow> v = Some s \<and> re_fullmatch TOKEN s"
  "validate_container_ref v = Inr s \<longleftrightarrow> v = Some s \<and> re_fullmatch CONTAINER s"
  by (auto simp: validate_host_def validate_version_def validate_group_def validate_token_def
      validate_container_ref_def check_pattern_Inr split: option.splits if_splits)

lemma validate_container_path_Inr:
  "validate_container_path v = Inr s \<longleftrightarrow>
     v = Some s \<and> re_fullmatch PATH s \<and> ''..'' \<notin> set (split_on (CHR ''/'') s)"
  by (auto simp: validate_container_path_def check_pattern_def split: option.splits)

lemma validate_absolute_path_Inr:
  "validate_absolute_path s = Inr t \<Longrightarrow> t = s \<and> validate_container_path (Some s) = Inr s"
  by (auto simp: validate_absolute_path_def validate_container_path_Inr split: if_splits)

lemma GROUP_CONTAINER: "GROUP = CONTAINER"
  by (simp add: GROUP_def CONTAINER_def)

text \<open>
  C1: every value a validator of \<^verbatim>\<open>core/validation.py\<close> or an install field check accepts, other
  than the empty one, is the value it was given and is inert in a shell script: not empty, without
  a blank, quote, expansion, redirection or control character, and not an option.
\<close>

theorem accepted_values_inert:
  assumes "check \<in> {validate_host, validate_version, validate_group, validate_token,
      validate_container_ref, validate_container_path}"
    and "check v = Inr s"
  shows "v = Some s \<and> shell_inert s \<and> set s \<inter> set shell_special = {}"
proof -
  from assms have s: "v = Some s \<and> shell_inert s"
    by (auto simp: validators_Inr validate_container_path_Inr host_match_def GROUP_CONTAINER [symmetric] intro: inert_patterns)
  then show ?thesis
    using shell_inert_not_special by (auto simp: shell_inert_def list_all_iff)
qed

theorem accepted_values_inert_witness:
  "validate_token (Some ''ab+/=_.:-'') = Inr ''ab+/=_.:-'' \<and> shell_inert ''ab+/=_.:-''"
proof -
  have "validate_token (Some ''ab+/=_.:-'') = Inr ''ab+/=_.:-''" by code_simp
  then show ?thesis
    using accepted_values_inert [of validate_token "Some ''ab+/=_.:-''" "''ab+/=_.:-''"] by simp
qed

section \<open>Paths and names\<close>

text \<open>
  Where a path leads: its components followed from a directory, where \<open>..\<close> leaves the directory
  and the empty component and \<open>.\<close> stay in it. Accepted paths only go down.
\<close>

primrec follow :: "string list \<Rightarrow> string list \<Rightarrow> string list" where
  "follow dir [] = dir"
| "follow dir (w # ws) =
     follow (if w = [] \<or> w = ''.'' then dir else if w = ''..'' then butlast dir else dir @ [w]) ws"

lemma follow_below: "''..'' \<notin> set ws \<Longrightarrow> prefix dir (follow dir ws)"
proof (induction ws arbitrary: dir)
  case (Cons w ws)
  let ?d = "if w = [] \<or> w = ''.'' then dir else if w = ''..'' then butlast dir else dir @ [w]"
  have "prefix dir ?d" using Cons.prems by auto
  also have "prefix ?d (follow ?d ws)" by (rule Cons.IH) (use Cons.prems in simp)
  finally show ?case by (simp only: follow.simps)
qed simp

lemma PATH_shape: "re_fullmatch PATH s \<Longrightarrow> \<exists>t. s = CHR ''/'' # t"
  unfolding PATH_def rchr_def re_fullmatch_def by (drule rmatch_head) auto

text \<open>
  A container path that \<open>validate_container_path\<close> or \<open>validate_absolute_path\<close> accepts is
  absolute and, joined to any directory of the host, leads to a place below that directory: no
  component of it goes up.
\<close>

theorem accepted_path_below:
  assumes "validate_container_path (Some s) = Inr t \<or> validate_absolute_path s = Inr t"
  shows "t = s \<and> hd s = CHR ''/'' \<and> prefix dir (follow dir (split_on (CHR ''/'') s))"
proof -
  from assms have "t = s \<and> re_fullmatch PATH s \<and> ''..'' \<notin> set (split_on (CHR ''/'') s)"
    by (auto simp: validate_container_path_Inr dest!: validate_absolute_path_Inr)
  then show ?thesis
    using PATH_shape [of s] follow_below by auto
qed

theorem accepted_path_below_witness:
  "validate_container_path (Some ''/var/log'') = Inr ''/var/log'' \<and>
   prefix [''rootfs''] (follow [''rootfs''] (split_on (CHR ''/'') ''/var/log''))"
proof -
  have "validate_container_path (Some ''/var/log'') = Inr ''/var/log''"
    by (simp add: validate_container_path_def check_pattern_def re_fullmatch_def PATH_def rchr_def
        mk_seq_def mk_alt_def one_of_def ascii_alnum_def ascii_digit_def ascii_upper_def
        ascii_lower_def cp_def)
  then show ?thesis using accepted_path_below [of "''/var/log''" "''/var/log''" "[''rootfs'']"] by simp
qed

lemma name_pattern_no_newline: "\<not> rmatch CONTAINER_NAME_PATTERN (t @ [CHR 0x0A])"
  using rmatch_chars [of CONTAINER_NAME_PATTERN "t @ [CHR 0x0A]" "CHR 0x0A"]
  by (auto simp: CONTAINER_NAME_PATTERN_def alnum_cls_def one_of_def ascii_alnum_def ascii_digit_def
      ascii_upper_def ascii_lower_def cp_def)

text \<open>
  \<open>validate_container_name\<close> accepts exactly the names of its pattern of at most 50 characters
  and, because \<open>$\<close> also matches before a final newline, those names of at most 49 characters
  followed by one newline.
\<close>

theorem container_name_language:
  "validate_container_name s \<longleftrightarrow>
     (rmatch CONTAINER_NAME_PATTERN s \<and> length s \<le> 50) \<or>
     (\<exists>t. s = t @ [CHR 0x0A] \<and> rmatch CONTAINER_NAME_PATTERN t \<and> length t < 50)"
  by (auto simp: validate_container_name_def re_match_anchored_iff)

end
