(* ===== verification/Systems.thy ===== *)
theory Systems
  imports Prelude
begin

text \<open>
  Interfaces shared by the stateful components. \<open>op_system\<close>: a state with operations that keep an
  invariant; \<open>op_frame\<close> adds a fact that a class of operations leaves alone, so that it survives any
  sequence of them. \<open>token_store\<close>: a store of revocable, expiring handles (sessions, API tokens,
  sign-in challenges); what is shown here once about revocation and expiry holds for each of them.
\<close>

section \<open>Operations on a state\<close>

definition run_ops :: "('o \<Rightarrow> 's \<Rightarrow> 's) \<Rightarrow> 'o list \<Rightarrow> 's \<Rightarrow> 's" where
  "run_ops step ops s = foldl (\<lambda>st op. step op st) s ops"

lemma run_ops_simps [simp]:
  "run_ops step [] s = s" "run_ops step (op # ops) s = run_ops step ops (step op s)"
  "run_ops step (ops @ ops') s = run_ops step ops' (run_ops step ops s)"
  by (simp_all add: run_ops_def)

locale op_system =
  fixes step :: "'o \<Rightarrow> 's \<Rightarrow> 's"
    and inv :: "'s \<Rightarrow> bool"
  assumes step_inv: "inv s \<Longrightarrow> inv (step op s)"
begin

lemma run_inv: "inv s \<Longrightarrow> inv (run_ops step ops s)"
  by (induction ops arbitrary: s) (auto intro: step_inv)

end

locale op_frame = op_system +
  fixes keeps :: "'s \<Rightarrow> bool"
    and allowed :: "'o \<Rightarrow> bool"
  assumes step_keeps: "inv s \<Longrightarrow> keeps s \<Longrightarrow> allowed op \<Longrightarrow> keeps (step op s)"
begin

lemma run_keeps: "inv s \<Longrightarrow> keeps s \<Longrightarrow> list_all allowed ops \<Longrightarrow> keeps (run_ops step ops s)"
  by (induction ops arbitrary: s) (auto intro: step_keeps step_inv)

end

section \<open>Revocable handles\<close>

text \<open>
  \<open>holder s now t\<close> is what the handle \<open>t\<close> stands for at time \<open>now\<close>, \<open>revoke t\<close> withdraws it. The
  laws: a revoked handle stands for nothing, the others are as before, and a handle that is live now
  was live at any earlier time.
\<close>

locale token_store =
  fixes ok :: "'s \<Rightarrow> bool"
    and holder :: "'s \<Rightarrow> 'time::linorder \<Rightarrow> 't \<Rightarrow> 'v option"
    and revoke :: "'t \<Rightarrow> 's \<Rightarrow> 's"
  assumes ok_revoke: "ok s \<Longrightarrow> ok (revoke t s)"
    and revoked: "ok s \<Longrightarrow> holder (revoke t s) now t = None"
    and revoke_other: "ok s \<Longrightarrow> t' \<noteq> t \<Longrightarrow> holder (revoke t s) now t' = holder s now t'"
    and holder_earlier: "ok s \<Longrightarrow> now \<le> now' \<Longrightarrow> holder s now' t = Some v \<Longrightarrow> holder s now t = Some v"
begin

lemma expired_stays: "ok s \<Longrightarrow> now \<le> now' \<Longrightarrow> holder s now t = None \<Longrightarrow> holder s now' t = None"
  using holder_earlier [of s now now' t] by (cases "holder s now' t") auto

lemma revoke_all_exactly:
  "ok s \<Longrightarrow> holder (run_ops revoke ts s) now t = (if t \<in> set ts then None else holder s now t)"
proof (induction ts arbitrary: s)
  case (Cons t' ts)
  then show ?case
    using ok_revoke [of s t'] revoked [of s t' now] revoke_other [of s t t' now] by (cases "t = t'") auto
qed simp

lemma revoke_all_ok: "ok s \<Longrightarrow> ok (run_ops revoke ts s)"
  by (induction ts arbitrary: s) (auto intro: ok_revoke)

text \<open>A handle withdrawn among others, or not live to begin with, is dead from then on.\<close>

lemma revoked_stays:
  assumes "ok s" and "now \<le> now'" and "t \<in> set ts \<or> holder s now t = None"
  shows "holder (run_ops revoke ts s) now' t = None"
  using assms revoke_all_exactly [of s ts now t] revoke_all_ok [of s ts]
    expired_stays [of "run_ops revoke ts s" now now' t] by auto

end

end
