(* ===== verification/Accounts_Db.thy ===== *)
theory Accounts_Db
  imports Systems "HOL-Library.List_Lexorder" "HOL-Library.Char_ord"
begin

text \<open>
  The tables of accounts, sessions and API tokens and the statements of \<^verbatim>\<open>db.py\<close> on them, one
  definition per function, with the current time as an argument. The schema is the one of the
  migrations 1 to 7: \<open>AUTOINCREMENT\<close> ids are kept as the next id, \<open>UNIQUE\<close> and foreign keys as the
  \<open>IntegrityError\<close> of an INSERT that breaks them, \<open>ON DELETE CASCADE\<close> in \<open>delete_user\<close>. A connection
  that raises before its commit leaves the tables as they were.
\<close>

section \<open>Rows\<close>

record user =
  u_id :: nat
  u_name :: string
  u_hash :: string
  u_is_admin :: bool
  u_role :: string
  u_created :: int
  u_last_login :: "int option"
  u_totp_secret :: "string option"
  u_totp_enabled :: bool
  u_totp_step :: "int option"
  u_recovery :: "string list option"
  u_subject :: "string option"
  u_team :: "nat option"
  u_max :: "nat option"

record session =
  s_hash :: string
  s_user :: nat
  s_created :: int
  s_expires :: int
  s_ip :: "string option"
  s_agent :: string
  s_seen :: "int option"

record api_token =
  t_id :: nat
  t_user :: nat
  t_name :: string
  t_hash :: string
  t_prefix :: string
  t_role :: string
  t_created :: int
  t_expires :: "int option"
  t_used_at :: "int option"
  t_used_ip :: "string option"

record accounts =
  users :: "user list"
  next_uid :: nat
  sessions :: "session list"
  tokens :: "api_token list"
  next_tid :: nat

datatype sql_error = IntegrityError

text \<open>SQLite's \<open>NOCASE\<close> folds the ASCII letters only.\<close>

definition nocase :: "string \<Rightarrow> string" where
  "nocase s = map (\<lambda>c. if ascii_upper c then char_of (cp c + 32) else c) s"

section \<open>Accounts\<close>

definition count_users :: "accounts \<Rightarrow> nat" where
  "count_users db = length (users db)"

definition new_user :: "nat \<Rightarrow> string \<Rightarrow> string \<Rightarrow> string \<Rightarrow> string option \<Rightarrow> int \<Rightarrow> user" where
  "new_user i name h role subject now =
     \<lparr>u_id = i, u_name = name, u_hash = h, u_is_admin = (role = ''admin''), u_role = role,
      u_created = now, u_last_login = None, u_totp_secret = None, u_totp_enabled = False,
      u_totp_step = None, u_recovery = None, u_subject = subject, u_team = None, u_max = None\<rparr>"

definition insert_user :: "user \<Rightarrow> accounts \<Rightarrow> accounts" where
  "insert_user u db = db\<lparr>users := users db @ [u], next_uid := Suc (next_uid db)\<rparr>"

definition create_first_user ::
  "int \<Rightarrow> string \<Rightarrow> string \<Rightarrow> accounts \<Rightarrow> accounts \<times> user option" where
  "create_first_user now name h db =
     (if count_users db \<noteq> 0 then (db, None)
      else let u = new_user (next_uid db) name h ''admin'' None now in (insert_user u db, Some u))"

definition get_user_by_username :: "string \<Rightarrow> accounts \<Rightarrow> user option" where
  "get_user_by_username name db = fetchone (\<lambda>u. nocase (u_name u) = nocase name) (users db)"

definition get_user_by_id :: "nat \<Rightarrow> accounts \<Rightarrow> user option" where
  "get_user_by_id i db = fetchone (\<lambda>u. u_id u = i) (users db)"

definition get_user_by_oidc_subject :: "string \<Rightarrow> accounts \<Rightarrow> user option" where
  "get_user_by_oidc_subject sub db = fetchone (\<lambda>u. u_subject u = Some sub) (users db)"

definition list_users :: "accounts \<Rightarrow> user list" where
  "list_users db = sort_key (\<lambda>u. nocase (u_name u)) (users db)"

definition create_user ::
  "int \<Rightarrow> string \<Rightarrow> string \<Rightarrow> string \<Rightarrow> accounts \<Rightarrow> accounts \<times> user option" where
  "create_user now name h role db =
     (if nocase name \<in> (nocase \<circ> u_name) ` set (users db) then (db, None)
      else let u = new_user (next_uid db) name h role None now in (insert_user u db, Some u))"

definition SSO_ONLY_PASSWORD :: string where
  "SSO_ONLY_PASSWORD = ''!sso''"

definition create_sso_user ::
  "int \<Rightarrow> string \<Rightarrow> string \<Rightarrow> string \<Rightarrow> accounts \<Rightarrow> accounts \<times> user option" where
  "create_sso_user now name subject role db =
     (if nocase name \<in> (nocase \<circ> u_name) ` set (users db) \<or> Some subject \<in> u_subject ` set (users db)
      then (db, None)
      else let u = new_user (next_uid db) name SSO_ONLY_PASSWORD role (Some subject) now in
        (insert_user u db, Some u))"

definition update_users :: "(user \<Rightarrow> bool) \<Rightarrow> (user \<Rightarrow> user) \<Rightarrow> accounts \<Rightarrow> accounts" where
  "update_users P f db = db\<lparr>users := sql_update P f (users db)\<rparr>"

definition update_user_password :: "nat \<Rightarrow> string \<Rightarrow> accounts \<Rightarrow> accounts" where
  "update_user_password i h = update_users (\<lambda>u. u_id u = i) (\<lambda>u. u\<lparr>u_hash := h\<rparr>)"

definition is_last_admin :: "nat \<Rightarrow> accounts \<Rightarrow> bool" where
  "is_last_admin i db = (case get_user_by_id i db of
     None \<Rightarrow> False
   | Some u \<Rightarrow> if \<not> u_is_admin u then False else rowcount u_is_admin (users db) \<le> 1)"

definition set_user_role :: "nat \<Rightarrow> string \<Rightarrow> accounts \<Rightarrow> accounts \<times> bool" where
  "set_user_role i role db =
     (if role \<noteq> ''admin'' \<and> is_last_admin i db then (db, False)
      else (update_users (\<lambda>u. u_id u = i)
              (\<lambda>u. u\<lparr>u_role := role, u_is_admin := (role = ''admin'')\<rparr>) db, True))"

definition delete_user :: "nat \<Rightarrow> accounts \<Rightarrow> accounts \<times> bool" where
  "delete_user i db =
     (if is_last_admin i db then (db, False)
      else (db\<lparr>sessions := sql_delete (\<lambda>s. s_user s = i) (sessions db),
               users := sql_delete (\<lambda>u. u_id u = i) (users db),
               tokens := sql_delete (\<lambda>t. t_user t = i) (tokens db)\<rparr>, True))"

definition update_user_last_login :: "int \<Rightarrow> nat \<Rightarrow> accounts \<Rightarrow> accounts" where
  "update_user_last_login now i = update_users (\<lambda>u. u_id u = i) (\<lambda>u. u\<lparr>u_last_login := Some now\<rparr>)"

section \<open>Two-factor columns\<close>

definition set_pending_totp :: "nat \<Rightarrow> string \<Rightarrow> accounts \<Rightarrow> accounts" where
  "set_pending_totp i enc = update_users (\<lambda>u. u_id u = i \<and> \<not> u_totp_enabled u)
     (\<lambda>u. u\<lparr>u_totp_secret := Some enc\<rparr>)"

definition enable_totp :: "nat \<Rightarrow> int \<Rightarrow> string list \<Rightarrow> accounts \<Rightarrow> accounts" where
  "enable_totp i step hashes = update_users (\<lambda>u. u_id u = i)
     (\<lambda>u. u\<lparr>u_totp_enabled := True, u_totp_step := Some step, u_recovery := Some hashes\<rparr>)"

definition disable_totp :: "nat \<Rightarrow> accounts \<Rightarrow> accounts" where
  "disable_totp i = update_users (\<lambda>u. u_id u = i)
     (\<lambda>u. u\<lparr>u_totp_enabled := False, u_totp_secret := None, u_totp_step := None, u_recovery := None\<rparr>)"

definition step_free :: "int \<Rightarrow> user \<Rightarrow> bool" where
  "step_free step u = (case u_totp_step u of None \<Rightarrow> True | Some l \<Rightarrow> l < step)"

definition claim_totp_step :: "nat \<Rightarrow> int \<Rightarrow> accounts \<Rightarrow> accounts \<times> bool" where
  "claim_totp_step i step db =
     (let P = (\<lambda>u. u_id u = i \<and> step_free step u) in
      (update_users P (\<lambda>u. u\<lparr>u_totp_step := Some step\<rparr>) db, rowcount P (users db) = 1))"

definition set_recovery_codes :: "nat \<Rightarrow> string list \<Rightarrow> accounts \<Rightarrow> accounts" where
  "set_recovery_codes i hashes = update_users (\<lambda>u. u_id u = i) (\<lambda>u. u\<lparr>u_recovery := Some hashes\<rparr>)"

definition user_codes :: "nat \<Rightarrow> accounts \<Rightarrow> string list" where
  "user_codes i db = (case get_user_by_id i db of
     None \<Rightarrow> [] | Some u \<Rightarrow> (case u_recovery u of None \<Rightarrow> [] | Some cs \<Rightarrow> cs))"

definition use_recovery_code :: "nat \<Rightarrow> string \<Rightarrow> accounts \<Rightarrow> accounts \<times> bool" where
  "use_recovery_code i h db =
     (let codes = user_codes i db in
      if h \<notin> set codes then (db, False)
      else (update_users (\<lambda>u. u_id u = i) (\<lambda>u. u\<lparr>u_recovery := Some (remove1 h codes)\<rparr>) db, True))"

section \<open>Sessions\<close>

definition live :: "int \<Rightarrow> session \<Rightarrow> bool" where
  "live now s = (now < s_expires s)"

definition create_session ::
  "int \<Rightarrow> string \<Rightarrow> nat \<Rightarrow> int \<Rightarrow> string option \<Rightarrow> string option \<Rightarrow> accounts \<Rightarrow> sql_error + accounts" where
  "create_session now h i expires ip agent db =
     (let kept = sql_delete (\<lambda>s. s_expires s \<le> now) (sessions db) in
      if h \<in> s_hash ` set kept \<or> i \<notin> u_id ` set (users db) then Inl IntegrityError
      else Inr (db\<lparr>sessions := kept @
        [\<lparr>s_hash = h, s_user = i, s_created = now, s_expires = expires, s_ip = ip,
          s_agent = take 300 (case agent of None \<Rightarrow> [] | Some a \<Rightarrow> a), s_seen = Some now\<rparr>]\<rparr>))"

definition touch_session :: "int \<Rightarrow> string \<Rightarrow> string option \<Rightarrow> accounts \<Rightarrow> accounts" where
  "touch_session now h ip db = db\<lparr>sessions := sql_update (\<lambda>s. s_hash s = h)
     (\<lambda>s. s\<lparr>s_seen := Some now, s_ip := (case ip of None \<Rightarrow> s_ip s | Some a \<Rightarrow> Some a)\<rparr>) (sessions db)\<rparr>"

definition last_seen :: "session \<Rightarrow> int" where
  "last_seen s = (case s_seen s of None \<Rightarrow> s_created s | Some t \<Rightarrow> t)"

definition list_user_sessions :: "int \<Rightarrow> nat \<Rightarrow> accounts \<Rightarrow> session list" where
  "list_user_sessions now i db =
     sort_key (\<lambda>s. - last_seen s) (filter (\<lambda>s. s_user s = i \<and> live now s) (sessions db))"

text \<open>The joined row: the user, and when the session was last seen.\<close>

definition get_session_user :: "int \<Rightarrow> string \<Rightarrow> accounts \<Rightarrow> (user \<times> int option) option" where
  "get_session_user now h db = (case fetchone (\<lambda>s. s_hash s = h \<and> live now s) (sessions db) of
     None \<Rightarrow> None
   | Some s \<Rightarrow> (case get_user_by_id (s_user s) db of None \<Rightarrow> None | Some u \<Rightarrow> Some (u, s_seen s)))"

definition delete_session :: "string \<Rightarrow> accounts \<Rightarrow> accounts" where
  "delete_session h db = db\<lparr>sessions := sql_delete (\<lambda>s. s_hash s = h) (sessions db)\<rparr>"

definition delete_user_sessions :: "nat \<Rightarrow> string option \<Rightarrow> accounts \<Rightarrow> accounts" where
  "delete_user_sessions i keep db =
     db\<lparr>sessions := sql_delete (\<lambda>s. s_user s = i \<and> Some (s_hash s) \<noteq> keep) (sessions db)\<rparr>"

definition prune_expired_sessions :: "int \<Rightarrow> accounts \<Rightarrow> accounts \<times> nat" where
  "prune_expired_sessions now db =
     (db\<lparr>sessions := sql_delete (\<lambda>s. s_expires s \<le> now) (sessions db)\<rparr>,
      rowcount (\<lambda>s. s_expires s \<le> now) (sessions db))"

section \<open>API tokens\<close>

definition create_api_token ::
  "int \<Rightarrow> nat \<Rightarrow> string \<Rightarrow> string \<Rightarrow> string \<Rightarrow> string \<Rightarrow> int option \<Rightarrow> accounts
    \<Rightarrow> sql_error + accounts \<times> api_token" where
  "create_api_token now i name h pre role expires db =
     (if h \<in> t_hash ` set (tokens db) \<or> i \<notin> u_id ` set (users db) then Inl IntegrityError
      else let t = \<lparr>t_id = next_tid db, t_user = i, t_name = name, t_hash = h, t_prefix = pre,
                    t_role = role, t_created = now, t_expires = expires, t_used_at = None,
                    t_used_ip = None\<rparr>
           in Inr (db\<lparr>tokens := tokens db @ [t], next_tid := Suc (next_tid db)\<rparr>, t))"

definition list_api_tokens :: "nat option \<Rightarrow> accounts \<Rightarrow> (api_token \<times> string) list" where
  "list_api_tokens who db =
     (let joined = [(t, u_name u). t \<leftarrow> tokens db, u \<leftarrow> users db, u_id u = t_user t];
          rows = (case who of None \<Rightarrow> joined | Some i \<Rightarrow> filter (\<lambda>(t, _). t_user t = i) joined)
      in sort_key (\<lambda>(t, _). - t_created t) rows)"

definition token_live :: "int \<Rightarrow> api_token \<Rightarrow> bool" where
  "token_live now t = (case t_expires t of None \<Rightarrow> True | Some e \<Rightarrow> now < e)"

definition get_api_token_user :: "int \<Rightarrow> string \<Rightarrow> accounts \<Rightarrow> (user \<times> api_token) option" where
  "get_api_token_user now h db = (case fetchone (\<lambda>t. t_hash t = h \<and> token_live now t) (tokens db) of
     None \<Rightarrow> None
   | Some t \<Rightarrow> (case get_user_by_id (t_user t) db of None \<Rightarrow> None | Some u \<Rightarrow> Some (u, t)))"

definition touch_api_token :: "int \<Rightarrow> nat \<Rightarrow> string option \<Rightarrow> accounts \<Rightarrow> accounts" where
  "touch_api_token now i ip db = db\<lparr>tokens := sql_update (\<lambda>t. t_id t = i)
     (\<lambda>t. t\<lparr>t_used_at := Some now, t_used_ip := (case ip of None \<Rightarrow> t_used_ip t | Some a \<Rightarrow> Some a)\<rparr>)
     (tokens db)\<rparr>"

definition delete_api_token ::
  "nat \<Rightarrow> nat option \<Rightarrow> accounts \<Rightarrow> accounts \<times> (api_token \<times> string) option" where
  "delete_api_token tid who db = (case fetchone (\<lambda>t. t_id t = tid) (tokens db) of
     None \<Rightarrow> (db, None)
   | Some t \<Rightarrow> (case get_user_by_id (t_user t) db of
       None \<Rightarrow> (db, None)
     | Some u \<Rightarrow> if who \<noteq> None \<and> who \<noteq> Some (t_user t) then (db, None)
         else (db\<lparr>tokens := sql_delete (\<lambda>t. t_id t = tid) (tokens db)\<rparr>, Some (t, u_name u))))"

definition delete_expired_api_tokens :: "int \<Rightarrow> accounts \<Rightarrow> accounts \<times> nat" where
  "delete_expired_api_tokens now db =
     (db\<lparr>tokens := sql_delete (\<lambda>t. \<not> token_live now t) (tokens db)\<rparr>,
      rowcount (\<lambda>t. \<not> token_live now t) (tokens db))"

section \<open>The operations together\<close>

text \<open>Every statement that changes the tables; a raised \<open>IntegrityError\<close> changes nothing.\<close>

datatype account_op =
    CreateFirstUser int string string
  | CreateUser int string string string
  | CreateSsoUser int string string string
  | UpdatePassword nat string
  | SetRole nat string
  | DeleteUser nat
  | LastLogin int nat
  | SetPendingTotp nat string
  | EnableTotp nat int "string list"
  | DisableTotp nat
  | ClaimStep nat int
  | SetRecovery nat "string list"
  | UseRecovery nat string
  | CreateSession int string nat int "string option" "string option"
  | TouchSession int string "string option"
  | DeleteSession string
  | DeleteUserSessions nat "string option"
  | PruneSessions int
  | CreateToken int nat string string string string "int option"
  | TouchToken int nat "string option"
  | DeleteToken nat "nat option"
  | PruneTokens int

primrec exec_op :: "account_op \<Rightarrow> accounts \<Rightarrow> accounts" where
  "exec_op (CreateFirstUser now n h) db = fst (create_first_user now n h db)"
| "exec_op (CreateUser now n h r) db = fst (create_user now n h r db)"
| "exec_op (CreateSsoUser now n s r) db = fst (create_sso_user now n s r db)"
| "exec_op (UpdatePassword i h) db = update_user_password i h db"
| "exec_op (SetRole i r) db = fst (set_user_role i r db)"
| "exec_op (DeleteUser i) db = fst (delete_user i db)"
| "exec_op (LastLogin now i) db = update_user_last_login now i db"
| "exec_op (SetPendingTotp i enc) db = set_pending_totp i enc db"
| "exec_op (EnableTotp i st hs) db = enable_totp i st hs db"
| "exec_op (DisableTotp i) db = disable_totp i db"
| "exec_op (ClaimStep i st) db = fst (claim_totp_step i st db)"
| "exec_op (SetRecovery i hs) db = set_recovery_codes i hs db"
| "exec_op (UseRecovery i h) db = fst (use_recovery_code i h db)"
| "exec_op (CreateSession now h i e ip a) db =
     (case create_session now h i e ip a db of Inl _ \<Rightarrow> db | Inr db' \<Rightarrow> db')"
| "exec_op (TouchSession now h ip) db = touch_session now h ip db"
| "exec_op (DeleteSession h) db = delete_session h db"
| "exec_op (DeleteUserSessions i k) db = delete_user_sessions i k db"
| "exec_op (PruneSessions now) db = fst (prune_expired_sessions now db)"
| "exec_op (CreateToken now i n h p r e) db =
     (case create_api_token now i n h p r e db of Inl _ \<Rightarrow> db | Inr (db', _) \<Rightarrow> db')"
| "exec_op (TouchToken now i ip) db = touch_api_token now i ip db"
| "exec_op (DeleteToken i who) db = fst (delete_api_token i who db)"
| "exec_op (PruneTokens now) db = fst (delete_expired_api_tokens now db)"

definition empty_accounts :: accounts where
  "empty_accounts = \<lparr>users = [], next_uid = 1, sessions = [], tokens = [], next_tid = 1\<rparr>"

lemmas account_defs =
  create_first_user_def create_user_def create_sso_user_def update_user_password_def
  set_user_role_def delete_user_def update_user_last_login_def set_pending_totp_def enable_totp_def
  disable_totp_def claim_totp_step_def set_recovery_codes_def use_recovery_code_def
  create_session_def touch_session_def delete_session_def delete_user_sessions_def
  prune_expired_sessions_def create_api_token_def touch_api_token_def delete_api_token_def
  delete_expired_api_tokens_def

end
