(* ===== verification/Accounts.thy ===== *)
theory Accounts
  imports Accounts_Db
begin

text \<open>
  The invariant of the account tables and what it gives: ids, names and subjects are unique, the
  admin flag agrees with the role, sessions and tokens belong to existing accounts; the last
  administrator can not be lost; a second factor is used at most once; revoked sessions and tokens
  stay revoked.
\<close>

section \<open>The invariant\<close>

definition users_ok :: "accounts \<Rightarrow> bool" where
  "users_ok db =
     (1 \<le> next_uid db \<and> distinct (map u_id (users db)) \<and>
      list_all (\<lambda>u. 1 \<le> u_id u \<and> u_id u < next_uid db) (users db) \<and>
      distinct (map (nocase \<circ> u_name) (users db)) \<and>
      distinct (filter (\<lambda>x. x \<noteq> None) (map u_subject (users db))) \<and>
      list_all (\<lambda>u. u_is_admin u = (u_role u = ''admin'')) (users db))"

definition sessions_ok :: "accounts \<Rightarrow> bool" where
  "sessions_ok db =
     (distinct (map s_hash (sessions db)) \<and>
      list_all (\<lambda>s. s_user s \<in> u_id ` set (users db)) (sessions db))"

definition tokens_ok :: "accounts \<Rightarrow> bool" where
  "tokens_ok db =
     (distinct (map t_id (tokens db)) \<and> distinct (map t_hash (tokens db)) \<and>
      list_all (\<lambda>t. t_id t < next_tid db) (tokens db) \<and>
      list_all (\<lambda>t. t_user t \<in> u_id ` set (users db)) (tokens db))"

definition db_ok :: "accounts \<Rightarrow> bool" where
  "db_ok db = (users_ok db \<and> sessions_ok db \<and> tokens_ok db)"

definition has_admin :: "accounts \<Rightarrow> bool" where
  "has_admin db = list_ex (\<lambda>u. u_role u = ''admin'') (users db)"

lemma db_okI: "users_ok db \<Longrightarrow> sessions_ok db \<Longrightarrow> tokens_ok db \<Longrightarrow> db_ok db"
  by (simp add: db_ok_def)

lemma db_ok_unfold:
  assumes "db_ok db"
  shows "users_ok db" "sessions_ok db" "tokens_ok db" "distinct (map u_id (users db))"
    "distinct (map (nocase \<circ> u_name) (users db))"
  using assms by (auto simp: db_ok_def users_ok_def)

text \<open>Updates of users that leave the key columns and the role alone.\<close>

definition harmless :: "(user \<Rightarrow> user) \<Rightarrow> bool" where
  "harmless f \<longleftrightarrow> (\<forall>u. u_id (f u) = u_id u \<and> u_name (f u) = u_name u \<and> u_subject (f u) = u_subject u
     \<and> u_role (f u) = u_role u \<and> u_is_admin (f u) = u_is_admin u)"

lemma update_users_simps [simp]:
  "users (update_users P f db) = sql_update P f (users db)"
  "sessions (update_users P f db) = sessions db" "tokens (update_users P f db) = tokens db"
  "next_uid (update_users P f db) = next_uid db" "next_tid (update_users P f db) = next_tid db"
  by (simp_all add: update_users_def)

lemma update_keeps_ids:
  assumes "\<And>u. u_id (f u) = u_id u"
  shows "u_id ` set (sql_update P f us) = u_id ` set us"
  using sql_update_keeps [of P u_id f us] assms by (metis list.set_map)

lemma sessions_ok_users:
  "sessions_ok db \<Longrightarrow> sessions db' = sessions db \<Longrightarrow> u_id ` set (users db) \<subseteq> u_id ` set (users db')
    \<Longrightarrow> sessions_ok db'"
  by (auto simp: sessions_ok_def list_all_iff)

lemma tokens_ok_users:
  "tokens_ok db \<Longrightarrow> tokens db' = tokens db \<Longrightarrow> next_tid db' = next_tid db \<Longrightarrow>
    u_id ` set (users db) \<subseteq> u_id ` set (users db') \<Longrightarrow> tokens_ok db'"
  by (auto simp: tokens_ok_def list_all_iff)

lemma update_users_ok:
  assumes f: "\<And>u. u_id (f u) = u_id u \<and> u_name (f u) = u_name u \<and> u_subject (f u) = u_subject u"
    and r: "\<And>u. u_is_admin u = (u_role u = ''admin'') \<Longrightarrow> u_is_admin (f u) = (u_role (f u) = ''admin'')"
    and ok: "db_ok db"
  shows "db_ok (update_users P f db)"
proof (rule db_okI)
  have m: "map u_id (sql_update P f (users db)) = map u_id (users db)"
    "map (nocase \<circ> u_name) (sql_update P f (users db)) = map (nocase \<circ> u_name) (users db)"
    "map u_subject (sql_update P f (users db)) = map u_subject (users db)"
    by (rule sql_update_keeps; simp add: f)+
  show "users_ok (update_users P f db)"
    using ok r f unfolding db_ok_def users_ok_def update_users_simps m
    by (auto simp: list_all_iff set_sql_update)
  have ids: "u_id ` set (users (update_users P f db)) = u_id ` set (users db)"
    using f by (simp add: update_keeps_ids)
  show "sessions_ok (update_users P f db)" "tokens_ok (update_users P f db)"
    using ok ids by (auto simp: db_ok_def intro: sessions_ok_users tokens_ok_users)
qed

lemma insert_user_ok:
  assumes ok: "db_ok db"
    and u: "u_id u = next_uid db" "u_is_admin u = (u_role u = ''admin'')"
    and name: "nocase (u_name u) \<notin> (nocase \<circ> u_name) ` set (users db)"
    and sub: "u_subject u = None \<or> u_subject u \<notin> u_subject ` set (users db)"
  shows "db_ok (insert_user u db)"
proof (rule db_okI)
  have lt: "\<And>v. v \<in> set (users db) \<Longrightarrow> u_id v < next_uid db"
    using ok by (auto simp: db_ok_def users_ok_def list_all_iff)
  then have new: "next_uid db \<notin> u_id ` set (users db)" by force
  show "users_ok (insert_user u db)"
    using ok u name sub new unfolding db_ok_def users_ok_def insert_user_def
    by (auto simp: list_all_iff less_Suc_eq)
qed (use ok in \<open>auto simp: db_ok_def insert_user_def intro: sessions_ok_users tokens_ok_users\<close>)

section \<open>Every operation keeps the invariant\<close>

lemma create_first_user_ok: "db_ok db \<Longrightarrow> db_ok (fst (create_first_user now n h db))"
  by (auto simp: create_first_user_def Let_def new_user_def count_users_def intro!: insert_user_ok)

lemma create_user_ok: "db_ok db \<Longrightarrow> db_ok (fst (create_user now n h r db))"
  by (auto simp: create_user_def Let_def new_user_def intro!: insert_user_ok)

lemma create_sso_user_ok: "db_ok db \<Longrightarrow> db_ok (fst (create_sso_user now n s r db))"
  by (auto simp: create_sso_user_def Let_def new_user_def intro!: insert_user_ok) (metis image_eqI)

lemma distinct_filter_map_sublist:
  "distinct (filter p (map k xs)) \<Longrightarrow> distinct (filter p (map k (filter q xs)))"
  by (induction xs) auto

lemma delete_user_ok: "db_ok db \<Longrightarrow> db_ok (fst (delete_user i db))"
  by (auto simp: delete_user_def db_ok_def users_ok_def sessions_ok_def tokens_ok_def sql_delete_def
      list_all_iff distinct_map_filter intro: distinct_filter_map_sublist)

lemma update_ops_ok:
  assumes "db_ok db"
  shows "db_ok (update_user_password i h db)" "db_ok (fst (set_user_role i r db))"
    "db_ok (update_user_last_login now i db)" "db_ok (set_pending_totp i enc db)"
    "db_ok (enable_totp i st hs db)" "db_ok (disable_totp i db)" "db_ok (fst (claim_totp_step i st db))"
    "db_ok (set_recovery_codes i hs db)" "db_ok (fst (use_recovery_code i h db))"
  using assms by (auto simp: account_defs Let_def intro!: update_users_ok)

text \<open>The session and token statements leave the accounts alone.\<close>

lemma sessions_subset_ok:
  assumes "db_ok db" and "set ss \<subseteq> set (sessions db)" and "distinct (map s_hash ss)"
  shows "db_ok (db\<lparr>sessions := ss\<rparr>)"
  using assms by (auto simp: db_ok_def users_ok_def sessions_ok_def tokens_ok_def list_all_iff)

lemma tokens_subset_ok:
  assumes "db_ok db" and "set ts \<subseteq> set (tokens db)" and "distinct (map t_id ts)"
    and "distinct (map t_hash ts)"
  shows "db_ok (db\<lparr>tokens := ts\<rparr>)"
  using assms by (auto simp: db_ok_def users_ok_def sessions_ok_def tokens_ok_def list_all_iff)

lemma session_delete_ok: "db_ok db \<Longrightarrow> db_ok (db\<lparr>sessions := sql_delete P (sessions db)\<rparr>)"
  by (rule sessions_subset_ok) (auto simp: db_ok_def sessions_ok_def)

lemma token_delete_ok: "db_ok db \<Longrightarrow> db_ok (db\<lparr>tokens := sql_delete P (tokens db)\<rparr>)"
  by (rule tokens_subset_ok) (auto simp: db_ok_def tokens_ok_def)

lemma create_session_ok:
  "db_ok db \<Longrightarrow> create_session now h i e ip a db = Inr db' \<Longrightarrow> db_ok db'"
  by (auto simp: create_session_def Let_def db_ok_def users_ok_def sessions_ok_def tokens_ok_def
      list_all_iff sql_delete_def distinct_map_filter split: if_splits)

lemma create_api_token_ok:
  "db_ok db \<Longrightarrow> create_api_token now i n h p r e db = Inr (db', t) \<Longrightarrow> db_ok db'"
  by (auto simp: create_api_token_def Let_def db_ok_def users_ok_def sessions_ok_def tokens_ok_def
      list_all_iff split: if_splits; fastforce)

lemma touch_session_ok: "db_ok db \<Longrightarrow> db_ok (touch_session now h ip db)"
  by (auto simp: touch_session_def db_ok_def users_ok_def sessions_ok_def tokens_ok_def list_all_iff
      set_sql_update sql_update_keeps [where k = s_hash])

lemma touch_api_token_ok: "db_ok db \<Longrightarrow> db_ok (touch_api_token now i ip db)"
  by (auto simp: touch_api_token_def db_ok_def users_ok_def sessions_ok_def tokens_ok_def list_all_iff
      set_sql_update sql_update_keeps [where k = t_hash] sql_update_keeps [where k = t_id])

lemma delete_api_token_ok: "db_ok db \<Longrightarrow> db_ok (fst (delete_api_token i who db))"
  by (auto simp: delete_api_token_def token_delete_ok split: option.splits)

lemmas op_ok = create_first_user_ok create_user_ok create_sso_user_ok delete_user_ok update_ops_ok
  session_delete_ok token_delete_ok touch_session_ok touch_api_token_ok delete_api_token_ok

lemma exec_op_ok: "db_ok db \<Longrightarrow> db_ok (exec_op op db)"
proof (cases op)
  case (CreateSession now h i e ip a)
  assume "db_ok db"
  with CreateSession show ?thesis
    by (auto split: sum.splits intro: create_session_ok)
next
  case (CreateToken now i n h p r e)
  assume "db_ok db"
  with CreateToken show ?thesis
    by (auto split: sum.splits intro: create_api_token_ok)
qed (simp_all add: op_ok delete_session_def delete_user_sessions_def prune_expired_sessions_def
    delete_expired_api_tokens_def)

interpretation acc: op_system exec_op db_ok
  by unfold_locales (rule exec_op_ok)

lemma empty_accounts_ok [simp]: "db_ok empty_accounts"
  by (simp add: empty_accounts_def db_ok_def users_ok_def sessions_ok_def tokens_ok_def)

text \<open>
  C3: whatever statements run, from an empty database or any consistent one: account ids, names
  (ignoring case) and single sign-on subjects stay unique, the admin flag agrees with the role, and
  every session and API token belongs to an existing account.
\<close>

theorem accounts_consistent:
  assumes "db_ok db"
  shows "db_ok (run_ops exec_op ops db)"
  using assms by (rule acc.run_inv)

theorem accounts_consistent_witness:
  "db_ok (run_ops exec_op [CreateFirstUser 0 ''Root'' ''h'', CreateUser 1 ''root'' ''g'' ''viewer'',
     CreateSession 2 ''s'' 1 9 None None, DeleteUser 1] empty_accounts)"
  using accounts_consistent [OF empty_accounts_ok] .

section \<open>The last administrator\<close>

lemma has_admin_ex: "has_admin db \<longleftrightarrow> (\<exists>u\<in>set (users db). u_role u = ''admin'')"
  by (simp add: has_admin_def list_ex_iff)

lemma has_admin_insert: "has_admin db \<Longrightarrow> has_admin (insert_user u db)"
  by (simp add: has_admin_def insert_user_def)

lemma has_admin_update:
  assumes "has_admin db" and "\<And>u. u_role u = ''admin'' \<Longrightarrow> u_role (f u) = ''admin''"
  shows "has_admin (update_users P f db)"
  using assms by (auto simp: has_admin_ex set_sql_update)

lemma distinct_le_1: "distinct xs \<Longrightarrow> set xs \<subseteq> {a} \<Longrightarrow> length xs \<le> 1"
  by (cases xs; cases "tl xs") auto

text \<open>When the account is not the last administrator, another one is left without it.\<close>

lemma other_admin:
  assumes ok: "db_ok db" and adm: "has_admin db" and nl: "\<not> is_last_admin i db"
  shows "\<exists>u\<in>set (users db). u_role u = ''admin'' \<and> u_id u \<noteq> i"
proof (rule ccontr)
  assume none: "\<not> ?thesis"
  from adm obtain a where a: "a \<in> set (users db)" "u_role a = ''admin''" by (auto simp: has_admin_ex)
  with none have i: "u_id a = i" by auto
  have flag: "\<And>u. u \<in> set (users db) \<Longrightarrow> u_is_admin u \<longleftrightarrow> u_role u = ''admin''"
    using ok by (auto simp: db_ok_def users_ok_def list_all_iff)
  have dist: "distinct (map u_id (users db))" using ok by (rule db_ok_unfold)
  have get: "get_user_by_id i db = Some a"
    using fetchone_key [OF dist a(1)] i by (simp add: get_user_by_id_def)
  have "set (filter u_is_admin (users db)) \<subseteq> {a}"
  proof (rule subsetI)
    fix u
    assume "u \<in> set (filter u_is_admin (users db))"
    then have u: "u \<in> set (users db)" "u_role u = ''admin''" using flag by auto
    with none have "u_id u = u_id a" using i by blast
    then show "u \<in> {a}" using distinct_map_eq [OF dist u(1) a(1)] by simp
  qed
  moreover have "distinct (filter u_is_admin (users db))"
    using dist by (simp add: distinct_map)
  ultimately have "length (filter u_is_admin (users db)) \<le> 1"
    by (intro distinct_le_1)
  with nl get a flag show False
    by (auto simp: is_last_admin_def rowcount_def split: if_splits)
qed

lemma set_user_role_admin:
  assumes "db_ok db" "has_admin db"
  shows "has_admin (fst (set_user_role i r db))"
proof (cases "r = ''admin''")
  case True
  then show ?thesis using assms by (auto simp: set_user_role_def intro: has_admin_update)
next
  case False
  then show ?thesis
    using assms other_admin [of db i]
    by (auto simp: set_user_role_def has_admin_ex set_sql_update)
qed

lemma delete_user_admin:
  assumes "db_ok db" "has_admin db"
  shows "has_admin (fst (delete_user i db))"
  using assms other_admin [of db i] by (auto simp: delete_user_def has_admin_ex)

lemma insert_ops_admin:
  assumes "has_admin db"
  shows "has_admin (fst (create_first_user now n h db))" "has_admin (fst (create_user now n h r db))"
    "has_admin (fst (create_sso_user now n s r db))"
  using assms
  by (simp_all add: create_first_user_def create_user_def create_sso_user_def Let_def has_admin_insert)

lemma update_ops_admin:
  assumes "has_admin db"
  shows "has_admin (update_user_password i h db)" "has_admin (update_user_last_login now i db)"
    "has_admin (set_pending_totp i enc db)" "has_admin (enable_totp i st hs db)"
    "has_admin (disable_totp i db)" "has_admin (fst (claim_totp_step i st db))"
    "has_admin (set_recovery_codes i hs db)" "has_admin (fst (use_recovery_code i h db))"
  using assms by (simp_all add: account_defs Let_def has_admin_update)

lemma users_frame [simp]:
  "users (touch_session now h ip db) = users db" "users (delete_session h db) = users db"
  "users (delete_user_sessions i k db) = users db"
  "users (fst (prune_expired_sessions now db)) = users db"
  "users (touch_api_token now j ip db) = users db" "users (fst (delete_api_token j who db)) = users db"
  "users (fst (delete_expired_api_tokens now db)) = users db"
  "create_session now h i e ip ag db = Inr db' \<Longrightarrow> users db' = users db"
  "create_api_token now i n h pr ro ex db = Inr (db', t) \<Longrightarrow> users db' = users db"
  by (auto simp: account_defs Let_def split: option.splits if_splits)

text \<open>The statements that are only about sessions and tokens; one fact gives their frame.\<close>

fun users_op :: "account_op \<Rightarrow> bool" where
  "users_op (CreateSession _ _ _ _ _ _) = False"
| "users_op (TouchSession _ _ _) = False"
| "users_op (DeleteSession _) = False"
| "users_op (DeleteUserSessions _ _) = False"
| "users_op (PruneSessions _) = False"
| "users_op (CreateToken _ _ _ _ _ _ _) = False"
| "users_op (TouchToken _ _ _) = False"
| "users_op (DeleteToken _ _) = False"
| "users_op (PruneTokens _) = False"
| "users_op _ = True"

lemma users_op_frame: "\<not> users_op op \<Longrightarrow> users (exec_op op db) = users db"
  by (cases op) (auto split: sum.splits)

lemma exec_op_admin:
  assumes "db_ok db" "has_admin db"
  shows "has_admin (exec_op op db)"
proof (cases "users_op op")
  case True
  then show ?thesis
    using assms set_user_role_admin [OF assms] delete_user_admin [OF assms]
    by (cases op) (simp_all add: insert_ops_admin update_ops_admin)
qed (use assms users_op_frame in \<open>simp add: has_admin_def\<close>)

interpretation adm: op_frame exec_op db_ok has_admin "\<lambda>_. True"
  by unfold_locales (rule exec_op_admin)

lemma first_admin: "has_admin (exec_op (CreateFirstUser now n h) empty_accounts)"
  by (simp add: has_admin_def create_first_user_def count_users_def empty_accounts_def Let_def
      insert_user_def new_user_def)

text \<open>
  C4: once there is an administrator there always is one: no sequence of statements, in any order,
  loses the last account with the admin role.
\<close>

theorem last_admin_kept:
  assumes "db_ok db" and "has_admin db"
  shows "has_admin (run_ops exec_op ops db)"
  using adm.run_keeps [OF assms] by (simp add: list_all_iff)

theorem last_admin_kept_witness:
  "has_admin (run_ops exec_op [SetRole 1 ''viewer'', DeleteUser 1]
     (exec_op (CreateFirstUser 0 ''root'' ''h'') empty_accounts))"
  by (rule last_admin_kept [OF exec_op_ok [OF empty_accounts_ok] first_admin])

section \<open>Second factors are used once\<close>

text \<open>A fact about one account's row. Ids are never reused, so a new account can not break it.\<close>

definition row_fact :: "nat \<Rightarrow> (user \<Rightarrow> bool) \<Rightarrow> accounts \<Rightarrow> bool" where
  "row_fact i P db = (i < next_uid db \<and> list_all (\<lambda>u. u_id u = i \<longrightarrow> P u) (users db))"

lemma row_fact_insert:
  "row_fact i P db \<Longrightarrow> u_id u = next_uid db \<Longrightarrow> row_fact i P (insert_user u db)"
  by (auto simp: row_fact_def insert_user_def)

lemma row_fact_update:
  assumes "row_fact i P db" and "\<And>u. u_id (f u) = u_id u"
    and "\<And>u. P u \<Longrightarrow> u_id u = i \<Longrightarrow> Q u \<Longrightarrow> P (f u)"
  shows "row_fact i P (update_users Q f db)"
  using assms by (auto simp: row_fact_def list_all_iff set_sql_update)

lemma row_fact_updateI:
  assumes "i < next_uid db" and "\<And>u. u_id (f u) = u_id u"
    and "\<And>u. u \<in> set (users db) \<Longrightarrow> u_id u = i \<Longrightarrow> P (if Q u then f u else u)"
  shows "row_fact i P (update_users Q f db)"
proof -
  have "P v" if v: "v \<in> set (sql_update Q f (users db))" "u_id v = i" for v
  proof -
    from v(1) obtain u where u: "u \<in> set (users db)" "v = (if Q u then f u else u)"
      by (auto simp: sql_update_def)
    then have "u_id u = i" using v(2) assms(2) by (auto split: if_splits)
    then show ?thesis using assms(3) u by blast
  qed
  then show ?thesis using assms(1) by (simp add: row_fact_def list_all_iff)
qed

lemma row_fact_delete: "row_fact i P db \<Longrightarrow> row_fact i P (fst (delete_user j db))"
  by (auto simp: row_fact_def delete_user_def list_all_iff)

lemma next_uid_frame [simp]:
  "next_uid (touch_session now h ip db) = next_uid db" "next_uid (delete_session h db) = next_uid db"
  "next_uid (delete_user_sessions i k db) = next_uid db"
  "next_uid (fst (prune_expired_sessions now db)) = next_uid db"
  "next_uid (touch_api_token now j ip db) = next_uid db"
  "next_uid (fst (delete_api_token j who db)) = next_uid db"
  "next_uid (fst (delete_expired_api_tokens now db)) = next_uid db"
  by (simp_all add: touch_session_def delete_session_def delete_user_sessions_def
      prune_expired_sessions_def touch_api_token_def delete_expired_api_tokens_def
      delete_api_token_def split: option.splits)

lemma next_uid_create:
  "create_session now h i e ip ag db = Inr db' \<Longrightarrow> next_uid db' = next_uid db"
  "create_api_token now i n h pr ro ex db = Inr (db', t) \<Longrightarrow> next_uid db' = next_uid db"
  unfolding create_session_def create_api_token_def Let_def if_Inl_Inr prod.inject
  by (elim conjE, hypsubst, simp)+

lemma next_uid_op: "\<not> users_op op \<Longrightarrow> next_uid (exec_op op db) = next_uid db"
  by (cases op) (auto split: sum.splits dest: next_uid_create)

lemma row_fact_frame: "\<not> users_op op \<Longrightarrow> row_fact i P db \<Longrightarrow> row_fact i P (exec_op op db)"
  by (simp add: row_fact_def users_op_frame next_uid_op)

lemma row_fact_create:
  assumes "row_fact i P db"
  shows "row_fact i P (fst (create_first_user now n h db))" "row_fact i P (fst (create_user now n h r db))"
    "row_fact i P (fst (create_sso_user now n s r db))"
  using assms by (simp_all add: create_first_user_def create_user_def create_sso_user_def Let_def
      row_fact_insert new_user_def)

text \<open>The time step of the last authenticator code only grows.\<close>

definition step_used :: "int \<Rightarrow> user \<Rightarrow> bool" where
  "step_used st u = (case u_totp_step u of None \<Rightarrow> False | Some l \<Rightarrow> st \<le> l)"

fun resets_totp :: "nat \<Rightarrow> account_op \<Rightarrow> bool" where
  "resets_totp i (EnableTotp j _ _) = (i = j)"
| "resets_totp i (DisableTotp j) = (i = j)"
| "resets_totp i _ = False"

lemma step_used_kept:
  assumes "row_fact i (step_used st) db" and "\<not> resets_totp i op"
  shows "row_fact i (step_used st) (exec_op op db)"
proof (cases "users_op op")
  case True
  with assms show ?thesis
    by (cases op) (auto simp: row_fact_create row_fact_delete update_user_password_def
        set_user_role_def update_user_last_login_def set_pending_totp_def enable_totp_def
        disable_totp_def claim_totp_step_def set_recovery_codes_def use_recovery_code_def Let_def
        step_used_def step_free_def intro!: row_fact_update split: option.splits)
qed (use assms row_fact_frame in blast)

interpretation totp: op_frame exec_op db_ok "row_fact i (step_used st)" "\<lambda>op. \<not> resets_totp i op"
  for i st
  by unfold_locales (rule step_used_kept)

lemma claimed_step_used:
  assumes ok: "db_ok db" and c: "claim_totp_step i st db = (db', True)"
  shows "row_fact i (step_used st) db'"
proof -
  let ?P = "\<lambda>u. u_id u = i \<and> step_free st u"
  have d: "distinct (map u_id (users db))" using ok by (rule db_ok_unfold)
  from c have "0 < rowcount ?P (users db)" and db': "db' = update_users ?P (\<lambda>u. u\<lparr>u_totp_step := Some st\<rparr>) db"
    by (auto simp: claim_totp_step_def Let_def)
  then obtain u where u: "u \<in> set (users db)" "?P u" by (auto simp: rowcount_pos_iff)
  have only: "\<And>v. v \<in> set (users db) \<Longrightarrow> u_id v = i \<Longrightarrow> v = u"
    using distinct_map_eq [OF d] u by blast
  have "i < next_uid db" using ok u by (auto simp: db_ok_def users_ok_def list_all_iff)
  then show ?thesis
    unfolding db' using only u by (auto simp: row_fact_def list_all_iff set_sql_update step_used_def)
qed

lemma step_used_refused:
  assumes "row_fact i (step_used st) db" and "st' \<le> st"
  shows "\<not> snd (claim_totp_step i st' db)"
proof -
  have "rowcount (\<lambda>u. u_id u = i \<and> step_free st' u) (users db) = 0"
    using assms by (auto simp: rowcount_0_iff row_fact_def list_all_iff step_used_def step_free_def
        split: option.splits)
  then show ?thesis by (simp add: claim_totp_step_def Let_def)
qed

text \<open>
  An authenticator code's time step is claimed at most once: after a successful claim, no claim
  of the same or an earlier step for the account succeeds, whatever else happens meanwhile, until
  two-factor authentication is enrolled anew or turned off for that account.
\<close>

theorem totp_step_once:
  assumes "db_ok db" and "claim_totp_step i st db = (db', True)"
    and "list_all (\<lambda>op. \<not> resets_totp i op) ops" and "st' \<le> st"
  shows "\<not> snd (claim_totp_step i st' (run_ops exec_op ops db'))"
proof -
  have "db' = exec_op (ClaimStep i st) db" using assms(2) by simp
  then have "db_ok db'" using exec_op_ok [OF assms(1)] by blast
  then show ?thesis
    using totp.run_keeps [OF _ claimed_step_used [OF assms(1,2)] assms(3)] step_used_refused assms(4)
    by blast
qed

definition demo_user :: user where
  "demo_user = (new_user 1 ''ann'' ''h'' ''admin'' None 0)
     \<lparr>u_totp_enabled := True, u_totp_secret := Some ''s'', u_recovery := Some [''r1'', ''r2'']\<rparr>"

definition demo_db :: accounts where
  "demo_db = insert_user demo_user empty_accounts"

lemma demo_db_ok: "db_ok demo_db"
  by (simp add: demo_db_def demo_user_def new_user_def insert_user_def empty_accounts_def db_ok_def
      users_ok_def sessions_ok_def tokens_ok_def)

theorem totp_step_once_witness:
  "snd (claim_totp_step 1 7 demo_db) \<and>
   \<not> snd (claim_totp_step 1 7 (run_ops exec_op [SetRecovery 1 [], PruneSessions 9]
      (fst (claim_totp_step 1 7 demo_db))))"
proof -
  have "snd (claim_totp_step 1 7 demo_db)"
    by (simp add: claim_totp_step_def demo_db_def demo_user_def new_user_def insert_user_def
        empty_accounts_def rowcount_def step_free_def)
  then show ?thesis
    using totp_step_once [of demo_db 1 7 "fst (claim_totp_step 1 7 demo_db)"
        "[SetRecovery 1 [], PruneSessions 9]" 7] demo_db_ok
    by (simp add: prod_eq_iff)
qed

text \<open>A recovery code that is not among the unused ones stays out, unless it is issued again.\<close>

definition code_gone :: "string \<Rightarrow> user \<Rightarrow> bool" where
  "code_gone h u = (case u_recovery u of None \<Rightarrow> True | Some cs \<Rightarrow> h \<notin> set cs)"

fun issues_code :: "nat \<Rightarrow> string \<Rightarrow> account_op \<Rightarrow> bool" where
  "issues_code i h (EnableTotp j _ hs) = (i = j \<and> h \<in> set hs)"
| "issues_code i h (SetRecovery j hs) = (i = j \<and> h \<in> set hs)"
| "issues_code i h _ = False"

lemma user_codes_row:
  "db_ok db \<Longrightarrow> u \<in> set (users db) \<Longrightarrow> u_id u = i \<Longrightarrow>
    user_codes i db = (case u_recovery u of None \<Rightarrow> [] | Some cs \<Rightarrow> cs)"
  using fetchone_key [of u_id "users db" u] by (auto simp: user_codes_def get_user_by_id_def db_ok_unfold)

lemma use_recovery_gone:
  assumes "db_ok db" and "row_fact i (code_gone h) db"
  shows "row_fact i (code_gone h) (fst (use_recovery_code j h' db))"
proof -
  have "code_gone h u \<Longrightarrow> u_id u = i \<Longrightarrow> i = j \<Longrightarrow> u \<in> set (users db) \<Longrightarrow>
      h \<notin> set (remove1 h' (user_codes j db))" for u
    using user_codes_row [OF assms(1), of u i] notin_set_remove1 [of h _ h']
    by (auto simp: code_gone_def split: option.splits)
  then show ?thesis
    using assms(2)
    by (auto simp: use_recovery_code_def Let_def row_fact_def list_all_iff set_sql_update)
      (simp add: code_gone_def)
qed

lemma code_gone_kept:
  assumes ok: "db_ok db" and "row_fact i (code_gone h) db" and "\<not> issues_code i h op"
  shows "row_fact i (code_gone h) (exec_op op db)"
proof (cases "users_op op")
  case True
  with assms use_recovery_gone [OF ok] show ?thesis
    by (cases op) (auto simp: row_fact_create row_fact_delete update_user_password_def
        set_user_role_def update_user_last_login_def set_pending_totp_def enable_totp_def
        disable_totp_def claim_totp_step_def set_recovery_codes_def Let_def
        code_gone_def intro!: row_fact_update)
qed (use assms row_fact_frame in blast)

interpretation rcode: op_frame exec_op db_ok "row_fact i (code_gone h)" "\<lambda>op. \<not> issues_code i h op"
  for i h
  by unfold_locales (rule code_gone_kept)

lemma used_code_gone:
  assumes ok: "db_ok db" and u: "use_recovery_code i h db = (db', True)"
    and d: "distinct (user_codes i db)"
  shows "row_fact i (code_gone h) db'"
proof -
  from u have h: "h \<in> set (user_codes i db)"
    and db': "db' = update_users (\<lambda>u. u_id u = i) (\<lambda>u. u\<lparr>u_recovery := Some (remove1 h (user_codes i db))\<rparr>) db"
    by (auto simp: use_recovery_code_def Let_def split: if_splits)
  then obtain v where "v \<in> set (users db)" "u_id v = i"
    by (auto simp: user_codes_def get_user_by_id_def split: option.splits dest!: fetchone_Some)
  then have "i < next_uid db" using ok by (auto simp: db_ok_def users_ok_def list_all_iff)
  then show ?thesis
    unfolding db' using d by (intro row_fact_updateI) (simp_all add: code_gone_def)
qed

lemma row_fact_user_codes:
  assumes "row_fact i (code_gone h) db"
  shows "h \<notin> set (user_codes i db)"
proof (cases "get_user_by_id i db")
  case (Some u)
  then have "u \<in> set (users db) \<and> u_id u = i"
    unfolding get_user_by_id_def by (rule fetchone_Some)
  then have "code_gone h u" using assms by (simp add: row_fact_def list_all_iff)
  then show ?thesis using Some by (auto simp: user_codes_def code_gone_def split: option.splits)
qed (simp add: user_codes_def)

text \<open>
  A recovery code is used at most once: after it was accepted, the account does not accept it
  again whatever else happens meanwhile, until the same code is issued again.
\<close>

theorem recovery_code_once:
  assumes "db_ok db" and "use_recovery_code i h db = (db', True)" and "distinct (user_codes i db)"
    and "list_all (\<lambda>op. \<not> issues_code i h op) ops"
  shows "use_recovery_code i h (run_ops exec_op ops db') = (run_ops exec_op ops db', False)"
proof -
  let ?db = "run_ops exec_op ops db'"
  have "db' = exec_op (UseRecovery i h) db" using assms(2) by simp
  then have ok: "db_ok db'" using exec_op_ok [OF assms(1)] by blast
  then have "row_fact i (code_gone h) ?db"
    using rcode.run_keeps [OF _ used_code_gone [OF assms(1-3)] assms(4)] by blast
  then have "h \<notin> set (user_codes i ?db)" by (rule row_fact_user_codes)
  then show ?thesis by (simp add: use_recovery_code_def)
qed

lemma demo_codes: "user_codes (Suc 0) demo_db = [''r1'', ''r2'']"
  by (simp add: user_codes_def get_user_by_id_def fetchone_def demo_db_def demo_user_def new_user_def
      insert_user_def empty_accounts_def)

theorem recovery_code_once_witness:
  "snd (use_recovery_code 1 ''r1'' demo_db) \<and>
   \<not> snd (use_recovery_code 1 ''r1'' (run_ops exec_op [LastLogin 3 1, SetRole 1 ''viewer'']
      (fst (use_recovery_code 1 ''r1'' demo_db))))"
proof -
  have u: "snd (use_recovery_code 1 ''r1'' demo_db)"
    by (simp add: use_recovery_code_def demo_codes Let_def)
  have "use_recovery_code 1 ''r1'' (run_ops exec_op [LastLogin 3 1, SetRole 1 ''viewer'']
      (fst (use_recovery_code 1 ''r1'' demo_db))) = (run_ops exec_op [LastLogin 3 1, SetRole 1 ''viewer'']
      (fst (use_recovery_code 1 ''r1'' demo_db)), False)"
    by (rule recovery_code_once [OF demo_db_ok]) (use u demo_codes in \<open>simp_all add: prod_eq_iff\<close>)
  then show ?thesis using u by simp
qed

section \<open>Revoked sessions\<close>

text \<open>With unique hashes the live session of a hash is the one with that hash.\<close>

lemma session_fetch:
  assumes "db_ok db" and "s \<in> set (sessions db)" and "s_hash s = h" and "live now s"
  shows "fetchone (\<lambda>s. s_hash s = h \<and> live now s) (sessions db) = Some s"
proof -
  have d: "distinct (map s_hash (sessions db))" using assms(1) by (auto simp: db_ok_def sessions_ok_def)
  obtain r where r: "fetchone (\<lambda>s. s_hash s = h \<and> live now s) (sessions db) = Some r"
    using fetchone_None [of "\<lambda>s. s_hash s = h \<and> live now s" "sessions db"] assms(2-4) by auto
  then have "r \<in> set (sessions db) \<and> s_hash r = h \<and> live now r" by (rule fetchone_Some)
  then have "r = s" using distinct_map_eq [OF d, of r s] assms(2,3) by simp
  then show ?thesis using r by simp
qed

lemma get_session_user_Some:
  assumes "db_ok db"
  shows "get_session_user now h db = Some (u, seen) \<longleftrightarrow>
    (\<exists>s\<in>set (sessions db). s_hash s = h \<and> live now s \<and> get_user_by_id (s_user s) db = Some u
      \<and> seen = s_seen s)" (is "?L \<longleftrightarrow> ?R")
proof
  assume ?L
  then obtain s where "fetchone (\<lambda>s. s_hash s = h \<and> live now s) (sessions db) = Some s"
      "get_user_by_id (s_user s) db = Some u" "seen = s_seen s"
    by (auto simp: get_session_user_def split: option.splits)
  then show ?R by (auto dest!: fetchone_Some)
next
  assume ?R
  then obtain s where "s \<in> set (sessions db)" "s_hash s = h" "live now s"
      "get_user_by_id (s_user s) db = Some u" "seen = s_seen s" by auto
  then show ?L using session_fetch [OF assms] by (simp add: get_session_user_def)
qed

lemma get_session_user_None:
  "get_session_user now h db = None" if "h \<notin> s_hash ` set (sessions db)"
  using that by (auto simp: get_session_user_def split: option.splits dest!: fetchone_Some)

lemma get_user_by_id_sessions [simp]: "get_user_by_id i (db\<lparr>sessions := ss\<rparr>) = get_user_by_id i db"
  by (simp add: get_user_by_id_def)

lemma delete_session_other:
  assumes "h' \<noteq> h"
  shows "get_session_user now h' (delete_session h db) = get_session_user now h' db"
proof -
  have "fetchone (\<lambda>s. s_hash s = h' \<and> live now s) (sql_delete (\<lambda>s. s_hash s = h) ss) =
      fetchone (\<lambda>s. s_hash s = h' \<and> live now s) ss" for ss
    using assms by (induction ss) (auto simp: fetchone_def sql_delete_def)
  then show ?thesis by (simp add: get_session_user_def delete_session_def cong: option.case_cong)
qed

lemma session_earlier:
  assumes "db_ok db" and "now \<le> now'" and "get_session_user now' h db = Some u"
  shows "get_session_user now h db = Some u"
proof (cases u)
  case (Pair v seen)
  with assms show ?thesis by (fastforce simp: get_session_user_Some live_def)
qed

interpretation sess: token_store db_ok "\<lambda>db now h. get_session_user now h db" delete_session
proof unfold_locales
  show "db_ok (delete_session h db)" if "db_ok db" for h db
    using that by (simp add: delete_session_def session_delete_ok)
  show "get_session_user now h (delete_session h db) = None" for now h db
    by (rule get_session_user_None) (auto simp: delete_session_def)
qed (use delete_session_other session_earlier in blast)+

text \<open>Facts about the stored sessions that no statement but \<open>create_session\<close> can break.\<close>

definition no_session :: "(session \<Rightarrow> bool) \<Rightarrow> accounts \<Rightarrow> bool" where
  "no_session P db = list_all (\<lambda>s. \<not> P s) (sessions db)"

fun opens_session :: "(string \<Rightarrow> nat \<Rightarrow> bool) \<Rightarrow> account_op \<Rightarrow> bool" where
  "opens_session P (CreateSession _ h i _ _ _) = P h i"
| "opens_session P _ = False"

lemma sessions_frame:
  "sessions (fst (create_first_user now n h db)) = sessions db"
  "sessions (fst (create_user now n h r db)) = sessions db"
  "sessions (fst (create_sso_user now n su r db)) = sessions db"
  "sessions (update_user_password i h db) = sessions db"
  "sessions (fst (set_user_role i r db)) = sessions db"
  "sessions (update_user_last_login now i db) = sessions db"
  "sessions (set_pending_totp i enc db) = sessions db" "sessions (enable_totp i st hs db) = sessions db"
  "sessions (disable_totp i db) = sessions db" "sessions (fst (claim_totp_step i st db)) = sessions db"
  "sessions (set_recovery_codes i hs db) = sessions db"
  "sessions (fst (use_recovery_code i h db)) = sessions db"
  "sessions (touch_api_token now i ip db) = sessions db"
  "sessions (fst (delete_api_token i who db)) = sessions db"
  "sessions (fst (delete_expired_api_tokens now db)) = sessions db"
  by (simp_all add: create_first_user_def create_user_def create_sso_user_def update_user_password_def
      set_user_role_def update_user_last_login_def set_pending_totp_def enable_totp_def
      disable_totp_def claim_totp_step_def set_recovery_codes_def use_recovery_code_def
      touch_api_token_def delete_api_token_def delete_expired_api_tokens_def Let_def insert_user_def
      split: option.splits)

lemma sessions_create_token:
  "create_api_token now i n h pr ro ex db = Inr (db', t) \<Longrightarrow> sessions db' = sessions db"
  unfolding create_api_token_def Let_def if_Inl_Inr prod.inject by (elim conjE, hypsubst, simp)

lemma sessions_create_session:
  "create_session now h i e ip ag db = Inr db' \<Longrightarrow> s \<in> set (sessions db') \<Longrightarrow>
    s \<in> set (sessions db) \<or> s_hash s = h \<and> s_user s = i"
  unfolding create_session_def Let_def if_Inl_Inr by (elim conjE, hypsubst) auto

lemma no_session_kept:
  assumes "no_session (\<lambda>s. P (s_hash s) (s_user s)) db" and "\<not> opens_session P op"
  shows "no_session (\<lambda>s. P (s_hash s) (s_user s)) (exec_op op db)"
proof (cases op)
  case (TouchSession now h ip)
  then show ?thesis using assms
    by (auto simp: no_session_def list_all_iff touch_session_def set_sql_update)
next
  case (CreateSession now h i e ip a)
  then show ?thesis using assms
    by (auto simp: no_session_def list_all_iff split: sum.splits dest: sessions_create_session)
next
  case (CreateToken now i n h p r e)
  then show ?thesis using assms
    by (auto simp: no_session_def split: sum.splits dest: sessions_create_token)
qed (use assms in \<open>simp_all add: no_session_def sessions_frame list_all_iff delete_user_def
    delete_session_def delete_user_sessions_def prune_expired_sessions_def\<close>)

interpretation nosess: op_frame exec_op db_ok "no_session (\<lambda>s. P (s_hash s) (s_user s))"
    "\<lambda>op. \<not> opens_session P op" for P
  by unfold_locales (rule no_session_kept)

text \<open>
  A session that was signed out, by its token or with all the sessions of its account, stays
  signed out: whatever else happens and however much later, the token is nobody's and the account
  has no session, until one is opened with the same token or for the same account again.
\<close>

theorem signed_out_stays:
  assumes "db_ok db" and "list_all (\<lambda>op. \<not> opens_session (\<lambda>h' j. h' = h \<or> j = i) op) ops"
  shows "let db' = run_ops exec_op ops (delete_user_sessions i None (delete_session h db)) in
    get_session_user now h db' = None \<and> list_all (\<lambda>s. s_user s \<noteq> i) (sessions db')"
proof -
  let ?d = "delete_user_sessions i None (delete_session h db)"
  have "no_session (\<lambda>s. (\<lambda>h' j. h' = h \<or> j = i) (s_hash s) (s_user s)) ?d"
    by (simp add: no_session_def delete_session_def delete_user_sessions_def list_all_iff)
  moreover have "db_ok ?d"
    using sess.ok_revoke [OF assms(1)] by (simp add: delete_user_sessions_def session_delete_ok)
  ultimately have "no_session (\<lambda>s. s_hash s = h \<or> s_user s = i) (run_ops exec_op ops ?d)"
    using nosess.run_keeps [of _ "\<lambda>h' j. h' = h \<or> j = i", OF _ _ assms(2)] by blast
  then show ?thesis
    unfolding Let_def by (auto simp: no_session_def list_all_iff intro!: get_session_user_None)
qed

theorem signed_out_stays_witness:
  "get_session_user 5 ''a'' (run_ops exec_op [CreateSession 3 ''b'' 1 9 None None]
     (delete_user_sessions 2 None (delete_session ''a'' demo_db))) = None"
  using signed_out_stays [OF demo_db_ok, of "''a''" 2 "[CreateSession 3 ''b'' 1 9 None None]" 5]
  by (simp add: Let_def)

section \<open>Accounts before the first-run setup\<close>

text \<open>
  The first-run setup works once: it succeeds exactly when there is no account, and then leaves
  an administrator; after any account exists, whoever created it, it is refused. In particular an
  account that single sign-on creates in a fresh installation, with any role but admin, leaves a
  system without an administrator whose setup can no longer be completed.
\<close>

theorem setup_once:
  "(snd (create_first_user now n h db) \<noteq> None) = (users db = []) \<and>
   (users db = [] \<longrightarrow> has_admin (fst (create_first_user now n h db))) \<and>
   (users db \<noteq> [] \<longrightarrow> create_first_user now n h db = (db, None)) \<and>
   (role \<noteq> ''admin'' \<longrightarrow>
     (let db' = fst (create_sso_user t name sub role empty_accounts) in
      \<not> has_admin db' \<and> create_first_user now n h db' = (db', None)))"
  by (auto simp: create_first_user_def create_sso_user_def count_users_def Let_def has_admin_def
      insert_user_def new_user_def empty_accounts_def)

theorem setup_once_witness:
  "let db' = fst (create_sso_user 0 ''ann'' ''idp|1'' ''operator'' empty_accounts) in
     \<not> has_admin db' \<and> create_first_user 1 ''root'' ''h'' db' = (db', None)"
  using setup_once [of 1 "''root''" "''h''" empty_accounts "''operator''" 0 "''ann''" "''idp|1''"]
  by simp

end
