(* ===== verification/Auth.thy ===== *)
theory Auth
  imports Accounts
begin

text \<open>
  \<^verbatim>\<open>services/auth.py\<close>: password hashes, sessions, API tokens, roles, the checks in front of every
  route and the limiter of failed sign-ins. The key derivation (\<open>hashlib.scrypt\<close> with the text
  fields of a stored hash; \<open>None\<close> where it, \<open>int\<close> or \<open>bytes.fromhex\<close> raises \<open>ValueError\<close>) and the
  SHA-256 of a token are parameters; random salts and tokens are arguments. Wall-clock times are
  whole microseconds, the monotonic clock is a rational number of seconds.
\<close>

type_synonym kdf = "string \<Rightarrow> string \<Rightarrow> string \<Rightarrow> string \<Rightarrow> string \<Rightarrow> string option"

section \<open>Passwords\<close>

definition hash_password :: "(string \<Rightarrow> string \<Rightarrow> string) \<Rightarrow> string \<Rightarrow> string \<Rightarrow> string" where
  "hash_password derive salt_hex password =
     join_with ''$'' [''scrypt'', ''16384'', ''8'', ''1'', salt_hex, derive password salt_hex]"

definition verify_password :: "kdf \<Rightarrow> string \<Rightarrow> string \<Rightarrow> bool" where
  "verify_password scrypt password stored =
     (case split_on (CHR ''$'') stored of
        [scheme, n, r, p, salt_hex, digest_hex] \<Rightarrow>
          if scheme \<noteq> ''scrypt'' then False
          else (case scrypt password salt_hex n r p of
                  None \<Rightarrow> False
                | Some digest \<Rightarrow> digest = digest_hex)
      | _ \<Rightarrow> False)"

definition check_credentials :: "kdf \<Rightarrow> user option \<Rightarrow> string \<Rightarrow> bool" where
  "check_credentials scrypt u password = (case u of
     None \<Rightarrow> False
   | Some v \<Rightarrow> verify_password scrypt password (u_hash v))"

section \<open>Requests\<close>

record conn =
  c_authorization :: string
  c_cookie :: "string option"
  c_client :: "string option"
  c_agent :: "string option"
  c_origin :: "string option"
  c_host :: "string option"
  c_websocket :: bool
  c_method :: string
  c_path :: string

datatype auth_kind = ViaToken nat string | ViaSession string

record principal =
  p_user :: user
  p_auth :: auth_kind

datatype refusal =
    WsClose nat string
  | Refused http_error

definition microseconds :: "int \<Rightarrow> int" where
  "microseconds s = s * 1000000"

definition start_session ::
  "(string \<Rightarrow> string) \<Rightarrow> int \<Rightarrow> int \<Rightarrow> string \<Rightarrow> nat \<Rightarrow> conn option \<Rightarrow> accounts \<Rightarrow> sql_error + accounts" where
  "start_session sha ttl_hours now token i c db =
     create_session now (sha token) i (now + microseconds (ttl_hours * 3600))
       (case c of None \<Rightarrow> None | Some c \<Rightarrow> c_client c) (case c of None \<Rightarrow> None | Some c \<Rightarrow> c_agent c) db"

definition session_public_id :: "string \<Rightarrow> string" where
  "session_public_id hashed = take 16 hashed"

definition TOUCH_INTERVAL :: int where
  "TOUCH_INTERVAL = microseconds 60"

definition end_session :: "(string \<Rightarrow> string) \<Rightarrow> string \<Rightarrow> accounts \<Rightarrow> accounts" where
  "end_session sha token db = delete_session (sha token) db"

definition new_api_token :: "string \<Rightarrow> string \<times> string" where
  "new_api_token random = (let token = ''hby_'' @ random in (token, take 12 token))"

definition bearer_token :: "conn \<Rightarrow> string option" where
  "bearer_token c =
     (let h = c_authorization c;
          scheme = takeWhile (\<lambda>x. x \<noteq> CHR '' '') h;
          value = drop 1 (dropWhile (\<lambda>x. x \<noteq> CHR '' '') h)
      in if py_lower scheme = ''bearer''
         then (if py_strip value = [] then None else Some (py_strip value)) else None)"

definition touch_due :: "int \<Rightarrow> int option \<Rightarrow> bool" where
  "touch_due now seen = (case seen of None \<Rightarrow> True | Some t \<Rightarrow> TOUCH_INTERVAL < now - t)"

section \<open>Roles\<close>

definition ROLES :: "string list" where
  "ROLES = [''viewer'', ''operator'', ''admin'']"

text \<open>\<open>_RANK.get(role, -1)\<close>\<close>

definition RANK :: "string \<Rightarrow> int" where
  "RANK role = (if role = ''viewer'' then 0 else if role = ''operator'' then 1
     else if role = ''admin'' then 2 else - 1)"

definition has_role :: "user \<Rightarrow> string \<Rightarrow> bool" where
  "has_role u minimum = (RANK minimum \<le> RANK (u_role u))"

definition lower_role :: "string \<Rightarrow> string \<Rightarrow> string" where
  "lower_role a b = (if RANK b < RANK a then b else a)"

section \<open>Who a request is from\<close>

definition token_user ::
  "(string \<Rightarrow> string) \<Rightarrow> int \<Rightarrow> conn \<Rightarrow> string \<Rightarrow> accounts \<Rightarrow> accounts \<times> principal option" where
  "token_user sha now c token db = (case get_api_token_user now (sha token) db of
     None \<Rightarrow> (db, None)
   | Some (u, t) \<Rightarrow>
      (if touch_due now (t_used_at t) then touch_api_token now (t_id t) (c_client c) db else db,
       Some \<lparr>p_user = u\<lparr>u_role := lower_role (t_role t) (u_role u)\<rparr>, p_auth = ViaToken (t_id t) (t_name t)\<rparr>))"

definition session_user ::
  "(string \<Rightarrow> string) \<Rightarrow> int \<Rightarrow> conn \<Rightarrow> accounts \<Rightarrow> accounts \<times> principal option" where
  "session_user sha now c db = (case bearer_token c of
     Some bearer \<Rightarrow> token_user sha now c bearer db
   | None \<Rightarrow> (case c_cookie c of
       None \<Rightarrow> (db, None)
     | Some token \<Rightarrow> if token = [] then (db, None) else
        (let hashed = sha token in
         case get_session_user now hashed db of
           None \<Rightarrow> (db, None)
         | Some (u, seen) \<Rightarrow>
            (if touch_due now seen then touch_session now hashed (c_client c) db else db,
             Some \<lparr>p_user = u, p_auth = ViaSession (session_public_id hashed)\<rparr>))))"

definition same_origin :: "(string \<Rightarrow> string) \<Rightarrow> conn \<Rightarrow> bool" where
  "same_origin netloc c = (case c_origin c of
     None \<Rightarrow> True
   | Some origin \<Rightarrow> if origin = [] then True else Some (netloc origin) = c_host c)"

definition require_user ::
  "(string \<Rightarrow> string) \<Rightarrow> (string \<Rightarrow> string) \<Rightarrow> int \<Rightarrow> conn \<Rightarrow> accounts \<Rightarrow> accounts \<times> (refusal + principal)" where
  "require_user sha netloc now c db =
     (case session_user sha now c db of (db', p) \<Rightarrow>
       (db', if c_websocket c \<and> (p = None \<or> \<not> same_origin netloc c) then Inl (WsClose 1008 ''Not authenticated'')
             else (case p of None \<Rightarrow> Inl (Refused (HTTPError 401 ''Not authenticated'')) | Some p \<Rightarrow> Inr p)))"

definition READ_ONLY_POSTS :: "string list" where
  "READ_ONLY_POSTS = [''/benchmarks/compare'']"

definition forbidden :: "conn \<Rightarrow> string \<Rightarrow> refusal" where
  "forbidden c needed = (if c_websocket c then WsClose 1008 (needed @ '' role required'')
     else Refused (HTTPError 403 (''This needs the '' @ needed @ '' role'')))"

definition needed_role :: "conn \<Rightarrow> string" where
  "needed_role c =
     (if c_websocket c then
        (if prefix ''/ws/console'' (c_path c) \<or> contains ''/ws/console/'' (c_path c)
         then ''operator'' else ''viewer'')
      else if c_method c \<in> {''GET'', ''HEAD'', ''OPTIONS''} \<or> c_path c \<in> set READ_ONLY_POSTS then ''viewer''
      else ''operator'')"

definition require_access ::
  "(string \<Rightarrow> string) \<Rightarrow> (string \<Rightarrow> string) \<Rightarrow> bool \<Rightarrow> int \<Rightarrow> conn \<Rightarrow> accounts
    \<Rightarrow> accounts \<times> (refusal + principal)" where
  "require_access sha netloc shutting_down now c db =
     (case require_user sha netloc now c db of
        (db', Inl e) \<Rightarrow> (db', Inl e)
      | (db', Inr p) \<Rightarrow>
         (db', if \<not> has_role (p_user p) (needed_role c) then Inl (forbidden c (needed_role c))
               else if needed_role c = ''operator'' \<and> shutting_down then
                 Inl (if c_websocket c then WsClose 1012 ''Habeny is restarting''
                      else Refused (HTTPError 503 ''Habeny is restarting. Try again in a minute.''))
               else Inr p))"

definition require_session :: "principal \<Rightarrow> http_error + principal" where
  "require_session p = (case p_auth p of
     ViaToken _ _ \<Rightarrow> Inl (HTTPError 403 ''Account settings can't be changed with an API token; sign in instead'')
   | ViaSession _ \<Rightarrow> Inr p)"

definition require_admin :: "principal \<Rightarrow> http_error + principal" where
  "require_admin p =
     (if \<not> has_role (p_user p) ''admin'' then Inl (HTTPError 403 ''Administrator access required'') else Inr p)"

section \<open>The limiter of failed sign-ins\<close>

text \<open>
  Per client the times of its failures, oldest first. \<open>recent\<close> drops those out of the window. A call
  reads the clock again after it, so \<open>retry_after\<close> takes two times.
\<close>

record limiter =
  max_failures :: nat
  window :: rat
  failures :: "(string \<times> rat list) list"

definition login_limiter :: limiter where
  "login_limiter = \<lparr>max_failures = 10, window = 15 * 60, failures = []\<rparr>"

definition failures_of :: "string \<Rightarrow> limiter \<Rightarrow> rat list" where
  "failures_of key l = (case map_of (failures l) key of None \<Rightarrow> [] | Some q \<Rightarrow> q)"

definition recent :: "rat \<Rightarrow> string \<Rightarrow> limiter \<Rightarrow> rat list" where
  "recent now key l = dropWhile (\<lambda>t. t < now - window l) (failures_of key l)"

definition put_failures :: "string \<Rightarrow> rat list \<Rightarrow> limiter \<Rightarrow> limiter" where
  "put_failures key q l = l\<lparr>failures := AList.update key q (failures l)\<rparr>"

definition retry_after :: "rat \<Rightarrow> rat \<Rightarrow> string \<Rightarrow> limiter \<Rightarrow> limiter \<times> nat" where
  "retry_after now now' key l =
     (let q = recent now key l in
      (put_failures key q l,
       if length q < max_failures l then 0 else max 1 (nat \<lfloor>hd q + window l - now'\<rfloor>)))"

definition record_failure :: "rat \<Rightarrow> string \<Rightarrow> limiter \<Rightarrow> limiter" where
  "record_failure now key l = put_failures key (recent now key l @ [now]) l"

definition reset_failures :: "string \<Rightarrow> limiter \<Rightarrow> limiter" where
  "reset_failures key l = l\<lparr>failures := AList.delete key (failures l)\<rparr>"

lemma failures_of_put [simp]:
  "failures_of k (put_failures key q l) = (if k = key then q else failures_of k l)"
  by (simp add: failures_of_def put_failures_def update_conv)

lemma put_failures_simps [simp]:
  "max_failures (put_failures key q l) = max_failures l" "window (put_failures key q l) = window l"
  by (simp_all add: put_failures_def)

lemma failures_of_reset [simp]:
  "failures_of k (reset_failures key l) = (if k = key then [] else failures_of k l)"
  by (simp add: failures_of_def reset_failures_def delete_conv')

section \<open>What the access checks decide\<close>

lemma RANK_cases:
  "RANK r = 2 \<longleftrightarrow> r = ''admin''" "1 \<le> RANK r \<longleftrightarrow> r = ''operator'' \<or> r = ''admin''"
  "0 \<le> RANK r \<longleftrightarrow> r \<in> set ROLES"
  by (auto simp: RANK_def ROLES_def)

lemma RANK_lower_role: "RANK (lower_role a b) = min (RANK a) (RANK b)"
  by (auto simp: lower_role_def)

text \<open>
  The rule the access checks are to follow, written out apart from the code: who a request is from, by the
  rows of the tables, and which roles may enter.
\<close>

definition presents_bearer :: "conn \<Rightarrow> string \<Rightarrow> bool" where
  "presents_bearer c tok = (\<exists>scheme value. c_authorization c = scheme @ '' '' @ value \<and> CHR '' '' \<notin> set scheme \<and>
     py_lower scheme = ''bearer'' \<and> tok = py_strip value \<and> tok \<noteq> [])"

definition below :: "string \<Rightarrow> string \<Rightarrow> bool" where
  "below a b = (b = ''admin'' \<and> a \<noteq> ''admin'' \<or> b = ''operator'' \<and> a \<notin> {''operator'', ''admin''} \<or>
     b = ''viewer'' \<and> a \<notin> {''viewer'', ''operator'', ''admin''})"

definition by_token :: "(string \<Rightarrow> string) \<Rightarrow> int \<Rightarrow> string \<Rightarrow> accounts \<Rightarrow> principal \<Rightarrow> bool" where
  "by_token sha now tok db p = (\<exists>t\<in>set (tokens db). \<exists>u\<in>set (users db). t_hash t = sha tok \<and>
     (\<forall>e. t_expires t = Some e \<longrightarrow> now < e) \<and> u_id u = t_user t \<and>
     p = \<lparr>p_user = u\<lparr>u_role := if below (u_role u) (t_role t) then u_role u else t_role t\<rparr>, p_auth = ViaToken (t_id t) (t_name t)\<rparr>)"

definition by_session :: "(string \<Rightarrow> string) \<Rightarrow> int \<Rightarrow> string \<Rightarrow> accounts \<Rightarrow> principal \<Rightarrow> bool" where
  "by_session sha now tok db p = (\<exists>s\<in>set (sessions db). \<exists>u\<in>set (users db). s_hash s = sha tok \<and> now < s_expires s \<and>
     u_id u = s_user s \<and> p = \<lparr>p_user = u, p_auth = ViaSession (take 16 (sha tok))\<rparr>)"

definition identified :: "(string \<Rightarrow> string) \<Rightarrow> int \<Rightarrow> conn \<Rightarrow> accounts \<Rightarrow> principal \<Rightarrow> bool" where
  "identified sha now c db p =
     ((\<exists>tok. presents_bearer c tok \<and> by_token sha now tok db p) \<or>
      (\<nexists>tok. presents_bearer c tok) \<and> (\<exists>tok. c_cookie c = Some tok \<and> tok \<noteq> [] \<and> by_session sha now tok db p))"

definition may_enter :: "(string \<Rightarrow> string) \<Rightarrow> bool \<Rightarrow> conn \<Rightarrow> string \<Rightarrow> bool" where
  "may_enter netloc stop c role =
     (if c_websocket c
      then (c_origin c \<in> {None, Some []} \<or> map_option netloc (c_origin c) = c_host c) \<and>
           (if \<exists>x y. c_path c = ''/ws/console'' @ y \<or> c_path c = x @ ''/ws/console/'' @ y
            then role \<in> {''operator'', ''admin''} \<and> \<not> stop
            else role \<in> {''viewer'', ''operator'', ''admin''})
      else if c_method c = ''GET'' \<or> c_method c = ''HEAD'' \<or> c_method c = ''OPTIONS'' \<or> c_path c = ''/benchmarks/compare''
      then role \<in> {''viewer'', ''operator'', ''admin''}
      else role \<in> {''operator'', ''admin''} \<and> \<not> stop)"

lemma bearer_presented: "bearer_token c = Some tok \<longleftrightarrow> presents_bearer c tok"
proof -
  let ?h = "c_authorization c" and ?ns = "\<lambda>x. x \<noteq> CHR '' ''"
  have "presents_bearer c tok" if b: "bearer_token c = Some tok"
  proof -
    have d: "tok = py_strip (drop 1 (dropWhile ?ns ?h))" "py_lower (takeWhile ?ns ?h) = ''bearer''" "tok \<noteq> []"
      using b by (auto simp: bearer_token_def Let_def split: if_splits)
    have "py_strip [] = []" by (simp add: py_strip_def rstrip_by_def)
    then have "dropWhile ?ns ?h \<noteq> []" using d(1,3) by (metis drop_Nil)
    then have "dropWhile ?ns ?h = CHR '' '' # drop 1 (dropWhile ?ns ?h)"
      using hd_dropWhile [of ?ns ?h] by (cases "dropWhile ?ns ?h") auto
    then have "?h = takeWhile ?ns ?h @ '' '' @ drop 1 (dropWhile ?ns ?h)" using takeWhile_dropWhile_id [of ?ns ?h] by simp
    moreover have "CHR '' '' \<notin> set (takeWhile ?ns ?h)" by (auto dest: set_takeWhileD)
    ultimately show ?thesis using d unfolding presents_bearer_def by blast
  qed
  moreover have "bearer_token c = Some tok" if "presents_bearer c tok"
  proof -
    have "\<exists>s v. ?h = s @ '' '' @ v \<and> CHR '' '' \<notin> set s \<and> py_lower s = ''bearer'' \<and> tok = py_strip v \<and> tok \<noteq> []"
      using that unfolding presents_bearer_def .
    then obtain s v where h: "?h = s @ '' '' @ v" "CHR '' '' \<notin> set s" "py_lower s = ''bearer''" "tok = py_strip v" "tok \<noteq> []"
      by (elim exE conjE)
    have "takeWhile ?ns ?h = s" "dropWhile ?ns ?h = '' '' @ v" using h(1,2) by (simp_all add: takeWhile_append dropWhile_append)
    then show ?thesis using h(3-5) by (simp add: bearer_token_def Let_def)
  qed
  ultimately show ?thesis by blast
qed

lemma below_RANK: "below a b \<longleftrightarrow> RANK a < RANK b"
  by (auto simp: below_def RANK_def)

lemma fetchone_keyed:
  assumes "distinct (map k rows)"
  shows "fetchone (\<lambda>r. k r = h \<and> P r) rows = Some r \<longleftrightarrow> r \<in> set rows \<and> k r = h \<and> P r"
proof
  assume r: "r \<in> set rows \<and> k r = h \<and> P r"
  then obtain q where q: "fetchone (\<lambda>r. k r = h \<and> P r) rows = Some q"
    using fetchone_None [of "\<lambda>r. k r = h \<and> P r" rows] by auto
  from fetchone_Some [OF q] have "q = r" using distinct_map_eq [OF assms, of q r] r by auto
  then show "fetchone (\<lambda>r. k r = h \<and> P r) rows = Some r" using q by simp
qed (use fetchone_Some in fastforce)

lemma user_by_id:
  assumes "db_ok db"
  shows "get_user_by_id i db = Some u \<longleftrightarrow> u \<in> set (users db) \<and> u_id u = i"
  using fetchone_keyed [of u_id "users db" i "\<lambda>_. True" u] assms by (simp add: get_user_by_id_def db_ok_def users_ok_def)

lemma api_token_user_iff:
  assumes "db_ok db"
  shows "get_api_token_user now h db = Some (u, t) \<longleftrightarrow>
    t \<in> set (tokens db) \<and> t_hash t = h \<and> token_live now t \<and> u \<in> set (users db) \<and> u_id u = t_user t"
proof -
  have "get_api_token_user now h db = Some (u, t) \<longleftrightarrow>
      fetchone (\<lambda>t. t_hash t = h \<and> token_live now t) (tokens db) = Some t \<and> get_user_by_id (t_user t) db = Some u"
    by (auto simp: get_api_token_user_def split: option.splits)
  also have "distinct (map t_hash (tokens db))" using assms by (simp add: db_ok_def tokens_ok_def)
  ultimately show ?thesis using fetchone_keyed [of t_hash "tokens db" h "token_live now" t] user_by_id [OF assms] by auto
qed

lemma token_user_iff:
  assumes "db_ok db"
  shows "snd (token_user sha now c tok db) = Some p \<longleftrightarrow> by_token sha now tok db p"
proof -
  have "snd (token_user sha now c tok db) = Some p \<longleftrightarrow> (\<exists>u t. get_api_token_user now (sha tok) db = Some (u, t) \<and>
      p = \<lparr>p_user = u\<lparr>u_role := lower_role (t_role t) (u_role u)\<rparr>, p_auth = ViaToken (t_id t) (t_name t)\<rparr>)"
    by (auto simp: token_user_def split: option.splits)
  moreover have "token_live now t \<longleftrightarrow> (\<forall>e. t_expires t = Some e \<longrightarrow> now < e)" for t
    by (simp add: token_live_def split: option.splits)
  ultimately show ?thesis
    unfolding api_token_user_iff [OF assms] by_token_def lower_role_def below_RANK by auto
qed

lemma session_user_iff:
  assumes "db_ok db"
  shows "snd (session_user sha now c db) = Some p \<longleftrightarrow> identified sha now c db p"
proof (cases "bearer_token c")
  case (Some tok)
  then have "presents_bearer c t \<longleftrightarrow> t = tok" for t using bearer_presented [of c t] by auto
  then show ?thesis using Some token_user_iff [OF assms] by (simp add: session_user_def identified_def)
next
  case None
  have n: "\<not> presents_bearer c t" for t using None bearer_presented [of c t] by auto
  have s: "snd (session_user sha now c db) = Some p \<longleftrightarrow> (\<exists>tok u seen. c_cookie c = Some tok \<and> tok \<noteq> [] \<and>
      get_session_user now (sha tok) db = Some (u, seen) \<and> p = \<lparr>p_user = u, p_auth = ViaSession (take 16 (sha tok))\<rparr>)"
    using None by (auto simp: session_user_def session_public_id_def Let_def split: option.splits)
  show ?thesis unfolding s get_session_user_Some [OF assms] identified_def by_session_def live_def user_by_id [OF assms]
    using n by blast
qed

lemma may_enter_iff:
  "may_enter netloc stop c role \<longleftrightarrow> (c_websocket c \<longrightarrow> same_origin netloc c) \<and> RANK (needed_role c) \<le> RANK role \<and>
     (needed_role c = ''operator'' \<longrightarrow> \<not> stop)"
proof -
  have w: "(\<exists>x y. c_path c = ''/ws/console'' @ y \<or> c_path c = x @ ''/ws/console/'' @ y) \<longleftrightarrow>
      prefix ''/ws/console'' (c_path c) \<or> contains ''/ws/console/'' (c_path c)"
    unfolding prefix_def contains_def sublist_def by blast
  show ?thesis unfolding may_enter_def w by (auto simp: needed_role_def same_origin_def RANK_def READ_ONLY_POSTS_def split: option.splits)
qed

text \<open>
  C5: a request reaches a route exactly when the tables know who it is from, by a live API token in its header or else by
  the cookie of a live session, and the role of that account (for a token, at most the token's own) may enter: every
  role reads, only operators and administrators do anything else or open a console, nobody does so while the server
  stops, and a WebSocket comes from the same origin.
\<close>

theorem access_decision:
  assumes "db_ok db"
  shows "snd (require_access sha netloc stop now c db) = Inr p \<longleftrightarrow>
    identified sha now c db p \<and> may_enter netloc stop c (u_role (p_user p))"
proof -
  obtain db' q where q: "session_user sha now c db = (db', q)" by (cases "session_user sha now c db")
  have "snd (require_access sha netloc stop now c db) = Inr p \<longleftrightarrow>
     q = Some p \<and> (c_websocket c \<longrightarrow> same_origin netloc c) \<and>
     RANK (needed_role c) \<le> RANK (u_role (p_user p)) \<and> (needed_role c = ''operator'' \<longrightarrow> \<not> stop)"
    by (cases q) (auto simp: require_access_def require_user_def q has_role_def)
  then show ?thesis using session_user_iff [OF assms, of sha now c p] q by (simp add: may_enter_iff)
qed

definition demo_conn :: conn where
  "demo_conn = \<lparr>c_authorization = [], c_cookie = Some ''tok'', c_client = None, c_agent = None,
     c_origin = None, c_host = None, c_websocket = False, c_method = ''GET'', c_path = ''/agents''\<rparr>"

definition demo_signed_in :: accounts where
  "demo_signed_in = demo_db\<lparr>sessions := [\<lparr>s_hash = ''tok'', s_user = 1, s_created = 0, s_expires = 9,
     s_ip = None, s_agent = [], s_seen = Some 0\<rparr>]\<rparr>"

lemma demo_session_user:
  "snd (session_user (\<lambda>t. t) 5 demo_conn demo_signed_in) =
     Some \<lparr>p_user = demo_user, p_auth = ViaSession ''tok''\<rparr>"
  by (simp add: session_user_def bearer_token_def py_lower_def demo_conn_def demo_signed_in_def
      get_session_user_def fetchone_def live_def get_user_by_id_def demo_db_def insert_user_def
      empty_accounts_def demo_user_def new_user_def session_public_id_def Let_def)

theorem access_decision_witness:
  "snd (require_access (\<lambda>t. t) (\<lambda>x. x) False 5 demo_conn demo_signed_in) =
     Inr \<lparr>p_user = demo_user, p_auth = ViaSession ''tok''\<rparr>"
proof -
  have ok: "db_ok demo_signed_in"
    using demo_db_ok by (simp add: demo_signed_in_def db_ok_def users_ok_def sessions_ok_def tokens_ok_def demo_db_def
        insert_user_def empty_accounts_def demo_user_def new_user_def)
  have "identified (\<lambda>t. t) 5 demo_conn demo_signed_in \<lparr>p_user = demo_user, p_auth = ViaSession ''tok''\<rparr>"
    using demo_session_user session_user_iff [OF ok] by blast
  moreover have "may_enter (\<lambda>x. x) False demo_conn (u_role demo_user)"
    by (simp add: may_enter_def demo_conn_def demo_user_def new_user_def)
  ultimately show ?thesis by (simp add: access_decision [OF ok])
qed

text \<open>
  An API token never acts with more than the current role of its account nor more than its own:
  whoever it identifies has the lower of the two ranks, and is the account the token was made for.
  A request with an API token can not change the account's own settings.
\<close>

theorem api_token_role_bounded:
  assumes "db_ok db" and "snd (token_user sha now c token db) = Some p"
  shows "\<exists>t u. t \<in> set (tokens db) \<and> u \<in> set (users db) \<and> t_hash t = sha token \<and> token_live now t \<and>
      u_id u = t_user t \<and> u_id (p_user p) = u_id u \<and>
      RANK (u_role (p_user p)) = min (RANK (t_role t)) (RANK (u_role u)) \<and>
      \<not> is_ok (require_session p)"
proof -
  from assms(2) obtain u t where g: "get_api_token_user now (sha token) db = Some (u, t)"
    and p: "p = \<lparr>p_user = u\<lparr>u_role := lower_role (t_role t) (u_role u)\<rparr>, p_auth = ViaToken (t_id t) (t_name t)\<rparr>"
    by (auto simp: token_user_def split: option.splits)
  from g have "t \<in> set (tokens db) \<and> t_hash t = sha token \<and> token_live now t"
    "u \<in> set (users db) \<and> u_id u = t_user t"
    by (auto simp: get_api_token_user_def get_user_by_id_def split: option.splits dest!: fetchone_Some)
  then show ?thesis
    using p by (intro exI [of _ t] exI [of _ u]) (simp add: RANK_lower_role require_session_def)
qed

theorem api_token_role_bounded_witness:
  "\<exists>p. snd (token_user (\<lambda>t. t) 5 demo_conn ''hby_x'' (demo_db\<lparr>tokens := [\<lparr>t_id = 0, t_user = 1,
     t_name = ''ci'', t_hash = ''hby_x'', t_prefix = ''hby_x'', t_role = ''viewer'', t_created = 0,
     t_expires = None, t_used_at = None, t_used_ip = None\<rparr>]\<rparr>)) = Some p \<and> RANK (u_role (p_user p)) = 0"
  (is "\<exists>p. snd (token_user _ _ _ _ ?db) = Some p \<and> _")
proof -
  have "db_ok ?db"
    using demo_db_ok by (simp add: db_ok_def users_ok_def sessions_ok_def tokens_ok_def demo_db_def
        insert_user_def empty_accounts_def demo_user_def new_user_def)
  moreover have "\<exists>p. snd (token_user (\<lambda>t. t) 5 demo_conn ''hby_x'' ?db) = Some p"
    by (simp add: token_user_def get_api_token_user_def fetchone_def token_live_def get_user_by_id_def
        demo_db_def insert_user_def empty_accounts_def demo_user_def new_user_def)
  ultimately show ?thesis
    using api_token_role_bounded [of ?db "\<lambda>t. t" 5 demo_conn "''hby_x''"]
    by (fastforce simp: RANK_def demo_db_def insert_user_def empty_accounts_def demo_user_def new_user_def)
qed

section \<open>How many guesses a client has\<close>

text \<open>
  A client that keeps failing: at each time it is let through when \<open>retry_after\<close> is 0, and its
  failure is recorded. The result is the times at which it was let through.
\<close>

fun let_through :: "string \<Rightarrow> rat list \<Rightarrow> limiter \<Rightarrow> rat list" where
  "let_through key [] l = []"
| "let_through key (t # ts) l =
     (case retry_after t t key l of (l', wait) \<Rightarrow>
       if wait = 0 then t # let_through key ts (record_failure t key l') else let_through key ts l')"

definition in_window :: "rat \<Rightarrow> rat \<Rightarrow> rat list \<Rightarrow> nat" where
  "in_window w start h = length (filter (\<lambda>x. start \<le> x \<and> x \<le> start + w) h)"

text \<open>The queue kept for a client is enough of its history \<open>h\<close> to answer from time \<open>t\<close> on.\<close>

definition tracks :: "string \<Rightarrow> rat list \<Rightarrow> rat \<Rightarrow> limiter \<Rightarrow> bool" where
  "tracks key h t l \<longleftrightarrow> sorted (failures_of key l) \<and>
     (\<forall>u\<ge>t. recent u key l = filter (\<lambda>x. u - window l \<le> x) h)"

lemma tracks_later: "tracks key h t l \<Longrightarrow> t \<le> u \<Longrightarrow> tracks key h u l"
  by (auto simp: tracks_def)

lemma tracks_pruned:
  assumes "tracks key h t l"
  shows "tracks key h t (put_failures key (recent t key l) l)"
  unfolding tracks_def
proof (intro conjI allI impI)
  have s: "sorted (recent t key l)"
    unfolding recent_def using assms by (intro sorted_dropWhile) (simp add: tracks_def)
  then show "sorted (failures_of key (put_failures key (recent t key l) l))" by simp
  fix u assume "t \<le> u"
  then have "filter (\<lambda>x. u - window l \<le> x) (recent t key l) = filter (\<lambda>x. u - window l \<le> x) h"
    using assms by (auto simp: tracks_def intro!: filter_cong)
  then show "recent u key (put_failures key (recent t key l) l) =
      filter (\<lambda>x. u - window (put_failures key (recent t key l) l) \<le> x) h"
    using takeWhile_dropWhile_sorted [OF s] by (simp add: recent_def)
qed

lemma tracks_recorded:
  assumes "tracks key h t l" and "\<forall>x\<in>set h. x \<le> t"
  shows "tracks key (h @ [t]) t (record_failure t key l)"
  unfolding tracks_def
proof (intro conjI allI impI)
  have r: "recent t key l = filter (\<lambda>x. t - window l \<le> x) h" using assms by (simp add: tracks_def)
  have "sorted (recent t key l)"
    unfolding recent_def using assms by (intro sorted_dropWhile) (simp add: tracks_def)
  moreover have "\<forall>x\<in>set (recent t key l). x \<le> t" using assms(2) unfolding r by simp
  ultimately have s: "sorted (recent t key l @ [t])" by (simp add: sorted_append)
  then show "sorted (failures_of key (record_failure t key l))" by (simp add: record_failure_def)
  fix u assume u: "t \<le> u"
  have "filter (\<lambda>x. u - window l \<le> x) (recent t key l @ [t]) = filter (\<lambda>x. u - window l \<le> x) (h @ [t])"
    unfolding r using u by (auto intro!: filter_cong)
  then show "recent u key (record_failure t key l) =
      filter (\<lambda>x. u - window (record_failure t key l) \<le> x) (h @ [t])"
    using takeWhile_dropWhile_sorted [OF s] by (simp add: recent_def record_failure_def)
qed

lemma in_window_append: "in_window w s (h @ k) = in_window w s h + in_window w s k"
  by (simp add: in_window_def)

lemma in_window_next:
  assumes "\<And>s. in_window w s h \<le> m" and "length (filter (\<lambda>x. t - w \<le> x) h) < m"
  shows "in_window w s (h @ [t]) \<le> m"
proof (cases "s \<le> t \<and> t \<le> s + w")
  case True
  have "in_window w s h \<le> length (filter (\<lambda>x. t - w \<le> x) h)"
    unfolding in_window_def using True by (intro length_filter_mono) auto
  then show ?thesis using True assms(2) by (simp add: in_window_append) (simp add: in_window_def)
qed (use assms(1) [of s] in \<open>auto simp: in_window_append\<close>, auto simp: in_window_def)

lemma recent_put [simp]: "recent u key (put_failures key q l) = dropWhile (\<lambda>x. x < u - window l) q"
  by (simp add: recent_def)

lemma record_after_retry:
  "record_failure t key (put_failures key (recent t key l) l) = record_failure t key l"
  by (simp add: record_failure_def recent_def) (simp add: put_failures_def recent_def)

lemma let_through_bound:
  assumes "tracks key h t l" and "\<forall>x\<in>set h. x \<le> t" and "sorted (t # ts)"
    and "\<And>s. in_window (window l) s h \<le> max_failures l"
  shows "in_window (window l) s (h @ let_through key ts l) \<le> max_failures l"
  using assms
proof (induction ts arbitrary: h t l)
  case (Cons u ts)
  let ?l = "put_failures key (recent u key l) l"
  have tr: "tracks key h u l" using Cons.prems(1,3) by (auto intro: tracks_later)
  have le: "\<forall>x\<in>set h. x \<le> u" using Cons.prems(2,3) by fastforce
  have q: "recent u key l = filter (\<lambda>x. u - window l \<le> x) h" using tr by (simp add: tracks_def)
  show ?case
  proof (cases "length (recent u key l) < max_failures l")
    case True
    then have "in_window (window l) s (h @ [u]) \<le> max_failures l" for s
      using in_window_next Cons.prems(4) q by metis
    moreover have "max_failures (record_failure u key l) = max_failures l"
      "window (record_failure u key l) = window l" by (simp_all add: record_failure_def)
    ultimately show ?thesis
      using Cons.IH [OF tracks_recorded [OF tr le]] le Cons.prems(3) True
      by (simp add: retry_after_def Let_def record_after_retry)
  next
    case False
    then show ?thesis
      using Cons.IH [OF tracks_pruned [OF tr]] le Cons.prems(3,4) by (simp add: retry_after_def Let_def)
  qed
qed simp

text \<open>
  C6: a client that only fails is let through at most \<open>max_failures\<close> times in any stretch of
  \<open>window\<close> seconds, however it times its attempts and however many other clients there are.
\<close>

theorem guesses_bounded:
  assumes "sorted ts" and "failures_of key l = []"
  shows "in_window (window l) s (let_through key ts l) \<le> max_failures l"
proof (cases ts)
  case Nil
  then show ?thesis by (simp add: in_window_def)
next
  case (Cons t us)
  have "tracks key [] t l" using assms(2) by (simp add: tracks_def recent_def)
  then show ?thesis
    using let_through_bound [of key "[]" t l ts s] assms(1) Cons by (simp add: in_window_def)
qed

theorem guesses_bounded_witness:
  "in_window 900 0 (let_through ''c'' [0, 1, 2, 2, 3, 4, 5, 6, 7, 8, 9, 10, 11, 12] login_limiter) \<le> 10"
  using guesses_bounded [of "[0, 1, 2, 2, 3, 4, 5, 6, 7, 8, 9, 10, 11, 12]" "''c''" login_limiter 0]
  by (simp add: login_limiter_def failures_of_def)

lemma length_dropWhile_sorted:
  "q \<noteq> [] \<Longrightarrow> length (dropWhile P q) < length q \<longleftrightarrow> P (hd q)"
  by (cases q) (auto simp: length_dropWhile_le less_Suc_eq_le)

text \<open>
  What \<open>retry_after\<close> reports: 0 exactly when fewer than \<open>max_failures\<close> failures are recent. When
  it refuses with that many, the next attempt is let through exactly after the oldest of them is
  strictly older than the window, and the number of seconds it reports, at least 1, is that wait
  rounded down: one second more always suffices, the reported number alone may not.
\<close>

theorem retry_after_exact:
  assumes "length (recent now key l) = max_failures l" and "0 < max_failures l" and "now \<le> u"
  shows "let q = recent now key l; r = retry_after now now key l in
    0 < snd r \<and> (snd (retry_after u u key (fst r)) = 0 \<longleftrightarrow> hd q + window l < u) \<and>
    (now + of_nat (snd r) + 1 \<le> u \<longrightarrow> snd (retry_after u u key (fst r)) = 0)"
proof -
  let ?q = "recent now key l"
  have q: "?q \<noteq> []" using assms(1,2) by auto
  then have "\<not> hd ?q < now - window l" unfolding recent_def by (rule hd_dropWhile_not)
  then have "0 \<le> hd ?q + window l - now" by simp
  then have fl: "hd ?q + window l - now < of_nat (max 1 (nat \<lfloor>hd ?q + window l - now\<rfloor>)) + 1"
    by (simp add: of_nat_max max_def) linarith
  have "length (dropWhile (\<lambda>x. x < u - window l) ?q) < max_failures l \<longleftrightarrow> hd ?q < u - window l"
    using length_dropWhile_sorted [OF q, of "\<lambda>x. x < u - window l"] assms(1) by simp
  then have iff: "snd (retry_after u u key (fst (retry_after now now key l))) = 0 \<longleftrightarrow> hd ?q + window l < u"
    by (auto simp: retry_after_def Let_def)
  have w: "snd (retry_after now now key l) = max 1 (nat \<lfloor>hd ?q + window l - now\<rfloor>)"
    using assms(1) by (simp add: retry_after_def Let_def)
  show ?thesis using fl unfolding Let_def iff w by auto
qed

theorem retry_after_exact_witness:
  "let l = \<lparr>max_failures = 1, window = 2, failures = [(''c'', [1])]\<rparr> in
     snd (retry_after (5 / 2) (5 / 2) ''c'' (fst (retry_after (3 / 2) (3 / 2) ''c'' l))) \<noteq> 0"
  using retry_after_exact [of "3 / 2" "''c''" "\<lparr>max_failures = 1, window = 2, failures = [(''c'', [1])]\<rparr>" "5 / 2"]
  unfolding Let_def by (simp add: recent_def failures_of_def)

end
