(* ===== verification/Totp.thy ===== *)
theory Totp
  imports Auth
begin

text \<open>
  \<^verbatim>\<open>services/totp.py\<close>: the codes of authenticator apps, recovery codes and the challenge between
  the password and the code. \<open>hmac_sha1\<close> (the HMAC-SHA1 of a time step under a base32 secret, as the
  list of its 20 bytes) and \<open>sha\<close> are parameters; random tokens are arguments.
\<close>

section \<open>Codes\<close>

definition DIGITS :: nat where "DIGITS = 6"
definition PERIOD :: rat where "PERIOD = 30"
definition DRIFT_STEPS :: int where "DRIFT_STEPS = 1"
definition RECOVERY_CODE_COUNT :: nat where "RECOVERY_CODE_COUNT = 10"

definition be_value :: "nat list \<Rightarrow> nat" where
  "be_value bs = foldl (\<lambda>a b. 256 * a + b) 0 bs"

definition code_at :: "(string \<Rightarrow> int \<Rightarrow> nat list) \<Rightarrow> string \<Rightarrow> int \<Rightarrow> string" where
  "code_at hmac_sha1 secret step =
     (let digest = hmac_sha1 secret step;
          offset = last digest mod 16;
          value = be_value (take 4 (drop offset digest)) mod 2 ^ 31
      in zfill DIGITS (nat_str (value mod 10 ^ DIGITS)))"

definition current_step :: "rat \<Rightarrow> int" where
  "current_step now = \<lfloor>now / PERIOD\<rfloor>"

definition code_for :: "(string \<Rightarrow> int \<Rightarrow> nat list) \<Rightarrow> string \<Rightarrow> rat \<Rightarrow> string" where
  "code_for hmac_sha1 secret now = code_at hmac_sha1 secret (current_step now)"

text \<open>\<open>hmac.compare_digest\<close> raises \<open>TypeError\<close> for a string that is not ASCII.\<close>

datatype totp_error = CompareTypeError

fun first_match :: "(int \<Rightarrow> string) \<Rightarrow> string \<Rightarrow> int option \<Rightarrow> int list \<Rightarrow> totp_error + int option" where
  "first_match code_of code last_step [] = Inr None"
| "first_match code_of code last_step (c # cs) =
     (if (case last_step of None \<Rightarrow> False | Some l \<Rightarrow> c \<le> l) then first_match code_of code last_step cs
      else if \<not> py_isascii code then Inl CompareTypeError
      else if code_of c = code then Inr (Some c)
      else first_match code_of code last_step cs)"

definition matching_step ::
  "(string \<Rightarrow> int \<Rightarrow> nat list) \<Rightarrow> rat \<Rightarrow> string \<Rightarrow> string \<Rightarrow> int option \<Rightarrow> totp_error + int option" where
  "matching_step hmac_sha1 now secret code last_step =
     (let code = remove_ws code in
      if length code \<noteq> DIGITS \<or> \<not> py_isdigit code then Inr None
      else let step = current_step now in
        first_match (code_at hmac_sha1 secret) code last_step
          [step - DRIFT_STEPS .. step + DRIFT_STEPS])"

section \<open>Recovery codes\<close>

definition normalize_recovery :: "string \<Rightarrow> string" where
  "normalize_recovery code = filter py_alnum (py_lower code)"

definition hash_recovery_code :: "(string \<Rightarrow> string) \<Rightarrow> string \<Rightarrow> string" where
  "hash_recovery_code sha code = sha (normalize_recovery code)"

definition ALPHABET :: string where
  "ALPHABET = ''abcdefghjkmnpqrstuvwxyz23456789''"

text \<open>The random choices are indices into the alphabet, ten for each code.\<close>

definition new_recovery_codes :: "nat list list \<Rightarrow> string list" where
  "new_recovery_codes choices =
     map (\<lambda>idx. let raw = map (\<lambda>i. ALPHABET ! i) idx in take 5 raw @ ''-'' @ drop 5 raw) choices"

definition looks_like_recovery_code :: "string \<Rightarrow> bool" where
  "looks_like_recovery_code code = (length (normalize_recovery code) = 10)"

definition recovery_codes_left :: "user \<Rightarrow> nat" where
  "recovery_codes_left u = (case u_recovery u of None \<Rightarrow> 0 | Some cs \<Rightarrow> length cs)"

section \<open>Challenges\<close>

definition CHALLENGE_TTL :: rat where "CHALLENGE_TTL = 5 * 60"
definition CHALLENGE_MAX_ATTEMPTS :: nat where "CHALLENGE_MAX_ATTEMPTS = 5"

record challenge =
  ch_user :: nat
  ch_expires :: rat
  ch_attempts :: nat

type_synonym challenges = "(string \<times> challenge) list"

definition create_challenge :: "rat \<Rightarrow> string \<Rightarrow> nat \<Rightarrow> challenges \<Rightarrow> challenges" where
  "create_challenge now token i items =
     AList.update token \<lparr>ch_user = i, ch_expires = now + CHALLENGE_TTL, ch_attempts = 0\<rparr>
       (filter (\<lambda>(k, v). now < ch_expires v) items)"

definition user_for :: "rat \<Rightarrow> string \<Rightarrow> challenges \<Rightarrow> challenges \<times> nat option" where
  "user_for now token items = (case map_of items token of
     None \<Rightarrow> (AList.delete token items, None)
   | Some item \<Rightarrow> if ch_expires item \<le> now then (AList.delete token items, None)
                  else (items, Some (ch_user item)))"

definition challenge_failed :: "string \<Rightarrow> challenges \<Rightarrow> challenges" where
  "challenge_failed token items = (case map_of items token of
     None \<Rightarrow> items
   | Some item \<Rightarrow>
      (let item = item\<lparr>ch_attempts := ch_attempts item + 1\<rparr> in
       if CHALLENGE_MAX_ATTEMPTS \<le> ch_attempts item then AList.delete token items
       else AList.update token item items))"

definition finish_challenge :: "string \<Rightarrow> challenges \<Rightarrow> challenges" where
  "finish_challenge token items = AList.delete token items"

section \<open>Checking a second factor\<close>

definition check_second_factor ::
  "(string \<Rightarrow> int \<Rightarrow> nat list) \<Rightarrow> (string \<Rightarrow> string) \<Rightarrow> (string \<Rightarrow> string) \<Rightarrow> rat \<Rightarrow> user \<Rightarrow> string \<Rightarrow>
    accounts \<Rightarrow> accounts \<times> (totp_error + string option)" where
  "check_second_factor hmac_sha1 sha decrypt now u code db =
     (if \<not> u_totp_enabled u \<or> u_totp_secret u = None \<or> u_totp_secret u = Some [] then (db, Inr None)
      else let code = py_strip code in
        if looks_like_recovery_code code then
          (case use_recovery_code (u_id u) (hash_recovery_code sha code) db of
             (db', used) \<Rightarrow> (db', Inr (if used then Some ''recovery'' else None)))
        else (case matching_step hmac_sha1 now (decrypt (the (u_totp_secret u))) code (u_totp_step u) of
            Inl e \<Rightarrow> (db, Inl e)
          | Inr None \<Rightarrow> (db, Inr None)
          | Inr (Some step) \<Rightarrow>
             (case claim_totp_step (u_id u) step db of
                (db', claimed) \<Rightarrow> (db', Inr (if claimed then Some ''totp'' else None)))))"

section \<open>Codes are six digits and match one step\<close>

lemma length_nat_str_le: "n < 10 ^ k \<Longrightarrow> 0 < k \<Longrightarrow> length (nat_str n) \<le> k"
proof (induction k arbitrary: n)
  case (Suc k)
  show ?case
  proof (cases "n < 10")
    case True
    then show ?thesis by (simp add: nat_str.simps [of n])
  next
    case False
    then have "n div 10 < 10 ^ k" "0 < k" using Suc.prems by (auto intro: Nat.gr0I)
    then show ?thesis using Suc.IH [of "n div 10"] False by (simp add: nat_str.simps [of n])
  qed
qed simp

lemma code_at_length: "length (code_at hmac secret step) = DIGITS"
proof -
  have "length (nat_str (v mod 10 ^ DIGITS)) \<le> DIGITS" for v
    by (rule length_nat_str_le) (simp_all add: DIGITS_def)
  then show ?thesis by (simp add: code_at_def Let_def zfill_def)
qed

lemma first_match_Some:
  "first_match f code last_step cs = Inr (Some c) \<Longrightarrow>
    c \<in> set cs \<and> f c = code \<and> (case last_step of None \<Rightarrow> True | Some l \<Rightarrow> l < c)"
  by (induction cs) (auto split: if_splits option.splits)

lemma matching_step_Some:
  assumes "matching_step hmac now secret code last_step = Inr (Some c)"
  shows "code_at hmac secret c = remove_ws code" "\<bar>c - current_step now\<bar> \<le> DRIFT_STEPS"
    "case last_step of None \<Rightarrow> True | Some l \<Rightarrow> l < c"
proof -
  from assms have f: "first_match (code_at hmac secret) (remove_ws code) last_step
      [current_step now - DRIFT_STEPS .. current_step now + DRIFT_STEPS] = Inr (Some c)"
    by (auto simp: matching_step_def Let_def split: if_splits)
  show "code_at hmac secret c = remove_ws code" "case last_step of None \<Rightarrow> True | Some l \<Rightarrow> l < c"
    using first_match_Some [OF f] by simp_all
  show "\<bar>c - current_step now\<bar> \<le> DRIFT_STEPS" using first_match_Some [OF f] by auto
qed

text \<open>An accepted authenticator code claimed the step it matches.\<close>

lemma check_second_factor_totp:
  assumes "check_second_factor hmac sha decrypt now u code db = (db', Inr (Some ''totp''))"
  shows "\<exists>c. claim_totp_step (u_id u) c db = (db', True) \<and> \<bar>c - current_step now\<bar> \<le> DRIFT_STEPS \<and>
    code_at hmac (decrypt (the (u_totp_secret u))) c = remove_ws (py_strip code)"
  using assms
  by (auto simp: check_second_factor_def Let_def dest: matching_step_Some
      split: if_splits sum.splits option.splits prod.splits)

text \<open>
  C7: an authenticator code is not accepted twice for the same time step: of two accepted sign-ins
  of an account the later one used a strictly later step, and each code is the one of its step, at
  most one step from the time of its check; the rows the two checks read may be stale and anything
  but enrolling anew or turning two-factor off may happen between them.
\<close>

theorem second_factor_not_replayed:
  assumes "db_ok db"
    and "check_second_factor hmac sha decrypt now u code db = (db1, Inr (Some ''totp''))"
    and "list_all (\<lambda>op. \<not> resets_totp (u_id u) op) ops" and "u_id u' = u_id u"
    and "check_second_factor hmac sha decrypt now' u' code' (run_ops exec_op ops db1)
           = (db2, Inr (Some ''totp''))"
  shows "\<exists>c c'. c < c' \<and> \<bar>c - current_step now\<bar> \<le> DRIFT_STEPS \<and> \<bar>c' - current_step now'\<bar> \<le> DRIFT_STEPS \<and>
    code_at hmac (decrypt (the (u_totp_secret u))) c = remove_ws (py_strip code) \<and>
    code_at hmac (decrypt (the (u_totp_secret u'))) c' = remove_ws (py_strip code')"
proof -
  from check_second_factor_totp [OF assms(2)] obtain c
    where c: "claim_totp_step (u_id u) c db = (db1, True)" "\<bar>c - current_step now\<bar> \<le> DRIFT_STEPS"
      "code_at hmac (decrypt (the (u_totp_secret u))) c = remove_ws (py_strip code)" by blast
  from check_second_factor_totp [OF assms(5)] obtain c'
    where c': "claim_totp_step (u_id u) c' (run_ops exec_op ops db1) = (db2, True)"
      "\<bar>c' - current_step now'\<bar> \<le> DRIFT_STEPS"
      "code_at hmac (decrypt (the (u_totp_secret u'))) c' = remove_ws (py_strip code')"
    unfolding assms(4) by blast
  have db1: "db1 = exec_op (ClaimStep (u_id u) c) db" using c(1) by simp
  have "db_ok db1" unfolding db1 by (rule exec_op_ok [OF assms(1)])
  then have "row_fact (u_id u) (step_used c) (run_ops exec_op ops db1)"
    using totp.run_keeps claimed_step_used [OF assms(1) c(1)] assms(3) by blast
  then have "\<not> c' \<le> c" using step_used_refused c'(1) by fastforce
  then show ?thesis using c c' by (intro exI [of _ c] exI [of _ c']) auto
qed

text \<open>A MAC whose codes are the step numbers, to evaluate sign-ins with.\<close>

definition step_mac :: "string \<Rightarrow> int \<Rightarrow> nat list" where
  "step_mac secret step = [0, 0, 0, nat step] @ replicate 16 0"

lemma demo_digits:
  "digit_char 0 = CHR ''0''" "digit_char (Suc 0) = CHR ''1''" "digit_char (Suc (Suc 0)) = CHR ''2''"
  "digit_char (Suc (Suc (Suc 0))) = CHR ''3''"
  by code_simp+

lemma step_code: "0 \<le> step \<Longrightarrow> step < 1000000 \<Longrightarrow> code_at step_mac s step = zfill 6 (nat_str (nat step))"
  by (simp add: code_at_def step_mac_def be_value_def DIGITS_def Let_def)

lemma demo_zfill:
  "zfill 6 (nat_str 0) = ''000000''" "zfill 6 (nat_str (Suc 0)) = ''000001''"
  "zfill 6 (nat_str 2) = ''000002''" "zfill 6 (nat_str 3) = ''000003''"
  by (simp_all add: zfill_def nat_str.simps demo_digits numeral_eq_Suc)

lemma step_codes:
  "code_at step_mac ''s'' 0 = ''000000''" "code_at step_mac ''s'' 1 = ''000001''"
  "code_at step_mac ''s'' 2 = ''000002''" "code_at step_mac ''s'' 3 = ''000003''"
  using step_code [of 0 "''s''"] step_code [of 1 "''s''"] step_code [of 2 "''s''"] step_code [of 3 "''s''"]
  by (simp_all add: demo_zfill)

lemma codes_plain:
  "remove_ws ''000001'' = ''000001''" "remove_ws ''000003'' = ''000003''"
  "py_strip ''000001'' = ''000001''" "py_strip ''000003'' = ''000003''"
  "py_isdigit ''000001''" "py_isdigit ''000003''" "py_isascii ''000001''" "py_isascii ''000003''"
  "\<not> looks_like_recovery_code ''000001''" "\<not> looks_like_recovery_code ''000003''"
  by code_simp+

lemma step_matches:
  "matching_step step_mac 30 ''s'' ''000001'' None = Inr (Some 1)"
  "matching_step step_mac 90 ''s'' ''000003'' None = Inr (Some 3)"
  by (simp_all add: matching_step_def codes_plain DIGITS_def current_step_def PERIOD_def DRIFT_STEPS_def
      upto.simps step_codes)

lemmas demo_defs = demo_db_def demo_user_def new_user_def insert_user_def empty_accounts_def

lemma demo_second_factor:
  "check_second_factor step_mac (\<lambda>t. t) (\<lambda>s. s) 30 demo_user ''000001'' demo_db
     = (fst (claim_totp_step 1 1 demo_db), Inr (Some ''totp''))"
  by (simp add: check_second_factor_def codes_plain step_matches demo_user_def new_user_def
      claim_totp_step_def demo_db_def insert_user_def empty_accounts_def rowcount_def step_free_def)

theorem second_factor_not_replayed_witness:
  "\<exists>c c'. c < c' \<and> code_at step_mac ''s'' c = ''000001'' \<and> code_at step_mac ''s'' c' = ''000003''"
proof -
  have 2: "check_second_factor step_mac (\<lambda>t. t) (\<lambda>s. s) 90 demo_user ''000003'' (run_ops exec_op [LastLogin 0 1]
      (fst (claim_totp_step 1 1 demo_db))) =
     (fst (claim_totp_step 1 3 (run_ops exec_op [LastLogin 0 1] (fst (claim_totp_step 1 1 demo_db)))),
      Inr (Some ''totp''))"
    by (simp add: check_second_factor_def codes_plain step_matches demo_user_def new_user_def
        claim_totp_step_def demo_db_def insert_user_def empty_accounts_def rowcount_def step_free_def
        update_user_last_login_def sql_update_def)
  have "list_all (\<lambda>op. \<not> resets_totp (u_id demo_user) op) [LastLogin 0 1]" by simp
  from second_factor_not_replayed [OF demo_db_ok demo_second_factor this _ 2]
  show ?thesis by (auto simp: demo_user_def new_user_def codes_plain)
qed

section \<open>Challenges end\<close>

definition challenge_holder :: "challenges \<Rightarrow> rat \<Rightarrow> string \<Rightarrow> nat option" where
  "challenge_holder items now token = snd (user_for now token items)"

lemma challenge_holder_eq:
  "challenge_holder items now token = (case map_of items token of
     None \<Rightarrow> None | Some item \<Rightarrow> if ch_expires item \<le> now then None else Some (ch_user item))"
  by (simp add: challenge_holder_def user_for_def split: option.splits)

interpretation chal: token_store "\<lambda>_. True" challenge_holder finish_challenge
  by unfold_locales (auto simp: challenge_holder_eq finish_challenge_def delete_conv'
      split: option.splits if_splits)

datatype challenge_op =
    ChCreate rat string nat
  | ChUserFor rat string
  | ChFailed string
  | ChFinish string

primrec exec_challenge :: "challenge_op \<Rightarrow> challenges \<Rightarrow> challenges" where
  "exec_challenge (ChCreate now t i) items = create_challenge now t i items"
| "exec_challenge (ChUserFor now t) items = fst (user_for now t items)"
| "exec_challenge (ChFailed t) items = challenge_failed t items"
| "exec_challenge (ChFinish t) items = finish_challenge t items"

text \<open>The challenge is gone, or expires at \<open>e\<close>, counted \<open>n\<close> wrong codes and is not finished.\<close>

definition pending :: "string \<Rightarrow> nat \<Rightarrow> rat \<Rightarrow> bool \<Rightarrow> challenges \<Rightarrow> bool" where
  "pending token n e finished items = (case map_of items token of
     None \<Rightarrow> True
   | Some item \<Rightarrow> \<not> finished \<and> n \<le> ch_attempts item \<and> ch_attempts item < CHALLENGE_MAX_ATTEMPTS
       \<and> ch_expires item = e)"

lemma map_of_filter_unique:
  assumes "map_of (filter P al) k = Some v" and "distinct (map fst al)"
  shows "map_of al k = Some v"
proof -
  have "(k, v) \<in> set al" using map_of_SomeD [OF assms(1)] by simp
  with assms(2) show ?thesis by simp
qed

lemma distinct_fst_filter: "distinct (map fst al) \<Longrightarrow> distinct (map fst (filter P al))"
  by (induction al) auto

lemma exec_challenge_distinct:
  "distinct (map fst items) \<Longrightarrow> distinct (map fst (exec_challenge op items))"
  by (cases op) (auto simp: create_challenge_def user_for_def challenge_failed_def finish_challenge_def
      Let_def distinct_fst_filter distinct_update distinct_delete split: option.splits)

interpretation chops: op_system exec_challenge "\<lambda>items. distinct (map fst items)"
  by unfold_locales (rule exec_challenge_distinct)

fun creates :: "string \<Rightarrow> challenge_op \<Rightarrow> bool" where
  "creates token (ChCreate _ t _) = (t = token)"
| "creates token _ = False"

lemma pending_step:
  assumes d: "distinct (map fst items)" and f: "pending token n e fin items" and "\<not> creates token op"
  shows "pending token (n + (if op = ChFailed token then 1 else 0)) e (fin \<or> op = ChFinish token)
    (exec_challenge op items)"
proof (cases op)
  case (ChCreate now t i)
  have t: "t \<noteq> token" using assms(3) ChCreate by simp
  show ?thesis
  proof (cases "map_of (filter (\<lambda>(k, v). now < ch_expires v) items) token")
    case None
    then show ?thesis using t ChCreate by (simp add: pending_def create_challenge_def update_conv)
  next
    case (Some v)
    then have "map_of items token = Some v" using d by (rule map_of_filter_unique)
    then show ?thesis
      using f t Some ChCreate by (simp add: pending_def create_challenge_def update_conv)
  qed
qed (use f in \<open>auto simp: pending_def user_for_def challenge_failed_def finish_challenge_def Let_def
    delete_conv' update_conv' not_le split: option.splits if_splits\<close>)

lemma pending_run:
  assumes "distinct (map fst items)" and "pending token n e fin items"
    and "list_all (\<lambda>op. \<not> creates token op) ops"
  shows "pending token (n + length (filter (\<lambda>op. op = ChFailed token) ops)) e
           (fin \<or> ChFinish token \<in> set ops) (run_ops exec_challenge ops items)"
  using assms
proof (induction ops arbitrary: n fin items)
  case (Cons op ops)
  have "pending token (n + (if op = ChFailed token then 1 else 0)) e (fin \<or> op = ChFinish token)
      (exec_challenge op items)"
    using Cons.prems by (intro pending_step) simp_all
  from Cons.IH [OF exec_challenge_distinct [OF Cons.prems(1), of op] this] Cons.prems(3)
  show ?case by (cases "op = ChFailed token"; cases "op = ChFinish token") auto
qed simp

text \<open>
  A sign-in challenge ends: after five wrong codes its token stands for nobody, and so it does
  from its expiry on and after a finished sign-in, whatever happens to other challenges; tokens are
  never created twice.
\<close>

theorem challenge_bounded:
  assumes "list_all (\<lambda>op. \<not> creates token op) ops"
    and "CHALLENGE_MAX_ATTEMPTS \<le> length (filter (\<lambda>op. op = ChFailed token) ops)
      \<or> ChFinish token \<in> set ops \<or> now + CHALLENGE_TTL \<le> later"
    and "distinct (map fst items)"
  shows "snd (user_for later token (run_ops exec_challenge ops (create_challenge now token i items))) = None"
proof -
  let ?c = "create_challenge now token i items"
  have d: "distinct (map fst ?c)" using exec_challenge_distinct [OF assms(3), of "ChCreate now token i"] by simp
  have "pending token 0 (now + CHALLENGE_TTL) False ?c"
    by (simp add: pending_def create_challenge_def update_conv CHALLENGE_MAX_ATTEMPTS_def)
  from pending_run [OF d this assms(1)] assms(2)
  show ?thesis by (auto simp: pending_def user_for_def split: option.splits)
qed

theorem challenge_bounded_witness:
  "snd (user_for 4 ''t'' (run_ops exec_challenge
     [ChFailed ''t'', ChFailed ''t'', ChCreate 1 ''u'' 2, ChFailed ''t'', ChUserFor 2 ''t'', ChFailed ''t'',
      ChFailed ''t''] (create_challenge 0 ''t'' 1 []))) = None"
  using challenge_bounded [of "''t''" "[ChFailed ''t'', ChFailed ''t'', ChCreate 1 ''u'' 2, ChFailed ''t'',
      ChUserFor 2 ''t'', ChFailed ''t'', ChFailed ''t'']" 0 4 "[]" 1]
  by (simp add: CHALLENGE_MAX_ATTEMPTS_def)

section \<open>A digit that is not ASCII\<close>

text \<open>
  \<open>matching_step\<close> raises \<open>TypeError\<close> for a code of six digits of which one is not ASCII (such as
  a superscript two, which \<open>isdigit\<close> accepts); for every other code it returns, and a step it returns
  is at most one from the current one and has that code.
\<close>

theorem matching_step_total:
  "case matching_step hmac now secret code None of
     Inl _ \<Rightarrow> length (remove_ws code) = DIGITS \<and> py_isdigit (remove_ws code) \<and> \<not> py_isascii (remove_ws code)
   | Inr None \<Rightarrow> \<not> (length (remove_ws code) = DIGITS \<and> py_isdigit (remove_ws code) \<and> \<not> py_isascii (remove_ws code))
   | Inr (Some c) \<Rightarrow> \<bar>c - current_step now\<bar> \<le> DRIFT_STEPS \<and> code_at hmac secret c = remove_ws code"
proof -
  let ?steps = "[current_step now - DRIFT_STEPS .. current_step now + DRIFT_STEPS]"
  let ?m = "first_match (code_at hmac secret) (remove_ws code) None ?steps"
  have ascii: "py_isascii c \<Longrightarrow> first_match f c None cs \<noteq> Inl e" for f c cs e
    by (induction cs) auto
  have bad: "\<not> py_isascii c \<Longrightarrow> cs \<noteq> [] \<Longrightarrow> first_match f c None cs = Inl CompareTypeError" for f c cs
    by (cases cs) auto
  have "?steps \<noteq> []" by (simp add: DRIFT_STEPS_def)
  then have m: "\<not> py_isascii (remove_ws code) \<Longrightarrow> ?m = Inl CompareTypeError" by (rule bad [rotated])
  have eq: "matching_step hmac now secret code None =
      (if length (remove_ws code) \<noteq> DIGITS \<or> \<not> py_isdigit (remove_ws code) then Inr None else ?m)"
    by (simp add: matching_step_def Let_def)
  show ?thesis
    using m ascii matching_step_Some [of hmac now secret code None] unfolding eq
    by (cases "py_isascii (remove_ws code)") (auto split: sum.splits option.splits)
qed

end
