(* ===== verification/Secrets.thy ===== *)
theory Secrets
  imports Accounts_Db
begin

text \<open>
  \<^verbatim>\<open>core/secrets.py\<close>, \<^verbatim>\<open>services/password_policy.py\<close> and \<^verbatim>\<open>services/setup_token.py\<close>: encryption of
  stored secrets (the cipher is a parameter, its decryption \<open>None\<close> for \<open>InvalidToken\<close>), the rules for
  new passwords, and the one-time token of the first-run setup, whose file is the optional content.
\<close>

section \<open>Stored secrets\<close>

definition PREFIX :: string where
  "PREFIX = ''enc:v1:''"

definition is_encrypted :: "string option \<Rightarrow> bool" where
  "is_encrypted v = (case v of None \<Rightarrow> False | Some s \<Rightarrow> prefix PREFIX s)"

definition encrypt_secret :: "(string \<Rightarrow> string) \<Rightarrow> string option \<Rightarrow> string option" where
  "encrypt_secret enc v =
     (if v = None \<or> v = Some [] \<or> is_encrypted v then v else Some (PREFIX @ enc (the v)))"

definition decrypt_secret :: "(string \<Rightarrow> string option) \<Rightarrow> string option \<Rightarrow> string option" where
  "decrypt_secret dec v =
     (if \<not> is_encrypted v then v else dec (drop (length PREFIX) (the v)))"

text \<open>
  A stored secret reads back as it was given, and storing it again changes nothing, for every
  cipher that inverts its own encryption; the exception is a secret that itself starts with the
  prefix of encrypted values, which is stored as it is and read back through the cipher. No other
  secret is stored in clear.
\<close>

theorem secret_roundtrip:
  assumes "\<And>s. dec (enc s) = Some s"
  shows "(\<not> is_encrypted v \<longrightarrow> decrypt_secret dec (encrypt_secret enc v) = v) \<and>
    encrypt_secret enc (encrypt_secret enc v) = encrypt_secret enc v \<and>
    (is_encrypted v \<longrightarrow> encrypt_secret enc v = v \<and> decrypt_secret dec v = dec (drop (length PREFIX) (the v))) \<and>
    (v \<noteq> None \<longrightarrow> v \<noteq> Some [] \<longrightarrow> is_encrypted (encrypt_secret enc v))"
  using assms by (auto simp: decrypt_secret_def encrypt_secret_def is_encrypted_def PREFIX_def)

theorem secret_roundtrip_witness:
  "decrypt_secret (\<lambda>s. Some (rev s)) (encrypt_secret rev (Some ''key'')) = Some ''key''"
  using secret_roundtrip [of "\<lambda>s. Some (rev s)" rev "Some ''key''"] by (simp add: is_encrypted_def PREFIX_def)

section \<open>Password rules\<close>

definition MAX_LENGTH :: nat where
  "MAX_LENGTH = 256"

definition COMMON_PASSWORDS :: "string list" where
  "COMMON_PASSWORDS = [
     ''123456'', ''123456789'', ''12345678'', ''1234567890'', ''12345'', ''1234567'', ''123123'', ''111111'', ''000000'',
     ''password'', ''password1'', ''password12'', ''password123'', ''password1234'', ''passw0rd'', ''p@ssw0rd'', ''p@ssword'',
     ''qwerty'', ''qwerty123'', ''qwertyuiop'', ''qwerty12345'', ''1q2w3e4r'', ''1q2w3e4r5t'', ''1qaz2wsx'', ''zaq12wsx'',
     ''abc123'', ''abcd1234'', ''abcdef123'', ''iloveyou'', ''letmein'', ''letmein123'', ''welcome'', ''welcome1'',
     ''welcome123'', ''admin'', ''admin123'', ''admin1234'', ''administrator'', ''root'', ''toor'', ''changeme'',
     ''changeme123'', ''default'', ''secret'', ''secret123'', ''monkey'', ''dragon'', ''football'', ''baseball'',
     ''sunshine'', ''princess'', ''master'', ''superman'', ''batman'', ''trustno1'', ''shadow'', ''michael'', ''jennifer'',
     ''hunter2'', ''starwars'', ''whatever'', ''freedom'', ''login'', ''access'', ''passpass'', ''test'', ''test123'',
     ''test1234'', ''testing123'', ''guest'', ''user'', ''user123'', ''operator'', ''support'', ''security'', ''siem'',
     ''wazuh'', ''wazuh123'', ''elastic'', ''changeit'', ''habeny'', ''habeny123'', ''lxc'', ''container'',
     ''correcthorsebatterystaple'', ''aaaaaaaaaaaa'', ''qazwsxedcrfv'', ''asdfghjkl'', ''zxcvbnm'', ''11111111'',
     ''00000000'', ''987654321'', ''123321'', ''654321'', ''666666'', ''121212'', ''112233'', ''q1w2e3r4t5y6'']"

definition decoration :: "char \<Rightarrow> bool" where
  "decoration c = (c \<in> set ''0123456789!@#$%^&*.?'')"

definition password_problems :: "nat \<Rightarrow> string \<Rightarrow> string \<Rightarrow> string list" where
  "password_problems min_length password username =
     (let lowered = py_lower password; stripped = rstrip_by decoration lowered in
      (if length password < min_length then [''at least '' @ nat_str min_length @ '' characters''] else []) @
      (if MAX_LENGTH < length password then [''at most '' @ nat_str MAX_LENGTH @ '' characters''] else []) @
      (if lowered \<in> set COMMON_PASSWORDS \<or> stripped \<in> set COMMON_PASSWORDS
       then [''not a commonly used password''] else []) @
      (if username \<noteq> [] \<and> 3 \<le> length username \<and> contains (py_lower username) lowered
       then [''must not contain the username''] else []) @
      (if password \<noteq> [] \<and> card (set password) = 1 then [''not a single repeated character''] else []))"

definition enforce_password_policy :: "nat \<Rightarrow> string \<Rightarrow> string \<Rightarrow> http_error option" where
  "enforce_password_policy min_length password username =
     (let problems = password_problems min_length password username in
      if problems \<noteq> [] then Some (HTTPError 400 (''Password must be '' @ join_with ''; '' problems @ ''.''))
      else None)"

lemma rstrip_by_append:
  assumes "w = [] \<or> \<not> p (last w)" and "list_all p s"
  shows "rstrip_by p (w @ s) = w"
proof -
  have "dropWhile p (rev s @ rev w) = dropWhile p (rev w)"
    using assms(2) by (intro dropWhile_append2) (auto simp: list_all_iff)
  moreover have "dropWhile p (rev w) = rev w"
    using assms(1) by (cases w rule: rev_cases) auto
  ultimately show ?thesis by (simp add: rstrip_by_def)
qed

text \<open>
  A password that passes has between the minimum and 256 characters, at least two different
  ones, does not contain the name of its account in any case, and is no common password in any case,
  not even with digits and symbols after it when that common password does not end in one itself.
\<close>

theorem accepted_password:
  assumes "enforce_password_policy m password username = None"
  shows "m \<le> length password \<and> length password \<le> 256 \<and>
    (password \<noteq> [] \<longrightarrow> (\<exists>a\<in>set password. \<exists>b\<in>set password. a \<noteq> b)) \<and>
    (3 \<le> length username \<longrightarrow> \<not> sublist (py_lower username) (py_lower password)) \<and>
    (\<forall>w\<in>set COMMON_PASSWORDS. py_lower password \<noteq> w \<and>
       (\<forall>s. list_all decoration s \<longrightarrow> \<not> decoration (last w) \<longrightarrow> py_lower password \<noteq> w @ s))"
proof -
  have none: "password_problems m password username = []"
    using assms by (auto simp: enforce_password_policy_def Let_def split: if_splits)
  have two: "\<exists>a\<in>set password. \<exists>b\<in>set password. a \<noteq> b" if "password \<noteq> []"
  proof (rule ccontr)
    assume "\<not> ?thesis"
    then have "set password = {hd password}" using that by (cases password) auto
    then have "card (set password) = 1" by simp
    then show False using none that by (simp add: password_problems_def Let_def)
  qed
  have common: "rstrip_by decoration (py_lower password) \<notin> set COMMON_PASSWORDS"
    "py_lower password \<notin> set COMMON_PASSWORDS"
    using none by (auto simp: password_problems_def Let_def split: if_splits)
  have "w \<in> set COMMON_PASSWORDS \<Longrightarrow> list_all decoration s \<Longrightarrow> \<not> decoration (last w) \<Longrightarrow>
      py_lower password \<noteq> w @ s" for w s
    using rstrip_by_append [of w decoration s] common by auto
  moreover have "m \<le> length password" "length password \<le> 256"
    "3 \<le> length username \<longrightarrow> \<not> sublist (py_lower username) (py_lower password)"
    using none by (auto simp: password_problems_def Let_def contains_def MAX_LENGTH_def split: if_splits)
  ultimately show ?thesis using two common by blast
qed

theorem accepted_password_witness:
  "\<not> sublist ''ann'' (py_lower ''Horse-battery7'') \<and> enforce_password_policy 12 ''123456789!!!'' ''ann'' = None"
proof -
  have a: "enforce_password_policy 12 ''Horse-battery7'' ''Ann'' = None"
    "enforce_password_policy 12 ''123456789!!!'' ''ann'' = None" "py_lower ''Ann'' = ''ann''" by code_simp+
  then show ?thesis using accepted_password [OF a(1)] by simp
qed

section \<open>The token of the first-run setup\<close>

text \<open>The file of the token as its optional content; a new token is the argument.\<close>

definition ensure_setup_token :: "string \<Rightarrow> accounts \<Rightarrow> string option \<Rightarrow> string option \<times> string option" where
  "ensure_setup_token random db file =
     (if 0 < count_users db then (None, None)
      else let token = (case file of None \<Rightarrow> None | Some content \<Rightarrow> Some (py_strip content)) in
        if token = None \<or> token = Some [] then (Some (random @ [CHR 0x0A]), Some random)
        else (file, token))"

definition check_setup_token :: "string \<Rightarrow> string option \<Rightarrow> bool" where
  "check_setup_token candidate file = (case file of
     None \<Rightarrow> False
   | Some content \<Rightarrow> (let expected = py_strip content in expected \<noteq> [] \<and> py_strip candidate = expected))"

definition remove_setup_token :: "string option \<Rightarrow> string option" where
  "remove_setup_token file = None"

end
