(* ===== verification/Login.thy ===== *)
theory Login
  imports Totp Secrets
begin

text \<open>
  The sign-in routes of \<^verbatim>\<open>routes/auth.py\<close>: first-run setup, password, second factor, logout. A handler
  takes the server's state to its new state and the response or the HTTP error; it runs without
  suspending (no \<open>await\<close>), so one handler is one step. \<open>env\<close> holds what a request reads from outside
  the state: clocks, the random values it draws and the cryptographic functions. Stored
  two-factor secrets are assumed to decrypt. What is written to the audit trail is the list of events.
\<close>

record event =
  ev_action :: string
  ev_details :: "(string \<times> string) list"
  ev_status :: string

record app =
  a_db :: accounts
  a_limiter :: limiter
  a_challenges :: challenges
  a_setup :: "string option"
  a_events :: "event list"

record env =
  e_sha :: "string \<Rightarrow> string"
  e_scrypt :: kdf
  e_derive :: "string \<Rightarrow> string \<Rightarrow> string"
  e_hmac :: "string \<Rightarrow> int \<Rightarrow> nat list"
  e_decrypt :: "string \<Rightarrow> string"
  e_encrypt :: "string \<Rightarrow> string"
  e_now :: int
  e_mono :: rat
  e_time :: rat
  e_ttl_hours :: int
  e_min_length :: nat
  e_token :: string
  e_salt :: string
  e_choices :: "nat list list"

datatype response =
    SignedIn string user
  | MfaRequired string
  | Message string
  | NewSecret string
  | NewCodes "string list"
  | NewToken string api_token

type_synonym outcome = "app \<times> (http_error + response)"

definition client_of :: "conn \<Rightarrow> string" where
  "client_of c = (case c_client c of None \<Rightarrow> ''unknown'' | Some host \<Rightarrow> host)"

definition log_activity :: "string \<Rightarrow> (string \<times> string) list \<Rightarrow> string \<Rightarrow> app \<Rightarrow> app" where
  "log_activity action details status st =
     st\<lparr>a_events := a_events st @ [\<lparr>ev_action = action, ev_details = details, ev_status = status\<rparr>]\<rparr>"

definition on_db :: "(accounts \<Rightarrow> accounts) \<Rightarrow> app \<Rightarrow> app" where
  "on_db f st = st\<lparr>a_db := f (a_db st)\<rparr>"

section \<open>Shared steps\<close>

text \<open>
  \<open>retry_after\<close> on the server's limiter: the state with the pruned queue, and the seconds to wait.
\<close>

definition limiter_wait :: "env \<Rightarrow> string \<Rightarrow> app \<Rightarrow> app \<times> nat" where
  "limiter_wait env client st =
     (case retry_after (e_mono env) (e_mono env) client (a_limiter st) of (l, wait) \<Rightarrow>
       (st\<lparr>a_limiter := l\<rparr>, wait))"

definition limiter_fail :: "env \<Rightarrow> string \<Rightarrow> app \<Rightarrow> app" where
  "limiter_fail env client st = st\<lparr>a_limiter := record_failure (e_mono env) client (a_limiter st)\<rparr>"

definition check_rate_limit :: "env \<Rightarrow> string \<Rightarrow> app \<Rightarrow> app \<times> http_error option" where
  "check_rate_limit env client st = (case limiter_wait env client st of (st', wait) \<Rightarrow>
     (st', if wait \<noteq> 0 then Some (HTTPError 429 (''Too many failed sign-in attempts. Try again in '' @
             nat_str (max 1 (wait div 60)) @ '' min.'')) else None))"

definition open_session :: "env \<Rightarrow> nat \<Rightarrow> conn \<Rightarrow> app \<Rightarrow> sql_error + app" where
  "open_session env i c st =
     (case start_session (e_sha env) (e_ttl_hours env) (e_now env) (e_token env) i (Some c) (a_db st) of
        Inl e \<Rightarrow> Inl e
      | Inr db \<Rightarrow> Inr (st\<lparr>a_db := update_user_last_login (e_now env) i db\<rparr>))"

definition complete_login ::
  "env \<Rightarrow> user \<Rightarrow> conn \<Rightarrow> string \<Rightarrow> (string \<times> string) list \<Rightarrow> app \<Rightarrow> outcome" where
  "complete_login env u c client details st =
     (let st1 = st\<lparr>a_limiter := reset_failures client (a_limiter st)\<rparr> in
      case open_session env (u_id u) c st1 of
        Inl _ \<Rightarrow> (st1, Inl INTERNAL_ERROR)
      | Inr st2 \<Rightarrow>
          (log_activity ''auth_login'' ([(''username'', u_name u), (''client'', client)] @ details) ''success'' st2,
           Inr (SignedIn (e_token env) u)))"

section \<open>The handlers\<close>

definition setup_admin ::
  "env \<Rightarrow> conn \<Rightarrow> string \<Rightarrow> string \<Rightarrow> string \<Rightarrow> app \<Rightarrow> outcome" where
  "setup_admin env c setup_token username password st =
     (if 0 < count_users (a_db st) then (st, Inl (HTTPError 409 ''Setup has already been completed''))
      else let client = client_of c in
      case limiter_wait env client st of (st1, wait) \<Rightarrow>
      if wait \<noteq> 0 then (st1, Inl (HTTPError 429 ''Too many failed attempts. Try again later.''))
      else if \<not> check_setup_token setup_token (a_setup st1) then
        (log_activity ''auth_setup_token_rejected'' [(''client'', client)] ''error'' (limiter_fail env client st1),
         Inl (HTTPError 403 ''Invalid setup token''))
      else (case enforce_password_policy (e_min_length env) password username of
        Some e \<Rightarrow> (st1, Inl e)
      | None \<Rightarrow>
       (case create_first_user (e_now env) username (hash_password (e_derive env) (e_salt env) password) (a_db st1) of
          (_, None) \<Rightarrow> (st1, Inl (HTTPError 409 ''Setup has already been completed''))
        | (db, Some u) \<Rightarrow>
           (let st2 = st1\<lparr>a_db := db, a_setup := remove_setup_token (a_setup st1)\<rparr> in
            case open_session env (u_id u) c st2 of
              Inl _ \<Rightarrow> (st2, Inl INTERNAL_ERROR)
            | Inr st3 \<Rightarrow>
                (log_activity ''auth_setup_completed'' [(''username'', u_name u)] ''success'' st3,
                 Inr (SignedIn (e_token env) u))))))"

definition login :: "env \<Rightarrow> conn \<Rightarrow> string \<Rightarrow> string \<Rightarrow> app \<Rightarrow> outcome" where
  "login env c username password st =
     (let client = client_of c in
      case check_rate_limit env client st of
        (st1, Some e) \<Rightarrow> (st1, Inl e)
      | (st1, None) \<Rightarrow>
         (let u = get_user_by_username username (a_db st1) in
          if \<not> check_credentials (e_scrypt env) u password then
            (log_activity ''auth_login_failed'' [(''username'', username), (''client'', client)] ''error''
               (limiter_fail env client st1),
             Inl (HTTPError 401 ''Invalid username or password''))
          else if u_totp_enabled (the u) then
            (st1\<lparr>a_challenges := create_challenge (e_mono env) (e_token env) (u_id (the u)) (a_challenges st1)\<rparr>,
             Inr (MfaRequired (e_token env)))
          else complete_login env (the u) c client [] st1))"

definition login_second_factor :: "env \<Rightarrow> conn \<Rightarrow> string \<Rightarrow> string \<Rightarrow> app \<Rightarrow> outcome" where
  "login_second_factor env c mfa_token code st =
     (let client = client_of c in
      case check_rate_limit env client st of
        (st1, Some e) \<Rightarrow> (st1, Inl e)
      | (st1, None) \<Rightarrow>
         (case user_for (e_mono env) mfa_token (a_challenges st1) of (chs, user_id) \<Rightarrow>
          let st2 = st1\<lparr>a_challenges := chs\<rparr>;
              user = (case user_id of None \<Rightarrow> None | Some i \<Rightarrow> get_user_by_id i (a_db st2)) in
          (case user of
            None \<Rightarrow> (st2, Inl (HTTPError 401 ''Sign-in expired. Enter your username and password again.''))
          | Some u \<Rightarrow>
             (case check_second_factor (e_hmac env) (e_sha env) (e_decrypt env) (e_time env) u code (a_db st2) of
                (_, Inl _) \<Rightarrow> (st2, Inl INTERNAL_ERROR)
              | (_, Inr None) \<Rightarrow>
                  (let st3 = limiter_fail env client st2;
                       st4 = st3\<lparr>a_challenges := challenge_failed mfa_token chs\<rparr>
                   in (log_activity ''auth_2fa_failed'' [(''username'', u_name u), (''client'', client)] ''error'' st4,
                       Inl (HTTPError 401 ''Invalid authentication code'')))
              | (db, Inr (Some how)) \<Rightarrow>
                 (let st3 = st2\<lparr>a_db := db, a_challenges := finish_challenge mfa_token chs\<rparr>;
                      left = (case get_user_by_id (u_id u) db of None \<Rightarrow> 0 | Some v \<Rightarrow> recovery_codes_left v);
                      details = [(''second_factor'', how)] @
                        (if how = ''recovery'' then [(''recovery_codes_left'', nat_str left)] else [])
                  in complete_login env u c client details st3)))))"

definition logout :: "env \<Rightarrow> conn \<Rightarrow> app \<Rightarrow> outcome" where
  "logout env c st =
     (case c_cookie c of
        None \<Rightarrow> (st, Inr (Message ''Signed out''))
      | Some token \<Rightarrow>
         (if token = [] then st else on_db (end_session (e_sha env) token) st, Inr (Message ''Signed out'')))"

section \<open>A session needs every factor\<close>

lemma sessions_on_db [simp]:
  "a_db (log_activity a d s st) = a_db st" "a_db (limiter_fail env cl st) = a_db st"
  "a_challenges (log_activity a d s st) = a_challenges st" "a_challenges (limiter_fail env cl st) = a_challenges st"
  "a_limiter (log_activity a d s st) = a_limiter st" "a_setup (log_activity a d s st) = a_setup st"
  "a_setup (limiter_fail env cl st) = a_setup st"
  by (simp_all add: log_activity_def limiter_fail_def)

lemma check_rate_limit_db:
  "check_rate_limit env cl st = (st', r) \<Longrightarrow>
    a_db st' = a_db st \<and> a_challenges st' = a_challenges st \<and> a_setup st' = a_setup st"
  by (auto simp: check_rate_limit_def limiter_wait_def split: prod.splits)

lemma limiter_wait_db:
  "limiter_wait env cl st = (st', w) \<Longrightarrow>
    a_db st' = a_db st \<and> a_challenges st' = a_challenges st \<and> a_setup st' = a_setup st"
  by (auto simp: limiter_wait_def split: prod.splits)

lemma check_credentials_Some:
  "check_credentials scrypt u pw \<longleftrightarrow> (\<exists>v. u = Some v \<and> verify_password scrypt pw (u_hash v))"
  by (auto simp: check_credentials_def split: option.splits)

lemma complete_login_SignedIn:
  "complete_login env u c cl d st = (st', Inr r) \<Longrightarrow> r = SignedIn (e_token env) u"
  by (auto simp: complete_login_def Let_def split: sum.splits)

lemma complete_login_Inl:
  "complete_login env u c cl d st = (st', Inl e) \<Longrightarrow> a_db st' = a_db st"
  by (auto simp: complete_login_def Let_def split: sum.splits)

text \<open>What each answer of the two sign-in steps says of the server it was given by.\<close>

lemma login_answers:
  "case snd (login env c name pw st) of
     Inl _ \<Rightarrow> a_db (fst (login env c name pw st)) = a_db st
   | Inr (SignedIn t u) \<Rightarrow> get_user_by_username name (a_db st) = Some u \<and>
       verify_password (e_scrypt env) pw (u_hash u) \<and> \<not> u_totp_enabled u \<and> t = e_token env
   | Inr (MfaRequired t) \<Rightarrow> a_db (fst (login env c name pw st)) = a_db st \<and> t = e_token env \<and>
       (\<exists>u. get_user_by_username name (a_db st) = Some u \<and> u_totp_enabled u \<and>
         verify_password (e_scrypt env) pw (u_hash u) \<and>
         a_challenges (fst (login env c name pw st)) = create_challenge (e_mono env) t (u_id u) (a_challenges st))
   | Inr _ \<Rightarrow> False"
proof -
  obtain st1 r where r: "check_rate_limit env (client_of c) st = (st1, r)" by fastforce
  note s1 = check_rate_limit_db [OF r]
  let ?u = "get_user_by_username name (a_db st)"
  show ?thesis
  proof (cases r)
    case (Some e)
    then show ?thesis using r s1 by (simp add: login_def)
  next
    case None
    show ?thesis
    proof (cases "check_credentials (e_scrypt env) ?u pw")
      case False
      then show ?thesis using r s1 None by (simp add: login_def Let_def)
    next
      case True
      then obtain v where v: "?u = Some v" "verify_password (e_scrypt env) pw (u_hash v)"
        by (auto simp: check_credentials_Some)
      show ?thesis
      proof (cases "u_totp_enabled v")
        case True
        then show ?thesis using r s1 None v by (simp add: login_def Let_def check_credentials_def)
      next
        case False
        obtain st2 o2 where c2: "complete_login env v c (client_of c) [] st1 = (st2, o2)" by fastforce
        have "login env c name pw st = (st2, o2)"
          using r s1 None v False c2 by (simp add: login_def Let_def check_credentials_def)
        then show ?thesis
          using c2 s1 v False complete_login_SignedIn complete_login_Inl by (cases o2) fastforce+
      qed
    qed
  qed
qed

lemma second_factor_answers:
  assumes "login_second_factor env c t code st = (st', Inr r)"
  shows "\<exists>u how. r = SignedIn (e_token env) u \<and>
    snd (user_for (e_mono env) t (a_challenges st)) = Some (u_id u) \<and>
    get_user_by_id (u_id u) (a_db st) = Some u \<and>
    snd (check_second_factor (e_hmac env) (e_sha env) (e_decrypt env) (e_time env) u code (a_db st)) = Inr (Some how)"
proof -
  obtain st1 lim where l: "check_rate_limit env (client_of c) st = (st1, lim)" by fastforce
  note s1 = check_rate_limit_db [OF l]
  have lim: "lim = None" using assms l by (cases lim) (simp_all add: login_second_factor_def)
  obtain chs i where i: "user_for (e_mono env) t (a_challenges st) = (chs, i)" by fastforce
  then obtain j where j: "i = Some j"
    using assms l lim s1 by (cases i) (simp_all add: login_second_factor_def Let_def)
  obtain u where u: "get_user_by_id j (a_db st) = Some u"
    using assms l lim s1 i j by (cases "get_user_by_id j (a_db st)") (simp_all add: login_second_factor_def Let_def)
  then have id: "u_id u = j" unfolding get_user_by_id_def using fetchone_Some by fastforce
  obtain db res where k: "check_second_factor (e_hmac env) (e_sha env) (e_decrypt env) (e_time env) u code (a_db st)
      = (db, res)" by fastforce
  obtain how where how: "res = Inr (Some how)"
    using assms l lim s1 i j u k
    by (cases res rule: sum.exhaust; cases "projr res")
      (auto simp: login_second_factor_def Let_def)
  have "\<exists>d st3. complete_login env u c (client_of c) d st3 = (st', Inr r)"
    using assms l lim s1 i j u k how by (auto simp: login_second_factor_def Let_def)
  then have "r = SignedIn (e_token env) u" using complete_login_SignedIn by blast
  then show ?thesis using i j u k how id by auto
qed

section \<open>Sign-ins over a run of the server\<close>

datatype request =
    ReqSetup env conn string string string
  | ReqLogin env conn string string
  | ReqSecondFactor env conn string string
  | ReqLogout env conn

primrec handle :: "request \<Rightarrow> app \<Rightarrow> outcome" where
  "handle (ReqSetup env c tok name pw) st = setup_admin env c tok name pw st"
| "handle (ReqLogin env c name pw) st = login env c name pw st"
| "handle (ReqSecondFactor env c t code) st = login_second_factor env c t code st"
| "handle (ReqLogout env c) st = logout env c st"

text \<open>The server after some requests, with each request, the state it met and its answer.\<close>

inductive served :: "app \<Rightarrow> (request \<times> app \<times> (http_error + response)) list \<Rightarrow> app \<Rightarrow> bool" for st0 where
  served_start: "served st0 [] st0"
| served_next: "served st0 h st \<Longrightarrow> handle r st = (st', out) \<Longrightarrow> served st0 (h @ [(r, st, out)]) st'"

lemma in_update: "(k', v') \<in> set (AList.update k v al) \<Longrightarrow> (k', v') = (k, v) \<or> (k', v') \<in> set al"
  by (induction al) (auto split: if_splits)

lemma in_delete: "x \<in> set (AList.delete k al) \<Longrightarrow> x \<in> set al"
  by (induction al) (auto split: if_splits)

lemma in_failed:
  "(k, ch) \<in> set (challenge_failed t chs) \<Longrightarrow> \<exists>ch'. (k, ch') \<in> set chs \<and> ch_user ch' = ch_user ch"
  by (force simp: challenge_failed_def Let_def split: option.splits if_splits
      dest!: in_update in_delete map_of_SomeD)

lemma in_user_for: "x \<in> set (fst (user_for now t chs)) \<Longrightarrow> x \<in> set chs"
  by (auto simp: user_for_def split: option.splits if_splits dest: in_delete)

lemma open_session_challenges: "open_session env i c st = Inr st' \<Longrightarrow> a_challenges st' = a_challenges st"
  by (auto simp: open_session_def split: sum.splits)

lemma complete_login_challenges: "complete_login env u c cl d st = (st', out) \<Longrightarrow> a_challenges st' = a_challenges st"
  by (auto simp: complete_login_def Let_def split: sum.splits dest: open_session_challenges)

lemma setup_challenges: "setup_admin env c tok name pw st = (st', out) \<Longrightarrow> a_challenges st' = a_challenges st"
  by (auto simp: setup_admin_def Let_def split: if_splits prod.splits option.splits sum.splits
      dest!: limiter_wait_db open_session_challenges)

lemma second_factor_challenges:
  assumes "login_second_factor env c t code st = (st', out)" and "(k, ch) \<in> set (a_challenges st')"
  shows "\<exists>ch'. (k, ch') \<in> set (a_challenges st) \<and> ch_user ch' = ch_user ch"
proof -
  obtain st1 lim where l: "check_rate_limit env (client_of c) st = (st1, lim)" by fastforce
  note s1 = check_rate_limit_db [OF l]
  obtain chs i where i: "user_for (e_mono env) t (a_challenges st) = (chs, i)" by fastforce
  have "a_challenges st' \<in> {a_challenges st, chs, challenge_failed t chs, finish_challenge t chs}"
    using assms(1) l s1 i
    by (auto simp: login_second_factor_def Let_def split: option.splits sum.splits prod.splits
        dest: complete_login_challenges)
  moreover have "(k, c') \<in> set chs \<Longrightarrow> (k, c') \<in> set (a_challenges st)" for c'
    using in_user_for [of "(k, c')" "e_mono env" t "a_challenges st"] i by simp
  ultimately show ?thesis
    using assms(2) in_failed [of k ch t chs] in_delete [of "(k, ch)" t chs]
    unfolding finish_challenge_def by (elim insertE emptyE) (simp_all, blast+)
qed

text \<open>Every pending challenge is the answer to an earlier sign-in with the right password.\<close>

definition password_shown :: "request \<times> app \<times> (http_error + response) \<Rightarrow> string \<Rightarrow> nat \<Rightarrow> bool" where
  "password_shown entry t i =
     (case entry of
        (ReqLogin env c name pw, st, Inr (MfaRequired t')) \<Rightarrow>
          t' = t \<and> (\<exists>u. get_user_by_username name (a_db st) = Some u \<and> u_id u = i \<and>
            verify_password (e_scrypt env) pw (u_hash u))
      | _ \<Rightarrow> False)"

lemma login_challenges:
  assumes "login env c name pw st = (st', out)" and "(k, ch) \<in> set (a_challenges st')"
  shows "(k, ch) \<in> set (a_challenges st) \<or> password_shown (ReqLogin env c name pw, st, out) k (ch_user ch)"
proof (cases "\<exists>t. out = Inr (MfaRequired t)")
  case True
  then obtain t where t: "out = Inr (MfaRequired t)" ..
  then obtain u where u: "get_user_by_username name (a_db st) = Some u"
      "verify_password (e_scrypt env) pw (u_hash u)"
      "a_challenges st' = create_challenge (e_mono env) t (u_id u) (a_challenges st)"
    using login_answers [of env c name pw st] assms(1) by auto
  then show ?thesis
    using assms(2) t by (auto simp: create_challenge_def password_shown_def dest!: in_update)
next
  case False
  obtain st1 lim where l: "check_rate_limit env (client_of c) st = (st1, lim)" by fastforce
  note s1 = check_rate_limit_db [OF l]
  have "a_challenges st' = a_challenges st"
    using assms(1) l s1 False
    by (auto simp: login_def Let_def split: option.splits if_splits dest: complete_login_challenges)
  then show ?thesis using assms(2) by simp
qed

lemma challenges_from_passwords:
  assumes "served st0 h st" and "a_challenges st0 = []" and "(t, ch) \<in> set (a_challenges st)"
  shows "\<exists>e\<in>set h. password_shown e t (ch_user ch)"
  using assms
proof (induction arbitrary: t ch rule: served.induct)
  case (served_next h st r st' out)
  show ?case
  proof (cases r)
    case (ReqSetup env c tok name pw)
    then show ?thesis using served_next setup_challenges by fastforce
  next
    case (ReqLogin env c name pw)
    then show ?thesis using served_next login_challenges [of env c name pw st st' out t ch] by auto
  next
    case (ReqSecondFactor env c tk code)
    then obtain ch' where "(t, ch') \<in> set (a_challenges st)" "ch_user ch' = ch_user ch"
      using served_next second_factor_challenges [of env c tk code st st' out t ch] by auto
    then show ?thesis using served_next.IH [OF served_next.prems(1), of t ch'] by auto
  next
    case (ReqLogout env c)
    then have "a_challenges st' = a_challenges st"
      using served_next.hyps(2) by (auto simp: logout_def on_db_def split: option.splits if_splits)
    then show ?thesis using served_next by auto
  qed
qed simp


definition demo_env :: env where
  "demo_env = \<lparr>e_sha = (\<lambda>t. t), e_scrypt = (\<lambda>pw _ _ _ _. Some pw), e_derive = (\<lambda>pw _. pw),
     e_hmac = step_mac, e_decrypt = (\<lambda>s. s), e_encrypt = (\<lambda>s. s), e_now = 5, e_mono = 0, e_time = 30, e_ttl_hours = 1,
     e_min_length = 12, e_token = ''new'', e_salt = ''aa'', e_choices = []\<rparr>"

definition demo_bob :: user where
  "demo_bob = new_user 1 ''bob'' ''scrypt$1$1$1$aa$pw'' ''viewer'' None 0"

definition demo_app :: app where
  "demo_app = \<lparr>a_db = insert_user demo_bob empty_accounts, a_limiter = login_limiter, a_challenges = [],
     a_setup = None, a_events = []\<rparr>"

lemma demo_login:
  "snd (login demo_env demo_conn ''Bob'' ''pw'' demo_app) = Inr (SignedIn ''new'' demo_bob)"
proof -
  have f: "get_user_by_username ''Bob'' (a_db demo_app) = Some demo_bob" by code_simp
  have v: "verify_password (e_scrypt demo_env) ''pw'' (u_hash demo_bob)" by code_simp
  have l: "check_rate_limit demo_env (client_of demo_conn) demo_app =
      (demo_app\<lparr>a_limiter := put_failures ''unknown'' [] login_limiter\<rparr>, None)"
    by (simp add: check_rate_limit_def limiter_wait_def retry_after_def recent_def failures_of_def
        login_limiter_def demo_app_def client_of_def demo_conn_def)
  have os: "create_session n h (u_id demo_bob) e ip ag (a_db demo_app) \<noteq> Inl x" for n h e ip ag x
    by (simp add: create_session_def demo_app_def demo_bob_def new_user_def insert_user_def
        empty_accounts_def Let_def)
  have c: "snd (complete_login demo_env demo_bob demo_conn cl [] st1) = Inr (SignedIn ''new'' demo_bob)"
    if "a_db st1 = a_db demo_app" for cl st1
    using os that unfolding complete_login_def open_session_def start_session_def Let_def
    by (auto simp: demo_env_def split: sum.splits)
  have "\<not> u_totp_enabled demo_bob" by (simp add: demo_bob_def new_user_def)
  then show ?thesis using f v c by (simp add: login_def l check_credentials_def Let_def)
qed


end
