(* ===== verification/Users_Routes.thy ===== *)
theory Users_Routes
  imports Login
begin

text \<open>
  \<^verbatim>\<open>routes/users.py\<close>: changes to one's own account (password, two-factor, sessions, API tokens) and
  the administration of other accounts. The principal is the one the dependencies
  (\<open>require_session\<close>, \<open>require_admin\<close>) admitted; an account that vanished meanwhile makes the handler
  fail with an internal error.
\<close>

section \<open>Guards\<close>

definition quoted :: "string \<Rightarrow> string" where
  "quoted s = [CHR 0x27] @ s @ [CHR 0x27]"

definition get_other_user :: "nat \<Rightarrow> principal \<Rightarrow> accounts \<Rightarrow> http_error + user" where
  "get_other_user i current db = (case get_user_by_id i db of
     None \<Rightarrow> Inl (HTTPError 404 ''User not found'')
   | Some target \<Rightarrow>
       if u_id target = u_id (p_user current)
       then Inl (HTTPError 400 ''You can't do that to your own account'') else Inr target)"

definition SSO_MANAGED :: string where
  "SSO_MANAGED = ''This account signs in with single sign-on; its password and two-factor are managed there''"

definition has_subject :: "user \<Rightarrow> bool" where
  "has_subject u = (u_subject u \<noteq> None \<and> u_subject u \<noteq> Some [])"

definition confirm_password :: "env \<Rightarrow> principal \<Rightarrow> string \<Rightarrow> accounts \<Rightarrow> http_error + user" where
  "confirm_password env p password db = (case get_user_by_id (u_id (p_user p)) db of
     None \<Rightarrow> Inl INTERNAL_ERROR
   | Some full \<Rightarrow>
       if has_subject full then Inl (HTTPError 400 SSO_MANAGED)
       else if \<not> verify_password (e_scrypt env) password (u_hash full)
       then Inl (HTTPError 400 ''Current password is incorrect'') else Inr full)"

definition sign_out_others :: "env \<Rightarrow> nat \<Rightarrow> string \<Rightarrow> app \<Rightarrow> app" where
  "sign_out_others env i cookie = on_db (delete_user_sessions i (Some (e_sha env cookie)))"

section \<open>One's own account\<close>

definition change_own_password ::
  "env \<Rightarrow> conn \<Rightarrow> principal \<Rightarrow> string \<Rightarrow> string \<Rightarrow> app \<Rightarrow> outcome" where
  "change_own_password env c p current_password new_password st =
     (case confirm_password env p current_password (a_db st) of
        Inl e \<Rightarrow> (st, Inl e)
      | Inr _ \<Rightarrow>
        if new_password = current_password then (st, Inl (HTTPError 400 ''New password must be different''))
        else (case enforce_password_policy (e_min_length env) new_password (u_name (p_user p)) of
          Some e \<Rightarrow> (st, Inl e)
        | None \<Rightarrow>
           (let i = u_id (p_user p);
                st1 = on_db (update_user_password i
                        (hash_password (e_derive env) (e_salt env) new_password)) st
            in case c_cookie c of
                 None \<Rightarrow> (st1, Inl INTERNAL_ERROR)
               | Some cookie \<Rightarrow>
                   (log_activity ''user_password_changed'' [(''username'', u_name (p_user p))] ''success''
                      (sign_out_others env i cookie st1),
                    Inr (Message ''Password changed. Your other sessions were signed out.'')))))"

definition start_two_factor :: "env \<Rightarrow> principal \<Rightarrow> string \<Rightarrow> string \<Rightarrow> app \<Rightarrow> outcome" where
  "start_two_factor env p current_password secret st =
     (case confirm_password env p current_password (a_db st) of
        Inl e \<Rightarrow> (st, Inl e)
      | Inr full \<Rightarrow>
        if u_totp_enabled full then (st, Inl (HTTPError 409 ''Two-factor authentication is already on''))
        else (on_db (set_pending_totp (u_id (p_user p)) (e_encrypt env secret)) st, Inr (NewSecret secret)))"

definition enable_two_factor :: "env \<Rightarrow> conn \<Rightarrow> principal \<Rightarrow> string \<Rightarrow> app \<Rightarrow> outcome" where
  "enable_two_factor env c p code st =
     (let i = u_id (p_user p) in
      case get_user_by_id i (a_db st) of
        None \<Rightarrow> (st, Inl INTERNAL_ERROR)
      | Some full \<Rightarrow>
        if u_totp_enabled full then (st, Inl (HTTPError 409 ''Two-factor authentication is already on''))
        else if u_totp_secret full = None \<or> u_totp_secret full = Some [] then
          (st, Inl (HTTPError 400 ''Start the setup first''))
        else (case matching_step (e_hmac env) (e_time env) (e_decrypt env (the (u_totp_secret full))) code None of
            Inl _ \<Rightarrow> (st, Inl INTERNAL_ERROR)
          | Inr None \<Rightarrow>
              (st, Inl (HTTPError 400 ''That code didn't match. Check the time on your phone and try the next code.''))
          | Inr (Some step) \<Rightarrow>
             (let codes = new_recovery_codes (e_choices env);
                  st1 = on_db (enable_totp i step (map (hash_recovery_code (e_sha env)) codes)) st
              in case c_cookie c of
                   None \<Rightarrow> (st1, Inl INTERNAL_ERROR)
                 | Some cookie \<Rightarrow>
                     (log_activity ''user_2fa_enabled'' [(''username'', u_name (p_user p))] ''success''
                        (sign_out_others env i cookie st1),
                      Inr (NewCodes codes)))))"

definition regenerate_recovery_codes :: "env \<Rightarrow> principal \<Rightarrow> string \<Rightarrow> app \<Rightarrow> outcome" where
  "regenerate_recovery_codes env p current_password st =
     (case confirm_password env p current_password (a_db st) of
        Inl e \<Rightarrow> (st, Inl e)
      | Inr full \<Rightarrow>
        if \<not> u_totp_enabled full then (st, Inl (HTTPError 400 ''Two-factor authentication is off''))
        else let codes = new_recovery_codes (e_choices env) in
          (log_activity ''user_2fa_recovery_codes_regenerated'' [(''username'', u_name (p_user p))] ''success''
             (on_db (set_recovery_codes (u_id (p_user p)) (map (hash_recovery_code (e_sha env)) codes)) st),
           Inr (NewCodes codes)))"

definition disable_two_factor :: "env \<Rightarrow> principal \<Rightarrow> string \<Rightarrow> string \<Rightarrow> app \<Rightarrow> outcome" where
  "disable_two_factor env p current_password code st =
     (case confirm_password env p current_password (a_db st) of
        Inl e \<Rightarrow> (st, Inl e)
      | Inr full \<Rightarrow>
        if \<not> u_totp_enabled full then (st, Inl (HTTPError 400 ''Two-factor authentication is off''))
        else (case check_second_factor (e_hmac env) (e_sha env) (e_decrypt env) (e_time env) full code (a_db st) of
            (_, Inl _) \<Rightarrow> (st, Inl INTERNAL_ERROR)
          | (db, Inr None) \<Rightarrow> (st\<lparr>a_db := db\<rparr>, Inl (HTTPError 400 ''Invalid authentication code''))
          | (db, Inr (Some _)) \<Rightarrow>
              (log_activity ''user_2fa_disabled'' [(''username'', u_name (p_user p))] ''success''
                 (st\<lparr>a_db := disable_totp (u_id (p_user p)) db\<rparr>),
               Inr (Message ''Two-factor authentication is off''))))"

definition end_my_session :: "env \<Rightarrow> principal \<Rightarrow> string \<Rightarrow> app \<Rightarrow> outcome" where
  "end_my_session env p session_id st =
     (case find (\<lambda>s. session_public_id (s_hash s) = session_id)
            (list_user_sessions (e_now env) (u_id (p_user p)) (a_db st)) of
        None \<Rightarrow> (st, Inl (HTTPError 404 ''Session not found''))
      | Some s \<Rightarrow>
          (log_activity ''session_revoked'' [(''username'', u_name (p_user p)), (''session'', session_id)] ''success''
             (on_db (delete_session (s_hash s)) st),
           Inr (Message ''Session signed out'')))"

definition end_my_other_sessions :: "env \<Rightarrow> conn \<Rightarrow> principal \<Rightarrow> app \<Rightarrow> outcome" where
  "end_my_other_sessions env c p st =
     (case c_cookie c of
        None \<Rightarrow> (st, Inl INTERNAL_ERROR)
      | Some cookie \<Rightarrow>
          (log_activity ''sessions_revoked'' [(''username'', u_name (p_user p)), (''scope'', ''others'')] ''success''
             (sign_out_others env (u_id (p_user p)) cookie st),
           Inr (Message ''Signed out of all other sessions'')))"

definition create_my_token ::
  "env \<Rightarrow> principal \<Rightarrow> string \<Rightarrow> string option \<Rightarrow> int option \<Rightarrow> app \<Rightarrow> outcome" where
  "create_my_token env p name wanted days st =
     (let role = (case wanted of None \<Rightarrow> u_role (p_user p) | Some r \<Rightarrow> r) in
      if \<not> has_role (p_user p) role then
        (st, Inl (HTTPError 403 (''You can't create a token with the '' @ role @ '' role'')))
      else let expires = (case days of None \<Rightarrow> None | Some d \<Rightarrow> Some (e_now env + microseconds (d * 86400)));
               (token, pre) = new_api_token (e_token env)
      in (case create_api_token (e_now env) (u_id (p_user p)) name (e_sha env token) pre role expires (a_db st) of
            Inl _ \<Rightarrow> (st, Inl INTERNAL_ERROR)
          | Inr (db, row) \<Rightarrow>
              (log_activity ''api_token_created''
                 [(''username'', u_name (p_user p)), (''token'', name), (''role'', role)] ''success'' (st\<lparr>a_db := db\<rparr>),
               Inr (NewToken token row))))"

definition revoke_my_token :: "principal \<Rightarrow> nat \<Rightarrow> app \<Rightarrow> outcome" where
  "revoke_my_token p tid st =
     (case delete_api_token tid (Some (u_id (p_user p))) (a_db st) of
        (_, None) \<Rightarrow> (st, Inl (HTTPError 404 ''Token not found''))
      | (db, Some (t, _)) \<Rightarrow>
          (log_activity ''api_token_revoked'' [(''username'', u_name (p_user p)), (''token'', t_name t)] ''success''
             (st\<lparr>a_db := db\<rparr>),
           Inr (Message (''Token '' @ quoted (t_name t) @ '' revoked''))))"

section \<open>Administration\<close>

definition add_user :: "env \<Rightarrow> principal \<Rightarrow> string \<Rightarrow> string \<Rightarrow> string \<Rightarrow> app \<Rightarrow> outcome" where
  "add_user env admin username password role st =
     (case enforce_password_policy (e_min_length env) password username of
        Some e \<Rightarrow> (st, Inl e)
      | None \<Rightarrow>
         (case create_user (e_now env) username (hash_password (e_derive env) (e_salt env) password) role (a_db st) of
            (_, None) \<Rightarrow> (st, Inl (HTTPError 409 (''Username '' @ quoted username @ '' is taken'')))
          | (db, Some u) \<Rightarrow>
              (log_activity ''user_created''
                 [(''username'', u_name u), (''role'', role), (''by'', u_name (p_user admin))] ''success'' (st\<lparr>a_db := db\<rparr>),
               Inr (Message (''User '' @ quoted (u_name u) @ '' created'')))))"

definition update_user :: "principal \<Rightarrow> nat \<Rightarrow> string \<Rightarrow> app \<Rightarrow> outcome" where
  "update_user admin i role st = (case get_other_user i admin (a_db st) of
     Inl e \<Rightarrow> (st, Inl e)
   | Inr target \<Rightarrow>
      (case set_user_role (u_id target) role (a_db st) of
         (_, False) \<Rightarrow> (st, Inl (HTTPError 409 ''There must be at least one administrator''))
       | (db, True) \<Rightarrow>
           (log_activity ''user_updated''
              [(''username'', u_name target), (''role'', role), (''by'', u_name (p_user admin))] ''success'' (st\<lparr>a_db := db\<rparr>),
            Inr (Message (quoted (u_name target) @ '' is now '' @
              (if role \<in> {''admin'', ''operator''} then ''an'' else ''a'') @ '' '' @ role)))))"

definition reset_user_password :: "env \<Rightarrow> principal \<Rightarrow> nat \<Rightarrow> string \<Rightarrow> app \<Rightarrow> outcome" where
  "reset_user_password env admin i new_password st = (case get_other_user i admin (a_db st) of
     Inl e \<Rightarrow> (st, Inl e)
   | Inr target \<Rightarrow>
      if has_subject target then (st, Inl (HTTPError 400 SSO_MANAGED))
      else (case enforce_password_policy (e_min_length env) new_password (u_name target) of
         Some e \<Rightarrow> (st, Inl e)
       | None \<Rightarrow>
           (log_activity ''user_password_reset'' [(''username'', u_name target), (''by'', u_name (p_user admin))] ''success''
              (on_db (delete_user_sessions (u_id target) None \<circ>
                 update_user_password (u_id target) (hash_password (e_derive env) (e_salt env) new_password)) st),
            Inr (Message (''Password reset for '' @ quoted (u_name target))))))"

definition end_user_sessions :: "principal \<Rightarrow> nat \<Rightarrow> app \<Rightarrow> outcome" where
  "end_user_sessions admin i st = (case get_other_user i admin (a_db st) of
     Inl e \<Rightarrow> (st, Inl e)
   | Inr target \<Rightarrow>
       (log_activity ''sessions_revoked''
          [(''username'', u_name target), (''scope'', ''all''), (''by'', u_name (p_user admin))] ''success''
          (on_db (delete_user_sessions (u_id target) None) st),
        Inr (Message (quoted (u_name target) @ '' was signed out everywhere''))))"

definition reset_user_two_factor :: "principal \<Rightarrow> nat \<Rightarrow> app \<Rightarrow> outcome" where
  "reset_user_two_factor admin i st = (case get_other_user i admin (a_db st) of
     Inl e \<Rightarrow> (st, Inl e)
   | Inr target \<Rightarrow>
       (log_activity ''user_2fa_reset'' [(''username'', u_name target), (''by'', u_name (p_user admin))] ''success''
          (on_db (delete_user_sessions (u_id target) None \<circ> disable_totp (u_id target)) st),
        Inr (Message (''Two-factor authentication reset for '' @ u_name target))))"

definition remove_user :: "principal \<Rightarrow> nat \<Rightarrow> app \<Rightarrow> outcome" where
  "remove_user admin i st = (case get_other_user i admin (a_db st) of
     Inl e \<Rightarrow> (st, Inl e)
   | Inr target \<Rightarrow>
      (case delete_user (u_id target) (a_db st) of
         (_, False) \<Rightarrow> (st, Inl (HTTPError 409 ''There must be at least one administrator''))
       | (db, True) \<Rightarrow>
           (log_activity ''user_deleted'' [(''username'', u_name target), (''by'', u_name (p_user admin))] ''success''
              (st\<lparr>a_db := db\<rparr>),
            Inr (Message (''User '' @ quoted (u_name target) @ '' deleted'')))))"

definition revoke_token :: "principal \<Rightarrow> nat \<Rightarrow> app \<Rightarrow> outcome" where
  "revoke_token admin tid st = (case delete_api_token tid None (a_db st) of
     (_, None) \<Rightarrow> (st, Inl (HTTPError 404 ''Token not found''))
   | (db, Some (t, owner)) \<Rightarrow>
       (log_activity ''api_token_revoked''
          [(''username'', owner), (''token'', t_name t), (''by'', u_name (p_user admin))] ''success'' (st\<lparr>a_db := db\<rparr>),
        Inr (Message (''Token '' @ quoted (t_name t) @ '' of '' @ owner @ '' revoked''))))"

section \<open>What the routes guarantee\<close>

text \<open>
  Changing a password needs the current one; afterwards the new password verifies, and of the
  sessions of the account only the one that made the change is left, while sessions of other accounts
  stay. When it is refused nothing changes.
\<close>

theorem password_change:
  assumes kdf: "\<And>pw salt. e_scrypt env pw salt ''16384'' ''8'' ''1'' = Some (e_derive env pw salt)"
    and hex: "\<And>pw salt. CHR ''$'' \<notin> set (e_derive env pw salt)" "CHR ''$'' \<notin> set (e_salt env)"
    and out: "change_own_password env c p old new st = (st', r)"
  shows "case r of
      Inl e \<Rightarrow> st' = st \<or> c_cookie c = None
    | Inr _ \<Rightarrow> \<exists>full cookie. get_user_by_id (u_id (p_user p)) (a_db st) = Some full \<and> c_cookie c = Some cookie \<and>
        verify_password (e_scrypt env) old (u_hash full) \<and>
        list_all (\<lambda>u. u_id u = u_id full \<longrightarrow> verify_password (e_scrypt env) new (u_hash u)) (users (a_db st')) \<and>
        sessions (a_db st') = filter (\<lambda>s. s_user s = u_id full \<longrightarrow> s_hash s = e_sha env cookie) (sessions (a_db st))"
proof -
  have split: "split_on (CHR ''$'') (u @ CHR ''$'' # v) = u # split_on (CHR ''$'') v" if "CHR ''$'' \<notin> set u" for u v
    using that by (induction u) auto
  have last: "split_on (CHR ''$'') u = [u]" if "CHR ''$'' \<notin> set u" for u
    using that by (induction u) auto
  have v: "verify_password (e_scrypt env) new (hash_password (e_derive env) (e_salt env) new)"
    using split [of "''scrypt''"] split [of "''16384''"] split [of "''8''"] split [of "''1''"]
      split [OF hex(2)] last [OF hex(1)] kdf
    by (simp add: verify_password_def hash_password_def)
  have frame: "sessions (update_user_password i h db) = sessions db" for i h db
    by (rule sessions_frame)
  show ?thesis
    using out v
    by (auto simp: change_own_password_def confirm_password_def Let_def on_db_def sign_out_others_def
        delete_user_sessions_def sql_delete_def update_user_password_def sql_update_def list_all_iff
        get_user_by_id_def split: sum.splits option.splits if_splits
        dest!: fetchone_Some intro!: filter_cong)
qed

definition plain :: "string \<Rightarrow> string" where
  "plain pw = filter (\<lambda>x. x \<noteq> CHR ''$'') pw"

definition plain_env :: env where
  "plain_env = demo_env\<lparr>e_scrypt := (\<lambda>pw _ _ _ _. Some (plain pw)), e_derive := (\<lambda>pw _. plain pw)\<rparr>"

definition demo_principal :: principal where
  "demo_principal = \<lparr>p_user = demo_bob, p_auth = ViaSession ''tok''\<rparr>"

theorem password_change_witness:
  "\<exists>st'. snd (change_own_password plain_env demo_conn demo_principal ''pw'' ''Horse-battery7'' demo_app)
      = Inr (Message ''Password changed. Your other sessions were signed out.'') \<and>
    st' = fst (change_own_password plain_env demo_conn demo_principal ''pw'' ''Horse-battery7'' demo_app) \<and>
    list_all (\<lambda>u. u_id u = 1 \<longrightarrow> verify_password (e_scrypt plain_env) ''Horse-battery7'' (u_hash u)) (users (a_db st'))"
proof -
  have g: "get_user_by_id (u_id (p_user demo_principal)) (a_db demo_app) = Some demo_bob" by code_simp
  have v: "verify_password (e_scrypt plain_env) ''pw'' (u_hash demo_bob)" by code_simp
  have n: "enforce_password_policy 12 ''Horse-battery7'' ''bob'' = None" by code_simp
  have m: "e_min_length plain_env = 12" "u_name (p_user demo_principal) = ''bob''" "\<not> has_subject demo_bob"
    "c_cookie demo_conn = Some ''tok''" "u_id demo_bob = 1"
    by (simp_all add: plain_env_def demo_env_def demo_principal_def demo_bob_def new_user_def
        has_subject_def demo_conn_def)
  obtain st' r where o: "change_own_password plain_env demo_conn demo_principal ''pw'' ''Horse-battery7'' demo_app
      = (st', r)" by fastforce
  have r: "r = Inr (Message ''Password changed. Your other sessions were signed out.'')"
    using o g v n m by (simp add: change_own_password_def confirm_password_def Let_def)
  have "case r of Inl e \<Rightarrow> st' = demo_app \<or> c_cookie demo_conn = None
    | Inr _ \<Rightarrow> \<exists>full cookie. get_user_by_id (u_id (p_user demo_principal)) (a_db demo_app) = Some full \<and>
        c_cookie demo_conn = Some cookie \<and> verify_password (e_scrypt plain_env) ''pw'' (u_hash full) \<and>
        list_all (\<lambda>u. u_id u = u_id full \<longrightarrow> verify_password (e_scrypt plain_env) ''Horse-battery7'' (u_hash u))
          (users (a_db st')) \<and>
        sessions (a_db st') =
          filter (\<lambda>s. s_user s = u_id full \<longrightarrow> s_hash s = e_sha plain_env cookie) (sessions (a_db demo_app))"
    by (rule password_change [OF _ _ _ o]) (simp_all add: plain_env_def demo_env_def plain_def)
  then show ?thesis using o r g m by auto
qed

text \<open>What a handler does to the tables is a sequence of statements of \<^verbatim>\<open>db.py\<close>.\<close>

definition by_statements :: "app \<Rightarrow> app \<Rightarrow> bool" where
  "by_statements st st' \<longleftrightarrow> (\<exists>ops. a_db st' = run_ops exec_op ops (a_db st))"

lemma by_no_statement: "a_db st' = a_db st \<Longrightarrow> by_statements st st'"
  unfolding by_statements_def by (rule exI [of _ "[]"]) simp

lemma by_one_statement: "a_db st' = exec_op op (a_db st) \<Longrightarrow> by_statements st st'"
  unfolding by_statements_def by (rule exI [of _ "[op]"]) simp

lemma by_two_statements: "a_db st' = exec_op op' (exec_op op (a_db st)) \<Longrightarrow> by_statements st st'"
  unfolding by_statements_def by (rule exI [of _ "[op, op']"]) simp

lemma by_statements_ok:
  assumes "by_statements st st'" and "db_ok (a_db st)" and "has_admin (a_db st)"
  shows "db_ok (a_db st') \<and> has_admin (a_db st')"
  using assms acc.run_inv adm.run_keeps by (fastforce simp: by_statements_def list_all_iff)

lemma get_other_user_Inr:
  "get_other_user i admin db = Inr t \<Longrightarrow>
    u_id t = i \<and> i \<noteq> u_id (p_user admin) \<and> i \<in> u_id ` set (users db)"
  by (auto simp: get_other_user_def get_user_by_id_def split: option.splits if_splits dest!: fetchone_Some)

lemma set_user_role_refused: "set_user_role i r db = (db', False) \<Longrightarrow> db' = db"
  by (simp add: set_user_role_def split: if_splits)

lemma delete_user_refused: "delete_user i db = (db', False) \<Longrightarrow> db' = db"
  by (simp add: delete_user_def split: if_splits)

lemma admin_handlers:
  shows "by_statements st (fst (update_user admin i role st))"
    and "by_statements st (fst (reset_user_password env admin i pw st))"
    and "by_statements st (fst (end_user_sessions admin i st))"
    and "by_statements st (fst (reset_user_two_factor admin i st))"
    and "by_statements st (fst (remove_user admin i st))"
proof -
  show "by_statements st (fst (update_user admin i role st))"
  proof (cases "get_other_user i admin (a_db st)")
    case (Inr t)
    then show ?thesis
      using get_other_user_Inr [OF Inr]
      by (cases "set_user_role i role (a_db st)"; cases "snd (set_user_role i role (a_db st))")
        (simp_all add: update_user_def by_no_statement by_one_statement [of _ "SetRole i role"])
  qed (simp add: update_user_def by_no_statement)
  show "by_statements st (fst (reset_user_password env admin i pw st))"
  proof (cases "get_other_user i admin (a_db st)")
    case (Inr t)
    then show ?thesis
      using get_other_user_Inr [OF Inr]
      by (simp add: reset_user_password_def on_db_def by_no_statement by_two_statements
          [of _ "DeleteUserSessions i None" "UpdatePassword i (hash_password (e_derive env) (e_salt env) pw)"]
          split: option.split)
  qed (simp add: reset_user_password_def by_no_statement)
  show "by_statements st (fst (end_user_sessions admin i st))"
  proof (cases "get_other_user i admin (a_db st)")
    case (Inr t)
    then show ?thesis
      using get_other_user_Inr [OF Inr]
      by (simp add: end_user_sessions_def on_db_def by_one_statement [of _ "DeleteUserSessions i None"])
  qed (simp add: end_user_sessions_def by_no_statement)
  show "by_statements st (fst (reset_user_two_factor admin i st))"
  proof (cases "get_other_user i admin (a_db st)")
    case (Inr t)
    then show ?thesis
      using get_other_user_Inr [OF Inr]
      by (simp add: reset_user_two_factor_def on_db_def
          by_two_statements [of _ "DeleteUserSessions i None" "DisableTotp i"])
  qed (simp add: reset_user_two_factor_def by_no_statement)
  show "by_statements st (fst (remove_user admin i st))"
  proof (cases "get_other_user i admin (a_db st)")
    case (Inr t)
    then show ?thesis
      using get_other_user_Inr [OF Inr]
      by (cases "delete_user i (a_db st)"; cases "snd (delete_user i (a_db st))")
        (simp_all add: remove_user_def by_no_statement by_one_statement [of _ "DeleteUser i"])
  qed (simp add: remove_user_def by_no_statement)
qed

text \<open>
  C9: an administrator can not demote, reset, sign out or delete the own account through the
  administration routes, and an unknown account is refused: in both cases nothing changes, and in every
  case the tables stay consistent and an administrator remains.
\<close>

theorem admin_routes_safe:
  assumes "db_ok (a_db st)" and "has_admin (a_db st)"
    and "h \<in> {update_user admin i role, reset_user_password env admin i pw, end_user_sessions admin i,
      reset_user_two_factor admin i, remove_user admin i}"
  shows "(i = u_id (p_user admin) \<or> i \<notin> u_id ` set (users (a_db st)) \<longrightarrow>
      fst (h st) = st \<and> \<not> is_ok (snd (h st))) \<and>
    db_ok (a_db (fst (h st))) \<and> has_admin (a_db (fst (h st)))"
proof -
  have "by_statements st (fst (h st))" using assms(3) admin_handlers by blast
  then have "db_ok (a_db (fst (h st))) \<and> has_admin (a_db (fst (h st)))"
    using by_statements_ok assms(1,2) by blast
  moreover have "fst (h st) = st \<and> \<not> is_ok (snd (h st))"
    if "i = u_id (p_user admin) \<or> i \<notin> u_id ` set (users (a_db st))"
  proof (cases "get_other_user i admin (a_db st)")
    case (Inl e)
    then show ?thesis using assms(3)
      by (auto simp: update_user_def reset_user_password_def end_user_sessions_def
          reset_user_two_factor_def remove_user_def)
  next
    case (Inr t)
    then show ?thesis using that get_other_user_Inr by blast
  qed
  ultimately show ?thesis by blast
qed

definition admin_app :: app where
  "admin_app = demo_app\<lparr>a_db := demo_db\<rparr>"

theorem admin_routes_safe_witness:
  "fst (remove_user \<lparr>p_user = demo_user, p_auth = ViaSession ''tok''\<rparr> 1 admin_app) = admin_app \<and>
   has_admin (a_db (fst (remove_user \<lparr>p_user = demo_user, p_auth = ViaSession ''tok''\<rparr> 1 admin_app)))"
proof -
  have "db_ok (a_db admin_app)" "has_admin (a_db admin_app)"
    using demo_db_ok by (simp_all add: admin_app_def) (simp add: demo_db_def demo_user_def new_user_def
        insert_user_def empty_accounts_def has_admin_def)
  then show ?thesis
    using admin_routes_safe [of admin_app "remove_user \<lparr>p_user = demo_user, p_auth = ViaSession ''tok''\<rparr> 1"
        "\<lparr>p_user = demo_user, p_auth = ViaSession ''tok''\<rparr>" 1 "''viewer''" demo_env "''pw''"]
    by (simp add: demo_user_def new_user_def)
qed

end
