(* ===== verification/Json.thy ===== *)
theory Json
  imports Prelude
begin

text \<open>
  The part of \<open>json.dumps\<close> (compact separators, \<open>ensure_ascii=False\<close>) that the audit trail hashes: a
  list of strings, numbers and nulls. \<open>json_string\<close> escapes as Python's encoder does. The encoding
  of a list determines the list (\<open>json_list_inject\<close>).
\<close>

datatype atom = JNull | JNat nat | JString string

definition hex_digit :: "nat \<Rightarrow> char" where
  "hex_digit d = (if d < 10 then char_of (48 + d) else char_of (87 + d))"

definition json_escape :: "char \<Rightarrow> string" where
  "json_escape c =
     (if c = CHR 0x22 then [CHR 0x5C, CHR 0x22]
      else if c = CHR 0x5C then [CHR 0x5C, CHR 0x5C]
      else if c = CHR 0x0A then [CHR 0x5C, CHR ''n'']
      else if c = CHR 0x0D then [CHR 0x5C, CHR ''r'']
      else if c = CHR 0x09 then [CHR 0x5C, CHR ''t'']
      else if c = CHR 0x0C then [CHR 0x5C, CHR ''f'']
      else if c = CHR 0x08 then [CHR 0x5C, CHR ''b'']
      else if cp c < 32 then [CHR 0x5C, CHR ''u'', CHR ''0'', CHR ''0'', hex_digit (cp c div 16), hex_digit (cp c mod 16)]
      else [c])"

definition json_string :: "string \<Rightarrow> string" where
  "json_string s = [CHR 0x22] @ concat (map json_escape s) @ [CHR 0x22]"

primrec json_atom :: "atom \<Rightarrow> string" where
  "json_atom JNull = ''null''"
| "json_atom (JNat n) = nat_str n"
| "json_atom (JString s) = json_string s"

definition json_list :: "atom list \<Rightarrow> string" where
  "json_list xs = ''['' @ join_with '','' (map json_atom xs) @ '']''"

section \<open>Reading back\<close>

definition hex_value :: "char \<Rightarrow> nat" where
  "hex_value c = (if cp c < 58 then cp c - 48 else cp c - 87)"

fun unescape :: "string \<Rightarrow> char \<times> string" where
  "unescape (c # d # r) =
     (if c \<noteq> CHR 0x5C then (c, d # r)
      else if d = CHR ''n'' then (CHR 0x0A, r) else if d = CHR ''r'' then (CHR 0x0D, r)
      else if d = CHR ''t'' then (CHR 0x09, r) else if d = CHR ''f'' then (CHR 0x0C, r)
      else if d = CHR ''b'' then (CHR 0x08, r)
      else if d = CHR ''u'' then
        (char_of (16 * hex_value (hd (drop 2 r)) + hex_value (hd (drop 3 r))), drop 4 r)
      else (d, r))"
| "unescape s = (hd s, tl s)"

lemma hex_value_digit: "d < 16 \<Longrightarrow> hex_value (hex_digit d) = d"
  by (auto simp: hex_value_def hex_digit_def cp_def)

lemma unescape_escape: "unescape (json_escape c @ r) = (c, r)"
proof (cases "cp c < 32 \<and> c \<notin> {CHR 0x0A, CHR 0x0D, CHR 0x09, CHR 0x0C, CHR 0x08}")
  case True
  then have d: "cp c div 16 < 16" "cp c mod 16 < 16" by auto
  have special: "cp (CHR 0x22) = 34" "cp (CHR 0x5C) = 92" by (simp_all add: cp_def)
  have "cp c \<noteq> 34" "cp c \<noteq> 92" using conjunct1 [OF True] by linarith+
  then have c: "c \<noteq> CHR 0x22" "c \<noteq> CHR 0x5C" unfolding special [symmetric] cp_eq_iff .
  have "char_of (16 * (cp c div 16) + cp c mod 16) = c" by (simp add: cp_def)
  then show ?thesis
    using True c by (simp add: json_escape_def hex_value_digit [OF d(1)] hex_value_digit [OF d(2)])
next
  case False
  then show ?thesis by (cases r) (auto simp: json_escape_def)
qed

lemma json_escape_nonempty [simp]: "json_escape c \<noteq> []"
  by (simp add: json_escape_def)

lemma json_escape_not_quote: "hd (json_escape c) \<noteq> CHR 0x22"
  by (auto simp: json_escape_def)

lemma json_body_inject:
  "concat (map json_escape s) @ CHR 0x22 # r = concat (map json_escape t) @ CHR 0x22 # r' \<Longrightarrow> s = t \<and> r = r'"
proof (induction s arbitrary: t)
  case Nil
  show ?case
  proof (cases t)
    case (Cons c u)
    then have "hd (json_escape c) = CHR 0x22" using Nil by (cases "json_escape c") auto
    then show ?thesis using json_escape_not_quote by simp
  qed (use Nil in simp)
next
  case (Cons c s)
  show ?case
  proof (cases t)
    case Nil
    then have "hd (json_escape c) = CHR 0x22" using Cons.prems by (cases "json_escape c") auto
    then show ?thesis using json_escape_not_quote by simp
  next
    case t: (Cons d u)
    have "unescape (json_escape c @ concat (map json_escape s) @ CHR 0x22 # r) =
        unescape (json_escape d @ concat (map json_escape u) @ CHR 0x22 # r')"
      using Cons.prems t by simp
    then have "c = d" and "concat (map json_escape s) @ CHR 0x22 # r = concat (map json_escape u) @ CHR 0x22 # r'"
      by (simp_all add: unescape_escape)
    then show ?thesis using Cons.IH t by simp
  qed
qed

lemma digits_stop:
  assumes "list_all ascii_digit u" and "list_all ascii_digit v"
    and "r \<noteq> []" "\<not> ascii_digit (hd r)" and "r' \<noteq> []" "\<not> ascii_digit (hd r')" and "u @ r = v @ r'"
  shows "u = v \<and> r = r'"
proof -
  have "takeWhile ascii_digit (u @ r) = u"
    using assms(1,3,4) by (cases r) (simp_all add: list_all_iff)
  moreover have "takeWhile ascii_digit (v @ r') = v"
    using assms(2,5,6) by (cases r') (simp_all add: list_all_iff)
  ultimately show ?thesis using assms(7) by simp
qed

text \<open>What follows an atom in a list is a comma or the closing bracket.\<close>

lemma json_atom_inject:
  assumes e: "json_atom a @ x # r = json_atom b @ y # r'"
    and xy: "x \<in> {CHR '','', CHR '']''}" "y \<in> {CHR '','', CHR '']''}"
  shows "a = b \<and> x # r = y # r'"
proof -
  have nd: "\<not> ascii_digit x" "\<not> ascii_digit y" using xy by (auto simp: ascii_digit_def cp_def)
  have q: "\<not> ascii_digit (CHR 0x22)" "\<not> ascii_digit (CHR ''n'')" by (simp_all add: ascii_digit_def cp_def)
  have h: "ascii_digit (hd (nat_str n))" for n using nat_str_digits [of "hd (nat_str n)" n] by simp
  have num: "json_atom (JNat n) @ s \<noteq> CHR 0x22 # t" "json_atom (JNat n) @ s \<noteq> CHR ''n'' # t" for n s t
    using h [of n] q by (cases "nat_str n"; auto)+
  have num': "CHR 0x22 # t \<noteq> json_atom (JNat n) @ s" "CHR ''n'' # t \<noteq> json_atom (JNat n) @ s" for n s t
    by (rule not_sym, rule num)+
  have str: "json_atom (JString s) @ t = CHR 0x22 # (concat (map json_escape s) @ CHR 0x22 # t)" for s t
    by (simp add: json_string_def)
  have nul: "json_atom JNull @ t = CHR ''n'' # (''ull'' @ t)" for t by simp
  show ?thesis
  proof (cases a)
    case JNull
    then show ?thesis using e num' [where s = "y # r'"] by (cases b) (simp_all add: nul str del: json_atom.simps)
  next
    case (JNat m)
    show ?thesis
    proof (cases b)
      case b: (JNat n)
      have "nat_str m = nat_str n \<and> x # r = y # r'"
      proof (rule digits_stop)
        show "list_all ascii_digit (nat_str m)" "list_all ascii_digit (nat_str n)"
          by (simp_all add: list_all_iff nat_str_digits)
        show "nat_str m @ x # r = nat_str n @ y # r'" using e unfolding JNat b json_atom.simps .
      qed (use nd in simp_all)
      moreover then have "m = n" by (metis nat_val_nat_str)
      ultimately show ?thesis unfolding JNat b by blast
    qed (use e JNat num [where s = "x # r"] in \<open>simp_all add: nul str del: json_atom.simps\<close>)
  next
    case (JString s)
    show ?thesis
    proof (cases b)
      case b: (JString t)
      have "concat (map json_escape s) @ CHR 0x22 # x # r = concat (map json_escape t) @ CHR 0x22 # y # r'"
        using e unfolding JString b str list.inject by (rule conjunct2)
      from json_body_inject [OF this] show ?thesis unfolding JString b by blast
    qed (use e JString num' [where s = "y # r'"] in \<open>simp_all add: nul str del: json_atom.simps\<close>)
  qed
qed

lemma join_inject:
  "join_with '','' (map json_atom xs) @ '']'' = join_with '','' (map json_atom ys) @ '']'' \<Longrightarrow>
    length xs = length ys \<Longrightarrow> xs = ys"
proof (induction xs arbitrary: ys)
  case (Cons a xs)
  then obtain b ys' where ys: "ys = b # ys'" "length xs = length ys'" by (cases ys) auto
  have j: "join_with '','' (map json_atom (c # zs)) @ '']'' =
      json_atom c @ (if zs = [] then '']'' else CHR '','' # join_with '','' (map json_atom zs) @ '']'')" for c zs
    by (cases zs) auto
  show ?case
  proof (cases xs)
    case Nil
    then show ?thesis
      using Cons.prems ys json_atom_inject [of a "CHR '']''" "[]" b "CHR '']''" "[]"] by (simp add: j)
  next
    case (Cons c us)
    then have ne: "ys' \<noteq> []" using ys by auto
    have "a = b \<and> CHR '','' # join_with '','' (map json_atom xs) @ '']''
        = CHR '','' # join_with '','' (map json_atom ys') @ '']''"
    proof (rule json_atom_inject)
      have "xs \<noteq> []" using \<open>xs = c # us\<close> by simp
      then show "json_atom a @ CHR '','' # join_with '','' (map json_atom xs) @ '']''
          = json_atom b @ CHR '','' # join_with '','' (map json_atom ys') @ '']''"
        using Cons.prems(1) ne unfolding ys(1) j by (simp only: if_False)
    qed simp_all
    then show ?thesis using Cons.IH [of ys'] ys by simp
  qed
qed simp

lemma json_list_inject: "length xs = length ys \<Longrightarrow> json_list xs = json_list ys \<Longrightarrow> xs = ys"
  using join_inject [of xs ys] by (simp add: json_list_def)

end
