(* ===== verification/Audit_Trail.thy ===== *)
theory Audit_Trail
  imports Json Systems
begin

text \<open>
  \<^verbatim>\<open>services/audit.py\<close>: the hash-chained audit trail. The table is the list of its rows in id order,
  the anchor the id and hash of the last pruned entry. \<open>sha\<close> is SHA-256 (hex) of the encoded payload,
  a parameter; details are their canonical JSON text.
\<close>

section \<open>Entries\<close>

record audit_row =
  al_id :: nat
  al_ts :: string
  al_action :: string
  al_status :: string
  al_user :: "string option"
  al_token :: "string option"
  al_ip :: "string option"
  al_request :: "string option"
  al_details :: string
  al_prev :: string
  al_hash :: string

record audit_db =
  trail :: "audit_row list"
  anchor :: "nat \<times> string"

definition GENESIS :: string where
  "GENESIS = replicate 64 (CHR ''0'')"

definition empty_audit :: audit_db where
  "empty_audit = \<lparr>trail = [], anchor = (0, GENESIS)\<rparr>"

definition json_opt :: "string option \<Rightarrow> atom" where
  "json_opt v = (case v of None \<Rightarrow> JNull | Some s \<Rightarrow> JString s)"

definition entry_payload :: "string \<Rightarrow> audit_row \<Rightarrow> string" where
  "entry_payload prev r = json_list [JString prev, JNat (al_id r), JString (al_ts r), JString (al_action r),
     JString (al_status r), json_opt (al_user r), json_opt (al_token r), json_opt (al_ip r),
     json_opt (al_request r), JString (al_details r)]"

definition entry_hash :: "(string \<Rightarrow> string) \<Rightarrow> string \<Rightarrow> audit_row \<Rightarrow> string" where
  "entry_hash sha prev r = sha (entry_payload prev r)"

section \<open>Writing\<close>

text \<open>Where the next entry links to: the last row, or the anchor when there is none.\<close>

definition chain_head :: "audit_db \<Rightarrow> nat \<times> string" where
  "chain_head db = (if trail db = [] then anchor db
     else (al_id (last (trail db)), al_hash (last (trail db))))"

definition append_entry ::
  "(string \<Rightarrow> string) \<Rightarrow> string \<Rightarrow> string \<Rightarrow> string \<Rightarrow> string option \<Rightarrow> string option \<Rightarrow> string option
    \<Rightarrow> string option \<Rightarrow> string \<Rightarrow> audit_db \<Rightarrow> audit_db \<times> nat \<times> string" where
  "append_entry sha ts action status user token ip request details db =
     (case chain_head db of (prev_id, prev_hash) \<Rightarrow>
        let r = \<lparr>al_id = prev_id + 1, al_ts = ts, al_action = action, al_status = status, al_user = user,
                 al_token = token, al_ip = ip, al_request = request, al_details = details,
                 al_prev = prev_hash, al_hash = []\<rparr>;
            digest = entry_hash sha prev_hash r
        in (db\<lparr>trail := trail db @ [r\<lparr>al_hash := digest\<rparr>]\<rparr>, prev_id + 1, digest))"

record request_context =
  rc_user :: "string option"
  rc_token :: "string option"
  rc_ip :: "string option"
  rc_id :: "string option"

text \<open>
  \<open>record\<close>: the entry is written unless SQLite fails (\<open>fails\<close>); in both cases its id and hash, or
  nothing, go to the server log.
\<close>

definition record_action ::
  "(string \<Rightarrow> string) \<Rightarrow> request_context option \<Rightarrow> bool \<Rightarrow> string \<Rightarrow> string \<Rightarrow> string \<Rightarrow> string option \<Rightarrow> string
    \<Rightarrow> audit_db \<Rightarrow> audit_db \<times> (nat \<times> string) option" where
  "record_action sha ctx fails ts action status user details db =
     (let c = (case ctx of None \<Rightarrow> \<lparr>rc_user = None, rc_token = None, rc_ip = None, rc_id = None\<rparr> | Some c \<Rightarrow> c);
          who = (if user = None \<or> user = Some [] then rc_user c else user)
      in if fails then (db, None)
         else (case append_entry sha ts action status who (rc_token c) (rc_ip c) (rc_id c) details db of
                 (db', i, digest) \<Rightarrow> (db', Some (i, digest))))"

section \<open>Verifying and pruning\<close>

datatype problem =
    EntryMissing nat nat
  | LinkBroken nat
  | EntryChanged nat

record verdict =
  v_ok :: bool
  v_checked :: nat
  v_anchor_id :: nat
  v_last_id :: "nat option"
  v_head_hash :: "string option"
  v_problem :: "problem option"

text \<open>The loop of \<open>verify\<close>: the last id and hash it accepted, how many rows, and why it stopped.\<close>

fun check_rows ::
  "(string \<Rightarrow> string) \<Rightarrow> nat \<Rightarrow> string \<Rightarrow> nat \<Rightarrow> audit_row list \<Rightarrow> nat \<times> string \<times> nat \<times> problem option" where
  "check_rows sha expected prev n [] = (expected, prev, n, None)"
| "check_rows sha expected prev n (r # rs) =
     (let expected = expected + 1 in
      if al_id r \<noteq> expected then (expected, prev, n, Some (EntryMissing expected (al_id r)))
      else if al_prev r \<noteq> prev then (expected, prev, n, Some (LinkBroken (al_id r)))
      else let digest = entry_hash sha prev r in
        if digest \<noteq> al_hash r then (expected, prev, n, Some (EntryChanged (al_id r)))
        else check_rows sha expected digest (n + 1) rs)"

definition verify :: "(string \<Rightarrow> string) \<Rightarrow> audit_db \<Rightarrow> verdict" where
  "verify sha db = (case check_rows sha (fst (anchor db)) (snd (anchor db)) 0 (trail db) of
     (last_id, head, checked, problem) \<Rightarrow>
       \<lparr>v_ok = (problem = None), v_checked = checked, v_anchor_id = fst (anchor db),
        v_last_id = (if problem = None then Some last_id else None),
        v_head_hash = (if problem = None then Some head else None), v_problem = problem\<rparr>)"

text \<open>\<open>before\<close> is compared as text, as SQLite does.\<close>

definition prune :: "(string \<Rightarrow> bool) \<Rightarrow> bool \<Rightarrow> audit_db \<Rightarrow> audit_db \<times> nat" where
  "prune older dry_run db =
     (case List.find (\<lambda>r. older (al_ts r)) (rev (trail db)) of
        None \<Rightarrow> (db, 0)
      | Some newest \<Rightarrow>
         (let count = length (filter (\<lambda>r. al_id r \<le> al_id newest) (trail db)) in
          if dry_run then (db, count)
          else (db\<lparr>trail := filter (\<lambda>r. \<not> al_id r \<le> al_id newest) (trail db),
                   anchor := (al_id newest, al_hash newest)\<rparr>, count)))"

section \<open>The chain\<close>

text \<open>A list of rows that links on from an id and hash, and where it ends.\<close>

fun chained :: "(string \<Rightarrow> string) \<Rightarrow> nat \<times> string \<Rightarrow> audit_row list \<Rightarrow> bool" where
  "chained sha h [] = True"
| "chained sha (i, prev) (r # rs) =
     (al_id r = i + 1 \<and> al_prev r = prev \<and> al_hash r = entry_hash sha prev r \<and> chained sha (al_id r, al_hash r) rs)"

definition chain_end :: "nat \<times> string \<Rightarrow> audit_row list \<Rightarrow> nat \<times> string" where
  "chain_end h rs = (if rs = [] then h else (al_id (last rs), al_hash (last rs)))"

lemma chain_end_Cons: "chain_end h (r # rs) = chain_end (al_id r, al_hash r) rs"
  by (simp add: chain_end_def)

lemma chain_length: "chained sha h rs \<Longrightarrow> fst (chain_end h rs) = fst h + length rs"
proof (induction rs arbitrary: h)
  case (Cons r rs)
  then show ?case by (cases h) (auto simp: chain_end_Cons)
qed (simp add: chain_end_def)

lemma chained_append: "chained sha h (rs @ ts) \<longleftrightarrow> chained sha h rs \<and> chained sha (chain_end h rs) ts"
proof (induction rs arbitrary: h)
  case (Cons r rs)
  then show ?case by (cases h) (simp add: chain_end_Cons)
qed (simp add: chain_end_def)

lemma check_rows_ok:
  "snd (snd (snd (check_rows sha i prev n rs))) = None \<longleftrightarrow> chained sha (i, prev) rs"
  by (induction rs arbitrary: i prev n) (auto simp: Let_def)

lemma check_rows_end:
  "chained sha (i, prev) rs \<Longrightarrow>
    check_rows sha i prev n rs = (fst (chain_end (i, prev) rs), snd (chain_end (i, prev) rs), n + length rs, None)"
proof (induction rs arbitrary: i prev n)
  case (Cons r rs)
  then have r: "al_id r = Suc i" "al_prev r = prev" "entry_hash sha prev r = al_hash r" and
    c: "chained sha (Suc i, al_hash r) rs" by auto
  from Cons.IH [OF c] show ?case by (simp add: Let_def chain_end_Cons r)
qed (simp add: chain_end_def)

lemma verify_ok: "v_ok (verify sha db) \<longleftrightarrow> chained sha (anchor db) (trail db)"
  using check_rows_ok [of sha "fst (anchor db)" "snd (anchor db)" 0 "trail db"]
  by (auto simp: verify_def split: prod.splits)

lemma verify_chained:
  "chained sha (anchor db) (trail db) \<Longrightarrow>
    v_last_id (verify sha db) = Some (fst (chain_head db)) \<and> v_head_hash (verify sha db) = Some (snd (chain_head db)) \<and>
    v_checked (verify sha db) = length (trail db)"
  using check_rows_end [of sha "fst (anchor db)" "snd (anchor db)" "trail db" 0]
  by (simp add: verify_def chain_head_def chain_end_def)

text \<open>Ids along a chain are consecutive, so an id bound cuts it.\<close>

lemma chained_ids: "chained sha (i, p) rs \<Longrightarrow> map al_id rs = [Suc i..<Suc i + length rs]"
  by (induction rs arbitrary: i p) (auto simp: upt_conv_Cons simp del: upt_Suc)

lemma chained_cut:
  assumes "chained sha h (rs @ r # ts)"
  shows "filter (\<lambda>x. \<not> al_id x \<le> al_id r) (rs @ r # ts) = ts" "chained sha (al_id r, al_hash r) ts"
proof -
  obtain i p where h: "h = (i, p)" by (cases h)
  have ids: "map al_id (rs @ r # ts) = [Suc i..<Suc i + length (rs @ r # ts)]"
    using assms chained_ids h by blast
  then have "sorted_wrt (<) (map al_id (rs @ r # ts))" by (metis sorted_wrt_upt)
  then have "\<forall>x\<in>set rs. al_id x < al_id r" "\<forall>x\<in>set ts. al_id r < al_id x"
    by (auto simp: sorted_wrt_append)
  then have "filter (\<lambda>x. \<not> al_id x \<le> al_id r) rs = []" "filter (\<lambda>x. \<not> al_id x \<le> al_id r) ts = ts"
    by (auto simp: filter_empty_conv filter_id_conv)
  then show "filter (\<lambda>x. \<not> al_id x \<le> al_id r) (rs @ r # ts) = ts" by simp
  show "chained sha (al_id r, al_hash r) ts"
    using assms by (cases "chain_end h rs") (auto simp: chained_append)
qed

section \<open>Whatever is recorded and pruned verifies\<close>

datatype audit_op =
    RecordAction "request_context option" bool string string string "string option" string
  | PruneAudit "string \<Rightarrow> bool" bool

primrec exec_audit :: "(string \<Rightarrow> string) \<Rightarrow> audit_op \<Rightarrow> audit_db \<Rightarrow> audit_db" where
  "exec_audit sha (RecordAction ctx fails ts action status user details) db =
     fst (record_action sha ctx fails ts action status user details db)"
| "exec_audit sha (PruneAudit older dry) db = fst (prune older dry db)"

lemma entry_hash_update [simp]: "entry_hash sha prev (r\<lparr>al_hash := d\<rparr>) = entry_hash sha prev r"
  by (simp add: entry_hash_def entry_payload_def)

lemma append_entry_chained:
  assumes "chained sha (anchor db) (trail db)"
    and "append_entry sha ts action status user token ip request details db = (db', i, digest)"
  shows "chained sha (anchor db') (trail db') \<and> chain_head db' = (i, digest)"
proof -
  obtain j p where h: "chain_head db = (j, p)" by fastforce
  then have "chain_end (anchor db) (trail db) = (j, p)" by (simp add: chain_head_def chain_end_def)
  then show ?thesis
    using assms h by (auto simp: append_entry_def Let_def chained_append chain_head_def entry_hash_def
        entry_payload_def)
qed

lemma prune_chained:
  assumes "chained sha (anchor db) (trail db)"
  shows "chained sha (anchor (fst (prune older dry db))) (trail (fst (prune older dry db)))"
proof (cases "List.find (\<lambda>r. older (al_ts r)) (rev (trail db))")
  case (Some r)
  then have "r \<in> set (trail db)" using fetchone_Some [unfolded fetchone_def] by fastforce
  then obtain rs ts where t: "trail db = rs @ r # ts" by (meson split_list)
  show ?thesis
    using Some chained_cut [OF assms [unfolded t]] assms
    by (simp add: prune_def Let_def t del: filter_append)
qed (use assms in \<open>simp add: prune_def\<close>)

interpretation audit: op_system "exec_audit sha" "\<lambda>db. chained sha (anchor db) (trail db)" for sha
proof unfold_locales
  fix db :: audit_db and op
  assume c: "chained sha (anchor db) (trail db)"
  show "chained sha (anchor (exec_audit sha op db)) (trail (exec_audit sha op db))"
  proof (cases op)
    case (RecordAction ctx fails ts action status user details)
    then show ?thesis
      using c append_entry_chained [OF c]
      by (auto simp: record_action_def Let_def split: prod.splits)
  qed (use prune_chained [OF c] in simp)
qed

text \<open>What was to be recorded, in order: the entries of the calls whose write did not fail.\<close>

type_synonym audit_fact = "string \<times> string \<times> string \<times> string option \<times> string option \<times> string option \<times> string option \<times> string"

definition row_fact_of :: "audit_row \<Rightarrow> audit_fact" where
  "row_fact_of r = (al_ts r, al_action r, al_status r, al_user r, al_token r, al_ip r, al_request r, al_details r)"

primrec op_facts :: "audit_op \<Rightarrow> audit_fact list" where
  "op_facts (RecordAction ctx fails ts action status user details) = (if fails then [] else
     [(ts, action, status, if user \<in> {None, Some []} then (case ctx of None \<Rightarrow> None | Some c \<Rightarrow> rc_user c) else user,
       case ctx of None \<Rightarrow> None | Some c \<Rightarrow> rc_token c, case ctx of None \<Rightarrow> None | Some c \<Rightarrow> rc_ip c,
       case ctx of None \<Rightarrow> None | Some c \<Rightarrow> rc_id c, details)])"
| "op_facts (PruneAudit older dry) = []"

definition recorded :: "audit_op list \<Rightarrow> audit_fact list" where
  "recorded ops = concat (map op_facts ops)"

lemma append_entry_adds:
  assumes "append_entry sha ts action status user token ip request details db = (db', i, digest)"
  shows "\<exists>r. trail db' = trail db @ [r] \<and> anchor db' = anchor db \<and>
    row_fact_of r = (ts, action, status, user, token, ip, request, details)"
  using assms by (auto simp: append_entry_def Let_def row_fact_of_def split: prod.splits)

lemma record_adds:
  "\<exists>new. trail (exec_audit sha (RecordAction ctx fails ts action status user details) db) = trail db @ new \<and>
     map row_fact_of new = op_facts (RecordAction ctx fails ts action status user details) \<and>
     anchor (exec_audit sha (RecordAction ctx fails ts action status user details) db) = anchor db"
proof (cases fails)
  case False
  let ?c = "case ctx of None \<Rightarrow> \<lparr>rc_user = None, rc_token = None, rc_ip = None, rc_id = None\<rparr> | Some c \<Rightarrow> c"
  obtain db' i d where e: "append_entry sha ts action status (if user = None \<or> user = Some [] then rc_user ?c else user)
      (rc_token ?c) (rc_ip ?c) (rc_id ?c) details db = (db', i, d)" using prod_cases3 by blast
  then have x: "exec_audit sha (RecordAction ctx fails ts action status user details) db = db'"
    using False by (simp add: record_action_def Let_def)
  show ?thesis unfolding x using append_entry_adds [OF e] False by (auto split: option.splits)
qed (simp add: record_action_def Let_def)

text \<open>Pruning takes a front part of the trail, up to the newest entry that is too old.\<close>

lemma find_last:
  assumes "List.find P (rev xs) = Some x"
  shows "\<exists>as bs. xs = as @ x # bs \<and> P x \<and> list_all (\<lambda>y. \<not> P y) bs"
proof -
  obtain i where i: "i < length xs" "P (rev xs ! i)" "x = rev xs ! i" "\<forall>j<i. \<not> P (rev xs ! j)"
    using assms by (auto simp: find_Some_iff)
  have "rev xs = take i (rev xs) @ x # drop (Suc i) (rev xs)" using i(1,3) by (simp add: id_take_nth_drop)
  then have "xs = rev (drop (Suc i) (rev xs)) @ x # rev (take i (rev xs))"
    by (metis append.assoc append_Cons append_Nil rev.simps(2) rev_append rev_rev_ident)
  moreover have "list_all (\<lambda>y. \<not> P y) (rev (take i (rev xs)))"
    using i(1,4) by (auto simp: list_all_iff in_set_conv_nth)
  ultimately show ?thesis using i(2,3) by blast
qed

lemma prune_front:
  assumes c: "chained sha (anchor db) (trail db)" and p: "prune older False db = (db', n)"
  shows "n \<le> length (trail db) \<and> trail db' = drop n (trail db) \<and> fst (anchor db') = fst (anchor db) + n \<and>
    (n = 0 \<or> older (al_ts (trail db ! (n - 1)))) \<and> list_all (\<lambda>r. \<not> older (al_ts r)) (trail db')"
proof (cases "List.find (\<lambda>r. older (al_ts r)) (rev (trail db))")
  case None
  then have "db' = db" "n = 0" using p by (simp_all add: prune_def)
  then show ?thesis using None by (auto simp: find_None_iff list_all_iff)
next
  case (Some x)
  obtain as bs where t: "trail db = as @ x # bs" "older (al_ts x)" "list_all (\<lambda>r. \<not> older (al_ts r)) bs"
    using find_last [OF Some] by blast
  have cut: "filter (\<lambda>y. \<not> al_id y \<le> al_id x) (trail db) = bs" using chained_cut(1) c unfolding t(1) by blast
  have "length (filter (\<lambda>y. al_id y \<le> al_id x) (trail db)) + length bs = length (trail db)"
    using sum_length_filter_compl [of "\<lambda>y. al_id y \<le> al_id x" "trail db"] cut by simp
  then have n: "n = Suc (length as)" using p Some by (simp add: prune_def Let_def t(1) del: filter_append)
  have "chained sha (anchor db) (as @ [x])" using c chained_append [of sha "anchor db" "as @ [x]" bs] by (simp add: t(1))
  from chain_length [OF this] have "al_id x = fst (anchor db) + n" by (simp add: chain_end_def n)
  moreover have "trail db' = bs" "fst (anchor db') = al_id x" using p Some cut by (auto simp: prune_def Let_def)
  ultimately show ?thesis using t n by (simp add: nth_append)
qed

lemma prune_dry: "prune older True db = (db, snd (prune older False db))"
  by (simp add: prune_def Let_def split: option.splits)

text \<open>Counted from the first entry ever, the anchor says how many are pruned, and the rows are all the later ones.\<close>

definition keeps_all :: "(string \<Rightarrow> string) \<Rightarrow> audit_op list \<Rightarrow> audit_db \<Rightarrow> bool" where
  "keeps_all sha ops db = (chained sha (anchor db) (trail db) \<and> fst (anchor db) \<le> length (recorded ops) \<and>
     map row_fact_of (trail db) = drop (fst (anchor db)) (recorded ops))"

lemma keeps_all_step:
  assumes k: "keeps_all sha ops db"
  shows "keeps_all sha (ops @ [op]) (exec_audit sha op db)"
proof -
  have c: "chained sha (anchor (exec_audit sha op db)) (trail (exec_audit sha op db))"
    using audit.step_inv k by (simp add: keeps_all_def)
  show ?thesis
  proof (cases op)
    case (RecordAction ctx fails ts action status user details)
    obtain new where "trail (exec_audit sha op db) = trail db @ new" "map row_fact_of new = op_facts op"
        "anchor (exec_audit sha op db) = anchor db"
      unfolding RecordAction using record_adds by blast
    then show ?thesis using c k by (simp add: keeps_all_def recorded_def)
  next
    case (PruneAudit older dry)
    obtain db' n where p: "prune older False db = (db', n)" by fastforce
    have e: "exec_audit sha op db = (if dry then db else db')"
      using PruneAudit p prune_dry [of older db] by (cases dry) simp_all
    have ch: "chained sha (anchor db) (trail db)" using k by (simp add: keeps_all_def)
    have f: "n \<le> length (trail db)" "trail db' = drop n (trail db)" "fst (anchor db') = fst (anchor db) + n"
      using prune_front [OF ch p] by blast+
    have m: "map row_fact_of (trail db) = drop (fst (anchor db)) (recorded ops)" "fst (anchor db) \<le> length (recorded ops)"
      using k by (simp_all add: keeps_all_def)
    have l: "length (trail db) = length (recorded ops) - fst (anchor db)" using arg_cong [OF m(1), of length] by simp
    have m': "map row_fact_of (trail db') = drop (fst (anchor db) + n) (recorded ops)"
      unfolding f(2) drop_map [symmetric] m(1) by (simp add: add.commute)
    have r: "recorded (ops @ [op]) = recorded ops" by (simp add: recorded_def PruneAudit)
    have n: "fst (anchor db) + n \<le> length (recorded ops)" using l f(1) m(2) by simp
    show ?thesis
    proof (cases dry)
      case True
      then show ?thesis using k by (simp add: keeps_all_def e r)
    next
      case False
      then show ?thesis using c n m' f(3) by (simp add: keeps_all_def e r)
    qed
  qed
qed

lemma keeps_all_run: "keeps_all sha ops (run_ops (exec_audit sha) ops empty_audit)"
proof (induction ops rule: rev_induct)
  case (snoc op ops)
  then show ?case using keeps_all_step by simp
qed (simp add: keeps_all_def recorded_def empty_audit_def)

text \<open>
  C10: whatever is recorded and pruned, with failing writes in between, the trail verifies: every
  remaining row is checked, and the last id and head hash it reports are those of the newest entry
  (or of the anchor), which are the ones \<open>record\<close> sent to the server log for it. The rows hold exactly what was recorded,
  in order, but for the first entries, as many as the anchor's id. Pruning takes away a front part only, none at all
  or up to an entry that is older than the limit, and leaves no such entry; a dry run changes nothing and counts the same.
\<close>

theorem audit_verifies:
  fixes sha
  defines "db \<equiv> \<lambda>ops. run_ops (exec_audit sha) ops empty_audit"
  shows "v_ok (verify sha (db ops)) \<and> v_checked (verify sha (db ops)) = length (trail (db ops)) \<and>
    v_last_id (verify sha (db ops)) = Some (fst (chain_head (db ops))) \<and>
    v_head_hash (verify sha (db ops)) = Some (snd (chain_head (db ops))) \<and>
    (case record_action sha ctx fails ts action status user details (db ops) of
       (db', logged) \<Rightarrow> if fails then db' = db ops \<and> logged = None else logged = Some (chain_head db')) \<and>
    map row_fact_of (trail (db ops)) = drop (fst (anchor (db ops))) (recorded ops) \<and>
    (case prune older False (db ops) of (db', n) \<Rightarrow>
       n \<le> length (trail (db ops)) \<and> trail db' = drop n (trail (db ops)) \<and> fst (anchor db') = fst (anchor (db ops)) + n \<and>
       (n = 0 \<or> older (al_ts (trail (db ops) ! (n - 1)))) \<and> list_all (\<lambda>r. \<not> older (al_ts r)) (trail db') \<and>
       prune older True (db ops) = (db ops, n))"
proof -
  have k: "keeps_all sha ops (db ops)" unfolding db_def by (rule keeps_all_run)
  then have c: "chained sha (anchor (db ops)) (trail (db ops))" by (simp add: keeps_all_def)
  have r: "case record_action sha ctx fails ts action status user details (db ops) of
       (db', logged) \<Rightarrow> if fails then db' = db ops \<and> logged = None else logged = Some (chain_head db')"
    using append_entry_chained [OF c] by (auto simp: record_action_def Let_def split: prod.splits)
  have "case prune older False (db ops) of (db', n) \<Rightarrow>
       n \<le> length (trail (db ops)) \<and> trail db' = drop n (trail (db ops)) \<and> fst (anchor db') = fst (anchor (db ops)) + n \<and>
       (n = 0 \<or> older (al_ts (trail (db ops) ! (n - 1)))) \<and> list_all (\<lambda>r. \<not> older (al_ts r)) (trail db') \<and>
       prune older True (db ops) = (db ops, n)"
  proof (cases "prune older False (db ops)")
    case (Pair db' n)
    have "prune older True (db ops) = (db ops, n)" using prune_dry [of older "db ops"] Pair by simp
    then show ?thesis unfolding Pair prod.case using prune_front [OF c Pair] by blast
  qed
  moreover have "map row_fact_of (trail (db ops)) = drop (fst (anchor (db ops))) (recorded ops)" using k by (simp add: keeps_all_def)
  moreover have "v_ok (verify sha (db ops))" using c by (simp add: verify_ok)
  ultimately show ?thesis using verify_chained [OF c] r by blast
qed

section \<open>What the head hash proves\<close>

lemma json_opt_inject: "json_opt u = json_opt v \<Longrightarrow> u = v"
  by (cases u; cases v) (simp_all add: json_opt_def)

lemma entry_payload_inject:
  assumes "entry_payload p r = entry_payload q s"
  shows "p = q \<and> al_id r = al_id s \<and> al_ts r = al_ts s \<and> al_action r = al_action s \<and> al_status r = al_status s \<and>
    al_user r = al_user s \<and> al_token r = al_token s \<and> al_ip r = al_ip s \<and> al_request r = al_request s \<and>
    al_details r = al_details s"
  using json_list_inject [OF _ assms [unfolded entry_payload_def]] json_opt_inject by simp

definition payloads :: "nat \<times> string \<Rightarrow> audit_row list \<Rightarrow> string set" where
  "payloads h rs = {entry_payload (al_prev r) r | r. r \<in> set rs}"

lemma chained_last:
  assumes "chained sha h (rs @ [r])"
  shows "chained sha h rs \<and> al_hash r = sha (entry_payload (al_prev r) r) \<and>
    chain_end h rs = (al_id r - 1, al_prev r) \<and> 0 < al_id r"
  using assms by (cases "chain_end h rs") (auto simp: chained_append entry_hash_def)

lemma same_head_same_rows:
  assumes "chained sha h rs" and "chained sha h' rs'" and "chain_end h rs = chain_end h' rs'"
    and "inj_on sha (payloads h rs \<union> payloads h' rs')"
  shows "suffix rs rs' \<or> suffix rs' rs"
  using assms
proof (induction rs arbitrary: rs' rule: rev_induct)
  case (snoc r rs)
  show ?case
  proof (cases rs' rule: rev_cases)
    case (snoc us s)
    note a = chained_last [OF snoc.prems(1)] and b = chained_last [OF snoc.prems(2) [unfolded snoc]]
    have "al_hash r = al_hash s" and ids: "al_id r = al_id s"
      using snoc.prems(3) snoc by (simp_all add: chain_end_def)
    then have "sha (entry_payload (al_prev r) r) = sha (entry_payload (al_prev s) s)" using a b by simp
    moreover have "entry_payload (al_prev r) r \<in> payloads h (rs @ [r]) \<union> payloads h' rs'"
      "entry_payload (al_prev s) s \<in> payloads h (rs @ [r]) \<union> payloads h' rs'"
      using snoc by (auto simp: payloads_def)
    ultimately have "entry_payload (al_prev r) r = entry_payload (al_prev s) s"
      using snoc.prems(4) by (simp add: inj_on_eq_iff)
    then have eq: "r = s"
      using entry_payload_inject [of "al_prev r" r "al_prev s" s] \<open>al_hash r = al_hash s\<close> by simp
    have "chain_end h rs = chain_end h' us" using a b eq by simp
    moreover have "inj_on sha (payloads h rs \<union> payloads h' us)"
      using snoc.prems(4) by (rule inj_on_subset) (auto simp: payloads_def snoc)
    ultimately have "suffix rs us \<or> suffix us rs" using snoc.IH [of us] a b by blast
    then show ?thesis using snoc eq by (auto simp: suffix_def)
  qed simp
qed simp

text \<open>
  C11: the head hash pins the whole trail down. Two trails that both verify, from the same anchor id,
  and end in the same id and hash are the same, row for row and field for field, as long as SHA-256
  does not collide on the two: an entry changed, removed, inserted or reordered anywhere shows in
  \<open>verify\<close> or in a head different from the one in the server log. Trails with different anchors
  agree on the rows both still have.
\<close>

theorem audit_tamper_evident:
  assumes "v_ok (verify sha db)" and "v_ok (verify sha db')"
    and "chain_head db = chain_head db'"
    and "inj_on sha (payloads (anchor db) (trail db) \<union> payloads (anchor db') (trail db'))"
  shows "(suffix (trail db) (trail db') \<or> suffix (trail db') (trail db)) \<and>
    (fst (anchor db) = fst (anchor db') \<longrightarrow> trail db = trail db')"
proof -
  have c: "chained sha (anchor db) (trail db)" "chained sha (anchor db') (trail db')"
    using assms(1,2) by (simp_all add: verify_ok)
  have e: "chain_end (anchor db) (trail db) = chain_end (anchor db') (trail db')"
    using assms(3) by (simp add: chain_end_def chain_head_def)
  have s: "suffix (trail db) (trail db') \<or> suffix (trail db') (trail db)"
    by (rule same_head_same_rows [OF c e assms(4)])
  have "length (trail db) = length (trail db')" if "fst (anchor db) = fst (anchor db')"
    using chain_length [OF c(1)] chain_length [OF c(2)] e that by simp
  then show ?thesis using s by (auto simp: suffix_def)
qed

theorem audit_tamper_evident_witness:
  "trail (fst (append_entry (\<lambda>s. s) ''t'' ''login'' ''success'' None None None None ''{}'' empty_audit)) =
   trail (exec_audit (\<lambda>s. s) (RecordAction None False ''t'' ''login'' ''success'' None ''{}'') empty_audit)"
proof -
  let ?a = "fst (append_entry (\<lambda>s. s) ''t'' ''login'' ''success'' None None None None ''{}'' empty_audit)"
  let ?b = "exec_audit (\<lambda>s. s) (RecordAction None False ''t'' ''login'' ''success'' None ''{}'') empty_audit"
  have e: "chained (\<lambda>s. s) (anchor empty_audit) (trail empty_audit)" by (simp add: empty_audit_def)
  have "v_ok (verify (\<lambda>s. s) ?a)"
    unfolding verify_ok by (auto simp: append_entry_def chain_head_def empty_audit_def Let_def entry_hash_def entry_payload_def)
  moreover have "v_ok (verify (\<lambda>s. s) ?b)"
    unfolding verify_ok by (rule audit.step_inv [OF e])
  moreover have "chain_head ?a = chain_head ?b" "fst (anchor ?a) = fst (anchor ?b)"
    by (simp_all add: record_action_def append_entry_def chain_head_def empty_audit_def Let_def)
  ultimately show ?thesis
    using audit_tamper_evident [of "\<lambda>s. s" ?a ?b] by (simp add: inj_on_def)
qed

text \<open>
  What the chain alone does not show: a verified trail from which the newest entries were removed
  still verifies, from the same anchor, with fewer entries checked; only the head hash differs.
\<close>

theorem truncation_needs_head:
  assumes "v_ok (verify sha db)" and "k \<le> length (trail db)"
  shows "v_ok (verify sha (db\<lparr>trail := take k (trail db)\<rparr>)) \<and>
    v_checked (verify sha (db\<lparr>trail := take k (trail db)\<rparr>)) = k \<and>
    (k < length (trail db) \<longrightarrow>
      v_last_id (verify sha (db\<lparr>trail := take k (trail db)\<rparr>)) \<noteq> v_last_id (verify sha db))"
proof -
  let ?t = "db\<lparr>trail := take k (trail db)\<rparr>"
  have c: "chained sha (anchor db) (trail db)" using assms(1) by (simp add: verify_ok)
  then have "chained sha (anchor db) (take k (trail db) @ drop k (trail db))" by simp
  then have ct: "chained sha (anchor ?t) (trail ?t)" by (simp only: chained_append) simp
  have head: "chain_head d = chain_end (anchor d) (trail d)" for d :: audit_db
    by (simp add: chain_head_def chain_end_def)
  have "fst (chain_head ?t) = fst (anchor db) + k" "fst (chain_head db) = fst (anchor db) + length (trail db)"
    using chain_length [OF ct] chain_length [OF c] assms(2) unfolding head by simp_all
  then show ?thesis using ct verify_chained [OF ct] verify_chained [OF c] assms(2) by (auto simp: verify_ok)
qed

theorem truncation_needs_head_witness:
  "v_ok (verify (\<lambda>s. s) ((run_ops (exec_audit (\<lambda>s. s)) [RecordAction None False ''t'' ''a'' ''success'' None ''{}'']
     empty_audit)\<lparr>trail := []\<rparr>))"
  using truncation_needs_head [of "\<lambda>s. s" "run_ops (exec_audit (\<lambda>s. s))
      [RecordAction None False ''t'' ''a'' ''success'' None ''{}''] empty_audit" 0]
    audit.run_inv [where sha = "\<lambda>s. s" and s = empty_audit and ops = "[RecordAction None False ''t'' ''a'' ''success'' None ''{}'']"]
  by (simp add: verify_ok empty_audit_def)

end
