(* ===== verification/Licensing.thy ===== *)
theory Licensing
  imports Accounts
begin

text \<open>
  \<^verbatim>\<open>services/licensing.py\<close>: offline licenses. Dates are day numbers. \<open>lic_env\<close> holds what the code
  takes from outside: the built-in public keys, Ed25519 verification of the decoded signature,
  base64, JSON and ISO date parsing (\<open>None\<close> where Python raises \<open>ValueError\<close>), and the server id.
\<close>

section \<open>License files\<close>

datatype json =
    JNone
  | JBool bool
  | JInt int
  | JText string
  | JArray "json list"
  | JObject "(string \<times> json) list"

record lic_env =
  l_keys :: "string list"
  l_b64 :: "string \<Rightarrow> string option"
  l_loads :: "string \<Rightarrow> json option"
  l_verifies :: "string \<Rightarrow> string \<Rightarrow> string \<Rightarrow> bool"
  l_date :: "string \<Rightarrow> int option"
  l_server :: string

type_synonym license_error = string

definition TRIAL_DAYS :: int where "TRIAL_DAYS = 30"
definition GRACE_DAYS :: int where "GRACE_DAYS = 14"
definition WARN_DAYS :: int where "WARN_DAYS = 30"

definition LICENSE_PREFIX :: string where
  "LICENSE_PREFIX = ''HBYL1''"

definition enforced :: "lic_env \<Rightarrow> bool" where
  "enforced env = (l_keys env \<noteq> [])"

text \<open>\<open>payload.get(name)\<close> of an object.\<close>

definition field :: "json \<Rightarrow> string \<Rightarrow> json" where
  "field p name = (case p of JObject kvs \<Rightarrow> (case map_of (rev kvs) name of None \<Rightarrow> JNone | Some v \<Rightarrow> v) | _ \<Rightarrow> JNone)"

definition is_object :: "json \<Rightarrow> bool" where
  "is_object p = (case p of JObject _ \<Rightarrow> True | _ \<Rightarrow> False)"

definition equals_one :: "json \<Rightarrow> bool" where
  "equals_one v = (v = JInt 1 \<or> v = JBool True)"

definition nonempty_text :: "json \<Rightarrow> bool" where
  "nonempty_text v = (case v of JText s \<Rightarrow> s \<noteq> [] | _ \<Rightarrow> False)"

definition text_of :: "json \<Rightarrow> string" where
  "text_of v = (case v of JText s \<Rightarrow> s | _ \<Rightarrow> [])"

definition date_of :: "lic_env \<Rightarrow> json \<Rightarrow> int option" where
  "date_of env v = (case v of JText s \<Rightarrow> l_date env s | _ \<Rightarrow> None)"

definition valid_limit :: "json \<Rightarrow> bool" where
  "valid_limit v = (case v of JNone \<Rightarrow> True | JInt n \<Rightarrow> 1 \<le> n | _ \<Rightarrow> False)"

definition valid_features :: "json \<Rightarrow> bool" where
  "valid_features v = (case v of JArray fs \<Rightarrow> list_all (\<lambda>f. case f of JText _ \<Rightarrow> True | _ \<Rightarrow> False) fs | _ \<Rightarrow> False)"

definition has_field :: "json \<Rightarrow> string \<Rightarrow> bool" where
  "has_field p name = (case p of JObject kvs \<Rightarrow> name \<in> fst ` set kvs | _ \<Rightarrow> False)"

definition check_payload :: "lic_env \<Rightarrow> json \<Rightarrow> license_error + json" where
  "check_payload env p =
     (if \<not> is_object p \<or> \<not> equals_one (field p ''v'') then Inl ''This license is for a different version of Habeny''
      else if \<not> nonempty_text (field p ''id'') then Inl ''The license has no id''
      else if \<not> nonempty_text (field p ''customer'') then Inl ''The license has no customer''
      else if \<not> nonempty_text (field p ''server_id'') then Inl ''The license has no server id''
      else if date_of env (field p ''issued'') = None then Inl ''The license's issue date is invalid''
      else if field p ''expires'' \<noteq> JNone \<and> date_of env (field p ''expires'') = None
        then Inl ''The license's expiry date is invalid''
      else if \<not> valid_limit (field p ''max_containers'') then Inl ''The license's container limit is invalid''
      else if has_field p ''features'' \<and> \<not> valid_features (field p ''features'')
        then Inl ''The license's feature list is invalid''
      else Inr p)"

text \<open>\<open>str.splitlines\<close> on the characters of the model, with \<open>\r\n\<close> as one line end.\<close>

definition line_end :: "char \<Rightarrow> bool" where
  "line_end c = (let n = cp c in 10 \<le> n \<and> n \<le> 13 \<or> 28 \<le> n \<and> n \<le> 30 \<or> n = 133)"

function split_lines :: "string \<Rightarrow> string \<Rightarrow> string list" where
  "split_lines cur [] = (if cur = [] then [] else [cur])"
| "split_lines cur (c # s) =
     (if line_end c then
        cur # split_lines [] (if c = CHR 0x0D \<and> s \<noteq> [] \<and> hd s = CHR 0x0A then tl s else s)
      else split_lines (cur @ [c]) s)"
  by pat_completeness auto
termination by (relation "measure (\<lambda>(_, s). length s)") auto

definition splitlines :: "string \<Rightarrow> string list" where
  "splitlines s = split_lines [] s"

definition license_token :: "string \<Rightarrow> string" where
  "license_token text =
     concat (filter (\<lambda>l. l \<noteq> [] \<and> hd l \<noteq> CHR ''#'') (map py_strip (splitlines text)))"

definition decode :: "lic_env \<Rightarrow> string \<Rightarrow> license_error + json" where
  "decode env text =
     (case split_on (CHR ''.'') (license_token text) of
        [pre, body, sig] \<Rightarrow>
          if pre \<noteq> LICENSE_PREFIX then Inl ''This isn't a Habeny license file''
          else (case (l_b64 env sig, Option.bind (l_b64 env body) (l_loads env)) of
              (Some signature, Some payload) \<Rightarrow>
                if list_ex (\<lambda>key. l_verifies env key signature (LICENSE_PREFIX @ ''.'' @ body)) (l_keys env)
                then check_payload env payload
                else Inl ''The license's signature doesn't match: it was changed, or it isn't from the Habeny vendor''
            | _ \<Rightarrow> Inl ''The license file is damaged'')
      | _ \<Rightarrow> Inl ''This isn't a Habeny license file'')"

text \<open>\<open>install\<close>: the payload and the new content of the license file.\<close>

definition install :: "lic_env \<Rightarrow> int \<Rightarrow> string \<Rightarrow> license_error + json \<times> string" where
  "install env today text =
     (if \<not> enforced env then Inl ''Licensing is off in this build of Habeny, so there's nothing to install''
      else case decode env text of
        Inl e \<Rightarrow> Inl e
      | Inr p \<Rightarrow>
          if field p ''server_id'' \<noteq> JText (l_server env) then
            Inl (''This license is for server '' @ text_of (field p ''server_id'') @ ''; this server is '' @ l_server env)
          else if (case date_of env (field p ''expires'') of None \<Rightarrow> False | Some e \<Rightarrow> e + GRACE_DAYS < today) then
            Inl (''This license expired on '' @ text_of (field p ''expires''))
          else Inr (p, ''# Habeny license '' @ text_of (field p ''id'') @ '' for '' @ text_of (field p ''customer'') @
                 [CHR 0x0A] @ license_token text @ [CHR 0x0A]))"

section \<open>The licensing state\<close>

datatype lic_state = Off | Active | Expiring | Grace | Expired | Trial | TrialEnded | Invalid

record lic_info =
  li_state :: lic_state
  li_license :: "json option"
  li_days_left :: "int option"
  li_max :: "int option"
  li_allows :: bool
  li_problem :: "string option"
  li_message :: string

definition int_str :: "int \<Rightarrow> string" where
  "int_str n = (if n < 0 then ''-'' @ nat_str (nat (- n)) else nat_str (nat n))"

definition days_str :: "int \<Rightarrow> string" where
  "days_str n = int_str n @ '' day'' @ (if n \<noteq> 1 then ''s'' else [])"

definition limit_of :: "json \<Rightarrow> int option" where
  "limit_of v = (case v of JInt n \<Rightarrow> Some n | _ \<Rightarrow> None)"

text \<open>The trial starts on the day of the oldest account; times are microseconds.\<close>

definition trial_start :: "accounts \<Rightarrow> int option" where
  "trial_start db = (if users db = [] then None else Some (Min (u_created ` set (users db)) div 86400000000))"

text \<open>The installed license: \<open>file\<close> is the content of the license file, if there is one.\<close>

definition installed :: "lic_env \<Rightarrow> string option \<Rightarrow> json option \<times> string option" where
  "installed env file = (case file of
     None \<Rightarrow> (None, None)
   | Some text \<Rightarrow> (case decode env text of
       Inl e \<Rightarrow> (None, Some e)
     | Inr p \<Rightarrow>
         if field p ''server_id'' \<noteq> JText (l_server env) then
           (None, Some (''The installed license is for server '' @ text_of (field p ''server_id'') @
             '', not this one ('' @ l_server env @ '')''))
         else (Some p, None)))"

definition licensed_info :: "lic_env \<Rightarrow> int \<Rightarrow> json \<Rightarrow> lic_info" where
  "licensed_info env today p =
     (let customer = text_of (field p ''customer''); expires_text = text_of (field p ''expires'');
          info = \<lparr>li_state = Active, li_license = Some p, li_days_left = None,
                  li_max = limit_of (field p ''max_containers''), li_allows = True, li_problem = None,
                  li_message = ''Licensed to '' @ customer\<rparr>
      in case date_of env (field p ''expires'') of
        None \<Rightarrow> info
      | Some expires \<Rightarrow>
         (let days_left = expires - today; info = info\<lparr>li_days_left := Some days_left\<rparr> in
          if days_left < 0 then
            (let grace_left = GRACE_DAYS + days_left in
             if 0 \<le> grace_left then
               info\<lparr>li_state := Grace, li_message := ''The license expired on '' @ expires_text @
                 ''. New work stops in '' @ days_str grace_left @ ''; renew it.''\<rparr>
             else info\<lparr>li_state := Expired, li_allows := False, li_message := ''The license expired on '' @ expires_text @
                 ''. Viewing and managing existing containers still work; install a renewed license to deploy and run tests.''\<rparr>)
          else if days_left \<le> WARN_DAYS then
            info\<lparr>li_state := Expiring, li_message := ''The license expires on '' @ expires_text @ '' ('' @
              days_str days_left @ '' left)''\<rparr>
          else info\<lparr>li_message := ''Licensed to '' @ customer @ '' until '' @ expires_text\<rparr>))"

definition trial_info :: "int \<Rightarrow> int \<Rightarrow> string option \<Rightarrow> lic_info" where
  "trial_info start today problem =
     (let left = start + TRIAL_DAYS - today;
          info = \<lparr>li_state = (if problem \<noteq> None then Invalid else Trial), li_license = None, li_days_left = Some left,
                  li_max = None, li_allows = True, li_problem = problem, li_message = []\<rparr>
      in if 0 \<le> left then
           info\<lparr>li_message := (case problem of None \<Rightarrow> [] | Some e \<Rightarrow> e @ ''. '') @ ''Trial: '' @ days_str left @
             '' left. Install a license to keep deploying.''\<rparr>
         else info\<lparr>li_state := (if problem \<noteq> None then Invalid else TrialEnded), li_allows := False,
             li_message := (case problem of None \<Rightarrow> ''The trial has ended. '' | Some e \<Rightarrow> e @ ''. '') @
               ''Viewing and managing existing containers still work; install a license to deploy and run tests.''\<rparr>)"

definition status_info :: "lic_env \<Rightarrow> int \<Rightarrow> accounts \<Rightarrow> string option \<Rightarrow> lic_info" where
  "status_info env today db file =
     (if \<not> enforced env then
        \<lparr>li_state = Off, li_license = None, li_days_left = None, li_max = None, li_allows = True,
         li_problem = None, li_message = ''Licensing is off in this build''\<rparr>
      else case installed env file of
        (Some p, _) \<Rightarrow> licensed_info env today p
      | (None, problem) \<Rightarrow>
          trial_info (case trial_start db of None \<Rightarrow> today | Some d \<Rightarrow> d) today problem)"

definition require_license :: "lic_env \<Rightarrow> int \<Rightarrow> accounts \<Rightarrow> string option \<Rightarrow> int \<Rightarrow> int \<Rightarrow> http_error option" where
  "require_license env today db file adding existing =
     (if \<not> enforced env then None
      else let info = status_info env today db file in
        if \<not> li_allows info then Some (HTTPError 402 (li_message info))
        else (case li_max info of
            None \<Rightarrow> None
          | Some limit \<Rightarrow>
              if 0 < adding \<and> limit < existing + adding then
                Some (HTTPError 402 (''This server's license allows '' @ int_str limit @ '' containers; there are '' @
                  int_str existing @ '' and you asked for '' @ int_str adding @ '' more.''))
              else None))"

datatype lic_alert = FireCritical string | FireWarning string | ClearAlert string | NoAlert

definition check_alert :: "lic_env \<Rightarrow> int \<Rightarrow> accounts \<Rightarrow> string option \<Rightarrow> lic_alert" where
  "check_alert env today db file =
     (if \<not> enforced env then NoAlert
      else let info = status_info env today db file; state = li_state info in
        if state \<in> {Expired, TrialEnded} \<or> state = Invalid \<and> \<not> li_allows info then FireCritical (li_message info)
        else if state \<in> {Expiring, Grace, Invalid} \<or>
            state = Trial \<and> (case li_days_left info of None \<Rightarrow> False | Some d \<Rightarrow> d \<le> 7)
        then FireWarning (li_message info)
        else ClearAlert (li_message info))"

section \<open>The states and what they allow\<close>

text \<open>
  For a license bound to this server with an expiry date, the state is decided by the days left
  alone: more than 30, active; 0 to 30, expiring; up to 14 days past, grace; later, expired. New work
  is refused exactly in the last case, and a critical alert is raised exactly when it is refused.
\<close>

theorem license_states:
  assumes "enforced env" and "installed env file = (Some p, prob)" and "date_of env (field p ''expires'') = Some e"
  shows "let info = status_info env today db file in
    li_state info = (if today + 30 < e then Active else if today \<le> e then Expiring
                     else if today \<le> e + 14 then Grace else Expired) \<and>
    (li_allows info \<longleftrightarrow> today \<le> e + 14) \<and>
    (\<exists>m. check_alert env today db file = FireCritical m) = (\<not> li_allows info) \<and>
    (is_ok (case require_license env today db file 0 n of None \<Rightarrow> Inr () | Some x \<Rightarrow> Inl x) \<longleftrightarrow> today \<le> e + 14)"
  using assms
  by (auto simp: Let_def status_info_def licensed_info_def check_alert_def require_license_def
      GRACE_DAYS_def WARN_DAYS_def split: option.splits)

text \<open>A key that signs by prefixing its name; base64 and JSON of one fixed license.\<close>

definition demo_license :: json where
  "demo_license = JObject [(''v'', JInt 1), (''id'', JText ''L1''), (''customer'', JText ''Acme''),
     (''server_id'', JText ''S''), (''issued'', JText ''d0''), (''expires'', JText ''d100''), (''max_containers'', JInt 5)]"

definition demo_lic :: lic_env where
  "demo_lic = \<lparr>l_keys = [''k''], l_b64 = (\<lambda>t. Some t), l_loads = (\<lambda>t. Some demo_license),
     l_verifies = (\<lambda>k sig msg. sig = ''sig''), l_date = (\<lambda>t. if t = ''d100'' then Some 100 else Some 0),
     l_server = ''S''\<rparr>"

lemma demo_decode: "decode demo_lic ''HBYL1.body.sig'' = Inr demo_license"
  by code_simp

lemma demo_expires: "date_of demo_lic (field demo_license ''expires'') = Some 100"
  by code_simp

lemma demo_installed: "installed demo_lic (Some ''HBYL1.body.sig'') = (Some demo_license, None)"
  by (simp add: installed_def demo_decode) (simp add: field_def demo_license_def demo_lic_def)

theorem license_states_witness:
  "li_state (status_info demo_lic 110 empty_accounts (Some ''HBYL1.body.sig'')) = Grace"
  using license_states [of demo_lic "Some ''HBYL1.body.sig''" demo_license None 100 110 empty_accounts]
  by (simp add: demo_installed demo_expires Let_def) (simp add: enforced_def demo_lic_def)

section \<open>An installed license reads back\<close>

lemma split_lines_plain:
  "list_all (\<lambda>c. \<not> line_end c) u \<Longrightarrow> split_lines cur (u @ v) = split_lines (cur @ u) v"
  by (induction u arbitrary: cur) auto

lemma split_lines_no_end:
  "list_all (\<lambda>c. \<not> line_end c) cur \<Longrightarrow> l \<in> set (split_lines cur s) \<Longrightarrow> list_all (\<lambda>c. \<not> line_end c) l"
  by (induction cur s rule: split_lines.induct) (auto split: if_splits)

lemma newline_end: "line_end (CHR 0x0A)" "\<not> line_end (CHR ''#'')"
  by (simp_all add: line_end_def cp_def)

lemma py_strip_set: "c \<in> set (py_strip s) \<Longrightarrow> c \<in> set s"
  by (auto simp: py_strip_def rstrip_by_def dest!: set_dropWhileD)

lemma py_strip_ends: "py_strip s \<noteq> [] \<Longrightarrow> \<not> py_space (hd (py_strip s)) \<and> \<not> py_space (last (py_strip s))"
proof -
  assume ne: "py_strip s \<noteq> []"
  let ?d = "dropWhile py_space s"
  have d: "?d \<noteq> []"
  proof
    assume "?d = []"
    then have "py_strip s = rstrip_by py_space []" by (simp only: py_strip_def)
    then show False using ne by (simp add: rstrip_by_def)
  qed
  have "\<not> py_space (hd (rev (py_strip s)))"
    using hd_dropWhile_not [of py_space "rev ?d"] ne by (simp add: py_strip_def rstrip_by_def)
  moreover have "prefix (py_strip s) ?d"
    using suffix_dropWhile [of py_space "rev ?d"] by (simp add: py_strip_def rstrip_by_def suffix_to_prefix)
  then have "hd (py_strip s) = hd ?d" using ne by (auto simp: prefix_def)
  ultimately show ?thesis using hd_dropWhile_not [of py_space s] d by (simp add: hd_rev)
qed

lemma py_strip_id: "s \<noteq> [] \<Longrightarrow> \<not> py_space (hd s) \<Longrightarrow> \<not> py_space (last s) \<Longrightarrow> py_strip s = s"
proof -
  assume s: "s \<noteq> []" "\<not> py_space (hd s)" "\<not> py_space (last s)"
  then have "dropWhile py_space s = s" by (cases s) auto
  moreover have "dropWhile py_space (rev s) = rev s" using s by (cases s rule: rev_cases) auto
  ultimately show ?thesis by (simp add: py_strip_def rstrip_by_def)
qed

lemma py_strip_hd: "\<not> py_space c \<Longrightarrow> hd (py_strip (c # s)) = c"
  by (simp add: py_strip_def rstrip_by_def dropWhile_append)

definition kept_lines :: "string \<Rightarrow> string list" where
  "kept_lines text = filter (\<lambda>l. l \<noteq> [] \<and> hd l \<noteq> CHR ''#'') (map py_strip (splitlines text))"

lemma kept_line:
  assumes "l \<in> set (kept_lines text)"
  shows "l \<noteq> [] \<and> hd l \<noteq> CHR ''#'' \<and> \<not> py_space (hd l) \<and> \<not> py_space (last l) \<and> list_all (\<lambda>c. \<not> line_end c) l"
proof -
  from assms obtain r where r: "r \<in> set (splitlines text)" "l = py_strip r" "l \<noteq> []" "hd l \<noteq> CHR ''#''"
    by (auto simp: kept_lines_def)
  have "list_all (\<lambda>c. \<not> line_end c) r" using r(1) split_lines_no_end [of "[]" r "text"] by (simp add: splitlines_def)
  then have "list_all (\<lambda>c. \<not> line_end c) l" using py_strip_set r(2) by (auto simp: list_all_iff)
  then show ?thesis using r py_strip_ends [of r] by simp
qed

lemma concat_ends:
  assumes "ls \<noteq> []" and "\<And>l. l \<in> set ls \<Longrightarrow> l \<noteq> []"
  shows "hd (concat ls) = hd (hd ls)" "last (concat ls) = last (last ls)" "concat ls \<noteq> []"
proof -
  show "hd (concat ls) = hd (hd ls)" using assms by (cases ls) auto
  show "last (concat ls) = last (last ls)" using assms by (cases ls rule: rev_cases) auto
  show "concat ls \<noteq> []" using assms by (cases ls) auto
qed

text \<open>A comment line and the token on a line of its own read back as the token.\<close>

lemma license_token_file:
  assumes tok: "tok = license_token text" "tok \<noteq> []" and h: "list_all (\<lambda>c. \<not> line_end c) header"
  shows "license_token (CHR ''#'' # header @ [CHR 0x0A] @ tok @ [CHR 0x0A]) = tok"
proof -
  have t: "tok = concat (kept_lines text)" using tok(1) by (simp add: license_token_def kept_lines_def)
  then have ne: "kept_lines text \<noteq> []" using tok(2) by auto
  note k = kept_line [of _ "text"]
  have ends: "hd tok = hd (hd (kept_lines text))" "last tok = last (last (kept_lines text))"
    unfolding t by (rule concat_ends [OF ne]; use k in blast)+
  have "hd (kept_lines text) \<in> set (kept_lines text)" "last (kept_lines text) \<in> set (kept_lines text)"
    using ne by simp_all
  then have e: "hd tok \<noteq> CHR ''#''" "\<not> py_space (hd tok)" "\<not> py_space (last tok)"
    using k ends by auto
  have nl: "list_all (\<lambda>c. \<not> line_end c) tok" unfolding t using k by (auto simp: list_all_iff)
  let ?head = "CHR ''#'' # header"
  have "split_lines [] ((?head @ [CHR 0x0A]) @ tok @ [CHR 0x0A]) = [?head, tok]"
    using split_lines_plain [of ?head "[]" "CHR 0x0A # tok @ [CHR 0x0A]"] h
      split_lines_plain [OF nl, of "[]" "[CHR 0x0A]"] newline_end by simp
  moreover have "hd (py_strip ?head) = CHR ''#''"
    by (rule py_strip_hd) (simp add: py_space_def cp_def Let_def)
  ultimately show ?thesis
    using e tok(2) by (simp add: license_token_def splitlines_def py_strip_id)
qed

lemma decode_token: "license_token t = license_token u \<Longrightarrow> decode env t = decode env u"
  by (simp add: decode_def)

lemma decode_nonempty: "decode env t = Inr p \<Longrightarrow> license_token t \<noteq> []"
  by (auto simp: decode_def)

lemma licensed_info_allows:
  "li_allows (licensed_info env day p) \<longleftrightarrow>
    (case date_of env (field p ''expires'') of None \<Rightarrow> True | Some e \<Rightarrow> day \<le> e + 14)"
  by (auto simp: licensed_info_def GRACE_DAYS_def Let_def split: option.splits)

lemma licensed_info_max: "li_max (licensed_info env day p) = limit_of (field p ''max_containers'')"
  by (auto simp: licensed_info_def Let_def split: option.splits)

text \<open>
  C12: installing is consistent with the checks that follow. When \<open>install\<close> accepts a license (whose
  id and customer have no line break) on some day, the file it writes reads back as the same license,
  that day and, up to two weeks after its expiry, every day the license allows new work, and \<open>require\<close>
  refuses then exactly the requests beyond its container limit.
\<close>

theorem install_then_works:
  assumes "install env today content = Inr (p, file)"
    and "list_all (\<lambda>c. \<not> line_end c) (text_of (field p ''id''))"
    and "list_all (\<lambda>c. \<not> line_end c) (text_of (field p ''customer''))"
    and "case date_of env (field p ''expires'') of None \<Rightarrow> True | Some e \<Rightarrow> day \<le> e + 14"
  shows "installed env (Some file) = (Some p, None) \<and>
    (case date_of env (field p ''expires'') of None \<Rightarrow> True | Some e \<Rightarrow> today \<le> e + 14) \<and>
    li_allows (status_info env day db (Some file)) \<and>
    (require_license env day db (Some file) adding existing = None \<longleftrightarrow>
      (case limit_of (field p ''max_containers'') of None \<Rightarrow> True
       | Some limit \<Rightarrow> adding \<le> 0 \<or> existing + adding \<le> limit))"
proof -
  from assms(1) have d: "decode env content = Inr p" and srv: "field p ''server_id'' = JText (l_server env)"
    and f: "file = ''# Habeny license '' @ text_of (field p ''id'') @ '' for '' @ text_of (field p ''customer'') @
      [CHR 0x0A] @ license_token content @ [CHR 0x0A]"
    and exp: "case date_of env (field p ''expires'') of None \<Rightarrow> True | Some e \<Rightarrow> today \<le> e + 14"
    and on: "enforced env"
    by (auto simp: install_def GRACE_DAYS_def split: if_splits sum.splits option.splits)
  let ?h = "'' Habeny license '' @ text_of (field p ''id'') @ '' for '' @ text_of (field p ''customer'')"
  have "list_all (\<lambda>c. \<not> line_end c) ?h" using assms(2,3) by (simp add: line_end_def cp_def)
  then have "license_token file = license_token content"
    using license_token_file [OF refl decode_nonempty [OF d], of ?h] by (simp add: f)
  then have "decode env file = Inr p" using d decode_token [of "file" "content" env] by simp
  then have i: "installed env (Some file) = (Some p, None)" using srv by (simp add: installed_def)
  then have st: "status_info env day db (Some file) = licensed_info env day p"
    using on by (simp add: status_info_def)
  have al: "li_allows (licensed_info env day p)" using assms(4) by (simp add: licensed_info_allows)
  have "require_license env day db (Some file) adding existing = None \<longleftrightarrow>
      (case limit_of (field p ''max_containers'') of None \<Rightarrow> True
       | Some limit \<Rightarrow> adding \<le> 0 \<or> existing + adding \<le> limit)"
    using al on unfolding require_license_def st Let_def licensed_info_max
    by (cases "limit_of (field p ''max_containers'')") (simp_all add: not_less, linarith?)
  then show ?thesis using i exp al st by simp
qed

theorem install_then_works_witness:
  "\<exists>file. install demo_lic 100 ''HBYL1.body.sig'' = Inr (demo_license, file) \<and>
    li_allows (status_info demo_lic 114 empty_accounts (Some file)) \<and>
    require_license demo_lic 114 empty_accounts (Some file) 2 4 \<noteq> None"
proof -
  let ?file = "''# Habeny license L1 for Acme'' @ [CHR 0x0A] @ license_token ''HBYL1.body.sig'' @ [CHR 0x0A]"
  have f: "field demo_license ''server_id'' = JText ''S''" "field demo_license ''id'' = JText ''L1''"
    "field demo_license ''customer'' = JText ''Acme''" "field demo_license ''max_containers'' = JInt 5"
    by (simp_all add: field_def demo_license_def)
  have e: "enforced demo_lic" "l_server demo_lic = ''S''" by (simp_all add: enforced_def demo_lic_def)
  have i: "install demo_lic 100 ''HBYL1.body.sig'' = Inr (demo_license, ?file)"
    by (simp add: install_def e demo_decode demo_expires f text_of_def GRACE_DAYS_def)
  have n: "list_all (\<lambda>c. \<not> line_end c) ''L1''" "list_all (\<lambda>c. \<not> line_end c) ''Acme''"
    by (simp_all add: line_end_def cp_def)
  have "li_allows (status_info demo_lic 114 empty_accounts (Some ?file)) \<and>
      require_license demo_lic 114 empty_accounts (Some ?file) 2 4 \<noteq> None"
    using install_then_works [OF i, of 114 empty_accounts 2 4] n
    by (simp add: f text_of_def demo_expires limit_of_def)
  then show ?thesis using i by blast
qed

section \<open>When the trial starts\<close>

definition old_admin :: user where
  "old_admin = new_user 1 ''old'' ''h'' ''admin'' None 0"

definition young_admin :: user where
  "young_admin = new_user 2 ''new'' ''h'' ''admin'' None (40 * 86400000000)"

definition two_admins :: accounts where
  "two_admins = insert_user young_admin (insert_user old_admin empty_accounts)"

text \<open>
  The start of the trial is the day of the oldest account that still exists, so it is not fixed:
  creating accounts, and every change but a deletion, leaves it, while deleting the oldest account of
  an installation whose trial has ended starts a new trial.
\<close>

theorem trial_restarts:
  "(\<forall>u db. users db \<noteq> [] \<and> Min (u_created ` set (users db)) \<le> u_created u \<longrightarrow>
      trial_start (insert_user u db) = trial_start db) \<and>
   db_ok two_admins \<and> snd (delete_user 1 two_admins) \<and>
   \<not> li_allows (status_info demo_lic 40 two_admins None) \<and>
   li_allows (status_info demo_lic 40 (fst (delete_user 1 two_admins)) None)"
proof -
  have ins: "trial_start (insert_user u db) = trial_start db"
    if "users db \<noteq> []" "Min (u_created ` set (users db)) \<le> u_created u" for u db
  proof -
    have "Min (insert (u_created u) (u_created ` set (users db))) = Min (u_created ` set (users db))"
      using that by (subst Min_insert) (simp_all add: min_absorb2)
    then show ?thesis using that(1) by (simp add: trial_start_def insert_user_def)
  qed
  have "nocase ''old'' = ''old''" "nocase ''new'' = ''new''" by code_simp+
  then have ok: "db_ok two_admins"
    by (simp add: two_admins_def young_admin_def old_admin_def new_user_def insert_user_def
        empty_accounts_def db_ok_def users_ok_def sessions_ok_def tokens_ok_def)
  have del: "delete_user 1 two_admins = (two_admins\<lparr>users := [young_admin], sessions := [], tokens := []\<rparr>, True)"
    by (simp add: delete_user_def is_last_admin_def get_user_by_id_def fetchone_def rowcount_def
        two_admins_def young_admin_def old_admin_def new_user_def insert_user_def empty_accounts_def
        sql_delete_def)
  have "trial_start two_admins = Some 0" "trial_start (fst (delete_user 1 two_admins)) = Some 40"
    unfolding del by (simp_all add: trial_start_def two_admins_def young_admin_def old_admin_def new_user_def
        insert_user_def empty_accounts_def)
  moreover have "enforced demo_lic" by (simp add: enforced_def demo_lic_def)
  ultimately have "\<not> li_allows (status_info demo_lic 40 two_admins None)"
    "li_allows (status_info demo_lic 40 (fst (delete_user 1 two_admins)) None)"
    by (simp_all add: status_info_def installed_def trial_info_def TRIAL_DAYS_def Let_def)
  then show ?thesis using ins ok del by (intro conjI allI impI) simp_all
qed

theorem trial_restarts_witness:
  "trial_start (insert_user young_admin (insert_user old_admin empty_accounts)) =
    trial_start (insert_user old_admin empty_accounts)"
  by (rule trial_restarts [THEN conjunct1, rule_format])
    (simp add: insert_user_def empty_accounts_def old_admin_def young_admin_def new_user_def)

end
