(* ===== verification/Tenancy.thy ===== *)
theory Tenancy
  imports Accounts Secrets
begin

text \<open>
  \<^verbatim>\<open>services/tenancy.py\<close> and \<^verbatim>\<open>routes/teams.py\<close>: teams, who owns which container, who sees which, and
  the container limits. The tables are those of migration 6 (\<open>teams\<close>, \<open>container_owners\<close> and the two
  columns of \<open>users\<close>); \<open>ON DELETE SET NULL\<close> is written out in \<open>delete_team\<close> and \<open>remove_account\<close>. The
  containers that exist are an argument, as the code asks LXC for them each time.
\<close>

section \<open>Tables\<close>

record team =
  tm_id :: nat
  tm_name :: string
  tm_description :: "string option"
  tm_max :: "nat option"
  tm_created :: int

record container_owner =
  o_name :: string
  o_team :: "nat option"
  o_owner :: "nat option"
  o_created :: int

record host =
  h_id :: nat
  h_name :: string
  h_url :: string
  h_token :: "string option"
  h_fingerprint :: "string option"
  h_team :: "nat option"
  h_created :: int
  h_checked :: "int option"
  h_status :: "string option"
  h_error :: "string option"
  h_version :: "string option"

record tenancy =
  acc :: accounts
  teams :: "team list"
  next_team :: nat
  owner_rows :: "container_owner list"
  hosts :: "host list"
  next_host :: nat

definition is_unrestricted :: "user option \<Rightarrow> bool" where
  "is_unrestricted u = (case u of None \<Rightarrow> True | Some x \<Rightarrow> u_role x = ''admin'')"

definition owners :: "string list option \<Rightarrow> tenancy \<Rightarrow> (string \<times> container_owner) list" where
  "owners names st =
     map (\<lambda>r. (o_name r, r))
       (filter (\<lambda>r. case names of None \<Rightarrow> True | Some ns \<Rightarrow> o_name r \<in> set ns) (owner_rows st))"

text \<open>\<open>(recorded.get(n) or {}).get("team_id")\<close>: no row and no team are the same.\<close>

definition team_of :: "(string \<times> container_owner) list \<Rightarrow> string \<Rightarrow> nat option" where
  "team_of recorded n = (case map_of recorded n of None \<Rightarrow> None | Some r \<Rightarrow> o_team r)"

definition user_team :: "user option \<Rightarrow> nat option" where
  "user_team u = (case u of None \<Rightarrow> None | Some x \<Rightarrow> u_team x)"

definition visible :: "user option \<Rightarrow> string list \<Rightarrow> tenancy \<Rightarrow> string list" where
  "visible u names st =
     (if is_unrestricted u then names
      else let recorded = owners (Some names) st in filter (\<lambda>n. team_of recorded n = user_team u) names)"

definition same_team :: "user option \<Rightarrow> nat option \<Rightarrow> bool" where
  "same_team u t = (is_unrestricted u \<or> user_team u = t)"

definition stamp :: "user option \<Rightarrow> nat option \<times> string option" where
  "stamp u = (user_team u, case u of None \<Rightarrow> None | Some x \<Rightarrow> Some (u_name x))"

definition can_see :: "user option \<Rightarrow> string \<Rightarrow> tenancy \<Rightarrow> bool" where
  "can_see u n st = (visible u [n] st \<noteq> [])"

text \<open>
  \<open>INSERT OR REPLACE\<close> deletes the row with the same name and appends the new one. The foreign keys are
  checked (\<open>PRAGMA foreign_keys=ON\<close>); a violation closes the connection without a commit.
\<close>

definition valid_team :: "nat option \<Rightarrow> tenancy \<Rightarrow> bool" where
  "valid_team t st = (case t of None \<Rightarrow> True | Some i \<Rightarrow> i \<in> tm_id ` set (teams st))"

definition valid_owner :: "nat option \<Rightarrow> tenancy \<Rightarrow> bool" where
  "valid_owner i st = (case i of None \<Rightarrow> True | Some i \<Rightarrow> i \<in> u_id ` set (users (acc st)))"

definition put_owner :: "container_owner \<Rightarrow> container_owner list \<Rightarrow> container_owner list" where
  "put_owner r rows = sql_delete (\<lambda>x. o_name x = o_name r) rows @ [r]"

definition user_id :: "user option \<Rightarrow> nat option" where
  "user_id u = (case u of None \<Rightarrow> None | Some x \<Rightarrow> Some (u_id x))"

definition record_owner :: "int \<Rightarrow> string list \<Rightarrow> user option \<Rightarrow> tenancy \<Rightarrow> sql_error + tenancy" where
  "record_owner now names u st =
     (if names = [] then Inr st
      else if \<not> valid_team (user_team u) st \<or> \<not> valid_owner (user_id u) st then Inl IntegrityError
      else Inr (st\<lparr>owner_rows := foldl (\<lambda>rows n.
             put_owner \<lparr>o_name = n, o_team = user_team u, o_owner = user_id u, o_created = now\<rparr> rows)
             (owner_rows st) names\<rparr>))"

definition forget :: "string list \<Rightarrow> tenancy \<Rightarrow> tenancy" where
  "forget names st = st\<lparr>owner_rows := sql_delete (\<lambda>r. o_name r \<in> set names) (owner_rows st)\<rparr>"

definition assign_one :: "int \<Rightarrow> nat option \<Rightarrow> container_owner list \<Rightarrow> string \<Rightarrow> container_owner list" where
  "assign_one now t rows n =
     (if n \<in> o_name ` set rows then sql_update (\<lambda>r. o_name r = n) (\<lambda>r. r\<lparr>o_team := t\<rparr>) rows
      else rows @ [\<lparr>o_name = n, o_team = t, o_owner = None, o_created = now\<rparr>])"

definition assign :: "int \<Rightarrow> string list \<Rightarrow> nat option \<Rightarrow> tenancy \<Rightarrow> sql_error + tenancy \<times> nat" where
  "assign now names t st =
     (if names \<noteq> [] \<and> \<not> valid_team t st then Inl IntegrityError
      else Inr (st\<lparr>owner_rows := foldl (assign_one now t) (owner_rows st) names\<rparr>, length names))"

section \<open>Limits\<close>

definition get_team :: "nat \<Rightarrow> tenancy \<Rightarrow> team option" where
  "get_team i st = fetchone (\<lambda>t. tm_id t = i) (teams st)"

definition load_user :: "nat \<Rightarrow> tenancy \<Rightarrow> nat option \<times> nat option" where
  "load_user i st = (case get_user_by_id i (acc st) of None \<Rightarrow> (None, None) | Some u \<Rightarrow> (u_team u, u_max u))"

definition owned_by :: "nat \<Rightarrow> (string \<times> container_owner) list \<Rightarrow> nat" where
  "owned_by i recorded = rowcount (\<lambda>(n, r). o_owner r = Some i) recorded"

definition in_team :: "nat \<Rightarrow> (string \<times> container_owner) list \<Rightarrow> nat" where
  "in_team t recorded = rowcount (\<lambda>(n, r). o_team r = Some t) recorded"

text \<open>A limit with what is used of it and what is asked for.\<close>

definition user_refusal :: "nat option \<Rightarrow> nat \<Rightarrow> nat \<Rightarrow> http_error option" where
  "user_refusal limit mine adding = (case limit of
     None \<Rightarrow> None
   | Some m \<Rightarrow> if m < mine + adding
       then Some (HTTPError 403 (''Your limit is '' @ nat_str m @ '' containers; you have '' @ nat_str mine @
         '' and asked for '' @ nat_str adding @ '' more. Delete some, or ask an admin to raise the limit.''))
       else None)"

definition team_refusal :: "nat option \<Rightarrow> (string \<times> container_owner) list \<Rightarrow> nat \<Rightarrow> tenancy \<Rightarrow> http_error option" where
  "team_refusal team_id recorded adding st =
     (case (case team_id of None \<Rightarrow> None | Some i \<Rightarrow> get_team i st) of
        None \<Rightarrow> None
      | Some t \<Rightarrow> (case tm_max t of
          None \<Rightarrow> None
        | Some m \<Rightarrow> let used = in_team (tm_id t) recorded in
            if m < used + adding
            then Some (HTTPError 403 (''Team '' @ tm_name t @ '' is limited to '' @ nat_str m @ '' containers; it has '' @
              nat_str used @ '' and you asked for '' @ nat_str adding @ '' more.''))
            else None))"

definition check_quota :: "user option \<Rightarrow> int \<Rightarrow> string list \<Rightarrow> tenancy \<Rightarrow> http_error option" where
  "check_quota u adding existing st = (case u of None \<Rightarrow> None | Some x \<Rightarrow>
     if adding \<le> 0 then None
     else let recorded = owners (Some existing) st; (team_id, limit) = load_user (u_id x) st
       in (case user_refusal limit (owned_by (u_id x) recorded) (nat adding) of
            Some e \<Rightarrow> Some e
          | None \<Rightarrow> team_refusal team_id recorded (nat adding) st))"

definition count_key :: "nat option \<Rightarrow> (nat \<times> nat) list \<Rightarrow> (nat \<times> nat) list" where
  "count_key k m = (case k of None \<Rightarrow> m
     | Some i \<Rightarrow> AList.update i ((case map_of m i of None \<Rightarrow> 0 | Some c \<Rightarrow> c) + 1) m)"

definition usage :: "string list \<Rightarrow> tenancy \<Rightarrow> (nat \<times> nat) list \<times> (nat \<times> nat) list" where
  "usage existing st = (let recorded = owners (Some existing) st in
     (foldl (\<lambda>m (n, r). count_key (o_team r) m) [] recorded,
      foldl (\<lambda>m (n, r). count_key (o_owner r) m) [] recorded))"

section \<open>Teams\<close>

definition list_teams :: "tenancy \<Rightarrow> (team \<times> nat) list" where
  "list_teams st = map (\<lambda>t. (t, rowcount (\<lambda>u. u_team u = Some (tm_id t)) (users (acc st))))
     (sort_key (\<lambda>t. nocase (tm_name t)) (teams st))"

definition create_team :: "int \<Rightarrow> string \<Rightarrow> string option \<Rightarrow> nat option \<Rightarrow> tenancy \<Rightarrow> tenancy \<times> team option" where
  "create_team now name d m st =
     (if nocase name \<in> (nocase \<circ> tm_name) ` set (teams st) then (st, None)
      else let t = \<lparr>tm_id = next_team st, tm_name = name, tm_description = d, tm_max = m, tm_created = now\<rparr>;
               st' = st\<lparr>teams := teams st @ [t], next_team := Suc (next_team st)\<rparr>
        in (st', get_team (tm_id t) st'))"

definition update_team ::
  "nat \<Rightarrow> string \<Rightarrow> string option \<Rightarrow> nat option \<Rightarrow> tenancy \<Rightarrow> http_error + tenancy \<times> team option" where
  "update_team i name d m st =
     (if i \<in> tm_id ` set (teams st) \<and> (\<exists>t\<in>set (teams st). tm_id t \<noteq> i \<and> nocase (tm_name t) = nocase name)
      then Inl (HTTPError 409 (''A team named '' @ [CHR 0x27] @ name @ [CHR 0x27] @ '' exists''))
      else let st' = st\<lparr>teams := sql_update (\<lambda>t. tm_id t = i)
             (\<lambda>t. t\<lparr>tm_name := name, tm_description := d, tm_max := m\<rparr>) (teams st)\<rparr>
        in Inr (st', get_team i st'))"

text \<open>\<open>ON DELETE SET NULL\<close> in \<open>users\<close>, \<open>container_owners\<close> and \<open>hosts\<close>.\<close>

definition delete_team :: "nat \<Rightarrow> tenancy \<Rightarrow> tenancy \<times> team option" where
  "delete_team i st = (case get_team i st of
     None \<Rightarrow> (st, None)
   | Some t \<Rightarrow> (st\<lparr>teams := sql_delete (\<lambda>t. tm_id t = i) (teams st),
        acc := update_users (\<lambda>u. u_team u = Some i) (\<lambda>u. u\<lparr>u_team := None\<rparr>) (acc st),
        owner_rows := sql_update (\<lambda>r. o_team r = Some i) (\<lambda>r. r\<lparr>o_team := None\<rparr>) (owner_rows st),
        hosts := sql_update (\<lambda>h. h_team h = Some i) (\<lambda>h. h\<lparr>h_team := None\<rparr>) (hosts st)\<rparr>, Some t))"

definition set_user_team :: "nat \<Rightarrow> nat option \<Rightarrow> nat option \<Rightarrow> tenancy \<Rightarrow> sql_error + tenancy" where
  "set_user_team i t m st =
     (if i \<in> u_id ` set (users (acc st)) \<and> \<not> valid_team t st then Inl IntegrityError
      else Inr (st\<lparr>acc := update_users (\<lambda>u. u_id u = i) (\<lambda>u. u\<lparr>u_team := t, u_max := m\<rparr>) (acc st)\<rparr>))"

text \<open>A statement on the accounts; the owner of a container is set to NULL when its account goes.\<close>

definition account_statement :: "account_op \<Rightarrow> tenancy \<Rightarrow> tenancy" where
  "account_statement op st = (let db = exec_op op (acc st) in
     st\<lparr>acc := db, owner_rows := sql_update
        (\<lambda>r. case o_owner r of None \<Rightarrow> False | Some i \<Rightarrow> i \<notin> u_id ` set (users db)) (\<lambda>r. r\<lparr>o_owner := None\<rparr>) (owner_rows st)\<rparr>)"

section \<open>The routes for administrators\<close>

definition TEAM_NOT_FOUND :: http_error where
  "TEAM_NOT_FOUND = HTTPError 404 ''Team not found''"

definition route_create_team ::
  "int \<Rightarrow> string \<Rightarrow> string option \<Rightarrow> nat option \<Rightarrow> tenancy \<Rightarrow> tenancy \<times> (http_error + team)" where
  "route_create_team now name d m st = (case create_team now (py_strip name) d m st of
     (st', None) \<Rightarrow> (st', Inl (HTTPError 409 (''A team named '' @ [CHR 0x27] @ name @ [CHR 0x27] @ '' exists'')))
   | (st', Some t) \<Rightarrow> (st', Inr t))"

definition route_update_team ::
  "nat \<Rightarrow> string \<Rightarrow> string option \<Rightarrow> nat option \<Rightarrow> tenancy \<Rightarrow> tenancy \<times> (http_error + team)" where
  "route_update_team i name d m st = (case update_team i (py_strip name) d m st of
     Inl e \<Rightarrow> (st, Inl e)
   | Inr (st', None) \<Rightarrow> (st', Inl TEAM_NOT_FOUND)
   | Inr (st', Some t) \<Rightarrow> (st', Inr t))"

definition route_delete_team :: "nat \<Rightarrow> tenancy \<Rightarrow> tenancy \<times> (http_error + team)" where
  "route_delete_team i st = (case delete_team i st of
     (st', None) \<Rightarrow> (st', Inl TEAM_NOT_FOUND)
   | (st', Some t) \<Rightarrow> (st', Inr t))"

text \<open>The team a request names: none, an existing one, or 404.\<close>

definition requested_team :: "nat option \<Rightarrow> tenancy \<Rightarrow> http_error + team option" where
  "requested_team t st = (case t of
     None \<Rightarrow> Inr None
   | Some i \<Rightarrow> (case get_team i st of None \<Rightarrow> Inl TEAM_NOT_FOUND | Some tm \<Rightarrow> Inr (Some tm)))"

definition route_set_user_team ::
  "nat \<Rightarrow> nat option \<Rightarrow> nat option \<Rightarrow> tenancy \<Rightarrow> tenancy \<times> (http_error + unit)" where
  "route_set_user_team i t m st = (case get_user_by_id i (acc st) of
     None \<Rightarrow> (st, Inl (HTTPError 404 ''User not found''))
   | Some u \<Rightarrow> (case requested_team t st of
       Inl e \<Rightarrow> (st, Inl e)
     | Inr tm \<Rightarrow> (case set_user_team i t m st of
         Inl e \<Rightarrow> (st, Inl INTERNAL_ERROR)
       | Inr st' \<Rightarrow> (st', Inr ()))))"

definition route_assign ::
  "int \<Rightarrow> string list \<Rightarrow> nat option \<Rightarrow> string list \<Rightarrow> tenancy \<Rightarrow> tenancy \<times> (http_error + string list \<times> string list)" where
  "route_assign now existing t containers st = (case requested_team t st of
     Inl e \<Rightarrow> (st, Inl e)
   | Inr tm \<Rightarrow>
       let names = filter (\<lambda>n. n \<in> set existing) containers;
           missing = filter (\<lambda>n. n \<notin> set existing) containers
       in (case assign now names t st of
             Inl e \<Rightarrow> (st, Inl INTERNAL_ERROR)
           | Inr (st', _) \<Rightarrow> (st', Inr (names, missing))))"

section \<open>The tables stay consistent\<close>

definition tenancy_ok :: "tenancy \<Rightarrow> bool" where
  "tenancy_ok st =
     (db_ok (acc st) \<and> distinct (map tm_id (teams st)) \<and> list_all (\<lambda>t. tm_id t < next_team st) (teams st) \<and>
      distinct (map (nocase \<circ> tm_name) (teams st)) \<and> distinct (map o_name (owner_rows st)) \<and>
      list_all (\<lambda>r. valid_team (o_team r) st \<and> valid_owner (o_owner r) st) (owner_rows st) \<and>
      list_all (\<lambda>u. valid_team (u_team u) st) (users (acc st)))"

datatype tenancy_op =
    Statement account_op
  | RecordOwner int "string list" "user option"
  | Forget "string list"
  | Assign int "string list" "nat option"
  | CreateTeam int string "string option" "nat option"
  | UpdateTeam nat string "string option" "nat option"
  | DeleteTeam nat
  | SetUserTeam nat "nat option" "nat option"

definition or_same :: "'s \<Rightarrow> 'e + 's \<Rightarrow> 's" where
  "or_same s r = (case r of Inl _ \<Rightarrow> s | Inr s' \<Rightarrow> s')"

primrec exec_tenancy :: "tenancy_op \<Rightarrow> tenancy \<Rightarrow> tenancy" where
  "exec_tenancy (Statement op) st = account_statement op st"
| "exec_tenancy (RecordOwner now ns u) st = or_same st (record_owner now ns u st)"
| "exec_tenancy (Forget ns) st = forget ns st"
| "exec_tenancy (Assign now ns t) st = or_same st (map_sum id fst (assign now ns t st))"
| "exec_tenancy (CreateTeam now n d m) st = fst (create_team now n d m st)"
| "exec_tenancy (UpdateTeam i n d m) st = or_same st (map_sum id fst (update_team i n d m st))"
| "exec_tenancy (DeleteTeam i) st = fst (delete_team i st)"
| "exec_tenancy (SetUserTeam i t m) st = or_same st (set_user_team i t m st)"

text \<open>What a set of owner rows has to satisfy, given the teams and accounts.\<close>

definition rows_ok :: "nat set \<Rightarrow> nat set \<Rightarrow> container_owner list \<Rightarrow> bool" where
  "rows_ok T U rows = (distinct (map o_name rows) \<and>
     list_all (\<lambda>r. set_option (o_team r) \<subseteq> T \<and> set_option (o_owner r) \<subseteq> U) rows)"

lemma valid_set:
  "valid_team t st = (set_option t \<subseteq> tm_id ` set (teams st))"
  "valid_owner i st = (set_option i \<subseteq> u_id ` set (users (acc st)))"
  by (cases t; cases i; simp add: valid_team_def valid_owner_def)+

lemma tenancy_ok_alt:
  "tenancy_ok st \<longleftrightarrow> db_ok (acc st) \<and> distinct (map tm_id (teams st)) \<and>
    list_all (\<lambda>t. tm_id t < next_team st) (teams st) \<and> distinct (map (nocase \<circ> tm_name) (teams st)) \<and>
    rows_ok (tm_id ` set (teams st)) (u_id ` set (users (acc st))) (owner_rows st) \<and>
    list_all (\<lambda>u. set_option (u_team u) \<subseteq> tm_id ` set (teams st)) (users (acc st))"
  by (auto simp: tenancy_ok_def rows_ok_def valid_set list_all_iff)

lemma rows_ok_put:
  "rows_ok T U rows \<Longrightarrow> set_option (o_team r) \<subseteq> T \<Longrightarrow> set_option (o_owner r) \<subseteq> U \<Longrightarrow> rows_ok T U (put_owner r rows)"
  by (auto simp: rows_ok_def put_owner_def list_all_iff)

lemma rows_ok_delete: "rows_ok T U rows \<Longrightarrow> rows_ok T U (sql_delete P rows)"
  by (auto simp: rows_ok_def list_all_iff)

lemma rows_ok_update:
  assumes "rows_ok T U rows" and "\<And>r. o_name (f r) = o_name r"
    and "\<And>r. r \<in> set rows \<Longrightarrow> set_option (o_team (if P r then f r else r)) \<subseteq> T' \<and>
      set_option (o_owner (if P r then f r else r)) \<subseteq> U'"
  shows "rows_ok T' U' (sql_update P f rows)"
proof -
  have "map o_name (sql_update P f rows) = map o_name rows"
    by (rule sql_update_keeps) (simp add: assms(2))
  moreover have "list_all (\<lambda>r. set_option (o_team r) \<subseteq> T' \<and> set_option (o_owner r) \<subseteq> U') (sql_update P f rows)"
    unfolding list_all_iff set_sql_update ball_simps using assms(3) by blast
  ultimately show ?thesis using assms(1) by (simp add: rows_ok_def)
qed

lemma rows_ok_assign:
  assumes "rows_ok T U rows" and "set_option t \<subseteq> T"
  shows "rows_ok T U (foldl (assign_one now t) rows ns)"
  using assms(1)
proof (induction ns arbitrary: rows)
  case (Cons n ns)
  have "rows_ok T U (assign_one now t rows n)"
  proof (cases "n \<in> o_name ` set rows")
    case True
    moreover have "rows_ok T U (sql_update (\<lambda>r. o_name r = n) (\<lambda>r. r\<lparr>o_team := t\<rparr>) rows)"
      using Cons.prems assms(2)
      by (intro rows_ok_update [OF Cons.prems]) (simp_all add: rows_ok_def list_all_iff)
    ultimately show ?thesis by (simp add: assign_one_def)
  next
    case False
    then show ?thesis using Cons.prems assms(2) by (auto simp: assign_one_def rows_ok_def)
  qed
  then show ?case using Cons.IH by simp
qed simp

lemma rows_ok_record:
  assumes "rows_ok T U rows" and "set_option t \<subseteq> T" and "set_option i \<subseteq> U"
  shows "rows_ok T U (foldl (\<lambda>rows n. put_owner \<lparr>o_name = n, o_team = t, o_owner = i, o_created = now\<rparr> rows) rows ns)"
  using assms(1)
proof (induction ns arbitrary: rows)
  case (Cons n ns)
  then show ?case using assms(2,3) by (simp add: rows_ok_put)
qed simp

lemma rows_ok_mono: "rows_ok T U rows \<Longrightarrow> T \<subseteq> T' \<Longrightarrow> U \<subseteq> U' \<Longrightarrow> rows_ok T' U' rows"
  by (simp add: rows_ok_def list_all_iff) (meson subset_trans)

lemma exec_op_teams: "u \<in> set (users (exec_op op db)) \<Longrightarrow> u_team u = None \<or> u_team u \<in> u_team ` set (users db)"
proof (cases "users_op op")
  case True
  assume "u \<in> set (users (exec_op op db))"
  then show ?thesis using True
    by (cases op) (auto simp: create_first_user_def create_user_def create_sso_user_def update_user_password_def
      set_user_role_def delete_user_def update_user_last_login_def set_pending_totp_def enable_totp_def
      disable_totp_def claim_totp_step_def set_recovery_codes_def use_recovery_code_def Let_def
      insert_user_def new_user_def set_sql_update split: if_splits)
next
  case False
  assume "u \<in> set (users (exec_op op db))"
  then show ?thesis using users_op_frame [OF False, of db] by auto
qed

lemma statement_ok: "tenancy_ok st \<Longrightarrow> tenancy_ok (account_statement op st)"
proof -
  assume ok: "tenancy_ok st"
  let ?db = "exec_op op (acc st)"
  have rows: "rows_ok (tm_id ` set (teams st)) (u_id ` set (users (acc st))) (owner_rows st)"
    using ok by (simp add: tenancy_ok_alt)
  have o: "owner_rows (account_statement op st) = sql_update
      (\<lambda>r. case o_owner r of None \<Rightarrow> False | Some i \<Rightarrow> i \<notin> u_id ` set (users ?db)) (\<lambda>r. r\<lparr>o_owner := None\<rparr>) (owner_rows st)"
    by (simp add: account_statement_def Let_def)
  have "rows_ok (tm_id ` set (teams st)) (u_id ` set (users ?db)) (owner_rows (account_statement op st))"
    unfolding o
  proof (rule rows_ok_update [OF rows])
    show "\<And>r. r \<in> set (owner_rows st) \<Longrightarrow>
      set_option (o_team (if case o_owner r of None \<Rightarrow> False | Some i \<Rightarrow> i \<notin> u_id ` set (users ?db)
        then r\<lparr>o_owner := None\<rparr> else r)) \<subseteq> tm_id ` set (teams st) \<and>
      set_option (o_owner (if case o_owner r of None \<Rightarrow> False | Some i \<Rightarrow> i \<notin> u_id ` set (users ?db)
        then r\<lparr>o_owner := None\<rparr> else r)) \<subseteq> u_id ` set (users ?db)"
      using rows by (auto simp: rows_ok_def list_all_iff split: option.splits)
  qed simp
  moreover have "list_all (\<lambda>u. set_option (u_team u) \<subseteq> tm_id ` set (teams st)) (users ?db)"
  proof -
    have "set_option (u_team u) \<subseteq> tm_id ` set (teams st)" if u: "u \<in> set (users ?db)" for u
      using exec_op_teams [OF u] ok by (auto simp: tenancy_ok_alt list_all_iff)
    then show ?thesis by (simp add: list_all_iff)
  qed
  moreover have "db_ok ?db" using ok by (simp add: tenancy_ok_def acc.step_inv)
  ultimately show ?thesis using ok by (simp add: tenancy_ok_alt account_statement_def Let_def)
qed

lemma record_owner_ok: "tenancy_ok st \<Longrightarrow> record_owner now ns u st = Inr st' \<Longrightarrow> tenancy_ok st'"
  unfolding record_owner_def if_Inl_Inr
  by (auto simp: tenancy_ok_alt valid_set intro!: rows_ok_record split: if_splits)

lemma assign_ok: "tenancy_ok st \<Longrightarrow> assign now ns t st = Inr (st', k) \<Longrightarrow> tenancy_ok st'"
  by (cases "ns = []") (auto simp: assign_def tenancy_ok_alt valid_set intro!: rows_ok_assign)

lemma create_team_ok: "tenancy_ok st \<Longrightarrow> tenancy_ok (fst (create_team now n d m st))"
proof (cases "nocase n \<in> (nocase \<circ> tm_name) ` set (teams st)")
  case False
  assume ok: "tenancy_ok st"
  let ?t = "\<lparr>tm_id = next_team st, tm_name = n, tm_description = d, tm_max = m, tm_created = now\<rparr>"
  have lt: "\<forall>t\<in>set (teams st). tm_id t < next_team st" using ok by (simp add: tenancy_ok_def list_all_iff)
  then have new: "next_team st \<notin> tm_id ` set (teams st)" by force
  have sub: "tm_id ` set (teams st) \<subseteq> insert (next_team st) (tm_id ` set (teams st))" by blast
  have rows: "rows_ok (insert (next_team st) (tm_id ` set (teams st))) (u_id ` set (users (acc st))) (owner_rows st)"
    using ok sub by (auto simp: tenancy_ok_alt intro: rows_ok_mono)
  have us: "list_all (\<lambda>u. set_option (u_team u) \<subseteq> insert (next_team st) (tm_id ` set (teams st))) (users (acc st))"
    using ok sub by (auto simp: tenancy_ok_alt list_all_iff)
  have e: "fst (create_team now n d m st) = st\<lparr>teams := teams st @ [?t], next_team := Suc (next_team st)\<rparr>"
    using False by (simp add: create_team_def Let_def)
  show ?thesis unfolding e tenancy_ok_alt
    using ok rows us lt new False by (simp add: tenancy_ok_alt list_all_iff less_Suc_eq)
qed (simp add: create_team_def)

lemma update_team_ok:
  assumes ok: "tenancy_ok st" and up: "update_team i n d m st = Inr (st', r)"
  shows "tenancy_ok st'"
proof -
  let ?f = "\<lambda>t. t\<lparr>tm_name := n, tm_description := d, tm_max := m\<rparr>"
  let ?ts = "sql_update (\<lambda>t. tm_id t = i) ?f (teams st)"
  have st': "st' = st\<lparr>teams := ?ts\<rparr>"
    and new: "\<And>t. i \<in> tm_id ` set (teams st) \<Longrightarrow> t \<in> set (teams st) \<Longrightarrow> tm_id t \<noteq> i \<Longrightarrow> nocase (tm_name t) \<noteq> nocase n"
    using up unfolding update_team_def Let_def if_Inl_Inr by auto
  have ids: "map tm_id ?ts = map tm_id (teams st)" by (rule sql_update_keeps) simp
  then have idset: "tm_id ` set ?ts = tm_id ` set (teams st)" by (metis list.set_map)
  have d: "distinct (map tm_id (teams st))" "distinct (map (nocase \<circ> tm_name) (teams st))"
    using ok by (simp_all add: tenancy_ok_def)
  have "distinct (map (nocase \<circ> tm_name) ?ts)"
  proof (cases "i \<in> tm_id ` set (teams st)")
    case True
    show ?thesis by (rule distinct_update_key [OF d, where v = "nocase n"]) (simp_all add: new [OF True])
  next
    case False
    then have "\<forall>t\<in>set (teams st). tm_id t \<noteq> i" by auto
    then have "?ts = teams st" by (rule sql_update_none)
    then show ?thesis using d by simp
  qed
  moreover have "list_all (\<lambda>t. tm_id t < next_team st) ?ts"
    using ok by (auto simp: tenancy_ok_def list_all_iff set_sql_update)
  ultimately show ?thesis using ok d ids unfolding st' tenancy_ok_alt by (simp add: idset)
qed

lemma delete_team_ok: "tenancy_ok st \<Longrightarrow> tenancy_ok (fst (delete_team i st))"
proof (cases "get_team i st")
  case (Some t)
  assume ok: "tenancy_ok st"
  let ?T = "tm_id ` set (sql_delete (\<lambda>t. tm_id t = i) (teams st))"
  let ?rows = "sql_update (\<lambda>r. o_team r = Some i) (\<lambda>r. r\<lparr>o_team := None\<rparr>) (owner_rows st)"
  let ?us = "sql_update (\<lambda>u. u_team u = Some i) (\<lambda>u. u\<lparr>u_team := None\<rparr>) (users (acc st))"
  have rows: "rows_ok (tm_id ` set (teams st)) (u_id ` set (users (acc st))) (owner_rows st)"
    using ok by (simp add: tenancy_ok_alt)
  have "rows_ok ?T (u_id ` set (users (acc st))) ?rows"
    by (rule rows_ok_update [OF rows]) (use rows in \<open>auto simp: rows_ok_def list_all_iff\<close>)
  moreover have "u_id ` set ?us = u_id ` set (users (acc st))" by (rule update_keeps_ids) simp
  moreover have "list_all (\<lambda>u. set_option (u_team u) \<subseteq> ?T) ?us"
  proof -
    have T: "?T = tm_id ` set (teams st) - {i}" by auto
    have "\<forall>u\<in>set (users (acc st)). set_option (u_team u) \<subseteq> tm_id ` set (teams st)"
      using ok by (simp add: tenancy_ok_alt list_all_iff)
    then show ?thesis unfolding T by (auto simp: list_all_iff set_sql_update split: if_splits)
  qed
  moreover have "db_ok (update_users (\<lambda>u. u_team u = Some i) (\<lambda>u. u\<lparr>u_team := None\<rparr>) (acc st))"
    using ok by (intro update_users_ok) (simp_all add: tenancy_ok_def)
  moreover have "distinct (map tm_id (sql_delete (\<lambda>t. tm_id t = i) (teams st)))"
    "distinct (map (nocase \<circ> tm_name) (sql_delete (\<lambda>t. tm_id t = i) (teams st)))"
    using ok by (simp_all only: tenancy_ok_def distinct_map_sql_delete)
  ultimately show ?thesis using ok by (simp add: delete_team_def Some tenancy_ok_alt list_all_iff)
qed (simp add: delete_team_def)

lemma set_user_team_ok: "tenancy_ok st \<Longrightarrow> set_user_team i t m st = Inr st' \<Longrightarrow> tenancy_ok st'"
proof -
  assume ok: "tenancy_ok st" and e: "set_user_team i t m st = Inr st'"
  let ?us = "sql_update (\<lambda>u. u_id u = i) (\<lambda>u. u\<lparr>u_team := t, u_max := m\<rparr>) (users (acc st))"
  have st': "st' = st\<lparr>acc := update_users (\<lambda>u. u_id u = i) (\<lambda>u. u\<lparr>u_team := t, u_max := m\<rparr>) (acc st)\<rparr>"
    and v: "i \<in> u_id ` set (users (acc st)) \<Longrightarrow> set_option t \<subseteq> tm_id ` set (teams st)"
    using e by (auto simp: set_user_team_def valid_set split: if_splits)
  have "u_id ` set ?us = u_id ` set (users (acc st))" by (rule update_keeps_ids) simp
  moreover have "list_all (\<lambda>u. set_option (u_team u) \<subseteq> tm_id ` set (teams st)) ?us"
    using ok v by (auto simp: tenancy_ok_alt list_all_iff set_sql_update split: if_splits)
  moreover have "db_ok (acc st')" unfolding st' using ok
    by (simp, intro update_users_ok) (simp_all add: tenancy_ok_def)
  ultimately show ?thesis using ok by (simp add: st' tenancy_ok_alt)
qed

lemma forget_ok: "tenancy_ok st \<Longrightarrow> tenancy_ok (forget ns st)"
  by (simp add: tenancy_ok_alt forget_def rows_ok_delete)

interpretation tenants: op_system exec_tenancy tenancy_ok
proof
  fix st op
  assume ok: "tenancy_ok st"
  show "tenancy_ok (exec_tenancy op st)"
  proof (cases op)
    case (Assign now ns t)
    then show ?thesis using ok assign_ok by (cases "assign now ns t st") (auto simp: or_same_def)
  next
    case (UpdateTeam i n d m)
    then show ?thesis using ok update_team_ok by (cases "update_team i n d m st") (auto simp: or_same_def)
  qed (use ok in \<open>auto simp: or_same_def statement_ok forget_ok create_team_ok delete_team_ok
      intro: record_owner_ok set_user_team_ok split: sum.splits\<close>)
qed

text \<open>
  C13: whatever statements on teams, limits, containers and accounts run, in any order and failing or
  not, the tables stay consistent: team ids and names (ignoring case) are unique, every container has
  at most one recorded owner, and no container or account names a team that is gone, nor a container
  an account that is gone.
\<close>

theorem tenancy_consistent: "tenancy_ok st \<Longrightarrow> tenancy_ok (run_ops exec_tenancy ops st)"
  by (rule tenants.run_inv)

definition empty_tenancy :: tenancy where
  "empty_tenancy = \<lparr>acc = demo_db, teams = [], next_team = 1, owner_rows = [], hosts = [], next_host = 1\<rparr>"

lemma empty_tenancy_ok: "tenancy_ok empty_tenancy"
  using demo_db_ok by (simp add: empty_tenancy_def tenancy_ok_def valid_team_def demo_db_def insert_user_def
      demo_user_def new_user_def empty_accounts_def)

theorem tenancy_consistent_witness:
  "tenancy_ok (run_ops exec_tenancy
    [CreateTeam 0 ''red'' None (Some 2), SetUserTeam 1 (Some 1) None, Assign 0 [''c1''] (Some 1), DeleteTeam 1] empty_tenancy)"
  by (rule tenancy_consistent [OF empty_tenancy_ok])

section \<open>Who sees what\<close>

lemma map_of_owners: "map_of (owners (Some names) st) n =
    (if n \<in> set names then map_of (owners None st) n else None)"
proof -
  have "map_of (map (\<lambda>r. (o_name r, r)) (filter (\<lambda>r. o_name r \<in> S) rows)) n =
      (if n \<in> S then map_of (map (\<lambda>r. (o_name r, r)) rows) n else None)" for S and rows :: "container_owner list"
    by (induction rows) auto
  then show ?thesis by (simp add: owners_def)
qed

text \<open>The team a container belongs to.\<close>

definition team_of_container :: "string \<Rightarrow> tenancy \<Rightarrow> nat option" where
  "team_of_container n st = team_of (owners None st) n"

lemma visible_alt:
  "visible u names st = filter (\<lambda>n. is_unrestricted u \<or> team_of_container n st = user_team u) names"
  by (auto simp: visible_def Let_def team_of_def team_of_container_def map_of_owners intro!: filter_cong)

lemma can_see_alt: "can_see u n st \<longleftrightarrow> is_unrestricted u \<or> team_of_container n st = user_team u"
  by (simp add: can_see_def visible_alt)

lemma map_of_put_owner:
  "map_of (map (\<lambda>r. (o_name r, r)) (put_owner r rows)) n =
    (if n = o_name r then Some r else map_of (map (\<lambda>r. (o_name r, r)) rows) n)"
  by (induction rows) (auto simp: put_owner_def sql_delete_def map_add_def split: option.splits)

lemma team_recorded:
  assumes "record_owner now ns u st = Inr st'"
  shows "team_of_container n st' = (if n \<in> set ns then user_team u else team_of_container n st)"
proof -
  let ?mk = "\<lambda>n. \<lparr>o_name = n, o_team = user_team u, o_owner = user_id u, o_created = now\<rparr>"
  have "map_of (map (\<lambda>r. (o_name r, r)) (foldl (\<lambda>rows n. put_owner (?mk n) rows) rows ns)) n =
      (if n \<in> set ns then Some (?mk n) else map_of (map (\<lambda>r. (o_name r, r)) rows) n)" for rows
    by (induction ns arbitrary: rows) (auto simp: map_of_put_owner)
  then show ?thesis using assms
    by (auto simp: record_owner_def team_of_container_def team_of_def owners_def split: if_splits)
qed

lemma team_deleted:
  assumes "get_team i st = Some t"
  shows "team_of_container n (fst (delete_team i st)) =
    (if team_of_container n st = Some i then None else team_of_container n st)"
proof -
  have "team_of (map (\<lambda>r. (o_name r, r)) (sql_update (\<lambda>r. o_team r = Some i) (\<lambda>r. r\<lparr>o_team := None\<rparr>) rows)) n =
      (if team_of (map (\<lambda>r. (o_name r, r)) rows) n = Some i then None else team_of (map (\<lambda>r. (o_name r, r)) rows) n)" for rows
    by (induction rows) (auto simp: team_of_def sql_update_def)
  then show ?thesis using assms by (simp add: delete_team_def team_of_container_def owners_def)
qed

text \<open>
  C14: teams are isolated. Someone who is not an administrator sees, in the given order, exactly the
  containers of their own team (those without a team when they have none), so people of different
  teams see disjoint sets. New containers are seen by the team of the user they are recorded for and
  all others are seen as before. When a team is deleted its containers are seen by exactly those who
  have no team.
\<close>

theorem team_isolation:
  assumes "\<not> is_unrestricted u"
  shows "visible u names st = filter (\<lambda>n. team_of_container n st = user_team u) names \<and>
    (is_unrestricted v \<longrightarrow> visible v names st = names) \<and>
    (\<not> is_unrestricted v \<longrightarrow> user_team v \<noteq> user_team u \<longrightarrow> set (visible u names st) \<inter> set (visible v names st) = {}) \<and>
    (record_owner now new v st = Inr st' \<longrightarrow>
      can_see u n st' = (if n \<in> set new then user_team u = user_team v else can_see u n st)) \<and>
    (get_team i st = Some t \<longrightarrow> team_of_container n st = Some i \<longrightarrow>
      can_see u n (fst (delete_team i st)) = (user_team u = None))"
  using assms by (auto simp: visible_alt can_see_alt team_recorded team_deleted)

definition demo_op :: user where
  "demo_op = (new_user 2 ''bob'' ''h'' ''operator'' None 0)\<lparr>u_team := Some 1, u_max := Some 2\<rparr>"

definition demo_tenancy :: tenancy where
  "demo_tenancy = \<lparr>acc = insert_user demo_op demo_db,
     teams = [\<lparr>tm_id = 1, tm_name = ''red'', tm_description = None, tm_max = Some 3, tm_created = 0\<rparr>],
     next_team = 2, owner_rows = [], hosts = [], next_host = 1\<rparr>"

theorem team_isolation_witness:
  "\<not> can_see (Some demo_op) ''c'' demo_tenancy \<and>
   (\<exists>st'. record_owner 0 [''c''] (Some demo_op) demo_tenancy = Inr st' \<and> can_see (Some demo_op) ''c'' st')"
proof -
  have u: "\<not> is_unrestricted (Some demo_op)" "user_team (Some demo_op) = Some 1"
    by (simp_all add: is_unrestricted_def user_team_def demo_op_def new_user_def)
  have n: "team_of_container ''c'' demo_tenancy = None"
    by (simp add: team_of_container_def team_of_def owners_def demo_tenancy_def)
  have "valid_team (Some 1) demo_tenancy" "valid_owner (user_id (Some demo_op)) demo_tenancy"
    by (simp_all add: valid_team_def valid_owner_def user_id_def demo_tenancy_def demo_op_def new_user_def insert_user_def)
  then obtain st' where r: "record_owner 0 [''c''] (Some demo_op) demo_tenancy = Inr st'"
    using u by (simp add: record_owner_def)
  have "can_see (Some demo_op) ''c'' st'"
    using team_isolation [OF u(1), where v = "Some demo_op" and new = "[''c'']" and n = "''c''" and st = demo_tenancy] r by auto
  moreover have "\<not> can_see (Some demo_op) ''c'' demo_tenancy" using u n by (simp add: can_see_alt)
  ultimately show ?thesis using r by blast
qed

section \<open>The limits\<close>

lemma rows_recorded:
  assumes "distinct ns"
  shows "foldl (\<lambda>rows n. put_owner \<lparr>o_name = n, o_team = t, o_owner = i, o_created = now\<rparr> rows) rows ns =
    sql_delete (\<lambda>r. o_name r \<in> set ns) rows @ map (\<lambda>n. \<lparr>o_name = n, o_team = t, o_owner = i, o_created = now\<rparr>) ns"
  using assms
proof (induction ns arbitrary: rows)
  case (Cons n ns)
  then show ?case by (simp add: put_owner_def sql_delete_def)
qed (simp add: sql_delete_def)

lemma owners_recorded:
  assumes "record_owner now ns u st = Inr st'" and "distinct ns" and "set ns \<inter> set existing = {}" and "ns \<noteq> []"
  shows "owners (Some (existing @ ns)) st' = owners (Some existing) st @
      map (\<lambda>n. (n, \<lparr>o_name = n, o_team = user_team u, o_owner = user_id u, o_created = now\<rparr>)) ns"
    "owners (Some existing) st' = owners (Some existing) st"
    "acc st' = acc st" "teams st' = teams st"
proof -
  let ?mk = "\<lambda>n. \<lparr>o_name = n, o_team = user_team u, o_owner = user_id u, o_created = now\<rparr>"
  have st': "st' = st\<lparr>owner_rows := sql_delete (\<lambda>r. o_name r \<in> set ns) (owner_rows st) @ map ?mk ns\<rparr>"
    using assms by (simp add: record_owner_def rows_recorded split: if_splits)
  have "filter (\<lambda>r. o_name r \<in> set (existing @ ns)) (sql_delete (\<lambda>r. o_name r \<in> set ns) (owner_rows st)) =
      filter (\<lambda>r. o_name r \<in> set existing) (owner_rows st)"
    using assms(3) by (auto simp: sql_delete_def intro!: filter_cong)
  then show "owners (Some (existing @ ns)) st' = owners (Some existing) st @ map (\<lambda>n. (n, ?mk n)) ns"
    by (simp add: st' owners_def filter_map comp_def)
  have "filter (\<lambda>r. o_name r \<in> set existing) (sql_delete (\<lambda>r. o_name r \<in> set ns) (owner_rows st)) =
      filter (\<lambda>r. o_name r \<in> set existing) (owner_rows st)"
    using assms(3) by (auto simp: sql_delete_def intro!: filter_cong)
  moreover have "filter (\<lambda>n. n \<in> set existing) ns = []" using assms(3) by (auto simp: filter_empty_conv)
  ultimately show "owners (Some existing) st' = owners (Some existing) st"
    by (simp add: st' owners_def filter_map comp_def)
qed (use assms in \<open>auto simp: record_owner_def split: if_splits\<close>)

text \<open>The team's limit, for a user with a team.\<close>

definition team_limit :: "user \<Rightarrow> tenancy \<Rightarrow> (nat \<times> nat) option" where
  "team_limit x st = (case (case u_team x of None \<Rightarrow> None | Some i \<Rightarrow> get_team i st) of
     None \<Rightarrow> None | Some t \<Rightarrow> map_option (\<lambda>m. (tm_id t, m)) (tm_max t))"

lemma check_quota_None:
  assumes "get_user_by_id (u_id x) (acc st) = Some x" and "0 < k"
  shows "check_quota (Some x) (int k) existing st = None \<longleftrightarrow>
    (\<forall>m. u_max x = Some m \<longrightarrow> owned_by (u_id x) (owners (Some existing) st) + k \<le> m) \<and>
    (\<forall>i m. team_limit x st = Some (i, m) \<longrightarrow> in_team i (owners (Some existing) st) + k \<le> m)"
  using assms
  by (auto simp: check_quota_def load_user_def Let_def user_refusal_def team_refusal_def team_limit_def not_less
      split: option.splits)

text \<open>
  The limits are kept. For a request for new containers, none of which exists, the check lets the
  request through exactly when, once they are recorded and exist, the user owns no more containers than
  their limit and their team has no more than its own.
\<close>

theorem quota_kept:
  assumes "tenancy_ok st" and "get_user_by_id (u_id x) (acc st) = Some x"
    and "ns \<noteq> []" and "distinct ns" and "set ns \<inter> set existing = {}"
    and "record_owner now ns (Some x) st = Inr st'"
  shows "check_quota (Some x) (int (length ns)) existing st = None \<longleftrightarrow>
    (\<forall>m. u_max x = Some m \<longrightarrow> owned_by (u_id x) (owners (Some (existing @ ns)) st') \<le> m) \<and>
    (\<forall>i m. team_limit x st' = Some (i, m) \<longrightarrow> in_team i (owners (Some (existing @ ns)) st') \<le> m)"
proof -
  note o = owners_recorded [OF assms(6,4,5,3)]
  have "owned_by (u_id x) (owners (Some (existing @ ns)) st') = owned_by (u_id x) (owners (Some existing) st) + length ns"
    unfolding o owned_by_def rowcount_def by (simp add: filter_map comp_def user_id_def)
  moreover have "in_team i (owners (Some (existing @ ns)) st') = in_team i (owners (Some existing) st) + length ns"
    if "team_limit x st = Some (i, m)" for i m
  proof -
    have "u_team x = Some i"
      using that fetchone_Some by (fastforce simp: team_limit_def get_team_def split: option.splits)
    then show ?thesis unfolding o in_team_def rowcount_def by (simp add: filter_map comp_def user_team_def)
  qed
  moreover have "team_limit x st' = team_limit x st" by (simp add: team_limit_def get_team_def o cong: option.case_cong)
  ultimately show ?thesis using check_quota_None [OF assms(2), of "length ns" existing] assms(3) by auto
qed

lemma demo_tenancy_facts:
  "tenancy_ok demo_tenancy" "get_user_by_id 2 (acc demo_tenancy) = Some demo_op"
  "u_id demo_op = 2" "u_max demo_op = Some 2" "u_team demo_op = Some 1" "user_team (Some demo_op) = Some 1"
  "get_team 1 demo_tenancy = Some (hd (teams demo_tenancy))" "owner_rows demo_tenancy = []"
proof -
  have "nocase ''ann'' = ''ann''" "nocase ''bob'' = ''bob''" by code_simp+
  then show "tenancy_ok demo_tenancy"
    by (simp add: demo_tenancy_def tenancy_ok_def valid_team_def demo_db_def insert_user_def demo_op_def
      demo_user_def new_user_def empty_accounts_def db_ok_def users_ok_def sessions_ok_def tokens_ok_def)
qed (simp_all add: demo_tenancy_def demo_op_def new_user_def get_user_by_id_def fetchone_def insert_user_def
    demo_db_def demo_user_def empty_accounts_def user_team_def get_team_def)

lemma demo_record:
  assumes "st = demo_tenancy \<or> (\<exists>rows. st = demo_tenancy\<lparr>owner_rows := rows\<rparr>)" and "ns \<noteq> []"
  shows "\<exists>rows. record_owner now ns (Some demo_op) st = Inr (demo_tenancy\<lparr>owner_rows := rows\<rparr>)"
proof -
  have "valid_team (Some 1) demo_tenancy" "valid_owner (Some 2) demo_tenancy"
    by (simp_all add: valid_team_def valid_owner_def demo_tenancy_def demo_op_def new_user_def insert_user_def)
  then show ?thesis using assms demo_tenancy_facts
    by (auto simp: record_owner_def user_id_def valid_team_def valid_owner_def)
qed

theorem quota_kept_witness:
  "check_quota (Some demo_op) 2 [] demo_tenancy = None \<and> check_quota (Some demo_op) 3 [] demo_tenancy \<noteq> None \<and>
   (\<exists>st'. record_owner 0 [''a'', ''b''] (Some demo_op) demo_tenancy = Inr st' \<and>
      owned_by 2 (owners (Some [''a'', ''b'']) st') \<le> 2)"
proof -
  note f = demo_tenancy_facts
  have q: "check_quota (Some demo_op) 2 [] demo_tenancy = None" "check_quota (Some demo_op) 3 [] demo_tenancy \<noteq> None"
    using check_quota_None [of demo_op demo_tenancy 2 "[]"] check_quota_None [of demo_op demo_tenancy 3 "[]"] f
    by (auto simp: owned_by_def in_team_def rowcount_def owners_def team_limit_def) (simp_all add: demo_tenancy_def)
  obtain st' where r: "record_owner 0 [''a'', ''b''] (Some demo_op) demo_tenancy = Inr st'"
    using demo_record [of demo_tenancy "[''a'', ''b'']" 0] by auto
  have "owned_by 2 (owners (Some [''a'', ''b'']) st') \<le> 2"
    using quota_kept [OF f(1) _ _ _ _ r, of "[]"] q(1) f by simp
  then show ?thesis using q r by blast
qed

text \<open>
  The limits are not reserved. Containers that are recorded but do not exist yet (a deployment still
  running) do not count: another check gives the same answer as before they were recorded. So two
  requests that overlap can both be let through and together pass the limit.
\<close>

theorem quota_not_reserved:
  assumes "record_owner now ns u st = Inr st'" and "distinct ns" and "set ns \<inter> set existing = {}" and "ns \<noteq> []"
  shows "check_quota v k existing st' = check_quota v k existing st"
proof -
  note o = owners_recorded [OF assms]
  have "load_user i st' = load_user i st" "team_refusal t rec k' st' = team_refusal t rec k' st" for i t rec k'
    by (simp_all add: load_user_def o team_refusal_def get_team_def cong: option.case_cong)
  then show ?thesis by (cases v; cases "k \<le> 0") (simp_all add: check_quota_def o(2) Let_def cong: option.case_cong)
qed

theorem quota_not_reserved_witness:
  "\<exists>st1 st2. check_quota (Some demo_op) 2 [] demo_tenancy = None \<and>
     record_owner 0 [''a'', ''b''] (Some demo_op) demo_tenancy = Inr st1 \<and>
     check_quota (Some demo_op) 2 [] st1 = None \<and>
     record_owner 0 [''c'', ''d''] (Some demo_op) st1 = Inr st2 \<and> u_max demo_op = Some 2 \<and>
     owned_by 2 (owners (Some [''a'', ''b'', ''c'', ''d'']) st2) = 4"
proof -
  note f = demo_tenancy_facts
  have q: "check_quota (Some demo_op) 2 [] demo_tenancy = None"
    using check_quota_None [of demo_op demo_tenancy 2 "[]"] f
    by (auto simp: owned_by_def in_team_def rowcount_def owners_def team_limit_def) (simp_all add: demo_tenancy_def)
  obtain rows where r1: "record_owner 0 [''a'', ''b''] (Some demo_op) demo_tenancy = Inr (demo_tenancy\<lparr>owner_rows := rows\<rparr>)"
    using demo_record [of demo_tenancy "[''a'', ''b'']" 0] by auto
  obtain rows2 where r2: "record_owner 0 [''c'', ''d''] (Some demo_op) (demo_tenancy\<lparr>owner_rows := rows\<rparr>) =
      Inr (demo_tenancy\<lparr>owner_rows := rows2\<rparr>)"
    using demo_record [of "demo_tenancy\<lparr>owner_rows := rows\<rparr>" "[''c'', ''d'']" 0] by auto
  have "check_quota (Some demo_op) 2 [] (demo_tenancy\<lparr>owner_rows := rows\<rparr>) = None"
    using quota_not_reserved [OF r1, of "[]"] q by simp
  moreover have "owners (Some ([''a'', ''b''] @ [''c'', ''d''])) (demo_tenancy\<lparr>owner_rows := rows2\<rparr>) =
      owners (Some [''a'', ''b'']) (demo_tenancy\<lparr>owner_rows := rows\<rparr>) @
      map (\<lambda>n. (n, \<lparr>o_name = n, o_team = Some 1, o_owner = Some 2, o_created = 0\<rparr>)) [''c'', ''d'']"
    using owners_recorded(1) [OF r2, of "[''a'', ''b'']"] f by (simp add: user_id_def)
  moreover have "owners (Some ([] @ [''a'', ''b''])) (demo_tenancy\<lparr>owner_rows := rows\<rparr>) =
      owners (Some []) demo_tenancy @
      map (\<lambda>n. (n, \<lparr>o_name = n, o_team = Some 1, o_owner = Some 2, o_created = 0\<rparr>)) [''a'', ''b'']"
    using owners_recorded(1) [OF r1, of "[]"] f by (simp add: user_id_def)
  ultimately show ?thesis using q r1 r2 f
    by (intro exI [of _ "demo_tenancy\<lparr>owner_rows := rows\<rparr>"] exI [of _ "demo_tenancy\<lparr>owner_rows := rows2\<rparr>"])
      (simp add: owned_by_def rowcount_def owners_def)
qed

section \<open>Usage\<close>

text \<open>The counts of the Teams page are those the limits are checked with.\<close>

lemma count_key_fold:
  "map_of (foldl (\<lambda>m (n, r). count_key (key r) m) m rec) i =
    (let c = rowcount (\<lambda>(n, r). key r = Some i) rec in
     case map_of m i of None \<Rightarrow> (if c = 0 then None else Some c) | Some k \<Rightarrow> Some (k + c))"
proof (induction rec arbitrary: m)
  case (Cons x rec)
  then show ?case
    by (cases x) (auto simp: count_key_def rowcount_def Let_def update_conv' split: option.splits)
qed (simp add: rowcount_def split: option.splits)

lemma usage_counts:
  "map_of (fst (usage existing st)) i = (let c = in_team i (owners (Some existing) st) in if c = 0 then None else Some c)"
  "map_of (snd (usage existing st)) i = (let c = owned_by i (owners (Some existing) st) in if c = 0 then None else Some c)"
  by (simp_all add: usage_def count_key_fold in_team_def owned_by_def Let_def)

end
