(* ===== verification/Alerts.thy ===== *)
theory Alerts
  imports Licensing Systems "HOL-Library.Product_Lexorder"
begin

text \<open>
  \<^verbatim>\<open>services/alerts.py\<close>: the active alerts (a dictionary in insertion order), the notifications sent when
  they start, change severity or clear, the periodic check, and the results of deployments and backups.
  Each operation returns the new dictionary and the notifications it sends. The formatted numbers in the
  messages about disk space are an argument, as the free space is.
\<close>

section \<open>The alert manager\<close>

record alert =
  an_name :: string
  an_severity :: string
  an_message :: string
  an_target :: "string option"
  an_since :: int
  an_details :: "(string \<times> json) list"

type_synonym active = "(string \<times> alert) list"

definition LABELS :: "(string \<times> string) list" where
  "LABELS = [(''disk_low'', ''Low disk space''), (''lxc_unavailable'', ''LXC unavailable''),
     (''backup_failed'', ''Backup failed''), (''deploy_failed'', ''Deployment failed''),
     (''host_unreachable'', ''Host unreachable''), (''license'', ''License'')]"

definition label_of :: "string \<Rightarrow> string" where
  "label_of name = (case map_of LABELS name of None \<Rightarrow> name | Some l \<Rightarrow> l)"

text \<open>\<open>f"{name}:{target}" if target else name\<close>.\<close>

definition key_of :: "string \<Rightarrow> string option \<Rightarrow> string" where
  "key_of name target = (case target of None \<Rightarrow> name | Some t \<Rightarrow> if t = [] then name else name @ '':'' @ t)"

definition alert_key :: "alert \<Rightarrow> string" where
  "alert_key a = key_of (an_name a) (an_target a)"

record notification =
  nt_event :: string
  nt_title :: string
  nt_text :: string
  nt_level :: string
  nt_fields :: "(string \<times> json) list"
  nt_link :: string

definition plain :: "json \<Rightarrow> bool" where
  "plain v = (case v of JObject _ \<Rightarrow> False | JArray _ \<Rightarrow> False | _ \<Rightarrow> True)"

definition notify :: "string \<Rightarrow> alert \<Rightarrow> string option \<Rightarrow> notification" where
  "notify event a link =
     (let firing = (event = ''alert.firing'');
          title = label_of (an_name a) @ (case an_target a of None \<Rightarrow> [] | Some t \<Rightarrow>
             if t = [] then [] else '' ('' @ t @ '')'')
      in \<lparr>nt_event = event, nt_title = (if firing then title else ''Resolved: '' @ title),
          nt_text = an_message a,
          nt_level = (if firing then (if an_severity a = ''critical'' then ''error'' else ''warning'') else ''success''),
          nt_fields = filter (\<lambda>(k, v). plain v) (an_details a),
          nt_link = (case link of None \<Rightarrow> ''/monitoring'' | Some l \<Rightarrow> if l = [] then ''/monitoring'' else l)\<rparr>)"

definition fire ::
  "int \<Rightarrow> string \<Rightarrow> string \<Rightarrow> string \<Rightarrow> string option \<Rightarrow> (string \<times> json) list \<Rightarrow> string option \<Rightarrow> active \<Rightarrow>
   active \<times> notification list" where
  "fire now name severity message target details link st =
     (let new = \<lparr>an_name = name, an_severity = severity, an_message = message, an_target = target,
                an_since = now, an_details = details\<rparr>;
          previous = map_of st (alert_key new);
          a = (case previous of None \<Rightarrow> new | Some p \<Rightarrow> new\<lparr>an_since := an_since p\<rparr>)
      in (AList.update (alert_key a) a st,
          if (case previous of None \<Rightarrow> True | Some p \<Rightarrow> an_severity p \<noteq> severity)
          then [notify ''alert.firing'' a link] else []))"

definition clear :: "string \<Rightarrow> string option \<Rightarrow> string option \<Rightarrow> active \<Rightarrow> active \<times> notification list" where
  "clear name target message st =
     (let key = key_of name target in
      case map_of st key of
        None \<Rightarrow> (st, [])
      | Some a \<Rightarrow> (AList.delete key st,
          [notify ''alert.resolved''
             (a\<lparr>an_message := (case message of None \<Rightarrow> label_of name @ '' cleared'' | Some m \<Rightarrow>
                  if m = [] then label_of name @ '' cleared'' else m)\<rparr>) None]))"

definition active_list :: "active \<Rightarrow> (alert \<times> string) list" where
  "active_list st = map (\<lambda>a. (a, label_of (an_name a)))
     (sort_key (\<lambda>a. (an_severity a \<noteq> ''critical'', an_since a)) (map snd st))"

text \<open>One step after another, with all the notifications.\<close>

definition and_then ::
  "(active \<Rightarrow> active \<times> notification list) \<Rightarrow> (active \<Rightarrow> active \<times> notification list) \<Rightarrow> active \<Rightarrow> active \<times> notification list" where
  "and_then f g st = (case f st of (s1, n1) \<Rightarrow> case g s1 of (s2, n2) \<Rightarrow> (s2, n1 @ n2))"

section \<open>What sets and clears alerts\<close>

record disk =
  dk_target :: string
  dk_free :: int
  dk_total :: int
  dk_path :: string

definition percent_free :: "disk \<Rightarrow> rat" where
  "percent_free d = (if dk_total d \<noteq> 0 then of_int (dk_free d * 100) / of_int (dk_total d) else 100)"

definition check_disk ::
  "int \<Rightarrow> rat \<Rightarrow> (disk \<Rightarrow> string \<times> (string \<times> json) list) \<Rightarrow> string \<Rightarrow> disk \<Rightarrow> active \<Rightarrow> active \<times> notification list" where
  "check_disk now threshold describe back d st =
     (if threshold \<noteq> 0 \<and> percent_free d < threshold
      then let severity = (if percent_free d < threshold / 2 then ''critical'' else ''warning'')
        in fire now ''disk_low'' severity (fst (describe d)) (Some (dk_target d)) (snd (describe d)) None st
      else clear ''disk_low'' (Some (dk_target d))
        (Some (''Disk space for '' @ dk_target d @ '' is back above '' @ back @ ''%'')) st)"

definition check_disks ::
  "int \<Rightarrow> rat \<Rightarrow> (disk \<Rightarrow> string \<times> (string \<times> json) list) \<Rightarrow> string \<Rightarrow> disk list \<Rightarrow> active \<Rightarrow> active \<times> notification list" where
  "check_disks now threshold describe back ds =
     foldr (\<lambda>d. and_then (check_disk now threshold describe back d)) ds (\<lambda>st. (st, []))"

text \<open>\<open>None\<close>: LXC answers; \<open>Some e\<close>: the exception's text.\<close>

definition check_lxc :: "int \<Rightarrow> string option \<Rightarrow> active \<Rightarrow> active \<times> notification list" where
  "check_lxc now problem st = (case problem of
     Some e \<Rightarrow> fire now ''lxc_unavailable'' ''critical'' (''Container operations can'' @ [CHR 0x27] @ ''t reach LXC: '' @ e)
        None [(''error'', JText (take 300 e))] None st
   | None \<Rightarrow> clear ''lxc_unavailable'' None (Some ''LXC is reachable again'') st)"

definition apply_license :: "int \<Rightarrow> lic_alert \<Rightarrow> active \<Rightarrow> active \<times> notification list" where
  "apply_license now a st = (case a of
     FireCritical m \<Rightarrow> fire now ''license'' ''critical'' m None [] (Some ''/license'') st
   | FireWarning m \<Rightarrow> fire now ''license'' ''warning'' m None [] (Some ''/license'') st
   | ClearAlert m \<Rightarrow> clear ''license'' None (Some m) st
   | NoAlert \<Rightarrow> (st, []))"

definition deployment_finished ::
  "int \<Rightarrow> string \<Rightarrow> nat \<Rightarrow> nat \<Rightarrow> nat \<Rightarrow> string option \<Rightarrow> active \<Rightarrow> active \<times> notification list" where
  "deployment_finished now d requested successful failed error st =
     (if failed \<noteq> 0 \<or> (error \<noteq> None \<and> error \<noteq> Some [])
      then fire now ''deploy_failed'' (if successful = 0 then ''critical'' else ''warning'')
        (''Deployment '' @ d @ '': '' @ nat_str failed @ '' of '' @ nat_str requested @ '' containers failed'' @
          (case error of None \<Rightarrow> [] | Some e \<Rightarrow> if e = [] then [] else '' ('' @ e @ '')''))
        None [(''deployment_id'', JText d), (''requested'', JInt (int requested)), (''successful'', JInt (int successful)),
              (''failed'', JInt (int failed))] (Some ''/deploy'') st
      else clear ''deploy_failed'' None
        (Some (''Deployment '' @ d @ '' succeeded ('' @ nat_str successful @ '' containers)'')) st)"

definition backup_result :: "int \<Rightarrow> string option \<Rightarrow> active \<Rightarrow> active \<times> notification list" where
  "backup_result now error st =
     (case error of
        Some (c # e) \<Rightarrow> fire now ''backup_failed'' ''critical'' (''The scheduled backup failed: '' @ c # e)
          None [(''error'', JText (take 300 (c # e)))] (Some ''/account'') st
      | _ \<Rightarrow> clear ''backup_failed'' None (Some ''Scheduled backups work again'') st)"

section \<open>What the notifications tell\<close>

datatype alert_op =
    Fire int string string string "string option" "(string \<times> json) list" "string option"
  | Clear string "string option" "string option"

primrec exec_alert :: "alert_op \<Rightarrow> active \<Rightarrow> active \<times> notification list" where
  "exec_alert (Fire now n s m t d l) st = fire now n s m t d l st"
| "exec_alert (Clear n t m) st = clear n t m st"

definition alert_step :: "alert_op \<Rightarrow> active \<times> notification list \<Rightarrow> active \<times> notification list" where
  "alert_step op s = (case exec_alert op (fst s) of (st', ns) \<Rightarrow> (st', snd s @ ns))"

text \<open>
  Someone who reads only what is sent: which titles are on, and at which level. The title of a
  resolved alert starts with \<open>Resolved: \<close>, 10 characters.
\<close>

definition hear :: "(string \<rightharpoonup> string) \<Rightarrow> notification \<Rightarrow> string \<rightharpoonup> string" where
  "hear known n = (if nt_event n = ''alert.firing'' then known(nt_title n \<mapsto> nt_level n) else known(drop 10 (nt_title n) := None))"

text \<open>The alerts there are, and the title each is announced by, written out.\<close>

definition ALERT_TITLES :: "(string \<times> string) list" where
  "ALERT_TITLES = [(''disk_low'', ''Low disk space''), (''lxc_unavailable'', ''LXC unavailable''), (''backup_failed'', ''Backup failed''),
     (''deploy_failed'', ''Deployment failed''), (''host_unreachable'', ''Host unreachable''), (''license'', ''License'')]"

definition announced :: "string \<Rightarrow> string option \<Rightarrow> string" where
  "announced title target = (if target = None \<or> target = Some [] then title else title @ '' ('' @ the target @ '')'')"

primrec known_op :: "alert_op \<Rightarrow> bool" where
  "known_op (Fire now n s m t d l) = (n \<in> fst ` set ALERT_TITLES)"
| "known_op (Clear n t m) = (n \<in> fst ` set ALERT_TITLES)"

definition level_of :: "alert \<Rightarrow> string" where
  "level_of a = (if an_severity a = ''critical'' then ''error'' else ''warning'')"

definition alerts_ok :: "active \<Rightarrow> bool" where
  "alerts_ok st = (distinct (map fst st) \<and> (\<forall>k a. map_of st k = Some a \<longrightarrow> alert_key a = k))"

lemma alerts_ok_fire: "alerts_ok st \<Longrightarrow> alerts_ok (fst (fire now n sev m t d l st))"
  by (auto simp: alerts_ok_def fire_def Let_def distinct_update update_conv' alert_key_def split: option.splits)

lemma alerts_ok_clear: "alerts_ok st \<Longrightarrow> alerts_ok (fst (clear n t m st))"
proof -
  assume ok: "alerts_ok st"
  have "\<And>k k' a. map_of (AList.delete k' st) k = Some a \<Longrightarrow> map_of st k = Some a"
    by (auto simp: delete_conv' split: if_splits)
  then show ?thesis using ok by (auto simp only: alerts_ok_def clear_def Let_def distinct_delete fst_conv split: option.splits)
qed

lemma map_of_fire:
  "map_of (fst (fire now n sev m t d l st)) =
    (map_of st)(key_of n t \<mapsto> \<lparr>an_name = n, an_severity = sev, an_message = m, an_target = t,
       an_since = (case map_of st (key_of n t) of None \<Rightarrow> now | Some p \<Rightarrow> an_since p), an_details = d\<rparr>)"
  by (cases "map_of st (key_of n t)") (simp_all add: fire_def Let_def update_conv' alert_key_def)

lemma map_of_clear: "map_of (fst (clear n t m st)) = (map_of st)(key_of n t := None)"
  by (auto simp: clear_def Let_def delete_conv' split: option.splits)

lemma label_title: "(n, w) \<in> set ALERT_TITLES \<Longrightarrow> label_of n = w"
  by (auto simp: ALERT_TITLES_def label_of_def LABELS_def)

lemma notify_simps [simp]:
  "nt_event (notify e a l) = e" "nt_level (notify ''alert.firing'' a l) = level_of a"
  "nt_title (notify ''alert.firing'' a l) = announced (label_of (an_name a)) (an_target a)"
  "drop 10 (nt_title (notify ''alert.resolved'' a l)) = announced (label_of (an_name a)) (an_target a)"
  by (auto simp: notify_def Let_def level_of_def announced_def split: option.splits)

lemma same_key: "key_of n t = key_of n t' \<longleftrightarrow> announced w t = announced w t'"
  by (auto simp: key_of_def announced_def split: option.splits)

text \<open>Two characters are enough to tell the titles, and the names, apart.\<close>

lemma starts:
  assumes "(n, w) \<in> set ALERT_TITLES"
  shows "take 2 (announced w t) = take 2 w" "take 2 (key_of n t) = take 2 n"
proof -
  have "2 \<le> length w" "2 \<le> length n" using assms by (auto simp: ALERT_TITLES_def)
  then show "take 2 (announced w t) = take 2 w" "take 2 (key_of n t) = take 2 n"
    by (simp_all add: announced_def key_of_def split: option.splits)
qed

lemma one_title:
  assumes "(n, w) \<in> set ALERT_TITLES" "(n', w') \<in> set ALERT_TITLES"
  shows "announced w t = announced w' t' \<longleftrightarrow> key_of n t = key_of n' t'"
proof (cases "n = n'")
  case True
  then have "w = w'" using assms label_title by blast
  then show ?thesis using same_key [of n t t' w] True by simp
next
  case False
  have "list_all (\<lambda>(n, w). list_all (\<lambda>(n', w'). n \<noteq> n' \<longrightarrow> take 2 w \<noteq> take 2 w' \<and> take 2 n \<noteq> take 2 n') ALERT_TITLES) ALERT_TITLES"
    by code_simp
  then have "take 2 w \<noteq> take 2 w'" "take 2 n \<noteq> take 2 n'" using assms False unfolding list_all_iff by blast+
  then show ?thesis using starts [OF assms(1), of t] starts [OF assms(2), of t'] by metis
qed

text \<open>What is heard and what is on agree.\<close>

definition tells :: "active \<Rightarrow> (string \<rightharpoonup> string) \<Rightarrow> bool" where
  "tells st known = ((\<forall>(n, w) \<in> set ALERT_TITLES. \<forall>t. known (announced w t) = map_option level_of (map_of st (key_of n t))) \<and>
     (\<forall>x. known x \<noteq> None \<longrightarrow> (\<exists>(n, w) \<in> set ALERT_TITLES. \<exists>t. x = announced w t)))"

definition all_known :: "active \<Rightarrow> bool" where
  "all_known st = (\<forall>k a. map_of st k = Some a \<longrightarrow> an_name a \<in> fst ` set ALERT_TITLES)"

lemma known_fire: "all_known st \<Longrightarrow> n \<in> fst ` set ALERT_TITLES \<Longrightarrow> all_known (fst (fire now n sev m t d l st))"
  unfolding all_known_def map_of_fire by simp

lemma known_clear: "all_known st \<Longrightarrow> all_known (fst (clear n t m st))"
  unfolding all_known_def map_of_clear by simp

definition heard :: "active \<times> notification list \<Rightarrow> bool" where
  "heard s = (alerts_ok (fst s) \<and> all_known (fst s) \<and> tells (fst s) (foldl hear Map.empty (snd s)))"

lemma tells_update:
  assumes k: "tells st known" and n: "(n, w) \<in> set ALERT_TITLES"
    and st': "\<And>k. map_of st' k = (if k = key_of n t then v else map_of st k)"
  shows "tells st' (known(announced w t := map_option level_of v))"
  unfolding tells_def
proof (intro conjI ballI allI impI)
  fix x assume x: "(known(announced w t := map_option level_of v)) x \<noteq> None"
  show "\<exists>(n, w) \<in> set ALERT_TITLES. \<exists>t. x = announced w t"
  proof (cases "x = announced w t")
    case True
    then show ?thesis using n by blast
  next
    case False
    then show ?thesis using x k unfolding tells_def by simp
  qed
next
  fix p assume p: "p \<in> set ALERT_TITLES"
  obtain m u where m: "p = (m, u)" by fastforce
  show "case p of (m, u) \<Rightarrow> \<forall>q. (known(announced w t := map_option level_of v)) (announced u q) =
      map_option level_of (map_of st' (key_of m q))"
  proof (unfold m prod.case, rule allI)
    fix q
    have e: "announced u q = announced w t \<longleftrightarrow> key_of m q = key_of n t" using one_title [OF p [unfolded m] n] .
    have "known (announced u q) = map_option level_of (map_of st (key_of m q))" using k p m unfolding tells_def by blast
    then show "(known(announced w t := map_option level_of v)) (announced u q) = map_option level_of (map_of st' (key_of m q))"
      using e by (simp add: st')
  qed
qed

lemma tells_known: "tells st known \<Longrightarrow> (n, w) \<in> set ALERT_TITLES \<Longrightarrow> known (announced w t) = map_option level_of (map_of st (key_of n t))"
  unfolding tells_def by blast

lemma tells_same:
  assumes k: "tells st known" and n: "(n, w) \<in> set ALERT_TITLES" and st': "\<And>k. map_of st' k = (if k = key_of n t then v else map_of st k)"
    and v: "map_option level_of v = map_option level_of (map_of st (key_of n t))"
  shows "tells st' known"
proof -
  have "known(announced w t := map_option level_of v) = known" using tells_known [OF k n, of t] v by auto
  then show ?thesis using tells_update [OF k n st'] by simp
qed

lemma tells_fire:
  assumes k: "tells st known" and n: "n \<in> fst ` set ALERT_TITLES"
  shows "tells (fst (fire now n sev m t d l st)) (foldl hear known (snd (fire now n sev m t d l st)))"
proof -
  obtain w where w: "(n, w) \<in> set ALERT_TITLES" using n by auto
  let ?a = "\<lparr>an_name = n, an_severity = sev, an_message = m, an_target = t,
       an_since = (case map_of st (key_of n t) of None \<Rightarrow> now | Some p \<Rightarrow> an_since p), an_details = d\<rparr>"
  have st': "map_of (fst (fire now n sev m t d l st)) k = (if k = key_of n t then Some ?a else map_of st k)" for k
    unfolding map_of_fire by simp
  show ?thesis
  proof (cases "\<exists>p. map_of st (key_of n t) = Some p \<and> an_severity p = sev")
    case True
    then obtain p where p: "map_of st (key_of n t) = Some p" "an_severity p = sev" by blast
    then have "snd (fire now n sev m t d l st) = []" by (simp add: fire_def Let_def alert_key_def)
    moreover have "map_option level_of (Some ?a) = map_option level_of (map_of st (key_of n t))" by (simp add: p level_of_def)
    ultimately show ?thesis using tells_same [OF k w st'] by simp
  next
    case False
    then have "snd (fire now n sev m t d l st) = [notify ''alert.firing'' ?a l]"
      by (cases "map_of st (key_of n t)") (auto simp: fire_def Let_def alert_key_def)
    then show ?thesis using tells_update [OF k w st'] label_title [OF w] by (simp add: hear_def)
  qed
qed

lemma tells_clear:
  assumes k: "tells st known" and ok: "alerts_ok st" "all_known st" and n: "n \<in> fst ` set ALERT_TITLES"
  shows "tells (fst (clear n t m st)) (foldl hear known (snd (clear n t m st)))"
proof -
  obtain w where w: "(n, w) \<in> set ALERT_TITLES" using n by auto
  have st': "map_of (fst (clear n t m st)) k = (if k = key_of n t then None else map_of st k)" for k
    unfolding map_of_clear by simp
  show ?thesis
  proof (cases "map_of st (key_of n t)")
    case None
    then show ?thesis using k by (simp add: clear_def)
  next
    case (Some p)
    let ?p = "p\<lparr>an_message := (case m of None \<Rightarrow> label_of n @ '' cleared'' | Some x \<Rightarrow> if x = [] then label_of n @ '' cleared'' else x)\<rparr>"
    have "alert_key p = key_of n t" using ok(1) Some by (simp add: alerts_ok_def)
    moreover have "an_name p \<in> fst ` set ALERT_TITLES" using ok(2) Some by (simp add: all_known_def)
    ultimately have t: "announced (label_of (an_name p)) (an_target p) = announced w t"
      using one_title [OF _ w, of "an_name p" _ "an_target p" t] label_title by (force simp: alert_key_def)
    have "snd (clear n t m st) = [notify ''alert.resolved'' ?p None]" using Some by (simp add: clear_def)
    then show ?thesis using tells_update [OF k w st'] t by (simp add: hear_def)
  qed
qed

lemma heard_step: "heard s \<Longrightarrow> known_op op \<Longrightarrow> heard (alert_step op s)"
  using alerts_ok_fire alerts_ok_clear tells_fire tells_clear known_fire known_clear
  by (cases op; cases s) (simp_all add: heard_def alert_step_def case_prod_beta)

interpretation alerting: op_frame alert_step "\<lambda>_. True" heard known_op
  by unfold_locales (simp_all add: heard_step)

text \<open>
  C15: the notifications are neither too many nor too few. Whatever of the alerts there are is fired and cleared, for whatever
  targets, someone
  who reads only the titles, events and levels of the notifications, in order, knows at each moment for each alert and target
  whether it is on and at which level.
  An alert fired again keeps its start and is silent at an unchanged severity. The list of active alerts
  has each of them once, the critical ones first and then the oldest.
\<close>

theorem notifications_tell_state:
  fixes ops
  assumes "list_all known_op ops"
  defines "s \<equiv> run_ops alert_step ops ([], [])"
  shows "(\<forall>(n, w) \<in> set ALERT_TITLES. \<forall>t. foldl hear Map.empty (snd s) (announced w t) =
      (case map_of (fst s) (key_of n t) of None \<Rightarrow> None
       | Some a \<Rightarrow> Some (if an_severity a = ''critical'' then ''error'' else ''warning''))) \<and>
    (\<forall>now n sev m t d l p. map_of (fst s) (key_of n t) = Some p \<longrightarrow>
       map_option an_since (map_of (fst (fire now n sev m t d l (fst s))) (key_of n t)) = Some (an_since p) \<and>
       (snd (fire now n sev m t d l (fst s)) = [] \<longleftrightarrow> an_severity p = sev)) \<and>
    distinct (map fst (fst s)) \<and>
    sorted (map (\<lambda>(a, _). (an_severity a \<noteq> ''critical'', an_since a)) (active_list (fst s))) \<and>
    length (active_list (fst s)) = length (fst s) \<and> fst ` set (active_list (fst s)) = snd ` set (fst s)"
proof -
  have h: "heard s"
    unfolding s_def by (rule alerting.run_keeps [OF _ _ assms(1)])
      (auto simp: heard_def alerts_ok_def all_known_def tells_def)
  then have t: "\<forall>(n, w) \<in> set ALERT_TITLES. \<forall>t. foldl hear Map.empty (snd s) (announced w t) =
      (case map_of (fst s) (key_of n t) of None \<Rightarrow> None
       | Some a \<Rightarrow> Some (if an_severity a = ''critical'' then ''error'' else ''warning''))"
    unfolding heard_def tells_def by (auto split: option.splits simp: level_of_def)
  have "\<forall>now n sev m t d l p. map_of (fst s) (key_of n t) = Some p \<longrightarrow>
       map_option an_since (map_of (fst (fire now n sev m t d l (fst s))) (key_of n t)) = Some (an_since p) \<and>
       (snd (fire now n sev m t d l (fst s)) = [] \<longleftrightarrow> an_severity p = sev)"
    unfolding map_of_fire by (auto simp: fire_def Let_def alert_key_def)
  moreover have "fst ` set (active_list (fst s)) = snd ` set (fst s)" by (simp add: active_list_def image_image)
  moreover have "sorted (map (\<lambda>(a, _). (an_severity a \<noteq> ''critical'', an_since a)) (active_list (fst s)))"
    "length (active_list (fst s)) = length (fst s)"
    by (simp_all add: active_list_def comp_def)
  moreover have "distinct (map fst (fst s))" using h by (simp add: heard_def alerts_ok_def)
  ultimately show ?thesis using t by blast
qed

theorem notifications_tell_state_witness:
  "let s = run_ops alert_step [Fire 0 ''host_unreachable'' ''critical'' ''m'' (Some ''lab'') [] None,
      Fire 1 ''lxc_unavailable'' ''warning'' ''m'' None [] None, Clear ''lxc_unavailable'' None None] ([], []) in
    foldl hear Map.empty (snd s) ''Host unreachable (lab)'' = Some ''error'' \<and> foldl hear Map.empty (snd s) ''LXC unavailable'' = None"
proof -
  let ?ops = "[Fire 0 ''host_unreachable'' ''critical'' ''m'' (Some ''lab'') [] None,
      Fire 1 ''lxc_unavailable'' ''warning'' ''m'' None [] None, Clear ''lxc_unavailable'' None None]"
  define s where "s = run_ops alert_step ?ops ([], [])"
  have st: "map_option an_severity (map_of (fst s) (key_of ''host_unreachable'' (Some ''lab''))) = Some ''critical''"
    "map_of (fst s) (key_of ''lxc_unavailable'' None) = None"
    by (simp_all add: s_def alert_step_def fire_def clear_def key_of_def alert_key_def Let_def)
  obtain x where x: "map_of (fst s) (key_of ''host_unreachable'' (Some ''lab'')) = Some x" "an_severity x = ''critical''"
    using st(1) unfolding map_option_eq_Some by blast
  have k: "list_all known_op ?ops" by (simp add: ALERT_TITLES_def)
  have t: "(''host_unreachable'', ''Host unreachable'') \<in> set ALERT_TITLES" "(''lxc_unavailable'', ''LXC unavailable'') \<in> set ALERT_TITLES"
    by (simp_all add: ALERT_TITLES_def)
  note h0 = notifications_tell_state [OF k, THEN conjunct1, folded s_def]
  note h = bspec [OF h0 t(1), unfolded prod.case, THEN spec, of "Some ''lab''"] bspec [OF h0 t(2), unfolded prod.case, THEN spec, of None]
  have a: "announced ''Host unreachable'' (Some ''lab'') = ''Host unreachable (lab)''" "announced ''LXC unavailable'' None = ''LXC unavailable''"
    by (simp_all add: announced_def)
  show ?thesis using h unfolding Let_def s_def [symmetric] a x(1) st(2) option.case x(2) by (simp only: simp_thms if_True)
qed

end
