(* ===== verification/Hosts.thy ===== *)
theory Hosts
  imports Tenancy Alerts Json
begin

text \<open>
  \<^verbatim>\<open>services/hosts.py\<close> and \<^verbatim>\<open>routes/hosts.py\<close>: other servers managed from this one. The rows are kept in
  the \<open>hosts\<close> table of \<open>tenancy\<close> (its connection does not switch foreign keys on). The network is an
  argument: what a connection to a URL meets, and what a request is answered; so are the JSON parser and
  the cipher of the stored tokens. The WebSocket relay is not modelled.
\<close>

section \<open>URLs\<close>

text \<open>
  The parts of \<open>urllib.parse.urlsplit\<close> the code uses, for network locations without brackets
  (an IPv6 literal is outside the model).
\<close>

definition scheme_char :: "char \<Rightarrow> bool" where
  "scheme_char c = (ascii_alnum c \<or> c \<in> set ''+-.'')"

definition url_scheme :: "string \<Rightarrow> string \<times> string" where
  "url_scheme url =
     (let s = takeWhile (\<lambda>c. c \<noteq> CHR '':'') url; rest = drop (Suc (length s)) url in
      if s \<noteq> [] \<and> length s < length url \<and> (ascii_upper (hd s) \<or> ascii_lower (hd s)) \<and> list_all scheme_char s
      then (py_lower s, rest) else ([], url))"

definition url_netloc :: "string \<Rightarrow> string \<times> string" where
  "url_netloc rest =
     (if prefix ''//'' rest then
        let r = drop 2 rest; n = takeWhile (\<lambda>c. c \<notin> set ''/?#'') r in (n, drop (length n) r)
      else ([], rest))"

definition url_path :: "string \<Rightarrow> string" where
  "url_path rest = takeWhile (\<lambda>c. c \<notin> set ''?#'') rest"

definition clean_url :: "string \<Rightarrow> string" where
  "clean_url url = filter (\<lambda>c. cp c \<notin> {9, 10, 13}) (dropWhile (\<lambda>c. cp c \<le> 32) url)"

record url_parts =
  up_scheme :: string
  up_netloc :: string
  up_path :: string

definition url_split :: "string \<Rightarrow> url_parts" where
  "url_split url = (let (s, rest) = url_scheme (clean_url url); (n, p) = url_netloc rest in
     \<lparr>up_scheme = s, up_netloc = n, up_path = url_path p\<rparr>)"

definition after_last :: "char \<Rightarrow> string \<Rightarrow> string" where
  "after_last c s = last (split_on c s)"

definition hostname :: "url_parts \<Rightarrow> string" where
  "hostname p = py_lower (takeWhile (\<lambda>c. c \<noteq> CHR '':'') (after_last (CHR ''@'') (up_netloc p)))"

datatype host_error =
    HostError string
  | FingerprintNeeded string
  | NetworkError string

definition normalize_url :: "string \<Rightarrow> host_error + string" where
  "normalize_url given =
     (let url = rstrip_by (\<lambda>c. c = CHR ''/'') (py_strip given); parts = url_split url in
      if up_scheme parts \<notin> {''https'', ''http''} \<or> hostname parts = [] then
        Inl (HostError ''URL: https://host:port of the other Habeny'')
      else if up_path parts \<notin> {[], ''/api''} then
        Inl (HostError ''URL: just https://host:port, without a path'')
      else Inr (up_scheme parts @ ''://'' @ up_netloc parts))"

section \<open>Connections\<close>

text \<open>What a connection meets: an error, or a peer with a certificate, trusted by an authority or not.\<close>

datatype peer = Refused string | Peer bool string

record out_request =
  rq_method :: string
  rq_target :: string
  rq_headers :: "(string \<times> string) list"
  rq_body :: "string option"

record answer =
  rs_status :: nat
  rs_headers :: "(string \<times> string) list"
  rs_data :: string

record host_env =
  he_peer :: "string \<Rightarrow> peer"
  he_send :: "string \<Rightarrow> out_request \<Rightarrow> string + answer"
  he_loads :: "string \<Rightarrow> json option"
  he_show :: "json \<Rightarrow> string"
  he_enc :: "string \<Rightarrow> string"
  he_dec :: "string \<Rightarrow> string option"

definition MAX_BODY :: nat where
  "MAX_BODY = 64 * 1024 * 1024"

definition LOCAL_ONLY :: "string list" where
  "LOCAL_ONLY = [''auth'', ''users'', ''hosts'', ''teams'', ''notifications'', ''system/backups'']"

definition set_text :: "string option \<Rightarrow> bool" where
  "set_text s = (s \<noteq> None \<and> s \<noteq> Some [])"

definition open_conn :: "host_env \<Rightarrow> string \<Rightarrow> string option \<Rightarrow> host_error + unit" where
  "open_conn env url fingerprint =
     (if up_scheme (url_split url) = ''http'' then
        (case he_peer env url of Refused e \<Rightarrow> Inl (NetworkError e) | Peer _ _ \<Rightarrow> Inr ())
      else (case he_peer env url of
          Refused e \<Rightarrow> Inl (HostError (''Can'' @ [CHR 0x27] @ ''t connect to '' @ url @ '': '' @ e))
        | Peer trusted presented \<Rightarrow>
            if set_text fingerprint then
              if Some presented \<noteq> fingerprint then
                Inl (HostError (url @ '' presented a different certificate ('' @ presented @
                  '') than the one confirmed ('' @ the fingerprint @ '')''))
              else Inr ()
            else if \<not> trusted then Inl (FingerprintNeeded presented) else Inr ()))"

definition dict_of :: "(string \<times> 'v) list \<Rightarrow> (string \<times> 'v) list" where
  "dict_of kvs = foldl (\<lambda>m (k, v). AList.update k v m) [] kvs"

definition show_token :: "string option \<Rightarrow> string" where
  "show_token t = (case t of None \<Rightarrow> ''None'' | Some s \<Rightarrow> s)"

definition host_request ::
  "string option \<Rightarrow> string \<Rightarrow> string \<Rightarrow> string \<Rightarrow> string option \<Rightarrow> (string \<times> string) list \<Rightarrow> out_request" where
  "host_request token meth path query body headers =
     \<lparr>rq_method = meth,
      rq_target = ''/api/'' @ dropWhile (\<lambda>c. c = CHR ''/'') path @ (if query = [] then [] else ''?'' @ query),
      rq_headers = dict_of ([(''Authorization'', ''Bearer '' @ show_token token), (''Accept'', ''application/json'')] @ headers),
      rq_body = body\<rparr>"

definition call_host :: "host_env \<Rightarrow> string \<Rightarrow> string option \<Rightarrow> out_request \<Rightarrow> host_error + answer" where
  "call_host env url fingerprint req = (case open_conn env url fingerprint of
     Inl e \<Rightarrow> Inl e
   | Inr _ \<Rightarrow> (case he_send env url req of
       Inl e \<Rightarrow> Inl (HostError (url @ '': '' @ e))
     | Inr r \<Rightarrow>
         if MAX_BODY < length (rs_data r) then Inl (HostError (''the host'' @ [CHR 0x27] @ ''s response is too large to relay''))
         else Inr (r\<lparr>rs_headers := dict_of (map (\<lambda>(k, v). (py_lower k, v)) (rs_headers r))\<rparr>)))"

definition falsy :: "json \<Rightarrow> bool" where
  "falsy v = (v \<in> {JNone, JText [], JInt 0, JBool False, JArray [], JObject []})"

text \<open>The payloads are objects; the code reads them with \<open>get\<close>.\<close>

definition get_json :: "host_env \<Rightarrow> string \<Rightarrow> string option \<Rightarrow> string option \<Rightarrow> string \<Rightarrow> host_error + json" where
  "get_json env url token fingerprint path =
     (case call_host env url fingerprint (host_request token ''GET'' path [] None []) of
        Inl e \<Rightarrow> Inl e
      | Inr r \<Rightarrow> (case he_loads env (if rs_data r = [] then ''{}'' else rs_data r) of
          None \<Rightarrow> Inl (HostError (url @ '' didn'' @ [CHR 0x27] @ ''t answer like a Habeny server (HTTP '' @ nat_str (rs_status r) @ '')''))
        | Some payload \<Rightarrow>
            if rs_status r = 401 then Inl (HostError ''the host rejected the API token (revoked or expired?)'')
            else if 400 \<le> rs_status r then
              Inl (HostError (''HTTP '' @ nat_str (rs_status r) @ '': '' @
                (if falsy (field payload ''detail'') then he_show env payload else he_show env (field payload ''detail''))))
            else Inr payload))"

definition probe :: "host_env \<Rightarrow> string \<Rightarrow> string option \<Rightarrow> string option \<Rightarrow> host_error + json \<times> json \<times> json" where
  "probe env url token fingerprint = (case get_json env url token fingerprint ''auth/status'' of
     Inl e \<Rightarrow> Inl e
   | Inr status \<Rightarrow>
       let user = field (field status ''data'') ''user'' in
       if falsy user then Inl (HostError (''the host didn'' @ [CHR 0x27] @ ''t accept the API token''))
       else (case get_json env url token fingerprint ''system/health'' of
           Inl e \<Rightarrow> Inl e
         | Inr health \<Rightarrow> Inr (field health ''version'', field user ''role'', field user ''username'')))"

definition error_text :: "host_error \<Rightarrow> string" where
  "error_text e = (case e of HostError t \<Rightarrow> t | NetworkError t \<Rightarrow> t
     | FingerprintNeeded f \<Rightarrow> ''The host'' @ [CHR 0x27] @ ''s certificate isn'' @ [CHR 0x27] @ ''t from a trusted authority. '' @
         ''Check this fingerprint on the host (`habeny tls fingerprint` there) and confirm it: '' @ f)"

section \<open>Rows\<close>

definition reveal :: "host_env \<Rightarrow> host \<Rightarrow> host" where
  "reveal env h = h\<lparr>h_token := decrypt_secret (he_dec env) (h_token h)\<rparr>"

definition list_hosts :: "host_env \<Rightarrow> tenancy \<Rightarrow> host list" where
  "list_hosts env st = map (reveal env) (sort_key (\<lambda>h. nocase (h_name h)) (hosts st))"

definition get_host :: "host_env \<Rightarrow> nat \<Rightarrow> tenancy \<Rightarrow> host option" where
  "get_host env i st = map_option (reveal env) (fetchone (\<lambda>h. h_id h = i) (hosts st))"

definition py_upper_char :: "char \<Rightarrow> char" where
  "py_upper_char c = (let n = cp c in
     if ascii_lower c \<or> 224 \<le> n \<and> n \<le> 254 \<and> n \<noteq> 247 then char_of (n - 32) else c)"

definition fingerprint_of :: "string option \<Rightarrow> string option" where
  "fingerprint_of f = (let s = map py_upper_char
       (py_strip (case f of None \<Rightarrow> [] | Some s \<Rightarrow> s)) in if s = [] then None else Some s)"

definition version_text :: "json \<Rightarrow> string option" where
  "version_text v = (case v of JText s \<Rightarrow> Some s | _ \<Rightarrow> None)"

definition add_host ::
  "host_env \<Rightarrow> int \<Rightarrow> string \<Rightarrow> string \<Rightarrow> string \<Rightarrow> string option \<Rightarrow> nat option \<Rightarrow> tenancy \<Rightarrow>
   host_error + tenancy \<times> host" where
  "add_host env now name given token fingerprint team st = (case normalize_url given of
     Inl e \<Rightarrow> Inl e
   | Inr url \<Rightarrow>
       let fp = fingerprint_of fingerprint in
       (case probe env url (Some token) fp of
          Inl e \<Rightarrow> Inl e
        | Inr (version, role, who) \<Rightarrow>
            if nocase name \<in> (nocase \<circ> h_name) ` set (hosts st) then
              Inl (HostError (''a host named '' @ [CHR 0x27] @ name @ [CHR 0x27] @ '' exists''))
            else let h = \<lparr>h_id = next_host st, h_name = name, h_url = url,
                     h_token = encrypt_secret (he_enc env) (Some token), h_fingerprint = fp, h_team = team,
                     h_created = now, h_checked = Some now, h_status = Some ''ok'', h_error = None,
                     h_version = version_text version\<rparr>
              in Inr (st\<lparr>hosts := hosts st @ [h], next_host := Suc (next_host st)\<rparr>, reveal env h)))"

definition update_host ::
  "host_env \<Rightarrow> nat \<Rightarrow> string \<Rightarrow> nat option \<Rightarrow> string option \<Rightarrow> string option \<Rightarrow> tenancy \<Rightarrow>
   host_error + tenancy \<times> host option" where
  "update_host env i name team token fingerprint st = (case get_host env i st of
     None \<Rightarrow> Inr (st, None)
   | Some current \<Rightarrow>
       let new_token = (if set_text token then token else h_token current);
           fp = (if set_text fingerprint then fingerprint_of fingerprint else None);
           new_fp = (if fp = None then h_fingerprint current else fp)
       in (case (if set_text token \<or> set_text fingerprint
                 then map_sum id (\<lambda>_. ()) (probe env (h_url current) new_token new_fp) else Inr ()) of
             Inl e \<Rightarrow> Inl e
           | Inr _ \<Rightarrow>
               if \<exists>h\<in>set (hosts st). h_id h \<noteq> i \<and> nocase (h_name h) = nocase name then
                 Inl (HostError (''a host named '' @ [CHR 0x27] @ name @ [CHR 0x27] @ '' exists''))
               else let st' = st\<lparr>hosts := sql_update (\<lambda>h. h_id h = i)
                      (\<lambda>h. h\<lparr>h_name := name, h_team := team, h_token := encrypt_secret (he_enc env) new_token,
                             h_fingerprint := new_fp\<rparr>) (hosts st)\<rparr>
                 in Inr (st', get_host env i st')))"

definition delete_host :: "host_env \<Rightarrow> nat \<Rightarrow> tenancy \<Rightarrow> tenancy \<times> host option" where
  "delete_host env i st = (case get_host env i st of
     None \<Rightarrow> (st, None)
   | Some h \<Rightarrow> (st\<lparr>hosts := sql_delete (\<lambda>h. h_id h = i) (hosts st)\<rparr>, Some h))"

definition record_check :: "int \<Rightarrow> nat \<Rightarrow> string option \<Rightarrow> string option \<Rightarrow> tenancy \<Rightarrow> tenancy" where
  "record_check now i error version st = st\<lparr>hosts := sql_update (\<lambda>h. h_id h = i)
     (\<lambda>h. h\<lparr>h_checked := Some now, h_status := Some (if set_text error then ''error'' else ''ok''), h_error := error,
            h_version := (if version = None then h_version h else version)\<rparr>) (hosts st)\<rparr>"

definition usable_by :: "host \<Rightarrow> user option \<Rightarrow> bool" where
  "usable_by h u = (is_unrestricted u \<or> h_team h = None \<or> h_team h = user_team u)"

section \<open>Checks\<close>

text \<open>An exception that is not a \<^verbatim>\<open>HostError\<close> leaves the loop; what was done before it stays.\<close>

definition uncaught :: "host_error \<Rightarrow> bool" where
  "uncaught e = (case e of NetworkError _ \<Rightarrow> True | _ \<Rightarrow> False)"

record host_state =
  hs_db :: tenancy
  hs_active :: active
  hs_sent :: "notification list"

definition with_alerts :: "(active \<Rightarrow> active \<times> notification list) \<Rightarrow> host_state \<Rightarrow> host_state" where
  "with_alerts f s = (case f (hs_active s) of (a, ns) \<Rightarrow> s\<lparr>hs_active := a, hs_sent := hs_sent s @ ns\<rparr>)"

definition check_host :: "host_env \<Rightarrow> int \<Rightarrow> host \<Rightarrow> host_state \<Rightarrow> host_state \<times> bool" where
  "check_host env now h s =
     (case get_json env (h_url h) (h_token h) (h_fingerprint h) ''system/health'' of
        Inl e \<Rightarrow>
          if uncaught e then (s, False)
          else let s1 = s\<lparr>hs_db := record_check now (h_id h) (Some (error_text e)) None (hs_db s)\<rparr>
            in (with_alerts (fire now ''host_unreachable'' ''critical''
                  (''Host '' @ h_name h @ '' ('' @ h_url h @ '') is unreachable: '' @ error_text e)
                  (Some (h_name h)) [(''url'', JText (h_url h))] (Some ''/hosts'')) s1, True)
      | Inr health \<Rightarrow>
          let s1 = s\<lparr>hs_db := record_check now (h_id h) None (version_text (field health ''version'')) (hs_db s)\<rparr>
          in (with_alerts (clear ''host_unreachable'' (Some (h_name h))
                (Some (''Host '' @ h_name h @ '' is reachable again''))) s1, True))"

fun check_hosts :: "host_env \<Rightarrow> int \<Rightarrow> host list \<Rightarrow> host_state \<Rightarrow> host_state \<times> bool" where
  "check_hosts env now [] s = (s, True)"
| "check_hosts env now (h # hs) s = (case check_host env now h s of
     (s', True) \<Rightarrow> check_hosts env now hs s' | (s', False) \<Rightarrow> (s', False))"

definition check_all :: "host_env \<Rightarrow> int \<Rightarrow> host_state \<Rightarrow> host_state \<times> bool" where
  "check_all env now s = check_hosts env now (list_hosts env (hs_db s)) s"

text \<open>The check of every minute: disks, LXC, the other servers, the license.\<close>

definition check_conditions ::
  "host_env \<Rightarrow> int \<Rightarrow> rat \<Rightarrow> (disk \<Rightarrow> string \<times> (string \<times> json) list) \<Rightarrow> string \<Rightarrow> disk list \<Rightarrow> string option \<Rightarrow>
   lic_alert \<Rightarrow> host_state \<Rightarrow> host_state \<times> bool" where
  "check_conditions env now threshold describe back disks lxc lic s =
     (let s1 = with_alerts (check_disks now threshold describe back disks) s;
          s2 = with_alerts (check_lxc now lxc) s1
      in case check_all env now s2 of
           (s3, False) \<Rightarrow> (s3, False)
         | (s3, True) \<Rightarrow> (with_alerts (apply_license now lic) s3, True))"

definition overview ::
  "host_env \<Rightarrow> int \<Rightarrow> host \<Rightarrow> tenancy \<Rightarrow> tenancy \<times> (http_error + (host_error + json \<times> json \<times> json))" where
  "overview env now h st =
     (let get = get_json env (h_url h) (h_token h) (h_fingerprint h);
          failed = (\<lambda>e. if uncaught e then (st, Inl INTERNAL_ERROR)
                         else (record_check now (h_id h) (Some (error_text e)) None st, Inr (Inl e)))
      in case get ''system/health'' of
           Inl e \<Rightarrow> failed e
         | Inr health \<Rightarrow> (case get ''agents/stats'' of
             Inl e \<Rightarrow> failed e
           | Inr stats \<Rightarrow> (case get ''system/alerts'' of
               Inl e \<Rightarrow> failed e
             | Inr al \<Rightarrow> (record_check now (h_id h) None (version_text (field health ''version'')) st,
                 Inr (Inr (health, field stats ''data'', field (field al ''data'') ''alerts''))))))"

section \<open>Routes\<close>

definition HOST_NOT_FOUND :: http_error where
  "HOST_NOT_FOUND = HTTPError 404 ''Host not found''"

definition usable_host :: "host_env \<Rightarrow> nat \<Rightarrow> user option \<Rightarrow> tenancy \<Rightarrow> http_error + host" where
  "usable_host env i u st = (case get_host env i st of
     None \<Rightarrow> Inl HOST_NOT_FOUND
   | Some h \<Rightarrow> if usable_by h u then Inr h else Inl HOST_NOT_FOUND)"

text \<open>The answer of a route has no token in it (its first characters, as a hint, left out here).\<close>

definition public_host :: "host \<Rightarrow> host" where
  "public_host h = h\<lparr>h_token := None\<rparr>"

definition route_list_hosts :: "host_env \<Rightarrow> user option \<Rightarrow> tenancy \<Rightarrow> host list" where
  "route_list_hosts env u st = map public_host (filter (\<lambda>h. usable_by h u) (list_hosts env st))"

datatype added = Added host | ConfirmFingerprint string

definition route_add_host ::
  "host_env \<Rightarrow> int \<Rightarrow> string \<Rightarrow> string \<Rightarrow> string \<Rightarrow> string option \<Rightarrow> nat option \<Rightarrow> tenancy \<Rightarrow> tenancy \<times> (http_error + added)" where
  "route_add_host env now name url token fingerprint team st =
     (if url = [] \<or> token = [] then (st, Inl (HTTPError 400 ''url and token are required''))
      else if team \<noteq> None \<and> get_team (the team) st = None then (st, Inl TEAM_NOT_FOUND)
      else (case add_host env now (py_strip name) url token fingerprint team st of
          Inl (FingerprintNeeded f) \<Rightarrow> (st, Inr (ConfirmFingerprint f))
        | Inl (HostError e) \<Rightarrow> (st, Inl (HTTPError 400 e))
        | Inl (NetworkError e) \<Rightarrow> (st, Inl INTERNAL_ERROR)
        | Inr (st', h) \<Rightarrow> (st', Inr (Added (public_host h)))))"

definition route_edit_host ::
  "host_env \<Rightarrow> nat \<Rightarrow> string \<Rightarrow> string \<Rightarrow> string option \<Rightarrow> nat option \<Rightarrow> tenancy \<Rightarrow> tenancy \<times> (http_error + host)" where
  "route_edit_host env i name token fingerprint team st =
     (case update_host env i (py_strip name) team (if token = [] then None else Some token) fingerprint st of
        Inl e \<Rightarrow> (st, Inl (if uncaught e then INTERNAL_ERROR else HTTPError 400 (error_text e)))
      | Inr (st', None) \<Rightarrow> (st', Inl HOST_NOT_FOUND)
      | Inr (st', Some h) \<Rightarrow> (st', Inr (public_host h)))"

definition route_remove_host :: "host_env \<Rightarrow> nat \<Rightarrow> tenancy \<Rightarrow> tenancy \<times> (http_error + string)" where
  "route_remove_host env i st = (case delete_host env i st of
     (st', None) \<Rightarrow> (st', Inl HOST_NOT_FOUND)
   | (st', Some h) \<Rightarrow> (st', Inr (h_name h)))"

section \<open>The relay\<close>

definition RELAYED_REQUEST_HEADERS :: "string list" where
  "RELAYED_REQUEST_HEADERS = [''content-type'', ''accept'']"

definition RELAYED_RESPONSE_HEADERS :: "string list" where
  "RELAYED_RESPONSE_HEADERS = [''content-type'', ''content-disposition'', ''retry-after'']"

definition strip_slashes :: "string \<Rightarrow> string" where
  "strip_slashes s = rstrip_by (\<lambda>c. c = CHR ''/'') (dropWhile (\<lambda>c. c = CHR ''/'') s)"

definition local_only :: "string \<Rightarrow> bool" where
  "local_only path = list_ex (\<lambda>p. prefix p (strip_slashes path)) LOCAL_ONLY"

definition relayed_headers :: "(string \<times> string) list \<Rightarrow> string option \<Rightarrow> (string \<times> string) list" where
  "relayed_headers hdrs rid =
     (let kept = dict_of (filter (\<lambda>(k, v). py_lower k \<in> set RELAYED_REQUEST_HEADERS) hdrs) in
      case rid of None \<Rightarrow> kept | Some r \<Rightarrow> if r = [] then kept else AList.update ''X-Request-ID'' r kept)"

definition REJECTED :: string where
  "REJECTED = ''{'' @ [CHR 0x22] @ ''detail'' @ [CHR 0x22] @ '': '' @ [CHR 0x22] @
     ''The host rejected this console'' @ [CHR 0x27] @ ''s API token (revoked or expired?). '' @
     ''An admin can replace it on the Hosts page.'' @ [CHR 0x22] @ ''}''"

definition relayed_answer :: "answer \<Rightarrow> answer" where
  "relayed_answer r =
     (let r1 = (if rs_status r = 401 then r\<lparr>rs_status := 502, rs_data := REJECTED,
                  rs_headers := AList.update ''content-type'' ''application/json'' (rs_headers r)\<rparr> else r);
          out = filter (\<lambda>(k, v). k \<in> set RELAYED_RESPONSE_HEADERS) (rs_headers r1)
      in r1\<lparr>rs_headers := (case map_of (rs_headers r1) ''x-request-id'' of
              None \<Rightarrow> out | Some v \<Rightarrow> out @ [(''X-Remote-Request-ID'', v)])\<rparr>)"

definition relay ::
  "host_env \<Rightarrow> nat \<Rightarrow> string \<Rightarrow> string \<Rightarrow> string \<Rightarrow> (string \<times> string) list \<Rightarrow> string option \<Rightarrow> string option \<Rightarrow>
   user option \<Rightarrow> tenancy \<Rightarrow> http_error + answer" where
  "relay env i path meth query hdrs rid body u st = (case usable_host env i u st of
     Inl e \<Rightarrow> Inl e
   | Inr h \<Rightarrow>
       if local_only path then
         Inl (HTTPError 403 ''Accounts, tokens, teams and hosts are managed on each server itself'')
       else (case call_host env (h_url h) (h_fingerprint h)
                (host_request (h_token h) meth path query (if set_text body then body else None) (relayed_headers hdrs rid)) of
           Inl e \<Rightarrow> Inl (if uncaught e then INTERNAL_ERROR
             else HTTPError 502 (''Host '' @ h_name h @ '': '' @ error_text e))
         | Inr r \<Rightarrow> Inr (relayed_answer r)))"

section \<open>What the relay passes on\<close>

lemma set_alist_update: "set (AList.update k v m) \<subseteq> insert (k, v) (set m)"
  by (induction m) auto

lemma set_dict_of: "set (dict_of kvs) \<subseteq> set kvs"
proof -
  have "set (foldl (\<lambda>m (k, v). AList.update k v m) m kvs) \<subseteq> set m \<union> set kvs" for m
  proof (induction kvs arbitrary: m)
    case (Cons x kvs)
    obtain k v where x: "x = (k, v)" by fastforce
    show ?case using Cons [of "AList.update k v m"] set_alist_update [of k v m] unfolding x by auto
  qed simp
  from this [of "[]"] show ?thesis by (simp add: dict_of_def)
qed

lemma relayed_headers_set:
  "(k, v) \<in> set (relayed_headers hdrs rid) \<Longrightarrow>
    (k, v) \<in> set hdrs \<and> py_lower k \<in> set RELAYED_REQUEST_HEADERS \<or> k = ''X-Request-ID''"
  using set_dict_of [of "filter (\<lambda>(k, v). py_lower k \<in> set RELAYED_REQUEST_HEADERS) hdrs"]
    set_alist_update [of "''X-Request-ID''" _ "dict_of (filter (\<lambda>(k, v). py_lower k \<in> set RELAYED_REQUEST_HEADERS) hdrs)"]
  by (auto simp: relayed_headers_def Let_def split: option.splits if_splits)

lemma relayed_answer_headers:
  "(k, v) \<in> set (rs_headers (relayed_answer r)) \<Longrightarrow> k \<in> set RELAYED_RESPONSE_HEADERS \<or> k = ''X-Remote-Request-ID''"
  by (auto simp: relayed_answer_def Let_def split: option.splits if_splits)

lemma call_host_ok:
  assumes "call_host env url fp req = Inr r"
  shows "(up_scheme (url_split url) = ''http'' \<or> (\<exists>trusted presented. he_peer env url = Peer trusted presented \<and>
      (if set_text fp then fp = Some presented else trusted))) \<and>
    (\<exists>a. he_send env url req = Inr a \<and> rs_status r = rs_status a \<and> length (rs_data r) \<le> MAX_BODY)"
  using assms
  by (auto simp: call_host_def open_conn_def split: sum.splits if_splits peer.splits)

lemma prefix_rstrip:
  assumes "prefix p s" and "p \<noteq> []" and "\<not> P (last p)"
  shows "prefix p (rstrip_by P s)"
proof -
  obtain t where s: "s = p @ t" using assms(1) by (auto simp: prefix_def)
  have "dropWhile P (rev p) = rev p" using assms(2,3) by (cases p rule: rev_cases) auto
  then have "rstrip_by P s = p @ rstrip_by P t" if "rstrip_by P t \<noteq> []"
    using that by (simp add: s rstrip_by_def dropWhile_append)
  moreover have "rstrip_by P s = p" if "rstrip_by P t = []"
    using that \<open>dropWhile P (rev p) = rev p\<close> by (simp add: s rstrip_by_def dropWhile_append)
  ultimately show ?thesis by (cases "rstrip_by P t = []") auto
qed

lemma map_of_dict_of: "map_of (dict_of kvs) k = map_of (rev kvs) k"
proof -
  have "map_of (foldl (\<lambda>m (k, v). AList.update k v m) m kvs) k = (map_of m ++ map_of (rev kvs)) k" for m
  proof (induction kvs arbitrary: m)
    case (Cons x kvs)
    obtain a b where x: "x = (a, b)" by fastforce
    show ?case using Cons [of "AList.update a b m"] unfolding x by (simp add: update_conv' map_add_def split: option.splits)
  qed simp
  from this [of "[]"] show ?thesis by (simp add: dict_of_def)
qed

lemma request_authorized:
  "map_of (rq_headers (host_request token meth path query body (relayed_headers hdrs rid))) ''Authorization'' =
     Some (''Bearer '' @ show_token token)"
proof -
  have "(''Authorization'', v) \<notin> set (relayed_headers hdrs rid)" for v
    using relayed_headers_set [of "''Authorization''" v hdrs rid] by (auto simp: RELAYED_REQUEST_HEADERS_def py_lower_def)
  then have "map_of (rev (relayed_headers hdrs rid)) ''Authorization'' = None" by (force simp: map_of_eq_None_iff)
  then show ?thesis by (simp add: host_request_def map_of_dict_of map_add_def del: rev.simps append.simps) (simp add: map_add_def)
qed

lemma not_local_paths:
  assumes "\<not> local_only path" and "p \<in> set LOCAL_ONLY"
  shows "\<not> prefix p (dropWhile (\<lambda>c. c = CHR ''/'') path)"
proof -
  have "p \<noteq> []" "last p \<noteq> CHR ''/''" using assms(2) by (auto simp: LOCAL_ONLY_def)
  then show ?thesis
    using assms prefix_rstrip [of p "dropWhile (\<lambda>c. c = CHR ''/'') path" "\<lambda>c. c = CHR ''/''"]
    by (auto simp: local_only_def strip_slashes_def list_ex_iff)
qed

lemma call_host_sent:
  assumes "call_host env url fp req = Inr r"
  shows "\<exists>a. he_send env url req = Inr a \<and> rs_status r = rs_status a \<and> rs_data r = rs_data a"
  using assms by (auto simp: call_host_def split: sum.splits if_splits)

text \<open>
  C18: what the relay passes on. An answer comes back only for a host the user may use and a path that is
  not local; the one request that was sent is for the path and query and has the body the user gave, carries the token stored
  for the host, and of the headers of
  the user's request only the content type, what is accepted and the request id (never a cookie or the
  user's own authorization); it went to the peer with the pinned certificate, or a trusted one when none
  is pinned, unless the URL is plain HTTP; and the answer has the status and the data of the host's, no header but the listed
  ones, and is never a 401, which would sign the user out here: that one is a 502 with an explanation.
\<close>

theorem relay_confined:
  assumes "relay env i path meth query hdrs rid body u st = Inr r"
  shows "\<exists>h req a. get_host env i st = Some h \<and> usable_by h u \<and>
    list_all (\<lambda>p. \<not> prefix p (dropWhile (\<lambda>c. c = CHR ''/'') path))
      [''auth'', ''users'', ''hosts'', ''teams'', ''notifications'', ''system/backups''] \<and>
    he_send env (h_url h) req = Inr a \<and> rq_method req = meth \<and>
    rq_target req = ''/api/'' @ dropWhile (\<lambda>c. c = CHR ''/'') path @ (if query = [] then [] else ''?'' @ query) \<and>
    rq_body req = (if body = Some [] then None else body) \<and>
    map_of (rq_headers req) ''Authorization'' = Some (''Bearer '' @ show_token (h_token h)) \<and>
    (\<forall>k v. (k, v) \<in> set (rq_headers req) \<longrightarrow>
       k = ''Authorization'' \<and> v = ''Bearer '' @ show_token (h_token h) \<or> k = ''Accept'' \<or> k = ''X-Request-ID'' \<or>
       (k, v) \<in> set hdrs \<and> py_lower k \<in> {''content-type'', ''accept''}) \<and>
    (up_scheme (url_split (h_url h)) = ''http'' \<or> (\<exists>trusted presented. he_peer env (h_url h) = Peer trusted presented \<and>
       (if set_text (h_fingerprint h) then h_fingerprint h = Some presented else trusted))) \<and>
    (if rs_status a = 401 then rs_status r = 502 \<and> rs_data r = REJECTED else rs_status r = rs_status a \<and> rs_data r = rs_data a) \<and>
    (\<forall>k v. (k, v) \<in> set (rs_headers r) \<longrightarrow>
       k \<in> {''content-type'', ''content-disposition'', ''retry-after'', ''X-Remote-Request-ID''})"
proof -
  from assms obtain h where h: "get_host env i st = Some h" "usable_by h u"
    by (auto simp: relay_def usable_host_def split: option.splits if_splits sum.splits)
  let ?req = "host_request (h_token h) meth path query (if set_text body then body else None) (relayed_headers hdrs rid)"
  from assms h obtain a where a: "call_host env (h_url h) (h_fingerprint h) ?req = Inr a" "r = relayed_answer a"
    and loc: "\<not> local_only path"
    by (auto simp: relay_def usable_host_def split: if_splits sum.splits)
  have hd: "\<forall>k v. (k, v) \<in> set (rq_headers ?req) \<longrightarrow> k = ''Authorization'' \<and> v = ''Bearer '' @ show_token (h_token h) \<or> k = ''Accept'' \<or>
      k = ''X-Request-ID'' \<or> (k, v) \<in> set hdrs \<and> py_lower k \<in> {''content-type'', ''accept''}"
  proof (intro allI impI)
    fix k v assume that: "(k, v) \<in> set (rq_headers ?req)"
    have "(k, v) \<in> set ([(''Authorization'', ''Bearer '' @ show_token (h_token h)), (''Accept'', ''application/json'')] @ relayed_headers hdrs rid)"
      using that set_dict_of by (simp only: host_request_def out_request.simps) blast
    then show "k = ''Authorization'' \<and> v = ''Bearer '' @ show_token (h_token h) \<or> k = ''Accept'' \<or> k = ''X-Request-ID'' \<or>
      (k, v) \<in> set hdrs \<and> py_lower k \<in> {''content-type'', ''accept''}"
      using relayed_headers_set [of k v hdrs rid] by (auto simp: RELAYED_REQUEST_HEADERS_def)
  qed
  have rs: "\<forall>k v. (k, v) \<in> set (rs_headers r) \<longrightarrow> k \<in> {''content-type'', ''content-disposition'', ''retry-after'', ''X-Remote-Request-ID''}"
    using relayed_answer_headers unfolding a(2) by (auto simp: RELAYED_RESPONSE_HEADERS_def)
  obtain b where b: "he_send env (h_url h) ?req = Inr b" "rs_status a = rs_status b" "rs_data a = rs_data b"
    using call_host_sent [OF a(1)] by blast
  have out: "if rs_status b = 401 then rs_status r = 502 \<and> rs_data r = REJECTED else rs_status r = rs_status b \<and> rs_data r = rs_data b"
    using b(2,3) by (simp add: a(2) relayed_answer_def Let_def)
  have paths: "list_all (\<lambda>p. \<not> prefix p (dropWhile (\<lambda>c. c = CHR ''/'') path))
      [''auth'', ''users'', ''hosts'', ''teams'', ''notifications'', ''system/backups'']"
    unfolding LOCAL_ONLY_def [symmetric] list_all_iff using not_local_paths [OF loc] by blast
  have rq: "rq_method ?req = meth" "rq_target ?req = ''/api/'' @ dropWhile (\<lambda>c. c = CHR ''/'') path @ (if query = [] then [] else ''?'' @ query)"
      "rq_body ?req = (if body = Some [] then None else body)"
    by (simp_all add: host_request_def set_text_def)
  show ?thesis
    by (intro exI [of _ h] exI [of _ ?req] exI [of _ b] conjI) (rule h paths b(1) rq request_authorized hd rs out call_host_ok [OF a(1), THEN conjunct1])+
qed

text \<open>A reachable server with a pinned certificate that answers every request with an empty object.\<close>

definition demo_host :: host where
  "demo_host = \<lparr>h_id = 1, h_name = ''lab'', h_url = ''https://lab:8000'', h_token = Some ''t'',
     h_fingerprint = Some ''AA'', h_team = None, h_created = 0, h_checked = None, h_status = None, h_error = None,
     h_version = None\<rparr>"

definition demo_net :: "(string \<Rightarrow> peer) \<Rightarrow> host_env" where
  "demo_net peers = \<lparr>he_peer = peers,
     he_send = (\<lambda>url req. Inr \<lparr>rs_status = 200, rs_headers = [(''Set-Cookie'', ''x'')], rs_data = ''{}''\<rparr>),
     he_loads = (\<lambda>_. Some (JObject [])), he_show = (\<lambda>_. []), he_enc = rev, he_dec = (\<lambda>s. Some (rev s))\<rparr>"

definition demo_hosts :: tenancy where
  "demo_hosts = empty_tenancy\<lparr>hosts := [demo_host], next_host := 2\<rparr>"

lemma demo_get_host: "get_host (demo_net peers) 1 demo_hosts = Some demo_host"
  by (simp add: get_host_def demo_hosts_def demo_host_def fetchone_def reveal_def decrypt_secret_def is_encrypted_def PREFIX_def)

lemma demo_scheme: "up_scheme (url_split ''https://lab:8000'') = ''https''" "up_scheme (url_split ''http://lab:8000'') = ''http''"
  by code_simp+

lemma not_local_agents: "\<not> local_only ''agents''" "\<not> local_only ''%75sers''" "\<not> local_only ''license''"
  by (simp_all add: local_only_def LOCAL_ONLY_def strip_slashes_def rstrip_by_def)

theorem relay_confined_witness:
  "\<exists>r. relay (demo_net (\<lambda>_. Peer False ''AA'')) 1 ''agents'' ''GET'' [] [(''cookie'', ''c'')] None None None demo_hosts = Inr r \<and>
     rs_headers r = [] \<and> rs_status r = 200 \<and> rs_data r = ''{}''"
proof -
  let ?env = "demo_net (\<lambda>_. Peer False ''AA'')"
  let ?a = "\<lparr>rs_status = 200, rs_headers = dict_of [(py_lower ''Set-Cookie'', ''x'')], rs_data = ''{}''\<rparr>"
  have u: "usable_host ?env 1 None demo_hosts = Inr demo_host"
    unfolding usable_host_def demo_get_host by (simp add: usable_by_def is_unrestricted_def)
  have "open_conn ?env (h_url demo_host) (h_fingerprint demo_host) = Inr ()"
    by (simp add: open_conn_def demo_host_def demo_scheme demo_net_def set_text_def)
  then have "call_host ?env (h_url demo_host) (h_fingerprint demo_host) req =
      Inr \<lparr>rs_status = 200, rs_headers = dict_of [(py_lower ''Set-Cookie'', ''x'')], rs_data = ''{}''\<rparr>" for req
    by (simp add: call_host_def) (simp add: demo_net_def MAX_BODY_def)
  then have r: "relay ?env 1 ''agents'' ''GET'' [] [(''cookie'', ''c'')] None None None demo_hosts =
      Inr (relayed_answer \<lparr>rs_status = 200, rs_headers = dict_of [(py_lower ''Set-Cookie'', ''x'')], rs_data = ''{}''\<rparr>)"
    unfolding relay_def u by (simp add: not_local_agents)
  have "rs_headers (relayed_answer \<lparr>rs_status = 200, rs_headers = dict_of [(py_lower ''Set-Cookie'', ''x'')], rs_data = ''{}''\<rparr>) = []"
    by code_simp
  moreover have "he_send ?env url q = Inr b \<Longrightarrow> rs_status b = 200 \<and> rs_data b = ''{}''" for url q b by (auto simp: demo_net_def)
  moreover obtain h :: host and q b where "he_send ?env (h_url h) q = Inr b \<and> (if rs_status b = 401
      then rs_status (relayed_answer ?a) = 502 \<and> rs_data (relayed_answer ?a) = REJECTED
      else rs_status (relayed_answer ?a) = rs_status b \<and> rs_data (relayed_answer ?a) = rs_data b)"
    using relay_confined [OF r] by blast
  ultimately show ?thesis using r by fastforce
qed

section \<open>What stays on each server\<close>

definition remote_path :: "(string \<Rightarrow> string) \<Rightarrow> out_request \<Rightarrow> string" where
  "remote_path percent_decode req = percent_decode (takeWhile (\<lambda>c. c \<noteq> CHR ''?'') (rq_target req))"

lemma local_only_target:
  assumes "\<not> local_only path" and "CHR ''?'' \<notin> set path" and "p \<in> set LOCAL_ONLY"
  shows "\<not> prefix (''/api/'' @ p) (takeWhile (\<lambda>c. c \<noteq> CHR ''?'') (rq_target (host_request t m path query b hs)))"
proof -
  let ?d = "dropWhile (\<lambda>c. c = CHR ''/'') path"
  have "CHR ''?'' \<notin> set ?d" using assms(2) set_dropWhileD by fastforce
  then have t: "takeWhile (\<lambda>c. c \<noteq> CHR ''?'') (rq_target (host_request t m path query b hs)) = ''/api/'' @ ?d"
    by (auto simp: host_request_def takeWhile_append)
  have "p \<noteq> []" "last p \<noteq> CHR ''/''" using assms(3) by (auto simp: LOCAL_ONLY_def)
  then have "\<not> prefix p ?d"
    using assms(1,3) prefix_rstrip [of p ?d "\<lambda>c. c = CHR ''/''"] by (auto simp: local_only_def strip_slashes_def list_ex_iff)
  then show ?thesis unfolding t by simp
qed

text \<open>
  The paths kept local, and a way around them. A server resolves the percent escapes of the path it
  is asked for once; the path the relay checks had its own escapes resolved already. If it has no percent
  sign left, the host never sees a path under one of the local parts. But with one left (the user wrote
  \<open>%2575sers\<close>), the check passes a path that the host takes for one of its account routes. Installing a
  license, for administrators only here, is not among the local parts either.
\<close>

theorem local_paths_relayed:
  assumes "\<And>p. CHR ''%'' \<notin> set p \<Longrightarrow> percent_decode p = p"
    and "percent_decode ''/api/%75sers'' = ''/api/users''"
  shows "(\<not> local_only path \<longrightarrow> CHR ''?'' \<notin> set path \<longrightarrow> CHR ''%'' \<notin> set path \<longrightarrow> p \<in> set LOCAL_ONLY \<longrightarrow>
      \<not> prefix (''/api/'' @ p) (remote_path percent_decode (host_request t m path query b hs))) \<and>
    \<not> local_only ''%75sers'' \<and>
    remote_path percent_decode (host_request t m ''%75sers'' query b hs) = ''/api/users'' \<and>
    local_only ''users'' \<and> \<not> local_only ''license''"
proof -
  have r: "takeWhile (\<lambda>c. c \<noteq> CHR ''?'') (rq_target (host_request t m ''%75sers'' query b hs)) = ''/api/%75sers''"
    by (simp add: host_request_def)
  have "remote_path percent_decode (host_request t m path query b hs) =
      takeWhile (\<lambda>c. c \<noteq> CHR ''?'') (rq_target (host_request t m path query b hs))"
    if "CHR ''?'' \<notin> set path" "CHR ''%'' \<notin> set path"
  proof -
    have "CHR ''%'' \<notin> set (takeWhile (\<lambda>c. c \<noteq> CHR ''?'') (rq_target (host_request t m path query b hs)))"
      using that set_dropWhileD [of "CHR ''%''" _ path] set_dropWhileD [of "CHR ''?''" _ path]
      by (auto simp: host_request_def takeWhile_append dest: set_dropWhileD set_takeWhileD)
    then show ?thesis using assms(1) by (simp add: remote_path_def)
  qed
  moreover have "local_only ''users''" by (simp add: local_only_def LOCAL_ONLY_def strip_slashes_def rstrip_by_def)
  moreover have "remote_path percent_decode (host_request t m ''%75sers'' query b hs) = ''/api/users''"
    unfolding remote_path_def r by (rule assms(2))
  ultimately show ?thesis using local_only_target not_local_agents by auto
qed

text \<open>Percent escapes of two digits and letters of hexadecimal, resolved once.\<close>

fun percent_decode :: "string \<Rightarrow> string" where
  "percent_decode [] = []"
| "percent_decode (c # s) =
     (if c = CHR ''%'' \<and> 2 \<le> length s
      then char_of (16 * hex_value (hd s) + hex_value (hd (tl s))) # percent_decode (drop 2 s)
      else c # percent_decode s)"

theorem local_paths_relayed_witness:
  "\<not> local_only ''%75sers'' \<and>
    remote_path percent_decode (host_request None ''GET'' ''%75sers'' [] None []) = ''/api/users''"
proof -
  have "percent_decode p = p" if "CHR ''%'' \<notin> set p" for p using that by (induction p) auto
  moreover have "percent_decode ''/api/%75sers'' = ''/api/users''" by code_simp
  ultimately show ?thesis using local_paths_relayed [of percent_decode] by blast
qed

section \<open>Which hosts are reported\<close>

definition host_key :: "host \<Rightarrow> string" where
  "host_key h = ''host_unreachable:'' @ h_name h"

definition health :: "host_env \<Rightarrow> host \<Rightarrow> host_error + json" where
  "health env h = get_json env (h_url h) (h_token h) (h_fingerprint h) ''system/health''"

definition alert_on :: "host_state \<Rightarrow> string \<Rightarrow> bool" where
  "alert_on s k = (map_of (hs_active s) k \<noteq> None)"

lemma with_alerts_active: "hs_active (with_alerts f s) = fst (f (hs_active s))"
  by (simp add: with_alerts_def split: prod.split)

lemma check_host_effect:
  assumes "h_name h \<noteq> []" and "\<And>e. health env h \<noteq> Inl (NetworkError e)"
  shows "snd (check_host env now h s)"
    "alert_on (fst (check_host env now h s)) k =
      (if k = host_key h then \<not> is_ok (health env h) else alert_on s k)"
proof -
  have k: "key_of ''host_unreachable'' (Some (h_name h)) = host_key h" using assms(1) by (simp add: key_of_def host_key_def)
  have "snd (check_host env now h s) \<and> alert_on (fst (check_host env now h s)) k =
      (if k = host_key h then \<not> is_ok (health env h) else alert_on s k)"
  proof (cases "health env h")
    case (Inl e)
    then have "\<not> uncaught e" using assms(2) by (cases e) (auto simp: uncaught_def)
    then show ?thesis using Inl k
      by (simp add: check_host_def health_def Let_def alert_on_def with_alerts_active map_of_fire)
  next
    case (Inr j)
    then show ?thesis using k
      by (simp add: check_host_def health_def Let_def alert_on_def with_alerts_active map_of_clear)
  qed
  then show "snd (check_host env now h s)"
    "alert_on (fst (check_host env now h s)) k = (if k = host_key h then \<not> is_ok (health env h) else alert_on s k)"
    by simp_all
qed

lemma check_hosts_effect:
  assumes "\<forall>h\<in>set hs. h_name h \<noteq> [] \<and> (\<forall>e. health env h \<noteq> Inl (NetworkError e))" and "distinct (map h_name hs)"
  shows "snd (check_hosts env now hs s) \<and> alert_on (fst (check_hosts env now hs s)) k =
      (if \<exists>h\<in>set hs. k = host_key h then \<exists>h\<in>set hs. k = host_key h \<and> \<not> is_ok (health env h) else alert_on s k)"
  using assms
proof (induction hs arbitrary: s)
  case (Cons h hs)
  have e: "snd (check_host env now h s)" "alert_on (fst (check_host env now h s)) k =
      (if k = host_key h then \<not> is_ok (health env h) else alert_on s k)"
    using check_host_effect(1) [of h env now s] check_host_effect(2) [of h env now s k] Cons.prems by simp_all
  then obtain s' where s': "check_host env now h s = (s', True)" by (cases "check_host env now h s") auto
  have "host_key h' \<noteq> host_key h" if "h' \<in> set hs" for h' 
    using Cons.prems(2) imageI [OF that, of h_name] by (auto simp: host_key_def)
  then have n: "\<not> (\<exists>h'\<in>set hs. k = host_key h')" if "k = host_key h" using that by metis
  have ih: "snd (check_hosts env now hs s') \<and> alert_on (fst (check_hosts env now hs s')) k =
      (if \<exists>h\<in>set hs. k = host_key h then \<exists>h\<in>set hs. k = host_key h \<and> \<not> is_ok (health env h) else alert_on s' k)"
    using Cons by simp
  show ?case
  proof (cases "k = host_key h")
    case True
    then show ?thesis using ih n e(2) by (simp add: s')
  next
    case False
    then show ?thesis using ih e(2) by (simp add: s')
  qed
qed simp

text \<open>
  The check of the other servers. When no connection fails outside the errors it handles, it goes
  through all hosts; afterwards the alert of each is on exactly if it did not answer properly, and every
  other alert is as it was (that of a host removed or renamed since it failed stays on).
\<close>

theorem check_all_reports:
  assumes "\<forall>h\<in>set (list_hosts env (hs_db s)). h_name h \<noteq> [] \<and> (\<forall>e. health env h \<noteq> Inl (NetworkError e))"
    and "distinct (map h_name (hosts (hs_db s)))"
  shows "snd (check_all env now s) \<and>
    (\<forall>h\<in>set (list_hosts env (hs_db s)). alert_on (fst (check_all env now s)) (host_key h) = (\<not> is_ok (health env h))) \<and>
    (\<forall>k. k \<notin> host_key ` set (hosts (hs_db s)) \<longrightarrow> alert_on (fst (check_all env now s)) k = alert_on s k)"
proof -
  let ?hs = "list_hosts env (hs_db s)"
  have d: "distinct (map h_name ?hs)"
  proof -
    have "map h_name ?hs = map h_name (sort_key (\<lambda>h. nocase (h_name h)) (hosts (hs_db s)))"
      by (simp add: list_hosts_def reveal_def)
    then show ?thesis using assms(2) by (simp add: distinct_map)
  qed
  have keys: "host_key ` set ?hs = host_key ` set (hosts (hs_db s))"
    by (simp add: list_hosts_def image_image host_key_def reveal_def)
  have inj: "h = h'" if "h \<in> set ?hs" "h' \<in> set ?hs" "host_key h = host_key h'" for h h'
    using that distinct_map_eq [OF d that(1,2)] by (simp add: host_key_def)
  note e = check_hosts_effect [OF assms(1) d, of now s, THEN conjunct1] check_hosts_effect [OF assms(1) d, of now s, THEN conjunct2]
  have "alert_on (fst (check_all env now s)) (host_key h) = (\<not> is_ok (health env h))" if "h \<in> set ?hs" for h
    using e(2) [of "host_key h"] that inj unfolding check_all_def by auto
  moreover have "alert_on (fst (check_all env now s)) k = alert_on s k" if "k \<notin> host_key ` set (hosts (hs_db s))" for k
    using e(2) [of k] that unfolding check_all_def keys [symmetric] by auto
  ultimately show ?thesis using e(1) by (auto simp: check_all_def)
qed

definition demo_state :: "tenancy \<Rightarrow> host_state" where
  "demo_state st = \<lparr>hs_db = st, hs_active = [], hs_sent = []\<rparr>"

lemma demo_list_hosts: "list_hosts (demo_net peers) demo_hosts = [demo_host]"
  by (simp add: list_hosts_def demo_hosts_def demo_host_def reveal_def decrypt_secret_def is_encrypted_def PREFIX_def)

theorem check_all_reports_witness:
  "alert_on (fst (check_all (demo_net (\<lambda>_. Refused ''down'')) 5 (demo_state demo_hosts))) ''host_unreachable:lab''"
proof -
  let ?env = "demo_net (\<lambda>_. Refused ''down'')"
  have "open_conn ?env (h_url demo_host) (h_fingerprint demo_host) =
      Inl (HostError (''Can'' @ [CHR 0x27] @ ''t connect to '' @ h_url demo_host @ '': '' @ ''down''))"
    by (simp add: open_conn_def demo_host_def demo_scheme demo_net_def)
  then have h: "\<exists>e. health ?env demo_host = Inl (HostError e)"
    by (simp add: health_def get_json_def call_host_def)
  have "distinct (map h_name (hosts (hs_db (demo_state demo_hosts))))" "h_name demo_host \<noteq> []"
    by (simp_all add: demo_state_def demo_hosts_def demo_host_def)
  moreover have "list_hosts ?env (hs_db (demo_state demo_hosts)) = [demo_host]"
    by (simp add: demo_state_def demo_list_hosts)
  moreover have "host_key demo_host = ''host_unreachable:lab''" by (simp add: host_key_def demo_host_def)
  ultimately show ?thesis using check_all_reports [of ?env "demo_state demo_hosts" 5] h by auto
qed

text \<open>
  A host reached over plain HTTP that refuses the connection ends the whole check: no alert is
  raised for it, the hosts after it are not looked at, and the check of the license that would follow is
  left out as well.
\<close>

theorem plain_http_blocks_check:
  assumes "list_hosts env (hs_db (with_alerts (check_lxc now lxc) (with_alerts (check_disks now thr desc back disks) s))) = pre @ h # post"
    and "\<forall>x\<in>set pre. h_name x \<noteq> [] \<and> (\<forall>e. health env x \<noteq> Inl (NetworkError e))" and "distinct (map h_name pre)"
    and "up_scheme (url_split (h_url h)) = ''http''" and "he_peer env (h_url h) = Refused e"
  shows "check_conditions env now thr desc back disks lxc lic s =
    (fst (check_hosts env now pre (with_alerts (check_lxc now lxc) (with_alerts (check_disks now thr desc back disks) s))), False)"
proof -
  let ?s = "with_alerts (check_lxc now lxc) (with_alerts (check_disks now thr desc back disks) s)"
  have "health env h = Inl (NetworkError e)"
    using assms(4,5) by (simp add: health_def get_json_def call_host_def open_conn_def)
  then have stop: "check_host env now h t = (t, False)" for t
    by (simp add: check_host_def health_def uncaught_def)
  have "check_hosts env now (xs @ h # post) t = (fst (check_hosts env now xs t), False)"
    if "\<forall>x\<in>set xs. h_name x \<noteq> [] \<and> (\<forall>e. health env x \<noteq> Inl (NetworkError e))" for xs t
    using that
  proof (induction xs arbitrary: t)
    case (Cons x xs)
    then obtain t' where "check_host env now x t = (t', True)"
      using check_host_effect(1) [of x env now t] by (cases "check_host env now x t") auto
    then show ?case using Cons by simp
  qed (simp add: stop)
  then show ?thesis using assms(1,2) by (simp add: check_conditions_def Let_def check_all_def)
qed

theorem plain_http_blocks_check_witness:
  "\<exists>s. hs_active (fst (check_conditions (demo_net (\<lambda>_. Refused ''down'')) 5 0 (\<lambda>_. ([], [])) ''0'' [] None
      (FireCritical ''The trial has ended.'') s)) = []"
proof -
  let ?h = "demo_host\<lparr>h_url := ''http://lab:8000''\<rparr>"
  let ?s = "demo_state (demo_hosts\<lparr>hosts := [?h]\<rparr>)"
  let ?env = "demo_net (\<lambda>_. Refused ''down'')"
  have q: "with_alerts (check_lxc 5 None) (with_alerts (check_disks 5 0 (\<lambda>_. ([], [])) ''0'' []) ?s) = ?s"
    by (simp add: with_alerts_def check_disks_def check_lxc_def clear_def demo_state_def)
  have "list_hosts ?env (hs_db ?s) = [] @ ?h # []"
    by (simp add: list_hosts_def demo_state_def demo_host_def reveal_def decrypt_secret_def is_encrypted_def PREFIX_def)
  moreover have "up_scheme (url_split (h_url ?h)) = ''http''" "he_peer ?env (h_url ?h) = Refused ''down''"
    by (simp_all add: demo_scheme demo_net_def)
  ultimately have "check_conditions ?env 5 0 (\<lambda>_. ([], [])) ''0'' [] None (FireCritical ''The trial has ended.'') ?s = (?s, False)"
    using plain_http_blocks_check [of ?env 5 None 0 "\<lambda>_. ([], [])" "''0''" "[]" ?s "[]" ?h "[]"] unfolding q by simp
  then show ?thesis by (intro exI [of _ ?s]) (simp add: demo_state_def)
qed

end
