(* ===== verification/Lxc.thy ===== *)
theory Lxc
  imports Validation
begin

text \<open>
  The LXC library as the program uses it (\<^verbatim>\<open>core/lxc_backend.py\<close>: python-lxc or the helper's client with
  the same interface) and the helpers on top of it: \<^verbatim>\<open>core/container.py\<close>, \<^verbatim>\<open>core/shell.py\<close>,
  \<^verbatim>\<open>core/os_images.py\<close> and \<^verbatim>\<open>core/common.py\<close>. The host with its containers is the state \<open>'w\<close>; an
  operation of the library is a field of the record \<open>lxc\<close>, a program either ends with a value or raises
  (the text of the exception), and keeps the state it reached in both cases.
\<close>

section \<open>Programs with state and exceptions\<close>

type_synonym ('a, 'w) eff = "'w \<Rightarrow> (string + 'a) \<times> 'w"

definition ret :: "'a \<Rightarrow> ('a, 'w) eff" where
  "ret x w = (Inr x, w)"

definition raise_error :: "string \<Rightarrow> ('a, 'w) eff" where
  "raise_error e w = (Inl e, w)"

definition bind_eff :: "('a, 'w) eff \<Rightarrow> ('a \<Rightarrow> ('b, 'w) eff) \<Rightarrow> ('b, 'w) eff" where
  "bind_eff m f w = (case m w of (Inl e, w') \<Rightarrow> (Inl e, w') | (Inr x, w') \<Rightarrow> f x w')"

definition then_eff :: "('a, 'w) eff \<Rightarrow> ('b, 'w) eff \<Rightarrow> ('b, 'w) eff" where
  "then_eff m n = bind_eff m (\<lambda>_. n)"

text \<open>\<open>try: m; except Exception as e: h(e)\<close>.\<close>

definition catch_eff :: "('a, 'w) eff \<Rightarrow> (string \<Rightarrow> ('a, 'w) eff) \<Rightarrow> ('a, 'w) eff" where
  "catch_eff m h w = (case m w of (Inl e, w') \<Rightarrow> h e w' | (Inr x, w') \<Rightarrow> (Inr x, w'))"

definition upd_eff :: "('w \<Rightarrow> 'w) \<Rightarrow> (unit, 'w) eff" where
  "upd_eff f w = (Inr (), f w)"

definition get_eff :: "('w \<Rightarrow> 'a) \<Rightarrow> ('a, 'w) eff" where
  "get_eff f w = (Inr (f w), w)"

text \<open>A program keeps a view of the state, whatever its result; a program never raises.\<close>

definition keeps :: "('w \<Rightarrow> 'x) \<Rightarrow> ('a, 'w) eff \<Rightarrow> bool" where
  "keeps v m = (\<forall>w. v (snd (m w)) = v w)"

definition no_raise :: "('a, 'w) eff \<Rightarrow> bool" where
  "no_raise m = (\<forall>w. is_ok (fst (m w)))"

lemma keepsD: "keeps v m \<Longrightarrow> m w = (r, w') \<Longrightarrow> v w' = v w"
  unfolding keeps_def by (metis snd_conv)

lemma keeps_ret [inv_intros]: "keeps v (ret x)"
  by (simp add: keeps_def ret_def)

lemma keeps_raise [inv_intros]: "keeps v (raise_error e)"
  by (simp add: keeps_def raise_error_def)

lemma keeps_get [inv_intros]: "keeps v (get_eff f)"
  by (simp add: keeps_def get_eff_def)

lemma keeps_upd: "(\<And>w. v (f w) = v w) \<Longrightarrow> keeps v (upd_eff f)"
  by (simp add: keeps_def upd_eff_def)

lemma keeps_bind [inv_intros]: "keeps v m \<Longrightarrow> (\<And>x. keeps v (f x)) \<Longrightarrow> keeps v (bind_eff m f)"
  by (auto simp: keeps_def bind_eff_def split: prod.splits sum.splits) (metis snd_conv)+

lemma keeps_then [inv_intros]: "keeps v m \<Longrightarrow> keeps v n \<Longrightarrow> keeps v (then_eff m n)"
  by (simp add: then_eff_def keeps_bind)

lemma keeps_catch [inv_intros]: "keeps v m \<Longrightarrow> (\<And>e. keeps v (h e)) \<Longrightarrow> keeps v (catch_eff m h)"
  by (auto simp: keeps_def catch_eff_def split: prod.splits sum.splits dest: keepsD) (metis snd_conv)+

lemma keeps_if [inv_intros]: "(c \<Longrightarrow> keeps v m) \<Longrightarrow> (\<not> c \<Longrightarrow> keeps v n) \<Longrightarrow> keeps v (if c then m else n)"
  by simp

lemma keeps_option [inv_intros]:
  "(x = None \<Longrightarrow> keeps v m) \<Longrightarrow> (\<And>y. x = Some y \<Longrightarrow> keeps v (f y)) \<Longrightarrow> keeps v (case x of None \<Rightarrow> m | Some y \<Rightarrow> f y)"
  by (cases x) simp_all

lemma no_raise_catch: "(\<And>e. no_raise (h e)) \<Longrightarrow> no_raise (catch_eff m h)"
  by (auto simp: no_raise_def catch_eff_def split: prod.splits sum.splits)

lemma no_raise_ret [simp]: "no_raise (ret x)"
  by (simp add: no_raise_def ret_def)

text \<open>Every value a program returns satisfies \<open>P\<close>.\<close>

definition returns :: "('a \<Rightarrow> bool) \<Rightarrow> ('a, 'w) eff \<Rightarrow> bool" where
  "returns P m = (\<forall>w x. fst (m w) = Inr x \<longrightarrow> P x)"

lemma returns_ret [inv_intros]: "P x \<Longrightarrow> returns P (ret x)"
  by (simp add: returns_def ret_def)

lemma returns_raise [inv_intros]: "returns P (raise_error e)"
  by (simp add: returns_def raise_error_def)

lemma returns_bind [inv_intros]: "(\<And>x. returns P (f x)) \<Longrightarrow> returns P (bind_eff m f)"
  by (auto simp: returns_def bind_eff_def split: prod.splits sum.splits)

lemma returns_then [inv_intros]: "returns P n \<Longrightarrow> returns P (then_eff m n)"
  by (simp add: then_eff_def returns_bind)

lemma returns_catch [inv_intros]: "returns P m \<Longrightarrow> (\<And>e. returns P (h e)) \<Longrightarrow> returns P (catch_eff m h)"
  unfolding returns_def catch_eff_def by (auto split: prod.splits sum.splits) (metis fst_conv)

lemma returns_if [inv_intros]: "(c \<Longrightarrow> returns P m) \<Longrightarrow> (\<not> c \<Longrightarrow> returns P n) \<Longrightarrow> returns P (if c then m else n)"
  by simp

lemma returns_option [inv_intros]:
  "(x = None \<Longrightarrow> returns P m) \<Longrightarrow> (\<And>y. x = Some y \<Longrightarrow> returns P (f y)) \<Longrightarrow> returns P (case x of None \<Rightarrow> m | Some y \<Rightarrow> f y)"
  by (cases x) simp_all

section \<open>The library\<close>

text \<open>What a command run in a container with \<^verbatim>\<open>lxc-attach\<close> returned.\<close>

record attach_result =
  at_code :: int
  at_out :: string
  at_err :: string
  at_timed_out :: bool

record 'w lxc =
  lx_list :: "(string list, 'w) eff"
  lx_create :: "string \<Rightarrow> string \<Rightarrow> string \<Rightarrow> string \<Rightarrow> (bool, 'w) eff"
  lx_set_cgroup :: "string \<Rightarrow> string \<Rightarrow> string \<Rightarrow> (bool, 'w) eff"
  lx_save :: "string \<Rightarrow> (bool, 'w) eff"
  lx_start :: "string \<Rightarrow> (bool, 'w) eff"
  lx_stop :: "string \<Rightarrow> (bool, 'w) eff"
  lx_shutdown :: "string \<Rightarrow> nat \<Rightarrow> (bool, 'w) eff"
  lx_destroy :: "string \<Rightarrow> (bool, 'w) eff"
  lx_wait :: "string \<Rightarrow> string \<Rightarrow> nat \<Rightarrow> (bool, 'w) eff"
  lx_running :: "string \<Rightarrow> (bool, 'w) eff"
  lx_state :: "string \<Rightarrow> (string, 'w) eff"
  lx_init_pid :: "string \<Rightarrow> (int, 'w) eff"
  lx_ips :: "string \<Rightarrow> (string list, 'w) eff"
  lx_attach :: "string \<Rightarrow> string list \<Rightarrow> string option \<Rightarrow> nat \<Rightarrow> (attach_result, 'w) eff"
  lx_defined :: "string \<Rightarrow> (bool, 'w) eff"
  lx_get_cgroup :: "string \<Rightarrow> string \<Rightarrow> (string, 'w) eff"
  lx_interfaces :: "string \<Rightarrow> (string list, 'w) eff"
  lx_config :: "string \<Rightarrow> (string option, 'w) eff"
  lx_sleep :: "rat \<Rightarrow> 'w \<Rightarrow> 'w"
  lx_clock :: "'w \<Rightarrow> rat"

text \<open>
  The operations on one container do not touch the others: \<open>view m\<close> is what is seen of the container \<open>m\<close>.
  Looking, waiting and sleeping touch none.
\<close>

definition lxc_confined :: "'w lxc \<Rightarrow> (string \<Rightarrow> 'w \<Rightarrow> 'x) \<Rightarrow> bool" where
  "lxc_confined x view \<longleftrightarrow>
     (\<forall>m. keeps (view m) (lx_list x)) \<and> (\<forall>m d w. view m (lx_sleep x d w) = view m w) \<and>
     (\<forall>n m. n \<noteq> m \<longrightarrow>
        (\<forall>a b c. keeps (view m) (lx_create x n a b c)) \<and> (\<forall>k v. keeps (view m) (lx_set_cgroup x n k v)) \<and>
        keeps (view m) (lx_save x n) \<and> keeps (view m) (lx_start x n) \<and> keeps (view m) (lx_stop x n) \<and>
        (\<forall>t. keeps (view m) (lx_shutdown x n t)) \<and> keeps (view m) (lx_destroy x n) \<and>
        (\<forall>s t. keeps (view m) (lx_wait x n s t)) \<and> keeps (view m) (lx_running x n) \<and> keeps (view m) (lx_state x n) \<and>
        keeps (view m) (lx_init_pid x n) \<and> keeps (view m) (lx_ips x n) \<and>
        (\<forall>argv i t. keeps (view m) (lx_attach x n argv i t)) \<and> keeps (view m) (lx_defined x n) \<and>
        (\<forall>k. keeps (view m) (lx_get_cgroup x n k)) \<and> keeps (view m) (lx_interfaces x n) \<and> keeps (view m) (lx_config x n))"

lemma confined_keeps [inv_intros]:
  assumes "lxc_confined x view"
  shows "keeps (view m) (lx_list x)" "keeps (view m) (upd_eff (lx_sleep x d))"
    "n \<noteq> m \<Longrightarrow> keeps (view m) (lx_create x n a b c)" "n \<noteq> m \<Longrightarrow> keeps (view m) (lx_set_cgroup x n k v)"
    "n \<noteq> m \<Longrightarrow> keeps (view m) (lx_save x n)" "n \<noteq> m \<Longrightarrow> keeps (view m) (lx_start x n)"
    "n \<noteq> m \<Longrightarrow> keeps (view m) (lx_stop x n)" "n \<noteq> m \<Longrightarrow> keeps (view m) (lx_shutdown x n t)"
    "n \<noteq> m \<Longrightarrow> keeps (view m) (lx_destroy x n)" "n \<noteq> m \<Longrightarrow> keeps (view m) (lx_wait x n s t)"
    "n \<noteq> m \<Longrightarrow> keeps (view m) (lx_running x n)" "n \<noteq> m \<Longrightarrow> keeps (view m) (lx_state x n)"
    "n \<noteq> m \<Longrightarrow> keeps (view m) (lx_init_pid x n)" "n \<noteq> m \<Longrightarrow> keeps (view m) (lx_ips x n)"
    "n \<noteq> m \<Longrightarrow> keeps (view m) (lx_attach x n argv i t)" "n \<noteq> m \<Longrightarrow> keeps (view m) (lx_defined x n)"
    "n \<noteq> m \<Longrightarrow> keeps (view m) (lx_get_cgroup x n k)" "n \<noteq> m \<Longrightarrow> keeps (view m) (lx_interfaces x n)"
    "n \<noteq> m \<Longrightarrow> keeps (view m) (lx_config x n)"
  using assms unfolding lxc_confined_def by (auto intro: keeps_upd)

text \<open>A host that satisfies this: its containers and whether they run; commands in them do nothing.\<close>

definition plain_host :: "(string \<times> bool) list lxc" where
  "plain_host =
     \<lparr>lx_list = (\<lambda>w. (Inr (map fst w), w)), lx_create = (\<lambda>n d r a w. (Inr True, AList.update n False w)),
      lx_set_cgroup = (\<lambda>n k v w. (Inr True, w)), lx_save = (\<lambda>n w. (Inr True, w)),
      lx_start = (\<lambda>n w. (Inr True, AList.update n True w)), lx_stop = (\<lambda>n w. (Inr True, AList.update n False w)),
      lx_shutdown = (\<lambda>n t w. (Inr True, AList.update n False w)), lx_destroy = (\<lambda>n w. (Inr True, AList.delete n w)),
      lx_wait = (\<lambda>n s t w. (Inr True, w)), lx_running = (\<lambda>n w. (Inr (map_of w n = Some True), w)),
      lx_state = (\<lambda>n w. (Inr (if map_of w n = Some True then ''RUNNING'' else ''STOPPED''), w)),
      lx_init_pid = (\<lambda>n w. (Inr 1, w)), lx_ips = (\<lambda>n w. (Inr [''10.0.3.7''], w)),
      lx_attach = (\<lambda>n argv i t w. (Inr \<lparr>at_code = 0, at_out = [], at_err = [], at_timed_out = False\<rparr>, w)),
      lx_defined = (\<lambda>n w. (Inr (map_of w n \<noteq> None), w)), lx_get_cgroup = (\<lambda>n k w. (Inr ''0'', w)),
      lx_interfaces = (\<lambda>n w. (Inr [''eth0''], w)), lx_config = (\<lambda>n w. (Inr None, w)),
      lx_sleep = (\<lambda>d w. w), lx_clock = (\<lambda>w. 0)\<rparr>"

lemma plain_host_confined: "lxc_confined plain_host (\<lambda>m w. map_of w m)"
  by (simp add: lxc_confined_def plain_host_def keeps_def update_conv' delete_conv')

section \<open>Images\<close>

definition OS_IMAGES :: "(string \<times> (string \<times> string \<times> string)) list" where
  "OS_IMAGES = [(''ubuntu_22_04'', (''ubuntu'', ''jammy'', ''amd64'')), (''ubuntu_24_04'', (''ubuntu'', ''noble'', ''amd64'')),
     (''debian_12'', (''debian'', ''bookworm'', ''amd64''))]"

definition quote_repr :: "string \<Rightarrow> string" where
  "quote_repr s = [CHR 0x27] @ s @ [CHR 0x27]"

definition get_os_config :: "string \<Rightarrow> (string \<times> string \<times> string, 'w) eff" where
  "get_os_config t = (case map_of OS_IMAGES t of
     None \<Rightarrow> raise_error (''Unsupported OS type '' @ quote_repr t @ ''; choose one of: '' @ join_with '', '' (map fst OS_IMAGES))
   | Some i \<Rightarrow> ret i)"

section \<open>Memory limits\<close>

definition upper_char :: "char \<Rightarrow> char" where
  "upper_char c = (if ascii_lower c then char_of (cp c - 32) else c)"

text \<open>The pattern \<open>(\d+)([KMG]?B)?\<close> at the start of the text: the digits and the unit, if there is one.\<close>

definition memory_unit :: "string \<Rightarrow> string option" where
  "memory_unit s = (case s of
     CHR ''K'' # CHR ''B'' # _ \<Rightarrow> Some ''KB'' | CHR ''M'' # CHR ''B'' # _ \<Rightarrow> Some ''MB''
   | CHR ''G'' # CHR ''B'' # _ \<Rightarrow> Some ''GB'' | CHR ''B'' # _ \<Rightarrow> Some ''B'' | _ \<Rightarrow> None)"

definition multiplier :: "string option \<Rightarrow> nat" where
  "multiplier u = (if u = Some ''KB'' then 1024 else if u = Some ''MB'' then 1024 * 1024
     else if u = Some ''GB'' then 1024 * 1024 * 1024 else 1)"

definition parse_memory_limit :: "string \<Rightarrow> string" where
  "parse_memory_limit s =
     (let t = map upper_char s; ds = takeWhile ascii_digit t
      in if ds = [] then ''536870912''
         else nat_str (nat_val ds * multiplier (memory_unit (dropWhile ascii_digit t))))"

section \<open>Running commands in containers\<close>

record cmd_result =
  cr_success :: bool
  cr_stdout :: string
  cr_stderr :: string
  cr_code :: int

text \<open>The command line of \<open>attach_run\<close> in direct mode.\<close>

definition attach_cmd :: "string \<Rightarrow> (string \<times> string) list \<Rightarrow> string list \<Rightarrow> string list" where
  "attach_cmd n env argv = [''lxc-attach'', ''-n'', n] @ concat (map (\<lambda>(k, v). [''-v'', k @ ''='' @ v]) env) @ [''--''] @ argv"

definition to_cmd_result :: "attach_result \<Rightarrow> string \<Rightarrow> cmd_result" where
  "to_cmd_result r timeout_msg =
     (if at_timed_out r then \<lparr>cr_success = False, cr_stdout = py_strip (at_out r), cr_stderr = timeout_msg, cr_code = -1\<rparr>
      else \<lparr>cr_success = (at_code r = 0), cr_stdout = py_strip (at_out r), cr_stderr = py_strip (at_err r), cr_code = at_code r\<rparr>)"

definition cmd_error :: "string \<Rightarrow> cmd_result" where
  "cmd_error e = \<lparr>cr_success = False, cr_stdout = [], cr_stderr = e, cr_code = 1\<rparr>"

text \<open>
  The decorator \<open>retry\<close>: at most so many attempts, with the delay before the next one growing. With no
  attempt allowed the function is not called and the result is \<open>None\<close>.
\<close>

fun retry_eff :: "(rat \<Rightarrow> 'w \<Rightarrow> 'w) \<Rightarrow> nat \<Rightarrow> rat \<Rightarrow> rat \<Rightarrow> ('a, 'w) eff \<Rightarrow> ('a option, 'w) eff" where
  "retry_eff sleep 0 delay backoff f w = (Inr None, w)"
| "retry_eff sleep (Suc k) delay backoff f w = (case f w of
     (Inr r, w') \<Rightarrow> (Inr (Some r), w')
   | (Inl e, w') \<Rightarrow> if k = 0 then (Inl e, w') else retry_eff sleep k (delay * backoff) backoff f (sleep delay w'))"

definition attach_once :: "'w lxc \<Rightarrow> string \<Rightarrow> string \<Rightarrow> nat \<Rightarrow> (cmd_result, 'w) eff" where
  "attach_once x n command timeout = catch_eff
     (bind_eff (lx_attach x n [''bash'', ''-c'', command] None timeout)
        (\<lambda>r. ret (to_cmd_result r (''Command timeout after '' @ nat_str timeout @ ''s''))))
     (\<lambda>e. ret (cmd_error e))"

definition execute_in_container :: "'w lxc \<Rightarrow> string \<Rightarrow> string \<Rightarrow> nat \<Rightarrow> (cmd_result option, 'w) eff" where
  "execute_in_container x n command timeout = retry_eff (lx_sleep x) 3 2 2 (attach_once x n command timeout)"

text \<open>The script is copied to a fresh path of the container (\<open>uuid.uuid4\<close>, an argument), run and removed.\<close>

definition execute_in_container_shell ::
  "'w lxc \<Rightarrow> string \<Rightarrow> string \<Rightarrow> string \<Rightarrow> nat \<Rightarrow> (cmd_result, 'w) eff" where
  "execute_in_container_shell x uuid n command timeout = catch_eff
     (let script = ''#!/bin/bash'' @ [CHR 0x0A] @ ''set -o pipefail'' @ [CHR 0x0A] @ command @ [CHR 0x0A];
          path = ''/tmp/script_'' @ uuid @ ''.sh'' in
      bind_eff (lx_attach x n [''bash'', ''-c'', ''cat > '' @ [CHR 0x22] @ ''$1'' @ [CHR 0x22] @ '' && chmod +x '' @
          [CHR 0x22] @ ''$1'' @ [CHR 0x22], ''copy'', path] (Some script) 30) (\<lambda>copy.
        if at_code copy \<noteq> 0 then ret \<lparr>cr_success = False, cr_stdout = [],
            cr_stderr = ''Failed to copy script to container: '' @ py_strip (at_err copy), cr_code = at_code copy\<rparr>
        else bind_eff (lx_attach x n [''bash'', path] None timeout) (\<lambda>r.
          then_eff (lx_attach x n [''rm'', ''-f'', path] None 10)
            (ret (to_cmd_result r (''Script timeout after '' @ nat_str timeout @ ''s''))))))
     (\<lambda>e. ret (cmd_error e))"

section \<open>Container helpers\<close>

definition container_exists :: "'w lxc \<Rightarrow> string \<Rightarrow> (bool, 'w) eff" where
  "container_exists x n = bind_eff (lx_list x) (\<lambda>ns. ret (n \<in> set ns))"

definition is_container_running :: "'w lxc \<Rightarrow> string \<Rightarrow> (bool, 'w) eff" where
  "is_container_running x n = bind_eff (container_exists x n) (\<lambda>e. if \<not> e then ret False else lx_running x n)"

definition get_container_state :: "'w lxc \<Rightarrow> string \<Rightarrow> (string option, 'w) eff" where
  "get_container_state x n = bind_eff (container_exists x n)
     (\<lambda>e. if \<not> e then ret None else bind_eff (lx_state x n) (\<lambda>s. ret (Some s)))"

primrec start_container_with_retry :: "'w lxc \<Rightarrow> string \<Rightarrow> nat \<Rightarrow> (bool, 'w) eff" where
  "start_container_with_retry x n 0 = ret False"
| "start_container_with_retry x n (Suc k) = bind_eff
     (catch_eff
        (bind_eff (lx_start x n) (\<lambda>ok. if ok then then_eff (lx_wait x n ''RUNNING'' 10) (ret True)
           else then_eff (upd_eff (lx_sleep x 2)) (ret False)))
        (\<lambda>e. then_eff (upd_eff (lx_sleep x 2)) (ret False)))
     (\<lambda>started. if started then ret True else start_container_with_retry x n k)"

definition stop_container_gracefully :: "'w lxc \<Rightarrow> string \<Rightarrow> nat \<Rightarrow> (bool, 'w) eff" where
  "stop_container_gracefully x n timeout = bind_eff (lx_running x n) (\<lambda>running.
     if \<not> running then ret True
     else bind_eff (lx_shutdown x n timeout) (\<lambda>down.
       if down then then_eff (lx_wait x n ''STOPPED'' timeout) (ret True) else lx_stop x n))"

section \<open>Writing files and log lines\<close>

text \<open>\<open>shlex.quote\<close> and \<open>base64.b64encode\<close> of bytes; a text is encoded as UTF-8 first.\<close>

definition shlex_safe :: "char \<Rightarrow> bool" where
  "shlex_safe c = one_of ''_@%+=:,./-'' c"

definition shlex_quote :: "string \<Rightarrow> string" where
  "shlex_quote s = (if s = [] then [CHR 0x27, CHR 0x27]
     else if list_all shlex_safe s then s
     else [CHR 0x27] @ concat (map (\<lambda>c. if c = CHR 0x27 then [CHR 0x27, CHR 0x22, CHR 0x27, CHR 0x22, CHR 0x27] else [c]) s)
       @ [CHR 0x27])"

definition utf8 :: "string \<Rightarrow> nat list" where
  "utf8 s = concat (map (\<lambda>c. if cp c < 128 then [cp c] else [192 + cp c div 64, 128 + cp c mod 64]) s)"

definition b64_alphabet :: string where
  "b64_alphabet = ''ABCDEFGHIJKLMNOPQRSTUVWXYZabcdefghijklmnopqrstuvwxyz0123456789+/''"

fun b64encode :: "nat list \<Rightarrow> string" where
  "b64encode [] = []"
| "b64encode [a] = [b64_alphabet ! (a div 4), b64_alphabet ! (a mod 4 * 16), CHR ''='', CHR ''='']"
| "b64encode [a, b] = [b64_alphabet ! (a div 4), b64_alphabet ! (a mod 4 * 16 + b div 16), b64_alphabet ! (b mod 16 * 4), CHR ''='']"
| "b64encode (a # b # c # s) = b64_alphabet ! (a div 4) # b64_alphabet ! (a mod 4 * 16 + b div 16) #
     b64_alphabet ! (b mod 16 * 4 + c div 64) # b64_alphabet ! (c mod 64) # b64encode s"

definition value_error_text :: "value_error \<Rightarrow> string" where
  "value_error_text e = (case e of
     InvalidValue what v \<Rightarrow> ''Invalid '' @ what @ '': '' @ (case v of None \<Rightarrow> ''None'' | Some s \<Rightarrow> quote_repr s)
   | DotDotNotAllowed \<Rightarrow> ''Invalid path: '' @ quote_repr ''..'' @ '' is not allowed''
   | PathNotAbsolute \<Rightarrow> ''Path must be absolute''
   | PathContainsDotDot \<Rightarrow> ''Path cannot contain ..''
   | BadName s \<Rightarrow> ''Invalid name: '' @ s)"

definition build_write_file_script :: "string \<Rightarrow> string \<Rightarrow> bool \<Rightarrow> (string, 'w) eff" where
  "build_write_file_script p content append_to = (case validate_container_path (Some p) of
     Inl e \<Rightarrow> raise_error (value_error_text e)
   | Inr _ \<Rightarrow> let q = shlex_quote p; op = (if append_to then ''>>'' else ''>'') in
       ret (''mkdir -p '' @ [CHR 0x22] @ ''$(dirname -- '' @ q @ '')'' @ [CHR 0x22, CHR 0x0A] @
         ''printf '' @ [CHR 0x27] @ ''%s'' @ [CHR 0x27] @ '' '' @ [CHR 0x27] @ b64encode (utf8 content) @ [CHR 0x27] @
           '' | base64 -d '' @ op @ '' '' @ q @ [CHR 0x0A] @
         ''chmod 644 '' @ q @ [CHR 0x0A]))"

definition inject_logs_to_container :: "'w lxc \<Rightarrow> string \<Rightarrow> string \<Rightarrow> string \<Rightarrow> string \<Rightarrow> bool \<Rightarrow> (cmd_result, 'w) eff" where
  "inject_logs_to_container x uuid n content p append_to = catch_eff
     (bind_eff (build_write_file_script p content append_to) (\<lambda>script.
        execute_in_container_shell x uuid n (script @ ''echo '' @ [CHR 0x22] @ ''Injected $(wc -l < '' @ shlex_quote p @
          '') lines to '' @ [CHR 0x22] @ shlex_quote p @ [CHR 0x0A]) 30))
     (\<lambda>e. ret (cmd_error e))"

text \<open>
  Which container gets which log file, in the order of the calls: every one, in turn, or the one
  \<open>random.choice\<close> picks (the picks are an argument). An empty list of containers makes the last two raise
  as soon as there is a file.
\<close>

datatype strategy = Everywhere | RoundRobin | Random | OtherStrategy

definition destinations :: "strategy \<Rightarrow> (nat \<Rightarrow> nat) \<Rightarrow> string list \<Rightarrow> 'f list \<Rightarrow> string + (string \<times> 'f) list" where
  "destinations s pick names files = (case s of
     Everywhere \<Rightarrow> Inr (List.product names files)
   | RoundRobin \<Rightarrow> if files \<noteq> [] \<and> names = [] then Inl ''integer modulo by zero''
       else Inr (map (\<lambda>(i, f). (names ! (i mod length names), f)) (enumerate 0 files))
   | Random \<Rightarrow> if files \<noteq> [] \<and> names = [] then Inl ''Cannot choose from an empty sequence''
       else Inr (map (\<lambda>(i, f). (names ! (pick i mod length names), f)) (enumerate 0 files))
   | OtherStrategy \<Rightarrow> Inr [])"


primrec inject_files :: "'w lxc \<Rightarrow> string \<Rightarrow> string \<Rightarrow> (string \<times> string) list \<Rightarrow> (cmd_result list, 'w) eff" where
  "inject_files x uuid n [] = ret []"
| "inject_files x uuid n (f # fs) = bind_eff (inject_logs_to_container x uuid n (snd f) (fst f) True)
     (\<lambda>r. bind_eff (inject_files x uuid n fs) (\<lambda>rs. ret (r # rs)))"

primrec inject_everywhere ::
  "'w lxc \<Rightarrow> string \<Rightarrow> (string \<times> string) list \<Rightarrow> string list \<Rightarrow> (string \<times> cmd_result list) list \<Rightarrow> ((string \<times> cmd_result list) list, 'w) eff" where
  "inject_everywhere x uuid files [] results = ret results"
| "inject_everywhere x uuid files (n # ns) results = bind_eff (inject_files x uuid n files)
     (\<lambda>rs. inject_everywhere x uuid files ns (AList.update n rs results))"

primrec inject_each ::
  "'w lxc \<Rightarrow> string \<Rightarrow> (string \<times> string \<times> string) list \<Rightarrow> (string \<times> cmd_result list) list \<Rightarrow> ((string \<times> cmd_result list) list, 'w) eff" where
  "inject_each x uuid [] results = ret results"
| "inject_each x uuid (d # ds) results = bind_eff (inject_logs_to_container x uuid (fst d) (snd (snd d)) (fst (snd d)) True)
     (\<lambda>r. inject_each x uuid ds (AList.update (fst d) ((case map_of results (fst d) of None \<Rightarrow> [] | Some rs \<Rightarrow> rs) @ [r]) results))"

definition distribute_logs_to_agents ::
  "'w lxc \<Rightarrow> string \<Rightarrow> strategy \<Rightarrow> (nat \<Rightarrow> nat) \<Rightarrow> string list \<Rightarrow> (string \<times> string) list \<Rightarrow> ((string \<times> cmd_result list) list, 'w) eff" where
  "distribute_logs_to_agents x uuid s pick names files = (case s of
     Everywhere \<Rightarrow> inject_everywhere x uuid files names []
   | _ \<Rightarrow> (case destinations s pick names files of Inl e \<Rightarrow> raise_error e | Inr ds \<Rightarrow> inject_each x uuid ds []))"

section \<open>Retrying\<close>

text \<open>A function that never raises is called once.\<close>

lemma retry_no_raise:
  assumes "no_raise f"
  shows "retry_eff sleep (Suc k) d b f w = (map_sum id Some (fst (f w)), snd (f w))"
proof -
  have "is_ok (fst (f w))" using assms unfolding no_raise_def by blast
  then obtain r w' where "f w = (Inr r, w')" by (cases "f w"; cases "fst (f w)") auto
  then show ?thesis by simp
qed

lemma attach_once_no_raise: "no_raise (attach_once x n c t)"
  unfolding attach_once_def by (rule no_raise_catch) simp

text \<open>
  A failing \<open>lxc-attach\<close> is never tried again: the function catches every exception itself, so the
  decorator around it, which asks for three attempts, only ever makes one.
\<close>

theorem execute_runs_once:
  "execute_in_container x n c t w = (map_sum id Some (fst (attach_once x n c t w)), snd (attach_once x n c t w))"
  using retry_no_raise [OF attach_once_no_raise, of "lx_sleep x" 2]
  by (simp add: execute_in_container_def numeral_3_eq_3)

section \<open>Memory limits\<close>

lemma upper_digit: "ascii_digit c \<Longrightarrow> upper_char c = c"
  by (auto simp: upper_char_def ascii_digit_def ascii_lower_def)

lemma map_upper_nat_str: "map upper_char (nat_str n) = nat_str n"
  by (rule map_idI) (auto simp: upper_digit dest: nat_str_digits)

lemma takeWhile_digits: "u = [] \<or> \<not> ascii_digit (hd u) \<Longrightarrow> takeWhile ascii_digit (nat_str n @ u) = nat_str n \<and>
    dropWhile ascii_digit (nat_str n @ u) = u"
  by (cases u) (auto simp: takeWhile_append dropWhile_append dest: nat_str_digits)

text \<open>
  A limit is the number times its unit, in bytes. A unit without its final \<open>B\<close> is not a unit: 512M is
  512 bytes, and so is 512.
\<close>

theorem memory_limit_units:
  "parse_memory_limit (nat_str n @ ''KB'') = nat_str (n * 1024) \<and> parse_memory_limit (nat_str n @ ''mb'') = nat_str (n * 1048576) \<and>
   parse_memory_limit (nat_str n @ ''GB'') = nat_str (n * 1073741824) \<and> parse_memory_limit (nat_str n) = nat_str n \<and>
   parse_memory_limit (nat_str n @ ''M'') = nat_str n \<and> parse_memory_limit (nat_str n @ ''G'') = nat_str n"
proof -
  have *: "parse_memory_limit (nat_str n @ u) = nat_str (n * multiplier (memory_unit (map upper_char u)))"
    if "u = [] \<or> \<not> ascii_digit (upper_char (hd u))" for u
  proof -
    have "map upper_char u = [] \<or> \<not> ascii_digit (hd (map upper_char u))" using that by (cases u) auto
    from takeWhile_digits [OF this, of n] show ?thesis by (simp add: parse_memory_limit_def map_upper_nat_str)
  qed
  have u: "map upper_char ''KB'' = ''KB''" "map upper_char ''mb'' = ''MB''" "map upper_char ''GB'' = ''GB''"
    "map upper_char ''M'' = ''M''" "map upper_char ''G'' = ''G''" by code_simp+
  have d: "\<not> ascii_digit (upper_char CHR ''K'')" "\<not> ascii_digit (upper_char CHR ''m'')" "\<not> ascii_digit (upper_char CHR ''G'')"
    "\<not> ascii_digit (upper_char CHR ''M'')" by code_simp+
  have m: "memory_unit ''KB'' = Some ''KB''" "memory_unit ''MB'' = Some ''MB''" "memory_unit ''GB'' = Some ''GB''"
    "memory_unit ''M'' = None" "memory_unit ''G'' = None" "memory_unit [] = None" by (simp_all add: memory_unit_def)
  show ?thesis
    using *[of "''KB''"] *[of "''mb''"] *[of "''GB''"] *[of "[]"] *[of "''M''"] *[of "''G''"]
    by (simp only: u m d list.sel) (simp add: multiplier_def m)
qed

section \<open>Written files\<close>

definition b64_char :: "char \<Rightarrow> bool" where
  "b64_char c = one_of ''+/='' c"

lemma b64_alphabet_chars: "i < 64 \<Longrightarrow> b64_char (b64_alphabet ! i)"
proof -
  assume "i < 64"
  then have "b64_alphabet ! i \<in> set b64_alphabet" by (intro nth_mem) (simp add: b64_alphabet_def)
  moreover have "list_all b64_char b64_alphabet"
    by (simp add: b64_alphabet_def b64_char_def one_of_def ascii_alnum_def ascii_digit_def ascii_upper_def ascii_lower_def cp_def)
  ultimately show ?thesis by (simp add: list_all_iff)
qed

lemma b64_char_pad: "b64_char (CHR ''='')"
  by (simp add: b64_char_def one_of_def)

lemma b64encode_chars: "list_all (\<lambda>b. b < 256) bs \<Longrightarrow> list_all b64_char (b64encode bs)"
proof (induction bs rule: b64encode.induct)
  case (2 a)
  then have "a div 4 < 64" "a mod 4 * 16 < 64" by auto
  then show ?case by (auto intro: b64_alphabet_chars simp: b64_char_pad)
next
  case (3 a b)
  then have "a div 4 < 64" "a mod 4 * 16 + b div 16 < 64" "b mod 16 * 4 < 64" by auto
  then show ?case by (auto intro: b64_alphabet_chars simp: b64_char_pad)
next
  case (4 a b c s)
  then have "a div 4 < 64" "a mod 4 * 16 + b div 16 < 64" "b mod 16 * 4 + c div 64 < 64" "c mod 64 < 64" by auto
  then show ?case using 4 by (auto intro: b64_alphabet_chars)
qed simp

lemma utf8_bytes: "list_all (\<lambda>b. b < 256) (utf8 s)"
proof -
  have "cp c < 256" for c by (simp add: cp_def)
  then have "cp c div 64 < 4" for c by (simp add: div_less_iff_less_mult)
  moreover from this have "cp c div 64 < 64" for c using less_trans [of "cp c div 64" 4 64] by simp
  moreover have "(128::nat) + n mod 64 < 256" for n
    using mod_less_divisor [of 64 n] by linarith
  moreover have "192 + n < 256" if "n < 4" for n :: nat using that by linarith
  ultimately show ?thesis unfolding utf8_def by (induction s) auto
qed

text \<open>The decoder the container's \<^verbatim>\<open>base64 -d\<close> is trusted to be.\<close>

definition b64_index :: "char \<Rightarrow> nat" where
  "b64_index c = length (takeWhile (\<lambda>d. d \<noteq> c) b64_alphabet)"

fun b64decode :: "string \<Rightarrow> nat list" where
  "b64decode (a # b # c # d # s) =
     (let i = b64_index a; j = b64_index b; k = b64_index c; l = b64_index d in
      if c = CHR ''='' then [i * 4 + j div 16]
      else if d = CHR ''='' then [i * 4 + j div 16, j mod 16 * 16 + k div 4]
      else [i * 4 + j div 16, j mod 16 * 16 + k div 4, k mod 4 * 64 + l] @ b64decode s)"
| "b64decode _ = []"

lemma b64_index_nth: "i < 64 \<Longrightarrow> b64_index (b64_alphabet ! i) = i"
proof -
  assume i: "i < 64"
  have d: "distinct b64_alphabet" by (simp add: b64_alphabet_def)
  have l: "length b64_alphabet = 64" by (simp add: b64_alphabet_def)
  have "takeWhile (\<lambda>e. e \<noteq> b64_alphabet ! i) b64_alphabet = take i b64_alphabet"
    using i d by (intro takeWhile_eq_take_P_nth) (auto simp: l nth_eq_iff_index_eq)
  then show ?thesis using i l by (simp add: b64_index_def)
qed

lemma b64_not_pad: "i < 64 \<Longrightarrow> b64_alphabet ! i \<noteq> CHR ''=''"
proof -
  assume "i < 64"
  then have "b64_alphabet ! i \<in> set b64_alphabet" by (intro nth_mem) (simp add: b64_alphabet_def)
  then show ?thesis by (auto simp: b64_alphabet_def)
qed

lemma b64_roundtrip: "list_all (\<lambda>b. b < 256) bs \<Longrightarrow> b64decode (b64encode bs) = bs"
proof (induction bs rule: b64encode.induct)
  case (2 a)
  then have "a div 4 < 64" "a mod 4 * 16 < 64" by auto
  then show ?case by (simp add: b64_index_nth)
next
  case (3 a b)
  then have b: "a div 4 < 64" "a mod 4 * 16 + b div 16 < 64" "b mod 16 * 4 < 64" by auto
  have "b div 16 < 16" using 3 by auto
  then have "(a mod 4 * 16 + b div 16) div 16 = a mod 4" "(a mod 4 * 16 + b div 16) mod 16 = b div 16" by auto
  then show ?case using b b64_not_pad [of "b mod 16 * 4"] by (simp add: b64_index_nth)
next
  case (4 a b c s)
  then have b: "a div 4 < 64" "a mod 4 * 16 + b div 16 < 64" "b mod 16 * 4 + c div 64 < 64" "c mod 64 < 64" by auto
  have "b div 16 < 16" "c div 64 < 4" using 4 by auto
  then have "(a mod 4 * 16 + b div 16) div 16 = a mod 4" "(a mod 4 * 16 + b div 16) mod 16 = b div 16"
    "(b mod 16 * 4 + c div 64) div 4 = b mod 16" "(b mod 16 * 4 + c div 64) mod 4 = c div 64" by auto
  then show ?case
    using b b64_not_pad [of "b mod 16 * 4 + c div 64"] b64_not_pad [of "c mod 64"] 4 by (simp add: b64_index_nth)
qed simp

lemma inert_quote: "shell_inert s \<Longrightarrow> list_all shlex_safe s \<Longrightarrow> shlex_quote s = s"
  by (auto simp: shell_inert_def shlex_quote_def)

lemma path_shlex_safe: "validate_container_path (Some p) = Inr q \<Longrightarrow> q = p \<and> p \<noteq> [] \<and> list_all shlex_safe p"
proof -
  assume v: "validate_container_path (Some p) = Inr q"
  then have m: "re_fullmatch PATH p" "q = p"
    by (auto simp: validate_container_path_def check_pattern_def split: if_splits)
  have safe: "rchars PATH c \<Longrightarrow> shlex_safe c" for c
    by (auto simp: PATH_def rchr_def shlex_safe_def one_of_def)
  have "list_all shlex_safe p" using rmatch_chars [of PATH p] m(1) safe by (auto simp: list_all_iff re_fullmatch_def)
  moreover have "p \<noteq> []" using inert_PATH [OF m(1)] by (simp add: shell_inert_def)
  ultimately show ?thesis using m(2) by blast
qed

lemma file_script_facts:
  assumes "build_write_file_script p content appending w = (Inr script, w')"
  shows "script = ''mkdir -p '' @ [CHR 0x22] @ ''$(dirname -- '' @ p @ '')'' @ [CHR 0x22, CHR 0x0A] @
       ''printf '' @ [CHR 0x27] @ ''%s'' @ [CHR 0x27] @ '' '' @ [CHR 0x27] @ b64encode (utf8 content) @ [CHR 0x27] @
       '' | base64 -d '' @ (if appending then ''>>'' else ''>'') @ '' '' @ p @ [CHR 0x0A] @ ''chmod 644 '' @ p @ [CHR 0x0A]"
    and "shell_inert p" and "list_all shell_inert_char (b64encode (utf8 content))"
    and "b64decode (b64encode (utf8 content)) = utf8 content"
proof -
  obtain q where v: "validate_container_path (Some p) = Inr q"
    using assms by (auto simp: build_write_file_script_def raise_error_def split: sum.splits)
  note p = path_shlex_safe [OF v]
  then have "shlex_quote p = p" by (simp add: shlex_quote_def)
  then show "script = ''mkdir -p '' @ [CHR 0x22] @ ''$(dirname -- '' @ p @ '')'' @ [CHR 0x22, CHR 0x0A] @
       ''printf '' @ [CHR 0x27] @ ''%s'' @ [CHR 0x27] @ '' '' @ [CHR 0x27] @ b64encode (utf8 content) @ [CHR 0x27] @
       '' | base64 -d '' @ (if appending then ''>>'' else ''>'') @ '' '' @ p @ [CHR 0x0A] @ ''chmod 644 '' @ p @ [CHR 0x0A]"
    using assms v by (simp add: build_write_file_script_def ret_def Let_def)
  show "shell_inert p"
    using v inert_PATH [of p] by (auto simp: validate_container_path_def check_pattern_def split: if_splits)
  have "b64_char c \<Longrightarrow> shell_inert_char c" for c by (auto simp: b64_char_def shell_inert_char_def one_of_def)
  then show "list_all shell_inert_char (b64encode (utf8 content))"
    using b64encode_chars [OF utf8_bytes, of content] by (auto simp: list_all_iff)
  show "b64decode (b64encode (utf8 content)) = utf8 content" using b64_roundtrip [OF utf8_bytes] .
qed

text \<open>
  A script that writes a file contains the path as given and the content in base64 only: every character that
  comes from either is inert in a shell, and decoding gives the bytes of the content back.
\<close>

theorem file_script_inert:
  assumes "build_write_file_script p content appending w = (Inr script, w')"
  shows "script = ''mkdir -p '' @ [CHR 0x22] @ ''$(dirname -- '' @ p @ '')'' @ [CHR 0x22, CHR 0x0A] @
       ''printf '' @ [CHR 0x27] @ ''%s'' @ [CHR 0x27] @ '' '' @ [CHR 0x27] @ b64encode (utf8 content) @ [CHR 0x27] @
       '' | base64 -d '' @ (if appending then ''>>'' else ''>'') @ '' '' @ p @ [CHR 0x0A] @ ''chmod 644 '' @ p @ [CHR 0x0A] \<and>
     shell_inert p \<and> list_all shell_inert_char (b64encode (utf8 content)) \<and>
     b64decode (b64encode (utf8 content)) = utf8 content"
  using file_script_facts [OF assms] by (intro conjI)

theorem file_script_inert_witness:
  "\<exists>script. build_write_file_script ''/tmp/a.log'' ''x'' True () = (Inr script, ()) \<and> shell_inert ''/tmp/a.log''"
proof -
  have "validate_container_path (Some ''/tmp/a.log'') = Inr ''/tmp/a.log''" by code_simp
  then obtain script where s: "build_write_file_script ''/tmp/a.log'' ''x'' True () = (Inr script, ())"
    by (simp add: build_write_file_script_def ret_def Let_def)
  from file_script_inert [OF s] s show ?thesis by blast
qed

section \<open>Spreading log files\<close>

lemma length_filter_fst: "length (filter (\<lambda>x. Q (fst x)) xs) = length (filter Q (map fst xs))"
  by (induction xs) auto

lemma count_mod:
  "j < k \<Longrightarrow> length (filter (\<lambda>i. i mod k = j) [0..<n]) = n div k + (if j < n mod k then 1 else 0)"
proof (induction n)
  case (Suc n)
  show ?case
  proof (cases "Suc (n mod k) = k")
    case True
    then have "Suc n mod k = 0" "Suc n div k = Suc (n div k)" by (auto simp: mod_Suc div_Suc)
    then show ?thesis using Suc True by auto
  next
    case False
    then have "Suc n mod k = Suc (n mod k)" "Suc n div k = n div k" by (auto simp: mod_Suc div_Suc)
    then show ?thesis using Suc by auto
  qed
qed simp

text \<open>
  In turn, every file goes to one container and two containers differ by at most one file.
\<close>

theorem round_robin_balanced:
  assumes "distinct names" and "n \<in> set names" and "m \<in> set names"
  shows "\<exists>ds. destinations RoundRobin pick names files = Inr ds \<and> map snd ds = files \<and>
      length (filter (\<lambda>d. fst d = n) ds) \<le> length (filter (\<lambda>d. fst d = m) ds) + 1"
proof -
  let ?k = "length names"
  let ?ds = "map (\<lambda>(i, f). (names ! (i mod ?k), f)) (enumerate 0 files)"
  have k: "0 < ?k" using assms(2) by (cases names) auto
  have count: "\<exists>b\<in>{0, 1}. length (filter (\<lambda>d. fst d = a) ?ds) = length files div ?k + b" if a: "a \<in> set names" for a
  proof -
    obtain j where j: "j < ?k" "names ! j = a" using a by (auto simp: in_set_conv_nth)
    have "filter (\<lambda>d. fst d = a) ?ds = map (\<lambda>(i, f). (names ! (i mod ?k), f)) (filter (\<lambda>(i, f). names ! (i mod ?k) = a) (enumerate 0 files))"
      by (simp add: filter_map o_def case_prod_unfold)
    then have "length (filter (\<lambda>d. fst d = a) ?ds) = length (filter (\<lambda>i. names ! (i mod ?k) = a) (map fst (enumerate 0 files)))"
      unfolding length_filter_fst [symmetric] by (simp add: case_prod_unfold)
    also have "map fst (enumerate 0 files) = [0..<length files]" by (simp add: enumerate_eq_zip)
    also have "filter (\<lambda>i. names ! (i mod ?k) = a) [0..<length files] = filter (\<lambda>i. i mod ?k = j) [0..<length files]"
      using j k assms(1) by (intro filter_cong) (auto simp: nth_eq_iff_index_eq)
    finally show ?thesis using count_mod [OF j(1), of "length files"] by auto
  qed
  have "map snd ?ds = files" by (simp add: o_def case_prod_unfold enumerate_eq_zip)
  moreover have "length (filter (\<lambda>d. fst d = n) ?ds) \<le> length (filter (\<lambda>d. fst d = m) ?ds) + 1"
    using count [OF assms(2)] count [OF assms(3)] by auto
  moreover have "destinations RoundRobin pick names files = Inr ?ds" using k by (auto simp: destinations_def)
  ultimately show ?thesis by blast
qed

theorem round_robin_balanced_witness:
  "\<exists>ds. destinations RoundRobin id [''a'', ''b''] [1::nat, 2, 3] = Inr ds \<and> map snd ds = [1, 2, 3]"
  using round_robin_balanced [of "[''a'', ''b'']" "''a''" "''b''" id "[1::nat, 2, 3]"] by auto

end
