(* ===== verification/Fleet_Db.thy ===== *)
theory Fleet_Db
  imports Secrets Licensing "HOL-Library.While_Combinator"
begin

text \<open>
  The rest of \<^verbatim>\<open>db.py\<close> (containers, called agents, their groups, manager profiles and metrics) and the
  container metadata of \<^verbatim>\<open>services/agent_info.py\<close> on top of it. SQLite columns have no fixed type, so the
  row of a table that is read and written as a dictionary is its key and a dictionary of its columns; a
  missing column and \<open>NULL\<close> are both \<open>JNone\<close>. Times are the ISO strings of \<open>utc_now\<close>, an argument.
\<close>

section \<open>Containers\<close>

record agent_row =
  ag_name :: string
  ag_cols :: "(string \<times> json) list"

record group_row =
  g_name :: string
  g_description :: "string option"
  g_created :: string
  g_updated :: string

record manager_row =
  mg_id :: string
  mg_cols :: "(string \<times> json) list"

record metric =
  me_type :: string
  me_name :: string
  me_value :: rat
  me_tags :: "string option"
  me_at :: string

record fleet =
  agents :: "agent_row list"
  next_seq :: "nat option"
  groups :: "group_row list"
  managers :: "manager_row list"
  metrics :: "metric list"

text \<open>\<open>json.dumps\<close> and \<open>json.loads\<close>, for the list of addresses.\<close>

record codec =
  c_dumps :: "json \<Rightarrow> string"
  c_loads :: "string \<Rightarrow> json option"

definition AGENT_COLUMNS :: "string list" where
  "AGENT_COLUMNS = [''seq_id'', ''siem_type'', ''siem_ip'', ''siem_version'', ''agent_group'', ''os_type'',
     ''config_template_id'', ''lifecycle_status'', ''state'', ''init_pid'', ''ip_addresses'', ''siem_agent_status'',
     ''siem_agent_running'', ''siem_agent_last_check'', ''manager_host'', ''manager_port'', ''manager_status'',
     ''manager_reachable'', ''created_at'', ''updated_at'', ''deleted_at'', ''syslog_listener'']"

definition cell :: "(string \<times> json) list \<Rightarrow> string \<Rightarrow> json" where
  "cell cols c = (case map_of cols c of None \<Rightarrow> JNone | Some v \<Rightarrow> v)"

definition set_cells :: "(string \<times> json) list \<Rightarrow> (string \<times> json) list \<Rightarrow> (string \<times> json) list" where
  "set_cells kvs cols = foldl (\<lambda>m (k, v). AList.update k v m) cols kvs"

definition truthy :: "json \<Rightarrow> bool" where
  "truthy v = (v \<notin> {JNone, JText [], JInt 0, JBool False, JArray [], JObject []})"

definition bool_to_int :: "json \<Rightarrow> json" where
  "bool_to_int v = (if v = JNone then JNone else JInt (if truthy v then 1 else 0))"

definition int_to_bool :: "json \<Rightarrow> json" where
  "int_to_bool v = (if v = JNone then JNone else JBool (truthy v))"

definition serialize_ips :: "codec \<Rightarrow> json \<Rightarrow> json" where
  "serialize_ips c v = (if v = JNone then JNone else JText (c_dumps c v))"

definition deserialize_ips :: "codec \<Rightarrow> json \<Rightarrow> json" where
  "deserialize_ips c v = (case v of JNone \<Rightarrow> JNone
     | JText s \<Rightarrow> (case c_loads c s of None \<Rightarrow> v | Some j \<Rightarrow> j) | _ \<Rightarrow> v)"

definition find_agent :: "string \<Rightarrow> fleet \<Rightarrow> agent_row option" where
  "find_agent name db = fetchone (\<lambda>r. ag_name r = name) (agents db)"

definition get_agent_by_name :: "codec \<Rightarrow> string \<Rightarrow> fleet \<Rightarrow> (string \<times> json) list option" where
  "get_agent_by_name c name db = map_option (\<lambda>r.
     (''agent_name'', JText (ag_name r)) # map (\<lambda>k. (k, (if k = ''ip_addresses'' then deserialize_ips c else
        if k \<in> {''siem_agent_running'', ''manager_reachable''} then int_to_bool else id) (cell (ag_cols r) k))) AGENT_COLUMNS)
     (find_agent name db)"

definition get_agent_siem_types :: "fleet \<Rightarrow> (string \<times> json) list" where
  "get_agent_siem_types db = map (\<lambda>r. (ag_name r, cell (ag_cols r) ''siem_type'')) (agents db)"

definition seq_of :: "agent_row \<Rightarrow> nat" where
  "seq_of r = (case cell (ag_cols r) ''seq_id'' of JInt i \<Rightarrow> nat i | _ \<Rightarrow> 0)"

definition get_or_create_agent_seq_id :: "string \<Rightarrow> string \<Rightarrow> fleet \<Rightarrow> fleet \<times> nat" where
  "get_or_create_agent_seq_id now name db = (case find_agent name db of
     Some r \<Rightarrow> (db, seq_of r)
   | None \<Rightarrow> let n = (case next_seq db of None \<Rightarrow> 1 | Some k \<Rightarrow> k) in
       (db\<lparr>next_seq := Some (n + 1), agents := agents db @
          [\<lparr>ag_name = name, ag_cols = [(''seq_id'', JInt (int n)), (''created_at'', JText now), (''updated_at'', JText now)]\<rparr>]\<rparr>, n))"

definition is_text :: "string \<Rightarrow> json \<Rightarrow> bool" where
  "is_text s v = (v = JText s)"

definition mark_agents_interrupted :: "string \<Rightarrow> string \<Rightarrow> string \<Rightarrow> fleet \<Rightarrow> fleet \<times> nat" where
  "mark_agents_interrupted now from_status to_status db =
     (let P = (\<lambda>r. is_text from_status (cell (ag_cols r) ''lifecycle_status'')) in
      (db\<lparr>agents := sql_update P (\<lambda>r. r\<lparr>ag_cols := set_cells
          [(''lifecycle_status'', JText to_status), (''updated_at'', JText now)] (ag_cols r)\<rparr>) (agents db)\<rparr>,
       rowcount P (agents db)))"

datatype fleet_error = FleetIntegrity | FleetOperational | FleetValue string

text \<open>
  INSERT with ON CONFLICT on the name: unknown columns are an error of the statement, the number must not
  be \<open>NULL\<close>, and no other row may have it.
\<close>

definition upsert_agent :: "codec \<Rightarrow> string \<Rightarrow> string \<Rightarrow> (string \<times> json) list \<Rightarrow> fleet \<Rightarrow> fleet_error + fleet" where
  "upsert_agent c now name data db =
     (let p1 = AList.update ''updated_at'' (JText now) data;
          p = map (\<lambda>(k, v). (k, if k = ''ip_addresses'' then serialize_ips c v
                else if k \<in> {''siem_agent_running'', ''manager_reachable''} then bool_to_int v else v)) p1
      in if list_ex (\<lambda>(k, v). k \<notin> set AGENT_COLUMNS) p then Inl FleetOperational
         else if cell p ''seq_id'' = JNone then Inl FleetIntegrity
         else if list_ex (\<lambda>r. ag_name r \<noteq> name \<and> cell (ag_cols r) ''seq_id'' = cell p ''seq_id'') (agents db)
           then Inl FleetIntegrity
         else if name \<in> ag_name ` set (agents db)
           then Inr (db\<lparr>agents := sql_update (\<lambda>r. ag_name r = name) (\<lambda>r. r\<lparr>ag_cols := set_cells p (ag_cols r)\<rparr>) (agents db)\<rparr>)
         else Inr (db\<lparr>agents := agents db @ [\<lparr>ag_name = name, ag_cols = p\<rparr>]\<rparr>))"

definition mark_agent_deleted :: "string \<Rightarrow> string \<Rightarrow> fleet \<Rightarrow> fleet" where
  "mark_agent_deleted now name db = db\<lparr>agents := sql_update (\<lambda>r. ag_name r = name)
     (\<lambda>r. r\<lparr>ag_cols := set_cells [(''deleted_at'', JText now), (''updated_at'', JText now), (''syslog_listener'', JNone)]
        (ag_cols r)\<rparr>) (agents db)\<rparr>"

section \<open>Metadata of containers\<close>

definition read_agent_metadata :: "codec \<Rightarrow> string \<Rightarrow> fleet \<Rightarrow> (string \<times> json) list" where
  "read_agent_metadata c name db = (case get_agent_by_name c name db of
     None \<Rightarrow> []
   | Some data \<Rightarrow> if map_of data ''seq_id'' \<noteq> None \<and> map_of data ''agent_seq_id'' = None
       then AList.update ''agent_seq_id'' (cell data ''seq_id'') data else data)"

text \<open>The columns to write: what is stored, overwritten by what is given, and a number, new if need be.\<close>

definition metadata_payload ::
  "codec \<Rightarrow> string \<Rightarrow> string \<Rightarrow> (string \<times> json) list \<Rightarrow> fleet \<Rightarrow> fleet \<times> (string \<times> json) list" where
  "metadata_payload c now name metadata db =
     (let p0 = set_cells metadata (read_agent_metadata c name db);
          p1 = (if map_of p0 ''agent_seq_id'' \<noteq> None \<and> map_of p0 ''seq_id'' = None
                then AList.update ''seq_id'' (cell p0 ''agent_seq_id'') p0 else p0);
          (db1, p2) = (if cell p1 ''seq_id'' = JNone
            then (case get_or_create_agent_seq_id now name db of (db1, n) \<Rightarrow> (db1, AList.update ''seq_id'' (JInt (int n)) p1))
            else (db, p1));
          p3 = AList.update ''agent_seq_id'' (cell p2 ''seq_id'') p2
      in (db1, filter (\<lambda>(k, v). k \<in> set AGENT_COLUMNS) p3))"

definition write_agent_metadata ::
  "codec \<Rightarrow> string \<Rightarrow> string \<Rightarrow> (string \<times> json) list \<Rightarrow> fleet \<Rightarrow> fleet_error + fleet" where
  "write_agent_metadata c now name metadata db =
     (case metadata_payload c now name metadata db of (db1, p) \<Rightarrow> upsert_agent c now name p db1)"

section \<open>Groups\<close>

definition alive :: "agent_row \<Rightarrow> bool" where
  "alive r = (cell (ag_cols r) ''deleted_at'' = JNone)"

definition in_group :: "string \<Rightarrow> agent_row \<Rightarrow> bool" where
  "in_group g r = (is_text g (cell (ag_cols r) ''agent_group'') \<and> alive r)"

definition group_exists :: "string \<Rightarrow> fleet \<Rightarrow> bool" where
  "group_exists name db = (fetchone (\<lambda>g. g_name g = name) (groups db) \<noteq> None)"

definition create_group :: "string \<Rightarrow> string \<Rightarrow> string option \<Rightarrow> fleet \<Rightarrow> fleet_error + fleet \<times> group_row" where
  "create_group now name d db =
     (if name \<in> g_name ` set (groups db) then Inl FleetIntegrity
      else let g = \<lparr>g_name = name, g_description = d, g_created = now, g_updated = now\<rparr> in
        Inr (db\<lparr>groups := groups db @ [g]\<rparr>, g))"

definition list_groups :: "fleet \<Rightarrow> (group_row \<times> nat) list" where
  "list_groups db = map (\<lambda>g. (g, rowcount (in_group (g_name g)) (agents db))) (sort_key g_name (groups db))"

definition get_agents_in_group :: "string \<Rightarrow> fleet \<Rightarrow> string list" where
  "get_agents_in_group name db = map ag_name (filter (in_group name) (agents db))"

text \<open>One UPDATE per name; \<open>total_changes\<close> counts the rows each of them matches.\<close>

definition set_group :: "string \<Rightarrow> json \<Rightarrow> fleet \<Rightarrow> string \<Rightarrow> fleet" where
  "set_group now g db name = db\<lparr>agents := sql_update (\<lambda>r. ag_name r = name \<and> alive r)
     (\<lambda>r. r\<lparr>ag_cols := set_cells [(''agent_group'', g), (''updated_at'', JText now)] (ag_cols r)\<rparr>) (agents db)\<rparr>"

definition set_groups :: "string \<Rightarrow> json \<Rightarrow> string list \<Rightarrow> fleet \<Rightarrow> fleet \<times> nat" where
  "set_groups now g names db = (foldl (set_group now g) db names,
     sum_list (map (\<lambda>n. rowcount (\<lambda>r. ag_name r = n \<and> alive r) (agents db)) names))"

definition assign_agents_to_group :: "string \<Rightarrow> string \<Rightarrow> string list \<Rightarrow> fleet \<Rightarrow> fleet \<times> nat" where
  "assign_agents_to_group now name names db = set_groups now (JText name) names db"

definition remove_agents_from_group :: "string \<Rightarrow> string list \<Rightarrow> fleet \<Rightarrow> fleet \<times> nat" where
  "remove_agents_from_group now names db = set_groups now JNone names db"

definition move_group :: "string \<Rightarrow> string \<Rightarrow> json \<Rightarrow> agent_row list \<Rightarrow> agent_row list" where
  "move_group now old g rows = sql_update (in_group old)
     (\<lambda>r. r\<lparr>ag_cols := set_cells [(''agent_group'', g), (''updated_at'', JText now)] (ag_cols r)\<rparr>) rows"

definition rename_group ::
  "string \<Rightarrow> string \<Rightarrow> string \<Rightarrow> string option \<Rightarrow> fleet \<Rightarrow> fleet_error + fleet \<times> nat" where
  "rename_group now old new d db =
     (if \<not> group_exists old db then Inl (FleetValue ''Group not found'')
      else if group_exists new db then Inl (FleetValue ''Group name already exists'')
      else Inr (db\<lparr>groups := sql_update (\<lambda>g. g_name g = old)
              (\<lambda>g. g\<lparr>g_name := new, g_description := (if d = None then g_description g else d), g_updated := now\<rparr>) (groups db),
            agents := move_group now old (JText new) (agents db)\<rparr>, rowcount (in_group old) (agents db)))"

definition delete_group :: "string \<Rightarrow> string \<Rightarrow> fleet \<Rightarrow> fleet \<times> nat" where
  "delete_group now name db =
     (db\<lparr>agents := move_group now name JNone (agents db), groups := sql_delete (\<lambda>g. g_name g = name) (groups db)\<rparr>,
      rowcount (in_group name) (agents db))"

section \<open>Manager profiles\<close>

text \<open>The two secrets of a profile are stored encrypted; the functions take and return them in clear.\<close>

record cipher =
  ci_enc :: "string \<Rightarrow> string"
  ci_dec :: "string \<Rightarrow> string option"

definition opt_text :: "json \<Rightarrow> string option" where
  "opt_text v = (case v of JText s \<Rightarrow> Some s | _ \<Rightarrow> None)"

definition of_opt :: "string option \<Rightarrow> json" where
  "of_opt v = (case v of None \<Rightarrow> JNone | Some s \<Rightarrow> JText s)"

definition SECRET_COLUMNS :: "string list" where
  "SECRET_COLUMNS = [''siem_auth_key'', ''detection_secret'']"

definition stored_value :: "cipher \<Rightarrow> string \<Rightarrow> json \<Rightarrow> json" where
  "stored_value c col v =
     (if col \<in> set SECRET_COLUMNS then of_opt (encrypt_secret (ci_enc c) (opt_text v)) else v)"

definition manager_out :: "cipher \<Rightarrow> manager_row \<Rightarrow> manager_row" where
  "manager_out c r = r\<lparr>mg_cols := map (\<lambda>(k, v). (k, if k \<in> set SECRET_COLUMNS
     then of_opt (decrypt_secret (ci_dec c) (opt_text v)) else v)) (mg_cols r)\<rparr>"

definition MANAGER_FIELDS :: "string list" where
  "MANAGER_FIELDS = [''name'', ''description'', ''siem_type'', ''siem_ip'', ''siem_version'', ''siem_auth_key'',
     ''os_type'', ''agent_group'', ''memory_limit'', ''cpu_shares'', ''config_template_id'', ''detection_url'',
     ''detection_username'', ''detection_secret'', ''detection_fingerprint'', ''syslog_port'', ''syslog_protocol'']"

definition MANAGER_DEFAULTS :: "(string \<times> json) list" where
  "MANAGER_DEFAULTS = [(''os_type'', JText ''ubuntu_22_04''), (''agent_group'', JText ''default''),
     (''memory_limit'', JText ''512MB''), (''cpu_shares'', JInt 1024)]"

definition data_get :: "(string \<times> json) list \<Rightarrow> string \<Rightarrow> json" where
  "data_get data k = (case map_of data k of Some v \<Rightarrow> v | None \<Rightarrow> cell MANAGER_DEFAULTS k)"

definition manager_name :: "manager_row \<Rightarrow> json" where
  "manager_name r = cell (mg_cols r) ''name''"

definition create_manager ::
  "cipher \<Rightarrow> string \<Rightarrow> string \<Rightarrow> (string \<times> json) list \<Rightarrow> fleet \<Rightarrow> fleet_error + fleet" where
  "create_manager c now i data db =
     (if i \<in> mg_id ` set (managers db) \<or> list_ex (\<lambda>r. manager_name r = data_get data ''name'') (managers db)
         \<or> data_get data ''name'' = JNone \<or> data_get data ''siem_type'' = JNone then Inl FleetIntegrity
      else Inr (db\<lparr>managers := managers db @ [\<lparr>mg_id = i,
          mg_cols = map (\<lambda>k. (k, stored_value c k (data_get data k))) MANAGER_FIELDS @
            [(''created_at'', JText now), (''updated_at'', JText now)]\<rparr>]\<rparr>))"

definition text_key :: "json \<Rightarrow> string" where
  "text_key v = (case v of JText s \<Rightarrow> s | _ \<Rightarrow> [])"

definition list_managers :: "cipher \<Rightarrow> fleet \<Rightarrow> manager_row list" where
  "list_managers c db = map (manager_out c) (sort_key (\<lambda>r. text_key (manager_name r)) (managers db))"

definition get_manager :: "cipher \<Rightarrow> string \<Rightarrow> fleet \<Rightarrow> manager_row option" where
  "get_manager c i db = map_option (manager_out c) (fetchone (\<lambda>r. mg_id r = i) (managers db))"

definition get_manager_by_name :: "cipher \<Rightarrow> string \<Rightarrow> fleet \<Rightarrow> manager_row option" where
  "get_manager_by_name c name db =
     map_option (manager_out c) (fetchone (\<lambda>r. is_text name (manager_name r)) (managers db))"

definition update_manager ::
  "cipher \<Rightarrow> string \<Rightarrow> string \<Rightarrow> (string \<times> json) list \<Rightarrow> fleet \<Rightarrow> fleet_error + fleet \<times> manager_row option" where
  "update_manager c now i data db =
     (case fetchone (\<lambda>r. mg_id r = i) (managers db) of
        None \<Rightarrow> Inr (db, None)
      | Some existing \<Rightarrow>
          let fields = filter (\<lambda>k. map_of data k \<noteq> None) MANAGER_FIELDS;
              updates = map (\<lambda>k. (k, stored_value c k (cell data k))) fields
          in if updates = [] then Inr (db, Some (manager_out c existing))
             else if ''name'' \<in> set fields \<and> (cell data ''name'' = JNone \<or>
                 list_ex (\<lambda>r. mg_id r \<noteq> i \<and> manager_name r = cell data ''name'') (managers db))
               then Inl FleetIntegrity
             else if ''siem_type'' \<in> set fields \<and> cell data ''siem_type'' = JNone then Inl FleetIntegrity
             else let db' = db\<lparr>managers := sql_update (\<lambda>r. mg_id r = i)
                    (\<lambda>r. r\<lparr>mg_cols := set_cells (updates @ [(''updated_at'', JText now)]) (mg_cols r)\<rparr>) (managers db)\<rparr>
               in Inr (db', get_manager c i db'))"

definition delete_manager :: "string \<Rightarrow> fleet \<Rightarrow> fleet \<times> bool" where
  "delete_manager i db = (db\<lparr>managers := sql_delete (\<lambda>r. mg_id r = i) (managers db)\<rparr>,
     0 < rowcount (\<lambda>r. mg_id r = i) (managers db))"

definition plaintext_key :: "manager_row \<Rightarrow> bool" where
  "plaintext_key r = (case opt_text (cell (mg_cols r) ''siem_auth_key'') of
     None \<Rightarrow> False | Some k \<Rightarrow> k \<noteq> [] \<and> \<not> is_encrypted (Some k))"

definition encrypt_plaintext_manager_secrets :: "cipher \<Rightarrow> fleet \<Rightarrow> fleet \<times> nat" where
  "encrypt_plaintext_manager_secrets c db =
     (db\<lparr>managers := sql_update plaintext_key (\<lambda>r. r\<lparr>mg_cols := AList.update ''siem_auth_key''
          (of_opt (encrypt_secret (ci_enc c) (opt_text (cell (mg_cols r) ''siem_auth_key'')))) (mg_cols r)\<rparr>) (managers db)\<rparr>,
      rowcount plaintext_key (managers db))"

section \<open>Metrics\<close>

definition record_metric ::
  "string \<Rightarrow> string \<Rightarrow> string \<Rightarrow> rat \<Rightarrow> string option \<Rightarrow> fleet \<Rightarrow> fleet" where
  "record_metric now t n v tags db = db\<lparr>metrics := metrics db @
     [\<lparr>me_type = t, me_name = n, me_value = v, me_tags = tags, me_at = now\<rparr>]\<rparr>"

definition record_metrics_batch ::
  "string \<Rightarrow> (string \<times> string \<times> rat \<times> string option \<times> string option) list \<Rightarrow> fleet \<Rightarrow> fleet" where
  "record_metrics_batch now rows db = db\<lparr>metrics := metrics db @ map (\<lambda>(t, n, v, tags, time).
     \<lparr>me_type = t, me_name = n, me_value = v, me_tags = tags, me_at = (case time of None \<Rightarrow> now | Some w \<Rightarrow> w)\<rparr>) rows\<rparr>"

definition prunable :: "string \<Rightarrow> string list option \<Rightarrow> string list option \<Rightarrow> metric \<Rightarrow> bool" where
  "prunable before types excluded m =
     (me_at m < before \<and>
      (case types of None \<Rightarrow> True | Some ts \<Rightarrow> ts = [] \<or> me_type m \<in> set ts) \<and>
      (case excluded of None \<Rightarrow> True | Some ts \<Rightarrow> ts = [] \<or> me_type m \<notin> set ts))"

text \<open>\<open>DELETE ... WHERE id IN (SELECT ... LIMIT n)\<close>: the first \<open>n\<close> rows of those selected; a negative limit is none.\<close>

fun delete_first :: "nat \<Rightarrow> ('r \<Rightarrow> bool) \<Rightarrow> 'r list \<Rightarrow> 'r list" where
  "delete_first n P [] = []"
| "delete_first n P (r # rs) =
     (if P r then (case n of 0 \<Rightarrow> r # rs | Suc k \<Rightarrow> delete_first k P rs) else r # delete_first n P rs)"

definition delete_batch :: "int \<Rightarrow> ('r \<Rightarrow> bool) \<Rightarrow> 'r list \<Rightarrow> 'r list \<times> nat" where
  "delete_batch batch P rows =
     (let n = rowcount P rows; k = (if batch < 0 then n else min n (nat batch)) in (delete_first k P rows, k))"

definition prune_loop ::
  "int \<Rightarrow> (metric \<Rightarrow> bool) \<Rightarrow> metric list \<times> nat \<times> bool \<Rightarrow> (metric list \<times> nat \<times> bool) option" where
  "prune_loop batch P = while_option (\<lambda>(rows, deleted, more). more)
     (\<lambda>(rows, deleted, more). case delete_batch batch P rows of (rows', k) \<Rightarrow> (rows', deleted + k, batch \<le> int k))"

definition prune_metrics ::
  "string \<Rightarrow> string list option \<Rightarrow> string list option \<Rightarrow> int \<Rightarrow> fleet \<Rightarrow> (fleet \<times> nat) option" where
  "prune_metrics before types excluded batch db =
     map_option (\<lambda>(rows, deleted, more). (db\<lparr>metrics := rows\<rparr>, deleted))
       (prune_loop batch (prunable before types excluded) (metrics db, 0, True))"

definition metric_matches :: "string option \<Rightarrow> string option \<Rightarrow> string option \<Rightarrow> metric \<Rightarrow> bool" where
  "metric_matches t n since m =
     ((case t of None \<Rightarrow> True | Some x \<Rightarrow> x = [] \<or> me_type m = x) \<and>
      (case n of None \<Rightarrow> True | Some x \<Rightarrow> x = [] \<or> me_name m = x) \<and>
      (case since of None \<Rightarrow> True | Some x \<Rightarrow> x = [] \<or> x \<le> me_at m))"

text \<open>Newest first; of equal times, the later row first or not is left open by SQL (here: first inserted first).\<close>

definition query_metrics :: "string option \<Rightarrow> string option \<Rightarrow> string option \<Rightarrow> nat \<Rightarrow> fleet \<Rightarrow> metric list" where
  "query_metrics t n since limit db =
     take limit (rev (sort_key me_at (rev (filter (metric_matches t n since) (metrics db)))))"

record summary =
  sm_count :: nat
  sm_avg :: "rat option"
  sm_min :: "rat option"
  sm_max :: "rat option"
  sm_p50 :: "rat option"
  sm_p90 :: "rat option"
  sm_p99 :: "rat option"

definition get_metric_summary :: "string \<Rightarrow> string \<Rightarrow> string option \<Rightarrow> fleet \<Rightarrow> summary" where
  "get_metric_summary t n since db =
     (let vals = sort (map me_value (filter (\<lambda>m. me_type m = t \<and> me_name m = n \<and>
            (case since of None \<Rightarrow> True | Some x \<Rightarrow> x = [] \<or> x \<le> me_at m)) (metrics db)));
          k = length vals; some = (\<lambda>v. if k = 0 then None else Some v)
      in \<lparr>sm_count = k, sm_avg = some (sum_list vals / of_nat k), sm_min = some (hd vals), sm_max = some (last vals),
          sm_p50 = some (vals ! (k div 2)), sm_p90 = some (vals ! (9 * k div 10)),
          sm_p99 = some (vals ! min (99 * k div 100) (k - 1))\<rparr>)"

end
