(* ===== verification/Fleet.thy ===== *)
theory Fleet
  imports Fleet_Db
begin

text \<open>
  What holds of the tables of containers, groups, manager profiles and metrics: the numbers of containers
  are unique and never change; a row marked deleted stays so; pruning returns and removes what it should;
  the secrets of a profile read back.
\<close>

section \<open>Cells\<close>

lemma cell_update: "cell (AList.update k v cols) k' = (if k' = k then v else cell cols k')"
  by (simp add: cell_def update_conv')

lemma cell_set_cells:
  "cell (set_cells kvs cols) k = (case map_of (rev kvs) k of Some v \<Rightarrow> v | None \<Rightarrow> cell cols k)"
proof (induction kvs arbitrary: cols)
  case (Cons x kvs)
  obtain a v where x: "x = (a, v)" by fastforce
  have "cell (set_cells (x # kvs) cols) k = cell (set_cells kvs (AList.update a v cols)) k" by (simp add: set_cells_def x)
  then show ?case using Cons [of "AList.update a v cols"]
    by (auto simp: x cell_update map_add_def split: option.splits)
qed (simp add: set_cells_def)

lemma distinct_set_cells: "distinct (map fst cols) \<Longrightarrow> distinct (map fst (set_cells kvs cols))"
  unfolding set_cells_def by (induction kvs arbitrary: cols) (auto simp: distinct_update)

lemma map_of_rev_distinct: "distinct (map fst xs) \<Longrightarrow> map_of (rev xs) = map_of xs"
  by (rule map_of_eqI) (auto simp: rev_map [symmetric])

section \<open>Rows that evolve\<close>

text \<open>The numbering and the deletion mark of each row are kept; names too.\<close>

definition seq_cell :: "agent_row \<Rightarrow> json" where
  "seq_cell r = cell (ag_cols r) ''seq_id''"

definition tame :: "(agent_row \<Rightarrow> agent_row) \<Rightarrow> agent_row list \<Rightarrow> bool" where
  "tame f rows \<longleftrightarrow> (\<forall>r\<in>set rows. ag_name (f r) = ag_name r \<and> seq_cell (f r) = seq_cell r \<and> (\<not> alive r \<longrightarrow> \<not> alive (f r)))"

definition evolves :: "agent_row list \<Rightarrow> agent_row list \<Rightarrow> bool" where
  "evolves rows rows' \<longleftrightarrow> (\<exists>f. rows' = map f rows \<and> tame f rows)"

lemma evolves_refl [simp]: "evolves rows rows"
  unfolding evolves_def by (rule exI [of _ id]) (simp add: tame_def)

lemma evolves_trans: "evolves a b \<Longrightarrow> evolves b c \<Longrightarrow> evolves a c"
proof -
  assume "evolves a b" "evolves b c"
  then obtain f g where "b = map f a" "c = map g b" "tame f a" "tame g b" unfolding evolves_def by blast
  then show ?thesis unfolding evolves_def by (intro exI [of _ "g \<circ> f"]) (auto simp: tame_def)
qed

lemma evolves_update:
  assumes "\<And>r. r \<in> set rows \<Longrightarrow> P r \<Longrightarrow> ag_name (f r) = ag_name r \<and> seq_cell (f r) = seq_cell r \<and> (\<not> alive r \<longrightarrow> \<not> alive (f r))"
  shows "evolves rows (sql_update P f rows)"
  unfolding evolves_def sql_update_def
  by (rule exI [of _ "\<lambda>r. if P r then f r else r"]) (use assms in \<open>auto simp: tame_def\<close>)

text \<open>Columns set to plain values: not the number, and the deletion mark only to a time.\<close>

lemma evolves_cells:
  assumes "''seq_id'' \<notin> fst ` set kvs" and "\<And>v. map_of (rev kvs) ''deleted_at'' = Some v \<Longrightarrow> v \<noteq> JNone"
  shows "evolves rows (sql_update P (\<lambda>r. r\<lparr>ag_cols := set_cells kvs (ag_cols r)\<rparr>) rows)"
proof (rule evolves_update)
  fix r
  have "map_of (rev kvs) ''seq_id'' = None" using assms(1) by (simp add: map_of_eq_None_iff)
  then show "ag_name (r\<lparr>ag_cols := set_cells kvs (ag_cols r)\<rparr>) = ag_name r \<and>
      seq_cell (r\<lparr>ag_cols := set_cells kvs (ag_cols r)\<rparr>) = seq_cell r \<and>
      (\<not> alive r \<longrightarrow> \<not> alive (r\<lparr>ag_cols := set_cells kvs (ag_cols r)\<rparr>))"
    using assms(2) by (auto simp: seq_cell_def alive_def cell_set_cells split: option.splits)
qed

definition fleet_ok :: "fleet \<Rightarrow> bool" where
  "fleet_ok db \<longleftrightarrow> distinct (map ag_name (agents db)) \<and> distinct (map seq_cell (agents db)) \<and>
     (\<forall>r\<in>set (agents db). \<exists>k. seq_cell r = JInt (int k) \<and> 1 \<le> k \<and>
        k < (case next_seq db of None \<Rightarrow> 1 | Some n \<Rightarrow> n)) \<and>
     (\<forall>n. next_seq db = Some n \<longrightarrow> 1 \<le> n) \<and> distinct (map g_name (groups db))"

lemma evolves_ok:
  assumes "fleet_ok db" and "evolves (agents db) rows"
  shows "fleet_ok (db\<lparr>agents := rows\<rparr>)"
proof -
  obtain f where f: "rows = map f (agents db)" "tame f (agents db)" using assms(2) by (auto simp: evolves_def)
  then have "map ag_name rows = map ag_name (agents db)" "map seq_cell rows = map seq_cell (agents db)"
    by (auto simp: tame_def)
  moreover from this(2) have "seq_cell ` set rows = seq_cell ` set (agents db)" by (metis list.set_map)
  then have "\<forall>r\<in>set rows. \<exists>r0\<in>set (agents db). seq_cell r = seq_cell r0" by (metis imageE imageI)
  ultimately show ?thesis using assms(1) unfolding fleet_ok_def by (simp, metis)
qed

lemma evolves_find:
  "evolves rows rows' \<Longrightarrow> r \<in> set rows \<Longrightarrow>
    \<exists>r'\<in>set rows'. ag_name r' = ag_name r \<and> seq_cell r' = seq_cell r \<and> (\<not> alive r \<longrightarrow> \<not> alive r')"
  by (auto simp: evolves_def tame_def)

section \<open>The operations\<close>

lemma evolves_set_group: "g \<noteq> JNone \<or> True \<Longrightarrow> evolves (agents db) (agents (set_group now g db n))"
  by (simp add: set_group_def) (rule evolves_cells; simp)

lemma set_group_simps [simp]:
  "next_seq (set_group now g db n) = next_seq db" "groups (set_group now g db n) = groups db"
  "db\<lparr>agents := agents (set_group now g db n)\<rparr> = set_group now g db n"
  by (simp_all add: set_group_def)

lemma evolves_set_groups:
  "evolves (agents db) (agents (fst (set_groups now g ns db)))"
  "db\<lparr>agents := agents (fst (set_groups now g ns db))\<rparr> = fst (set_groups now g ns db)"
proof -
  have "evolves (agents db) (agents (foldl (set_group now g) db ns)) \<and>
      db\<lparr>agents := agents (foldl (set_group now g) db ns)\<rparr> = foldl (set_group now g) db ns"
  proof (induction ns arbitrary: db)
    case (Cons n ns)
    have "db\<lparr>agents := rows\<rparr> = (set_group now g db n)\<lparr>agents := rows\<rparr>" for rows by (simp add: set_group_def)
    then show ?case using Cons [of "set_group now g db n"] evolves_set_group [of g db now n] evolves_trans by simp
  qed simp
  then show "evolves (agents db) (agents (fst (set_groups now g ns db)))"
    "db\<lparr>agents := agents (fst (set_groups now g ns db))\<rparr> = fst (set_groups now g ns db)"
    by (simp_all add: set_groups_def)
qed

lemma evolves_move_group: "evolves rows (move_group now old g rows)"
  unfolding move_group_def by (rule evolves_cells; simp)

lemma evolves_mark_deleted: "evolves (agents db) (agents (mark_agent_deleted now name db))"
  by (simp add: mark_agent_deleted_def) (rule evolves_cells; simp)

lemma evolves_interrupted: "evolves (agents db) (agents (fst (mark_agents_interrupted now a b db)))"
  by (simp add: mark_agents_interrupted_def Let_def) (rule evolves_cells; simp)

lemma seq_cell_of: "fleet_ok db \<Longrightarrow> r \<in> set (agents db) \<Longrightarrow> seq_cell r = JInt (int (seq_of r))"
  by (auto simp: fleet_ok_def seq_of_def seq_cell_def split: json.splits)

lemma find_agent_Some: "find_agent n db = Some r \<Longrightarrow> r \<in> set (agents db) \<and> ag_name r = n"
  by (auto simp: find_agent_def dest: fetchone_Some)

lemma find_agent_None: "find_agent n db = None \<longleftrightarrow> n \<notin> ag_name ` set (agents db)"
  by (auto simp: find_agent_def fetchone_None)

lemma find_agent_key: "fleet_ok db \<Longrightarrow> r \<in> set (agents db) \<Longrightarrow> find_agent (ag_name r) db = Some r"
  unfolding find_agent_def fleet_ok_def using fetchone_key by fastforce

text \<open>The row that a new name gets.\<close>

definition fresh_row :: "string \<Rightarrow> string \<Rightarrow> nat \<Rightarrow> agent_row" where
  "fresh_row now name n =
     \<lparr>ag_name = name, ag_cols = [(''seq_id'', JInt (int n)), (''created_at'', JText now), (''updated_at'', JText now)]\<rparr>"

lemma fresh_row_simps [simp]:
  "ag_name (fresh_row now name n) = name" "seq_cell (fresh_row now name n) = JInt (int n)" "alive (fresh_row now name n)"
  by (simp_all add: fresh_row_def seq_cell_def cell_def alive_def)

lemma get_or_create_ok:
  assumes ok: "fleet_ok db"
  shows "fleet_ok (fst (get_or_create_agent_seq_id now name db)) \<and>
    (\<exists>r. find_agent name (fst (get_or_create_agent_seq_id now name db)) = Some r \<and>
      seq_of r = snd (get_or_create_agent_seq_id now name db)) \<and>
    set (agents db) \<subseteq> set (agents (fst (get_or_create_agent_seq_id now name db)))"
proof (cases "find_agent name db")
  case None
  let ?n = "case next_seq db of None \<Rightarrow> 1 | Some k \<Rightarrow> k"
  let ?db = "db\<lparr>next_seq := Some (?n + 1), agents := agents db @ [fresh_row now name ?n]\<rparr>"
  have e: "get_or_create_agent_seq_id now name db = (?db, ?n)"
    using None by (simp add: get_or_create_agent_seq_id_def fresh_row_def Let_def)
  have new: "name \<notin> ag_name ` set (agents db)" using None by (simp add: find_agent_None)
  have small: "\<forall>r\<in>set (agents db). \<exists>k. seq_cell r = JInt (int k) \<and> 1 \<le> k \<and> k < ?n" and pos: "1 \<le> ?n"
    using ok by (auto simp: fleet_ok_def split: option.splits)
  have "JInt (int ?n) \<notin> seq_cell ` set (agents db)"
  proof
    assume "JInt (int ?n) \<in> seq_cell ` set (agents db)"
    then obtain r where "r \<in> set (agents db)" "seq_cell r = JInt (int ?n)" by auto
    then show False using small by fastforce
  qed
  then have "fleet_ok ?db" using ok new small pos by (auto simp: fleet_ok_def less_Suc_eq)
  moreover have "find_agent name ?db = Some (fresh_row now name ?n)"
    using find_agent_key [OF calculation, of "fresh_row now name ?n"] by simp
  moreover have "seq_of (fresh_row now name ?n) = ?n" by (simp add: seq_of_def seq_cell_def [symmetric])
  ultimately show ?thesis unfolding e by auto
qed (use ok in \<open>simp add: get_or_create_agent_seq_id_def\<close>)

lemma map_of_set_cells:
  "map_of (set_cells kvs cols) k = (case map_of (rev kvs) k of Some v \<Rightarrow> Some v | None \<Rightarrow> map_of cols k)"
proof (induction kvs arbitrary: cols)
  case (Cons x kvs)
  obtain a v where x: "x = (a, v)" by fastforce
  have "map_of (set_cells (x # kvs) cols) k = map_of (set_cells kvs (AList.update a v cols)) k" by (simp add: set_cells_def x)
  then show ?case using Cons [of "AList.update a v cols"]
    by (auto simp: x update_conv' map_add_def split: option.splits)
qed (simp add: set_cells_def)

lemma map_of_filter_keys: "map_of (filter (\<lambda>(k, v). k \<in> S) m) k = (if k \<in> S then map_of m k else None)"
  by (induction m) auto

lemma distinct_filter_keys: "distinct (map fst m) \<Longrightarrow> distinct (map fst (filter P m))"
  by (simp add: distinct_map_filter)

text \<open>
  What the callers of \<open>write_agent_metadata\<close> keep to: they give neither the column of the number nor the deletion mark,
  and the key \<open>agent_seq_id\<close> with a number only for a container that has its row (the deployment request asks
  for the number first, \<open>get_agent_info\<close> gives the stored one, or \<open>None\<close> without a row).
\<close>

definition proper_metadata :: "string \<Rightarrow> (string \<times> json) list \<Rightarrow> fleet \<Rightarrow> bool" where
  "proper_metadata name md db = (''seq_id'' \<notin> fst ` set md \<and> ''deleted_at'' \<notin> fst ` set md \<and>
     (find_agent name db = None \<longrightarrow> (\<forall>v. (''agent_seq_id'', v) \<in> set md \<longrightarrow> v = JNone)))"

lemma stored_data:
  assumes "find_agent name db = Some r"
  shows "distinct (map fst (read_agent_metadata c name db))"
    "map_of (read_agent_metadata c name db) ''seq_id'' = Some (seq_cell r)"
    "map_of (read_agent_metadata c name db) ''deleted_at'' = Some (cell (ag_cols r) ''deleted_at'')"
proof -
  let ?f = "\<lambda>k. (if k = ''ip_addresses'' then deserialize_ips c else
        if k \<in> {''siem_agent_running'', ''manager_reachable''} then int_to_bool else id) (cell (ag_cols r) k)"
  let ?data = "(''agent_name'', JText (ag_name r)) # map (\<lambda>k. (k, ?f k)) AGENT_COLUMNS"
  have g: "get_agent_by_name c name db = Some ?data" using assms by (simp add: get_agent_by_name_def)
  have "distinct (map fst ?data)" by (simp add: AGENT_COLUMNS_def comp_def)
  moreover have m: "map_of ?data ''seq_id'' = Some (seq_cell r)"
    "map_of ?data ''deleted_at'' = Some (cell (ag_cols r) ''deleted_at'')"
    by (simp_all add: AGENT_COLUMNS_def seq_cell_def)
  moreover have "read_agent_metadata c name db \<in> {?data, AList.update ''agent_seq_id'' (cell ?data ''seq_id'') ?data}"
    unfolding read_agent_metadata_def g option.case by (simp del: AList.update.simps)
  ultimately show "distinct (map fst (read_agent_metadata c name db))"
    "map_of (read_agent_metadata c name db) ''seq_id'' = Some (seq_cell r)"
    "map_of (read_agent_metadata c name db) ''deleted_at'' = Some (cell (ag_cols r) ''deleted_at'')"
    by (elim insertE emptyE; simp only: distinct_update update_conv' fun_upd_apply; simp)+
qed

lemma proper_keys: "proper_metadata name md db \<Longrightarrow> k \<in> {''seq_id'', ''deleted_at''} \<Longrightarrow> map_of (rev md) k = None"
  unfolding proper_metadata_def map_of_eq_None_iff set_rev by (elim conjE insertE emptyE) simp_all

lemma proper_number: "proper_metadata name md db \<Longrightarrow> find_agent name db = None \<Longrightarrow>
    map_of (rev md) ''agent_seq_id'' = None \<or> map_of (rev md) ''agent_seq_id'' = Some JNone"
proof (cases "map_of (rev md) ''agent_seq_id''")
  case (Some v)
  assume "proper_metadata name md db" "find_agent name db = None"
  then show ?thesis using map_of_SomeD [OF Some] Some by (simp add: proper_metadata_def)
qed simp

lemma payload_facts:
  assumes ok: "fleet_ok db" and md: "proper_metadata name md db" and e: "metadata_payload c now name md db = (db1, p)"
  shows "db1 = fst (get_or_create_agent_seq_id now name db) \<and> distinct (map fst p) \<and> fst ` set p \<subseteq> set AGENT_COLUMNS \<and>
    (\<exists>r. find_agent name db1 = Some r \<and> map_of p ''seq_id'' = Some (seq_cell r) \<and>
      (map_of p ''deleted_at'' = None \<or> map_of p ''deleted_at'' = Some (cell (ag_cols r) ''deleted_at'')))"
proof (cases "find_agent name db")
  case (Some r)
  let ?p0 = "set_cells md (read_agent_metadata c name db)"
  note st = stored_data [OF Some, of c]
  have m: "map_of ?p0 ''seq_id'' = Some (seq_cell r)" "map_of ?p0 ''deleted_at'' = Some (cell (ag_cols r) ''deleted_at'')"
    using proper_keys [OF md] st by (simp_all add: map_of_set_cells)
  have "seq_cell r \<noteq> JNone" using seq_cell_of [OF ok] find_agent_Some [OF Some] by simp
  then have c: "cell ?p0 ''seq_id'' \<noteq> JNone" using m by (simp add: cell_def)
  have "(db1, p) = (db, filter (\<lambda>(k, v). k \<in> set AGENT_COLUMNS) (AList.update ''agent_seq_id'' (cell ?p0 ''seq_id'') ?p0))"
    unfolding e [symmetric] using c m by (simp add: metadata_payload_def Let_def)
  then have "db1 = db" and p: "p = filter (\<lambda>(k, v). k \<in> set AGENT_COLUMNS) (AList.update ''agent_seq_id'' (cell ?p0 ''seq_id'') ?p0)"
    by blast+
  moreover have "distinct (map fst p)"
    unfolding p by (intro distinct_filter_keys distinct_update distinct_set_cells st)
  moreover have "map_of p ''seq_id'' = Some (seq_cell r)" "map_of p ''deleted_at'' = Some (cell (ag_cols r) ''deleted_at'')"
    unfolding p map_of_filter_keys by (simp_all add: update_conv' m AGENT_COLUMNS_def)
  moreover have "fst (get_or_create_agent_seq_id now name db) = db" by (simp add: get_or_create_agent_seq_id_def Some)
  ultimately show ?thesis using Some by auto
next
  case None
  let ?p0 = "set_cells md []"
  let ?q = "if map_of ?p0 ''agent_seq_id'' = None then ?p0 else AList.update ''seq_id'' JNone ?p0"
  obtain db2 n where g: "get_or_create_agent_seq_id now name db = (db2, n)" by fastforce
  have "read_agent_metadata c name db = []"
    using None by (simp add: read_agent_metadata_def get_agent_by_name_def)
  moreover have m: "map_of ?p0 ''seq_id'' = None" "map_of ?p0 ''deleted_at'' = None"
    "map_of ?p0 ''agent_seq_id'' = None \<or> map_of ?p0 ''agent_seq_id'' = Some JNone"
    using proper_keys [OF md] proper_number [OF md None] by (simp_all add: map_of_set_cells) (auto split: option.splits)
  ultimately have "db1 = db2" and p: "p = filter (\<lambda>(k, v). k \<in> set AGENT_COLUMNS)
      (AList.update ''agent_seq_id'' (JInt (int n)) (AList.update ''seq_id'' (JInt (int n)) ?q))"
    using e g by (auto simp: metadata_payload_def Let_def cell_def update_conv')
  moreover obtain r where r: "find_agent name db2 = Some r" "seq_of r = n" "fleet_ok db2"
    using get_or_create_ok [OF ok, of now name] g by auto
  moreover have "distinct (map fst p)"
    unfolding p using distinct_set_cells [of "[]" md] by (intro distinct_filter_keys distinct_update) (simp add: distinct_update)
  moreover have "map_of p ''seq_id'' = Some (JInt (int n))" "map_of p ''deleted_at'' = None"
    unfolding p map_of_filter_keys by (simp_all add: update_conv' m AGENT_COLUMNS_def)
  moreover have "seq_cell r = JInt (int n)" using seq_cell_of [OF r(3)] find_agent_Some [OF r(1)] r(2) by simp
  ultimately show ?thesis using g by auto
qed

lemma map_of_conv: "map_of (map (\<lambda>(k, v). (k, g k v)) xs) k = map_option (g k) (map_of xs k)"
  by (induction xs) auto

lemma write_ok:
  fixes now name
  assumes ok: "fleet_ok db" and md: "proper_metadata name md db"
  defines "db1 \<equiv> fst (get_or_create_agent_seq_id now name db)"
  shows "\<exists>rows. write_agent_metadata c now name md db = Inr (db1\<lparr>agents := rows\<rparr>) \<and> evolves (agents db1) rows"
proof -
  obtain db2 p where e: "metadata_payload c now name md db = (db2, p)" by fastforce
  obtain r where r: "find_agent name db1 = Some r" and db2: "db2 = db1" and d: "distinct (map fst p)"
    and keys: "fst ` set p \<subseteq> set AGENT_COLUMNS" and sq: "map_of p ''seq_id'' = Some (seq_cell r)"
    and del: "map_of p ''deleted_at'' = None \<or> map_of p ''deleted_at'' = Some (cell (ag_cols r) ''deleted_at'')"
    using payload_facts [OF ok md e] db1_def by auto
  have ok1: "fleet_ok db1" using get_or_create_ok [OF ok] db1_def by simp
  have rin: "r \<in> set (agents db1)" "ag_name r = name" using find_agent_Some [OF r] by simp_all
  let ?g = "\<lambda>k v. if k = ''ip_addresses'' then serialize_ips c v
        else if k \<in> {''siem_agent_running'', ''manager_reachable''} then bool_to_int v else v"
  let ?p = "map (\<lambda>(k, v). (k, ?g k v)) (AList.update ''updated_at'' (JText now) p)"
  have keys': "\<not> list_ex (\<lambda>(k, v). k \<notin> set AGENT_COLUMNS) ?p"
  proof -
    have "fst ` set (AList.update ''updated_at'' (JText now) p) \<subseteq> set AGENT_COLUMNS"
      using keys by (auto simp: dom_update AGENT_COLUMNS_def)
    then show ?thesis by (force simp: list_ex_iff)
  qed
  have m: "map_of (rev ?p) = map_of ?p"
    by (rule map_of_rev_distinct) (simp add: comp_def case_prod_beta distinct_update d)
  have seq: "map_of ?p ''seq_id'' = Some (seq_cell r)" using sq unfolding map_of_conv update_conv' by simp
  have dl: "map_of ?p ''deleted_at'' = None \<or> map_of ?p ''deleted_at'' = Some (cell (ag_cols r) ''deleted_at'')"
    using del unfolding map_of_conv update_conv' by auto
  have "seq_cell r \<noteq> JNone" using seq_cell_of [OF ok1 rin(1)] by simp
  moreover have only: "r' = r" if "r' \<in> set (agents db1)" "seq_cell r' = seq_cell r \<or> ag_name r' = name" for r'
    using that ok1 rin distinct_map_eq [of seq_cell "agents db1" r' r] distinct_map_eq [of ag_name "agents db1" r' r]
    by (auto simp: fleet_ok_def)
  moreover have "name \<in> ag_name ` set (agents db1)" using rin by auto
  moreover have "\<not> list_ex (\<lambda>r'. ag_name r' \<noteq> name \<and> cell (ag_cols r') ''seq_id'' = seq_cell r) (agents db1)"
    using only rin(2) by (auto simp: list_ex_iff seq_cell_def [symmetric])
  ultimately have "write_agent_metadata c now name md db =
      Inr (db1\<lparr>agents := sql_update (\<lambda>r. ag_name r = name) (\<lambda>r. r\<lparr>ag_cols := set_cells ?p (ag_cols r)\<rparr>) (agents db1)\<rparr>)"
    using keys' seq unfolding write_agent_metadata_def e db2 prod.case upsert_agent_def Let_def cell_def [of ?p] by simp
  moreover have "evolves (agents db1)
      (sql_update (\<lambda>r. ag_name r = name) (\<lambda>r. r\<lparr>ag_cols := set_cells ?p (ag_cols r)\<rparr>) (agents db1))"
  proof (rule evolves_update)
    fix r'
    assume "r' \<in> set (agents db1)" "ag_name r' = name"
    then have "r' = r" using only by blast
    moreover have "cell (set_cells ?p (ag_cols r)) ''seq_id'' = seq_cell r" unfolding cell_set_cells m seq by simp
    moreover have "cell (set_cells ?p (ag_cols r)) ''deleted_at'' = cell (ag_cols r) ''deleted_at''"
      using dl unfolding cell_set_cells m by auto
    ultimately show "ag_name (r'\<lparr>ag_cols := set_cells ?p (ag_cols r')\<rparr>) = ag_name r' \<and>
        seq_cell (r'\<lparr>ag_cols := set_cells ?p (ag_cols r')\<rparr>) = seq_cell r' \<and>
        (\<not> alive r' \<longrightarrow> \<not> alive (r'\<lparr>ag_cols := set_cells ?p (ag_cols r')\<rparr>))"
      by (simp add: seq_cell_def alive_def)
  qed
  ultimately show ?thesis by blast
qed

section \<open>Any sequence of statements\<close>

datatype fleet_op =
    GetSeq string string
  | WriteMetadata string string "(string \<times> json) list"
  | MarkDeleted string string
  | MarkInterrupted string string string
  | CreateGroup string string "string option"
  | AssignGroup string string "string list"
  | UnassignGroup string "string list"
  | RenameGroup string string string "string option"
  | DeleteGroup string string

definition else_same :: "fleet \<Rightarrow> fleet_error + fleet \<Rightarrow> fleet" where
  "else_same db r = (case r of Inl _ \<Rightarrow> db | Inr db' \<Rightarrow> db')"

primrec exec_fleet :: "codec \<Rightarrow> fleet_op \<Rightarrow> fleet \<Rightarrow> fleet" where
  "exec_fleet c (GetSeq now n) db = fst (get_or_create_agent_seq_id now n db)"
| "exec_fleet c (WriteMetadata now n md) db = else_same db (write_agent_metadata c now n md db)"
| "exec_fleet c (MarkDeleted now n) db = mark_agent_deleted now n db"
| "exec_fleet c (MarkInterrupted now a b) db = fst (mark_agents_interrupted now a b db)"
| "exec_fleet c (CreateGroup now n d) db = else_same db (map_sum id fst (create_group now n d db))"
| "exec_fleet c (AssignGroup now g ns) db = fst (assign_agents_to_group now g ns db)"
| "exec_fleet c (UnassignGroup now ns) db = fst (remove_agents_from_group now ns db)"
| "exec_fleet c (RenameGroup now old new d) db = else_same db (map_sum id fst (rename_group now old new d db))"
| "exec_fleet c (DeleteGroup now n) db = fst (delete_group now n db)"

definition proper_op :: "fleet_op \<Rightarrow> fleet \<Rightarrow> bool" where
  "proper_op op db = (case op of WriteMetadata now n md \<Rightarrow> proper_metadata n md db | _ \<Rightarrow> True)"

primrec proper_ops :: "codec \<Rightarrow> fleet_op list \<Rightarrow> fleet \<Rightarrow> bool" where
  "proper_ops c [] db = True"
| "proper_ops c (op # ops) db = (proper_op op db \<and> proper_ops c ops (exec_fleet c op db))"

text \<open>Every statement leaves a consistent table whose rows go on from those before.\<close>

lemma exec_fleet_step:
  assumes ok: "fleet_ok db" and proper: "proper_op op db"
  shows "fleet_ok (exec_fleet c op db) \<and> (\<forall>r\<in>set (agents db). \<exists>r'\<in>set (agents (exec_fleet c op db)).
    ag_name r' = ag_name r \<and> seq_cell r' = seq_cell r \<and> (\<not> alive r \<longrightarrow> \<not> alive r'))"
proof -
  have by_rows: ?thesis if "exec_fleet c op db = db\<lparr>agents := rows\<rparr>" "evolves (agents db) rows" for rows
    using that evolves_ok [OF ok that(2)] evolves_find [OF that(2)] by simp
  have by_groups: "fleet_ok (db\<lparr>groups := gs\<rparr>)" if "distinct (map g_name gs)" for gs
    using ok that by (simp add: fleet_ok_def)
  show ?thesis
  proof (cases op)
    case (GetSeq now n)
    then show ?thesis using get_or_create_ok [OF ok, of now n] by auto
  next
    case (WriteMetadata now n md)
    let ?db1 = "fst (get_or_create_agent_seq_id now n db)"
    have md: "proper_metadata n md db" using proper WriteMetadata by (simp add: proper_op_def)
    obtain rows where w: "write_agent_metadata c now n md db = Inr (?db1\<lparr>agents := rows\<rparr>)" "evolves (agents ?db1) rows"
      using write_ok [OF ok md] by blast
    have "fleet_ok (?db1\<lparr>agents := rows\<rparr>)" "set (agents db) \<subseteq> set (agents ?db1)"
      using evolves_ok w(2) get_or_create_ok [OF ok, of now n] by simp_all
    then show ?thesis using evolves_find [OF w(2)] w(1) WriteMetadata by (auto simp: else_same_def)
  next
    case (CreateGroup now n d)
    then show ?thesis using by_groups ok by (auto simp: create_group_def else_same_def fleet_ok_def Let_def)
  next
    case (AssignGroup now g ns)
    then show ?thesis using by_rows [OF _ evolves_set_groups(1)] evolves_set_groups(2) by (simp add: assign_agents_to_group_def)
  next
    case (UnassignGroup now ns)
    then show ?thesis using by_rows [OF _ evolves_set_groups(1)] evolves_set_groups(2) by (simp add: remove_agents_from_group_def)
  next
    case (RenameGroup now old new d)
    let ?gs = "sql_update (\<lambda>g. g_name g = old)
      (\<lambda>g. g\<lparr>g_name := new, g_description := (if d = None then g_description g else d), g_updated := now\<rparr>) (groups db)"
    show ?thesis
    proof (cases "group_exists old db \<and> \<not> group_exists new db")
      case True
      then have "\<forall>g\<in>set (groups db). g_name g \<noteq> new" by (simp add: group_exists_def fetchone_None)
      then have "distinct (map g_name ?gs)"
        using ok by (intro distinct_update_key [where k = g_name and v = new]) (auto simp: fleet_ok_def)
      then have "fleet_ok (db\<lparr>groups := ?gs, agents := move_group now old (JText new) (agents db)\<rparr>)"
        using evolves_ok [OF by_groups evolves_move_group, of ?gs now old "JText new"] by simp
      then show ?thesis using True RenameGroup evolves_find [OF evolves_move_group]
        by (simp add: rename_group_def else_same_def)
    qed (use ok RenameGroup in \<open>auto simp: rename_group_def else_same_def\<close>)
  next
    case (DeleteGroup now n)
    have "distinct (map g_name (sql_delete (\<lambda>g. g_name g = n) (groups db)))" using ok by (simp add: fleet_ok_def)
    then have "fleet_ok (db\<lparr>groups := sql_delete (\<lambda>g. g_name g = n) (groups db), agents := move_group now n JNone (agents db)\<rparr>)"
      using evolves_ok [OF by_groups evolves_move_group] by simp
    then show ?thesis using DeleteGroup evolves_find [OF evolves_move_group] by (simp add: delete_group_def fleet_ok_def)
  next
    case (MarkDeleted now n)
    then show ?thesis using by_rows [OF _ evolves_mark_deleted] by (simp add: mark_agent_deleted_def)
  next
    case (MarkInterrupted now a b)
    then show ?thesis using by_rows [OF _ evolves_interrupted] by (simp add: mark_agents_interrupted_def Let_def)
  qed
qed

definition numbered :: "string \<Rightarrow> nat \<Rightarrow> bool \<Rightarrow> fleet \<Rightarrow> bool" where
  "numbered name n gone db \<longleftrightarrow>
     (\<exists>r\<in>set (agents db). ag_name r = name \<and> seq_cell r = JInt (int n) \<and> (gone \<longrightarrow> \<not> alive r))"

text \<open>The statements as their callers make them: those out of contract change nothing here, and \<open>proper_ops\<close> has none.\<close>

definition proper_step :: "codec \<Rightarrow> fleet_op \<Rightarrow> fleet \<Rightarrow> fleet" where
  "proper_step c op db = (if proper_op op db then exec_fleet c op db else db)"

lemma proper_run: "proper_ops c ops db \<Longrightarrow> run_ops (exec_fleet c) ops db = run_ops (proper_step c) ops db"
  by (induction ops arbitrary: db) (simp_all add: proper_step_def)

interpretation numbering: op_frame "proper_step c" fleet_ok "numbered name n gone" "\<lambda>_. True"
proof
  show "fleet_ok db \<Longrightarrow> fleet_ok (proper_step c op db)" for db op using exec_fleet_step by (simp add: proper_step_def)
  show "fleet_ok db \<Longrightarrow> numbered name n gone db \<Longrightarrow> True \<Longrightarrow> numbered name n gone (proper_step c op db)" for db op
    using exec_fleet_step [of db op c] unfolding numbered_def proper_step_def by metis
qed

lemma numbered_row:
  assumes "fleet_ok db" and "numbered name n gone db"
  shows "\<exists>r. find_agent name db = Some r \<and> seq_of r = n \<and> (gone \<longrightarrow> \<not> alive r)"
proof -
  obtain r where r: "r \<in> set (agents db)" "ag_name r = name" "seq_cell r = JInt (int n)" "gone \<longrightarrow> \<not> alive r"
    using assms(2) by (auto simp: numbered_def)
  then show ?thesis using find_agent_key [OF assms(1) r(1)] seq_cell_of [OF assms(1) r(1)] by auto
qed


definition empty_fleet :: fleet where
  "empty_fleet = \<lparr>agents = [], next_seq = None, groups = [], managers = [], metrics = []\<rparr>"

lemma empty_fleet_ok: "fleet_ok empty_fleet"
  by (simp add: empty_fleet_def fleet_ok_def)


text \<open>
  A name marked deleted never comes back: no statement clears the mark, not even the metadata written
  when a container of the same name is deployed again. From then on it is in no group, no group counts
  it, and assigning it to a group changes nothing.
\<close>

theorem deleted_for_good:
  fixes c now
  assumes "fleet_ok db" and "find_agent name db \<noteq> None" and "proper_ops c ops (mark_agent_deleted now name db)"
  defines "db2 \<equiv> \<lambda>ops. run_ops (exec_fleet c) ops (mark_agent_deleted now name db)"
  shows "name \<notin> set (get_agents_in_group g (db2 ops)) \<and> snd (assign_agents_to_group now' g [name] (db2 ops)) = 0 \<and>
    (\<exists>r. find_agent name (db2 ops) = Some r \<and> \<not> alive r)"
proof -
  obtain r where r: "find_agent name db = Some r" using assms(2) by auto
  let ?db1 = "mark_agent_deleted now name db"
  have ok1: "fleet_ok ?db1"
    using evolves_ok [OF assms(1) evolves_mark_deleted] by (simp add: mark_agent_deleted_def)
  have rin: "r \<in> set (agents db)" "ag_name r = name" using find_agent_Some [OF r] by auto
  let ?r = "r\<lparr>ag_cols := set_cells [(''deleted_at'', JText now), (''updated_at'', JText now), (''syslog_listener'', JNone)] (ag_cols r)\<rparr>"
  have "?r \<in> set (agents ?db1)"
    unfolding mark_agent_deleted_def using rin by (auto simp: set_sql_update intro!: image_eqI [of _ _ r])
  moreover have "ag_name ?r = name" "seq_cell ?r = JInt (int (seq_of r))" "\<not> alive ?r"
    using rin seq_cell_of [OF assms(1)] by (simp_all add: seq_cell_def alive_def cell_set_cells)
  ultimately have "numbered name (seq_of r) True ?db1" unfolding numbered_def by blast
  then have "numbered name (seq_of r) True (db2 ops)"
    unfolding db2_def proper_run [OF assms(3)] using numbering.run_keeps [OF ok1] by (simp add: list_all_iff)
  moreover have ok: "fleet_ok (db2 ops)" unfolding db2_def proper_run [OF assms(3)] by (rule numbering.run_inv [OF ok1])
  ultimately obtain s where s: "find_agent name (db2 ops) = Some s" "\<not> alive s" using numbered_row by blast
  then have "\<not> alive t" if "t \<in> set (agents (db2 ops))" "ag_name t = name" for t
    using that find_agent_key [OF ok that(1)] by simp
  then show ?thesis using s
    by (auto simp: get_agents_in_group_def in_group_def assign_agents_to_group_def set_groups_def rowcount_0_iff)
qed

theorem deleted_for_good_witness:
  "\<forall>c. ''web-0001'' \<notin> set (get_agents_in_group ''lab'' (run_ops (exec_fleet c)
      [WriteMetadata ''t2'' ''web-0001'' [(''agent_group'', JText ''lab''), (''lifecycle_status'', JText ''starting'')],
       AssignGroup ''t2'' ''lab'' [''web-0001'']]
      (mark_agent_deleted ''t1'' ''web-0001'' (fst (get_or_create_agent_seq_id ''t'' ''web-0001'' empty_fleet)))))" (is "\<forall>c. ?P c")
proof
  fix c
  let ?db = "fst (get_or_create_agent_seq_id ''t'' ''web-0001'' empty_fleet)"
  have "fleet_ok ?db" "find_agent ''web-0001'' ?db \<noteq> None"
    using get_or_create_ok [OF empty_fleet_ok, of "''t''" "''web-0001''"] by auto
  moreover have "proper_ops c [WriteMetadata ''t2'' ''web-0001'' [(''agent_group'', JText ''lab''), (''lifecycle_status'', JText ''starting'')],
       AssignGroup ''t2'' ''lab'' [''web-0001'']] (mark_agent_deleted ''t1'' ''web-0001'' ?db)"
    by (simp add: proper_op_def proper_metadata_def)
  ultimately show "?P c" using deleted_for_good by blast
qed

section \<open>Pruning\<close>

lemma delete_first_keeps: "filter (\<lambda>r. \<not> P r) (delete_first n P rows) = filter (\<lambda>r. \<not> P r) rows"
  by (induction n P rows rule: delete_first.induct) (auto split: nat.splits)

lemma delete_first_count: "rowcount P (delete_first n P rows) = rowcount P rows - n"
  by (induction n P rows rule: delete_first.induct) (auto simp: rowcount_def split: nat.splits)

lemma delete_first_all: "rowcount P rows \<le> n \<Longrightarrow> delete_first n P rows = filter (\<lambda>r. \<not> P r) rows"
  by (induction n P rows rule: delete_first.induct) (auto simp: rowcount_def split: nat.splits)

lemma prune_loop_returns:
  assumes "0 < batch"
  shows "prune_loop batch P (rows, d, True) = Some (filter (\<lambda>r. \<not> P r) rows, d + rowcount P rows, False)"
proof (induction "rowcount P rows" arbitrary: rows d rule: less_induct)
  case less
  let ?k = "min (rowcount P rows) (nat batch)"
  let ?rows = "delete_first ?k P rows"
  have step: "prune_loop batch P (rows, d, True) = prune_loop batch P (?rows, d + ?k, batch \<le> int ?k)"
    unfolding prune_loop_def
    by (subst while_option_unfold) (use assms in \<open>simp add: delete_batch_def Let_def\<close>)
  show ?case
  proof (cases "batch \<le> int ?k")
    case True
    then have k: "?k = nat batch" "nat batch \<le> rowcount P rows" using assms by auto
    then have "rowcount P ?rows < rowcount P rows" using assms by (simp add: delete_first_count)
    from less [OF this] show ?thesis using True k by (simp add: step delete_first_keeps delete_first_count)
  next
    case False
    then have k: "?k = rowcount P rows" using assms by auto
    have "prune_loop batch P (?rows, d + ?k, False) = Some (?rows, d + ?k, False)"
      unfolding prune_loop_def by (subst while_option_unfold) simp
    then show ?thesis using False k by (simp add: step delete_first_all)
  qed
qed

lemma prune_loop_diverges:
  assumes "batch \<le> 0"
  shows "prune_loop batch P (rows, d, True) = None"
proof (rule ccontr)
  assume "prune_loop batch P (rows, d, True) \<noteq> None"
  let ?step = "\<lambda>(rows, deleted, more). case delete_batch batch P rows of (rows', k) \<Rightarrow> (rows', deleted + k, batch \<le> int k)"
  from \<open>prune_loop batch P (rows, d, True) \<noteq> None\<close> obtain u where "prune_loop batch P (rows, d, True) = Some u" by auto
  then have w: "while_option (\<lambda>(rows, deleted, more). more) ?step (rows, d, True) = Some u" by (simp only: prune_loop_def)
  have "snd (snd u)"
    by (rule while_option_rule [where P = "\<lambda>s. snd (snd s)", OF _ w]) (use assms in \<open>auto split: prod.splits\<close>)
  then show False using while_option_stop [OF w] by (simp add: case_prod_beta)
qed

text \<open>
  Pruning the metrics ends, whatever the batch size, as long as it is positive: every row older than
  the limit and of the given types is gone, no other is, and the number of removed rows is returned. With
  a batch size of zero or below it never returns.
\<close>

theorem prune_metrics_ends:
  "prune_metrics before types excluded batch db =
    (if 0 < batch then Some (db\<lparr>metrics := filter (\<lambda>m. \<not> prunable before types excluded m) (metrics db)\<rparr>,
       rowcount (prunable before types excluded) (metrics db))
     else None)"
  by (simp add: prune_metrics_def prune_loop_returns prune_loop_diverges)

section \<open>Manager profiles\<close>

definition secret_in_clear :: "(string \<times> json) list \<Rightarrow> bool" where
  "secret_in_clear cols = list_ex (\<lambda>k. \<exists>t. cell cols k = JText t \<and> t \<noteq> [] \<and> \<not> is_encrypted (Some t)) SECRET_COLUMNS"

text \<open>A value a secret column can be given: nothing, or a text that does not look encrypted already.\<close>

definition plain_secret :: "json \<Rightarrow> bool" where
  "plain_secret v = (case v of JNone \<Rightarrow> True | JText t \<Rightarrow> \<not> is_encrypted (Some t) | _ \<Rightarrow> False)"

lemma secret_reads_back:
  assumes "\<And>s. ci_dec c (ci_enc c s) = Some s" and "plain_secret v"
  shows "of_opt (decrypt_secret (ci_dec c) (opt_text (of_opt (encrypt_secret (ci_enc c) (opt_text v))))) = v"
proof -
  have "opt_text (of_opt x) = x" for x by (simp add: opt_text_def of_opt_def split: option.splits)
  moreover have "of_opt (opt_text v) = v" "\<not> is_encrypted (opt_text v)"
    using assms(2) by (auto simp: plain_secret_def of_opt_def opt_text_def is_encrypted_def split: json.splits)
  moreover have "decrypt_secret (ci_dec c) (encrypt_secret (ci_enc c) (opt_text v)) = opt_text v"
    using calculation(3) assms(1) by (auto simp: decrypt_secret_def encrypt_secret_def is_encrypted_def PREFIX_def)
  ultimately show ?thesis by simp
qed

lemma stored_not_clear: "k \<in> set SECRET_COLUMNS \<Longrightarrow> stored_value c k v = JText t \<Longrightarrow> t = [] \<or> is_encrypted (Some t)"
  by (auto simp: stored_value_def of_opt_def encrypt_secret_def is_encrypted_def PREFIX_def split: option.splits if_splits)

lemma cell_manager_out:
  "cell (mg_cols (manager_out c r)) k = (if k \<in> set SECRET_COLUMNS
     then of_opt (decrypt_secret (ci_dec c) (opt_text (cell (mg_cols r) k))) else cell (mg_cols r) k)"
proof -
  have "map_of (map (\<lambda>(k, v). (k, f k v)) cols) k = map_option (f k) (map_of cols k)" for f :: "string \<Rightarrow> json \<Rightarrow> json" and cols
    by (rule map_of_conv)
  moreover have "of_opt (decrypt_secret (ci_dec c) (opt_text JNone)) = JNone"
    by (simp add: decrypt_secret_def is_encrypted_def opt_text_def of_opt_def)
  ultimately show ?thesis by (auto simp: manager_out_def cell_def split: option.splits)
qed

lemma stored_reads_back:
  assumes "\<And>s. ci_dec c (ci_enc c s) = Some s" and "k \<in> set SECRET_COLUMNS \<Longrightarrow> plain_secret v"
    and "cell (mg_cols r) k = stored_value c k v"
  shows "cell (mg_cols (manager_out c r)) k = v"
proof (cases "k \<in> set SECRET_COLUMNS")
  case True
  then show ?thesis using secret_reads_back [OF assms(1) assms(2) [OF True]]
    unfolding cell_manager_out assms(3) stored_value_def by simp
qed (simp add: cell_manager_out assms(3) stored_value_def)

lemma find_append: "find P (xs @ ys) = (case find P xs of None \<Rightarrow> find P ys | Some x \<Rightarrow> Some x)"
  by (induction xs) auto

lemma map_of_pairs: "map_of (map (\<lambda>k. (k, f k)) ks) k = (if k \<in> set ks then Some (f k) else None)"
  by (induction ks) auto

lemma manager_created:
  assumes inv: "\<And>s. ci_dec c (ci_enc c s) = Some s" and pl: "\<And>k. k \<in> set SECRET_COLUMNS \<Longrightarrow> plain_secret (cell data k)"
    and e: "create_manager c now i data db = Inr db1"
  shows "\<exists>r. get_manager c i db1 = Some r \<and> (\<forall>k\<in>set MANAGER_FIELDS. cell (mg_cols r) k = data_get data k)"
    "\<not> secret_in_clear (mg_cols (last (managers db1)))"
proof -
  let ?cols = "map (\<lambda>k. (k, stored_value c k (data_get data k))) MANAGER_FIELDS @
            [(''created_at'', JText now), (''updated_at'', JText now)]"
  have ds: "k \<in> set SECRET_COLUMNS \<Longrightarrow> plain_secret (data_get data k)" for k
    using pl [of k]
    by (auto simp: data_get_def cell_def SECRET_COLUMNS_def MANAGER_DEFAULTS_def plain_secret_def split: option.splits)
  have cols: "cell ?cols k = stored_value c k (data_get data k)" if "k \<in> set MANAGER_FIELDS" for k
    using that by (simp add: cell_def map_add_def map_of_pairs)
  have new: "find (\<lambda>r. mg_id r = i) (managers db) = None"
    and db1: "managers db1 = managers db @ [\<lparr>mg_id = i, mg_cols = ?cols\<rparr>]"
    using e by (auto simp: create_manager_def find_None_iff split: if_splits)
  have g: "get_manager c i db1 = Some (manager_out c \<lparr>mg_id = i, mg_cols = ?cols\<rparr>)"
    unfolding get_manager_def fetchone_def db1 find_append new by simp
  have "cell (mg_cols (manager_out c \<lparr>mg_id = i, mg_cols = ?cols\<rparr>)) k = data_get data k" if "k \<in> set MANAGER_FIELDS" for k
    by (rule stored_reads_back [OF inv ds]) (simp_all only: manager_row.simps cols [OF that])
  then show "\<exists>r. get_manager c i db1 = Some r \<and> (\<forall>k\<in>set MANAGER_FIELDS. cell (mg_cols r) k = data_get data k)"
    using g by blast
  have "set SECRET_COLUMNS \<subseteq> set MANAGER_FIELDS" by (simp add: SECRET_COLUMNS_def MANAGER_FIELDS_def)
  then show "\<not> secret_in_clear (mg_cols (last (managers db1)))"
    using cols stored_not_clear unfolding db1 last_snoc manager_row.simps secret_in_clear_def list_ex_iff by fastforce
qed

lemma manager_updated:
  assumes inv: "\<And>s. ci_dec c (ci_enc c s) = Some s" and pl: "\<And>k. k \<in> set SECRET_COLUMNS \<Longrightarrow> plain_secret (cell data k)"
    and e: "update_manager c now i data db = Inr (db2, Some r2)"
  shows "\<exists>r0. get_manager c i db = Some r0 \<and>
      (\<forall>k\<in>set MANAGER_FIELDS. cell (mg_cols r2) k = (if map_of data k = None then cell (mg_cols r0) k else cell data k))"
proof -
  let ?fields = "filter (\<lambda>k. map_of data k \<noteq> None) MANAGER_FIELDS"
  let ?updates = "map (\<lambda>k. (k, stored_value c k (cell data k))) ?fields"
  let ?new = "\<lambda>r :: manager_row. r\<lparr>mg_cols := set_cells (?updates @ [(''updated_at'', JText now)]) (mg_cols r)\<rparr>"
  obtain old where old: "fetchone (\<lambda>r. mg_id r = i) (managers db) = Some old"
    using e by (auto simp: update_manager_def split: option.splits)
  have g: "get_manager c i db = Some (manager_out c old)" by (simp add: get_manager_def old)
  have same: "fetchone (\<lambda>r. mg_id r = i) (sql_update (\<lambda>r. mg_id r = i) ?new rows) = map_option ?new (fetchone (\<lambda>r. mg_id r = i) rows)" for rows :: "manager_row list"
    by (induction rows) (auto simp: fetchone_def sql_update_def)
  have cases: "?updates = [] \<and> r2 = manager_out c old \<or> ?updates \<noteq> [] \<and> r2 = manager_out c (?new old)"
  proof (cases "?updates = []")
    case True
    then show ?thesis using e unfolding update_manager_def old option.case Let_def by (simp only: if_True simp_thms sum.inject prod.inject option.inject)
  next
    case False
    let ?db = "db\<lparr>managers := sql_update (\<lambda>r. mg_id r = i) ?new (managers db)\<rparr>"
    have "get_manager c i ?db = Some r2"
      using e False unfolding update_manager_def old option.case Let_def
      by (simp only: if_False sum.inject prod.inject sum.distinct simp_thms split: if_splits) (elim conjE, hypsubst, assumption)
    moreover have m: "managers ?db = sql_update (\<lambda>r. mg_id r = i) ?new (managers db)" by simp
    have "get_manager c i ?db = Some (manager_out c (?new old))"
      unfolding get_manager_def m same old option.map ..
    ultimately show ?thesis using False by simp
  qed
  have upd: "map_of (rev (?updates @ [(''updated_at'', JText now)])) k =
      (if map_of data k = None then None else Some (stored_value c k (cell data k)))" if "k \<in> set MANAGER_FIELDS" for k
  proof -
    have "k \<noteq> ''updated_at''" using that by (auto simp: MANAGER_FIELDS_def)
    then show ?thesis using that by (simp add: rev_map map_of_pairs)
  qed
  have "cell (mg_cols r2) k = (if map_of data k = None then cell (mg_cols (manager_out c old)) k else cell data k)"
    if k: "k \<in> set MANAGER_FIELDS" for k
    using cases
  proof
    assume u: "?updates = [] \<and> r2 = manager_out c old"
    then have "k \<notin> set ?fields" by (metis empty_iff list.set(1) map_is_Nil_conv)
    then show ?thesis using u k by simp
  next
    assume u: "?updates \<noteq> [] \<and> r2 = manager_out c (?new old)"
    have cl: "cell (mg_cols (?new old)) k = (if map_of data k = None then cell (mg_cols old) k else stored_value c k (cell data k))"
    proof -
      have sel: "mg_cols (r\<lparr>mg_cols := x\<rparr>) = x" for r :: manager_row and x by simp
      show ?thesis unfolding sel cell_set_cells upd [OF k] by simp
    qed
    define n where "n = ?new old"
    have u': "r2 = manager_out c n" using u by (simp only: n_def)
    have cl': "cell (mg_cols n) k = (if map_of data k = None then cell (mg_cols old) k else stored_value c k (cell data k))"
      using cl by (simp only: n_def)
    show ?thesis
    proof (cases "map_of data k = None")
      case True
      then show ?thesis using cl' by (simp add: u' cell_manager_out)
    next
      case False
      then have "cell (mg_cols (manager_out c n)) k = cell data k"
        using cl' by (intro stored_reads_back [OF inv pl]) auto
      then show ?thesis using False by (auto simp: u')
    qed
  qed
  then show ?thesis using g by blast
qed

definition in_clear :: "json \<Rightarrow> bool" where
  "in_clear v = (\<exists>t. v = JText t \<and> t \<noteq> [] \<and> \<not> is_encrypted (Some t))"

lemma stored_in_clear: "k \<in> set SECRET_COLUMNS \<Longrightarrow> \<not> in_clear (stored_value c k v)"
  using stored_not_clear by (auto simp: in_clear_def)

text \<open>Nothing is stored in clear by creating a profile, and by updating one only what was so before.\<close>

lemma created_in_clear:
  assumes "create_manager c now i data db = Inr db1" and "r \<in> set (managers db1)" and "k \<in> set SECRET_COLUMNS"
    and "in_clear (cell (mg_cols r) k)"
  shows "r \<in> set (managers db)"
proof (rule ccontr)
  assume n: "r \<notin> set (managers db)"
  let ?cols = "map (\<lambda>k. (k, stored_value c k (data_get data k))) MANAGER_FIELDS @
            [(''created_at'', JText now), (''updated_at'', JText now)]"
  have "managers db1 = managers db @ [\<lparr>mg_id = i, mg_cols = ?cols\<rparr>]"
    using assms(1) by (auto simp: create_manager_def split: if_splits)
  then have "mg_cols r = ?cols" using assms(2) n by auto
  moreover have "k \<in> set MANAGER_FIELDS" using assms(3) by (auto simp: SECRET_COLUMNS_def MANAGER_FIELDS_def)
  then have "cell ?cols k = stored_value c k (data_get data k)" by (simp add: cell_def map_add_def map_of_pairs)
  ultimately show False using stored_in_clear [OF assms(3)] assms(4) by simp
qed

lemma updated_rows:
  assumes e: "update_manager c now i data db = Inr (db2, Some r2)"
  shows "filter (\<lambda>k. map_of data k \<noteq> None) MANAGER_FIELDS = [] \<and> db2 = db \<or>
    managers db2 = sql_update (\<lambda>r. mg_id r = i) (\<lambda>r. r\<lparr>mg_cols := set_cells (map (\<lambda>k. (k, stored_value c k (cell data k)))
      (filter (\<lambda>k. map_of data k \<noteq> None) MANAGER_FIELDS) @ [(''updated_at'', JText now)]) (mg_cols r)\<rparr>) (managers db)"
proof -
  let ?updates = "map (\<lambda>k. (k, stored_value c k (cell data k))) (filter (\<lambda>k. map_of data k \<noteq> None) MANAGER_FIELDS)"
  obtain old where old: "fetchone (\<lambda>r. mg_id r = i) (managers db) = Some old"
    using e by (auto simp: update_manager_def split: option.splits)
  show ?thesis
  proof (cases "?updates = []")
    case True
    then have "db2 = db" using e unfolding update_manager_def old option.case Let_def by (simp only: if_True simp_thms sum.inject prod.inject)
    then show ?thesis using True by simp
  next
    case False
    have sel: "managers (d\<lparr>managers := x\<rparr>) = x" for d :: fleet and x by simp
    show ?thesis
      using e False unfolding update_manager_def old option.case Let_def
      by (simp only: if_False sum.inject prod.inject sum.distinct simp_thms split: if_splits) (elim conjE, hypsubst, rule disjI2, rule sel)
  qed
qed

lemma updated_in_clear:
  assumes e: "update_manager c now i data db = Inr (db2, Some r2)" and r: "r \<in> set (managers db2)" and k: "k \<in> set SECRET_COLUMNS"
    and cl: "in_clear (cell (mg_cols r) k)"
  shows "\<exists>r0 \<in> set (managers db). mg_id r0 = mg_id r \<and> cell (mg_cols r0) k = cell (mg_cols r) k \<and> (mg_id r = i \<longrightarrow> map_of data k = None)"
proof -
  let ?fields = "filter (\<lambda>k. map_of data k \<noteq> None) MANAGER_FIELDS"
  let ?updates = "map (\<lambda>k. (k, stored_value c k (cell data k))) ?fields"
  let ?new = "\<lambda>r :: manager_row. r\<lparr>mg_cols := set_cells (?updates @ [(''updated_at'', JText now)]) (mg_cols r)\<rparr>"
  have kf: "k \<in> set MANAGER_FIELDS" "k \<noteq> ''updated_at''" using k by (auto simp: SECRET_COLUMNS_def MANAGER_FIELDS_def)
  show ?thesis using updated_rows [OF e]
  proof
    assume u: "filter (\<lambda>k. map_of data k \<noteq> None) MANAGER_FIELDS = [] \<and> db2 = db"
    then have "map_of data k = None" using kf by (auto simp: filter_empty_conv)
    then show ?thesis using r u by blast
  next
    assume "managers db2 = sql_update (\<lambda>r. mg_id r = i) ?new (managers db)"
    then obtain r0 where r0: "r0 \<in> set (managers db)" "r = (if mg_id r0 = i then ?new r0 else r0)"
      using r by (auto simp: sql_update_def)
    show ?thesis
    proof (cases "mg_id r0 = i")
      case False
      then show ?thesis using r0 by auto
    next
      case True
      have sel: "mg_cols (q\<lparr>mg_cols := x\<rparr>) = x" "mg_id (q\<lparr>mg_cols := x\<rparr>) = mg_id q" for q :: manager_row and x by simp_all
      have u: "map_of (rev (?updates @ [(''updated_at'', JText now)])) k =
          (if map_of data k = None then None else Some (stored_value c k (cell data k)))"
        using kf by (simp add: rev_map map_of_pairs)
      have m: "mg_cols r = set_cells (?updates @ [(''updated_at'', JText now)]) (mg_cols r0)" "mg_id r = mg_id r0"
        using r0(2) unfolding if_P [OF True] by (simp_all only: sel)
      have "cell (mg_cols r) k = (if map_of data k = None then cell (mg_cols r0) k else stored_value c k (cell data k))"
        unfolding m(1) cell_set_cells u by simp
      then show ?thesis using r0(1) m(2) cl stored_in_clear [OF k] by (cases "map_of data k = None") auto
    qed
  qed
qed

lemma updated_others:
  assumes e: "update_manager c now i data db = Inr (db2, Some r2)"
  shows "filter (\<lambda>r. mg_id r \<noteq> i) (managers db2) = filter (\<lambda>r. mg_id r \<noteq> i) (managers db)"
proof -
  have other: "filter (\<lambda>r. mg_id r \<noteq> i) (sql_update (\<lambda>r. mg_id r = i) (\<lambda>r. r\<lparr>mg_cols := f (mg_cols r)\<rparr>) rows) = filter (\<lambda>r. mg_id r \<noteq> i) rows"
    for f and rows :: "manager_row list"
    by (induction rows) (simp_all add: sql_update_def)
  show ?thesis using updated_rows [OF e]
  proof
    assume "managers db2 = sql_update (\<lambda>r. mg_id r = i) (\<lambda>r. r\<lparr>mg_cols := set_cells (map (\<lambda>k. (k, stored_value c k (cell data k)))
      (filter (\<lambda>k. map_of data k \<noteq> None) MANAGER_FIELDS) @ [(''updated_at'', JText now)]) (mg_cols r)\<rparr>) (managers db)"
    then show ?thesis by (simp only: other)
  qed simp
qed

text \<open>
  C20: a manager profile reads back as it was saved, and its secrets are not stored in clear. With a
  cipher that inverts its encryption and secrets that do not look encrypted already: after \<open>create_manager\<close>
  every field reads as given (or its default) and the other profiles are as before; after \<open>update_manager\<close> the given fields
  read as given, the others of the profile as before, and the other profiles are as before. A secret that is in clear in the table after
  either was there before in the same profile, and is not one that was given.
\<close>

theorem manager_profile_roundtrip:
  assumes "\<And>s. ci_dec c (ci_enc c s) = Some s" and "\<And>k. k \<in> set SECRET_COLUMNS \<Longrightarrow> plain_secret (cell data k)"
  shows "(create_manager c now i data db = Inr db1 \<longrightarrow>
      (\<exists>r. get_manager c i db1 = Some r \<and> (\<forall>k\<in>set MANAGER_FIELDS. cell (mg_cols r) k = data_get data k)) \<and>
      butlast (managers db1) = managers db \<and> mg_id (last (managers db1)) = i \<and>
      (\<forall>r\<in>set (managers db1). \<forall>k\<in>{''siem_auth_key'', ''detection_secret''}. in_clear (cell (mg_cols r) k) \<longrightarrow> r \<in> set (managers db))) \<and>
    (update_manager c now i data db = Inr (db2, Some r2) \<longrightarrow>
      (\<exists>r0. get_manager c i db = Some r0 \<and>
        (\<forall>k\<in>set MANAGER_FIELDS. cell (mg_cols r2) k = (if map_of data k = None then cell (mg_cols r0) k else cell data k))) \<and>
      filter (\<lambda>r. mg_id r \<noteq> i) (managers db2) = filter (\<lambda>r. mg_id r \<noteq> i) (managers db) \<and>
      (\<forall>r\<in>set (managers db2). \<forall>k\<in>{''siem_auth_key'', ''detection_secret''}. in_clear (cell (mg_cols r) k) \<longrightarrow>
        (\<exists>r0\<in>set (managers db). mg_id r0 = mg_id r \<and> cell (mg_cols r0) k = cell (mg_cols r) k \<and> (mg_id r = i \<longrightarrow> map_of data k = None))))"
proof (intro conjI impI)
  assume c: "create_manager c now i data db = Inr db1"
  show "\<exists>r. get_manager c i db1 = Some r \<and> (\<forall>k\<in>set MANAGER_FIELDS. cell (mg_cols r) k = data_get data k)"
    by (rule manager_created(1) [OF assms c])
  show "butlast (managers db1) = managers db" "mg_id (last (managers db1)) = i"
    using c by (auto simp: create_manager_def split: if_splits)
  show "\<forall>r\<in>set (managers db1). \<forall>k\<in>{''siem_auth_key'', ''detection_secret''}. in_clear (cell (mg_cols r) k) \<longrightarrow> r \<in> set (managers db)"
    using created_in_clear [OF c] by (auto simp: SECRET_COLUMNS_def)
next
  assume u: "update_manager c now i data db = Inr (db2, Some r2)"
  show "\<exists>r0. get_manager c i db = Some r0 \<and>
      (\<forall>k\<in>set MANAGER_FIELDS. cell (mg_cols r2) k = (if map_of data k = None then cell (mg_cols r0) k else cell data k))"
    by (rule manager_updated [OF assms u])
  show "filter (\<lambda>r. mg_id r \<noteq> i) (managers db2) = filter (\<lambda>r. mg_id r \<noteq> i) (managers db)" by (rule updated_others [OF u])
  show "\<forall>r\<in>set (managers db2). \<forall>k\<in>{''siem_auth_key'', ''detection_secret''}. in_clear (cell (mg_cols r) k) \<longrightarrow>
      (\<exists>r0\<in>set (managers db). mg_id r0 = mg_id r \<and> cell (mg_cols r0) k = cell (mg_cols r) k \<and> (mg_id r = i \<longrightarrow> map_of data k = None))"
    using updated_in_clear [OF u] by (simp add: SECRET_COLUMNS_def)
qed

theorem manager_profile_roundtrip_witness:
  "\<exists>db r. create_manager \<lparr>ci_enc = rev, ci_dec = (\<lambda>s. Some (rev s))\<rparr> ''t'' ''m1''
      [(''name'', JText ''lab''), (''siem_type'', JText ''wazuh''), (''siem_auth_key'', JText ''key'')] empty_fleet = Inr db \<and>
    get_manager \<lparr>ci_enc = rev, ci_dec = (\<lambda>s. Some (rev s))\<rparr> ''m1'' db = Some r \<and> cell (mg_cols r) ''siem_auth_key'' = JText ''key''"
proof -
  let ?c = "\<lparr>ci_enc = rev, ci_dec = (\<lambda>s. Some (rev s))\<rparr>"
  let ?data = "[(''name'', JText ''lab''), (''siem_type'', JText ''wazuh''), (''siem_auth_key'', JText ''key'')]"
  have p: "plain_secret (cell ?data k)" if "k \<in> set SECRET_COLUMNS" for k
    using that by (auto simp: SECRET_COLUMNS_def cell_def plain_secret_def is_encrypted_def PREFIX_def)
  obtain db where c: "create_manager ?c ''t'' ''m1'' ?data empty_fleet = Inr db"
    by (simp add: create_manager_def empty_fleet_def data_get_def)
  have "\<exists>r. get_manager ?c ''m1'' db = Some r \<and> (\<forall>k\<in>set MANAGER_FIELDS. cell (mg_cols r) k = data_get ?data k)"
    by (rule manager_profile_roundtrip [THEN conjunct1, THEN mp, THEN conjunct1, OF _ _ c]) (simp_all add: p)
  then obtain r where r: "get_manager ?c ''m1'' db = Some r" "\<forall>k\<in>set MANAGER_FIELDS. cell (mg_cols r) k = data_get ?data k" by blast
  have "''siem_auth_key'' \<in> set MANAGER_FIELDS" by (simp add: MANAGER_FIELDS_def)
  then have "cell (mg_cols r) ''siem_auth_key'' = data_get ?data ''siem_auth_key''" using r(2) by blast
  then show ?thesis using c r(1) by (auto simp: data_get_def)
qed

end
