(* ===== verification/Deployment.thy ===== *)
theory Deployment
  imports Lxc Fleet "HOL-Library.Multiset"
begin

text \<open>
  \<^verbatim>\<open>services/deployment.py\<close> and \<^verbatim>\<open>services/lifecycle.py\<close>: what a worker does for one container, the live
  progress of a deployment, the loop that hands containers to workers and records their results, and the
  stop of the server, which the loop watches. The loop runs in rounds; what happens during one (whether a
  stop began, which workers finished, what they reported) is given by a \<open>tick\<close>.
\<close>

section \<open>The stop of the server\<close>

record lifecycle =
  lc_stopping :: bool
  lc_deadline :: "rat option"

definition INTERRUPTED :: string where
  "INTERRUPTED = ''interrupted''"

text \<open>The hooks run one after the other; one that raises does not keep the next from running.\<close>

primrec run_hooks :: "(unit, 'w) eff list \<Rightarrow> 'w \<Rightarrow> 'w" where
  "run_hooks [] w = w"
| "run_hooks (h # hs) w = run_hooks hs (snd (h w))"

definition begin_shutdown :: "rat \<Rightarrow> rat \<Rightarrow> (unit, 'w) eff list \<Rightarrow> lifecycle \<Rightarrow> 'w \<Rightarrow> lifecycle \<times> 'w" where
  "begin_shutdown timeout now hooks lc w =
     (if lc_stopping lc then (lc, w)
      else (\<lparr>lc_stopping = True, lc_deadline = Some (now + timeout)\<rparr>, run_hooks hooks w))"

definition shutting_down :: "lifecycle \<Rightarrow> bool" where
  "shutting_down lc = lc_stopping lc"

text \<open>\<open>None\<close> is infinity.\<close>

definition time_left :: "rat \<Rightarrow> lifecycle \<Rightarrow> rat option" where
  "time_left now lc = map_option (\<lambda>d. max 0 (d - now)) (lc_deadline lc)"

definition recover_interrupted_deployments :: "string \<Rightarrow> fleet \<Rightarrow> fleet \<times> nat" where
  "recover_interrupted_deployments now db = mark_agents_interrupted now ''starting'' INTERRUPTED db"

section \<open>Live progress\<close>

text \<open>Python's truth of an optional text: not \<open>None\<close> and not empty.\<close>

definition is_given :: "string option \<Rightarrow> bool" where
  "is_given v = (v \<noteq> None \<and> v \<noteq> Some [])"

record container_progress =
  cpr_name :: string
  cpr_status :: string
  cpr_step :: string
  cpr_updated :: "string option"
  cpr_error :: "string option"

record event =
  ev_time :: string
  ev_level :: string
  ev_container :: "string option"
  ev_message :: string

record job =
  jb_id :: string
  jb_status :: string
  jb_started :: string
  jb_finished :: "string option"
  jb_total :: nat
  jb_completed :: nat
  jb_successful :: nat
  jb_failed :: nat
  jb_siem :: string
  jb_containers :: "(string \<times> container_progress) list"
  jb_events :: "event list"

text \<open>The dictionary \<open>deployment_progress\<close>, in insertion order.\<close>

type_synonym jobs = "(string \<times> job) list"

definition MAX_TRACKED_DEPLOYMENTS :: nat where
  "MAX_TRACKED_DEPLOYMENTS = 20"

definition new_job :: "string \<Rightarrow> string \<Rightarrow> nat \<Rightarrow> string \<Rightarrow> job" where
  "new_job now i n siem =
     \<lparr>jb_id = i, jb_status = ''running'', jb_started = now, jb_finished = None, jb_total = n, jb_completed = 0,
      jb_successful = 0, jb_failed = 0, jb_siem = siem, jb_containers = [], jb_events = []\<rparr>"

definition progress_start :: "string \<Rightarrow> string \<Rightarrow> nat \<Rightarrow> string \<Rightarrow> jobs \<Rightarrow> jobs" where
  "progress_start now i n siem jobs =
     (let jobs1 = AList.update i (new_job now i n siem) jobs;
          finished = map fst (filter (\<lambda>(k, v). jb_status v \<noteq> ''running'') jobs1);
          dropped = take (length jobs1 - MAX_TRACKED_DEPLOYMENTS) finished
      in filter (\<lambda>(k, v). k \<notin> set dropped) jobs1)"

definition container_step ::
  "string \<Rightarrow> string \<Rightarrow> string \<Rightarrow> string option \<Rightarrow> string option \<Rightarrow> (string \<times> container_progress) list \<Rightarrow> (string \<times> container_progress) list" where
  "container_step now message name status err cs =
     (let c0 = (case map_of cs name of Some c \<Rightarrow> c
        | None \<Rightarrow> \<lparr>cpr_name = name, cpr_status = ''pending'', cpr_step = ''Queued'', cpr_updated = None, cpr_error = None\<rparr>);
          c1 = c0\<lparr>cpr_step := message, cpr_updated := Some now\<rparr>;
          c2 = (if is_given status then c1\<lparr>cpr_status := the status\<rparr> else c1);
          c3 = (if is_given err then c2\<lparr>cpr_error := err\<rparr> else c2)
      in AList.update name c3 cs)"

definition count_status :: "string option \<Rightarrow> job \<Rightarrow> job" where
  "count_status status j =
     (if status = Some ''success'' then j\<lparr>jb_completed := jb_completed j + 1, jb_successful := jb_successful j + 1\<rparr>
      else if status = Some ''failed'' then j\<lparr>jb_completed := jb_completed j + 1, jb_failed := jb_failed j + 1\<rparr>
      else j)"

definition progress_event ::
  "string \<Rightarrow> string \<Rightarrow> string \<Rightarrow> string \<Rightarrow> string option \<Rightarrow> string option \<Rightarrow> string option \<Rightarrow> jobs \<Rightarrow> jobs" where
  "progress_event now i message level name status err jobs = (case map_of jobs i of
     None \<Rightarrow> jobs
   | Some j \<Rightarrow>
       let j1 = j\<lparr>jb_events := jb_events j @ [\<lparr>ev_time = now, ev_level = level, ev_container = name, ev_message = message\<rparr>]\<rparr>
       in AList.update i (case name of None \<Rightarrow> j1 | Some n \<Rightarrow> if n = [] then j1
            else count_status status (j1\<lparr>jb_containers := container_step now message n status err (jb_containers j1)\<rparr>)) jobs)"

definition progress_finish :: "string \<Rightarrow> string \<Rightarrow> string \<Rightarrow> string \<Rightarrow> string \<Rightarrow> jobs \<Rightarrow> jobs" where
  "progress_finish now i status message level jobs =
     (let jobs1 = progress_event now i message level None None None jobs in
      case map_of jobs1 i of None \<Rightarrow> jobs1
      | Some j \<Rightarrow> AList.update i (j\<lparr>jb_status := status, jb_finished := Some now\<rparr>) jobs1)"

section \<open>One container\<close>

record deploy_config =
  dc_siem_type :: string
  dc_siem_ip :: "string option"
  dc_siem_version :: "string option"
  dc_os_type :: string
  dc_agent_group :: string
  dc_memory_limit :: "string option"
  dc_cpu_shares :: "int option"
  dc_template :: "string option"
  dc_auth_key :: "string option"

record deploy_result =
  dr_name :: string
  dr_seq :: "nat option"
  dr_success :: bool
  dr_error :: "string option"
  dr_ip :: "string option"
  dr_install_message :: "string option"
  dr_time :: "rat option"
  dr_metadata :: "(string \<times> json) list"

text \<open>
  What is done inside a running container: the installers of \<^verbatim>\<open>app/installers\<close>, the health check script and
  the network of \<^verbatim>\<open>core/network.py\<close>. \<open>io_report\<close> is the progress queue, which never raises.
\<close>

record install_result =
  ir_success :: bool
  ir_stdout :: string
  ir_stderr :: string

record 'w deploy_io =
  io_lxc :: "'w lxc"
  io_report :: "string \<Rightarrow> string \<Rightarrow> 'w \<Rightarrow> 'w"
  io_wazuh :: "string \<Rightarrow> string option \<Rightarrow> string \<Rightarrow> string \<Rightarrow> string option \<Rightarrow> (install_result, 'w) eff"
  io_ossec :: "string \<Rightarrow> string option \<Rightarrow> string option \<Rightarrow> (install_result, 'w) eff"
  io_utmstack :: "string \<Rightarrow> string option \<Rightarrow> string option \<Rightarrow> string option \<Rightarrow> (install_result, 'w) eff"
  io_elastic :: "string \<Rightarrow> string option \<Rightarrow> string option \<Rightarrow> string \<Rightarrow> string option \<Rightarrow> (install_result, 'w) eff"
  io_health :: "string \<Rightarrow> (cmd_result, 'w) eff"
  io_interface :: "(string option, 'w) eff"
  io_macvlan :: "string \<Rightarrow> string \<Rightarrow> (unit, 'w) eff"

definition report_step :: "'w deploy_io \<Rightarrow> string \<Rightarrow> string \<Rightarrow> (unit, 'w) eff" where
  "report_step io n message = upd_eff (io_report io n message)"

definition opt_json :: "string option \<Rightarrow> json" where
  "opt_json v = (case v of None \<Rightarrow> JNone | Some s \<Rightarrow> JText s)"

definition seq_json :: "nat option \<Rightarrow> json" where
  "seq_json s = (case s of None \<Rightarrow> JNone | Some n \<Rightarrow> JInt (int n))"

definition or_default :: "string option \<Rightarrow> string \<Rightarrow> string" where
  "or_default v d = (case v of None \<Rightarrow> d | Some s \<Rightarrow> if s = [] then d else s)"

definition failed_state :: "string \<Rightarrow> nat option \<Rightarrow> string \<Rightarrow> string \<Rightarrow> deploy_result" where
  "failed_state n s err state =
     \<lparr>dr_name = n, dr_seq = s, dr_success = False, dr_error = Some err, dr_ip = None, dr_install_message = None, dr_time = None,
      dr_metadata = [(''agent_seq_id'', seq_json s), (''lifecycle_status'', JText ''error''), (''state'', JText state)]\<rparr>"

definition apply_limits :: "'w deploy_io \<Rightarrow> deploy_config \<Rightarrow> string \<Rightarrow> (unit, 'w) eff" where
  "apply_limits io cfg n =
     then_eff (case dc_memory_limit cfg of None \<Rightarrow> ret ()
        | Some m \<Rightarrow> if m = [] then ret ()
            else then_eff (lx_set_cgroup (io_lxc io) n ''memory.max'' (parse_memory_limit m)) (ret ()))
     (then_eff (case dc_cpu_shares cfg of None \<Rightarrow> ret ()
        | Some k \<Rightarrow> if k = 0 then ret ()
            else then_eff (lx_set_cgroup (io_lxc io) n ''cpu.shares'' ((if k < 0 then ''-'' else []) @ nat_str (nat \<bar>k\<bar>))) (ret ()))
     (then_eff (if dc_siem_type cfg = ''ossec''
          then bind_eff (io_interface io) (\<lambda>i. case i of None \<Rightarrow> ret () | Some f \<Rightarrow> if f = [] then ret () else io_macvlan io n f)
          else ret ())
     (then_eff (lx_save (io_lxc io) n) (ret ()))))"

definition install_agent :: "'w deploy_io \<Rightarrow> deploy_config \<Rightarrow> string \<Rightarrow> (install_result option, 'w) eff" where
  "install_agent io cfg n =
     (let t = dc_siem_type cfg; some = (\<lambda>m. bind_eff m (\<lambda>r. ret (Some r))) in
      if t = ''none'' then ret (Some \<lparr>ir_success = True, ir_stdout = ''Bare container (no SIEM agent)'', ir_stderr = []\<rparr>)
      else if t = ''wazuh'' then some (io_wazuh io n (dc_siem_ip cfg) (dc_agent_group cfg)
          (or_default (dc_siem_version cfg) ''4.14.2'') (dc_template cfg))
      else if t = ''ossec'' then some (io_ossec io n (dc_siem_ip cfg) (dc_template cfg))
      else if t = ''utmstack'' then some (io_utmstack io n (dc_siem_ip cfg) (dc_auth_key cfg) (dc_template cfg))
      else if t = ''elastic'' then some (io_elastic io n (dc_siem_ip cfg) (dc_auth_key cfg)
          (or_default (dc_siem_version cfg) ''9.0.2'') (dc_template cfg))
      else ret None)"

text \<open>Two decimals of a duration.\<close>

definition round2 :: "rat \<Rightarrow> rat" where
  "round2 t = of_int (round (t * 100)) / 100"


text \<open>
  One container, from the check for an existing one to the health check. The parts that do the work raise;
  the handler around the whole turns that into a result without metadata.
\<close>

definition finish_deploy :: "'w deploy_io \<Rightarrow> deploy_config \<Rightarrow> string \<Rightarrow> nat option \<Rightarrow> rat \<Rightarrow> install_result \<Rightarrow> (deploy_result, 'w) eff" where
  "finish_deploy io cfg n s start r =
     (let x = io_lxc io in
      bind_eff (lx_running x n) (\<lambda>up. bind_eff (if up then lx_ips x n else ret []) (\<lambda>ips.
      bind_eff (lx_running x n) (\<lambda>running. bind_eff (lx_state x n) (\<lambda>state. bind_eff (lx_init_pid x n) (\<lambda>pid.
      let metadata = [(''agent_seq_id'', seq_json s), (''siem_type'', JText (dc_siem_type cfg)), (''siem_ip'', opt_json (dc_siem_ip cfg)),
            (''siem_version'', opt_json (dc_siem_version cfg)), (''agent_group'', JText (dc_agent_group cfg)),
            (''os_type'', JText (dc_os_type cfg)), (''config_template_id'', opt_json (dc_template cfg)),
            (''installation_success'', JBool (ir_success r)), (''lifecycle_status'', JText (if running then ''running'' else ''stopped'')),
            (''state'', JText state), (''init_pid'', JInt pid), (''ip_addresses'', JArray (map JText ips))] in
      then_eff (report_step io n ''Setting up health check'')
      (then_eff (catch_eff (then_eff (io_health io n) (ret ())) (\<lambda>e. ret ()))
      (bind_eff (get_eff (lx_clock x)) (\<lambda>now. ret
        \<lparr>dr_name = n, dr_seq = s, dr_success = ir_success r, dr_error = None,
         dr_ip = (case ips of [] \<Rightarrow> None | ip # _ \<Rightarrow> Some ip),
         dr_install_message = Some (if ir_success r then take 200 (ir_stdout r) else ir_stderr r),
         dr_time = Some (round2 (now - start)), dr_metadata = metadata\<rparr>)))))))))"

definition start_and_install :: "'w deploy_io \<Rightarrow> deploy_config \<Rightarrow> string \<Rightarrow> nat option \<Rightarrow> rat \<Rightarrow> (deploy_result, 'w) eff" where
  "start_and_install io cfg n s start =
     (let x = io_lxc io in
      then_eff (report_step io n ''Starting container'') (bind_eff (lx_start x n) (\<lambda>ok.
      if \<not> ok then then_eff (lx_destroy x n) (ret (failed_state n s ''Container start failed'' ''START_FAILED''))
      else then_eff (report_step io n ''Waiting for network'') (then_eff (lx_wait x n ''RUNNING'' 10)
        (then_eff (upd_eff (lx_sleep x 2))
        (then_eff (if dc_siem_type cfg \<noteq> ''none'' then report_step io n (''Installing '' @ dc_siem_type cfg @ '' agent'') else ret ())
        (bind_eff (install_agent io cfg n) (\<lambda>r. case r of
           None \<Rightarrow> then_eff (lx_stop x n) (then_eff (lx_destroy x n)
             (ret (failed_state n s (''Unsupported SIEM type: '' @ dc_siem_type cfg) ''UNSUPPORTED'')))
         | Some i \<Rightarrow> finish_deploy io cfg n s start i))))))))"

definition create_and_start :: "'w deploy_io \<Rightarrow> deploy_config \<Rightarrow> string \<Rightarrow> nat option \<Rightarrow> rat \<Rightarrow> (deploy_result, 'w) eff" where
  "create_and_start io cfg n s start =
     bind_eff (get_os_config (dc_os_type cfg)) (\<lambda>(distro, release, arch).
     then_eff (report_step io n (''Creating container from '' @ distro @ '' '' @ release @ '' image''))
     (bind_eff (lx_create (io_lxc io) n distro release arch) (\<lambda>ok.
       if \<not> ok then ret (failed_state n s ''Container creation failed'' ''CREATE_FAILED'')
       else then_eff (report_step io n ''Applying resource limits'')
         (then_eff (apply_limits io cfg n) (start_and_install io cfg n s start)))))"

definition deploy_container :: "'w deploy_io \<Rightarrow> deploy_config \<Rightarrow> string \<Rightarrow> nat option \<Rightarrow> (deploy_result, 'w) eff" where
  "deploy_container io cfg n s = bind_eff (get_eff (lx_clock (io_lxc io))) (\<lambda>start. catch_eff
     (then_eff (report_step io n ''Checking for existing container'')
       (bind_eff (lx_list (io_lxc io)) (\<lambda>names.
         if n \<in> set names then ret (failed_state n s ''Container already exists'' ''EXISTS'')
         else create_and_start io cfg n s start)))
     (\<lambda>e. ret \<lparr>dr_name = n, dr_seq = None, dr_success = False, dr_error = Some e, dr_ip = None, dr_install_message = None,
        dr_time = None, dr_metadata = []\<rparr>))"

text \<open>\<open>deploy_single_siem_agent\<close>: the same, with the metadata in the result.\<close>

definition deploy_single_siem_agent :: "'w deploy_io \<Rightarrow> deploy_config \<Rightarrow> string \<Rightarrow> nat option \<Rightarrow> (deploy_result, 'w) eff" where
  "deploy_single_siem_agent io cfg n s = deploy_container io cfg n s"

definition interrupted_result :: "string \<Rightarrow> nat option \<Rightarrow> bool \<Rightarrow> deploy_result" where
  "interrupted_result n s started =
     \<lparr>dr_name = n, dr_seq = s, dr_success = False,
      dr_error = Some (if started
        then ''Interrupted: Habeny stopped before this container finished deploying; delete and redeploy it''
        else ''Cancelled: Habeny stopped before this container was deployed''),
      dr_ip = None, dr_install_message = None, dr_time = None,
      dr_metadata = [(''agent_seq_id'', seq_json s), (''lifecycle_status'', JText (if started then INTERRUPTED else ''error''))]\<rparr>"

text \<open>Nothing it does can raise: a failing write is logged and skips the rest.\<close>

definition persist_deploy_result :: "codec \<Rightarrow> string \<Rightarrow> string option \<Rightarrow> deploy_result \<Rightarrow> fleet \<Rightarrow> fleet" where
  "persist_deploy_result c now siem r db =
     (case (if dr_metadata r \<noteq> [] then write_agent_metadata c now (dr_name r) (dr_metadata r) db else Inr db) of
        Inl e \<Rightarrow> db
      | Inr db1 \<Rightarrow>
          let db2 = (case dr_time r of None \<Rightarrow> db1 | Some t \<Rightarrow> record_metric now ''deployment'' ''container_deploy_time'' t siem db1)
          in record_metric now ''deployment'' (if dr_success r then ''container_success'' else ''container_failure'') 1 siem db2)"

section \<open>The loop\<close>

text \<open>
  What is given for a whole deployment: its id and workers, the numbers of the containers, what a worker
  returns for a container (or the exception), how a number of seconds is written. And for one round: whether
  a stop began and its deadline passed, whether the executor still takes work, the steps reported since the
  last round, and which of the containers handed out are finished by the end of the round.
\<close>

record deploy_env =
  en_id :: string
  en_workers :: nat
  en_seq :: "string \<Rightarrow> nat option"
  en_outcome :: "string \<Rightarrow> string + deploy_result"
  en_siem :: "string option"
  en_codec :: codec
  en_seconds :: "rat \<Rightarrow> string"

record tick =
  tk_now :: string
  tk_stop :: bool
  tk_late :: bool
  tk_accepts :: bool
  tk_messages :: "(string \<times> string) list"
  tk_done :: "nat \<Rightarrow> bool"

text \<open>Futures are numbered in the order of their submission; \<open>ru_names\<close> is \<open>future_to_name\<close>.\<close>

record run =
  ru_queued :: "string list"
  ru_names :: "string list"
  ru_pending :: "nat list"
  ru_noted :: bool
  ru_abandoned :: bool
  ru_results :: "deploy_result list"
  ru_warnings :: "string list"
  ru_jobs :: jobs
  ru_fleet :: fleet

definition worker_count :: "nat \<Rightarrow> string \<Rightarrow> nat \<Rightarrow> nat" where
  "worker_count deploy_workers mode containers = (if mode = ''sequential'' then 1 else min deploy_workers (max 1 containers))"

definition failure_reason :: "deploy_result \<Rightarrow> string" where
  "failure_reason r = or_default (dr_error r) (or_default (dr_install_message r) ''Unknown error'')"

definition record_result :: "deploy_env \<Rightarrow> string \<Rightarrow> deploy_result \<Rightarrow> run \<Rightarrow> run" where
  "record_result e now r ru =
     (let ru1 = ru\<lparr>ru_fleet := persist_deploy_result (en_codec e) now (en_siem e) r (ru_fleet ru), ru_results := ru_results ru @ [r]\<rparr> in
      if dr_success r
      then ru1\<lparr>ru_jobs := progress_event now (en_id e)
             (''Deployed in '' @ (case dr_time r of None \<Rightarrow> ''0'' | Some t \<Rightarrow> en_seconds e t) @ ''s'' @
                (if is_given (dr_ip r) then '' ('' @ the (dr_ip r) @ '')'' else []))
             ''success'' (Some (dr_name r)) (Some ''success'') None (ru_jobs ru)\<rparr>
      else ru1\<lparr>ru_warnings := ru_warnings ru @ [''Failed to deploy container '' @ dr_name r @ '': '' @ failure_reason r],
             ru_jobs := progress_event now (en_id e) (''Failed: '' @ failure_reason r) ''error'' (Some (dr_name r))
               (Some ''failed'') (Some (failure_reason r)) (ru_jobs ru)\<rparr>)"

definition record_all :: "deploy_env \<Rightarrow> string \<Rightarrow> deploy_result list \<Rightarrow> run \<Rightarrow> run" where
  "record_all e now rs ru = foldl (\<lambda>u r. record_result e now r u) ru rs"

definition drain :: "deploy_env \<Rightarrow> string \<Rightarrow> (string \<times> string) list \<Rightarrow> run \<Rightarrow> run" where
  "drain e now messages ru = ru\<lparr>ru_jobs := foldl (\<lambda>js (n, m). progress_event now (en_id e) m ''info'' (Some n) (Some ''running'') None js)
     (ru_jobs ru) messages\<rparr>"

text \<open>The first part of a round: a stop cancels what is queued and, past the deadline, gives up what is running.\<close>

definition note_stop :: "deploy_env \<Rightarrow> tick \<Rightarrow> run \<Rightarrow> run \<times> nat list" where
  "note_stop e t ru =
     (if \<not> tk_stop t then (ru, [])
      else let ru1 = (if ru_noted ru then ru
                 else ru\<lparr>ru_noted := True, ru_jobs := progress_event (tk_now t) (en_id e)
                   ''Habeny is stopping: finishing containers in progress, cancelling the rest'' ''error'' None None None (ru_jobs ru)\<rparr>);
               ru2 = record_all e (tk_now t) (map (\<lambda>n. interrupted_result n (en_seq e n) False) (ru_queued ru1)) (ru1\<lparr>ru_queued := []\<rparr>)
           in if ru_pending ru2 \<noteq> [] \<and> tk_late t then (ru2\<lparr>ru_abandoned := True, ru_pending := []\<rparr>, ru_pending ru2) else (ru2, []))"

text \<open>The second: containers are handed out while there are free workers; a broken pool raises.\<close>

fun hand_out :: "nat \<Rightarrow> bool \<Rightarrow> string list \<Rightarrow> string list \<Rightarrow> nat list \<Rightarrow> string list \<times> string list \<times> nat list \<times> bool" where
  "hand_out workers accepts [] names pending = ([], names, pending, True)"
| "hand_out workers accepts (n # queued) names pending =
     (if workers \<le> length pending then (n # queued, names, pending, True)
      else if \<not> accepts then (queued, names, pending, False)
      else hand_out workers accepts queued (names @ [n]) (pending @ [length names]))"

definition result_of :: "deploy_env \<Rightarrow> tick \<Rightarrow> string list \<Rightarrow> nat \<Rightarrow> deploy_result" where
  "result_of e t names f =
     (let n = names ! f in
      if \<not> tk_done t f then interrupted_result n (en_seq e n) True
      else (case en_outcome e n of Inr r \<Rightarrow> r
        | Inl err \<Rightarrow> \<lparr>dr_name = n, dr_seq = None, dr_success = False, dr_error = Some err, dr_ip = None, dr_install_message = None,
            dr_time = None, dr_metadata = []\<rparr>))"

text \<open>
  One round. The futures that \<open>wait\<close> reports are recorded in the order they were submitted (Python leaves the
  order of a set open). The second component is whether the executor refused work, which ends the loop with
  its exception; \<open>queued.pop(0)\<close> has already taken the name then.
\<close>

definition deploy_round :: "deploy_env \<Rightarrow> tick \<Rightarrow> run \<Rightarrow> run \<times> bool" where
  "deploy_round e t ru =
     (case note_stop e t ru of (ru1, given_up) \<Rightarrow>
      (case hand_out (en_workers e) (tk_accepts t) (ru_queued ru1) (ru_names ru1) (ru_pending ru1) of (queued, names, pending, ok) \<Rightarrow>
       let ru2 = ru1\<lparr>ru_queued := queued, ru_names := names, ru_pending := pending\<rparr> in
       if \<not> ok then (ru2, True)
       else let finished = filter (tk_done t) pending;
                ru3 = drain e (tk_now t) (tk_messages t) (ru2\<lparr>ru_pending := filter (\<lambda>f. \<not> tk_done t f) pending\<rparr>)
            in (record_all e (tk_now t) (map (result_of e t names) (given_up @ finished)) ru3, False)))"

definition finished_run :: "run \<Rightarrow> bool" where
  "finished_run ru = (ru_queued ru = [] \<and> ru_pending ru = [])"

fun deploy_rounds :: "deploy_env \<Rightarrow> tick list \<Rightarrow> run \<Rightarrow> run \<times> bool" where
  "deploy_rounds e [] ru = (ru, False)"
| "deploy_rounds e (t # ts) ru =
     (if finished_run ru then (ru, False)
      else case deploy_round e t ru of (ru', raised) \<Rightarrow> if raised then (ru', True) else deploy_rounds e ts ru')"

definition start_run :: "string list \<Rightarrow> jobs \<Rightarrow> fleet \<Rightarrow> run" where
  "start_run agent_names jobs db =
     \<lparr>ru_queued = agent_names, ru_names = [], ru_pending = [], ru_noted = False, ru_abandoned = False, ru_results = [],
      ru_warnings = [], ru_jobs = jobs, ru_fleet = db\<rparr>"

definition run_deployment_workers :: "deploy_env \<Rightarrow> string list \<Rightarrow> tick list \<Rightarrow> jobs \<Rightarrow> fleet \<Rightarrow> run \<times> bool" where
  "run_deployment_workers e agent_names ts jobs db = deploy_rounds e ts (start_run agent_names jobs db)"


section \<open>Counters\<close>

definition counts :: "string \<Rightarrow> jobs \<Rightarrow> (nat \<times> nat \<times> nat \<times> nat) option" where
  "counts i jobs = map_option (\<lambda>j. (jb_total j, jb_completed j, jb_successful j, jb_failed j)) (map_of jobs i)"

lemma counts_event:
  "counts i (progress_event now i m l name status err jobs) =
     (if name = None \<or> name = Some [] then counts i jobs
      else map_option (\<lambda>(t, c, s, f). if status = Some ''success'' then (t, c + 1, s + 1, f)
        else if status = Some ''failed'' then (t, c + 1, s, f + 1) else (t, c, s, f)) (counts i jobs))"
  by (auto simp: counts_def progress_event_def count_status_def Let_def update_conv' split: option.splits)

lemma counts_other: "k \<noteq> i \<Longrightarrow> counts k (progress_event now i m l name status err jobs) = counts k jobs"
  by (auto simp: counts_def progress_event_def Let_def update_conv' split: option.splits)

definition succeeded :: "deploy_result list \<Rightarrow> nat" where
  "succeeded rs = length (filter dr_success rs)"

definition failures :: "deploy_result list \<Rightarrow> nat" where
  "failures rs = length (filter (\<lambda>r. \<not> dr_success r) rs)"

lemma succeeded_simps [simp]:
  "succeeded [] = 0" "failures [] = 0" "succeeded (rs @ qs) = succeeded rs + succeeded qs" "failures (rs @ qs) = failures rs + failures qs"
  "succeeded (r # rs) = (if dr_success r then 1 else 0) + succeeded rs"
  "failures (r # rs) = (if dr_success r then 0 else 1) + failures rs"
  by (simp_all add: succeeded_def failures_def)

lemma succeeded_failures: "succeeded rs + failures rs = length rs"
  by (induction rs) auto

section \<open>What recording and draining keep\<close>

lemma record_result_keeps [simp]:
  "ru_queued (record_result e now r ru) = ru_queued ru" "ru_names (record_result e now r ru) = ru_names ru"
  "ru_pending (record_result e now r ru) = ru_pending ru" "ru_results (record_result e now r ru) = ru_results ru @ [r]"
  "ru_noted (record_result e now r ru) = ru_noted ru" "ru_abandoned (record_result e now r ru) = ru_abandoned ru"
  by (simp_all add: record_result_def Let_def)

lemma record_result_warnings:
  "length (ru_warnings (record_result e now r ru)) = length (ru_warnings ru) + (if dr_success r then 0 else 1)"
  by (simp add: record_result_def Let_def)

lemma record_result_counts:
  "dr_name r \<noteq> [] \<Longrightarrow> counts (en_id e) (ru_jobs (record_result e now r ru)) =
     map_option (\<lambda>(t, c, s, f). (t, c + 1, s + (if dr_success r then 1 else 0), f + (if dr_success r then 0 else 1)))
       (counts (en_id e) (ru_jobs ru))"
  by (auto simp: record_result_def Let_def counts_event intro!: option.map_cong0)

lemma record_all_simps [simp]:
  "record_all e now [] ru = ru" "record_all e now (r # rs) ru = record_all e now rs (record_result e now r ru)"
  by (simp_all add: record_all_def)

lemma record_all_keeps [simp]:
  "ru_queued (record_all e now rs ru) = ru_queued ru" "ru_names (record_all e now rs ru) = ru_names ru"
  "ru_pending (record_all e now rs ru) = ru_pending ru" "ru_results (record_all e now rs ru) = ru_results ru @ rs"
  "ru_noted (record_all e now rs ru) = ru_noted ru" "ru_abandoned (record_all e now rs ru) = ru_abandoned ru"
  by (induction rs arbitrary: ru) auto

lemma record_all_warnings: "length (ru_warnings (record_all e now rs ru)) = length (ru_warnings ru) + failures rs"
  by (induction rs arbitrary: ru) (auto simp: record_result_warnings)

lemma record_all_counts:
  "[] \<notin> dr_name ` set rs \<Longrightarrow> counts (en_id e) (ru_jobs (record_all e now rs ru)) =
     map_option (\<lambda>(t, c, s, f). (t, c + length rs, s + succeeded rs, f + failures rs)) (counts (en_id e) (ru_jobs ru))"
proof (induction rs arbitrary: ru)
  case Nil
  show ?case by (cases "counts (en_id e) (ru_jobs ru)") auto
next
  case (Cons r rs)
  then show ?case
    using record_result_counts [of r e now ru] by (cases "counts (en_id e) (ru_jobs ru)") auto
qed

lemma drain_keeps [simp]:
  "ru_queued (drain e now ms ru) = ru_queued ru" "ru_names (drain e now ms ru) = ru_names ru"
  "ru_pending (drain e now ms ru) = ru_pending ru" "ru_results (drain e now ms ru) = ru_results ru"
  "ru_warnings (drain e now ms ru) = ru_warnings ru" "ru_fleet (drain e now ms ru) = ru_fleet ru"
  by (simp_all add: drain_def)

lemma drain_counts [simp]: "counts (en_id e) (ru_jobs (drain e now ms ru)) = counts (en_id e) (ru_jobs ru)"
proof -
  have "counts i (foldl (\<lambda>js (n, m). progress_event now i m ''info'' (Some n) (Some ''running'') None js) js ms) = counts i js" for i js
    by (induction ms arbitrary: js) (auto simp: counts_event option.map_id prod.case_eq_if)
  then show ?thesis by (simp add: drain_def)
qed

section \<open>Every container is accounted for\<close>

definition well_named :: "deploy_env \<Rightarrow> bool" where
  "well_named e = (\<forall>n r. en_outcome e n = Inr r \<longrightarrow> dr_name r = n)"

definition balanced :: "deploy_env \<Rightarrow> string list \<Rightarrow> nat \<Rightarrow> run \<Rightarrow> bool" where
  "balanced e agent_names n ru \<longleftrightarrow>
     mset (map dr_name (ru_results ru)) + mset (ru_queued ru) + mset (map ((!) (ru_names ru)) (ru_pending ru)) = mset agent_names \<and>
     distinct (ru_pending ru) \<and> (\<forall>f\<in>set (ru_pending ru). f < length (ru_names ru)) \<and> length (ru_pending ru) \<le> en_workers e \<and>
     counts (en_id e) (ru_jobs ru) = Some (n, length (ru_results ru), succeeded (ru_results ru), failures (ru_results ru)) \<and>
     length (ru_warnings ru) = failures (ru_results ru)"

lemma interrupted_result_name [simp]: "dr_name (interrupted_result n s b) = n" "\<not> dr_success (interrupted_result n s b)"
  by (simp_all add: interrupted_result_def)

lemma result_of_name: "well_named e \<Longrightarrow> dr_name (result_of e t names f) = names ! f"
  by (auto simp: result_of_def well_named_def Let_def split: sum.splits)

text \<open>Recording results moves them out of what is left to do.\<close>

lemma balanced_record:
  assumes "balanced e agent_names n (ru\<lparr>ru_queued := q, ru_pending := p\<rparr>)"
    and "mset q + mset (map ((!) (ru_names ru)) p) = mset (map dr_name rs) + mset (ru_queued ru) + mset (map ((!) (ru_names ru)) (ru_pending ru))"
    and "set (ru_pending ru) \<subseteq> set p" and "distinct (ru_pending ru)" and "length (ru_pending ru) \<le> length p" and "[] \<notin> set agent_names"
  shows "balanced e agent_names n (record_all e now rs ru)"
proof -
  have m: "mset (map dr_name (ru_results ru)) + (mset q + mset (map ((!) (ru_names ru)) p)) = mset agent_names"
    using assms(1) by (simp add: balanced_def add.assoc)
  then have all: "mset (map dr_name (ru_results ru)) + (mset (map dr_name rs) + mset (ru_queued ru) +
      mset (map ((!) (ru_names ru)) (ru_pending ru))) = mset agent_names"
    using assms(2) by simp
  then have "set_mset (mset (map dr_name rs)) \<subseteq> set_mset (mset agent_names)"
    by (metis mset_subset_eq_add_left mset_subset_eq_add_right set_mset_mono subset_mset.order_trans)
  then have "[] \<notin> dr_name ` set rs" using assms(6) by auto
  from record_all_counts [OF this, of e now ru]
  have "counts (en_id e) (ru_jobs (record_all e now rs ru)) =
      Some (n, length (ru_results ru @ rs), succeeded (ru_results ru @ rs), failures (ru_results ru @ rs))"
    using assms(1) by (simp add: balanced_def)
  then show ?thesis
    using all assms by (auto simp: balanced_def record_all_warnings ac_simps)
qed

lemma hand_out_facts:
  assumes "hand_out w a q names p = (q', names', p', ok)" and "distinct p" and "\<forall>f\<in>set p. f < length names" and "length p \<le> w"
  shows "distinct p' \<and> (\<forall>f\<in>set p'. f < length names') \<and> length p' \<le> w \<and>
    (ok \<longrightarrow> mset q' + mset (map ((!) names') p') = mset q + mset (map ((!) names) p) \<and>
      length q' + length p' = length q + length p \<and> (0 < w \<longrightarrow> (q \<noteq> [] \<or> p \<noteq> []) \<longrightarrow> p' \<noteq> [])) \<and>
    (a \<longrightarrow> ok) \<and> set p \<subseteq> set p' \<and> (\<forall>f<length names. names' ! f = names ! f) \<and> length names \<le> length names'"
  using assms
proof (induction w a q names p rule: hand_out.induct)
  case (2 w a n q names p)
  show ?case
  proof (cases "w \<le> length p")
    case True
    with "2.prems" show ?thesis by auto
  next
    case free: False
    show ?thesis
    proof (cases a)
      case True
      have d: "distinct (p @ [length names])" using "2.prems" by auto
      have m: "image_mset ((!) (names @ [n])) (mset p) = image_mset ((!) names) (mset p)"
        using "2.prems" by (intro image_mset_cong) (auto simp: nth_append)
      have o: "(names @ [n]) ! f = names ! f" if "f < length names" for f using that by (simp add: nth_append)
      have "\<forall>f\<in>set (p @ [length names]). f < length (names @ [n])" using "2.prems"(3) by auto
      moreover have "length (p @ [length names]) \<le> w" using free by simp
      ultimately show ?thesis
        using "2.IH" [OF free _ _ d] "2.prems" free True m o by auto
    next
      case False
      with free "2.prems" show ?thesis by auto
    qed
  qed
qed auto


lemma regroup:
  fixes r q p q1 p1 g :: "'a multiset"
  assumes "q + p = q1 + p1"
  shows "r + q + (g + p) = r + q1 + (p1 + g)"
proof -
  have "r + q + (g + p) = r + (q + p) + g" by (simp only: ac_simps)
  also have "\<dots> = r + q1 + (p1 + g)" unfolding assms by (simp only: ac_simps)
  finally show ?thesis .
qed

lemma filter_split_mset: "mset (map g (filter P xs)) + mset (map g (filter (\<lambda>x. \<not> P x) xs)) = mset (map g xs)"
  by (induction xs) auto

lemma note_stop_facts:
  assumes b: "balanced e agent_names n ru" and ne: "[] \<notin> set agent_names" and r: "note_stop e t ru = (ru1, given_up)"
  shows "balanced e agent_names n (ru1\<lparr>ru_pending := ru_pending ru1 @ given_up\<rparr>) \<and> ru_names ru1 = ru_names ru \<and>
    ru_pending ru1 @ given_up = ru_pending ru \<and> (given_up = [] \<or> ru_pending ru1 = []) \<and>
    (if tk_stop t then ru_queued ru1 = [] \<and> (tk_late t \<longrightarrow> ru_pending ru1 = []) else ru1 = ru \<and> given_up = [])"
proof (cases "tk_stop t")
  case False
  with assms show ?thesis by (simp add: note_stop_def)
next
  case True
  define ua where "ua = (if ru_noted ru then ru
     else ru\<lparr>ru_noted := True, ru_jobs := progress_event (tk_now t) (en_id e)
        ''Habeny is stopping: finishing containers in progress, cancelling the rest'' ''error'' None None None (ru_jobs ru)\<rparr>)"
  define ub where "ub = record_all e (tk_now t) (map (\<lambda>n. interrupted_result n (en_seq e n) False) (ru_queued ua)) (ua\<lparr>ru_queued := []\<rparr>)"
  have split: "(if ru_pending ub \<noteq> [] \<and> tk_late t then (ub\<lparr>ru_abandoned := True, ru_pending := []\<rparr>, ru_pending ub) else (ub, [])) = (ru1, given_up)"
    using r True unfolding note_stop_def ua_def ub_def Let_def by simp
  have same: "ru_queued ua = ru_queued ru" "ru_names ua = ru_names ru" "ru_pending ua = ru_pending ru" "ru_results ua = ru_results ru"
    "ru_warnings ua = ru_warnings ru" "counts (en_id e) (ru_jobs ua) = counts (en_id e) (ru_jobs ru)"
    by (auto simp: ua_def counts_event)
  have "balanced e agent_names n ua" using b same by (simp add: balanced_def)
  then have "balanced e agent_names n ((ua\<lparr>ru_queued := []\<rparr>)\<lparr>ru_queued := ru_queued ua, ru_pending := ru_pending ua\<rparr>)" by simp
  then have bb: "balanced e agent_names n ub"
    unfolding ub_def using b ne same by (rule_tac balanced_record) (auto simp: balanced_def o_def)
  have ubs: "ru_queued ub = []" "ru_names ub = ru_names ru" "ru_pending ub = ru_pending ru"
    using same by (auto simp: ub_def)
  show ?thesis
  proof (cases "ru_pending ub \<noteq> [] \<and> tk_late t")
    case True
    then have "ru1 = ub\<lparr>ru_abandoned := True, ru_pending := []\<rparr>" "given_up = ru_pending ub" using split by auto
    with bb ubs \<open>tk_stop t\<close> show ?thesis by (simp add: balanced_def)
  next
    case False
    then have "ru1 = ub" "given_up = []" using split by auto
    moreover have "balanced e agent_names n (ub\<lparr>ru_pending := ru_pending ub\<rparr>)" using bb by simp
    ultimately show ?thesis using ubs \<open>tk_stop t\<close> False by auto
  qed
qed

text \<open>The invariant of the loop; the executor that refuses work is the only way to lose a container.\<close>

lemma deploy_round_facts:
  assumes b: "balanced e agent_names n ru" and ne: "[] \<notin> set agent_names" and w: "well_named e"
    and r: "deploy_round e t ru = (ru', raised)"
  shows "(\<not> raised \<longrightarrow> balanced e agent_names n ru') \<and> (tk_accepts t \<longrightarrow> \<not> raised) \<and>
    (tk_stop t \<longrightarrow> \<not> raised \<and> ru_names ru' = ru_names ru \<and> ru_queued ru' = [] \<and> (tk_late t \<longrightarrow> ru_pending ru' = []))"
proof -
  obtain ru1 given_up where n1: "note_stop e t ru = (ru1, given_up)" by (cases "note_stop e t ru")
  note nf = note_stop_facts [OF b ne n1]
  obtain q names p ok where h: "hand_out (en_workers e) (tk_accepts t) (ru_queued ru1) (ru_names ru1) (ru_pending ru1) = (q, names, p, ok)"
    by (cases "hand_out (en_workers e) (tk_accepts t) (ru_queued ru1) (ru_names ru1) (ru_pending ru1)") auto
  have b1: "balanced e agent_names n (ru1\<lparr>ru_pending := ru_pending ru1 @ given_up\<rparr>)" using nf by blast
  then have pre: "distinct (ru_pending ru1)" "\<forall>f\<in>set (ru_pending ru1). f < length (ru_names ru1)" "length (ru_pending ru1) \<le> en_workers e"
    by (auto simp: balanced_def)
  note hf = hand_out_facts [OF h pre]
  have quiet: "q = [] \<and> names = ru_names ru1 \<and> p = ru_pending ru1 \<and> ok" if "ru_queued ru1 = []" using h that by simp
  define ru2 where "ru2 = ru1\<lparr>ru_queued := q, ru_names := names, ru_pending := p\<rparr>"
  have acc: "tk_accepts t \<longrightarrow> ok" using hf by blast
  show ?thesis
  proof (cases ok)
    case False
    then have "raised" using r n1 h by (simp add: deploy_round_def Let_def)
    moreover have "\<not> tk_stop t" using False quiet nf by auto
    moreover have "\<not> tk_accepts t" using acc False by blast
    ultimately show ?thesis by blast
  next
    case True
    define ru3 where "ru3 = drain e (tk_now t) (tk_messages t) (ru2\<lparr>ru_pending := filter (\<lambda>f. \<not> tk_done t f) p\<rparr>)"
    have r': "ru' = record_all e (tk_now t) (map (result_of e t names) (given_up @ filter (tk_done t) p)) ru3" "\<not> raised"
      using r n1 h True by (auto simp: deploy_round_def Let_def ru3_def ru2_def)
    have mq: "mset q + mset (map ((!) names) p) = mset (ru_queued ru1) + mset (map ((!) (ru_names ru1)) (ru_pending ru1))"
      using hf True by blast
    have grow: "length (ru_names ru1) \<le> length names" using hf by blast
    have old: "map ((!) names) given_up = map ((!) (ru_names ru1)) given_up"
      using hf b1 by (intro map_cong) (auto simp: balanced_def)
    have either: "given_up = [] \<or> p = []" using nf quiet by (auto split: if_splits)
    have n2: "ru_names ru3 = names" "ru_queued ru3 = q" "ru_pending ru3 = filter (\<lambda>f. \<not> tk_done t f) p"
      by (simp_all add: ru3_def ru2_def)
    let ?rs = "map (result_of e t names) (given_up @ filter (tk_done t) p)"
    have rs: "map dr_name ?rs = map ((!) names) (given_up @ filter (tk_done t) p)"
      using result_of_name [OF w] by simp
    have c3: "counts (en_id e) (ru_jobs ru3) = counts (en_id e) (ru_jobs ru1)" by (simp add: ru3_def ru2_def)
    have base: "balanced e agent_names n (ru3\<lparr>ru_queued := q, ru_pending := given_up @ p\<rparr>)"
      unfolding balanced_def
    proof (intro conjI)
      let ?u = "ru3\<lparr>ru_queued := q, ru_pending := given_up @ p\<rparr>"
      have f3: "ru_results ?u = ru_results ru1" "ru_queued ?u = q" "ru_names ?u = names" "ru_pending ?u = given_up @ p"
        "ru_warnings ?u = ru_warnings ru1" "ru_jobs ?u = ru_jobs ru3" by (simp_all add: ru3_def ru2_def)
      have k1: "mset (map dr_name (ru_results ru1)) + mset (ru_queued ru1) +
          (mset (map ((!) (ru_names ru1)) (ru_pending ru1)) + mset (map ((!) (ru_names ru1)) given_up)) = mset agent_names"
        using b1 by (simp add: balanced_def)
      show "mset (map dr_name (ru_results ?u)) + mset (ru_queued ?u) + mset (map ((!) (ru_names ?u)) (ru_pending ?u)) = mset agent_names"
        unfolding f3 k1 [symmetric] map_append mset_append old by (rule regroup [OF mq])
      have k2: "set given_up \<subseteq> {..<length names} \<and> distinct given_up \<and> length given_up \<le> en_workers e"
      proof -
        have "\<forall>f\<in>set given_up. f < length (ru_names ru1)" "distinct given_up" "length given_up \<le> en_workers e"
          using b1 unfolding balanced_def by simp_all
        then show ?thesis using grow by fastforce
      qed
      show "distinct (ru_pending ?u)" "\<forall>f\<in>set (ru_pending ?u). f < length (ru_names ?u)" "length (ru_pending ?u) \<le> en_workers e"
        unfolding f3 using either k2 hf by auto
      show "counts (en_id e) (ru_jobs ?u) = Some (n, length (ru_results ?u), succeeded (ru_results ?u), failures (ru_results ?u))"
        "length (ru_warnings ?u) = failures (ru_results ?u)"
        unfolding f3 c3 using b1 by (simp_all add: balanced_def)
    qed
    have "balanced e agent_names n ru'"
      unfolding r'(1)
    proof (rule balanced_record [OF base _ _ _ _ ne])
      show "mset q + mset (map ((!) (ru_names ru3)) (given_up @ p)) =
          mset (map dr_name ?rs) + mset (ru_queued ru3) + mset (map ((!) (ru_names ru3)) (ru_pending ru3))"
        unfolding rs n2 using filter_split_mset [of "(!) names" "tk_done t" p] by (simp add: ac_simps)
      show "set (ru_pending ru3) \<subseteq> set (given_up @ p)" "distinct (ru_pending ru3)" "length (ru_pending ru3) \<le> length (given_up @ p)"
        using hf by (auto simp: n2 intro: le_trans [OF length_filter_le])
    qed
    then show ?thesis using r' nf quiet n2 by auto
  qed
qed


lemma deploy_rounds_balanced:
  assumes "balanced e agent_names n ru" and "[] \<notin> set agent_names" and "well_named e" and "deploy_rounds e ts ru = (ru', False)"
  shows "balanced e agent_names n ru'"
  using assms
proof (induction e ts ru rule: deploy_rounds.induct)
  case (2 e t ts ru)
  show ?case
  proof (cases "finished_run ru")
    case True
    with "2.prems" show ?thesis by auto
  next
    case False
    obtain ru1 b where r: "deploy_round e t ru = (ru1, b)" by (cases "deploy_round e t ru")
    with False "2.prems" have nb: "\<not> b" and rest: "deploy_rounds e ts ru1 = (ru', False)" by (auto split: if_splits)
    have "balanced e agent_names n ru1" using deploy_round_facts [OF "2.prems"(1-3) r] nb by blast
    with "2.IH" [OF False r [symmetric] nb] "2.prems" rest show ?thesis by blast
  qed
qed simp

lemma start_balanced:
  "counts (en_id e) jobs = Some (n, 0, 0, 0) \<Longrightarrow> balanced e agent_names n (start_run agent_names jobs db)"
  by (simp add: balanced_def start_run_def)

text \<open>The progress of a new deployment starts at zero, whatever was tracked before.\<close>

lemma counts_progress_start: "distinct (map fst jobs) \<Longrightarrow> counts i (progress_start now i n siem jobs) = Some (n, 0, 0, 0)"
proof -
  assume d: "distinct (map fst jobs)"
  let ?js = "AList.update i (new_job now i n siem) jobs"
  let ?drop = "take (length ?js - MAX_TRACKED_DEPLOYMENTS) (map fst (filter (\<lambda>(k, v). jb_status v \<noteq> ''running'') ?js))"
  have dj: "distinct (map fst ?js)" using d by (simp add: distinct_update)
  have m: "map_of ?js i = Some (new_job now i n siem)" by (simp add: update_conv')
  have "i \<notin> fst ` set (filter (\<lambda>(k, v). jb_status v \<noteq> ''running'') ?js)"
  proof
    assume "i \<in> fst ` set (filter (\<lambda>(k, v). jb_status v \<noteq> ''running'') ?js)"
    then obtain v where "(i, v) \<in> set ?js" "jb_status v \<noteq> ''running''" by auto
    then have "v = new_job now i n siem" using m map_of_is_SomeI [OF dj, of i v] by simp
    with \<open>jb_status v \<noteq> ''running''\<close> show False by (simp add: new_job_def)
  qed
  then have "i \<notin> set ?drop" by (auto dest: in_set_takeD)
  then have "map_of (filter (\<lambda>(k, v). k \<notin> set ?drop) ?js) i = Some (new_job now i n siem)"
    using m by (subst map_of_filter_in) (auto simp: case_prod_unfold)
  then show ?thesis unfolding counts_def progress_start_def Let_def by (simp add: new_job_def)
qed

text \<open>
  C21: at any moment of a deployment at most \<open>en_workers\<close> containers are in work, every container is queued, in
  work or has exactly one result, and the counters of the live progress are those of the results: completed
  is their number, the sum of the successful and the failed. When the loop ends, every container has its
  result.
\<close>

theorem deployment_accounts:
  assumes "well_named e" and "[] \<notin> set agent_names" and "counts (en_id e) jobs = Some (length agent_names, 0, 0, 0)"
    and "run_deployment_workers e agent_names ts jobs db = (ru, False)"
  shows "length (ru_pending ru) \<le> en_workers e \<and>
    mset (map dr_name (ru_results ru)) + mset (ru_queued ru) + mset (map ((!) (ru_names ru)) (ru_pending ru)) = mset agent_names \<and>
    counts (en_id e) (ru_jobs ru) =
      Some (length agent_names, length (ru_results ru), succeeded (ru_results ru), failures (ru_results ru)) \<and>
    succeeded (ru_results ru) + failures (ru_results ru) = length (ru_results ru) \<and> length (ru_results ru) \<le> length agent_names \<and>
    length (ru_warnings ru) = failures (ru_results ru) \<and>
    (finished_run ru \<longrightarrow> mset (map dr_name (ru_results ru)) = mset agent_names)"
proof -
  have b: "balanced e agent_names (length agent_names) ru"
    using deploy_rounds_balanced [OF start_balanced [OF assms(3)] assms(2,1)] assms(4)
    by (simp add: run_deployment_workers_def)
  then have m: "mset (map dr_name (ru_results ru)) + mset (ru_queued ru) + mset (map ((!) (ru_names ru)) (ru_pending ru)) = mset agent_names"
    by (simp add: balanced_def)
  then have "length (ru_results ru) + length (ru_queued ru) + length (ru_pending ru) = length agent_names"
    by (metis length_map size_mset size_union)
  then show ?thesis using b m succeeded_failures [of "ru_results ru"] by (auto simp: balanced_def finished_run_def)
qed

section \<open>Stopping\<close>

lemma idle_round:
  assumes "ru_queued ru = []" and "deploy_round e t ru = (ru', raised)"
  shows "\<not> raised \<and> ru_queued ru' = [] \<and> ru_names ru' = ru_names ru"
proof -
  obtain ru1 g where n1: "note_stop e t ru = (ru1, g)" by (cases "note_stop e t ru")
  then have "ru_queued ru1 = [] \<and> ru_names ru1 = ru_names ru" using assms(1) by (auto simp: note_stop_def Let_def split: if_splits)
  then show ?thesis using assms n1 by (auto simp: deploy_round_def Let_def)
qed

lemma idle_rounds:
  "ru_queued ru = [] \<Longrightarrow> deploy_rounds e ts ru = (ru', raised) \<Longrightarrow> \<not> raised \<and> ru_queued ru' = [] \<and> ru_names ru' = ru_names ru"
proof (induction e ts ru rule: deploy_rounds.induct)
  case (2 e t ts ru)
  obtain ru1 b where r: "deploy_round e t ru = (ru1, b)" by (cases "deploy_round e t ru")
  then show ?case using idle_round [OF "2.prems"(1) r] 2 by (auto split: if_splits)
qed auto

lemma deploy_rounds_append:
  "deploy_rounds e (ts @ us) ru = (case deploy_rounds e ts ru of (ru1, raised) \<Rightarrow> if raised then (ru1, True) else deploy_rounds e us ru1)"
proof (induction e ts ru rule: deploy_rounds.induct)
  case (2 e t ts ru)
  then show ?case by (cases us) (auto split: prod.splits)
qed (simp split: prod.splits)

text \<open>
  C23: from the round on in which a stop has begun no container is handed to a worker any more, and what was
  queued has the result that it was cancelled. Past the deadline that round ends the loop, with a result
  for every container.
\<close>

theorem stop_starts_nothing:
  assumes "well_named e" and "[] \<notin> set agent_names" and "counts (en_id e) jobs = Some (length agent_names, 0, 0, 0)"
    and "run_deployment_workers e agent_names ts jobs db = (ru1, False)" and "tk_stop t"
    and "run_deployment_workers e agent_names (ts @ t # us) jobs db = (ru, raised)"
  shows "\<not> raised \<and> ru_names ru = ru_names ru1 \<and> ru_queued ru = [] \<and> (tk_late t \<longrightarrow> finished_run ru)"
proof -
  have b: "balanced e agent_names (length agent_names) ru1"
    using deploy_rounds_balanced [OF start_balanced [OF assms(3)] assms(2,1)] assms(4) by (simp add: run_deployment_workers_def)
  have rest: "deploy_rounds e (t # us) ru1 = (ru, raised)"
    using assms(4,6) by (simp add: run_deployment_workers_def deploy_rounds_append)
  show ?thesis
  proof (cases "finished_run ru1")
    case True
    then show ?thesis using rest by (auto simp: finished_run_def)
  next
    case False
    obtain ru2 b where r: "deploy_round e t ru1 = (ru2, b)" by (cases "deploy_round e t ru1")
    note f = deploy_round_facts [OF b assms(2,1) r]
    then have rest2: "deploy_rounds e us ru2 = (ru, raised)" "ru_queued ru2 = []" "ru_names ru2 = ru_names ru1"
      using rest False r assms(5) by auto
    moreover have "tk_late t \<longrightarrow> deploy_rounds e us ru2 = (ru2, False)"
      using f rest2(2) assms(5) by (cases us) (auto simp: finished_run_def)
    ultimately show ?thesis using idle_rounds [OF rest2(2,1)] f assms(5) by (auto simp: finished_run_def)
  qed
qed


section \<open>The loop ends\<close>

text \<open>The futures in work during a round, after the hand-out.\<close>

definition in_work :: "deploy_env \<Rightarrow> tick \<Rightarrow> run \<Rightarrow> nat list" where
  "in_work e t ru = (case note_stop e t ru of (ru1, given_up) \<Rightarrow>
     (case hand_out (en_workers e) (tk_accepts t) (ru_queued ru1) (ru_names ru1) (ru_pending ru1) of (queued, names, pending, ok) \<Rightarrow> pending))"

text \<open>
  Work goes on: in every round, until the loop ends, the executor takes work and at least one container in
  work is finished, or a stop is past its deadline.
\<close>

fun goes_on :: "deploy_env \<Rightarrow> tick list \<Rightarrow> run \<Rightarrow> bool" where
  "goes_on e [] ru = True"
| "goes_on e (t # ts) ru =
     (finished_run ru \<or> (tk_accepts t \<and> (list_ex (tk_done t) (in_work e t ru) \<or> tk_stop t \<and> tk_late t) \<and>
        goes_on e ts (fst (deploy_round e t ru))))"

lemma note_stop_results: "note_stop e t ru = (ru1, g) \<Longrightarrow> length (ru_results ru) \<le> length (ru_results ru1)"
  by (auto simp: note_stop_def Let_def split: if_splits)

lemma round_progress:
  assumes "deploy_round e t ru = (ru', False)" and "list_ex (tk_done t) (in_work e t ru)"
  shows "length (ru_results ru) < length (ru_results ru')"
proof -
  obtain ru1 g where n1: "note_stop e t ru = (ru1, g)" by (cases "note_stop e t ru")
  obtain q names p ok where h: "hand_out (en_workers e) (tk_accepts t) (ru_queued ru1) (ru_names ru1) (ru_pending ru1) = (q, names, p, ok)"
    by (cases "hand_out (en_workers e) (tk_accepts t) (ru_queued ru1) (ru_names ru1) (ru_pending ru1)") auto
  have "in_work e t ru = p" using n1 h by (simp add: in_work_def)
  then have "filter (tk_done t) p \<noteq> []" using assms(2) by (auto simp: list_ex_iff filter_empty_conv)
  then have pos: "0 < length (g @ filter (tk_done t) p)" by simp
  have ok using assms(1) n1 h by (auto simp: deploy_round_def Let_def split: if_splits)
  then have "length (ru_results ru') = length (ru_results ru1) + length (g @ filter (tk_done t) p)"
    using assms(1) n1 h by (auto simp: deploy_round_def Let_def)
  then show ?thesis using note_stop_results [OF n1] pos by linarith
qed

lemma balanced_length:
  assumes "balanced e agent_names n ru"
  shows "length (ru_results ru) + length (ru_queued ru) + length (ru_pending ru) = length agent_names"
proof -
  have "mset (map dr_name (ru_results ru)) + mset (ru_queued ru) + mset (map ((!) (ru_names ru)) (ru_pending ru)) = mset agent_names"
    using assms by (simp add: balanced_def)
  then show ?thesis by (metis length_map size_mset size_union)
qed

lemma rounds_end:
  assumes "balanced e agent_names n ru" and "[] \<notin> set agent_names" and "well_named e" and "goes_on e ts ru"
    and "length (ru_queued ru) + length (ru_pending ru) \<le> length ts"
  shows "\<exists>ru'. deploy_rounds e ts ru = (ru', False) \<and> finished_run ru'"
  using assms
proof (induction e ts ru rule: deploy_rounds.induct)
  case (1 e ru)
  then show ?case by (auto simp: finished_run_def)
next
  case (2 e t ts ru)
  show ?case
  proof (cases "finished_run ru")
    case True
    then show ?thesis by auto
  next
    case False
    obtain ru1 b where r: "deploy_round e t ru = (ru1, b)" by (cases "deploy_round e t ru")
    note g = deploy_round_facts [OF "2.prems"(1-3) r]
    have acc: "tk_accepts t" "list_ex (tk_done t) (in_work e t ru) \<or> tk_stop t \<and> tk_late t" "goes_on e ts ru1"
      using "2.prems"(4) False r by auto
    then have nb: "\<not> b" and b1: "balanced e agent_names n ru1" using g by auto
    show ?thesis
    proof (cases "tk_stop t \<and> tk_late t")
      case True
      then have "finished_run ru1" using g by (auto simp: finished_run_def)
      then have "deploy_rounds e ts ru1 = (ru1, False)" by (cases ts) auto
      then show ?thesis using False r nb \<open>finished_run ru1\<close> by auto
    next
      case go: False
      then have "length (ru_results ru) < length (ru_results ru1)" using round_progress acc(2) r nb by auto
      then have "length (ru_queued ru1) + length (ru_pending ru1) \<le> length ts"
        using balanced_length [OF "2.prems"(1)] balanced_length [OF b1] "2.prems"(5) by auto
      from "2.IH" [OF False r [symmetric] nb b1 "2.prems"(2,3) acc(3) this] show ?thesis
        using False r nb by auto
    qed
  qed
qed


text \<open>
  An executor that refuses work (a pool whose worker process died) ends the loop with its exception: nothing
  is recorded in that round, not even for the containers that are finished, and what is queued or in work
  gets no result.
\<close>

theorem refused_work_loses:
  assumes "\<not> tk_stop t" and "\<not> tk_accepts t" and "ru_queued ru = n # ns" and "length (ru_pending ru) < en_workers e"
  shows "\<exists>ru'. deploy_rounds e (t # ts) ru = (ru', True) \<and> ru_results ru' = ru_results ru \<and> ru_fleet ru' = ru_fleet ru \<and>
    ru_jobs ru' = ru_jobs ru \<and> ru_queued ru' = ns"
  using assms by (auto simp: finished_run_def deploy_round_def note_stop_def)

section \<open>One container\<close>

text \<open>What the installers and the rest do inside a container touches no other.\<close>

definition io_confined :: "'w deploy_io \<Rightarrow> (string \<Rightarrow> 'w \<Rightarrow> 'x) \<Rightarrow> bool" where
  "io_confined io view \<longleftrightarrow> lxc_confined (io_lxc io) view \<and>
     (\<forall>n m s w. view n (io_report io m s w) = view n w) \<and> (\<forall>m. keeps (view m) (io_interface io)) \<and>
     (\<forall>n m. n \<noteq> m \<longrightarrow> (\<forall>a b c d. keeps (view m) (io_wazuh io n a b c d)) \<and> (\<forall>a b. keeps (view m) (io_ossec io n a b)) \<and>
        (\<forall>a b c. keeps (view m) (io_utmstack io n a b c)) \<and> (\<forall>a b c d. keeps (view m) (io_elastic io n a b c d)) \<and>
        keeps (view m) (io_health io n) \<and> (\<forall>i. keeps (view m) (io_macvlan io n i)))"

lemma io_confined_keeps [inv_intros]:
  assumes "io_confined io view"
  shows "lxc_confined (io_lxc io) view" "keeps (view m) (report_step io n s)" "keeps (view m) (io_interface io)"
    "n \<noteq> m \<Longrightarrow> keeps (view m) (io_wazuh io n a b c d)" "n \<noteq> m \<Longrightarrow> keeps (view m) (io_ossec io n a b')"
    "n \<noteq> m \<Longrightarrow> keeps (view m) (io_utmstack io n a b' c')" "n \<noteq> m \<Longrightarrow> keeps (view m) (io_elastic io n a b' c d)"
    "n \<noteq> m \<Longrightarrow> keeps (view m) (io_health io n)" "n \<noteq> m \<Longrightarrow> keeps (view m) (io_macvlan io n i)"
  using assms unfolding io_confined_def report_step_def by (auto intro: keeps_upd)

lemma keeps_install: "io_confined io view \<Longrightarrow> n \<noteq> m \<Longrightarrow> keeps (view m) (install_agent io cfg n)"
  unfolding install_agent_def Let_def by (intro inv_intros) auto

lemma keeps_limits: "io_confined io view \<Longrightarrow> n \<noteq> m \<Longrightarrow> keeps (view m) (apply_limits io cfg n)"
  unfolding apply_limits_def by (intro inv_intros) auto

lemma keeps_finish: "io_confined io view \<Longrightarrow> n \<noteq> m \<Longrightarrow> keeps (view m) (finish_deploy io cfg n s start r)"
  unfolding finish_deploy_def Let_def by (intro inv_intros) auto

lemma keeps_start: "io_confined io view \<Longrightarrow> n \<noteq> m \<Longrightarrow> keeps (view m) (start_and_install io cfg n s start)"
  unfolding start_and_install_def Let_def by (intro inv_intros keeps_install keeps_finish) auto

lemma keeps_os_config [inv_intros]: "keeps v (get_os_config t)"
  unfolding get_os_config_def by (intro inv_intros)

lemma keeps_create: "io_confined io view \<Longrightarrow> n \<noteq> m \<Longrightarrow> keeps (view m) (create_and_start io cfg n s start)"
  unfolding create_and_start_def case_prod_unfold by (intro inv_intros keeps_limits keeps_start) auto

lemma keeps_deploy: "io_confined io view \<Longrightarrow> n \<noteq> m \<Longrightarrow> keeps (view m) (deploy_container io cfg n s)"
  unfolding deploy_container_def by (intro inv_intros keeps_create) auto


lemma named_finish: "returns (\<lambda>r. dr_name r = n) (finish_deploy io cfg n s start r)"
  unfolding finish_deploy_def Let_def by (intro inv_intros) simp

lemma failed_state_name [simp]: "dr_name (failed_state n s e st) = n"
  by (simp add: failed_state_def)

lemma named_deploy: "returns (\<lambda>r. dr_name r = n) (deploy_container io cfg n s)"
  unfolding deploy_container_def create_and_start_def start_and_install_def Let_def case_prod_unfold
  by (intro inv_intros named_finish) simp_all

lemma catch_ret_ok: "is_ok (fst (catch_eff m (\<lambda>e. ret (f e)) w))"
  by (auto simp: catch_eff_def ret_def split: prod.splits sum.splits)

lemma bind_get: "bind_eff (get_eff g) f w = f (g w) w"
  by (simp add: bind_eff_def get_eff_def)

lemma deploy_no_raise: "is_ok (fst (deploy_container io cfg n s w))"
  by (simp add: deploy_container_def bind_get catch_ret_ok)

text \<open>
  C24: deploying a container always ends with a result that names it, whatever fails on the way, and touches no
  other container of the host. If a container of that name is there already nothing is done at all: the
  host is only asked for its containers and the step is reported.
\<close>

theorem deploy_contained:
  assumes "io_confined io view"
  shows "\<exists>r w'. deploy_container io cfg n s w = (Inr r, w') \<and> dr_name r = n \<and>
    (\<forall>m. m \<noteq> n \<longrightarrow> view m w' = view m w) \<and>
    (\<forall>names w2. lx_list (io_lxc io) (io_report io n ''Checking for existing container'' w) = (Inr names, w2) \<longrightarrow> n \<in> set names \<longrightarrow>
      w' = w2 \<and> r = failed_state n s ''Container already exists'' ''EXISTS'')"
proof -
  obtain r w' where d: "deploy_container io cfg n s w = (Inr r, w')"
    using deploy_no_raise [of io cfg n s w] by (cases "deploy_container io cfg n s w"; cases "fst (deploy_container io cfg n s w)") auto
  moreover have "dr_name r = n" using named_deploy [of n io cfg s] d by (auto simp: returns_def dest!: spec [of _ w])
  moreover have "view m w' = view m w" if "m \<noteq> n" for m
    using keepsD [OF keeps_deploy [OF assms, of n m] d] that by auto
  moreover have "w' = w2 \<and> r = failed_state n s ''Container already exists'' ''EXISTS''"
    if "lx_list (io_lxc io) (io_report io n ''Checking for existing container'' w) = (Inr names, w2)" "n \<in> set names" for names w2
    using d that by (simp add: deploy_container_def bind_eff_def get_eff_def catch_eff_def then_eff_def report_step_def upd_eff_def ret_def)
  ultimately show ?thesis by blast
qed

definition plain_io :: "(string \<times> bool) list deploy_io" where
  "plain_io = (let ok = \<lparr>ir_success = True, ir_stdout = [], ir_stderr = []\<rparr> in
     \<lparr>io_lxc = plain_host, io_report = (\<lambda>n s w. w), io_wazuh = (\<lambda>n a b c d. ret ok), io_ossec = (\<lambda>n a b. ret ok),
      io_utmstack = (\<lambda>n a b c. ret ok), io_elastic = (\<lambda>n a b c d. ret ok),
      io_health = (\<lambda>n. ret (cmd_error [])), io_interface = ret None, io_macvlan = (\<lambda>n i. ret ())\<rparr>)"

lemma plain_io_confined: "io_confined plain_io (\<lambda>m w. map_of w m)"
  using plain_host_confined by (simp add: io_confined_def plain_io_def Let_def keeps_ret)

definition plain_config :: deploy_config where
  "plain_config = \<lparr>dc_siem_type = ''wazuh'', dc_siem_ip = Some ''10.0.0.1'', dc_siem_version = None, dc_os_type = ''debian_12'',
     dc_agent_group = ''default'', dc_memory_limit = Some ''512MB'', dc_cpu_shares = Some 1024, dc_template = None, dc_auth_key = None\<rparr>"

theorem deploy_contained_witness:
  "\<exists>r w'. deploy_container plain_io plain_config ''a'' (Some 1) [(''a'', True), (''b'', False)] = (Inr r, w') \<and>
     map_of w' ''b'' = Some False \<and> w' = [(''a'', True), (''b'', False)]"
  using deploy_contained [OF plain_io_confined, of plain_config "''a''" "Some 1" "[(''a'', True), (''b'', False)]"]
  by (auto simp: plain_io_def plain_host_def Let_def)

section \<open>What an exception leaves behind\<close>

text \<open>
  A worker that raised, or whose deployment did, reports no metadata: the row of the container is not
  written, so the container keeps the status it was given before, which is that it is starting.
\<close>

theorem exception_leaves_status:
  assumes "en_outcome e (names ! f) = Inl err" and "tk_done t f"
  shows "agents (persist_deploy_result c now siem (result_of e t names f) db) = agents db \<and>
    (fst (lx_list (io_lxc io) (io_report io n ''Checking for existing container'' w)) = Inl err2 \<longrightarrow>
      (\<exists>r w'. deploy_container io cfg n s w = (Inr r, w') \<and> agents (persist_deploy_result c now siem r db) = agents db))"
proof -
  have p: "agents (persist_deploy_result c now siem r db) = agents db" if "dr_metadata r = []" for r
    using that by (auto simp: persist_deploy_result_def record_metric_def Let_def split: option.splits)
  moreover have "dr_metadata (result_of e t names f) = []" using assms by (simp add: result_of_def Let_def)
  moreover have "\<exists>r w'. deploy_container io cfg n s w = (Inr r, w') \<and> dr_metadata r = []"
    if "fst (lx_list (io_lxc io) (io_report io n ''Checking for existing container'' w)) = Inl err2"
    using that by (cases "lx_list (io_lxc io) (io_report io n ''Checking for existing container'' w)")
      (auto simp: deploy_container_def bind_eff_def get_eff_def catch_eff_def then_eff_def report_step_def upd_eff_def ret_def)
  ultimately show ?thesis by blast
qed

section \<open>Witnesses\<close>

definition plain_env :: deploy_env where
  "plain_env = \<lparr>en_id = ''d'', en_workers = 2, en_seq = (\<lambda>n. None),
     en_outcome = (\<lambda>n. if n = ''c-0002'' then Inl ''worker died'' else Inr (interrupted_result n None False\<lparr>dr_success := True\<rparr>)),
     en_siem = None, en_codec = \<lparr>c_dumps = (\<lambda>j. []), c_loads = (\<lambda>s. None)\<rparr>, en_seconds = (\<lambda>t. [])\<rparr>"

definition plain_tick :: tick where
  "plain_tick = \<lparr>tk_now = ''t'', tk_stop = False, tk_late = False, tk_accepts = True, tk_messages = [(''c-0001'', ''Starting container'')],
     tk_done = (\<lambda>f. True)\<rparr>"

lemma plain_env_named: "well_named plain_env"
  by (auto simp: well_named_def plain_env_def interrupted_result_def split: if_splits)

lemma plain_counts: "counts (en_id plain_env) (progress_start ''t'' ''d'' 3 ''none'' []) = Some (length [''c-0001'', ''c-0002'', ''c-0003''], 0, 0, 0)"
  using counts_progress_start [of "[]" "''d''" "''t''" 3 "''none''"] by (simp add: plain_env_def)


lemma plain_goes_on: "goes_on plain_env (replicate 3 plain_tick) (start_run [''c-0001'', ''c-0002'', ''c-0003''] jobs db)"
  by (simp add: numeral_3_eq_3 plain_env_def plain_tick_def start_run_def in_work_def note_stop_def deploy_round_def Let_def
    finished_run_def numeral_2_eq_2)


theorem deployment_accounts_witness:
  "\<forall>db. \<exists>ru. run_deployment_workers plain_env [''c-0001'', ''c-0002'', ''c-0003''] [plain_tick]
      (progress_start ''t'' ''d'' 3 ''none'' []) db = (ru, False) \<and> length (ru_pending ru) \<le> 2 \<and>
    counts ''d'' (ru_jobs ru) = Some (3, length (ru_results ru), succeeded (ru_results ru), failures (ru_results ru))"
proof
  fix db
  let ?ns = "[''c-0001'', ''c-0002'', ''c-0003'']" and ?j = "progress_start ''t'' ''d'' 3 ''none'' []"
  obtain ru b where r: "run_deployment_workers plain_env ?ns [plain_tick] ?j db = (ru, b)"
    by (cases "run_deployment_workers plain_env ?ns [plain_tick] ?j db")
  then have nb: "\<not> b"
    by (auto simp: run_deployment_workers_def plain_env_def plain_tick_def start_run_def note_stop_def deploy_round_def Let_def
      finished_run_def numeral_2_eq_2 split: if_splits)
  have "[] \<notin> set ?ns" by simp
  have r': "run_deployment_workers plain_env ?ns [plain_tick] ?j db = (ru, False)" using r nb by simp
  from deployment_accounts [OF plain_env_named \<open>[] \<notin> set ?ns\<close> plain_counts r']
  have "length (ru_pending ru) \<le> en_workers plain_env \<and>
      counts (en_id plain_env) (ru_jobs ru) = Some (length ?ns, length (ru_results ru), succeeded (ru_results ru), failures (ru_results ru))"
    by blast
  moreover have "en_workers plain_env = 2" "en_id plain_env = ''d''" by (simp_all add: plain_env_def)
  ultimately show "\<exists>ru. run_deployment_workers plain_env ?ns [plain_tick] ?j db = (ru, False) \<and> length (ru_pending ru) \<le> 2 \<and>
    counts ''d'' (ru_jobs ru) = Some (3, length (ru_results ru), succeeded (ru_results ru), failures (ru_results ru))"
    using r nb by auto
qed

theorem stop_starts_nothing_witness:
  "\<forall>db. \<exists>ru. run_deployment_workers plain_env [''c-0001'', ''c-0002'', ''c-0003'']
      [plain_tick\<lparr>tk_done := \<lambda>f. False\<rparr>, plain_tick\<lparr>tk_stop := True, tk_late := True\<rparr>, plain_tick]
      (progress_start ''t'' ''d'' 3 ''none'' []) db = (ru, False) \<and> finished_run ru" (is "\<forall>db. ?P db")
proof
  fix db :: fleet
  let ?ns = "[''c-0001'', ''c-0002'', ''c-0003'']" and ?j = "progress_start ''t'' ''d'' 3 ''none'' []"
  let ?wait = "plain_tick\<lparr>tk_done := \<lambda>f. False\<rparr>" and ?t = "plain_tick\<lparr>tk_stop := True, tk_late := True\<rparr>"
  obtain ru1 b where r1: "run_deployment_workers plain_env ?ns [?wait] ?j db = (ru1, b)"
    by (cases "run_deployment_workers plain_env ?ns [?wait] ?j db")
  then have nb: "\<not> b"
    by (auto simp: run_deployment_workers_def plain_env_def plain_tick_def start_run_def note_stop_def deploy_round_def Let_def
      finished_run_def numeral_2_eq_2 split: if_splits)
  obtain ru c where r: "run_deployment_workers plain_env ?ns ([?wait] @ ?t # [plain_tick]) ?j db = (ru, c)"
    by (cases "run_deployment_workers plain_env ?ns ([?wait] @ ?t # [plain_tick]) ?j db")
  have "[] \<notin> set ?ns" "tk_stop ?t" "tk_late ?t" by simp_all
  with stop_starts_nothing [OF plain_env_named _ plain_counts _ _ r, of ru1] r1 nb have "\<not> c \<and> finished_run ru" by auto
  with r show "?P db" by auto
qed

end
