(* ===== verification/Agents.thy ===== *)
theory Agents
  imports Deployment Tenancy
begin

text \<open>
  \<^verbatim>\<open>services/agent_info.py\<close> and \<^verbatim>\<open>routes/agents.py\<close> with \<^verbatim>\<open>routes/groups.py\<close>: what the API tells about
  containers and does with them. A request runs on the whole site: the host, the database of containers and
  groups, the teams and the trail of activities. A route answers with an HTTP error or a response; an
  exception anywhere in it becomes a response without success.
\<close>

record activity =
  ac_action :: string
  ac_details :: "(string \<times> json) list"
  ac_status :: string

record 'w site =
  si_host :: 'w
  si_fleet :: fleet
  si_ten :: tenancy
  si_log :: "activity list"

record 'w site_env =
  se_lxc :: "'w lxc"
  se_codec :: codec
  se_now :: string
  se_loads :: "string \<Rightarrow> json option"
  se_access :: bool

record api_response =
  rs_success :: bool
  rs_message :: string
  rs_data :: json
  rs_error :: "string option"

type_synonym 'w route = "(http_error + api_response, 'w site) eff"

definition on_host :: "('a, 'w) eff \<Rightarrow> ('a, 'w site) eff" where
  "on_host m s = (case m (si_host s) of (r, w) \<Rightarrow> (r, s\<lparr>si_host := w\<rparr>))"

definition fleet_error_text :: "fleet_error \<Rightarrow> string" where
  "fleet_error_text e = (case e of FleetIntegrity \<Rightarrow> ''constraint failed'' | FleetOperational \<Rightarrow> ''no such column'' | FleetValue m \<Rightarrow> m)"

definition on_fleet :: "(fleet \<Rightarrow> fleet_error + 'a \<times> fleet) \<Rightarrow> ('a, 'w site) eff" where
  "on_fleet f s = (case f (si_fleet s) of Inl e \<Rightarrow> (Inl (fleet_error_text e), s) | Inr (x, db) \<Rightarrow> (Inr x, s\<lparr>si_fleet := db\<rparr>))"

definition write_metadata :: "'w site_env \<Rightarrow> string \<Rightarrow> (string \<times> json) list \<Rightarrow> (unit, 'w site) eff" where
  "write_metadata env n md = on_fleet (\<lambda>db. case write_agent_metadata (se_codec env) (se_now env) n md db of
     Inl e \<Rightarrow> Inl e | Inr db' \<Rightarrow> Inr ((), db'))"

definition log_action :: "string \<Rightarrow> (string \<times> json) list \<Rightarrow> string \<Rightarrow> (unit, 'w site) eff" where
  "log_action a d st = upd_eff (\<lambda>s. s\<lparr>si_log := si_log s @ [\<lparr>ac_action = a, ac_details = d, ac_status = st\<rparr>]\<rparr>)"

definition delete_agent_metadata :: "'w site_env \<Rightarrow> string \<Rightarrow> (unit, 'w site) eff" where
  "delete_agent_metadata env n = upd_eff (\<lambda>s. s\<lparr>si_fleet := mark_agent_deleted (se_now env) n (si_fleet s),
     si_ten := forget [n] (si_ten s)\<rparr>)"

section \<open>What is known of a container\<close>

definition check_siem_connectivity :: "'w site_env \<Rightarrow> string \<Rightarrow> ((string \<times> json) list, 'w) eff" where
  "check_siem_connectivity env n = catch_eff
     (bind_eff (lx_running (se_lxc env) n) (\<lambda>up.
        if \<not> up then ret [(''status'', JText ''disconnected''), (''reason'', JText ''Container not running''), (''last_check'', JText (se_now env))]
        else bind_eff (execute_in_container (se_lxc env) n
            (''systemctl is-active wazuh-agent 2>/dev/null || service wazuh-agent status 2>/dev/null || echo '' @ quote_repr ''unknown'') 10)
          (\<lambda>r. let out = (case r of None \<Rightarrow> [] | Some c \<Rightarrow> cr_stdout c);
               status = (if contains ''active'' (py_lower out) then ''connected''
                 else if contains ''inactive'' (py_lower out) then ''pending'' else ''disconnected'')
             in ret [(''status'', JText status), (''last_check'', JText (se_now env)), (''agent_status'', JText (py_strip out))])))
     (\<lambda>e. ret [(''status'', JText ''error''), (''reason'', JText e), (''last_check'', JText (se_now env))])"

definition cgroup_json :: "'w lxc \<Rightarrow> string \<Rightarrow> string \<Rightarrow> (json, 'w) eff" where
  "cgroup_json x n key = bind_eff (lx_get_cgroup x n key) (\<lambda>v. ret (JText v))"

text \<open>One part of the statistics: a failure becomes the value.\<close>

definition stats_part :: "string \<Rightarrow> (json option, 'w) eff \<Rightarrow> (string \<times> json) list \<Rightarrow> ((string \<times> json) list, 'w) eff" where
  "stats_part key m stats = bind_eff (catch_eff m (\<lambda>e. ret (Some (JObject [(''error'', JText e)]))))
     (\<lambda>v. ret (case v of None \<Rightarrow> stats | Some j \<Rightarrow> AList.update key j stats))"

definition stats_value :: "'w lxc \<Rightarrow> string \<Rightarrow> string \<Rightarrow> (json option, 'w) eff" where
  "stats_value x n key = bind_eff (lx_get_cgroup x n key) (\<lambda>v. ret (if v = [] then None else Some (JText v)))"

definition get_container_stats :: "'w lxc \<Rightarrow> string \<Rightarrow> ((string \<times> json) list, 'w) eff" where
  "get_container_stats x n = catch_eff
     (bind_eff (lx_defined x n) (\<lambda>d. if \<not> d then ret [(''error'', JText ''Container not defined'')]
      else bind_eff (stats_part ''memory'' (bind_eff (lx_get_cgroup x n ''memory.stat'') (\<lambda>v. if v = [] then ret None
             else bind_eff (cgroup_json x n ''memory.usage_in_bytes'') (\<lambda>a. bind_eff (cgroup_json x n ''memory.limit_in_bytes'')
               (\<lambda>b. bind_eff (cgroup_json x n ''memory.memsw.usage_in_bytes'') (\<lambda>c.
                  ret (Some (JObject [(''usage'', a), (''limit'', b), (''swap'', c)]))))))) []) (\<lambda>s1.
           bind_eff (stats_part ''cpu'' (stats_value x n ''cpu.stat'') s1) (\<lambda>s2.
           bind_eff (stats_part ''network'' (bind_eff (lx_running x n) (\<lambda>up. bind_eff (if up then lx_interfaces x n else ret [])
             (\<lambda>ifs. bind_eff (lx_running x n) (\<lambda>up2. bind_eff (if up2 then lx_ips x n else ret [])
               (\<lambda>ips. ret (Some (JObject [(''interfaces'', JArray (map JText ifs)), (''ips'', JArray (map JText ips))]))))))) s2) (\<lambda>s3.
           bind_eff (stats_part ''processes'' (stats_value x n ''pids.current'') s3) (\<lambda>s4.
           catch_eff (bind_eff (lx_running x n) (\<lambda>up. if up then bind_eff (get_eff (lx_clock x))
             (\<lambda>t. ret (s4 @ [(''uptime_seconds'', JInt \<lfloor>t\<rfloor>)])) else ret s4))
             (\<lambda>e. ret (s4 @ [(''error'', JText e)]))))))))
     (\<lambda>e. ret [(''error'', JText e)])"

definition SIEM_NAMES :: "string list" where
  "SIEM_NAMES = [''wazuh'', ''ossec'', ''ossim'', ''utmstack'', ''elastic'']"

definition INFO_KEYS :: "string list" where
  "INFO_KEYS = [''agent_seq_id'', ''siem_type'', ''siem_ip'', ''siem_version'', ''agent_group'', ''os_type'', ''created_at'',
     ''siem_agent_status'', ''siem_agent_running'', ''siem_agent_last_check'', ''manager_host'', ''manager_port'',
     ''manager_status'', ''manager_reachable'', ''syslog_listener'']"

definition STATUS_KEYS :: "(string \<times> string) list" where
  "STATUS_KEYS = [(''siem_agent_status'', ''status''), (''siem_agent_running'', ''running''), (''siem_agent_last_check'', ''last_check''),
     (''manager_host'', ''manager_host''), (''manager_port'', ''manager_port''), (''manager_status'', ''manager_status''),
     (''manager_reachable'', ''manager_reachable'')]"

definition with_metadata :: "(string \<times> json) list \<Rightarrow> (string \<times> json) list \<Rightarrow> (string \<times> json) list" where
  "with_metadata md info = foldl (\<lambda>i k. if cell md k = JNone then i else AList.update k (cell md k) i) info INFO_KEYS"

text \<open>The first name of \<open>SIEM_NAMES\<close> that the container's configuration contains, in lower case.\<close>

definition config_siem :: "string \<Rightarrow> string option" where
  "config_siem content = find (\<lambda>t. contains t (py_lower content)) SIEM_NAMES"

definition with_status :: "(string \<times> json) list \<Rightarrow> (string \<times> json) list \<Rightarrow> (string \<times> json) list" where
  "with_status payload info =
     (let i = foldl (\<lambda>i (k, p). AList.update k (cell payload p) i) info STATUS_KEYS
      in if truthy (cell payload ''siem_type'') \<and> \<not> truthy (cell i ''siem_type'')
         then AList.update ''siem_type'' (cell payload ''siem_type'') i else i)"

definition read_status :: "'w site_env \<Rightarrow> string \<Rightarrow> (string \<times> json) list \<Rightarrow> ((string \<times> json) list, 'w site) eff" where
  "read_status env n info =
     bind_eff (on_host (execute_in_container (se_lxc env) n ''cat /var/lib/siem-agent-status.json 2>/dev/null'' 5)) (\<lambda>r.
       case r of None \<Rightarrow> raise_error ''no result'' | Some c \<Rightarrow>
       if \<not> cr_success c \<or> cr_stdout c = [] then ret info
       else (case se_loads env (cr_stdout c) of
          None \<Rightarrow> ret info
        | Some (JObject payload) \<Rightarrow> let i = with_status payload info in
            then_eff (write_metadata env n ((''siem_type'', cell i ''siem_type'') # map (\<lambda>(k, p). (k, cell i k)) STATUS_KEYS)) (ret i)
        | Some other \<Rightarrow> raise_error ''object has no attribute get''))"

definition get_agent_info :: "'w site_env \<Rightarrow> bool \<Rightarrow> string \<Rightarrow> ((string \<times> json) list, 'w site) eff" where
  "get_agent_info env detailed n = (let x = se_lxc env in
     bind_eff (on_host (lx_running x n)) (\<lambda>r1. bind_eff (on_host (lx_state x n)) (\<lambda>st. bind_eff (on_host (lx_init_pid x n)) (\<lambda>pid.
     bind_eff (on_host (lx_running x n)) (\<lambda>r2. bind_eff (if r2 then on_host (lx_ips x n) else ret []) (\<lambda>ips.
     bind_eff (get_eff (\<lambda>s. read_agent_metadata (se_codec env) n (si_fleet s))) (\<lambda>md.
     let i0 = with_metadata md [(''agent_id'', JText n), (''agent_name'', JText n),
           (''lifecycle_status'', JText (if r1 then ''running'' else ''stopped'')), (''state'', JText st), (''init_pid'', JInt pid),
           (''ip_addresses'', JArray (map JText ips))] in
     bind_eff (catch_eff (bind_eff (on_host (lx_config x n)) (\<lambda>c.
         ret (case config_siem (case c of None \<Rightarrow> [] | Some t \<Rightarrow> t) of None \<Rightarrow> i0 | Some t \<Rightarrow> AList.update ''siem_type'' (JText t) i0)))
       (\<lambda>e. ret i0)) (\<lambda>i1.
     bind_eff (on_host (lx_running x n)) (\<lambda>r3. bind_eff (if r3 then read_status env n i1 else ret i1) (\<lambda>i2.
     bind_eff (if detailed then bind_eff (on_host (get_container_stats x n)) (\<lambda>stats. bind_eff (on_host (check_siem_connectivity env n))
         (\<lambda>c. ret (i2 @ [(''stats'', JObject stats), (''siem_connectivity'', JObject c)]))) else ret i2) (\<lambda>i3.
     then_eff (write_metadata env n (map (\<lambda>k. (k, cell i3 k)) [''agent_seq_id'', ''lifecycle_status'', ''state'', ''init_pid'', ''ip_addresses'']))
       (ret i3))))))))))))"


section \<open>The container routes\<close>

definition answer :: "bool \<Rightarrow> string \<Rightarrow> json \<Rightarrow> string option \<Rightarrow> (http_error + api_response, 'w site) eff" where
  "answer ok message data err = ret (Inr \<lparr>rs_success = ok, rs_message = message, rs_data = data, rs_error = err\<rparr>)"

text \<open>\<open>except HTTPException: raise; except Exception as e\<close>: only other exceptions become a response.\<close>

definition guarded :: "string \<Rightarrow> 'w route \<Rightarrow> 'w route" where
  "guarded message body = catch_eff body (\<lambda>e. answer False message JNone (Some e))"

definition http :: "nat \<Rightarrow> string \<Rightarrow> 'w route" where
  "http code d = ret (Inl (HTTPError code d))"

definition check_root :: "'w site_env \<Rightarrow> 'w route \<Rightarrow> 'w route" where
  "check_root env body = (if \<not> se_access env then
     http 403 ''Container operations need root or the habeny LXC helper (HABENY_LXC_BACKEND=helper).'' else body)"

definition visible_container :: "'w site_env \<Rightarrow> user option \<Rightarrow> string \<Rightarrow> (bool, 'w site) eff" where
  "visible_container env u n = bind_eff (on_host (lx_list (se_lxc env)))
     (\<lambda>ns. if n \<in> set ns then get_eff (\<lambda>s. can_see u n (si_ten s)) else ret False)"

definition if_visible :: "'w site_env \<Rightarrow> user option \<Rightarrow> string \<Rightarrow> 'w route \<Rightarrow> 'w route" where
  "if_visible env u n body = bind_eff (visible_container env u n) (\<lambda>v.
     if \<not> v then http 404 (''Container '' @ quote_repr n @ '' not found'') else body)"

definition get_agent :: "'w site_env \<Rightarrow> user option \<Rightarrow> string \<Rightarrow> 'w route" where
  "get_agent env u n = guarded ''Failed to get container details'' (if_visible env u n
     (bind_eff (get_agent_info env True n) (\<lambda>i. answer True (''Container '' @ quote_repr n @ '' details retrieved'') (JObject i) None)))"

definition delete_agent :: "'w site_env \<Rightarrow> user option \<Rightarrow> string \<Rightarrow> 'w route" where
  "delete_agent env u n = (let x = se_lxc env in guarded ''Failed to delete container'' (if_visible env u n
     (bind_eff (on_host (lx_running x n)) (\<lambda>up.
      then_eff (if up then bind_eff (on_host (lx_shutdown x n 10)) (\<lambda>down.
          then_eff (if down then ret True else on_host (lx_stop x n)) (on_host (lx_wait x n ''STOPPED'' 10))) else ret True)
      (bind_eff (on_host (lx_destroy x n)) (\<lambda>ok.
        if ok then then_eff (log_action ''container_deleted'' [(''container_id'', JText n)] ''success'')
          (then_eff (delete_agent_metadata env n) (answer True (''Container '' @ quote_repr n @ '' deleted successfully'') JNone None))
        else answer False (''Failed to delete container '' @ quote_repr n) JNone (Some ''Destroy operation failed'')))))))"

definition start_agent :: "'w site_env \<Rightarrow> user option \<Rightarrow> string \<Rightarrow> 'w route" where
  "start_agent env u n = (let x = se_lxc env in guarded ''Failed to start container'' (if_visible env u n
     (bind_eff (on_host (lx_running x n)) (\<lambda>up.
      if up then answer False (''Container '' @ quote_repr n @ '' is already running'') JNone None
      else bind_eff (on_host (lx_start x n)) (\<lambda>ok.
        if ok then then_eff (on_host (lx_wait x n ''RUNNING'' 10)) (then_eff (log_action ''container_started'' [(''container_id'', JText n)] ''success'')
          (answer True (''Container '' @ quote_repr n @ '' started successfully'') JNone None))
        else answer False (''Failed to start container '' @ quote_repr n) JNone (Some ''Start operation failed''))))))"

definition stop_agent :: "'w site_env \<Rightarrow> user option \<Rightarrow> string \<Rightarrow> 'w route" where
  "stop_agent env u n = (let x = se_lxc env in guarded ''Failed to stop container'' (if_visible env u n
     (bind_eff (on_host (lx_running x n)) (\<lambda>up.
      if \<not> up then answer False (''Container '' @ quote_repr n @ '' is not running'') JNone None
      else bind_eff (on_host (lx_shutdown x n 10)) (\<lambda>down.
        then_eff (if down then ret True else on_host (lx_stop x n))
        (then_eff (on_host (lx_wait x n ''STOPPED'' 10)) (then_eff (log_action ''container_stopped'' [(''container_id'', JText n)] ''success'')
          (answer True (''Container '' @ quote_repr n @ '' stopped successfully'') JNone None))))))))"

definition bulk_one :: "'w site_env \<Rightarrow> string \<Rightarrow> string \<Rightarrow> (bool, 'w site) eff" where
  "bulk_one env op n = (let x = se_lxc env in
     if op = ''start'' then bind_eff (on_host (lx_running x n)) (\<lambda>up. if \<not> up then on_host (lx_start x n) else ret False)
     else if op = ''stop'' then bind_eff (on_host (lx_running x n)) (\<lambda>up. if up then on_host (lx_shutdown x n 10) else ret False)
     else bind_eff (on_host (lx_running x n)) (\<lambda>up.
       then_eff (if up then then_eff (on_host (lx_stop x n)) (on_host (lx_wait x n ''STOPPED'' 10)) else ret True)
       (bind_eff (on_host (lx_destroy x n)) (\<lambda>ok. if ok then then_eff (delete_agent_metadata env n) (ret True) else ret False))))"

type_synonym bulk_result = "string \<times> bool \<times> string option"

primrec bulk_each :: "'w site_env \<Rightarrow> string \<Rightarrow> string list \<Rightarrow> string list \<Rightarrow> (bulk_result list, 'w site) eff" where
  "bulk_each env op existing [] = ret []"
| "bulk_each env op existing (n # ns) = bind_eff
     (if n \<notin> set existing then ret (n, False, Some ''Not found'')
      else catch_eff (bind_eff (bulk_one env op n) (\<lambda>ok. ret (n, ok, None))) (\<lambda>e. ret (n, False, Some e)))
     (\<lambda>r. bind_eff (bulk_each env op existing ns) (\<lambda>rs. ret (r # rs)))"

definition bulk_json :: "bulk_result \<Rightarrow> json" where
  "bulk_json r = (case r of (n, ok, e) \<Rightarrow> JObject ([(''agent_id'', JText n), (''success'', JBool ok)] @
     (case e of None \<Rightarrow> [] | Some m \<Rightarrow> [(''error'', JText m)])))"

definition bulk_agent_operation :: "'w site_env \<Rightarrow> user option \<Rightarrow> string \<Rightarrow> string list \<Rightarrow> 'w route" where
  "bulk_agent_operation env u op names = guarded ''Bulk operation failed''
     (if op \<notin> set [''start'', ''stop'', ''delete''] then http 400 (''Invalid operation: '' @ op)
      else bind_eff (on_host (lx_list (se_lxc env))) (\<lambda>ns. bind_eff (get_eff (\<lambda>s. visible u ns (si_ten s))) (\<lambda>existing.
        bind_eff (bulk_each env op existing names) (\<lambda>rs. let k = length (filter (\<lambda>(n, ok, e). ok) rs) in
          then_eff (log_action (''bulk_'' @ op) [(''total'', JInt (int (length names))), (''successful'', JInt (int k)),
            (''containers'', JArray (map JText (take 200 names)))] ''success'')
          (answer (k = length names) (''Bulk '' @ op @ '': '' @ nat_str k @ ''/'' @ nat_str (length names) @ '' successful'')
            (JObject [(''results'', JArray (map bulk_json rs))]) None)))))"

definition set_syslog :: "'w site_env \<Rightarrow> user option \<Rightarrow> bool \<Rightarrow> string \<Rightarrow> string \<Rightarrow> 'w route" where
  "set_syslog env u on n protocol = (let x = se_lxc env; verb = (if on then ''enable'' else ''disable'') in
     guarded (''Failed to '' @ verb @ '' syslog'') (if_visible env u n (let p = py_lower protocol in
       if p \<notin> set [''tcp'', ''udp''] then http 400 ''Protocol must be tcp or udp''
       else bind_eff (on_host (execute_in_container x n
           (''/opt/utmstack-linux-agent/utmstack_agent_service '' @ verb @ ''-integration syslog '' @ p) 30)) (\<lambda>r.
         case r of None \<Rightarrow> raise_error ''no result'' | Some c \<Rightarrow>
         if \<not> cr_success c then answer False (''Failed to '' @ verb @ '' syslog'') JNone (Some (cr_stderr c))
         else bind_eff (if on then bind_eff (on_host (lx_running x n)) (\<lambda>up. if up then on_host (lx_ips x n) else ret []) else ret []) (\<lambda>ips.
           then_eff (write_metadata env n [(''syslog_listener'', if on then JText p else JNone)])
           (then_eff (log_action (''utmstack_syslog_'' @ verb @ ''d'') [(''agent_id'', JText n), (''protocol'', JText p)] ''success'')
           (answer True (''Syslog '' @ map upper_char p @ (if on then '' enabled on '' @ n @ '' (port 7014)'' else '' disabled on '' @ n))
             (JObject ([(''agent_id'', JText n), (''protocol'', JText p)] @
               (if on then [(''port'', JInt 7014), (''target_ip'', case ips of [] \<Rightarrow> JNone | i # _ \<Rightarrow> JText i)] else []) @
               [(''output'', JText (cr_stdout c))])) None)))))))"

text \<open>Listing: the containers the user sees, filtered, one page of them.\<close>

primrec all_infos :: "'w site_env \<Rightarrow> string list \<Rightarrow> ((string \<times> json) list list, 'w site) eff" where
  "all_infos env [] = ret []"
| "all_infos env (n # ns) = bind_eff (get_agent_info env False n) (\<lambda>i. bind_eff (all_infos env ns) (\<lambda>is. ret (i # is)))"

definition keep_info :: "string option \<Rightarrow> string option \<Rightarrow> string option \<Rightarrow> (string \<times> json) list \<Rightarrow> bool" where
  "keep_info siem status grp i =
     (let matches = (\<lambda>v key. \<not> is_given v \<or> cell i key = opt_json v)
      in matches siem ''siem_type'' \<and> matches status ''lifecycle_status'' \<and> matches grp ''agent_group'')"

definition page :: "nat \<Rightarrow> nat \<Rightarrow> 'i list \<Rightarrow> 'i list" where
  "page offset limit xs = take limit (drop offset xs)"

definition has_more :: "nat \<Rightarrow> nat \<Rightarrow> 'i list \<Rightarrow> bool" where
  "has_more offset limit xs = (offset + limit < length xs)"

definition team_json :: "nat option \<Rightarrow> json" where
  "team_json t = (case t of None \<Rightarrow> JNone | Some n \<Rightarrow> JInt (int n))"

definition list_agents ::
  "'w site_env \<Rightarrow> user option \<Rightarrow> string option \<Rightarrow> string option \<Rightarrow> string option \<Rightarrow> nat \<Rightarrow> nat \<Rightarrow> 'w route" where
  "list_agents env u siem status grp limit offset = guarded ''Failed to list containers''
     (bind_eff (on_host (lx_list (se_lxc env))) (\<lambda>ns. bind_eff (get_eff (\<lambda>s. visible u ns (si_ten s))) (\<lambda>names.
      bind_eff (all_infos env names) (\<lambda>infos. bind_eff (get_eff (\<lambda>s. owners (Some names) (si_ten s))) (\<lambda>own.
      let tagged = map (\<lambda>(n, i). AList.update ''team_id'' (team_json (team_of own n)) i) (zip names infos);
          all = filter (keep_info siem status grp) tagged; shown = page offset limit all in
      answer True (''Retrieved '' @ nat_str (length shown) @ '' containers'')
        (JObject [(''agents'', JArray (map JObject shown)), (''total'', JInt (int (length all))), (''limit'', JInt (int limit)),
           (''offset'', JInt (int offset)), (''has_more'', JBool (has_more offset limit all))]) None)))))"

section \<open>The group routes\<close>

definition group_json :: "group_row \<Rightarrow> nat \<Rightarrow> json" where
  "group_json g k = JObject [(''name'', JText (g_name g)), (''description'', opt_json (g_description g)), (''agent_count'', JInt (int k)),
     (''created_at'', JText (g_created g)), (''updated_at'', JText (g_updated g))]"

definition visible_members :: "user option \<Rightarrow> 'w site \<Rightarrow> (group_row \<times> nat) list \<Rightarrow> (group_row \<times> nat) list" where
  "visible_members u s gs = map (\<lambda>(g, k). (g, length (visible u (get_agents_in_group (g_name g) (si_fleet s)) (si_ten s)))) gs"

definition list_agent_groups :: "user option \<Rightarrow> 'w route" where
  "list_agent_groups u = guarded ''Failed to list groups''
     (bind_eff (get_eff (\<lambda>s. if is_unrestricted u then list_groups (si_fleet s) else visible_members u s (list_groups (si_fleet s))))
       (\<lambda>gs. answer True ''Groups retrieved'' (JArray (map (\<lambda>(g, k). group_json g k) gs)) None))"

definition if_group :: "string \<Rightarrow> 'w route \<Rightarrow> 'w route" where
  "if_group g body = bind_eff (get_eff (\<lambda>s. group_exists g (si_fleet s)))
     (\<lambda>e. if \<not> e then http 404 ''Group not found'' else body)"

definition create_agent_group :: "'w site_env \<Rightarrow> string \<Rightarrow> string option \<Rightarrow> 'w route" where
  "create_agent_group env g d = guarded ''Failed to create group''
     (bind_eff (get_eff (\<lambda>s. group_exists g (si_fleet s))) (\<lambda>e.
      if e then http 400 ''Group already exists''
      else bind_eff (on_fleet (\<lambda>db. case create_group (se_now env) g d db of Inl e \<Rightarrow> Inl e | Inr (db', row) \<Rightarrow> Inr (row, db'))) (\<lambda>row.
        then_eff (log_action ''group_created'' [(''group'', JText g)] ''success'') (answer True ''Group created'' (group_json row 0) None))))"

definition rename_agent_group :: "'w site_env \<Rightarrow> string \<Rightarrow> string \<Rightarrow> string option \<Rightarrow> 'w route" where
  "rename_agent_group env g new d = catch_eff (if_group g
     (bind_eff (on_fleet (\<lambda>db. case rename_group (se_now env) g new d db of Inl e \<Rightarrow> Inl e | Inr (db', k) \<Rightarrow> Inr (k, db'))) (\<lambda>k.
      then_eff (log_action ''group_renamed'' [(''group'', JText g), (''new_name'', JText new)] ''success'')
        (answer True ''Group renamed'' (JObject [(''name'', JText new), (''description'', opt_json d),
          (''updated_at'', JText (se_now env)), (''containers_updated'', JInt (int k))]) None))))
     (\<lambda>e. answer False ''Failed to rename group'' JNone (Some e))"

definition delete_agent_group :: "'w site_env \<Rightarrow> string \<Rightarrow> 'w route" where
  "delete_agent_group env g = guarded ''Failed to delete group'' (if_group g
     (bind_eff (on_fleet (\<lambda>db. case delete_group (se_now env) g db of (db', k) \<Rightarrow> Inr (k, db'))) (\<lambda>k.
      then_eff (log_action ''group_deleted'' [(''group'', JText g), (''removed_containers'', JInt (int k))] ''success'')
        (answer True ''Group deleted'' (JObject [(''group'', JText g), (''removed_containers'', JInt (int k))]) None))))"

primrec ensure_numbers :: "string \<Rightarrow> string list \<Rightarrow> fleet \<Rightarrow> fleet" where
  "ensure_numbers now [] db = db"
| "ensure_numbers now (n # ns) db = ensure_numbers now ns (fst (get_or_create_agent_seq_id now n db))"

definition assign_group_agents :: "'w site_env \<Rightarrow> user option \<Rightarrow> string \<Rightarrow> string list \<Rightarrow> 'w route" where
  "assign_group_agents env u g ids = guarded ''Failed to assign group'' (if_group g
     (bind_eff (on_host (lx_list (se_lxc env))) (\<lambda>ns. bind_eff (get_eff (\<lambda>s. visible u ns (si_ten s))) (\<lambda>existing.
      let valid = filter (\<lambda>i. i \<in> set existing) ids; invalid = filter (\<lambda>i. i \<notin> set existing) ids in
      bind_eff (on_fleet (\<lambda>db. case assign_agents_to_group (se_now env) g valid (ensure_numbers (se_now env) valid db) of (db', k) \<Rightarrow> Inr (k, db')))
        (\<lambda>k. then_eff (log_action ''group_assign'' [(''group'', JText g), (''containers'', JArray (map JText ids))] ''success'')
          (answer True (''Assigned '' @ nat_str k @ '' containers to '' @ g)
            (JObject [(''group'', JText g), (''assigned'', JInt (int k)), (''invalid_containers'', JArray (map JText invalid))]) None))))))"

definition remove_group_agents :: "'w site_env \<Rightarrow> user option \<Rightarrow> string \<Rightarrow> string list \<Rightarrow> 'w route" where
  "remove_group_agents env u g ids = guarded ''Failed to remove from group'' (if_group g
     (bind_eff (get_eff (\<lambda>s. visible u ids (si_ten s))) (\<lambda>mine.
      bind_eff (on_fleet (\<lambda>db. case remove_agents_from_group (se_now env) mine db of (db', k) \<Rightarrow> Inr (k, db'))) (\<lambda>k.
        then_eff (log_action ''group_remove'' [(''group'', JText g), (''containers'', JArray (map JText ids))] ''success'')
          (answer True (''Removed '' @ nat_str k @ '' containers from '' @ g)
            (JObject [(''group'', JText g), (''removed'', JInt (int k))]) None)))))"

definition bulk_group_operation :: "'w site_env \<Rightarrow> user option \<Rightarrow> string \<Rightarrow> string \<Rightarrow> 'w route" where
  "bulk_group_operation env u g op = guarded ''Failed group bulk operation''
     (if op \<notin> set [''start'', ''stop'', ''delete''] then http 400 (''Invalid operation: '' @ op)
      else if_group g (bind_eff (get_eff (\<lambda>s. visible u (get_agents_in_group g (si_fleet s)) (si_ten s))) (\<lambda>ids.
        if ids = [] then answer False ''No containers in group'' JNone (Some ''empty_group'')
        else bulk_agent_operation env u op ids)))"


section \<open>The requests\<close>

datatype agent_request =
    GetAgent string
  | ListAgents "string option" "string option" "string option" nat nat
  | DeleteAgent string
  | StartAgent string
  | StopAgent string
  | BulkAgents string "string list"
  | SetSyslog bool string string
  | ListGroups
  | CreateGroup string "string option"
  | AssignGroup string "string list"
  | RemoveFromGroup string "string list"
  | BulkGroup string string

definition handle_agents :: "'w site_env \<Rightarrow> user option \<Rightarrow> agent_request \<Rightarrow> 'w route" where
  "handle_agents env u r = (case r of
     GetAgent n \<Rightarrow> get_agent env u n
   | ListAgents siem status grp limit offset \<Rightarrow> list_agents env u siem status grp limit offset
   | DeleteAgent n \<Rightarrow> check_root env (delete_agent env u n)
   | StartAgent n \<Rightarrow> check_root env (start_agent env u n)
   | StopAgent n \<Rightarrow> check_root env (stop_agent env u n)
   | BulkAgents op ns \<Rightarrow> check_root env (bulk_agent_operation env u op ns)
   | SetSyslog on n p \<Rightarrow> set_syslog env u on n p
   | ListGroups \<Rightarrow> list_agent_groups u
   | CreateGroup g d \<Rightarrow> create_agent_group env g d
   | AssignGroup g ids \<Rightarrow> assign_group_agents env u g ids
   | RemoveFromGroup g ids \<Rightarrow> remove_group_agents env u g ids
   | BulkGroup g op \<Rightarrow> bulk_group_operation env u g op)"

section \<open>What a request can see and touch\<close>

text \<open>All that the site knows of a container: on the host, in the database, and whose it is.\<close>

definition container_view :: "(string \<Rightarrow> 'w \<Rightarrow> 'x) \<Rightarrow> string \<Rightarrow> 'w site \<Rightarrow> 'x \<times> agent_row option \<times> container_owner list" where
  "container_view view m s =
     (view m (si_host s), find_agent m (si_fleet s), filter (\<lambda>r. o_name r = m) (owner_rows (si_ten s)))"

lemma view_host: "keeps (view m) a \<Longrightarrow> keeps (container_view view m) (on_host a)"
  by (auto simp: keeps_def container_view_def on_host_def split: prod.splits) (metis snd_conv)

lemma view_log [inv_intros]: "keeps (container_view view m) (log_action a d st)"
  unfolding log_action_def by (rule keeps_upd) (simp add: container_view_def)

lemma view_answer [inv_intros]: "keeps v (answer ok msg d e)"
  unfolding answer_def by (rule keeps_ret)

lemma view_http [inv_intros]: "keeps v (http c d)"
  unfolding http_def by (rule keeps_ret)

lemma find_agent_append: "ag_name row \<noteq> m \<Longrightarrow> find_agent m (db\<lparr>agents := rows @ [row]\<rparr>) = find_agent m (db\<lparr>agents := rows\<rparr>)"
  by (simp add: find_agent_def fetchone_def find_append split: option.splits)

lemma find_agent_update:
  "(\<And>r. ag_name (f r) = ag_name r) \<Longrightarrow> (\<And>r. P r \<Longrightarrow> ag_name r \<noteq> m) \<Longrightarrow>
    find_agent m (db\<lparr>agents := sql_update P f rows\<rparr>) = find_agent m (db\<lparr>agents := rows\<rparr>)"
  by (induction rows) (auto simp: find_agent_def fetchone_def sql_update_def)

lemma find_agent_same [simp]: "find_agent m (db\<lparr>agents := agents db\<rparr>) = find_agent m db"
  by simp

lemma other_number: "n \<noteq> m \<Longrightarrow> find_agent m (fst (get_or_create_agent_seq_id now n db)) = find_agent m db"
  by (simp add: get_or_create_agent_seq_id_def Let_def find_agent_def fetchone_def find_append split: option.splits)

lemma other_upsert: "n \<noteq> m \<Longrightarrow> upsert_agent c now n d db = Inr db' \<Longrightarrow> find_agent m db' = find_agent m db"
  unfolding upsert_agent_def Let_def
  by (auto simp: find_agent_append find_agent_update split: if_splits)

lemma other_payload: "n \<noteq> m \<Longrightarrow> find_agent m (fst (metadata_payload c now n md db)) = find_agent m db"
  using other_number [of n m now db]
  by (auto simp: metadata_payload_def Let_def split: prod.splits if_splits)

lemma other_metadata: "n \<noteq> m \<Longrightarrow> write_agent_metadata c now n md db = Inr db' \<Longrightarrow> find_agent m db' = find_agent m db"
  using other_payload [of n m c now md db] other_upsert
  by (auto simp: write_agent_metadata_def split: prod.splits)

lemma view_metadata: "n \<noteq> m \<Longrightarrow> keeps (container_view view m) (write_metadata env n md)"
  by (auto simp: keeps_def write_metadata_def on_fleet_def container_view_def dest: other_metadata split: sum.splits)

lemma view_delete: "n \<noteq> m \<Longrightarrow> keeps (container_view view m) (delete_agent_metadata env n)"
  unfolding delete_agent_metadata_def
proof (rule keeps_upd)
  fix s :: "'a site"
  assume n: "n \<noteq> m"
  have "filter (\<lambda>r. o_name r = m) (sql_delete (\<lambda>r. o_name r \<in> set [n]) rows) = filter (\<lambda>r. o_name r = m) rows"
    for rows :: "container_owner list"
    using n by (auto simp: sql_delete_def intro: filter_cong)
  moreover have "find_agent m (mark_agent_deleted (se_now env) n (si_fleet s)) = find_agent m (si_fleet s)"
    unfolding mark_agent_deleted_def using n by (subst find_agent_update) auto
  ultimately show "container_view view m (s\<lparr>si_fleet := mark_agent_deleted (se_now env) n (si_fleet s), si_ten := forget [n] (si_ten s)\<rparr>) =
      container_view view m s"
    by (simp add: container_view_def forget_def)
qed

lemmas view_parts = view_host view_metadata view_delete

text \<open>The programs inside one container.\<close>

lemma keeps_retry: "(\<And>d w. v (sleep d w) = v w) \<Longrightarrow> keeps v f \<Longrightarrow> keeps v (retry_eff sleep k d b f)"
proof (induction k arbitrary: d)
  case (Suc k)
  have "v (snd (retry_eff sleep (Suc k) d b f w)) = v w" for w
  proof (cases "f w")
    case (Pair r w')
    then have "v w' = v w" using keepsD [OF Suc.prems(2)] by blast
    then show ?thesis using Pair Suc.IH [OF Suc.prems] Suc.prems(1) by (auto simp: keeps_def split: sum.splits)
  qed
  then show ?case by (simp add: keeps_def)
qed (simp add: keeps_def)

lemma keeps_execute: "lxc_confined x view \<Longrightarrow> n \<noteq> m \<Longrightarrow> keeps (view m) (execute_in_container x n c t)"
  unfolding execute_in_container_def attach_once_def
  by (rule keeps_retry, simp add: lxc_confined_def, intro inv_intros) auto

lemma keeps_stats: "lxc_confined x view \<Longrightarrow> n \<noteq> m \<Longrightarrow> keeps (view m) (get_container_stats x n)"
  unfolding get_container_stats_def stats_part_def stats_value_def cgroup_json_def by (intro inv_intros) auto

lemma keeps_connectivity: "lxc_confined (se_lxc env) view \<Longrightarrow> n \<noteq> m \<Longrightarrow> keeps (view m) (check_siem_connectivity env n)"
  unfolding check_siem_connectivity_def Let_def by (intro inv_intros keeps_execute) auto

lemma keeps_json [inv_intros]:
  "keeps v a \<Longrightarrow> (\<And>p. keeps v (f p)) \<Longrightarrow> keeps v b \<Longrightarrow>
    keeps v (case j of None \<Rightarrow> a | Some JNone \<Rightarrow> b | Some (JBool x) \<Rightarrow> b | Some (JInt i) \<Rightarrow> b | Some (JText t) \<Rightarrow> b
      | Some (JArray l) \<Rightarrow> b | Some (JObject p) \<Rightarrow> f p)"
  by (auto split: option.splits json.splits)

lemma view_read_status:
  "lxc_confined (se_lxc env) view \<Longrightarrow> n \<noteq> m \<Longrightarrow> keeps (container_view view m) (read_status env n i)"
  unfolding read_status_def Let_def by (intro inv_intros view_parts keeps_execute) auto

lemma view_info:
  "lxc_confined (se_lxc env) view \<Longrightarrow> n \<noteq> m \<Longrightarrow> keeps (container_view view m) (get_agent_info env d n)"
  unfolding get_agent_info_def Let_def
  by (intro inv_intros view_parts view_read_status keeps_stats keeps_connectivity) auto

lemma view_infos:
  "lxc_confined (se_lxc env) view \<Longrightarrow> m \<notin> set ns \<Longrightarrow> keeps (container_view view m) (all_infos env ns)"
  by (induction ns) (auto intro!: keeps_bind keeps_ret view_info)

lemma view_bulk_one:
  "lxc_confined (se_lxc env) view \<Longrightarrow> n \<noteq> m \<Longrightarrow> keeps (container_view view m) (bulk_one env op n)"
  unfolding bulk_one_def Let_def by (intro inv_intros view_parts) auto

lemma view_bulk:
  "lxc_confined (se_lxc env) view \<Longrightarrow> m \<notin> set existing \<Longrightarrow> keeps (container_view view m) (bulk_each env op existing ns)"
proof (induction ns)
  case (Cons n ns)
  then show ?case by (auto intro!: keeps_bind keeps_ret keeps_catch keeps_if view_bulk_one)
qed (simp add: keeps_ret)

text \<open>
  A container the user does not see: after asking the host for its containers, what the request goes on
  with does not include it.
\<close>

definition hidden :: "user option \<Rightarrow> string \<Rightarrow> 'w site \<Rightarrow> bool" where
  "hidden u m s = (\<not> can_see u m (si_ten s))"

definition untouched :: "(string \<Rightarrow> 'w \<Rightarrow> 'x) \<Rightarrow> string \<Rightarrow> 'w site \<Rightarrow> ('a, 'w site) eff \<Rightarrow> bool" where
  "untouched view m s body = (container_view view m (snd (body s)) = container_view view m s)"

lemma untouched_keeps: "keeps (container_view view m) body \<Longrightarrow> untouched view m s body"
  by (simp add: untouched_def keeps_def)

lemma untouched_guarded: "untouched view m s body \<Longrightarrow> untouched view m s (guarded msg body)"
  unfolding guarded_def untouched_def catch_eff_def answer_def ret_def by (auto split: prod.splits sum.splits)

lemma untouched_get: "untouched view m s (f (g s)) \<Longrightarrow> untouched view m s (bind_eff (get_eff g) f)"
  by (simp add: untouched_def bind_get)

lemma untouched_list:
  assumes "lxc_confined (se_lxc env) view" and "hidden u m s"
    and "\<And>ns s'. hidden u m s' \<Longrightarrow> si_ten s' = si_ten s \<Longrightarrow> untouched view m s' (f ns)"
  shows "untouched view m s (bind_eff (on_host (lx_list (se_lxc env))) f)"
proof -
  obtain r w where l: "lx_list (se_lxc env) (si_host s) = (r, w)" by (cases "lx_list (se_lxc env) (si_host s)")
  have k: "container_view view m (s\<lparr>si_host := w\<rparr>) = container_view view m s"
    using keepsD [OF confined_keeps(1) [OF assms(1)] l] by (simp add: container_view_def)
  have h: "hidden u m (s\<lparr>si_host := w\<rparr>)" using assms(2) by (simp add: hidden_def)
  show ?thesis
  proof (cases r)
    case (Inl e)
    then show ?thesis using l k by (simp add: untouched_def bind_eff_def on_host_def)
  next
    case (Inr ns)
    have "untouched view m (s\<lparr>si_host := w\<rparr>) (f ns)" by (rule assms(3) [OF h]) simp
    then show ?thesis using l k Inr by (simp add: untouched_def bind_eff_def on_host_def)
  qed
qed

lemma hidden_visible: "hidden u m s \<Longrightarrow> m \<notin> set (visible u ns (si_ten s))"
  by (auto simp: hidden_def can_see_alt visible_alt)

lemma untouched_if_visible:
  fixes s :: "'w site"
  assumes "lxc_confined (se_lxc env) view" and "hidden u m s"
    and "n \<noteq> m \<Longrightarrow> keeps (container_view view m) body"
  shows "untouched view m s (if_visible env u n body)"
proof -
  have eq: "if_visible env u n body = bind_eff (on_host (lx_list (se_lxc env)))
      (\<lambda>ns. bind_eff (if n \<in> set ns then get_eff (\<lambda>s. can_see u n (si_ten s)) else ret False)
        (\<lambda>v. if \<not> v then http 404 (''Container '' @ quote_repr n @ '' not found'') else body))"
    by (simp add: if_visible_def visible_container_def bind_eff_def fun_eq_iff split: prod.splits sum.splits)
  show ?thesis
    unfolding eq
  proof (rule untouched_list [OF assms(1,2)])
    fix ns :: "string list" and s' :: "'w site"
    assume h: "hidden u m s'"
    show "untouched view m s' (bind_eff (if n \<in> set ns then get_eff (\<lambda>s. can_see u n (si_ten s)) else ret False)
        (\<lambda>v. if \<not> v then http 404 (''Container '' @ quote_repr n @ '' not found'') else body))"
    proof (cases "n \<in> set ns \<and> can_see u n (si_ten s')")
      case True
      then have "n \<noteq> m" using h by (auto simp: hidden_def)
      then show ?thesis using True assms(3) untouched_keeps [of view m body s'] by (simp add: untouched_def bind_get)
    next
      case False
      then show ?thesis
        using untouched_keeps [OF view_http, of view m s']
        by (auto simp: untouched_def bind_get bind_eff_def ret_def get_eff_def http_def)
    qed
  qed
qed


lemma untouched_if_group: "untouched view m s body \<Longrightarrow> untouched view m s (if_group g body)"
  unfolding if_group_def by (rule untouched_get) (simp add: untouched_keeps view_http)

lemma untouched_if: "(c \<Longrightarrow> untouched view m s a) \<Longrightarrow> (\<not> c \<Longrightarrow> untouched view m s b) \<Longrightarrow> untouched view m s (if c then a else b)"
  by simp

lemma other_numbers: "m \<notin> set ns \<Longrightarrow> find_agent m (ensure_numbers now ns db) = find_agent m db"
  by (induction ns arbitrary: db) (auto simp: other_number)

lemma other_set_groups: "m \<notin> set ns \<Longrightarrow> find_agent m (fst (set_groups now g ns db)) = find_agent m db"
proof -
  have "m \<notin> set ns \<Longrightarrow> find_agent m (foldl (set_group now g) db ns) = find_agent m db"
  proof (induction ns arbitrary: db)
    case (Cons n ns)
    have "find_agent m (set_group now g db n) = find_agent m db"
      unfolding set_group_def using Cons.prems by (subst find_agent_update) auto
    then show ?case using Cons by simp
  qed simp
  then show "m \<notin> set ns \<Longrightarrow> ?thesis" by (simp add: set_groups_def)
qed

lemma view_on_fleet:
  "(\<And>db x db'. f db = Inr (x, db') \<Longrightarrow> find_agent m db' = find_agent m db) \<Longrightarrow> keeps (container_view view m) (on_fleet f)"
  by (auto simp: keeps_def on_fleet_def container_view_def split: sum.splits)

lemma untouched_bulk:
  assumes "lxc_confined (se_lxc env) view" and "hidden u m s"
  shows "untouched view m s (bulk_agent_operation env u op ns)"
  unfolding bulk_agent_operation_def Let_def
  by (intro untouched_guarded untouched_if untouched_list [OF assms] untouched_get untouched_keeps inv_intros view_bulk [OF assms(1)]
      hidden_visible) auto

lemma untouched_agents:
  assumes "lxc_confined (se_lxc env) view" and "hidden u m s"
  shows "untouched view m s (handle_agents env u r)"
proof (cases r)
  case (GetAgent n)
  have "untouched view m s (get_agent env u n)"
    unfolding get_agent_def
    by (intro untouched_guarded untouched_if_visible [OF assms] inv_intros view_info [OF assms(1)]) auto
  then show ?thesis using GetAgent by (simp add: handle_agents_def)
next
  case (ListAgents siem status grp limit offset)
  have "untouched view m s (list_agents env u siem status grp limit offset)"
    unfolding list_agents_def Let_def
    by (intro untouched_guarded untouched_list [OF assms] untouched_get untouched_keeps inv_intros view_infos [OF assms(1)] hidden_visible) auto
  then show ?thesis using ListAgents by (simp add: handle_agents_def)
next
  case (DeleteAgent n)
  have "untouched view m s (delete_agent env u n)"
    unfolding delete_agent_def Let_def
    by (intro untouched_guarded untouched_if_visible [OF assms] inv_intros view_parts assms) auto
  then show ?thesis using DeleteAgent by (simp add: handle_agents_def check_root_def untouched_keeps view_http)
next
  case (StartAgent n)
  have "untouched view m s (start_agent env u n)"
    unfolding start_agent_def Let_def
    by (intro untouched_guarded untouched_if_visible [OF assms] inv_intros view_parts assms) auto
  then show ?thesis using StartAgent by (simp add: handle_agents_def check_root_def untouched_keeps view_http)
next
  case (StopAgent n)
  have "untouched view m s (stop_agent env u n)"
    unfolding stop_agent_def Let_def
    by (intro untouched_guarded untouched_if_visible [OF assms] inv_intros view_parts assms) auto
  then show ?thesis using StopAgent by (simp add: handle_agents_def check_root_def untouched_keeps view_http)
next
  case (BulkAgents op ns)
  then show ?thesis
    using untouched_bulk [OF assms] by (simp add: handle_agents_def check_root_def untouched_keeps view_http)
next
  case (SetSyslog on n p)
  have "untouched view m s (set_syslog env u on n p)"
    unfolding set_syslog_def Let_def
    by (intro untouched_guarded untouched_if_visible [OF assms] inv_intros view_parts keeps_execute assms) auto
  then show ?thesis using SetSyslog by (simp add: handle_agents_def)
next
  case ListGroups
  have "untouched view m s (list_agent_groups u)"
    unfolding list_agent_groups_def by (intro untouched_guarded untouched_keeps inv_intros)
  then show ?thesis using ListGroups by (simp add: handle_agents_def)
next
  case (CreateGroup g d)
  have "untouched view m s (create_agent_group env g d)"
    unfolding create_agent_group_def
    by (intro untouched_guarded untouched_keeps inv_intros view_on_fleet)
      (auto simp: create_group_def find_agent_def Let_def split: if_splits)
  then show ?thesis using CreateGroup by (simp add: handle_agents_def)
next
  case (AssignGroup g ids)
  have "untouched view m s (assign_group_agents env u g ids)"
    unfolding assign_group_agents_def Let_def
  proof (intro untouched_guarded untouched_if_group untouched_list [OF assms] untouched_get untouched_keeps inv_intros view_on_fleet)
    fix ns x db db' and s' :: "'a site"
    assume h: "hidden u m s'" and r: "(case assign_agents_to_group (se_now env) g (filter (\<lambda>i. i \<in> set (visible u ns (si_ten s'))) ids)
        (ensure_numbers (se_now env) (filter (\<lambda>i. i \<in> set (visible u ns (si_ten s'))) ids) db) of (db', k) \<Rightarrow> Inr (k, db')) = Inr (x, db')"
    have "m \<notin> set (filter (\<lambda>i. i \<in> set (visible u ns (si_ten s'))) ids)" using hidden_visible [OF h] by auto
    note o = other_numbers [OF this] other_set_groups [OF this]
    then show "find_agent m db' = find_agent m db"
      using r o by (auto simp: assign_agents_to_group_def set_groups_def)
  qed
  then show ?thesis using AssignGroup by (simp add: handle_agents_def)
next
  case (RemoveFromGroup g ids)
  have "untouched view m s (remove_group_agents env u g ids)"
    unfolding remove_group_agents_def
  proof (intro untouched_guarded untouched_if_group untouched_get untouched_keeps inv_intros view_on_fleet)
    fix db x db'
    assume r: "(case remove_agents_from_group (se_now env) (visible u ids (si_ten s)) db of (db', k) \<Rightarrow> Inr (k, db')) = Inr (x, db')"
    show "find_agent m db' = find_agent m db"
      using r other_set_groups [OF hidden_visible [OF assms(2)]]
      by (auto simp: remove_agents_from_group_def set_groups_def)
  qed
  then show ?thesis using RemoveFromGroup by (simp add: handle_agents_def)
next
  case (BulkGroup g op)
  have "untouched view m s (bulk_group_operation env u g op)"
    unfolding bulk_group_operation_def
    by (intro untouched_guarded untouched_if untouched_if_group untouched_get untouched_keeps [OF view_answer]
        untouched_keeps [OF view_http] untouched_bulk assms)
  then show ?thesis using BulkGroup by (simp add: handle_agents_def)
qed


lemma hidden_not_found:
  assumes "hidden u m s" and "lx_list (se_lxc env) (si_host s) = (Inr ns, w)"
  shows "if_visible env u m body s = (Inr (Inl (HTTPError 404 (''Container '' @ quote_repr m @ '' not found''))), s\<lparr>si_host := w\<rparr>)"
  using assms by (simp add: if_visible_def visible_container_def bind_eff_def on_host_def get_eff_def ret_def http_def hidden_def)

lemma guarded_not_found:
  assumes "hidden u m s" and "lx_list (se_lxc env) (si_host s) = (Inr ns, w)"
  shows "fst (guarded msg (if_visible env u m body) s) = Inr (Inl (HTTPError 404 (''Container '' @ quote_repr m @ '' not found'')))"
  using hidden_not_found [OF assms, of body] by (simp add: guarded_def catch_eff_def)

text \<open>The requests about one container.\<close>

definition about :: "string \<Rightarrow> agent_request set" where
  "about m = {GetAgent m, DeleteAgent m, StartAgent m, StopAgent m} \<union> (\<Union>on p. {SetSyslog on m p})"


definition plain_site_env :: "(string \<times> bool) list site_env" where
  "plain_site_env = \<lparr>se_lxc = plain_host, se_codec = \<lparr>c_dumps = (\<lambda>j. []), c_loads = (\<lambda>s. None)\<rparr>, se_now = ''t'',
     se_loads = (\<lambda>s. None), se_access = True\<rparr>"

definition plain_site :: "(string \<times> bool) list site" where
  "plain_site = \<lparr>si_host = [(''a'', True)], si_fleet = empty_fleet, si_ten = demo_tenancy, si_log = []\<rparr>"


section \<open>Pages\<close>

text \<open>
  Paging loses nothing and repeats nothing: the pages of a size, one after the other until \<open>has_more\<close> is
  false, are the whole list.
\<close>

theorem pages_are_the_list:
  assumes "0 < limit"
  shows "concat (map (\<lambda>k. page (k * limit) limit xs) [0..<n]) = take (n * limit) xs \<and>
    (has_more (n * limit) limit xs \<longleftrightarrow> page (Suc n * limit) limit xs \<noteq> []) \<and>
    (\<not> has_more (n * limit) limit xs \<longrightarrow> concat (map (\<lambda>k. page (k * limit) limit xs) [0..<Suc n]) = xs)"
proof -
  have c: "concat (map (\<lambda>k. page (k * limit) limit xs) [0..<n]) = take (n * limit) xs" for n
  proof (induction n)
    case (Suc n)
    then show ?case by (simp add: page_def take_add [symmetric] add.commute)
  qed simp
  moreover have "has_more (n * limit) limit xs \<longleftrightarrow> page (Suc n * limit) limit xs \<noteq> []"
    using assms by (auto simp: has_more_def page_def add.commute)
  ultimately show ?thesis using c [of "Suc n"] by (auto simp: has_more_def add.commute)
qed

theorem pages_are_the_list_witness:
  "concat (map (\<lambda>k. page (k * 2) 2 ''abc'') [0..<Suc 1]) = ''abc''"
proof -
  have m: "\<not> has_more (1 * 2) 2 ''abc''" by (simp add: has_more_def)
  have "0 < (2::nat)" by simp
  from pages_are_the_list [OF this, where n = 1 and xs = "''abc''"] m show ?thesis by blast
qed

section \<open>Findings on the status of containers\<close>

text \<open>What \<open>write_agent_metadata\<close> is given for an ordinary column is what the row says afterwards.\<close>

definition ordinary_column :: "string \<Rightarrow> bool" where
  "ordinary_column k = (k \<in> set AGENT_COLUMNS \<and>
     k \<notin> set [''seq_id'', ''updated_at'', ''ip_addresses'', ''siem_agent_running'', ''manager_reachable''])"

lemma distinct_metadata: "distinct (map fst (read_agent_metadata c n db))"
proof (cases "find_agent n db")
  case None
  then show ?thesis by (simp add: read_agent_metadata_def get_agent_by_name_def)
next
  case (Some r)
  show ?thesis by (rule stored_data(1) [OF Some])
qed

lemma payload_column:
  assumes "metadata_payload c now n md db = (db1, p)" and "map_of (rev md) k = Some v" and "ordinary_column k"
  shows "map_of p k = Some v \<and> distinct (map fst p)"
proof -
  let ?p0 = "set_cells md (read_agent_metadata c n db)"
  have k: "k \<in> set AGENT_COLUMNS" "k \<noteq> ''seq_id''" "k \<noteq> ''agent_seq_id''"
    using assms(3) by (auto simp: ordinary_column_def AGENT_COLUMNS_def)
  have m: "map_of ?p0 k = Some v" using assms(2) by (simp add: map_of_set_cells)
  have d: "distinct (map fst ?p0)" by (rule distinct_set_cells [OF distinct_metadata])
  obtain q where q: "p = filter (\<lambda>(k, v). k \<in> set AGENT_COLUMNS) (AList.update ''agent_seq_id'' (cell q ''seq_id'') q)"
    and qq: "map_of q k = Some v" "distinct (map fst q)"
  proof -
    define p1 where "p1 = (if map_of ?p0 ''agent_seq_id'' \<noteq> None \<and> map_of ?p0 ''seq_id'' = None
      then AList.update ''seq_id'' (cell ?p0 ''agent_seq_id'') ?p0 else ?p0)"
    define p2 where "p2 = (if cell p1 ''seq_id'' = JNone
      then AList.update ''seq_id'' (JInt (int (snd (get_or_create_agent_seq_id now n db)))) p1 else p1)"
    have "p = filter (\<lambda>(k, v). k \<in> set AGENT_COLUMNS) (AList.update ''agent_seq_id'' (cell p2 ''seq_id'') p2)"
      using assms(1) unfolding metadata_payload_def Let_def p1_def [symmetric] p2_def by (auto split: prod.splits if_splits)
    moreover have "map_of p2 k = Some v" using k m by (simp add: p2_def p1_def update_conv')
    moreover have "distinct (map fst p2)" unfolding p2_def p1_def by (simp add: distinct_update d)
    ultimately show ?thesis using that by blast
  qed
  have "distinct (map fst p)" unfolding q by (intro distinct_filter_keys distinct_update qq)
  moreover have "map_of p k = Some v" unfolding q map_of_filter_keys using k qq by (simp add: update_conv')
  ultimately show ?thesis by blast
qed

lemma metadata_written:
  assumes w: "write_agent_metadata c now n md db = Inr db'" and "map_of (rev md) k = Some v" and o: "ordinary_column k"
  shows "\<exists>r. find_agent n db' = Some r \<and> cell (ag_cols r) k = v"
proof -
  obtain db1 p where e: "metadata_payload c now n md db = (db1, p)" by (cases "metadata_payload c now n md db")
  note pc = payload_column [OF e assms(2) o]
  let ?g = "\<lambda>k v. if k = ''ip_addresses'' then serialize_ips c v
      else if k \<in> {''siem_agent_running'', ''manager_reachable''} then bool_to_int v else v"
  define p' where "p' = map (\<lambda>(k, v). (k, ?g k v)) (AList.update ''updated_at'' (JText now) p)"
  have k: "k \<noteq> ''updated_at''" "?g k v = v" using o by (auto simp: ordinary_column_def)
  have mp: "map_of p' k = Some v" using pc k by (simp add: p'_def map_of_conv update_conv')
  have "distinct (map fst p')" using pc by (simp add: p'_def comp_def case_prod_beta distinct_update)
  then have mr: "map_of (rev p') k = Some v" using mp by (simp add: map_of_rev_distinct)
  have u: "upsert_agent c now n p db1 = Inr db'" using w e by (simp add: write_agent_metadata_def)
  show ?thesis
  proof (cases "n \<in> ag_name ` set (agents db1)")
    case True
    then have db': "db' = db1\<lparr>agents := sql_update (\<lambda>r. ag_name r = n) (\<lambda>r. r\<lparr>ag_cols := set_cells p' (ag_cols r)\<rparr>) (agents db1)\<rparr>"
      using u unfolding upsert_agent_def Let_def p'_def [symmetric] by (auto split: if_splits)
    have "\<exists>r. find (\<lambda>r. ag_name r = n) (sql_update (\<lambda>r. ag_name r = n) (\<lambda>r. r\<lparr>ag_cols := set_cells p' (ag_cols r)\<rparr>) rows) = Some r \<and>
        cell (ag_cols r) k = v" if "n \<in> ag_name ` set rows" for rows :: "agent_row list"
      using that by (induction rows) (auto simp: sql_update_def cell_set_cells mr)
    from this [OF True] show ?thesis unfolding db' by (simp add: find_agent_def fetchone_def)
  next
    case False
    then have db': "db' = db1\<lparr>agents := agents db1 @ [\<lparr>ag_name = n, ag_cols = p'\<rparr>]\<rparr>"
      using u unfolding upsert_agent_def Let_def p'_def [symmetric] by (auto split: if_splits)
    have "find (\<lambda>r. ag_name r = n) (agents db1) = None" using False by (auto simp: find_None_iff)
    then show ?thesis unfolding db' by (simp add: find_agent_def fetchone_def find_append cell_def mp)
  qed
qed

text \<open>Every end of a program that returns satisfies \<open>R\<close>.\<close>

definition ends :: "('a \<Rightarrow> 'w \<Rightarrow> bool) \<Rightarrow> ('a, 'w) eff \<Rightarrow> bool" where
  "ends R m = (\<forall>w x w'. m w = (Inr x, w') \<longrightarrow> R x w')"

lemma ends_bind: "(\<And>x. ends R (f x)) \<Longrightarrow> ends R (bind_eff m f)"
  by (auto simp: ends_def bind_eff_def split: prod.splits sum.splits)

lemma ends_bind_value: "returns Q m \<Longrightarrow> (\<And>x. Q x \<Longrightarrow> ends R (f x)) \<Longrightarrow> ends R (bind_eff m f)"
  unfolding ends_def returns_def bind_eff_def by (auto split: prod.splits sum.splits) (metis fst_conv)

definition seen_state :: "(string \<times> json) list \<Rightarrow> bool" where
  "seen_state i = (cell i ''lifecycle_status'' \<in> {JText ''running'', JText ''stopped''})"

lemma kept_by_updates: "a \<notin> fst ` set ks \<Longrightarrow> cell (foldl (\<lambda>i (k, q). if c k then i else AList.update k (v k q) i) i ks) a = cell i a"
  by (induction ks arbitrary: i) (auto simp: cell_update)

lemma seen_metadata: "cell (with_metadata md i) ''lifecycle_status'' = cell i ''lifecycle_status''"
proof -
  have "''lifecycle_status'' \<notin> set ks \<Longrightarrow> cell (foldl (\<lambda>i k. if cell md k = JNone then i else AList.update k (cell md k) i) i ks)
      ''lifecycle_status'' = cell i ''lifecycle_status''" for ks
    by (induction ks arbitrary: i) (auto simp: cell_update)
  moreover have "''lifecycle_status'' \<notin> set INFO_KEYS" by code_simp
  ultimately show ?thesis unfolding with_metadata_def by blast
qed

lemma seen_status: "seen_state i \<Longrightarrow> seen_state (with_status p i)"
proof -
  have "''lifecycle_status'' \<notin> fst ` set STATUS_KEYS" by code_simp
  from kept_by_updates [OF this, of "\<lambda>k. False" "\<lambda>k. cell p" i]
  have s: "cell (foldl (\<lambda>i (k, q). AList.update k (cell p q) i) i STATUS_KEYS) ''lifecycle_status'' = cell i ''lifecycle_status''"
    by (simp only: if_False)
  show "seen_state i \<Longrightarrow> seen_state (with_status p i)"
    unfolding with_status_def Let_def seen_state_def by (auto simp only: if_split cell_update s split: if_splits)
qed

lemma returns_json:
  "returns P a \<Longrightarrow> (\<And>p. returns P (f p)) \<Longrightarrow> returns P b \<Longrightarrow>
    returns P (case j of None \<Rightarrow> a | Some JNone \<Rightarrow> b | Some (JBool x) \<Rightarrow> b | Some (JInt i) \<Rightarrow> b | Some (JText t) \<Rightarrow> b
      | Some (JArray l) \<Rightarrow> b | Some (JObject p) \<Rightarrow> f p)"
  by (auto split: option.splits json.splits)

lemma seen_read_status: "seen_state i \<Longrightarrow> returns seen_state (read_status env n i)"
  unfolding read_status_def Let_def
  by (intro returns_bind returns_option returns_raise returns_if returns_ret returns_json returns_then) (simp_all add: seen_status)

lemma seen_more: "seen_state i \<Longrightarrow> seen_state (i @ j)"
  by (auto simp: seen_state_def cell_def map_add_def split: option.splits)

lemma info_ends:
  "ends (\<lambda>i s. \<exists>r. find_agent n (si_fleet s) = Some r \<and> seen_state (ag_cols r)) (get_agent_info env d n)"
proof -
  let ?R = "\<lambda>i s. \<exists>r. find_agent n (si_fleet s) = Some r \<and> seen_state (ag_cols r)"
  have last: "ends ?R (then_eff (write_metadata env n (map (\<lambda>k. (k, cell i k)) [''agent_seq_id'', ''lifecycle_status'', ''state'',
      ''init_pid'', ''ip_addresses''])) (ret i))" if i: "seen_state i" for i
  proof -
    let ?md = "map (\<lambda>k. (k, cell i k)) [''agent_seq_id'', ''lifecycle_status'', ''state'', ''init_pid'', ''ip_addresses'']"
    have "map_of (rev ?md) ''lifecycle_status'' = Some (cell i ''lifecycle_status'')" by simp
    note mw = metadata_written [OF _ this]
    have "ordinary_column ''lifecycle_status''" by (simp add: ordinary_column_def AGENT_COLUMNS_def)
    from mw [OF _ this] i show ?thesis
      by (auto simp: ends_def then_eff_def bind_eff_def ret_def write_metadata_def on_fleet_def seen_state_def split: prod.splits sum.splits)
        metis+
  qed
  show ?thesis
    unfolding get_agent_info_def Let_def
    apply (rule ends_bind, rule ends_bind, rule ends_bind, rule ends_bind, rule ends_bind, rule ends_bind)
    apply (rule ends_bind_value [where Q = seen_state])
     apply (rule returns_catch)
      apply (intro returns_bind returns_ret)
      apply (simp add: seen_state_def seen_metadata cell_update cell_def [of "_ # _"] split: option.splits)
     apply (intro returns_ret)
     apply (simp add: seen_state_def seen_metadata cell_def [of "_ # _"])
    apply (rule ends_bind)
    apply (rule ends_bind_value [where Q = seen_state])
     apply (intro returns_if returns_ret seen_read_status; assumption)
    apply (rule ends_bind_value [where Q = seen_state])
     apply (intro returns_if returns_bind returns_ret; simp add: seen_more)
    apply (erule last)
    done
qed

text \<open>
  Looking at a container overwrites its status with whether it runs: what a deployment or a restart had noted
  (starting, interrupted, error) is gone after the next listing, so a restart finds nothing to mark.
\<close>

theorem listing_clears_status:
  assumes "get_agent_info env d n s = (Inr i, s')"
  shows "\<exists>r. find_agent n (si_fleet s') = Some r \<and> seen_state (ag_cols r) \<and>
    (\<forall>a. ag_name a = n \<longrightarrow> find_agent n (fst (recover_interrupted_deployments now (si_fleet s'))) = Some r)"
proof -
  obtain r where r: "find_agent n (si_fleet s') = Some r" "seen_state (ag_cols r)"
    using info_ends [of n env d] assms unfolding ends_def by blast
  then have ns: "\<not> is_text ''starting'' (cell (ag_cols r) ''lifecycle_status'')" by (auto simp: seen_state_def is_text_def)
  have "find (\<lambda>a. ag_name a = n) rows = Some r \<Longrightarrow>
      find (\<lambda>a. ag_name a = n) (sql_update (\<lambda>r. is_text ''starting'' (cell (ag_cols r) ''lifecycle_status'')) f rows) = Some r"
    if "\<And>a. ag_name (f a) = ag_name a" for f and rows :: "agent_row list"
    using ns that by (induction rows) (auto simp: sql_update_def split: if_splits)
  then have "find_agent n (fst (recover_interrupted_deployments now (si_fleet s'))) = Some r"
    using r(1) by (simp add: recover_interrupted_deployments_def mark_agents_interrupted_def Let_def find_agent_def fetchone_def)
  then show ?thesis using r by blast
qed

text \<open>An inactive agent is reported as connected: the text of one contains the text of the other.\<close>

theorem inactive_is_connected:
  assumes "lx_running (se_lxc env) n w = (Inr True, w1)"
    and "execute_in_container (se_lxc env) n (''systemctl is-active wazuh-agent 2>/dev/null || service wazuh-agent status 2>/dev/null || echo ''
      @ quote_repr ''unknown'') 10 w1 = (Inr (Some c), w2)" and "cr_stdout c = ''inactive''"
  shows "\<exists>d. check_siem_connectivity env n w = (Inr d, w2) \<and> cell d ''status'' = JText ''connected''"
proof -
  have "contains ''active'' (py_lower ''inactive'')" by code_simp
  then show ?thesis
    using assms by (simp add: check_siem_connectivity_def catch_eff_def bind_eff_def ret_def Let_def cell_def)
qed

text \<open>
  The configuration names the container, so the type of its agent is read off the name: a container called
  after one product shows as that product whatever runs in it.
\<close>

theorem name_decides_siem: "config_siem (''lxc.uts.name = '' @ ''wazuh-lab-0001'') = Some ''wazuh'' \<and>
    config_siem (''lxc.uts.name = '' @ ''elastic-0001'') = Some ''elastic''"
  by code_simp

end
