(* ===== verification/Deploy_Route.thy ===== *)
theory Deploy_Route
  imports Agents Alerts
begin

text \<open>
  The deployment request of \<^verbatim>\<open>routes/agents.py\<close>, from its progress entry to its announcement: license,
  manager profile, checks, group, limits, owners, numbers, the workers of \<open>Deployment\<close>, and the answer. The
  state is the site with the live progress, the active alerts and what was sent. What the workers did
  to the host and returned for each container, and what happened in each round of the loop, are arguments.
\<close>

record 'w server =
  sv_site :: "'w site"
  sv_jobs :: jobs
  sv_active :: active
  sv_sent :: "notification list"

record deploy_request =
  rq_count :: nat
  rq_profile :: "string option"
  rq_siem_type :: string
  rq_siem_ip :: "string option"
  rq_siem_version :: "string option"
  rq_os_type :: string
  rq_group :: string
  rq_base :: string
  rq_memory :: "string option"
  rq_cpu :: "int option"
  rq_template :: "string option"
  rq_mode :: string
  rq_auto_group :: bool
  rq_auth :: "string option"
  rq_id :: "string option"

text \<open>The request with the fields that a client left out: the defaults of \<open>AgentDeploymentRequest\<close>.\<close>

definition default_request :: "nat \<Rightarrow> deploy_request" where
  "default_request n = \<lparr>rq_count = n, rq_profile = None, rq_siem_type = ''wazuh'', rq_siem_ip = None,
     rq_siem_version = Some ''4.14.2'', rq_os_type = ''ubuntu_22_04'', rq_group = ''default'', rq_base = ''container'',
     rq_memory = Some ''512MB'', rq_cpu = Some 1024, rq_template = None, rq_mode = ''multiprocessing'', rq_auto_group = True,
     rq_auth = None, rq_id = None\<rparr>"

record 'w deploy_setup =
  ds_env :: "'w site_env"
  ds_license :: lic_env
  ds_today :: int
  ds_license_file :: "string option"
  ds_cipher :: cipher
  ds_time :: int
  ds_uuid :: string
  ds_max_workers :: nat
  ds_workers :: "deploy_config \<Rightarrow> (string \<Rightarrow> nat option) \<Rightarrow> 'w \<Rightarrow> (string \<Rightarrow> string + deploy_result) \<times> 'w"
  ds_ticks :: "tick list"
  ds_elapsed :: string
  ds_seconds :: "rat \<Rightarrow> string"

section \<open>Programs on the server\<close>

definition on_site :: "('a, 'w site) eff \<Rightarrow> ('a, 'w server) eff" where
  "on_site m s = (case m (sv_site s) of (r, x) \<Rightarrow> (r, s\<lparr>sv_site := x\<rparr>))"

definition on_jobs :: "(jobs \<Rightarrow> jobs) \<Rightarrow> (unit, 'w server) eff" where
  "on_jobs f = upd_eff (\<lambda>s. s\<lparr>sv_jobs := f (sv_jobs s)\<rparr>)"

text \<open>\<open>raise HTTPException\<close>: the result of a part that may refuse the request.\<close>

type_synonym ('a, 'w) part = "(http_error + 'a, 'w server) eff"

definition refuse :: "nat \<Rightarrow> string \<Rightarrow> ('a, 'w) part" where
  "refuse c d = ret (Inl (HTTPError c d))"

definition pass :: "'a \<Rightarrow> ('a, 'w) part" where
  "pass x = ret (Inr x)"

definition and_then :: "('a, 'w) part \<Rightarrow> ('a \<Rightarrow> ('b, 'w) part) \<Rightarrow> ('b, 'w) part" where
  "and_then m f = bind_eff m (\<lambda>r. case r of Inl e \<Rightarrow> ret (Inl e) | Inr x \<Rightarrow> f x)"

definition plainly :: "('a, 'w server) eff \<Rightarrow> ('a, 'w) part" where
  "plainly m = bind_eff m pass"

definition unless_refused :: "('w server \<Rightarrow> http_error option) \<Rightarrow> (unit, 'w) part" where
  "unless_refused f = bind_eff (get_eff f) (\<lambda>r. case r of None \<Rightarrow> pass () | Some e \<Rightarrow> ret (Inl e))"

definition event :: "'w deploy_setup \<Rightarrow> string \<Rightarrow> string \<Rightarrow> string option \<Rightarrow> string option \<Rightarrow> (unit, 'w) part" where
  "event d i message name status =
     plainly (on_jobs (progress_event (se_now (ds_env d)) i message ''info'' name status None))"

section \<open>Checks\<close>

text \<open>
  A profile's value is used where the request's is missing, empty or one of the three defaults that count
  as not set.
\<close>

definition fill_text :: "(string \<times> json) list \<Rightarrow> string \<Rightarrow> string option \<Rightarrow> string option \<Rightarrow> string option" where
  "fill_text cols key unset v = (case cell cols key of
     JText t \<Rightarrow> if t \<noteq> [] \<and> (v = None \<or> v = Some [] \<or> unset \<noteq> None \<and> v = unset) then Some t else v
   | _ \<Rightarrow> v)"

definition fill_int :: "(string \<times> json) list \<Rightarrow> string \<Rightarrow> int option \<Rightarrow> int option" where
  "fill_int cols key v = (case cell cols key of JInt i \<Rightarrow> if i \<noteq> 0 \<and> v = None then Some i else v | _ \<Rightarrow> v)"

definition fill_profile :: "(string \<times> json) list \<Rightarrow> deploy_request \<Rightarrow> deploy_request" where
  "fill_profile cols q = q\<lparr>
     rq_siem_type := the (fill_text cols ''siem_type'' (Some ''wazuh'') (Some (rq_siem_type q))),
     rq_siem_ip := fill_text cols ''siem_ip'' None (rq_siem_ip q),
     rq_siem_version := fill_text cols ''siem_version'' None (rq_siem_version q),
     rq_auth := fill_text cols ''siem_auth_key'' None (rq_auth q),
     rq_os_type := the (fill_text cols ''os_type'' (Some ''ubuntu_22_04'') (Some (rq_os_type q))),
     rq_group := the (fill_text cols ''agent_group'' (Some ''default'') (Some (rq_group q))),
     rq_memory := fill_text cols ''memory_limit'' None (rq_memory q),
     rq_cpu := fill_int cols ''cpu_shares'' (rq_cpu q),
     rq_template := fill_text cols ''config_template_id'' None (rq_template q)\<rparr>"

definition load_profile :: "'w deploy_setup \<Rightarrow> string \<Rightarrow> deploy_request \<Rightarrow> (deploy_request, 'w) part" where
  "load_profile d i q = (if \<not> is_given (rq_profile q) then pass q
     else let p = the (rq_profile q) in
       bind_eff (get_eff (\<lambda>s. get_manager (ds_cipher d) p (si_fleet (sv_site s)))) (\<lambda>m. case m of
         None \<Rightarrow> refuse 404 (''Manager profile '' @ quote_repr p @ '' not found'')
       | Some r \<Rightarrow> and_then (event d i (''Loaded manager profile '' @ quote_repr (case cell (mg_cols r) ''name'' of JText t \<Rightarrow> t | _ \<Rightarrow> p)) None None)
           (\<lambda>_. pass (fill_profile (mg_cols r) q))))"

definition check_request :: "deploy_request \<Rightarrow> http_error option" where
  "check_request q =
     (if rq_siem_type q = ''ossim'' then Some (HTTPError 400 (''OSSIM is no longer supported (the product was retired in '' @
        ''2024). Change the manager profile's SIEM type.''))
      else if rq_siem_type q \<noteq> ''none'' \<and> \<not> is_given (rq_siem_ip q)
        then Some (HTTPError 400 ''siem_ip is required when deploying a SIEM agent'')
      else if rq_siem_type q \<in> set [''utmstack'', ''elastic''] \<and> \<not> is_given (rq_auth q)
        then Some (HTTPError 400 (if is_given (rq_profile q)
          then ''The manager profile's auth key can't be read (the secret key changed?); re-enter it in the profile''
          else ''siem_auth_key is required for UTMstack and Elastic deployments''))
      else None)"

definition ensure_group :: "'w deploy_setup \<Rightarrow> string \<Rightarrow> deploy_request \<Rightarrow> (unit, 'w) part" where
  "ensure_group d i q =
     bind_eff (get_eff (\<lambda>s. rq_group q \<noteq> [] \<and> \<not> group_exists (rq_group q) (si_fleet (sv_site s)))) (\<lambda>missing.
       if \<not> missing then pass ()
       else if \<not> rq_auto_group q then refuse 400 ''Container group not found''
       else then_eff (on_site (on_fleet (\<lambda>db. case create_group (se_now (ds_env d)) (rq_group q) (Some ''Auto-created during deployment'') db of
              Inl e \<Rightarrow> Inl e | Inr (db', g) \<Rightarrow> Inr (g, db'))))
         (then_eff (on_site (log_action ''group_auto_created'' [(''group'', JText (rq_group q))] ''success''))
           (event d i (''Created group '' @ quote_repr (rq_group q)) None None)))"

section \<open>Names, limits and numbers\<close>

text \<open>\<open>f"{base}-{i:04d}"\<close> for the numbers from 1.\<close>

definition container_names :: "string \<Rightarrow> nat \<Rightarrow> string list" where
  "container_names base n = map (\<lambda>i. base @ ''-'' @ zfill 4 (nat_str i)) [1..<n + 1]"

definition reserve :: "'w deploy_setup \<Rightarrow> user option \<Rightarrow> string list \<Rightarrow> (unit, 'w) part" where
  "reserve d u names =
     bind_eff (on_site (on_host (lx_list (se_lxc (ds_env d))))) (\<lambda>existing.
       let fresh = filter (\<lambda>n. n \<notin> set existing) names; k = int (length fresh) in
       and_then (unless_refused (\<lambda>s. require_license (ds_license d) (ds_today d) (acc (si_ten (sv_site s))) (ds_license_file d)
         k (int (length (remdups existing))))) (\<lambda>_.
       and_then (unless_refused (\<lambda>s. check_quota u k (remdups existing) (si_ten (sv_site s)))) (\<lambda>_.
         (\<lambda>s. case record_owner (ds_time d) fresh u (si_ten (sv_site s)) of
            Inl e \<Rightarrow> (Inl ''FOREIGN KEY constraint failed'', s)
          | Inr t \<Rightarrow> (Inr (Inr ()), s\<lparr>sv_site := (sv_site s)\<lparr>si_ten := t\<rparr>\<rparr>)))))"

definition queued_metadata :: "deploy_request \<Rightarrow> nat \<Rightarrow> (string \<times> json) list" where
  "queued_metadata q k = [(''agent_seq_id'', JInt (int k)), (''siem_type'', JText (rq_siem_type q)), (''siem_ip'', opt_json (rq_siem_ip q)),
     (''siem_version'', opt_json (rq_siem_version q)), (''agent_group'', JText (rq_group q)), (''os_type'', JText (rq_os_type q)),
     (''config_template_id'', opt_json (rq_template q)), (''lifecycle_status'', JText ''starting'')]"

primrec queue_names :: "'w deploy_setup \<Rightarrow> string \<Rightarrow> deploy_request \<Rightarrow> string list \<Rightarrow> ((string \<times> nat) list, 'w) part" where
  "queue_names d i q [] = pass []"
| "queue_names d i q (n # ns) =
     and_then (event d i ''Queued'' (Some n) (Some ''pending'')) (\<lambda>_.
     bind_eff (on_site (on_fleet (\<lambda>db. case get_or_create_agent_seq_id (se_now (ds_env d)) n db of (db', k) \<Rightarrow> Inr (k, db')))) (\<lambda>k.
     then_eff (on_site (write_metadata (ds_env d) n (queued_metadata q k)))
     (and_then (queue_names d i q ns) (\<lambda>ks. pass ((n, k) # ks)))))"

definition deploy_dict :: "deploy_request \<Rightarrow> deploy_config" where
  "deploy_dict q = \<lparr>dc_siem_type = rq_siem_type q, dc_siem_ip = rq_siem_ip q, dc_siem_version = rq_siem_version q,
     dc_os_type = rq_os_type q, dc_agent_group = rq_group q, dc_memory_limit = rq_memory q, dc_cpu_shares = rq_cpu q,
     dc_template = rq_template q, dc_auth_key = rq_auth q\<rparr>"

text \<open>Everything before the workers are launched.\<close>

definition prepare :: "'w deploy_setup \<Rightarrow> user option \<Rightarrow> string \<Rightarrow> deploy_request \<Rightarrow> (deploy_request \<times> (string \<times> nat) list, 'w) part" where
  "prepare d u i q0 =
     and_then (unless_refused (\<lambda>s. require_license (ds_license d) (ds_today d) (acc (si_ten (sv_site s))) (ds_license_file d) 0 0)) (\<lambda>_.
     and_then (load_profile d i q0) (\<lambda>q.
     and_then (unless_refused (\<lambda>s. check_request q)) (\<lambda>_.
     and_then (ensure_group d i q) (\<lambda>_.
     then_eff (on_site (log_action ''container_deployment_started'' [(''count'', JInt (int (rq_count q))), (''siem_type'', JText (rq_siem_type q)),
       (''siem_ip'', opt_json (rq_siem_ip q)), (''os_type'', JText (rq_os_type q))] ''success''))
     (let names = container_names (rq_base q) (rq_count q) in
      and_then (reserve d u names) (\<lambda>_. and_then (queue_names d i q names) (\<lambda>seqs. pass (q, seqs))))))))"


section \<open>The workers and the answer\<close>

definition run_env :: "'w deploy_setup \<Rightarrow> string \<Rightarrow> deploy_request \<Rightarrow> (string \<Rightarrow> nat option) \<Rightarrow> nat \<Rightarrow> (string \<Rightarrow> string + deploy_result) \<Rightarrow> deploy_env" where
  "run_env d i q seqs n outcome = \<lparr>en_id = i, en_workers = worker_count (ds_max_workers d) (rq_mode q) n, en_seq = seqs,
     en_outcome = outcome, en_siem = Some (rq_siem_type q), en_codec = se_codec (ds_env d), en_seconds = ds_seconds d\<rparr>"

text \<open>\<open>None\<close>: the rounds given do not end the loop. An executor that refuses work raises.\<close>

definition launch ::
  "'w deploy_setup \<Rightarrow> string \<Rightarrow> deploy_request \<Rightarrow> (string \<times> nat) list \<Rightarrow> 'w server \<Rightarrow> (string + run) option \<times> 'w server" where
  "launch d i q seqs s =
     (let names = map fst seqs; k = worker_count (ds_max_workers d) (rq_mode q) (length names);
          jobs = progress_event (se_now (ds_env d)) i (''Launching '' @ nat_str k @ '' deployment worker'' @
            (if k \<noteq> 1 then ''s'' else []) @ '' ('' @ rq_mode q @ '')'') ''info'' None None None (sv_jobs s)
      in case ds_workers d (deploy_dict q) (map_of seqs) (si_host (sv_site s)) of (outcome, host) \<Rightarrow>
         case run_deployment_workers (run_env d i q (map_of seqs) (length names) outcome) names (ds_ticks d) jobs (si_fleet (sv_site s)) of
           (ru, raised) \<Rightarrow>
           let s' = s\<lparr>sv_site := (sv_site s)\<lparr>si_host := host, si_fleet := ru_fleet ru\<rparr>, sv_jobs := ru_jobs ru\<rparr> in
           if raised then (Some (Inl ''A child process terminated abruptly, the process pool is not usable anymore''), s')
           else if finished_run ru then (Some (Inr ru), s') else (None, s'))"

definition finished_notification :: "string \<Rightarrow> string \<Rightarrow> nat \<Rightarrow> nat \<Rightarrow> nat \<Rightarrow> string \<Rightarrow> string \<Rightarrow> string option \<Rightarrow> notification" where
  "finished_notification i outcome requested successful failed elapsed siem err =
     \<lparr>nt_event = ''deployment.finished'',
      nt_title = ''Deployment '' @ (if outcome = ''completed'' then ''succeeded'' else if outcome = ''partial'' then ''partly failed'' else ''failed'')
        @ '': '' @ nat_str successful @ ''/'' @ nat_str requested @ '' containers'',
      nt_text = (if is_given err then ''First error: '' @ the err else []),
      nt_level = (if outcome = ''completed'' then ''success'' else if outcome = ''partial'' then ''warning'' else ''error''),
      nt_fields = [(''deployment_id'', JText i), (''siem_type'', JText siem), (''successful'', JInt (int successful)),
        (''failed'', JInt (int failed)), (''duration'', JText (elapsed @ '' s''))],
      nt_link = ''/deploy''\<rparr>"

definition announce ::
  "'w deploy_setup \<Rightarrow> string \<Rightarrow> string \<Rightarrow> nat \<Rightarrow> nat \<Rightarrow> nat \<Rightarrow> string \<Rightarrow> string option \<Rightarrow> 'w server \<Rightarrow> 'w server" where
  "announce d i outcome requested successful failed siem err s =
     (case deployment_finished (ds_time d) i requested successful failed err (sv_active s) of (act, ns) \<Rightarrow>
       s\<lparr>sv_active := act, sv_sent := sv_sent s @ ns @
         [finished_notification i outcome requested successful failed (ds_elapsed d) siem err]\<rparr>)"

definition finish_progress :: "'w deploy_setup \<Rightarrow> string \<Rightarrow> string \<Rightarrow> string \<Rightarrow> string \<Rightarrow> 'w server \<Rightarrow> 'w server" where
  "finish_progress d i status message level s = s\<lparr>sv_jobs := progress_finish (se_now (ds_env d)) i status message level (sv_jobs s)\<rparr>"

definition log_server :: "string \<Rightarrow> (string \<times> json) list \<Rightarrow> string \<Rightarrow> 'w server \<Rightarrow> 'w server" where
  "log_server a det st s = s\<lparr>sv_site := snd (log_action a det st (sv_site s))\<rparr>"

definition result_json :: "deploy_result \<Rightarrow> json" where
  "result_json r = JObject [(''agent_name'', JText (dr_name r)), (''agent_seq_id'', seq_json (dr_seq r)), (''success'', JBool (dr_success r)),
     (''error'', opt_json (dr_error r)), (''ip_address'', opt_json (dr_ip r)), (''message'', opt_json (dr_install_message r))]"

definition conclude :: "'w deploy_setup \<Rightarrow> string \<Rightarrow> deploy_request \<Rightarrow> run \<Rightarrow> 'w server \<Rightarrow> api_response \<times> 'w server" where
  "conclude d i q ru s =
     (let good = filter dr_success (ru_results ru); bad = filter (\<lambda>r. \<not> dr_success r) (ru_results ru);
          outcome = (if bad = [] then ''completed'' else if good = [] then ''failed'' else ''partial'');
          message = ''Deployed '' @ nat_str (length good) @ ''/'' @ nat_str (rq_count q) @ '' containers in '' @ ds_elapsed d @ ''s'';
          s1 = log_server ''container_deployment_completed'' [(''total_requested'', JInt (int (rq_count q))),
            (''successful'', JInt (int (length good))), (''failed'', JInt (int (length bad)))] (if bad = [] then ''success'' else ''partial'') s;
          s2 = finish_progress d i outcome message (if bad = [] then ''success'' else ''error'') s1;
          s3 = announce d i outcome (rq_count q) (length good) (length bad) (rq_siem_type q)
            (case bad of [] \<Rightarrow> None | r # _ \<Rightarrow> dr_error r) s2
      in (\<lparr>rs_success = (bad = []), rs_message = message,
           rs_data = JObject [(''deployment_id'', JText i), (''total_requested'', JInt (int (rq_count q))),
             (''successful'', JInt (int (length good))), (''failed'', JInt (int (length bad))),
             (''deployed_agents'', JArray (map result_json good)), (''failed_agents'', JArray (map result_json bad)),
             (''warnings'', JArray (map JText (ru_warnings ru))),
             (''siem_mapping'', JObject [(''siem_type'', JText (rq_siem_type q)), (''siem_ip'', opt_json (rq_siem_ip q)),
                (''siem_version'', opt_json (rq_siem_version q)), (''agent_group'', JText (rq_group q))])],
           rs_error = (if bad \<noteq> [] then Some (nat_str (length bad) @ '' containers failed'') else None)\<rparr>, s3))"

text \<open>\<open>except HTTPException\<close> and \<open>except Exception\<close>.\<close>

definition rejected :: "'w deploy_setup \<Rightarrow> string \<Rightarrow> http_error \<Rightarrow> 'w server \<Rightarrow> 'w server" where
  "rejected d i e s = finish_progress d i ''failed'' (''Deployment rejected: '' @ detail e) ''error'' s"

definition crashed :: "'w deploy_setup \<Rightarrow> string \<Rightarrow> deploy_request \<Rightarrow> string \<Rightarrow> 'w server \<Rightarrow> api_response \<times> 'w server" where
  "crashed d i q e s =
     (let s1 = log_server ''container_deployment_failed'' [(''error'', JText e)] ''error'' s;
          s2 = finish_progress d i ''failed'' (''Deployment failed: '' @ e) ''error'' s1;
          s3 = announce d i ''failed'' (rq_count q) 0 (rq_count q) (rq_siem_type q) (Some e) s2
      in (\<lparr>rs_success = False, rs_message = ''Container deployment failed'', rs_data = JNone, rs_error = Some e\<rparr>, s3))"

definition begin_deployment :: "'w deploy_setup \<Rightarrow> string \<Rightarrow> deploy_request \<Rightarrow> 'w server \<Rightarrow> 'w server" where
  "begin_deployment d i q s =
     (let now = se_now (ds_env d) in s\<lparr>sv_jobs := progress_event now i (''Deployment request received ('' @ nat_str (rq_count q) @ '' container'' @
        (if rq_count q \<noteq> 1 then ''s'' else []) @ '')'') ''info'' None None None (progress_start now i (rq_count q) (rq_siem_type q) (sv_jobs s))\<rparr>)"

definition deployment_id :: "'w deploy_setup \<Rightarrow> deploy_request \<Rightarrow> string" where
  "deployment_id d q = or_default (rq_id q) (ds_uuid d)"

text \<open>The request object as the handler of an exception finds it: filled from its profile, which came first.\<close>

definition profile_request :: "'w deploy_setup \<Rightarrow> deploy_request \<Rightarrow> 'w server \<Rightarrow> deploy_request" where
  "profile_request d q s = (if \<not> is_given (rq_profile q) then q
     else case get_manager (ds_cipher d) (the (rq_profile q)) (si_fleet (sv_site s)) of
       None \<Rightarrow> q | Some r \<Rightarrow> fill_profile (mg_cols r) q)"

definition deploy_agents ::
  "'w deploy_setup \<Rightarrow> user option \<Rightarrow> deploy_request \<Rightarrow> 'w server \<Rightarrow> (http_error + api_response) option \<times> 'w server" where
  "deploy_agents d u q0 s =
     (if \<not> se_access (ds_env d) then (Some (Inl (HTTPError 403
        ''Container operations need root or the habeny LXC helper (HABENY_LXC_BACKEND=helper).'')), s)
      else let i = deployment_id d q0; s0 = begin_deployment d i q0 s in
        case prepare d u i q0 s0 of
          (Inl e, s1) \<Rightarrow> (case crashed d i (profile_request d q0 s1) e s1 of (r, s2) \<Rightarrow> (Some (Inr r), s2))
        | (Inr (Inl e), s1) \<Rightarrow> (Some (Inl e), rejected d i e s1)
        | (Inr (Inr (q, seqs)), s1) \<Rightarrow>
            (case launch d i q seqs s1 of
               (None, s2) \<Rightarrow> (None, s2)
             | (Some (Inl e), s2) \<Rightarrow> (case crashed d i q e s2 of (r, s3) \<Rightarrow> (Some (Inr r), s3))
             | (Some (Inr ru), s2) \<Rightarrow> (case conclude d i q ru s2 of (r, s3) \<Rightarrow> (Some (Inr r), s3))))"


section \<open>The progress of a request\<close>

definition tally :: "string \<Rightarrow> 'w server \<Rightarrow> (nat \<times> nat \<times> nat \<times> nat) option" where
  "tally i s = counts i (sv_jobs s)"

lemma keeps_on_site: "(\<And>s x. v (s\<lparr>sv_site := x\<rparr>) = v s) \<Longrightarrow> keeps v (on_site m)"
  by (auto simp: keeps_def on_site_def split: prod.splits)

lemma keeps_pass [inv_intros]: "keeps v (pass x)"
  unfolding pass_def by (rule keeps_ret)

lemma keeps_refuse [inv_intros]: "keeps v (refuse c d)"
  unfolding refuse_def by (rule keeps_ret)

lemma keeps_and_then [inv_intros]: "keeps v m \<Longrightarrow> (\<And>x. keeps v (f x)) \<Longrightarrow> keeps v (and_then m f)"
  unfolding and_then_def by (rule keeps_bind) (auto intro: keeps_ret split: sum.splits)

lemma keeps_unless [inv_intros]: "keeps v (unless_refused f)"
  unfolding unless_refused_def by (intro inv_intros)

lemma tally_event [inv_intros]: "st \<notin> {Some ''success'', Some ''failed''} \<Longrightarrow> keeps (tally i) (event d j m n st)"
  unfolding event_def plainly_def on_jobs_def
proof (intro inv_intros keeps_upd)
  fix s :: "'a server"
  assume "st \<notin> {Some ''success'', Some ''failed''}"
  then show "tally i (s\<lparr>sv_jobs := progress_event (se_now (ds_env d)) j m ''info'' n st None (sv_jobs s)\<rparr>) = tally i s"
    by (cases "i = j") (auto simp: tally_def counts_event counts_other option.map_ident prod.case_eq_if option.map_id)
qed

lemma tally_site [inv_intros]: "keeps (tally i) (on_site m)"
  by (rule keeps_on_site) (simp add: tally_def)

lemma tally_profile [inv_intros]: "keeps (tally i) (load_profile d j q)"
  unfolding load_profile_def Let_def by (intro inv_intros) auto

lemma tally_group [inv_intros]: "keeps (tally i) (ensure_group d j q)"
  unfolding ensure_group_def by (intro inv_intros) auto

lemma tally_reserve [inv_intros]: "keeps (tally i) (reserve d u ns)"
  unfolding reserve_def Let_def
  by (intro inv_intros) (auto simp: keeps_def tally_def split: sum.splits)

lemma tally_queue [inv_intros]: "keeps (tally i) (queue_names d j q ns)"
  by (induction ns) (auto intro!: keeps_and_then keeps_bind keeps_then keeps_pass tally_event tally_site)

lemma tally_prepare: "keeps (tally i) (prepare d u j q)"
  unfolding prepare_def Let_def by (intro inv_intros)

text \<open>What is prepared: the request filled from its profile and its names in order.\<close>

lemma returns_and_then: "(\<And>x. returns P (f x)) \<Longrightarrow> (\<And>e. P (Inl e)) \<Longrightarrow> returns P (and_then m f)"
  unfolding and_then_def by (rule returns_bind) (auto intro: returns_ret split: sum.splits)

lemma returns_part:
  assumes "returns (\<lambda>r. \<forall>x. r = Inr x \<longrightarrow> Q x) m" and "\<And>x. Q x \<Longrightarrow> returns P (f x)" and "\<And>e. P (Inl e)"
  shows "returns P (and_then m f)"
  using assms unfolding returns_def and_then_def bind_eff_def ret_def
  by (auto split: prod.splits sum.splits) (metis fst_conv)+

lemma queue_returns: "returns (\<lambda>r. \<forall>x. r = Inr x \<longrightarrow> map fst x = ns) (queue_names d i q ns)"
proof (induction ns)
  case (Cons n ns)
  show ?case
    by (auto intro!: returns_and_then returns_bind returns_then returns_part [OF Cons.IH] returns_ret simp: pass_def)
qed (auto intro: returns_ret simp: pass_def)

lemma profile_returns: "returns (\<lambda>r. \<forall>x. r = Inr x \<longrightarrow> rq_count x = rq_count q) (load_profile d i q)"
  unfolding load_profile_def Let_def
  by (auto intro!: returns_if returns_bind returns_option returns_and_then returns_ret simp: pass_def refuse_def fill_profile_def)

lemma prepare_returns:
  "returns (\<lambda>r. \<forall>x. r = Inr x \<longrightarrow> rq_count (fst x) = rq_count q \<and> (\<exists>base. map fst (snd x) = container_names base (rq_count q)))
     (prepare d u i q)"
  unfolding prepare_def Let_def
  by (auto intro!: returns_and_then returns_then returns_part [OF profile_returns] returns_part [OF queue_returns] returns_ret simp: pass_def)


lemma finish_facts:
  assumes "counts i jobs = Some (n, c, a, b)"
  shows "\<exists>j. map_of (progress_finish now i st m l jobs) i = Some j \<and> jb_status j = st \<and> jb_finished j = Some now \<and>
    jb_total j = n \<and> jb_completed j = c \<and> jb_successful j = a \<and> jb_failed j = b"
proof -
  have "counts i (progress_event now i m l None None None jobs) = Some (n, c, a, b)" using assms by (simp add: counts_event)
  then obtain j where "map_of (progress_event now i m l None None None jobs) i = Some j" "jb_total j = n" "jb_completed j = c"
    "jb_successful j = a" "jb_failed j = b" by (auto simp: counts_def)
  then show ?thesis by (simp add: progress_finish_def Let_def update_conv')
qed

text \<open>Also a loop that raises keeps the number of containers the progress tells.\<close>

definition totals :: "string \<Rightarrow> jobs \<Rightarrow> nat option" where
  "totals i jobs = map_option fst (counts i jobs)"

lemma totals_event [simp]: "totals i (progress_event now i m l nm st err jobs) = totals i jobs"
  unfolding totals_def counts_event by (cases "counts i jobs") (simp_all split: if_split prod.split)

lemma totals_record_all: "totals (en_id e) (ru_jobs (record_all e now rs ru)) = totals (en_id e) (ru_jobs ru)"
proof -
  have "totals (en_id e) (ru_jobs (record_result e now r ru)) = totals (en_id e) (ru_jobs ru)" for r ru
    by (simp add: record_result_def Let_def)
  then show ?thesis by (induction rs arbitrary: ru) auto
qed

lemma totals_round: "totals (en_id e) (ru_jobs (fst (deploy_round e t ru))) = totals (en_id e) (ru_jobs ru)"
proof -
  have d: "totals (en_id e) (ru_jobs (drain e now ms ru)) = totals (en_id e) (ru_jobs ru)" for now ms ru
    by (simp add: totals_def)
  have "totals (en_id e) (ru_jobs (fst (note_stop e t ru))) = totals (en_id e) (ru_jobs ru)"
    by (simp add: note_stop_def Let_def totals_record_all)
  then show ?thesis
    by (auto simp: deploy_round_def Let_def totals_record_all d split: prod.splits)
qed

lemma totals_rounds: "totals (en_id e) (ru_jobs (fst (deploy_rounds e ts ru))) = totals (en_id e) (ru_jobs ru)"
proof (induction e ts ru rule: deploy_rounds.induct)
  case (2 e t ts ru)
  then show ?case using totals_round [of e t ru] by (auto split: prod.splits)
qed simp

lemma tally_announce [simp]: "sv_jobs (announce d i o' r a b siem err s) = sv_jobs s"
  by (simp add: announce_def split: prod.splits)

lemma log_server_jobs [simp]: "sv_jobs (log_server a det st s) = sv_jobs s"
  by (simp add: log_server_def)

lemma name_not_empty: "[] \<notin> set (container_names base n)"
  by (auto simp: container_names_def)

lemma length_names: "length (container_names base n) = n"
  by (simp add: container_names_def)

lemma finish_progress_jobs: "sv_jobs (finish_progress d i st m l s) = progress_finish (se_now (ds_env d)) i st m l (sv_jobs s)"
  by (simp add: finish_progress_def)

lemma conclude_jobs:
  "\<exists>m l. sv_jobs (snd (conclude d i q ru s)) = progress_finish (se_now (ds_env d)) i
     (if filter (\<lambda>r. \<not> dr_success r) (ru_results ru) = [] then ''completed''
      else if filter dr_success (ru_results ru) = [] then ''failed'' else ''partial'') m l (sv_jobs s)"
  unfolding conclude_def Let_def snd_conv tally_announce finish_progress_jobs log_server_jobs by blast

definition honest_workers :: "'w deploy_setup \<Rightarrow> bool" where
  "honest_workers d = (\<forall>cfg seqs w n r. fst (ds_workers d cfg seqs w) n = Inr r \<longrightarrow> dr_name r = n)"

lemma launch_facts:
  assumes t: "counts i (sv_jobs s) = Some (length seqs, 0, 0, 0)" and h: "honest_workers d" and n: "[] \<notin> set (map fst seqs)"
    and l: "launch d i q seqs s = (r, s')"
  shows "totals i (sv_jobs s') = Some (length seqs) \<and> (\<forall>ru. r = Some (Inr ru) \<longrightarrow>
      counts i (sv_jobs s') = Some (length seqs, length seqs, succeeded (ru_results ru), failures (ru_results ru)) \<and>
      succeeded (ru_results ru) + failures (ru_results ru) = length seqs)"
proof -
  let ?k = "worker_count (ds_max_workers d) (rq_mode q) (length seqs)"
  let ?jobs = "progress_event (se_now (ds_env d)) i (''Launching '' @ nat_str ?k @ '' deployment worker'' @
            (if ?k \<noteq> 1 then ''s'' else []) @ '' ('' @ rq_mode q @ '')'') ''info'' None None None (sv_jobs s)"
  obtain outcome host where w: "ds_workers d (deploy_dict q) (map_of seqs) (si_host (sv_site s)) = (outcome, host)"
    by (cases "ds_workers d (deploy_dict q) (map_of seqs) (si_host (sv_site s))")
  let ?e = "run_env d i q (map_of seqs) (length seqs) outcome"
  obtain ru raised where run: "run_deployment_workers ?e (map fst seqs) (ds_ticks d) ?jobs (si_fleet (sv_site s)) = (ru, raised)"
    by (cases "run_deployment_workers ?e (map fst seqs) (ds_ticks d) ?jobs (si_fleet (sv_site s))")
  have id: "en_id ?e = i" by (simp add: run_env_def)
  have c: "counts (en_id ?e) ?jobs = Some (length (map fst seqs), 0, 0, 0)" using t by (simp add: id counts_event)
  have wn: "well_named ?e" using h w by (auto simp: well_named_def run_env_def honest_workers_def dest: spec) (metis fst_conv)
  have s': "sv_jobs s' = ru_jobs ru" and r: "\<forall>ru'. r = Some (Inr ru') \<longrightarrow> ru' = ru \<and> \<not> raised \<and> finished_run ru"
    using l w run by (auto simp: launch_def Let_def split: if_splits)
  have "totals (en_id ?e) (ru_jobs ru) = totals (en_id ?e) ?jobs"
    using totals_rounds [of ?e "ds_ticks d" "start_run (map fst seqs) ?jobs (si_fleet (sv_site s))"] run
    by (simp add: run_deployment_workers_def start_run_def)
  also have "\<dots> = totals i (sv_jobs s)" unfolding id by (rule totals_event)
  also have "\<dots> = Some (length seqs)" using t by (simp add: totals_def)
  finally have tot: "totals i (sv_jobs s') = Some (length seqs)" using s' by (simp add: id)
  have "counts i (ru_jobs ru) = Some (length seqs, length seqs, succeeded (ru_results ru), failures (ru_results ru)) \<and>
      succeeded (ru_results ru) + failures (ru_results ru) = length seqs" if "\<not> raised" "finished_run ru"
  proof -
    have run': "run_deployment_workers ?e (map fst seqs) (ds_ticks d) ?jobs (si_fleet (sv_site s)) = (ru, False)" using run that by simp
    from deployment_accounts [OF wn n c run'] that(2)
    have "counts (en_id ?e) (ru_jobs ru) = Some (length (map fst seqs), length (ru_results ru), succeeded (ru_results ru), failures (ru_results ru))"
      and s: "succeeded (ru_results ru) + failures (ru_results ru) = length (ru_results ru)"
      and m: "mset (map dr_name (ru_results ru)) = mset (map fst seqs)" by blast+
    moreover from m have "length (ru_results ru) = length seqs" by (metis length_map size_mset)
    ultimately show ?thesis by (simp add: id)
  qed
  then show ?thesis using tot r s' by auto
qed


lemma begin_counts:
  "distinct (map fst (sv_jobs s)) \<Longrightarrow> counts i (sv_jobs (begin_deployment d i q s)) = Some (rq_count q, 0, 0, 0)"
  by (simp add: begin_deployment_def Let_def counts_event counts_progress_start)



definition plain_setup :: "(string \<times> bool) list deploy_setup" where
  "plain_setup = \<lparr>ds_env = plain_site_env,
     ds_license = \<lparr>l_keys = [], l_b64 = (\<lambda>s. None), l_loads = (\<lambda>s. None), l_verifies = (\<lambda>k m s. False), l_date = (\<lambda>s. None), l_server = ''s''\<rparr>,
     ds_today = 0, ds_license_file = None, ds_cipher = \<lparr>ci_enc = rev, ci_dec = (\<lambda>s. Some (rev s))\<rparr>, ds_time = 0, ds_uuid = ''d'',
     ds_max_workers = 4, ds_workers = (\<lambda>cfg seqs w. (\<lambda>n. Inl ''stopped'', w)), ds_ticks = [plain_tick], ds_elapsed = ''0.1'',
     ds_seconds = (\<lambda>t. ''0.1'')\<rparr>"

definition plain_server :: "(string \<times> bool) list server" where
  "plain_server = \<lparr>sv_site = plain_site, sv_jobs = [], sv_active = [], sv_sent = []\<rparr>"

lemma plain_refused:
  "\<exists>s'. deploy_agents plain_setup None (default_request 3) plain_server =
     (Some (Inl (HTTPError 400 ''siem_ip is required when deploying a SIEM agent'')), s')"
  by (simp add: deploy_agents_def plain_setup_def plain_site_env_def prepare_def and_then_def bind_eff_def unless_refused_def get_eff_def
    require_license_def enforced_def load_profile_def default_request_def is_given_def check_request_def pass_def ret_def Let_def)


section \<open>Refused deployments\<close>

text \<open>A part that refuses leaves a view of the state as it was; a part that never refuses.\<close>

definition clean :: "('w server \<Rightarrow> 'x) \<Rightarrow> ('a, 'w) part \<Rightarrow> bool" where
  "clean v p = (\<forall>s e s'. p s = (Inr (Inl e), s') \<longrightarrow> v s' = v s)"

definition accepting :: "('a, 'w) part \<Rightarrow> bool" where
  "accepting p = returns (\<lambda>r. \<exists>x. r = Inr x) p"

lemma clean_keeps: "keeps v p \<Longrightarrow> clean v p"
  by (auto simp: clean_def dest: keepsD)

lemma clean_and_then: "keeps v m \<Longrightarrow> (\<And>x. clean v (f x)) \<Longrightarrow> clean v (and_then m f)"
  unfolding clean_def and_then_def bind_eff_def ret_def
  by (auto split: prod.splits sum.splits dest: keepsD) (metis keepsD)?

lemma clean_bind: "keeps v m \<Longrightarrow> (\<And>x. clean v (f x)) \<Longrightarrow> clean v (bind_eff m f)"
  unfolding clean_def bind_eff_def by (auto split: prod.splits sum.splits) (metis keepsD)

lemma accepting_pass: "accepting (pass x)"
  by (simp add: accepting_def pass_def returns_ret)

lemma accepting_bind: "(\<And>x. accepting (f x)) \<Longrightarrow> accepting (bind_eff m f)"
  unfolding accepting_def by (rule returns_bind)

lemma accepting_event: "accepting (event d i m n st)"
  unfolding event_def plainly_def by (intro accepting_bind accepting_pass)

lemma accepting_and_then: "accepting m \<Longrightarrow> (\<And>x. accepting (f x)) \<Longrightarrow> accepting (and_then m f)"
  unfolding accepting_def and_then_def returns_def bind_eff_def ret_def
  by (auto split: prod.splits sum.splits) (metis Inl_Inr_False fst_conv)+

lemma accepting_queue: "accepting (queue_names d i q ns)"
  by (induction ns) (auto simp: then_eff_def intro!: accepting_pass accepting_event accepting_and_then accepting_bind)

lemma clean_accepting: "clean v m \<Longrightarrow> (\<And>x. accepting (f x)) \<Longrightarrow> clean v (and_then m f)"
  unfolding clean_def accepting_def returns_def and_then_def bind_eff_def ret_def
  by (auto split: prod.splits sum.splits) (metis Inl_Inr_False fst_conv)+

text \<open>What a refusal must not change: the containers of the host, their rows and their owners.\<close>

definition containers_view :: "(string \<Rightarrow> 'w \<Rightarrow> 'x) \<Rightarrow> string \<Rightarrow> 'w server \<Rightarrow> 'x \<times> agent_row list \<times> tenancy" where
  "containers_view view m s = (view m (si_host (sv_site s)), agents (si_fleet (sv_site s)), si_ten (sv_site s))"

lemma containers_event [inv_intros]: "keeps (containers_view view m) (event d j msg n st)"
  unfolding event_def plainly_def on_jobs_def by (intro inv_intros keeps_upd) (simp add: containers_view_def)

lemma containers_log [inv_intros]: "keeps (containers_view view m) (on_site (log_action a det st))"
  by (auto simp: keeps_def on_site_def log_action_def upd_eff_def containers_view_def)

lemma containers_profile [inv_intros]: "keeps (containers_view view m) (load_profile d j q)"
  unfolding load_profile_def Let_def by (intro inv_intros)

lemma containers_group [inv_intros]: "keeps (containers_view view m) (ensure_group d j q)"
proof -
  have g: "keeps (containers_view view m) (on_site (on_fleet (\<lambda>db. case create_group now g t db of Inl e \<Rightarrow> Inl e | Inr (db', r) \<Rightarrow> Inr (r, db'))))" for now g t
    by (auto simp: keeps_def on_site_def on_fleet_def create_group_def containers_view_def Let_def)
  show ?thesis unfolding ensure_group_def by (intro inv_intros g)
qed

lemma clean_reserve: "lxc_confined (se_lxc (ds_env d)) view \<Longrightarrow> clean (containers_view view m) (reserve d u ns)"
proof -
  assume c: "lxc_confined (se_lxc (ds_env d)) view"
  have l: "keeps (containers_view view m) (on_site (on_host (lx_list (se_lxc (ds_env d)))))"
    using confined_keeps(1) [OF c] by (auto simp: keeps_def on_site_def on_host_def containers_view_def split: prod.splits) (metis snd_conv)
  show ?thesis
    unfolding reserve_def Let_def
    by (intro clean_bind l clean_and_then inv_intros) (auto simp: clean_def split: sum.splits)
qed

lemma clean_last:
  "lxc_confined (se_lxc (ds_env d)) view \<Longrightarrow>
    clean (containers_view view m) (and_then (reserve d u ns) (\<lambda>_. and_then (queue_names d i q ns) (\<lambda>seqs. pass (q, seqs))))"
  by (intro clean_accepting clean_reserve accepting_and_then accepting_queue accepting_pass)

lemma clean_prepare: "lxc_confined (se_lxc (ds_env d)) view \<Longrightarrow> clean (containers_view view m) (prepare d u i q)"
  unfolding prepare_def Let_def then_eff_def
  by (rule clean_and_then, rule keeps_unless, rule clean_and_then, rule containers_profile, rule clean_and_then, rule keeps_unless,
      rule clean_and_then, rule containers_group, rule clean_bind, rule containers_log, rule clean_last)

text \<open>
  C27: a deployment that is refused (no license, a limit, a missing group or field) has touched nothing: no
  container of the host, no row of one, no owner.
\<close>

theorem refused_deployment_clean:
  assumes "lxc_confined (se_lxc (ds_env d)) view" and "deploy_agents d u q s = (Some (Inl e), s')"
  shows "view m (si_host (sv_site s')) = view m (si_host (sv_site s)) \<and>
    agents (si_fleet (sv_site s')) = agents (si_fleet (sv_site s)) \<and> si_ten (sv_site s') = si_ten (sv_site s)"
proof -
  have "containers_view view m s' = containers_view view m s"
  proof (cases "se_access (ds_env d)")
    case False
    then show ?thesis using assms(2) by (simp add: deploy_agents_def)
  next
    case True
    let ?i = "deployment_id d q" and ?s0 = "begin_deployment d (deployment_id d q) q s"
    have b: "containers_view view m ?s0 = containers_view view m s" by (simp add: begin_deployment_def Let_def containers_view_def)
    obtain s1 where s1: "prepare d u ?i q ?s0 = (Inr (Inl e), s1)" "s' = rejected d ?i e s1"
      using True assms(2) by (auto simp: deploy_agents_def Let_def split: prod.splits sum.splits option.splits)
    then have "containers_view view m s1 = containers_view view m ?s0"
      using clean_prepare [OF assms(1), of m u ?i q] by (simp add: clean_def)
    then show ?thesis using b s1(2) by (simp add: rejected_def finish_progress_def containers_view_def)
  qed
  then show ?thesis by (simp add: containers_view_def)
qed

theorem refused_deployment_clean_witness:
  "\<exists>s'. deploy_agents plain_setup None (default_request 3) plain_server =
     (Some (Inl (HTTPError 400 ''siem_ip is required when deploying a SIEM agent'')), s') \<and> map_of (si_host (sv_site s')) ''a'' = Some True"
proof -
  obtain s' where s': "deploy_agents plain_setup None (default_request 3) plain_server =
     (Some (Inl (HTTPError 400 ''siem_ip is required when deploying a SIEM agent'')), s')" using plain_refused by blast
  have c: "lxc_confined (se_lxc (ds_env plain_setup)) (\<lambda>m w. map_of w m)"
    using plain_host_confined by (simp add: plain_setup_def plain_site_env_def)
  from refused_deployment_clean [OF c s', of "''a''"] s' show ?thesis by (auto simp: plain_server_def plain_site_def)
qed


section \<open>Findings\<close>

text \<open>
  The version, the memory limit and the CPU shares of a profile are never used for a request that leaves them
  out: their defaults are set by then and not among those that count as unset.
\<close>

theorem profile_limits_ignored:
  "rq_siem_version (fill_profile cols (default_request n)) = Some ''4.14.2'' \<and>
   rq_memory (fill_profile cols (default_request n)) = Some ''512MB'' \<and> rq_cpu (fill_profile cols (default_request n)) = Some 1024"
  by (auto simp: fill_profile_def default_request_def fill_text_def fill_int_def split: json.splits)

text \<open>
  Every name a deployment generates is marked as starting in its group before the workers find out which of them
  exist already. Nothing on the way asks whose they are: a container of another team that has such a name is
  moved to the deployment's group and shows as starting.
\<close>

theorem queued_names_overwritten:
  assumes "queue_names d i q [n] s = (Inr (Inr ks), s')"
  shows "\<exists>r. find_agent n (si_fleet (sv_site s')) = Some r \<and> cell (ag_cols r) ''agent_group'' = JText (rq_group q) \<and>
    cell (ag_cols r) ''lifecycle_status'' = JText ''starting''"
proof -
  obtain c now db k db' where w: "write_agent_metadata c now n (queued_metadata q k) db = Inr db'" and s': "si_fleet (sv_site s') = db'"
    using assms by (auto simp: and_then_def bind_eff_def then_eff_def pass_def ret_def on_site_def on_fleet_def write_metadata_def
      split: prod.splits sum.splits)
  have g: "map_of (rev (queued_metadata q k)) ''agent_group'' = Some (JText (rq_group q))"
    and l: "map_of (rev (queued_metadata q k)) ''lifecycle_status'' = Some (JText ''starting'')" by (simp_all add: queued_metadata_def)
  have o: "ordinary_column ''agent_group''" "ordinary_column ''lifecycle_status''" by code_simp+
  from metadata_written [OF w g o(1)] metadata_written [OF w l o(2)] show ?thesis unfolding s' by auto
qed

text \<open>
  The id of a deployment is the client's to choose. A second deployment under the id of a running one replaces
  its progress, and the results of both are counted there, beyond the total.
\<close>

theorem shared_id_overflows:
  fixes now i siem m n
  assumes "distinct (map fst jobs)" and "n \<noteq> []"
  defines "js \<equiv> progress_start now i 1 siem jobs"
  defines "done1 \<equiv> progress_event now i m ''success'' (Some n) (Some ''success'') None"
  shows "counts i (done1 (done1 js)) = Some (1, 2, 2, 0) \<and>
    counts i (progress_start now i 1 siem (done1 js)) = Some (1, 0, 0, 0)"
proof -
  have d: "distinct (map fst js)"
    unfolding js_def progress_start_def Let_def using assms(1) by (simp add: distinct_update distinct_map_filter)
  have "distinct (map fst (done1 js))"
    unfolding done1_def progress_event_def Let_def using d by (simp add: distinct_update split: option.splits)
  moreover have "counts i js = Some (1, 0, 0, 0)" unfolding js_def by (rule counts_progress_start [OF assms(1)])
  ultimately show ?thesis using assms(2) by (simp add: done1_def counts_event counts_progress_start numeral_2_eq_2)
qed

end
