(* ===== verification/Json_Text.thy ===== *)
theory Json_Text
  imports Json Licensing "HOL-Library.AList"
begin

text \<open>
  \<open>json.dumps\<close> and \<open>json.loads\<close> as the helper's protocol and the stored records use them: texts of ASCII
  characters, objects whose keys are distinct. Numbers are whole: a number with a fraction or an exponent
  and an escape beyond the model's characters are read as malformed. Reading back what was written gives the
  value (\<open>loads_dumps\<close>), and whatever is read is well formed (\<open>wf_loads\<close>).
\<close>

section \<open>Writing\<close>

definition ascii_escape :: "char \<Rightarrow> string" where
  "ascii_escape c = (if cp c < 127 then json_escape c
     else [CHR 0x5C, CHR ''u'', CHR ''0'', CHR ''0'', hex_digit (cp c div 16), hex_digit (cp c mod 16)])"

definition json_text :: "string \<Rightarrow> string" where
  "json_text s = CHR 0x22 # concat (map ascii_escape s) @ [CHR 0x22]"

fun dumps :: "json \<Rightarrow> string" and dumps_items :: "json list \<Rightarrow> string" and dumps_pairs :: "(string \<times> json) list \<Rightarrow> string" where
  "dumps JNone = ''null''"
| "dumps (JBool b) = (if b then ''true'' else ''false'')"
| "dumps (JInt i) = int_str i"
| "dumps (JText s) = json_text s"
| "dumps (JArray js) = ''['' @ dumps_items js @ '']''"
| "dumps (JObject kvs) = ''{'' @ dumps_pairs kvs @ ''}''"
| "dumps_items [] = []"
| "dumps_items [j] = dumps j"
| "dumps_items (j # js) = dumps j @ '', '' @ dumps_items js"
| "dumps_pairs [] = []"
| "dumps_pairs [(k, v)] = json_text k @ '': '' @ dumps v"
| "dumps_pairs ((k, v) # kvs) = json_text k @ '': '' @ dumps v @ '', '' @ dumps_pairs kvs"

section \<open>Reading\<close>

definition json_ws :: "char \<Rightarrow> bool" where
  "json_ws c = (c \<in> {CHR '' '', CHR 0x09, CHR 0x0A, CHR 0x0D})"

definition skip_ws :: "string \<Rightarrow> string" where
  "skip_ws s = dropWhile json_ws s"

definition hex_char :: "char \<Rightarrow> nat option" where
  "hex_char c = (if ascii_digit c then Some (cp c - 48)
     else if 97 \<le> cp c \<and> cp c \<le> 102 then Some (cp c - 87)
     else if 65 \<le> cp c \<and> cp c \<le> 70 then Some (cp c - 55) else None)"

definition hex4 :: "char \<Rightarrow> char \<Rightarrow> char \<Rightarrow> char \<Rightarrow> nat option" where
  "hex4 a b c d = (case (hex_char a, hex_char b, hex_char c, hex_char d) of
     (Some x, Some y, Some z, Some w) \<Rightarrow> Some (4096 * x + 256 * y + 16 * z + w) | _ \<Rightarrow> None)"

definition simple_escape :: "char \<Rightarrow> char option" where
  "simple_escape d = (if d = CHR 0x22 then Some (CHR 0x22) else if d = CHR 0x5C then Some (CHR 0x5C)
     else if d = CHR ''/'' then Some (CHR ''/'') else if d = CHR ''b'' then Some (CHR 0x08)
     else if d = CHR ''f'' then Some (CHR 0x0C) else if d = CHR ''n'' then Some (CHR 0x0A)
     else if d = CHR ''r'' then Some (CHR 0x0D) else if d = CHR ''t'' then Some (CHR 0x09) else None)"

definition cons_read :: "char \<Rightarrow> (string \<times> string) option \<Rightarrow> (string \<times> string) option" where
  "cons_read c r = (case r of None \<Rightarrow> None | Some (s, q) \<Rightarrow> Some (c # s, q))"

text \<open>The characters of a text up to its closing quote.\<close>

fun read_text :: "string \<Rightarrow> (string \<times> string) option" where
  "read_text [] = None"
| "read_text (c # r) =
     (if c = CHR 0x22 then Some ([], r)
      else if c = CHR 0x5C then (case r of
          [] \<Rightarrow> None
        | d # r' \<Rightarrow> if d = CHR ''u'' then (case r' of
              x # y # z # w # q \<Rightarrow> (case hex4 x y z w of
                 Some n \<Rightarrow> if n < 256 then cons_read (char_of n) (read_text q) else None | None \<Rightarrow> None)
            | _ \<Rightarrow> None)
          else (case simple_escape d of Some e \<Rightarrow> cons_read e (read_text r') | None \<Rightarrow> None))
      else if cp c < 32 then None
      else cons_read c (read_text r))"

definition read_digits :: "string \<Rightarrow> (nat \<times> string) option" where
  "read_digits s = (let ds = takeWhile ascii_digit s; r = dropWhile ascii_digit s in
     if ds = [] then None
     else if hd ds = CHR ''0'' \<and> tl ds \<noteq> [] then Some (0, tl s)
     else if r \<noteq> [] \<and> hd r \<in> {CHR ''.'', CHR ''e'', CHR ''E''} then None
     else Some (nat_val ds, r))"

definition read_int :: "string \<Rightarrow> (int \<times> string) option" where
  "read_int s = (case s of
     [] \<Rightarrow> None
   | c # r \<Rightarrow> if c = CHR ''-'' then map_option (\<lambda>(n, q). (- int n, q)) (read_digits r)
              else map_option (\<lambda>(n, q). (int n, q)) (read_digits s))"

definition read_word :: "string \<Rightarrow> json \<Rightarrow> string \<Rightarrow> (json \<times> string) option" where
  "read_word w v s = (if take (length w) s = w then Some (v, drop (length w) s) else None)"

lemma length_skip_ws: "length (skip_ws s) \<le> length s"
  by (simp add: skip_ws_def length_dropWhile_le)

lemma skip_ws_Cons: "skip_ws s = c # r \<Longrightarrow> length r < length s"
  using length_skip_ws [of s] by simp

lemma skip_ws_bounds:
  "length s < n \<Longrightarrow> 2 * length (skip_ws s) < Suc (Suc (Suc (2 * n)))"
  "length s < l \<Longrightarrow> l < Suc n \<Longrightarrow> 2 * length (skip_ws s) < Suc (Suc (2 * n))"
  using length_skip_ws [of s] by linarith+

text \<open>
  The guards on lengths never fail (\<open>read_value\<close> consumes at least a character); they make the recursion
  end for every text.
\<close>

function (sequential) read_value :: "string \<Rightarrow> (json \<times> string) option"
  and read_items :: "string \<Rightarrow> (json list \<times> string) option"
  and read_pairs :: "(string \<times> json) list \<Rightarrow> string \<Rightarrow> ((string \<times> json) list \<times> string) option" where
  "read_value [] = None"
| "read_value (c # r) =
     (if c = CHR 0x22 then map_option (\<lambda>(t, q). (JText t, q)) (read_text r)
      else if c = CHR ''['' then
        (case skip_ws r of [] \<Rightarrow> None
         | d # q \<Rightarrow> if d = CHR '']'' then Some (JArray [], q)
             else map_option (\<lambda>(js, q'). (JArray js, q')) (read_items (skip_ws r)))
      else if c = CHR ''{'' then
        (case skip_ws r of [] \<Rightarrow> None
         | d # q \<Rightarrow> if d = CHR ''}'' then Some (JObject [], q)
             else map_option (\<lambda>(kvs, q'). (JObject kvs, q')) (read_pairs [] (skip_ws r)))
      else if c = CHR ''n'' then read_word ''null'' JNone (c # r)
      else if c = CHR ''t'' then read_word ''true'' (JBool True) (c # r)
      else if c = CHR ''f'' then read_word ''false'' (JBool False) (c # r)
      else map_option (\<lambda>(i, q). (JInt i, q)) (read_int (c # r)))"
| "read_items s = (case read_value s of None \<Rightarrow> None
     | Some (j, q) \<Rightarrow> if \<not> length q < length s then None else (case skip_ws q of
          [] \<Rightarrow> None
        | d # q' \<Rightarrow> if d = CHR '']'' then Some ([j], q')
            else if d = CHR '','' then map_option (\<lambda>(js, p). (j # js, p)) (read_items (skip_ws q'))
            else None))"
| "read_pairs m s = (case s of [] \<Rightarrow> None
     | c # r \<Rightarrow> if c \<noteq> CHR 0x22 then None else (case read_text r of None \<Rightarrow> None
         | Some (k, q) \<Rightarrow> (case skip_ws q of [] \<Rightarrow> None
           | d # q' \<Rightarrow> if d \<noteq> CHR '':'' \<or> \<not> length q' < length r then None else (case read_value (skip_ws q') of None \<Rightarrow> None
             | Some (v, p) \<Rightarrow> if \<not> length p < length s then None else (case skip_ws p of [] \<Rightarrow> None
               | e # p' \<Rightarrow> if e = CHR ''}'' then Some (AList.update k v m, p')
                   else if e = CHR '','' then read_pairs (AList.update k v m) (skip_ws p')
                   else None)))))"
  by pat_completeness auto

termination
  by (relation "measure (\<lambda>x. case x of Inl s \<Rightarrow> 2 * length s | Inr (Inl s) \<Rightarrow> 2 * length s + 1 | Inr (Inr (m, s)) \<Rightarrow> 2 * length s + 1)")
    (auto dest!: skip_ws_Cons intro: skip_ws_bounds order.strict_trans1 [OF length_skip_ws] le_less_trans [OF length_skip_ws])

declare read_items.simps [simp del] read_pairs.simps [simp del]

definition loads :: "string \<Rightarrow> json option" where
  "loads s = (case read_value (skip_ws s) of Some (j, q) \<Rightarrow> if skip_ws q = [] then Some j else None | None \<Rightarrow> None)"

section \<open>Well-formed values\<close>

text \<open>A Python dict has each key once.\<close>

fun wf_json :: "json \<Rightarrow> bool" and wf_items :: "json list \<Rightarrow> bool" and wf_pairs :: "(string \<times> json) list \<Rightarrow> bool" where
  "wf_json (JArray js) = wf_items js"
| "wf_json (JObject kvs) = (distinct (map fst kvs) \<and> wf_pairs kvs)"
| "wf_json j = True"
| "wf_items [] = True"
| "wf_items (j # js) = (wf_json j \<and> wf_items js)"
| "wf_pairs [] = True"
| "wf_pairs ((k, v) # kvs) = (wf_json v \<and> wf_pairs kvs)"

lemma wf_items_iff: "wf_items js = list_all wf_json js"
  by (induction js) simp_all

lemma wf_pairs_iff: "wf_pairs kvs = list_all (\<lambda>(k, v). wf_json v) kvs"
  by (induction kvs) auto

lemma wf_pairs_update: "wf_pairs kvs \<Longrightarrow> wf_json v \<Longrightarrow> wf_pairs (AList.update k v kvs)"
  by (induction kvs) auto

lemma wf_read:
  "read_value s = Some (j, q) \<Longrightarrow> wf_json j"
  "read_items s = Some (js, q) \<Longrightarrow> wf_items js"
  "read_pairs m s = Some (kvs, q) \<Longrightarrow> distinct (map fst m) \<Longrightarrow> wf_pairs m \<Longrightarrow> distinct (map fst kvs) \<and> wf_pairs kvs"
proof (induction s and s and m s arbitrary: j q and js q and kvs q rule: read_value_read_items_read_pairs.induct)
  case (2 c r)
  then show ?case by (auto simp: read_word_def split: if_splits list.splits)
next
  case (3 s)
  show ?case using 3(3) [unfolded read_items.simps [of s]] 3(1,2) by (auto split: if_splits list.splits option.splits)
next
  case (4 m s)
  show ?case using 4(3) [unfolded read_pairs.simps [of m s]] 4(1,2,4,5)
    by (auto simp: distinct_update wf_pairs_update split: if_splits list.splits option.splits)
qed simp_all

lemma wf_loads: "loads s = Some j \<Longrightarrow> wf_json j"
  by (auto simp: loads_def wf_read(1) split: option.splits if_splits)

section \<open>Reading back what was written\<close>

lemma cp_char_of: "n < 256 \<Longrightarrow> cp (char_of n) = n"
  by (simp add: cp_def)

lemma hex_char_digit: "d < 16 \<Longrightarrow> hex_char (hex_digit d) = Some d"
  by (auto simp: hex_char_def hex_digit_def ascii_digit_def cp_char_of)

lemma hex4_byte: "hex4 (CHR ''0'') (CHR ''0'') (hex_digit (cp c div 16)) (hex_digit (cp c mod 16)) = Some (cp c)"
proof -
  have "cp c < 256" by (simp add: cp_def)
  then have "cp c div 16 < 16" "cp c mod 16 < 16" by linarith+
  moreover have "hex_char (CHR ''0'') = Some 0" by (simp add: hex_char_def ascii_digit_def cp_def)
  ultimately show ?thesis by (simp add: hex4_def hex_char_digit)
qed

lemma char_of_cp: "char_of (cp c) = c" "cp c < 256"
  by (simp_all add: cp_def)

lemma read_hex: "read_text (CHR 0x5C # CHR ''u'' # CHR ''0'' # CHR ''0'' # hex_digit (cp c div 16) # hex_digit (cp c mod 16) # r) =
    cons_read c (read_text r)"
  by (simp add: hex4_byte char_of_cp)

lemma read_escape: "read_text (ascii_escape c @ r) = cons_read c (read_text r)"
proof (cases "cp c < 127 \<and> \<not> (cp c < 32 \<and> c \<notin> {CHR 0x0A, CHR 0x0D, CHR 0x09, CHR 0x0C, CHR 0x08})")
  case False
  have special: "cp (CHR 0x22) = 34" "cp (CHR 0x5C) = 92" by (simp_all add: cp_def)
  have "c \<noteq> CHR 0x22" "c \<noteq> CHR 0x5C" if "cp c < 32" using that special by auto
  then have "ascii_escape c = [CHR 0x5C, CHR ''u'', CHR ''0'', CHR ''0'', hex_digit (cp c div 16), hex_digit (cp c mod 16)]"
    using False by (auto simp: ascii_escape_def json_escape_def)
  then show ?thesis using read_hex [of c r] by simp
next
  case True
  then show ?thesis by (auto simp: ascii_escape_def json_escape_def simple_escape_def)
qed

lemma read_json_text: "read_text (concat (map ascii_escape s) @ CHR 0x22 # r) = Some (s, r)"
  by (induction s) (simp_all add: read_escape cons_read_def)

lemma hd_nat_str: "nat_str n = CHR ''0'' # r \<Longrightarrow> r = []"
proof (induction n arbitrary: r rule: nat_str.induct)
  case (1 n)
  show ?case
  proof (cases "n < 10")
    case True
    then show ?thesis using 1(2) by (simp add: nat_str.simps [of n])
  next
    case False
    obtain d ds where d: "nat_str (n div 10) = d # ds" using nat_str_nonempty by (cases "nat_str (n div 10)") auto
    then have "nat_str (n div 10) = CHR ''0'' # ds" using 1(2) False by (simp add: nat_str.simps [of n])
    with 1(1) [OF False this] have "nat_str (n div 10) = ''0''" by simp
    then have "n div 10 = nat_val ''0''" by (metis nat_val_nat_str)
    then have "n div 10 = 0" by (simp add: nat_val_def cp_def)
    then show ?thesis using False by simp
  qed
qed

definition ends_token :: "string \<Rightarrow> bool" where
  "ends_token r = (r = [] \<or> hd r \<in> {CHR '','', CHR '']'', CHR ''}''})"

lemma read_digits_nat_str: "ends_token r \<Longrightarrow> read_digits (nat_str n @ r) = Some (n, r)"
proof -
  assume r: "ends_token r"
  then have nd: "r \<noteq> [] \<Longrightarrow> \<not> ascii_digit (hd r)" and e: "r \<noteq> [] \<Longrightarrow> hd r \<notin> {CHR ''.'', CHR ''e'', CHR ''E''}"
    by (auto simp: ends_token_def ascii_digit_def cp_def)
  have t: "takeWhile ascii_digit (nat_str n @ r) = nat_str n" "dropWhile ascii_digit (nat_str n @ r) = r"
    using nd by (cases r; simp add: nat_str_digits)+
  have "hd (nat_str n) = CHR ''0'' \<Longrightarrow> tl (nat_str n) = []" using hd_nat_str [of n] by (cases "nat_str n") auto
  then show ?thesis using e by (auto simp: read_digits_def Let_def t)
qed

lemma read_int_str: "ends_token r \<Longrightarrow> read_int (int_str i @ r) = Some (i, r)"
proof -
  assume r: "ends_token r"
  obtain d ds where d: "nat_str (nat i) = d # ds" "ascii_digit d"
    using nat_str_nonempty [of "nat i"] nat_str_digits [of _ "nat i"] by (cases "nat_str (nat i)") auto
  then have "d \<noteq> CHR ''-''" by (auto simp: ascii_digit_def cp_def)
  then show ?thesis
    using d read_digits_nat_str [OF r, of "nat i"] read_digits_nat_str [OF r, of "nat (- i)"] by (simp add: int_str_def read_int_def)
qed

lemma int_str_start: "\<exists>c r. int_str i = c # r \<and> (c = CHR ''-'' \<or> ascii_digit c)"
  using nat_str_digits [of "hd (nat_str (nat i))" "nat i"] nat_str_nonempty [of "nat i"] 
  by (cases "nat_str (nat i)") (auto simp: int_str_def)

text \<open>The first character of a written value decides how it is read and is not a space.\<close>

lemma read_written_int: "ends_token r \<Longrightarrow> read_value (int_str i @ r) = Some (JInt i, r)"
proof -
  assume r: "ends_token r"
  obtain c q where c: "int_str i = c # q" "c = CHR ''-'' \<or> ascii_digit c" using int_str_start by blast
  then have "c \<notin> {CHR 0x22, CHR ''['', CHR ''{'', CHR ''n'', CHR ''t'', CHR ''f''}" by (auto simp: ascii_digit_def cp_def)
  then show ?thesis using read_int_str [OF r, of i] c by simp
qed

lemma dumps_start: "\<exists>c r. dumps j = c # r \<and> \<not> json_ws c \<and> c \<notin> {CHR '']'', CHR ''}'', CHR '',''}"
proof (cases j)
  case (JInt i)
  then show ?thesis using int_str_start [of i] by (auto simp: json_ws_def ascii_digit_def cp_def)
qed (auto simp: json_ws_def json_text_def)

lemma dumps_nonempty [simp]: "dumps j \<noteq> []"
  using dumps_start [of j] by auto

lemma skip_ws_dumps [simp]: "skip_ws (dumps j @ r) = dumps j @ r"
  using dumps_start [of j] by (auto simp: skip_ws_def)

lemma skip_ws_end [simp]: "ends_token r \<Longrightarrow> skip_ws r = r"
  by (cases r) (auto simp: skip_ws_def ends_token_def json_ws_def)

lemma skip_ws_space [simp]: "skip_ws (CHR '' '' # r) = skip_ws r"
  by (simp add: skip_ws_def json_ws_def)

lemma skip_ws_other: "\<not> json_ws c \<Longrightarrow> skip_ws (c # r) = c # r"
  by (simp add: skip_ws_def)

lemma json_ws_marks [simp]: "\<not> json_ws (CHR '','')" "\<not> json_ws (CHR '':'')" "\<not> json_ws (CHR '']'')" "\<not> json_ws (CHR ''}'')"
    "\<not> json_ws (CHR 0x22)" "\<not> json_ws (CHR ''{'')" "\<not> json_ws (CHR ''['')"
  by (simp_all add: json_ws_def)

lemma update_fresh: "k \<notin> fst ` set m \<Longrightarrow> AList.update k v m = m @ [(k, v)]"
  by (induction m) auto

lemma read_dumps:
  "wf_json j \<Longrightarrow> ends_token r \<Longrightarrow> read_value (dumps j @ r) = Some (j, r)"
  "wf_items js \<Longrightarrow> js \<noteq> [] \<Longrightarrow> read_items (dumps_items js @ CHR '']'' # r) = Some (js, r)"
  "wf_pairs kvs \<Longrightarrow> kvs \<noteq> [] \<Longrightarrow> distinct (map fst (m @ kvs)) \<Longrightarrow> read_pairs m (dumps_pairs kvs @ CHR ''}'' # r) = Some (m @ kvs, r)"
proof (induction j and js and kvs arbitrary: r and r and m r rule: dumps_dumps_items_dumps_pairs.induct)
  case (2 b)
  then show ?case by (cases b) (simp_all add: read_word_def)
next
  case (3 i)
  then show ?case by (simp add: read_written_int)
next
  case (4 s)
  then show ?case by (simp add: json_text_def read_json_text)
next
  case (5 js)
  show ?case
  proof (cases js)
    case Nil
    then show ?thesis by (simp add: skip_ws_def json_ws_def)
  next
    case (Cons j ks)
    obtain c q where c: "dumps_items js @ CHR '']'' # r = c # q" "\<not> json_ws c" "c \<noteq> CHR '']''"
      using dumps_start [of j] Cons by (cases ks) auto
    have s: "skip_ws (dumps_items js @ CHR '']'' # r) = c # q" unfolding c(1) using c(2) by (simp add: skip_ws_def)
    have "read_items (c # q) = Some (js, r)" using 5 Cons unfolding c(1) [symmetric] by simp
    then show ?thesis using s c(3) by simp
  qed
next
  case (6 kvs)
  show ?case
  proof (cases kvs)
    case Nil
    then show ?thesis by (simp add: skip_ws_def json_ws_def)
  next
    case (Cons p ks)
    obtain q where c: "dumps_pairs kvs @ CHR ''}'' # r = CHR 0x22 # q"
      using Cons by (cases p; cases ks) (auto simp: json_text_def)
    have s: "skip_ws (dumps_pairs kvs @ CHR ''}'' # r) = CHR 0x22 # q" unfolding c by (simp add: skip_ws_def json_ws_def)
    have "read_pairs [] (CHR 0x22 # q) = Some (kvs, r)" using 6(1) [of "[]" r] 6(2) Cons c by simp
    then show ?thesis using s by simp
  qed
next
  case (8 j)
  have "read_value (dumps j @ CHR '']'' # r) = Some (j, CHR '']'' # r)" using 8 by (simp add: ends_token_def)
  then show ?case by (subst read_items.simps) (simp add: skip_ws_other)
next
  case (9 j k js)
  have v: "read_value (dumps j @ '', '' @ dumps_items (k # js) @ CHR '']'' # r) = Some (j, '', '' @ dumps_items (k # js) @ CHR '']'' # r)"
    using 9 by (simp add: ends_token_def)
  obtain c q where c: "dumps_items (k # js) @ CHR '']'' # r = c # q" "\<not> json_ws c"
    using dumps_start [of k] by (cases js) auto
  have s: "skip_ws (dumps_items (k # js) @ CHR '']'' # r) = dumps_items (k # js) @ CHR '']'' # r"
    unfolding c(1) by (rule skip_ws_other [OF c(2)])
  have "read_items (dumps_items (k # js) @ CHR '']'' # r) = Some (k # js, r)" using 9 by simp
  then show ?case using v s by (subst read_items.simps) (simp add: skip_ws_other)
next
  case (11 k v)
  have v: "read_value (dumps v @ CHR ''}'' # r) = Some (v, CHR ''}'' # r)" using 11 by (simp add: ends_token_def)
  have "k \<notin> fst ` set m" using 11 by auto
  note u = update_fresh [OF this]
  then show ?case using v u by (subst read_pairs.simps) (simp add: json_text_def read_json_text skip_ws_other)
next
  case (12 k v p kvs)
  let ?rest = "dumps_pairs (p # kvs) @ CHR ''}'' # r"
  have v: "read_value (dumps v @ '', '' @ ?rest) = Some (v, '', '' @ ?rest)" using 12 by (simp add: ends_token_def)
  obtain q where c: "?rest = CHR 0x22 # q" by (cases p; cases kvs) (auto simp: json_text_def)
  have s: "skip_ws ?rest = ?rest" unfolding c by (simp add: skip_ws_other)
  have "k \<notin> fst ` set m" using 12 by auto
  note u = update_fresh [OF this]
  have "read_pairs (m @ [(k, v)]) ?rest = Some ((m @ [(k, v)]) @ p # kvs, r)"
    by (rule 12(2)) (use 12(3,5) in auto)
  then show ?case using v s u by (subst read_pairs.simps) (simp add: json_text_def read_json_text skip_ws_other)
qed (simp_all add: read_word_def)

lemma loads_dumps: "wf_json j \<Longrightarrow> loads (dumps j) = Some j"
  using read_dumps(1) [of j "[]"] skip_ws_dumps [of j "[]"] by (simp add: loads_def ends_token_def skip_ws_def)

end
