(* ===== verification/Helper_Protocol.thy ===== *)
theory Helper_Protocol
  imports Json_Text
begin

text \<open>
  \<^verbatim>\<open>helper/protocol.py\<close>: the messages between the web application and the privileged helper, four bytes of
  length (big-endian) and that much JSON. A connection is what is still to be received, in the pieces in
  which the kernel will deliver it; after the last one the other side has closed it. Strings are bytes.
\<close>

definition MAX_MESSAGE :: nat where
  "MAX_MESSAGE = 64 * 1024 * 1024"

definition pack_length :: "nat \<Rightarrow> string" where
  "pack_length n = [char_of (n div 16777216), char_of (n div 65536 mod 256), char_of (n div 256 mod 256), char_of (n mod 256)]"

definition unpack_length :: "string \<Rightarrow> nat" where
  "unpack_length h = foldl (\<lambda>n c. 256 * n + cp c) 0 h"

text \<open>\<open>None\<close>: \<open>struct.pack\<close> raises for a length beyond 32 bits.\<close>

definition send_message :: "json \<Rightarrow> string option" where
  "send_message payload = (let body = dumps payload in
     if length body < 4294967296 then Some (pack_length (length body) @ body) else None)"

text \<open>\<open>sock.recv(n)\<close>: at most \<open>n\<close> bytes of the next piece, nothing when the connection is closed.\<close>

fun recv :: "nat \<Rightarrow> string list \<Rightarrow> string \<times> string list" where
  "recv n [] = ([], [])"
| "recv n (p # ps) = (if length p \<le> n then (p, ps) else (take n p, drop n p # ps))"

function recv_exact :: "nat \<Rightarrow> string \<Rightarrow> string list \<Rightarrow> string + string \<times> string list" where
  "recv_exact n buf ps =
     (if length buf < n then
        (case recv (min (n - length buf) 1048576) ps of (chunk, ps') \<Rightarrow>
           if chunk = [] then Inl ''helper connection closed mid-message'' else recv_exact n (buf @ chunk) ps')
      else Inr (buf, ps))"
  by auto
termination
  by (relation "measure (\<lambda>(n, buf, ps). n - length buf)") (auto intro: diff_less_mono2)

declare recv_exact.simps [simp del]

definition recv_message :: "bool \<Rightarrow> string list \<Rightarrow> string + json \<times> string list" where
  "recv_message want_fds ps =
     (case (if want_fds then recv 65536 ps else ([], ps)) of (first, ps0) \<Rightarrow>
      if want_fds \<and> first = [] then Inl ''helper closed the connection''
      else (case (if length first < 4 then recv_exact 4 (take 4 first) ps0 else Inr (take 4 first, ps0)) of
         Inl e \<Rightarrow> Inl e
       | Inr (header, ps1) \<Rightarrow>
           if MAX_MESSAGE < unpack_length header then Inl ''message too large''
           else (case recv_exact (unpack_length header) (drop 4 first) ps1 of
              Inl e \<Rightarrow> Inl e
            | Inr (body, ps2) \<Rightarrow> (case loads (take (unpack_length header) body) of
                None \<Rightarrow> Inl ''Expecting value'' | Some j \<Rightarrow> Inr (j, ps2)))))"

section \<open>Receiving exactly so many bytes\<close>

text \<open>The pieces carry these bytes: none of them is empty.\<close>

definition carries :: "string list \<Rightarrow> string \<Rightarrow> bool" where
  "carries ps s = ([] \<notin> set ps \<and> concat ps = s)"

lemma carries_Nil: "carries ps [] \<longleftrightarrow> ps = []"
  by (cases ps) (auto simp: carries_def)

lemma recv_carries:
  assumes "carries ps s" and "0 < n" and "s \<noteq> []"
  obtains c ps' t where "recv n ps = (c, ps')" "c \<noteq> []" "length c \<le> n" "s = c @ t" "carries ps' t"
proof -
  obtain p q where ps: "ps = p # q" using assms(1,3) by (cases ps) (auto simp: carries_def)
  show ?thesis
  proof (cases "length p \<le> n")
    case True
    show ?thesis by (rule that [of p q "concat q"]) (use assms(1) True in \<open>auto simp: ps carries_def\<close>)
  next
    case False
    show ?thesis
    proof (rule that [of "take n p" "drop n p # q" "drop n p @ concat q"])
      show "s = take n p @ drop n p @ concat q"
        using assms(1) unfolding ps carries_def by (metis append_assoc append_take_drop_id concat.simps(2))
    qed (use assms False in \<open>auto simp: ps carries_def\<close>)
  qed
qed

lemma recv_exact_enough:
  "carries ps (s @ t) \<Longrightarrow> n = length (buf @ s) \<Longrightarrow> \<exists>ps'. recv_exact n buf ps = Inr (buf @ s, ps') \<and> carries ps' t"
proof (induction n buf ps arbitrary: s rule: recv_exact.induct)
  case (1 n buf ps)
  show ?case
  proof (cases "s = []")
    case True
    then show ?thesis using 1 by (subst recv_exact.simps) auto
  next
    case False
    have k: "0 < min (n - length buf) 1048576" using 1(3) False by simp
    obtain c ps' u where c: "recv (min (n - length buf) 1048576) ps = (c, ps')" "c \<noteq> []"
        "length c \<le> min (n - length buf) 1048576" "s @ t = c @ u" "carries ps' u"
      using recv_carries [OF 1(2) k] False by blast
    have len: "length c \<le> length s" using c(3) 1(3) by simp
    then obtain s' where s': "s = c @ s'" "u = s' @ t"
      using c(4) by (metis append_eq_append_conv_if append_take_drop_id)
    have "\<exists>ps''. recv_exact n (buf @ c) ps' = Inr ((buf @ c) @ s', ps'') \<and> carries ps'' t"
      by (rule 1(1)) (use 1(3) False c s' in auto)
    then show ?thesis using c False 1(3) s' by (subst recv_exact.simps) auto
  qed
qed

lemma recv_exact_short:
  "carries ps s \<Longrightarrow> length (buf @ s) < n \<Longrightarrow> recv_exact n buf ps = Inl ''helper connection closed mid-message''"
proof (induction n buf ps arbitrary: s rule: recv_exact.induct)
  case (1 n buf ps)
  show ?case
  proof (cases "s = []")
    case True
    then show ?thesis using 1 by (subst recv_exact.simps) (auto simp: carries_Nil)
  next
    case False
    have k: "0 < min (n - length buf) 1048576" using 1(3) by simp
    obtain c ps' u where c: "recv (min (n - length buf) 1048576) ps = (c, ps')" "c \<noteq> []" "s = c @ u" "carries ps' u"
      using recv_carries [OF 1(2) k False] by metis
    have "recv_exact n (buf @ c) ps' = Inl ''helper connection closed mid-message''"
      by (rule 1(1)) (use 1(3) c in auto)
    then show ?thesis using c 1(3) by (subst recv_exact.simps) auto
  qed
qed

section \<open>Messages\<close>

lemma length_pack [simp]: "length (pack_length n) = 4"
  by (simp add: pack_length_def)

lemma unpack_pack: "n < 4294967296 \<Longrightarrow> unpack_length (pack_length n) = n"
proof -
  assume n: "n < 4294967296"
  have c: "cp (char_of m) = m mod 256" for m by (simp add: cp_def)
  have a: "n div 16777216 mod 256 = n div 16777216" using n by simp
  have u: "unpack_length (pack_length n) = 256 * (256 * (256 * (n div 16777216) + n div 65536 mod 256) + n div 256 mod 256) + n mod 256"
    unfolding unpack_length_def pack_length_def foldl.simps c a by simp
  have "n div 65536 = 256 * (n div 16777216) + n div 65536 mod 256" "n div 256 = 256 * (n div 65536) + n div 256 mod 256"
      "n = 256 * (n div 256) + n mod 256"
    by (simp_all add: div_mult2_eq [of n 65536 256, simplified] div_mult2_eq [of n 256 256, simplified])
  then obtain p q x y z where "n div 65536 = p" "n div 256 = q" "n div 16777216 = x" "n div 65536 mod 256 = y" "n div 256 mod 256 = z"
      "p = 256 * x + y" "q = 256 * p + z" "n = 256 * q + n mod 256" by metis
  then show ?thesis unfolding u by simp
qed

lemma header_split:
  assumes "c @ t = h @ x"
  shows "length c < length h \<Longrightarrow> \<exists>h'. h = c @ h' \<and> t = h' @ x" "length h \<le> length c \<Longrightarrow> \<exists>d. c = h @ d \<and> x = d @ t"
  using assms by (auto simp: append_eq_append_conv2)

text \<open>The first piece of an answer that may come with a file descriptor.\<close>

lemma recv_first:
  assumes "carries ps s" and "s \<noteq> []"
  obtains c ps' t where "(if want then recv 65536 ps else ([], ps)) = (c, ps')" "want \<Longrightarrow> c \<noteq> []" "s = c @ t" "carries ps' t"
proof (cases want)
  case False
  then show ?thesis using that [of "[]" ps s] assms by simp
next
  case True
  have "0 < (65536::nat)" by simp
  from recv_carries [OF assms(1) this assms(2)] show ?thesis using that True by (metis (full_types))
qed

lemma recv_parts:
  assumes h: "length h = 4" and ps: "carries ps (h @ b)" and n: "unpack_length h = length b" "length b \<le> MAX_MESSAGE"
  shows "recv_message want ps = (case loads b of None \<Rightarrow> Inl ''Expecting value'' | Some j \<Rightarrow> Inr (j, []))"
proof -
  have ne: "h @ b \<noteq> []" using h by auto
  obtain c ps0 t where c: "(if want then recv 65536 ps else ([], ps)) = (c, ps0)" "want \<Longrightarrow> c \<noteq> []" "h @ b = c @ t" "carries ps0 t"
    using recv_first [OF ps ne] by metis
  show ?thesis
  proof (cases "length c < 4")
    case True
    then obtain h' where h': "h = c @ h'" "t = h' @ b" using header_split(1) [OF c(3) [symmetric]] h by auto
    obtain ps1 where p1: "recv_exact 4 c ps0 = Inr (h, ps1)" "carries ps1 b"
      using recv_exact_enough [of ps0 h' b 4 c] c(4) h' h by auto
    obtain ps2 where p2: "recv_exact (length b) [] ps1 = Inr (b, ps2)" "ps2 = []"
      using recv_exact_enough [of ps1 b "[]" "length b" "[]"] p1 by (auto simp: carries_Nil)
    show ?thesis using c True p1 p2 n by (cases want) (simp_all add: recv_message_def)
  next
    case False
    then obtain d where d: "c = h @ d" "b = d @ t" using header_split(2) [OF c(3) [symmetric]] h by auto
    obtain ps2 where p2: "recv_exact (length b) d ps0 = Inr (b, ps2)" "ps2 = []"
      using recv_exact_enough [of ps0 t "[]" "length b" d] c(4) d by (auto simp: carries_Nil)
    have "h \<noteq> []" using h by auto
    then show ?thesis using c False d h p2 n by (cases want) (simp_all add: recv_message_def)
  qed
qed

lemma recv_large:
  assumes h: "length h = 4" and ps: "carries ps (h @ b)" and n: "MAX_MESSAGE < unpack_length h"
  shows "\<exists>e. recv_message want ps = Inl e"
proof -
  have ne: "h @ b \<noteq> []" using h by auto
  obtain c ps0 t where c: "(if want then recv 65536 ps else ([], ps)) = (c, ps0)" "h @ b = c @ t" "carries ps0 t"
    using recv_first [OF ps ne] by metis
  show ?thesis
  proof (cases "length c < 4")
    case True
    then obtain h' where h': "h = c @ h'" "t = h' @ b" using header_split(1) [OF c(2) [symmetric]] h by auto
    obtain ps1 where "recv_exact 4 c ps0 = Inr (h, ps1)"
      using recv_exact_enough [of ps0 h' b 4 c] c(3) h' h by auto
    then show ?thesis using c True n by (simp add: recv_message_def)
  next
    case False
    then obtain d where "c = h @ d" using header_split(2) [OF c(2) [symmetric]] h by auto
    then show ?thesis using c False h n by (simp add: recv_message_def)
  qed
qed

lemma recv_cut:
  assumes h: "length h = 4" and ps: "carries ps s" and cut: "h @ b = s @ r" "r \<noteq> []"
    and n: "unpack_length h = length b" "length b \<le> MAX_MESSAGE"
  shows "\<exists>e. recv_message want ps = Inl e"
proof (cases "s = []")
  case True
  then have "ps = []" using ps by (simp add: carries_Nil)
  then show ?thesis using recv_exact_short [of "[]" "[]" "[]" 4] by (simp add: recv_message_def carries_def)
next
  case ne: False
  obtain c ps0 t where c: "(if want then recv 65536 ps else ([], ps)) = (c, ps0)" "want \<Longrightarrow> c \<noteq> []" "s = c @ t" "carries ps0 t"
    using recv_first [OF ps ne] by metis
  show ?thesis
  proof (cases "length c < 4")
    case True
    show ?thesis
    proof (cases "length (c @ t) < 4")
      case short: True
      then show ?thesis using c True recv_exact_short [of ps0 t c 4] by (simp add: recv_message_def)
    next
      case False
      obtain d where d: "c @ t = h @ d" "b = d @ r"
        using header_split(2) [of "c @ t" r h b] cut(1) False h c(3) by auto
      then obtain h' where h': "h = c @ h'" "t = h' @ d" using header_split(1) [OF d(1)] True h by auto
      obtain ps1 where p1: "recv_exact 4 c ps0 = Inr (h, ps1)" "carries ps1 d"
        using recv_exact_enough [of ps0 h' d 4 c] c(4) h' h by auto
      have "recv_exact (length b) [] ps1 = Inl ''helper connection closed mid-message''"
        by (rule recv_exact_short [OF p1(2)]) (use d cut(2) in simp)
      then show ?thesis using c True p1 n by (simp add: recv_message_def)
    qed
  next
    case False
    then obtain d where d: "c = h @ d" "b = d @ t @ r"
      using header_split(2) [of c "t @ r" h b] cut(1) h c(3) by auto
    have "recv_exact (length b) d ps0 = Inl ''helper connection closed mid-message''"
      by (rule recv_exact_short [OF c(4)]) (use d cut(2) in simp)
    then show ?thesis using c False d(1) h n by (simp add: recv_message_def)
  qed
qed

lemma sent_parts:
  assumes "send_message j = Some data"
  shows "data = pack_length (length (dumps j)) @ dumps j" "unpack_length (pack_length (length (dumps j))) = length (dumps j)"
  using assms by (auto simp: send_message_def Let_def unpack_pack split: if_splits)

lemma recv_sent:
  assumes "wf_json j" and "length (dumps j) \<le> MAX_MESSAGE" and "send_message j = Some data" and "carries ps data"
  shows "recv_message want ps = Inr (j, [])"
  using recv_parts [OF length_pack, of ps "length (dumps j)" "dumps j" want] assms sent_parts [OF assms(3)] by (simp add: loads_dumps)

lemma recv_any:
  assumes "wf_json j" and "send_message j = Some data" and "carries ps data"
  shows "recv_message want ps = Inr (j, []) \<or> (\<exists>e. recv_message want ps = Inl e)"
proof (cases "length (dumps j) \<le> MAX_MESSAGE")
  case True
  then show ?thesis using recv_sent [OF assms(1) _ assms(2,3)] by blast
next
  case False
  then show ?thesis
    using recv_large [OF length_pack, of ps "length (dumps j)" "dumps j" want] assms(3) sent_parts [OF assms(2)] by auto
qed

text \<open>
  C40: whatever pieces a message arrives in, the receiver gets the value that was sent, also when the first
  piece is read together with a file descriptor; a message of which any part is missing is never taken for
  one.
\<close>

theorem message_framing:
  assumes "wf_json j" and "length (dumps j) \<le> MAX_MESSAGE"
  shows "\<exists>data. send_message j = Some data \<and>
    (\<forall>ps. carries ps data \<longrightarrow> recv_message want ps = Inr (j, [])) \<and>
    (\<forall>ps s r. carries ps s \<longrightarrow> data = s @ r \<longrightarrow> r \<noteq> [] \<longrightarrow> (\<exists>e. recv_message want ps = Inl e))"
proof -
  have "length (dumps j) < 4294967296" using assms(2) by (simp add: MAX_MESSAGE_def)
  then obtain data where data: "send_message j = Some data" by (simp add: send_message_def Let_def)
  have "\<exists>e. recv_message want ps = Inl e" if "carries ps s" "data = s @ r" "r \<noteq> []" for ps s r
    by (rule recv_cut [OF length_pack that(1) _ that(3) sent_parts(2) [OF data] assms(2)])
      (use sent_parts(1) [OF data] that(2) in simp)
  then show ?thesis using data recv_sent [OF assms data] by blast
qed

theorem message_framing_witness:
  "\<exists>data. send_message (JObject [(''op'', JText ''info'')]) = Some data \<and>
     (\<forall>ps. carries ps data \<longrightarrow> recv_message True ps = Inr (JObject [(''op'', JText ''info'')], []))"
proof -
  have w: "wf_json (JObject [(''op'', JText ''info'')])" by simp
  have "length (dumps (JObject [(''op'', JText ''info'')])) = 14" by code_simp
  then have "length (dumps (JObject [(''op'', JText ''info'')])) \<le> MAX_MESSAGE" by (simp add: MAX_MESSAGE_def)
  from message_framing [OF w this, of True] show ?thesis by blast
qed

end
