(* ===== verification/Helper.thy ===== *)
theory Helper
  imports Helper_Protocol Lxc Fleet_Db
begin

text \<open>
  \<^verbatim>\<open>helper/server.py\<close>, the only part that runs as root. A request is checked completely before anything is done: a check gives the one
  operation on the host that the request stands for (\<open>host_call\<close>), or refuses. What the operations do is the
  LXC library of \<open>Lxc\<close> and the fields of \<open>helper_env\<close>.
\<close>

datatype helper_error = Refused string | Failed string

text \<open>The operations on the host.\<close>

datatype host_call =
    HostInfo
  | HostList bool bool
  | HostGet string string
  | HostCall string string "json list"
  | HostConfig string
  | HostAttach "string list" "string option" nat
  | HostConsole "string list" int int

text \<open>How a process ended: by itself, or killed at the timeout with what it had written until then.\<close>

datatype process = Exited int string string | TimedOut string

datatype open_error = FileNotFound | OpenFailed string

record 'w helper_env =
  he_lxc :: "'w lxc"
  he_bin :: string
  he_uids :: "int set"
  he_info :: json
  he_list :: "bool \<Rightarrow> bool \<Rightarrow> (string list, 'w) eff"
  he_set_config :: "string \<Rightarrow> string \<Rightarrow> string \<Rightarrow> (bool, 'w) eff"
  he_clear_config :: "string \<Rightarrow> string \<Rightarrow> (bool, 'w) eff"
  he_open :: "string \<Rightarrow> 'w \<Rightarrow> open_error + string"
  he_run :: "string list \<Rightarrow> string option \<Rightarrow> nat \<Rightarrow> (process, 'w) eff"
  he_console :: "string list \<Rightarrow> int \<Rightarrow> int \<Rightarrow> (int \<times> nat, 'w) eff"
  he_b64 :: "string \<Rightarrow> string option"
  he_describe :: "string \<Rightarrow> string"

section \<open>Checks\<close>

definition MAX_TIMEOUT :: int where
  "MAX_TIMEOUT = 3600"

definition STATES :: "string list" where
  "STATES = [''RUNNING'', ''STOPPED'', ''FROZEN'']"

definition READ_CGROUP_KEYS :: "string list" where
  "READ_CGROUP_KEYS = [''memory.stat'', ''memory.usage_in_bytes'', ''memory.limit_in_bytes'', ''memory.memsw.usage_in_bytes'',
     ''cpu.stat'', ''pids.current'']"

definition WRITE_CGROUP_KEYS :: "string list" where
  "WRITE_CGROUP_KEYS = [''memory.max'', ''cpu.shares'']"

definition IFACE :: regex where
  "IFACE = RRep (RCls (one_of ''_.:-'')) 1 15"

definition hex_pair :: regex where
  "hex_pair = RRep (RCls (\<lambda>c. ascii_digit c \<or> c \<in> set ''abcdef'')) 2 2"

definition MAC :: regex where
  "MAC = RSeq (RRep (RSeq hex_pair (rchr (CHR '':''))) 5 5) hex_pair"

definition env_start :: "char \<Rightarrow> bool" where
  "env_start c = (ascii_upper c \<or> ascii_lower c \<or> c = CHR ''_'')"

definition ENV_KEY :: regex where
  "ENV_KEY = RSeq (RCls env_start) (RRep (RCls (\<lambda>c. env_start c \<or> ascii_digit c)) 0 63)"

definition CONFIG_VALUES :: "(string \<times> (string \<Rightarrow> bool)) list" where
  "CONFIG_VALUES = [(''lxc.net.0.type'', \<lambda>v. v = ''macvlan''), (''lxc.net.0.macvlan.mode'', \<lambda>v. v = ''bridge''),
     (''lxc.net.0.link'', re_fullmatch IFACE), (''lxc.net.0.flags'', \<lambda>v. v = ''up''), (''lxc.net.0.hwaddr'', re_fullmatch MAC)]"

definition CLEARABLE_CONFIG_KEYS :: "string list" where
  "CLEARABLE_CONFIG_KEYS = [''lxc.net.0'']"

definition image_dict :: "string \<times> string \<times> string \<Rightarrow> (string \<times> json) list" where
  "image_dict i = (case i of (d, r, a) \<Rightarrow> [(''dist'', JText d), (''release'', JText r), (''arch'', JText a)])"

definition ALLOWED_IMAGES :: "(string \<times> json) list list" where
  "ALLOWED_IMAGES = map (\<lambda>(k, i). image_dict i) OS_IMAGES"

text \<open>Equality of two dicts.\<close>

definition same_dict :: "(string \<times> json) list \<Rightarrow> (string \<times> json) list \<Rightarrow> bool" where
  "same_dict m d = (set (map fst m) = set (map fst d) \<and> list_all (\<lambda>k. map_of m k = map_of d k) (map fst d))"

definition require :: "bool \<Rightarrow> string \<Rightarrow> helper_error + unit" where
  "require c message = (if \<not> c then Inl (Refused message) else Inr ())"

definition then_check :: "helper_error + 'a \<Rightarrow> ('a \<Rightarrow> helper_error + 'b) \<Rightarrow> helper_error + 'b" where
  "then_check r f = (case r of Inl e \<Rightarrow> Inl e | Inr x \<Rightarrow> f x)"

definition check_int :: "json \<Rightarrow> int \<Rightarrow> int \<Rightarrow> string \<Rightarrow> helper_error + int" where
  "check_int v lo hi what = (case v of
     JInt i \<Rightarrow> if lo \<le> i \<and> i \<le> hi then Inr i else Inl (Refused (''invalid '' @ what))
   | _ \<Rightarrow> Inl (Refused (''invalid '' @ what)))"

definition check_container :: "json \<Rightarrow> helper_error + string" where
  "check_container j = (case j of
     JText n \<Rightarrow> (case validate_container_ref (Some n) of Inl e \<Rightarrow> Inl (Refused ''Invalid container name'') | Inr s \<Rightarrow> Inr s)
   | _ \<Rightarrow> Inl (Refused ''Invalid container name''))"

text \<open>\<open>value in a set or dict of texts\<close>: a list or a dict cannot be looked up.\<close>

definition in_set :: "json \<Rightarrow> string list \<Rightarrow> helper_error + bool" where
  "in_set j xs = (case j of JText t \<Rightarrow> Inr (t \<in> set xs) | JArray l \<Rightarrow> Inl (Failed ''TypeError: unhashable type'')
     | JObject d \<Rightarrow> Inl (Failed ''TypeError: unhashable type'') | _ \<Rightarrow> Inr False)"

definition is_text_json :: "json \<Rightarrow> bool" where
  "is_text_json j = (case j of JText t \<Rightarrow> True | _ \<Rightarrow> False)"

definition call_args :: "json \<Rightarrow> json \<Rightarrow> helper_error + unit" where
  "call_args meth args = (case args of JArray l \<Rightarrow>
     (let m = (if is_text_json meth then text_of meth else []) in
      if m \<in> set [''start'', ''stop'', ''destroy'', ''save_config'', ''get_ips'', ''get_interfaces''] then
        require (l = []) (m @ '' takes no arguments'')
      else if m = ''shutdown'' then
        then_check (require (length l = 1) ''shutdown(timeout)'') (\<lambda>_. then_check (check_int (l ! 0) 0 MAX_TIMEOUT ''timeout'') (\<lambda>_. Inr ()))
      else if m = ''wait'' then
        then_check (if length l = 2 then in_set (l ! 0) STATES else Inr False) (\<lambda>ok.
          then_check (require ok ''wait(state, timeout)'') (\<lambda>_. then_check (check_int (l ! 1) 0 MAX_TIMEOUT ''timeout'') (\<lambda>_. Inr ())))
      else if m = ''get_cgroup_item'' then
        then_check (if length l = 1 then in_set (l ! 0) READ_CGROUP_KEYS else Inr False) (\<lambda>ok. require ok ''cgroup key not allowed'')
      else if m = ''set_cgroup_item'' then
        then_check (if length l = 2 then in_set (l ! 0) WRITE_CGROUP_KEYS else Inr False) (\<lambda>ok.
          then_check (require ok ''cgroup key not allowed'') (\<lambda>_.
            require (is_text_json (l ! 1) \<and> (py_isdigit (text_of (l ! 1)) \<or> text_of (l ! 1) = ''max'') \<and> length (text_of (l ! 1)) \<le> 20)
              ''cgroup value must be a number''))
      else if m = ''clear_config_item'' then
        then_check (if length l = 1 then in_set (l ! 0) CLEARABLE_CONFIG_KEYS else Inr False) (\<lambda>ok. require ok ''config key not allowed'')
      else if m = ''set_config_item'' then
        then_check (if length l = 2 \<and> is_text_json (l ! 1) then in_set (l ! 0) (map fst CONFIG_VALUES) else Inr False) (\<lambda>ok.
          require (ok \<and> the (map_of CONFIG_VALUES (text_of (l ! 0))) (text_of (l ! 1))) ''config key/value not allowed'')
      else if m = ''create'' then
        require (length l = 3 \<and> l ! 0 = JText ''download'' \<and> (l ! 1 = JInt 0 \<or> l ! 1 = JBool False) \<and>
          (case l ! 2 of JObject d \<Rightarrow> list_ex (same_dict d) ALLOWED_IMAGES | _ \<Rightarrow> False)) ''only the platform's OS images can be created''
      else Inl (Refused ''method not allowed''))
   | _ \<Rightarrow> Inl (Refused ''args must be a list''))"


section \<open>The operation a request stands for\<close>

text \<open>\<open>req.get(key, default)\<close>.\<close>

definition get_default :: "(string \<times> json) list \<Rightarrow> string \<Rightarrow> json \<Rightarrow> json" where
  "get_default req k d = (case map_of req k of None \<Rightarrow> d | Some v \<Rightarrow> v)"

definition plan_list :: "(string \<times> json) list \<Rightarrow> helper_error + host_call" where
  "plan_list req = (case (get_default req ''active'' (JBool True), get_default req ''defined'' (JBool True)) of
     (JBool a, JBool d) \<Rightarrow> Inr (HostList a d) | _ \<Rightarrow> Inl (Refused ''invalid list flags''))"

definition plan_get :: "(string \<times> json) list \<Rightarrow> helper_error + host_call" where
  "plan_get req = (let a = cell req ''attr'' in
     then_check (require (is_text_json a \<and> text_of a \<in> set [''state'', ''running'', ''init_pid'', ''defined'']) ''attribute not allowed'') (\<lambda>_.
     then_check (check_container (cell req ''name'')) (\<lambda>n. Inr (HostGet n (text_of a)))))"

definition plan_call :: "(string \<times> json) list \<Rightarrow> helper_error + host_call" where
  "plan_call req = (let m = cell req ''method''; args = get_default req ''args'' (JArray []) in
     then_check (call_args m args) (\<lambda>_. then_check (check_container (cell req ''name'')) (\<lambda>n.
       Inr (HostCall n (text_of m) (case args of JArray l \<Rightarrow> l | _ \<Rightarrow> [])))))"

definition plan_config :: "(string \<times> json) list \<Rightarrow> helper_error + host_call" where
  "plan_config req = then_check (check_container (cell req ''name'')) (\<lambda>n. Inr (HostConfig n))"

text \<open>\<open>_attach_argv\<close>: the command line of \<open>lxc-attach\<close>.\<close>

definition valid_env :: "(string \<times> json) list \<Rightarrow> bool" where
  "valid_env e = list_all (\<lambda>(k, v). re_fullmatch ENV_KEY k \<and> is_text_json v \<and> CHR 0x00 \<notin> set (text_of v)) e"

definition attach_argv :: "string \<Rightarrow> (string \<times> json) list \<Rightarrow> helper_error + string list" where
  "attach_argv bin req =
     then_check (check_container (cell req ''name'')) (\<lambda>n.
     then_check (case cell req ''argv'' of
        JArray l \<Rightarrow> if 0 < length l \<and> length l \<le> 256 \<and> list_all (\<lambda>a. is_text_json a \<and> CHR 0x00 \<notin> set (text_of a)) l
          then Inr (map text_of l) else Inl (Refused ''invalid argv'')
      | _ \<Rightarrow> Inl (Refused ''invalid argv'')) (\<lambda>argv.
     then_check (let e = cell req ''env'' in if \<not> truthy e then Inr [] else (case e of
        JObject kvs \<Rightarrow> if valid_env kvs then Inr kvs else Inl (Refused ''invalid env'') | _ \<Rightarrow> Inl (Refused ''invalid env''))) (\<lambda>env.
     Inr ([bin, ''-n'', n] @ concat (map (\<lambda>(k, v). [''-v'', k @ ''='' @ text_of v]) env) @ [''--''] @ argv))))"

definition plan_attach :: "'w helper_env \<Rightarrow> (string \<times> json) list \<Rightarrow> helper_error + host_call" where
  "plan_attach env req =
     then_check (attach_argv (he_bin env) req) (\<lambda>cmd.
     then_check (check_int (get_default req ''run_timeout'' (JInt 300)) 1 MAX_TIMEOUT ''timeout'') (\<lambda>t.
     then_check (let b = cell req ''input_b64'' in if \<not> truthy b then Inr None else (case b of
         JText s \<Rightarrow> (case he_b64 env s of None \<Rightarrow> Inl (Failed ''binascii.Error'') | Some bytes \<Rightarrow> Inr (Some bytes))
       | _ \<Rightarrow> Inl (Failed ''TypeError: argument should be a bytes-like object or ASCII string''))) (\<lambda>stdin.
     Inr (HostAttach cmd stdin (nat t)))))"

definition plan_console :: "'w helper_env \<Rightarrow> (string \<times> json) list \<Rightarrow> helper_error + host_call" where
  "plan_console env req =
     then_check (attach_argv (he_bin env) (AList.update ''env'' (JObject []) (AList.update ''argv'' (JArray [JText ''/bin/bash'', JText ''-l'']) req))) (\<lambda>cmd.
     then_check (check_int (get_default req ''cols'' (JInt 80)) 1 1000 ''cols'') (\<lambda>c.
     then_check (check_int (get_default req ''rows'' (JInt 24)) 1 1000 ''rows'') (\<lambda>r.
     Inr (HostConsole cmd c r))))"

definition OPS :: "string list" where
  "OPS = [''info'', ''list_containers'', ''container_get'', ''container_call'', ''read_config'', ''attach'']"

definition plan :: "'w helper_env \<Rightarrow> json \<Rightarrow> helper_error + host_call" where
  "plan env j = (let req = (case j of JObject kvs \<Rightarrow> kvs | _ \<Rightarrow> []); op = cell req ''op'' in
     if op = JText ''console'' then plan_console env req
     else then_check (in_set op OPS) (\<lambda>known.
       if \<not> known then Inl (Refused ''unknown operation'')
       else if text_of op = ''info'' then Inr HostInfo
       else if text_of op = ''list_containers'' then plan_list req
       else if text_of op = ''container_get'' then plan_get req
       else if text_of op = ''container_call'' then plan_call req
       else if text_of op = ''read_config'' then plan_config req
       else plan_attach env req))"

section \<open>Doing it\<close>

definition json_result :: "('a \<Rightarrow> json) \<Rightarrow> ('a, 'w) eff \<Rightarrow> (json, 'w) eff" where
  "json_result f m = bind_eff m (\<lambda>x. ret (f x))"

definition texts_json :: "string list \<Rightarrow> json" where
  "texts_json ts = JArray (map JText ts)"

definition process_result :: "nat \<Rightarrow> process \<Rightarrow> attach_result" where
  "process_result t p = (case p of
     Exited c out err \<Rightarrow> \<lparr>at_code = c, at_out = out, at_err = err, at_timed_out = False\<rparr>
   | TimedOut out \<Rightarrow> \<lparr>at_code = -1, at_out = out, at_err = ''timeout after '' @ nat_str t @ ''s'', at_timed_out = True\<rparr>)"

definition process_json :: "nat \<Rightarrow> process \<Rightarrow> json" where
  "process_json t p = (let r = process_result t p in JObject [(''returncode'', JInt (at_code r)), (''stdout'', JText (at_out r)),
     (''stderr'', JText (at_err r)), (''timed_out'', JBool (at_timed_out r))])"

definition image_key :: "(string \<times> json) list \<Rightarrow> string \<Rightarrow> string" where
  "image_key d k = text_of (cell d k)"

definition int_of :: "json \<Rightarrow> int" where
  "int_of j = (case j of JInt i \<Rightarrow> i | _ \<Rightarrow> 0)"

definition perform_get :: "'w helper_env \<Rightarrow> string \<Rightarrow> string \<Rightarrow> (json, 'w) eff" where
  "perform_get env n a = (let x = he_lxc env in
     if a = ''state'' then json_result JText (lx_state x n) else if a = ''running'' then json_result JBool (lx_running x n)
     else if a = ''init_pid'' then json_result JInt (lx_init_pid x n) else json_result JBool (lx_defined x n))"

definition perform_call :: "'w helper_env \<Rightarrow> string \<Rightarrow> string \<Rightarrow> json list \<Rightarrow> (json, 'w) eff" where
  "perform_call env n m l = (let x = he_lxc env; arg = (\<lambda>i. text_of (l ! i)) in
     if m = ''start'' then json_result JBool (lx_start x n) else if m = ''stop'' then json_result JBool (lx_stop x n)
     else if m = ''destroy'' then json_result JBool (lx_destroy x n) else if m = ''save_config'' then json_result JBool (lx_save x n)
     else if m = ''get_ips'' then json_result texts_json (lx_ips x n) else if m = ''get_interfaces'' then json_result texts_json (lx_interfaces x n)
     else if m = ''shutdown'' then json_result JBool (lx_shutdown x n (nat (int_of (l ! 0))))
     else if m = ''wait'' then json_result JBool (lx_wait x n (arg 0) (nat (int_of (l ! 1))))
     else if m = ''get_cgroup_item'' then json_result JText (lx_get_cgroup x n (arg 0))
     else if m = ''set_cgroup_item'' then json_result JBool (lx_set_cgroup x n (arg 0) (arg 1))
     else if m = ''clear_config_item'' then json_result JBool (he_clear_config env n (arg 0))
     else if m = ''set_config_item'' then json_result JBool (he_set_config env n (arg 0) (arg 1))
     else (case l ! 2 of
         JObject d \<Rightarrow> json_result JBool (lx_create x n (image_key d ''dist'') (image_key d ''release'') (image_key d ''arch''))
       | _ \<Rightarrow> raise_error ''no image''))"

definition op_read_config :: "'w helper_env \<Rightarrow> string \<Rightarrow> (json, 'w) eff" where
  "op_read_config env n w = (case he_open env n w of
     Inr t \<Rightarrow> (Inr (JText (take 1048576 t)), w) | Inl FileNotFound \<Rightarrow> (Inr JNone, w) | Inl (OpenFailed e) \<Rightarrow> (Inl e, w))"

text \<open>The value of the answer, with the descriptor that is passed along.\<close>

definition perform :: "'w helper_env \<Rightarrow> host_call \<Rightarrow> (json \<times> nat option, 'w) eff" where
  "perform env c = (let plain = (\<lambda>m. bind_eff m (\<lambda>j. ret (j, None))) in case c of
     HostInfo \<Rightarrow> ret (he_info env, None)
   | HostList a d \<Rightarrow> plain (json_result texts_json (if a \<and> d then lx_list (he_lxc env) else he_list env a d))
   | HostGet n a \<Rightarrow> plain (perform_get env n a)
   | HostCall n m l \<Rightarrow> plain (perform_call env n m l)
   | HostConfig n \<Rightarrow> plain (op_read_config env n)
   | HostAttach cmd stdin t \<Rightarrow> plain (json_result (process_json t) (he_run env cmd stdin t))
   | HostConsole cmd cols rows \<Rightarrow> bind_eff (he_console env cmd cols rows) (\<lambda>(pid, fd). ret (JObject [(''pid'', JInt pid)], Some fd)))"

section \<open>A connection\<close>

datatype reply = Done json "nat option" | Declined string | Broken string

definition reply_json :: "reply \<Rightarrow> json" where
  "reply_json r = (case r of
     Done j fd \<Rightarrow> JObject [(''ok'', JBool True), (''result'', j)]
   | Declined e \<Rightarrow> JObject [(''ok'', JBool False), (''kind'', JText ''refused''), (''error'', JText e)]
   | Broken e \<Rightarrow> JObject [(''ok'', JBool False), (''kind'', JText ''error''), (''error'', JText e)])"

definition serve_request :: "'w helper_env \<Rightarrow> json \<Rightarrow> 'w \<Rightarrow> reply \<times> 'w" where
  "serve_request env req w = (case plan env req of
     Inl (Refused e) \<Rightarrow> (Declined e, w)
   | Inl (Failed e) \<Rightarrow> (Broken e, w)
   | Inr c \<Rightarrow> (case perform env c w of (Inl e, w') \<Rightarrow> (Broken (he_describe env e), w') | (Inr (j, fd), w') \<Rightarrow> (Done j fd, w')))"

text \<open>\<open>Handler.handle\<close>: \<open>None\<close> for a peer that is not answered.\<close>

definition handle :: "'w helper_env \<Rightarrow> int \<Rightarrow> string list \<Rightarrow> 'w \<Rightarrow> reply option \<times> 'w" where
  "handle env uid received w =
     (if uid \<notin> he_uids env then (None, w)
      else case recv_message False received of
        Inl e \<Rightarrow> (Some (Broken e), w)
      | Inr (req, rest) \<Rightarrow> (case serve_request env req w of (r, w') \<Rightarrow> (Some r, w')))"

text \<open>\<open>allowed_uids\<close>: root and the service user, if there is one.\<close>

definition allowed_uids :: "(string \<Rightarrow> int option) \<Rightarrow> string \<Rightarrow> int set" where
  "allowed_uids passwd user = (case passwd user of None \<Rightarrow> {0} | Some uid \<Rightarrow> {0, uid})"


section \<open>What a request can lead to\<close>

text \<open>The names, keys and values that reach the host.\<close>

definition container_word :: "string \<Rightarrow> bool" where
  "container_word n = (n \<noteq> [] \<and> ascii_alnum (hd n) \<and> list_all (one_of ''_.-'') n \<and> length n \<le> 64)"

definition env_word :: "string \<Rightarrow> bool" where
  "env_word k = (k \<noteq> [] \<and> \<not> ascii_digit (hd k) \<and> list_all (\<lambda>c. env_start c \<or> ascii_digit c) k)"

definition config_word :: "string \<Rightarrow> bool" where
  "config_word v = (v \<noteq> [] \<and> list_all (one_of ''_.:-'') v)"

text \<open>The allowed calls of the class \<open>Container\<close>.\<close>

definition permitted_call :: "string \<Rightarrow> json list \<Rightarrow> bool" where
  "permitted_call m l \<longleftrightarrow>
     m \<in> {''start'', ''stop'', ''destroy'', ''save_config'', ''get_ips'', ''get_interfaces''} \<and> l = [] \<or>
     m = ''shutdown'' \<and> (\<exists>t. l = [JInt t] \<and> 0 \<le> t \<and> t \<le> 3600) \<or>
     m = ''wait'' \<and> (\<exists>s t. l = [JText s, JInt t] \<and> s \<in> set STATES \<and> 0 \<le> t \<and> t \<le> 3600) \<or>
     m = ''get_cgroup_item'' \<and> (\<exists>k. l = [JText k] \<and> k \<in> set READ_CGROUP_KEYS) \<or>
     m = ''set_cgroup_item'' \<and> (\<exists>k v. l = [JText k, JText v] \<and> k \<in> set WRITE_CGROUP_KEYS \<and> length v \<le> 20 \<and>
       (v = ''max'' \<or> py_isdigit v)) \<or>
     m = ''clear_config_item'' \<and> l = [JText ''lxc.net.0''] \<or>
     m = ''set_config_item'' \<and> (\<exists>k v. l = [JText k, JText v] \<and> k \<in> fst ` set CONFIG_VALUES \<and> config_word v) \<or>
     m = ''create'' \<and> (\<exists>z d i. l = [JText ''download'', z, JObject d] \<and> i \<in> snd ` set OS_IMAGES \<and> map_of d = map_of (image_dict i))"

definition attach_line :: "'w helper_env \<Rightarrow> string \<Rightarrow> (string \<times> string) list \<Rightarrow> string list \<Rightarrow> string list" where
  "attach_line env n vars argv = [he_bin env, ''-n'', n] @ concat (map (\<lambda>(k, v). [''-v'', k @ ''='' @ v]) vars) @ [''--''] @ argv"

definition permitted :: "'w helper_env \<Rightarrow> host_call \<Rightarrow> bool" where
  "permitted env c = (case c of
     HostInfo \<Rightarrow> True
   | HostList a d \<Rightarrow> True
   | HostGet n a \<Rightarrow> container_word n \<and> a \<in> {''state'', ''running'', ''init_pid'', ''defined''}
   | HostCall n m l \<Rightarrow> container_word n \<and> permitted_call m l
   | HostConfig n \<Rightarrow> container_word n
   | HostAttach cmd stdin t \<Rightarrow> 1 \<le> t \<and> t \<le> 3600 \<and>
       (\<exists>n vars argv. container_word n \<and> list_all env_word (map fst vars) \<and> argv \<noteq> [] \<and> cmd = attach_line env n vars argv)
   | HostConsole cmd cols rows \<Rightarrow> 1 \<le> cols \<and> cols \<le> 1000 \<and> 1 \<le> rows \<and> rows \<le> 1000 \<and>
       (\<exists>n. container_word n \<and> cmd = attach_line env n [] [''/bin/bash'', ''-l'']))"

lemma then_check_Inr [simp]: "then_check r f = Inr y \<longleftrightarrow> (\<exists>x. r = Inr x \<and> f x = Inr y)"
  by (auto simp: then_check_def split: sum.splits)

lemma require_Inr [simp]: "require c m = Inr u \<longleftrightarrow> c"
  by (simp add: require_def)

lemma check_int_Inr [simp]: "check_int v lo hi w = Inr i \<longleftrightarrow> v = JInt i \<and> lo \<le> i \<and> i \<le> hi"
  by (auto simp: check_int_def split: json.splits)

lemma in_set_Inr: "in_set j xs = Inr True \<longleftrightarrow> (\<exists>t. j = JText t \<and> t \<in> set xs)"
  by (auto simp: in_set_def split: json.splits)

lemma text_json: "is_text_json j \<longleftrightarrow> (\<exists>t. j = JText t)"
  by (auto simp: is_text_json_def split: json.splits)

lemma text_of_text [simp]: "text_of (JText t) = t"
  by (simp add: text_of_def)

lemma lconc_single: "s \<in> lconc {[c] | c. p c} A \<longleftrightarrow> (\<exists>c t. s = c # t \<and> p c \<and> t \<in> A)"
proof
  assume "s \<in> lconc {[c] | c. p c} A"
  then show "\<exists>c t. s = c # t \<and> p c \<and> t \<in> A" unfolding lconc_def by auto
next
  assume "\<exists>c t. s = c # t \<and> p c \<and> t \<in> A"
  then obtain c t where "s = [c] @ t" "[c] \<in> {[c] | c. p c}" "t \<in> A" by auto
  then show "s \<in> lconc {[c] | c. p c} A" unfolding lconc_def by blast
qed

lemma lpow_single: "s \<in> lpow k {[c] | c. p c} \<longleftrightarrow> length s = k \<and> list_all p s"
proof (induction k arbitrary: s)
  case (Suc k)
  show ?case unfolding lpow.simps lconc_single Suc by (cases s) auto
qed auto

lemma class_repeat: "re_fullmatch (RRep (RCls p) a b) s \<longleftrightarrow> a \<le> length s \<and> length s \<le> b \<and> list_all p s"
  by (auto simp: re_fullmatch_def rmatch_iff lpow_single)

lemma class_word: "re_fullmatch (RSeq (RCls p) (RRep (RCls q) 0 b)) s \<longleftrightarrow> (\<exists>c t. s = c # t \<and> p c \<and> length t \<le> b \<and> list_all q t)"
  by (auto simp: re_fullmatch_def rmatch_iff lconc_single lpow_single)

lemma container_word_iff: "re_fullmatch CONTAINER n \<longleftrightarrow> container_word n"
  unfolding CONTAINER_def alnum_cls_def class_word container_word_def by (cases n) (auto simp: one_of_def)

lemma check_container_Inr: "check_container j = Inr n \<longleftrightarrow> j = JText n \<and> container_word n"
  by (auto simp: check_container_def validators_Inr container_word_iff split: json.splits sum.splits)
     (auto simp: validate_container_ref_def check_pattern_def container_word_iff split: if_splits)

lemma env_key: "re_fullmatch ENV_KEY k \<Longrightarrow> env_word k"
  unfolding ENV_KEY_def class_word env_word_def
  by (auto simp: env_start_def ascii_digit_def ascii_upper_def ascii_lower_def cp_def)

lemma mac_chars: "rchars MAC c \<Longrightarrow> one_of ''_.:-'' c"
proof -
  assume "rchars MAC c"
  then have "ascii_digit c \<or> c \<in> set ''abcdef:''" by (auto simp: MAC_def hex_pair_def)
  moreover have "list_all (one_of ''_.:-'') ''abcdef:''" by code_simp
  ultimately show ?thesis unfolding list_all_iff by (metis ascii_alnum_def one_of_def)
qed

lemma mac_word: "re_fullmatch MAC v \<Longrightarrow> config_word v"
proof -
  assume a: "re_fullmatch MAC v"
  then have "one_of ''_.:-'' c" if "c \<in> set v" for c using rmatch_chars [of MAC v c] that mac_chars by (simp add: re_fullmatch_def)
  moreover have "\<not> nullable MAC" by (simp add: MAC_def hex_pair_def)
  then have "v \<noteq> []" using a by (auto simp: re_fullmatch_def)
  ultimately show ?thesis by (simp add: config_word_def list_all_iff)
qed

lemma config_values: "map_of CONFIG_VALUES k = Some f \<Longrightarrow> f v \<Longrightarrow> config_word v"
proof -
  assume k: "map_of CONFIG_VALUES k = Some f" and v: "f v"
  have i: "re_fullmatch IFACE v \<Longrightarrow> config_word v" unfolding IFACE_def class_repeat config_word_def by auto
  have w: "config_word ''macvlan''" "config_word ''bridge''" "config_word ''up''" by code_simp+
  have "f \<in> {\<lambda>v. v = ''macvlan'', \<lambda>v. v = ''bridge'', re_fullmatch IFACE, \<lambda>v. v = ''up'', re_fullmatch MAC}"
    using map_of_SomeD [OF k] by (auto simp: CONFIG_VALUES_def)
  then show ?thesis using v mac_word i w by auto
qed

lemma config_value: "k \<in> fst ` set CONFIG_VALUES \<Longrightarrow> the (map_of CONFIG_VALUES k) v \<Longrightarrow> config_word v"
  by (cases "map_of CONFIG_VALUES k") (auto simp: map_of_eq_None_iff intro: config_values)

lemma same_dict_iff: "same_dict m d \<longleftrightarrow> map_of m = map_of d"
proof
  assume s: "same_dict m d"
  show "map_of m = map_of d"
  proof
    fix k
    show "map_of m k = map_of d k"
    proof (cases "k \<in> set (map fst d)")
      case True
      then show ?thesis using s by (auto simp: same_dict_def list_all_iff)
    next
      case False
      then have "map_of m k = None" "map_of d k = None" using s by (simp_all add: same_dict_def map_of_eq_None_iff image_image)
      then show ?thesis by simp
    qed
  qed
next
  assume "map_of m = map_of d"
  moreover from this have "fst ` set m = fst ` set d" by (metis dom_map_of_conv_image_fst)
  ultimately show "same_dict m d" by (simp add: same_dict_def list_all_iff)
qed

lemma in_set_True [simp]: "(if c then in_set j xs else Inr False) = Inr True \<longleftrightarrow> c \<and> (\<exists>t. j = JText t \<and> t \<in> set xs)"
  by (simp add: in_set_Inr)

lemma length_list_conv:
  "length l = Suc 0 \<longleftrightarrow> (\<exists>a. l = [a])" "length l = 2 \<longleftrightarrow> (\<exists>a b. l = [a, b])" "length l = 3 \<longleftrightarrow> (\<exists>a b c. l = [a, b, c])"
  by (auto simp: length_Suc_conv numeral_2_eq_2 numeral_3_eq_3)

lemma allowed_image: "list_ex (same_dict d) ALLOWED_IMAGES \<Longrightarrow> \<exists>i \<in> snd ` set OS_IMAGES. map_of d = map_of (image_dict i)"
  by (force simp: ALLOWED_IMAGES_def list_ex_iff same_dict_iff)

lemma call_args_permitted: "call_args m (JArray l) = Inr u \<Longrightarrow> permitted_call (text_of m) l"
proof -
  assume a: "call_args m (JArray l) = Inr u"
  let ?t = "if is_text_json m then text_of m else []"
  have t: "?t = text_of m" by (simp add: is_text_json_def text_of_def split: json.splits)
  note b = a [unfolded call_args_def json.case Let_def t]
  have "text_of m \<in> set [''start'', ''stop'', ''destroy'', ''save_config'', ''get_ips'', ''get_interfaces''] \<or> text_of m = ''shutdown'' \<or>
    text_of m = ''wait'' \<or> text_of m = ''get_cgroup_item'' \<or> text_of m = ''set_cgroup_item'' \<or> text_of m = ''clear_config_item'' \<or>
    text_of m = ''set_config_item'' \<or> text_of m = ''create''" (is ?D)
  proof (rule ccontr)
    assume "\<not> ?D"
    then show False using b by (simp only: de_Morgan_disj if_False sum.distinct)
  qed
  then show ?thesis
  proof (elim disjE)
    assume plain: "text_of m \<in> set [''start'', ''stop'', ''destroy'', ''save_config'', ''get_ips'', ''get_interfaces'']"
    then have "l = []" using b by (simp only: if_True require_Inr)
    then show ?thesis using plain unfolding permitted_call_def by simp
  next
    assume "text_of m = ''shutdown''"
    then show ?thesis using b unfolding permitted_call_def
      by (auto simp: MAX_TIMEOUT_def length_list_conv)
  next
    assume "text_of m = ''wait''"
    then show ?thesis using b unfolding permitted_call_def
      by (auto simp: MAX_TIMEOUT_def length_list_conv)
  next
    assume "text_of m = ''get_cgroup_item''"
    then show ?thesis using b unfolding permitted_call_def
      by (auto simp: length_list_conv)
  next
    assume "text_of m = ''set_cgroup_item''"
    then show ?thesis using b unfolding permitted_call_def
      by (auto simp: length_list_conv text_json)
  next
    assume "text_of m = ''clear_config_item''"
    then show ?thesis using b unfolding permitted_call_def
      by (auto simp: length_list_conv CLEARABLE_CONFIG_KEYS_def)
  next
    assume m: "text_of m = ''set_config_item''"
    with b obtain k v where l: "l = [JText k, JText v]" "k \<in> set (map fst CONFIG_VALUES)" "the (map_of CONFIG_VALUES k) v"
      by (auto simp: length_list_conv text_json simp del: set_map)
    then show ?thesis using m config_value [OF _ l(3)] unfolding permitted_call_def by auto
  next
    assume m: "text_of m = ''create''"
    with b obtain z d where l: "l = [JText ''download'', z, JObject d]" "list_ex (same_dict d) ALLOWED_IMAGES"
      by (auto simp: length_list_conv split: json.splits)
    from allowed_image [OF l(2)] m show ?thesis unfolding l(1) permitted_call_def by auto
  qed
qed


lemma attach_argv_line:
  assumes "attach_argv (he_bin env) req = Inr cmd"
  shows "\<exists>n vars argv. container_word n \<and> list_all env_word (map fst vars) \<and> argv \<noteq> [] \<and> cmd = attach_line env n vars argv \<and>
    (\<forall>l. cell req ''argv'' = JArray l \<longrightarrow> argv = map text_of l) \<and> (cell req ''env'' = JObject [] \<longrightarrow> vars = [])"
proof -
  obtain n l e where n: "container_word n" and l: "cell req ''argv'' = JArray l" "l \<noteq> []"
    and e: "(if \<not> truthy (cell req ''env'') then Inr [] else (case cell req ''env'' of
        JObject kvs \<Rightarrow> if valid_env kvs then Inr kvs else Inl (Refused ''invalid env'') | _ \<Rightarrow> Inl (Refused ''invalid env''))) = Inr e"
    and cmd: "cmd = [he_bin env, ''-n'', n] @ concat (map (\<lambda>(k, v). [''-v'', k @ ''='' @ text_of v]) e) @ [''--''] @ map text_of l"
    using assms by (auto simp: attach_argv_def Let_def check_container_Inr split: json.splits if_splits)
  have "list_all env_word (map fst e)"
    using e by (auto simp: valid_env_def list_all_iff env_key split: json.splits if_splits)
  moreover have "e = []" if "cell req ''env'' = JObject []" using e that by (simp add: truthy_def)
  moreover have "cmd = attach_line env n (map (\<lambda>(k, v). (k, text_of v)) e) (map text_of l)"
    by (simp add: cmd attach_line_def comp_def case_prod_unfold)
  ultimately show ?thesis using n l by (intro exI [of _ n] exI [of _ "map (\<lambda>(k, v). (k, text_of v)) e"] exI [of _ "map text_of l"])
    (auto simp: comp_def case_prod_beta)
qed

lemma plan_permitted: "plan env j = Inr c \<Longrightarrow> permitted env c"
proof -
  assume p: "plan env j = Inr c"
  define req where "req = (case j of JObject kvs \<Rightarrow> kvs | _ \<Rightarrow> [])"
  consider "plan_console env req = Inr c" | "c = HostInfo" | "plan_list req = Inr c" | "plan_get req = Inr c" | "plan_call req = Inr c"
    | "plan_config req = Inr c" | "plan_attach env req = Inr c"
    using p unfolding plan_def Let_def req_def [symmetric] by (auto split: if_splits)
  then show ?thesis
  proof cases
    case 1
    then obtain cmd cols rows where c: "c = HostConsole cmd cols rows" "1 \<le> cols" "cols \<le> 1000" "1 \<le> rows" "rows \<le> 1000"
      and cmd: "attach_argv (he_bin env) (AList.update ''env'' (JObject []) (AList.update ''argv'' (JArray [JText ''/bin/bash'', JText ''-l'']) req)) = Inr cmd"
      by (auto simp: plan_console_def)
    from attach_argv_line [OF cmd] c show ?thesis by (auto simp: permitted_def cell_def update_conv')
  next
    case 3
    then show ?thesis by (auto simp: plan_list_def permitted_def split: json.splits)
  next
    case 4
    then show ?thesis by (auto simp: plan_get_def Let_def permitted_def check_container_Inr)
  next
    case 5
    then obtain l n where "get_default req ''args'' (JArray []) = JArray l" and l: "call_args (cell req ''method'') (JArray l) = Inr ()"
        "container_word n" "c = HostCall n (text_of (cell req ''method'')) l"
      by (auto simp: plan_call_def Let_def check_container_Inr split: json.splits) (auto simp: call_args_def split: json.splits)
    then show ?thesis using call_args_permitted [OF l(1)] by (simp add: permitted_def)
  next
    case 6
    then show ?thesis by (auto simp: plan_config_def permitted_def check_container_Inr)
  next
    case 7
    then obtain cmd stdin t where c: "c = HostAttach cmd stdin (nat t)" "1 \<le> t" "t \<le> 3600"
      and cmd: "attach_argv (he_bin env) req = Inr cmd" by (auto simp: plan_attach_def MAX_TIMEOUT_def)
    from attach_argv_line [OF cmd] c show ?thesis by (auto simp: permitted_def)
  qed (simp add: permitted_def)
qed

text \<open>The words of the command line up to the first \<open>--\<close> are the options, the others run in the container.\<close>

lemma attach_line_split:
  assumes "he_bin env \<noteq> ''--''" and "container_word n"
  shows "dropWhile (\<lambda>w. w \<noteq> ''--'') (attach_line env n vars argv) = ''--'' # argv"
proof -
  have "n \<noteq> ''--''" using assms(2) alnum_not_dash by (auto simp: container_word_def)
  moreover have "dropWhile (\<lambda>w. w \<noteq> ''--'') (concat (map (\<lambda>(k, v). [''-v'', k @ ''='' @ v]) vars) @ ''--'' # argv) = ''--'' # argv"
  proof (induction vars)
    case (Cons kv vars)
    obtain k v where kv: "kv = (k, v)" by (cases kv)
    have "k @ ''='' @ v \<noteq> ''--''"
    proof
      assume "k @ ''='' @ v = ''--''"
      moreover have "CHR ''='' \<in> set (k @ ''='' @ v)" by simp
      ultimately show False by simp
    qed
    then show ?case using Cons kv by simp
  qed simp
  ultimately show ?thesis using assms(1) by (simp add: attach_line_def)
qed


lemma served: "serve_request env req w = (r, w') \<Longrightarrow>
  (case r of Done j fd \<Rightarrow> \<exists>c. permitted env c \<and> perform env c w = (Inr (j, fd), w')
   | Declined e \<Rightarrow> w' = w
   | Broken e \<Rightarrow> w' = w \<or> (\<exists>c e'. permitted env c \<and> perform env c w = (Inl e', w')))"
proof (cases "plan env req")
  case (Inr c)
  obtain x v where p: "perform env c w = (x, v)" by (cases "perform env c w")
  show "serve_request env req w = (r, w') \<Longrightarrow> ?thesis"
    using Inr p plan_permitted [OF Inr] by (cases x) (auto simp: serve_request_def)
qed (auto simp: serve_request_def split: helper_error.splits)

text \<open>
  C37: whatever bytes a peer sends, a peer that is neither root nor the service user changes nothing and gets no
  answer; any other reaches the host through one of the listed operations or not at all. A result is the
  result of such an operation, a refusal has changed nothing. The operations name containers only by words
  of at most 64 letters, digits, dots, dashes and underscores that start with a letter or digit; a command
  runs as \<open>lxc-attach -n NAME ... -- ARGV\<close>, where the words after the first \<open>--\<close> are the ones to run in the
  container; the only settings changed are the five of the network interface, to values without blanks,
  slashes or line breaks.
\<close>

theorem helper_confined:
  assumes "handle env uid received w = (r, w')" and "he_bin env \<noteq> ''--''"
  shows "(uid \<notin> he_uids env \<longrightarrow> r = None \<and> w' = w) \<and>
    (case r of
       None \<Rightarrow> w' = w
     | Some (Done j fd) \<Rightarrow> \<exists>c. permitted env c \<and> perform env c w = (Inr (j, fd), w')
     | Some (Declined e) \<Rightarrow> w' = w
     | Some (Broken e) \<Rightarrow> w' = w \<or> (\<exists>c e'. permitted env c \<and> perform env c w = (Inl e', w'))) \<and>
    (\<forall>c cmd stdin t. permitted env c \<longrightarrow> c = HostAttach cmd stdin t \<longrightarrow>
       (\<exists>n vars argv. container_word n \<and> argv \<noteq> [] \<and> cmd = attach_line env n vars argv \<and>
          dropWhile (\<lambda>x. x \<noteq> ''--'') cmd = ''--'' # argv))"
proof -
  have "case r of
       None \<Rightarrow> w' = w
     | Some (Done j fd) \<Rightarrow> \<exists>c. permitted env c \<and> perform env c w = (Inr (j, fd), w')
     | Some (Declined e) \<Rightarrow> w' = w
     | Some (Broken e) \<Rightarrow> w' = w \<or> (\<exists>c e'. permitted env c \<and> perform env c w = (Inl e', w'))"
  proof (cases "uid \<in> he_uids env")
    case True
    show ?thesis
    proof (cases "recv_message False received")
      case (Inl e)
      then show ?thesis using assms(1) True by (auto simp: handle_def)
    next
      case (Inr p)
      then obtain req rest where p: "recv_message False received = Inr (req, rest)" by (cases p) auto
      obtain q where q: "serve_request env req w = (q, w')" "r = Some q"
        using assms(1) True p by (auto simp: handle_def split: prod.splits)
      show ?thesis using served [OF q(1)] unfolding q(2) option.case .
    qed
  qed (use assms(1) in \<open>auto simp: handle_def\<close>)
  moreover have "uid \<notin> he_uids env \<longrightarrow> r = None \<and> w' = w" using assms(1) by (auto simp: handle_def)
  moreover have "\<exists>n vars argv. container_word n \<and> argv \<noteq> [] \<and> cmd = attach_line env n vars argv \<and>
          dropWhile (\<lambda>x. x \<noteq> ''--'') cmd = ''--'' # argv" if "permitted env (HostAttach cmd stdin t)" for cmd stdin t
    using that attach_line_split [OF assms(2)] by (fastforce simp: permitted_def)
  ultimately show ?thesis by blast
qed


section \<open>A host for the witnesses\<close>

text \<open>One container, and whether it runs; what comes back is short.\<close>

definition tiny_host :: "bool lxc" where
  "tiny_host =
     \<lparr>lx_list = (\<lambda>w. (Inr [''a''], w)), lx_create = (\<lambda>n d r a w. (Inr True, False)),
      lx_set_cgroup = (\<lambda>n k v w. (Inr True, w)), lx_save = (\<lambda>n w. (Inr True, w)), lx_start = (\<lambda>n w. (Inr True, True)),
      lx_stop = (\<lambda>n w. (Inr True, False)), lx_shutdown = (\<lambda>n t w. (Inr True, False)), lx_destroy = (\<lambda>n w. (Inr True, False)),
      lx_wait = (\<lambda>n s t w. (Inr True, w)), lx_running = (\<lambda>n w. (Inr w, w)),
      lx_state = (\<lambda>n w. (Inr (if w then ''RUNNING'' else ''STOPPED''), w)), lx_init_pid = (\<lambda>n w. (Inr 1, w)), lx_ips = (\<lambda>n w. (Inr [''10.0.3.7''], w)),
      lx_attach = (\<lambda>n argv i t w. (Inr \<lparr>at_code = 0, at_out = [], at_err = [], at_timed_out = False\<rparr>, w)),
      lx_defined = (\<lambda>n w. (Inr True, w)), lx_get_cgroup = (\<lambda>n k w. (Inr ''0'', w)),
      lx_interfaces = (\<lambda>n w. (Inr [''eth0''], w)), lx_config = (\<lambda>n w. (Inr None, w)),
      lx_sleep = (\<lambda>d w. w), lx_clock = (\<lambda>w. 0)\<rparr>"

definition demo_env :: "'w lxc \<Rightarrow> 'w helper_env" where
  "demo_env x = \<lparr>he_lxc = x, he_bin = ''lxc-attach'', he_uids = {0, 990}, he_info = JNone, he_list = (\<lambda>a d. lx_list x),
     he_set_config = (\<lambda>n k v w. (Inr True, w)), he_clear_config = (\<lambda>n k w. (Inr True, w)), he_open = (\<lambda>n w. Inl FileNotFound),
     he_run = (\<lambda>cmd i t w. (Inr (Exited 0 [] []), w)), he_console = (\<lambda>cmd c r w. (Inr (1, 7), w)),
     he_b64 = (\<lambda>s. Some (map char_of (b64decode s))), he_describe = (\<lambda>e. ''RuntimeError'')\<rparr>"

abbreviation tiny_env :: "bool helper_env" where
  "tiny_env \<equiv> demo_env tiny_host"

theorem helper_confined_witness:
  "\<exists>data. send_message (JObject [(''op'', JText ''container_call''), (''name'', JText ''a''), (''method'', JText ''start'')]) = Some data \<and>
     handle tiny_env 990 [data] False = (Some (Done (JBool True) None), True) \<and>
     (\<exists>c. permitted tiny_env c \<and> perform tiny_env c False = (Inr (JBool True, None), True))"
proof -
  let ?req = "JObject [(''op'', JText ''container_call''), (''name'', JText ''a''), (''method'', JText ''start'')]"
  have len: "length (dumps ?req) \<le> 100" by code_simp
  then obtain data where data: "send_message ?req = Some data" by (simp add: send_message_def Let_def)
  have "data \<noteq> []" using sent_parts(1) [OF data] by (auto simp: pack_length_def)
  then have "carries [data] data" by (simp add: carries_def)
  from recv_sent [OF _ _ data this, of False] len
  have "recv_message False [data] = Inr (?req, [])" by (simp add: MAX_MESSAGE_def)
  moreover have "plan tiny_env ?req = Inr (HostCall ''a'' ''start'' [])"
  proof -
    have "container_word ''a''" by code_simp
    then have "check_container (JText ''a'') = Inr ''a''" by (simp add: check_container_Inr)
    then show ?thesis
      by (simp add: plan_def Let_def cell_def in_set_def OPS_def then_check_def plan_call_def get_default_def call_args_def is_text_json_def require_def)
  qed
  ultimately have h: "handle tiny_env 990 [data] False = (Some (Done (JBool True) None), True)"
    by (simp add: handle_def serve_request_def perform_def perform_call_def demo_env_def tiny_host_def json_result_def bind_eff_def ret_def Let_def)
  have "he_bin tiny_env \<noteq> ''--''" by (simp add: demo_env_def)
  from helper_confined [OF h this] data h show ?thesis by auto
qed

end
