(* ===== verification/Helper_Client.thy ===== *)
theory Helper_Client
  imports Helper
begin

text \<open>
  \<^verbatim>\<open>helper/client.py\<close> and \<^verbatim>\<open>core/lxc_backend.py\<close>: the LXC library as the web application sees it, through the
  helper (\<open>helper_lxc\<close>) or, as root, directly (\<open>direct_lxc\<close>). For what the application asks, the two are the same
  (\<open>helper_is_direct\<close>); whatever it asks, the helper's library keeps containers apart as the direct one does.
\<close>

section \<open>The client\<close>

record 'w link =
  lk_env :: "'w helper_env"
  lk_uid :: int
  lk_up :: bool
  lk_cut :: "string \<Rightarrow> string list"

definition read_reply :: "reply \<Rightarrow> bool \<Rightarrow> string + json \<times> string list \<Rightarrow> string + json \<times> nat option" where
  "read_reply r want received = (case received of
     Inl e \<Rightarrow> Inl e
   | Inr (JObject kvs, rest) \<Rightarrow>
       if truthy (cell kvs ''ok'') then Inr (cell kvs ''result'', if want then (case r of Done j fd \<Rightarrow> fd | _ \<Rightarrow> None) else None)
       else if cell kvs ''kind'' = JText ''refused'' then Inl (''LXC helper refused: '' @ text_of (cell kvs ''error''))
       else Inl (text_of (cell kvs ''error''))
   | Inr (other, rest) \<Rightarrow> Inl ''malformed helper response'')"

definition client_request :: "'w link \<Rightarrow> bool \<Rightarrow> (string \<times> json) list \<Rightarrow> (json \<times> nat option, 'w) eff" where
  "client_request l want payload w =
     (if \<not> lk_up l then (Inl ''LXC helper not reachable'', w)
      else case send_message (JObject payload) of
        None \<Rightarrow> (Inl ''struct.error'', w)
      | Some data \<Rightarrow> (case handle (lk_env l) (lk_uid l) (lk_cut l data) w of
          (None, w') \<Rightarrow> (Inl ''helper connection closed mid-message'', w')
        | (Some r, w') \<Rightarrow> (case send_message (reply_json r) of
            None \<Rightarrow> (Inl ''helper connection closed mid-message'', w')
          | Some answer \<Rightarrow> (read_reply r want (recv_message want (lk_cut l answer)), w'))))"

definition call :: "'w link \<Rightarrow> string \<Rightarrow> (string \<times> json) list \<Rightarrow> (json, 'w) eff" where
  "call l op kwargs = bind_eff (client_request l False ((''op'', JText op) # kwargs)) (\<lambda>(j, fd). ret j)"

definition container_get :: "'w link \<Rightarrow> string \<Rightarrow> string \<Rightarrow> (json, 'w) eff" where
  "container_get l n a = call l ''container_get'' [(''name'', JText n), (''attr'', JText a)]"

definition container_call :: "'w link \<Rightarrow> string \<Rightarrow> string \<Rightarrow> json list \<Rightarrow> (json, 'w) eff" where
  "container_call l n m args = call l ''container_call'' [(''name'', JText n), (''method'', JText m), (''args'', JArray args)]"

definition bytes_of :: "string \<Rightarrow> string" where
  "bytes_of s = map char_of (utf8 s)"

definition attach_result_of :: "json \<Rightarrow> attach_result" where
  "attach_result_of j = (case j of
     JObject kvs \<Rightarrow> \<lparr>at_code = int_of (cell kvs ''returncode''), at_out = text_of (cell kvs ''stdout''),
       at_err = text_of (cell kvs ''stderr''), at_timed_out = (cell kvs ''timed_out'' = JBool True)\<rparr>
   | _ \<Rightarrow> \<lparr>at_code = 0, at_out = [], at_err = [], at_timed_out = False\<rparr>)"

definition attach_payload :: "string \<Rightarrow> string list \<Rightarrow> (string \<times> string) list \<Rightarrow> string option \<Rightarrow> nat \<Rightarrow> (string \<times> json) list" where
  "attach_payload n argv env input t = [(''name'', JText n), (''argv'', JArray (map JText argv)),
     (''env'', JObject (map (\<lambda>(k, v). (k, JText v)) env)),
     (''input_b64'', case input of None \<Rightarrow> JNone | Some bytes \<Rightarrow> JText (b64encode (map cp bytes))), (''run_timeout'', JInt (int t))]"

definition client_attach_run :: "'w link \<Rightarrow> string \<Rightarrow> string list \<Rightarrow> (string \<times> string) list \<Rightarrow> string option \<Rightarrow> nat \<Rightarrow> (attach_result, 'w) eff" where
  "client_attach_run l n argv env input t =
     bind_eff (call l ''attach'' (attach_payload n argv env input t)) (\<lambda>j. ret (attach_result_of j))"

definition client_open_console :: "'w link \<Rightarrow> string \<Rightarrow> int \<Rightarrow> int \<Rightarrow> (nat, 'w) eff" where
  "client_open_console l n cols rows =
     bind_eff (client_request l True [(''op'', JText ''console''), (''name'', JText n), (''cols'', JInt cols), (''rows'', JInt rows)])
       (\<lambda>(j, fd). case fd of None \<Rightarrow> raise_error ''helper did not return a console'' | Some d \<Rightarrow> ret d)"

definition client_read_config :: "'w link \<Rightarrow> string \<Rightarrow> (string option, 'w) eff" where
  "client_read_config l n = bind_eff (call l ''read_config'' [(''name'', JText n)])
     (\<lambda>j. ret (case j of JText t \<Rightarrow> Some t | _ \<Rightarrow> None))"

definition as_bool :: "json \<Rightarrow> bool" where
  "as_bool j = (j = JBool True)"

definition as_texts :: "json \<Rightarrow> string list" where
  "as_texts j = (case j of JArray l \<Rightarrow> map text_of l | _ \<Rightarrow> [])"

definition result_as :: "(json \<Rightarrow> 'a) \<Rightarrow> (json, 'w) eff \<Rightarrow> ('a, 'w) eff" where
  "result_as f m = bind_eff m (\<lambda>j. ret (f j))"

text \<open>The class \<open>Container\<close> and the functions of the module: the library as the application sees it.\<close>

definition helper_lxc :: "'w link \<Rightarrow> 'w lxc" where
  "helper_lxc l =
     \<lparr>lx_list = result_as as_texts (call l ''list_containers'' [(''active'', JBool True), (''defined'', JBool True)]),
      lx_create = (\<lambda>n d r a. result_as as_bool (container_call l n ''create'' [JText ''download'', JInt 0, JObject (image_dict (d, r, a))])),
      lx_set_cgroup = (\<lambda>n k v. result_as as_bool (container_call l n ''set_cgroup_item'' [JText k, JText v])),
      lx_save = (\<lambda>n. result_as as_bool (container_call l n ''save_config'' [])),
      lx_start = (\<lambda>n. result_as as_bool (container_call l n ''start'' [])),
      lx_stop = (\<lambda>n. result_as as_bool (container_call l n ''stop'' [])),
      lx_shutdown = (\<lambda>n t. result_as as_bool (container_call l n ''shutdown'' [JInt (int t)])),
      lx_destroy = (\<lambda>n. result_as as_bool (container_call l n ''destroy'' [])),
      lx_wait = (\<lambda>n s t. result_as as_bool (container_call l n ''wait'' [JText s, JInt (int t)])),
      lx_running = (\<lambda>n. result_as as_bool (container_get l n ''running'')),
      lx_state = (\<lambda>n. result_as text_of (container_get l n ''state'')),
      lx_init_pid = (\<lambda>n. result_as int_of (container_get l n ''init_pid'')),
      lx_ips = (\<lambda>n. result_as as_texts (container_call l n ''get_ips'' [])),
      lx_attach = (\<lambda>n argv i t. client_attach_run l n argv [] (map_option bytes_of i) t),
      lx_defined = (\<lambda>n. result_as as_bool (container_get l n ''defined'')),
      lx_get_cgroup = (\<lambda>n k. result_as text_of (container_call l n ''get_cgroup_item'' [JText k])),
      lx_interfaces = (\<lambda>n. result_as as_texts (container_call l n ''get_interfaces'' [])),
      lx_config = client_read_config l,
      lx_sleep = lx_sleep (he_lxc (lk_env l)), lx_clock = lx_clock (he_lxc (lk_env l))\<rparr>"

section \<open>The library used directly\<close>

definition attach_run :: "'w helper_env \<Rightarrow> string \<Rightarrow> string list \<Rightarrow> (string \<times> string) list \<Rightarrow> string option \<Rightarrow> nat \<Rightarrow> (attach_result, 'w) eff" where
  "attach_run env n argv vars input t =
     bind_eff (he_run env (attach_cmd n vars argv) input t) (\<lambda>p. ret (process_result t p))"

definition read_container_config :: "'w helper_env \<Rightarrow> string \<Rightarrow> (string option, 'w) eff" where
  "read_container_config env n w = (case he_open env n w of Inr t \<Rightarrow> (Inr (Some (take 1048576 t)), w) | Inl e \<Rightarrow> (Inr None, w))"

definition direct_lxc :: "'w helper_env \<Rightarrow> 'w lxc" where
  "direct_lxc env = (he_lxc env)\<lparr>
     lx_attach := (\<lambda>n argv i t. attach_run env n argv [] (map_option bytes_of i) t),
     lx_config := read_container_config env\<rparr>"

section \<open>Sizes\<close>

text \<open>A bound on the length of a written value.\<close>

fun weight :: "json \<Rightarrow> nat" and weight_items :: "json list \<Rightarrow> nat" and weight_pairs :: "(string \<times> json) list \<Rightarrow> nat" where
  "weight JNone = 4"
| "weight (JBool b) = 5"
| "weight (JInt i) = length (int_str i)"
| "weight (JText s) = 6 * length s + 2"
| "weight (JArray js) = weight_items js + 2"
| "weight (JObject kvs) = weight_pairs kvs + 2"
| "weight_items [] = 0"
| "weight_items (j # js) = weight j + 2 + weight_items js"
| "weight_pairs [] = 0"
| "weight_pairs ((k, v) # kvs) = 6 * length k + 6 + weight v + weight_pairs kvs"

lemma length_escape: "length (ascii_escape c) \<le> 6"
  by (simp add: ascii_escape_def json_escape_def)

lemma length_json_text: "length (json_text s) \<le> 6 * length s + 2"
proof -
  have "length (concat (map ascii_escape s)) \<le> 6 * length s"
  proof (induction s)
    case (Cons c s)
    then show ?case using length_escape [of c] by simp
  qed simp
  then show ?thesis by (simp add: json_text_def)
qed

lemma length_dumps:
  "length (dumps j) \<le> weight j" "length (dumps_items js) \<le> weight_items js" "length (dumps_pairs kvs) \<le> weight_pairs kvs"
proof (induction j and js and kvs rule: dumps_dumps_items_dumps_pairs.induct)
  case (4 s)
  then show ?case using length_json_text [of s] by simp
next
  case (11 k v)
  then show ?case using length_json_text [of k] by simp
next
  case (12 k v p kvs)
  then show ?case using length_json_text [of k] by simp
qed auto

text \<open>A message that can be sent and received.\<close>

definition fits :: "json \<Rightarrow> bool" where
  "fits j = (wf_json j \<and> length (dumps j) \<le> MAX_MESSAGE)"

lemma fitsI: "wf_json j \<Longrightarrow> weight j \<le> 67108864 \<Longrightarrow> fits j"
  using length_dumps(1) [of j] by (simp add: fits_def MAX_MESSAGE_def)

lemma small_int: "0 \<le> i \<Longrightarrow> i \<le> 3600 \<Longrightarrow> length (int_str i) \<le> 4"
proof -
  assume i: "0 \<le> i" "i \<le> 3600"
  then have "length (nat_str (nat i)) \<le> length (nat_str 3600)" by (intro length_nat_str_mono) simp
  also have "length (nat_str 3600) = 4" by code_simp
  finally show ?thesis using i by (simp add: int_str_def)
qed

section \<open>A call\<close>

text \<open>The link works: the helper listens, knows the user, and messages arrive in some pieces.\<close>

definition link_ok :: "'w link \<Rightarrow> bool" where
  "link_ok l \<longleftrightarrow> lk_up l \<and> lk_uid l \<in> he_uids (lk_env l) \<and> (\<forall>s. carries (lk_cut l s) s) \<and>
     he_bin (lk_env l) = ''lxc-attach'' \<and> (\<forall>bytes. he_b64 (lk_env l) (b64encode (map cp bytes)) = Some bytes)"

text \<open>What the host returns can be sent back.\<close>

definition answers_fit :: "'w helper_env \<Rightarrow> bool" where
  "answers_fit env \<longleftrightarrow>
     (\<forall>c w j fd w'. perform env c w = (Inr (j, fd), w') \<longrightarrow> fits (reply_json (Done j fd))) \<and>
     (\<forall>c w e w'. perform env c w = (Inl e, w') \<longrightarrow> fits (reply_json (Broken (he_describe env e))))"

lemma sends: "fits j \<Longrightarrow> \<exists>data. send_message j = Some data"
  by (simp add: fits_def send_message_def Let_def MAX_MESSAGE_def)

lemma received: "fits j \<Longrightarrow> send_message j = Some data \<Longrightarrow> link_ok l \<Longrightarrow> recv_message want (lk_cut l data) = Inr (j, [])"
  by (rule recv_sent) (auto simp: fits_def link_ok_def)

lemma read_done: "read_reply (Done j fd) want (Inr (reply_json (Done j fd), [])) = Inr (j, if want then fd else None)"
  by (simp add: read_reply_def reply_json_def cell_def truthy_def)

lemma read_broken: "\<exists>e'. read_reply (Broken e) want (Inr (reply_json (Broken e), [])) = Inl e'"
  by (simp add: read_reply_def reply_json_def cell_def truthy_def)

text \<open>A call does the operation that the request stands for and returns its result.\<close>

lemma call_done:
  assumes l: "link_ok l" "answers_fit (lk_env l)" and req: "fits (JObject ((''op'', JText op) # kw))"
    and p: "plan (lk_env l) (JObject ((''op'', JText op) # kw)) = Inr c"
  shows "(\<forall>j fd w'. perform (lk_env l) c w = (Inr (j, fd), w') \<longrightarrow> call l op kw w = (Inr j, w')) \<and>
    (\<forall>e w'. perform (lk_env l) c w = (Inl e, w') \<longrightarrow> (\<exists>e'. call l op kw w = (Inl e', w')))"
proof -
  obtain data where data: "send_message (JObject ((''op'', JText op) # kw)) = Some data" using sends [OF req] by blast
  have h: "handle (lk_env l) (lk_uid l) (lk_cut l data) w = (case perform (lk_env l) c w of
      (Inl e, w') \<Rightarrow> (Some (Broken (he_describe (lk_env l) e)), w') | (Inr (j, fd), w') \<Rightarrow> (Some (Done j fd), w'))"
    using l(1) received [OF req data l(1)] p
    by (auto simp: handle_def link_ok_def serve_request_def split: prod.splits sum.splits)
  have up: "lk_up l" using l(1) by (simp add: link_ok_def)
  show ?thesis
  proof (intro conjI allI impI)
    fix j fd w'
    assume d: "perform (lk_env l) c w = (Inr (j, fd), w')"
    then have f: "fits (reply_json (Done j fd))" using l(2) unfolding answers_fit_def by blast
    then obtain answer where a: "send_message (reply_json (Done j fd)) = Some answer" using sends by blast
    show "call l op kw w = (Inr j, w')"
      using up data h d a received [OF f a l(1), of False] by (simp add: call_def bind_eff_def client_request_def read_done ret_def)
  next
    fix e w'
    assume d: "perform (lk_env l) c w = (Inl e, w')"
    let ?r = "Broken (he_describe (lk_env l) e)"
    have f: "fits (reply_json ?r)" using l(2) d unfolding answers_fit_def by blast
    then obtain answer where a: "send_message (reply_json ?r) = Some answer" using sends by blast
    obtain e' where "read_reply ?r False (Inr (reply_json ?r, [])) = Inl e'" using read_broken by blast
    then show "\<exists>e'. call l op kw w = (Inl e', w')"
      using up data h d a received [OF f a l(1), of False] by (simp add: call_def bind_eff_def client_request_def)
  qed
qed


section \<open>The same library\<close>

text \<open>Two programs do the same and return the same; if they raise, the texts may differ.\<close>

definition agree :: "('a, 'w) eff \<Rightarrow> ('a, 'w) eff \<Rightarrow> bool" where
  "agree m m' = (\<forall>w. snd (m w) = snd (m' w) \<and> (case (fst (m w), fst (m' w)) of
     (Inr x, Inr y) \<Rightarrow> x = y | (Inl d, Inl e) \<Rightarrow> True | _ \<Rightarrow> False))"

lemma agree_result:
  assumes l: "link_ok l" "answers_fit (lk_env l)" and req: "fits (JObject ((''op'', JText op) # kw))"
    and p: "plan (lk_env l) (JObject ((''op'', JText op) # kw)) = Inr c"
    and c: "perform (lk_env l) c = bind_eff (json_result g m) (\<lambda>j. ret (j, None))" and f: "\<And>x. f (g x) = x"
  shows "agree (result_as f (call l op kw)) m"
  unfolding agree_def
proof (rule allI)
  fix w
  note d = call_done [OF l req p, of w]
  show "snd (result_as f (call l op kw) w) = snd (m w) \<and> (case (fst (result_as f (call l op kw) w), fst (m w)) of
      (Inr x, Inr y) \<Rightarrow> x = y | (Inl d, Inl e) \<Rightarrow> True | _ \<Rightarrow> False)"
  proof (cases "m w")
    case (Pair r w')
    show ?thesis
    proof (cases r)
      case (Inl e)
      then have "perform (lk_env l) c w = (Inl e, w')" unfolding c using Pair by (simp add: bind_eff_def json_result_def)
      then obtain e' where "call l op kw w = (Inl e', w')" using d by blast
      then show ?thesis using Pair Inl by (simp add: result_as_def bind_eff_def)
    next
      case (Inr x)
      then have "perform (lk_env l) c w = (Inr (g x, None), w')" unfolding c using Pair by (simp add: bind_eff_def json_result_def ret_def)
      then have "call l op kw w = (Inr (g x), w')" using d by blast
      then show ?thesis using Pair Inr by (simp add: result_as_def bind_eff_def ret_def f)
    qed
  qed
qed

lemma results_back [simp]:
  "as_bool (JBool b) = b" "int_of (JInt i) = i" "as_texts (texts_json ts) = ts"
  by (simp_all add: as_bool_def int_of_def as_texts_def texts_json_def comp_def)

lemma check_word: "container_word n \<Longrightarrow> check_container (JText n) = Inr n"
  by (simp add: check_container_Inr)

lemma plan_container_get:
  assumes "container_word n" and "a \<in> {''state'', ''running'', ''init_pid'', ''defined''}"
  shows "plan env (JObject [(''op'', JText ''container_get''), (''name'', JText n), (''attr'', JText a)]) = Inr (HostGet n a)"
  using assms by (auto simp: plan_def Let_def cell_def in_set_def OPS_def then_check_def plan_get_def require_def is_text_json_def check_word)

lemma plan_container_call:
  assumes "container_word n" and "call_args (JText m) (JArray args) = Inr ()"
  shows "plan env (JObject [(''op'', JText ''container_call''), (''name'', JText n), (''method'', JText m), (''args'', JArray args)]) = Inr (HostCall n m args)"
  using assms by (simp add: plan_def Let_def cell_def in_set_def OPS_def then_check_def plan_call_def get_default_def check_word)

lemma short_word: "container_word n \<Longrightarrow> length n \<le> 64"
  by (simp add: container_word_def)

lemma fits_container_get:
  "container_word n \<Longrightarrow> length a \<le> 10 \<Longrightarrow> fits (JObject [(''op'', JText ''container_get''), (''name'', JText n), (''attr'', JText a)])"
  by (rule fitsI) (use short_word [of n] in simp_all)

lemma fits_container_call:
  "container_word n \<Longrightarrow> length m \<le> 20 \<Longrightarrow> wf_items args \<Longrightarrow> weight_items args \<le> 1000 \<Longrightarrow>
    fits (JObject [(''op'', JText ''container_call''), (''name'', JText n), (''method'', JText m), (''args'', JArray args)])"
  by (rule fitsI) (use short_word [of n] in simp_all)

lemma agree_get:
  assumes "link_ok l" "answers_fit (lk_env l)" "container_word n" "a \<in> {''state'', ''running'', ''init_pid'', ''defined''}"
    and "perform_get (lk_env l) n a = json_result g m" and "\<And>x. f (g x) = x"
  shows "agree (result_as f (container_get l n a)) m"
proof -
  have "length a \<le> 10" using assms(4) by auto
  from agree_result [OF assms(1,2) fits_container_get [OF assms(3) this] plan_container_get [OF assms(3,4)], where f = f and g = g and m = m]
  show ?thesis using assms(5,6) by (simp add: container_get_def perform_def Let_def)
qed

lemma agree_call:
  assumes "link_ok l" "answers_fit (lk_env l)" "container_word n" "call_args (JText meth) (JArray args) = Inr ()"
    and "length meth \<le> 20" "wf_items args" "weight_items args \<le> 1000"
    and "perform_call (lk_env l) n meth args = json_result g m" and "\<And>x. f (g x) = x"
  shows "agree (result_as f (container_call l n meth args)) m"
  using agree_result [OF assms(1,2) fits_container_call [OF assms(3,5,6,7)] plan_container_call [OF assms(3,4)], where f = f and g = g and m = m] assms(8,9)
  by (simp add: container_call_def perform_def Let_def)


lemmas agree_flag = agree_call [where f = as_bool and g = JBool, OF _ _ _ _ _ _ _ _ results_back(1)]

lemmas agree_texts = agree_call [where f = as_texts and g = texts_json, OF _ _ _ _ _ _ _ _ results_back(3)]

lemmas agree_text = agree_call [where f = text_of and g = JText, OF _ _ _ _ _ _ _ _ text_of_text]

lemmas agree_attribute = agree_get [where f = as_bool and g = JBool, OF _ _ _ _ _ results_back(1)]
  agree_get [where f = text_of and g = JText, OF _ _ _ _ _ text_of_text]
  agree_get [where f = int_of and g = JInt, OF _ _ _ _ _ results_back(2)]

lemma plain_args: "m \<in> {''start'', ''stop'', ''destroy'', ''save_config'', ''get_ips'', ''get_interfaces''} \<Longrightarrow> call_args (JText m) (JArray []) = Inr ()"
  by (auto simp: call_args_def is_text_json_def require_def Let_def)

text \<open>Whether the direct library is used or the helper's, for a container's name and allowed arguments.\<close>

lemma agree_methods:
  assumes l: "link_ok l" "answers_fit (lk_env l)" and n: "container_word n"
  defines "x \<equiv> he_lxc (lk_env l)"
  shows "agree (lx_start (helper_lxc l) n) (lx_start x n)" "agree (lx_stop (helper_lxc l) n) (lx_stop x n)"
    "agree (lx_destroy (helper_lxc l) n) (lx_destroy x n)" "agree (lx_save (helper_lxc l) n) (lx_save x n)"
    "agree (lx_ips (helper_lxc l) n) (lx_ips x n)" "agree (lx_interfaces (helper_lxc l) n) (lx_interfaces x n)"
    "agree (lx_running (helper_lxc l) n) (lx_running x n)" "agree (lx_state (helper_lxc l) n) (lx_state x n)"
    "agree (lx_init_pid (helper_lxc l) n) (lx_init_pid x n)" "agree (lx_defined (helper_lxc l) n) (lx_defined x n)"
  unfolding helper_lxc_def lxc.simps x_def
  by (rule agree_flag [OF l n plain_args] agree_texts [OF l n plain_args] agree_attribute [OF l n];
      simp add: perform_call_def perform_get_def Let_def; fail)+

lemma agree_timed:
  assumes l: "link_ok l" "answers_fit (lk_env l)" and n: "container_word n" and t: "t \<le> 3600"
  defines "x \<equiv> he_lxc (lk_env l)"
  shows "agree (lx_shutdown (helper_lxc l) n t) (lx_shutdown x n t)"
    "s \<in> set STATES \<Longrightarrow> agree (lx_wait (helper_lxc l) n s t) (lx_wait x n s t)"
proof -
  have i: "length (int_str (int t)) \<le> 4" using small_int [of "int t"] t by simp
  have a: "call_args (JText ''shutdown'') (JArray [JInt (int t)]) = Inr ()"
    using t by (simp add: call_args_def is_text_json_def require_def Let_def then_check_def check_int_def MAX_TIMEOUT_def)
  show "agree (lx_shutdown (helper_lxc l) n t) (lx_shutdown x n t)"
    unfolding helper_lxc_def lxc.simps x_def using i
    by (intro agree_flag [OF l n a]) (simp_all add: perform_call_def Let_def)
  assume s: "s \<in> set STATES"
  have b: "call_args (JText ''wait'') (JArray [JText s, JInt (int t)]) = Inr ()"
    using t s by (simp add: call_args_def is_text_json_def require_def Let_def then_check_def check_int_def MAX_TIMEOUT_def in_set_def)
  have "length s \<le> 7" using s by (auto simp: STATES_def)
  then show "agree (lx_wait (helper_lxc l) n s t) (lx_wait x n s t)"
    unfolding helper_lxc_def lxc.simps x_def using i
    by (intro agree_flag [OF l n b]) (simp_all add: perform_call_def Let_def)
qed

lemma agree_cgroup:
  assumes l: "link_ok l" "answers_fit (lk_env l)" and n: "container_word n"
  defines "x \<equiv> he_lxc (lk_env l)"
  shows "k \<in> set READ_CGROUP_KEYS \<Longrightarrow> agree (lx_get_cgroup (helper_lxc l) n k) (lx_get_cgroup x n k)"
    "k \<in> set WRITE_CGROUP_KEYS \<Longrightarrow> length v \<le> 20 \<Longrightarrow> v = ''max'' \<or> py_isdigit v \<Longrightarrow>
      agree (lx_set_cgroup (helper_lxc l) n k v) (lx_set_cgroup x n k v)"
proof -
  assume k: "k \<in> set READ_CGROUP_KEYS"
  then have a: "call_args (JText ''get_cgroup_item'') (JArray [JText k]) = Inr ()"
    by (simp add: call_args_def is_text_json_def require_def Let_def then_check_def in_set_def)
  have "length k \<le> 30" using k by (auto simp: READ_CGROUP_KEYS_def)
  then show "agree (lx_get_cgroup (helper_lxc l) n k) (lx_get_cgroup x n k)"
    unfolding helper_lxc_def lxc.simps x_def
    by (intro agree_text [OF l n a]) (simp_all add: perform_call_def Let_def)
next
  assume k: "k \<in> set WRITE_CGROUP_KEYS" and v: "length v \<le> 20" "v = ''max'' \<or> py_isdigit v"
  then have a: "call_args (JText ''set_cgroup_item'') (JArray [JText k, JText v]) = Inr ()"
    by (simp add: call_args_def is_text_json_def require_def Let_def then_check_def in_set_def) blast
  have "length k \<le> 30" using k by (auto simp: WRITE_CGROUP_KEYS_def)
  then show "agree (lx_set_cgroup (helper_lxc l) n k v) (lx_set_cgroup x n k v)"
    unfolding helper_lxc_def lxc.simps x_def using v(1)
    by (intro agree_flag [OF l n a]) (simp_all add: perform_call_def Let_def)
qed

lemma agree_create:
  assumes l: "link_ok l" "answers_fit (lk_env l)" and n: "container_word n" and i: "(d, r, a) \<in> snd ` set OS_IMAGES"
  shows "agree (lx_create (helper_lxc l) n d r a) (lx_create (he_lxc (lk_env l)) n d r a)"
proof -
  have "list_ex (same_dict (image_dict (d, r, a))) ALLOWED_IMAGES"
    using i by (force simp: list_ex_iff ALLOWED_IMAGES_def same_dict_iff)
  then have c: "call_args (JText ''create'') (JArray [JText ''download'', JInt 0, JObject (image_dict (d, r, a))]) = Inr ()"
    by (simp add: call_args_def is_text_json_def require_def Let_def)
  have "length d \<le> 10" "length r \<le> 10" "length a \<le> 10" using i by (auto simp: OS_IMAGES_def)
  then show ?thesis unfolding helper_lxc_def lxc.simps
    by (intro agree_flag [OF l n c])
      (simp_all add: perform_call_def Let_def image_dict_def image_key_def cell_def int_str_def nat_str.simps)
qed


text \<open>Running a command: the arguments that the helper takes.\<close>

definition runnable :: "string list \<Rightarrow> (string \<times> string) list \<Rightarrow> string option \<Rightarrow> nat \<Rightarrow> bool" where
  "runnable argv vars input t \<longleftrightarrow> argv \<noteq> [] \<and> length argv \<le> 256 \<and> list_all (\<lambda>a. CHR 0x00 \<notin> set a) argv \<and>
     list_all (\<lambda>(k, v). re_fullmatch ENV_KEY k \<and> CHR 0x00 \<notin> set v) vars \<and> input \<noteq> Some [] \<and> 1 \<le> t \<and> t \<le> 3600"

lemma b64_nonempty: "bs \<noteq> [] \<Longrightarrow> b64encode bs \<noteq> []"
  by (cases bs rule: b64encode.cases) auto

lemma plan_attach_payload:
  assumes l: "link_ok l" and n: "container_word n" and r: "runnable argv vars input t"
  shows "plan (lk_env l) (JObject ((''op'', JText ''attach'') # attach_payload n argv vars input t)) =
    Inr (HostAttach (attach_cmd n vars argv) input t)"
proof -
  let ?req = "(''op'', JText ''attach'') # attach_payload n argv vars input t"
  have c: "cell ?req ''op'' = JText ''attach''" "cell ?req ''name'' = JText n" "cell ?req ''argv'' = JArray (map JText argv)"
      "cell ?req ''env'' = JObject (map (\<lambda>(k, v). (k, JText v)) vars)" "get_default ?req ''run_timeout'' (JInt 300) = JInt (int t)"
      "cell ?req ''input_b64'' = (case input of None \<Rightarrow> JNone | Some bytes \<Rightarrow> JText (b64encode (map cp bytes)))"
    by (simp_all add: cell_def attach_payload_def get_default_def)
  have v: "valid_env (map (\<lambda>(k, v). (k, JText v)) vars)"
    using r by (auto simp: runnable_def valid_env_def list_all_iff is_text_json_def)
  have e: "(let e = JObject (map (\<lambda>(k, v). (k, JText v)) vars) in if \<not> truthy e then Inr [] else (case e of
        JObject kvs \<Rightarrow> if valid_env kvs then Inr kvs else Inl (Refused ''invalid env'') | _ \<Rightarrow> Inl (Refused ''invalid env''))) =
      (Inr (map (\<lambda>(k, v). (k, JText v)) vars) :: helper_error + (string \<times> json) list)"
    using v by (simp add: truthy_def Let_def)
  have a: "attach_argv (he_bin (lk_env l)) ?req = Inr (attach_cmd n vars argv)"
    unfolding attach_argv_def c e using r n l
    by (simp add: check_word then_check_def runnable_def list_all_iff is_text_json_def comp_def case_prod_unfold attach_cmd_def link_ok_def)
  have i: "(case input of None \<Rightarrow> JNone | Some bytes \<Rightarrow> JText (b64encode (map cp bytes))) = (if input = None then JNone else JText (b64encode (map cp (the input))))"
    by (cases input) simp_all
  have "plan_attach (lk_env l) ?req = Inr (HostAttach (attach_cmd n vars argv) input t)"
    unfolding plan_attach_def a c i using r l b64_nonempty [of "map cp (the input)"]
    by (cases input) (auto simp: then_check_def check_int_def MAX_TIMEOUT_def runnable_def truthy_def Let_def link_ok_def)
  then show ?thesis unfolding plan_def Let_def json.case c by (simp add: in_set_def OPS_def then_check_def)
qed

definition result_json_of :: "attach_result \<Rightarrow> json" where
  "result_json_of r = JObject [(''returncode'', JInt (at_code r)), (''stdout'', JText (at_out r)), (''stderr'', JText (at_err r)),
     (''timed_out'', JBool (at_timed_out r))]"

lemma agree_attach:
  assumes l: "link_ok l" "answers_fit (lk_env l)" and n: "container_word n" and r: "runnable argv vars input t"
    and req: "fits (JObject ((''op'', JText ''attach'') # attach_payload n argv vars input t))"
  shows "agree (client_attach_run l n argv vars input t) (attach_run (lk_env l) n argv vars input t)"
proof -
  have p: "perform (lk_env l) (HostAttach (attach_cmd n vars argv) input t) =
      bind_eff (json_result result_json_of (attach_run (lk_env l) n argv vars input t)) (\<lambda>j. ret (j, None))"
    by (rule ext) (simp add: perform_def Let_def json_result_def attach_run_def process_json_def result_json_of_def bind_eff_def ret_def
      split: prod.splits sum.splits)
  have "attach_result_of (result_json_of x) = x" for x
    by (simp add: attach_result_of_def result_json_of_def cell_def int_of_def)
  from agree_result [OF l req plan_attach_payload [OF l(1) n r] p this]
  show ?thesis by (simp add: client_attach_run_def result_as_def)
qed

lemma agree_config:
  assumes l: "link_ok l" "answers_fit (lk_env l)" and n: "container_word n" and o: "\<And>w e. he_open (lk_env l) n w \<noteq> Inl (OpenFailed e)"
  shows "agree (client_read_config l n) (read_container_config (lk_env l) n)"
proof -
  have f: "fits (JObject [(''op'', JText ''read_config''), (''name'', JText n)])" by (rule fitsI) (use short_word [OF n] in simp_all)
  have p: "plan (lk_env l) (JObject [(''op'', JText ''read_config''), (''name'', JText n)]) = Inr (HostConfig n)"
    using n by (simp add: plan_def Let_def cell_def in_set_def OPS_def then_check_def plan_config_def check_word)
  have "perform (lk_env l) (HostConfig n) =
      bind_eff (json_result (\<lambda>c. case c of None \<Rightarrow> JNone | Some t \<Rightarrow> JText t) (read_container_config (lk_env l) n)) (\<lambda>j. ret (j, None))"
  proof (rule ext)
    fix w
    show "perform (lk_env l) (HostConfig n) w =
        bind_eff (json_result (\<lambda>c. case c of None \<Rightarrow> JNone | Some t \<Rightarrow> JText t) (read_container_config (lk_env l) n)) (\<lambda>j. ret (j, None)) w"
      using o [of w]
      by (auto simp: perform_def Let_def json_result_def op_read_config_def read_container_config_def bind_eff_def ret_def
        split: sum.splits open_error.splits)
  qed
  from agree_result [OF l f p this, of "\<lambda>j. case j of JText t \<Rightarrow> Some t | _ \<Rightarrow> None"]
  show ?thesis by (simp add: client_read_config_def result_as_def split: option.splits)
qed

lemma agree_list: "link_ok l \<Longrightarrow> answers_fit (lk_env l) \<Longrightarrow> agree (lx_list (helper_lxc l)) (lx_list (he_lxc (lk_env l)))"
proof -
  assume l: "link_ok l" "answers_fit (lk_env l)"
  let ?kw = "[(''active'', JBool True), (''defined'', JBool True)]"
  have f: "fits (JObject ((''op'', JText ''list_containers'') # ?kw))" by (rule fitsI) simp_all
  have p: "plan (lk_env l) (JObject ((''op'', JText ''list_containers'') # ?kw)) = Inr (HostList True True)"
    by (simp add: plan_def Let_def cell_def in_set_def OPS_def then_check_def plan_list_def get_default_def)
  have "perform (lk_env l) (HostList True True) = bind_eff (json_result texts_json (lx_list (he_lxc (lk_env l)))) (\<lambda>j. ret (j, None))"
    by (simp add: perform_def Let_def)
  from agree_result [OF l f p this results_back(3)] show ?thesis by (simp add: helper_lxc_def)
qed


section \<open>Other containers\<close>

lemma call_state:
  assumes cut: "\<And>s. carries (lk_cut l s) s" and wf: "wf_json (JObject ((''op'', JText op) # kw))"
  shows "snd (call l op kw w) = w \<or>
    (\<exists>c. plan (lk_env l) (JObject ((''op'', JText op) # kw)) = Inr c \<and> snd (call l op kw w) = snd (perform (lk_env l) c w))"
proof -
  let ?req = "JObject ((''op'', JText op) # kw)"
  have served: "snd (serve_request (lk_env l) ?req w) = w \<or>
      (\<exists>c. plan (lk_env l) ?req = Inr c \<and> snd (serve_request (lk_env l) ?req w) = snd (perform (lk_env l) c w))"
    by (auto simp: serve_request_def split: sum.splits helper_error.splits prod.splits)
  have handled: "snd (handle (lk_env l) (lk_uid l) (lk_cut l data) w) \<in> {w, snd (serve_request (lk_env l) ?req w)}"
    if "send_message ?req = Some data" for data
    using recv_any [OF wf that cut [of data], of False] by (auto simp: handle_def split: prod.splits)
  have "snd (call l op kw w) \<in> {w, snd (serve_request (lk_env l) ?req w)}"
  proof (cases "lk_up l \<and> send_message ?req \<noteq> None")
    case True
    then obtain data where data: "send_message ?req = Some data" by blast
    obtain r w' where h: "handle (lk_env l) (lk_uid l) (lk_cut l data) w = (r, w')" by (cases "handle (lk_env l) (lk_uid l) (lk_cut l data) w")
    have "snd (client_request l False ((''op'', JText op) # kw) w) = w'"
      using True data h by (auto simp: client_request_def split: option.splits)
    then have "snd (call l op kw w) = w'" by (auto simp: call_def bind_eff_def ret_def split: prod.splits sum.splits)
    then show ?thesis using handled [OF data] h by simp
  qed (auto simp: call_def bind_eff_def client_request_def)
  then show ?thesis using served by auto
qed

lemma keeps_call:
  assumes "\<And>s. carries (lk_cut l s) s" and "wf_json (JObject ((''op'', JText op) # kw))"
    and "\<And>c. plan (lk_env l) (JObject ((''op'', JText op) # kw)) = Inr c \<Longrightarrow> keeps v (perform (lk_env l) c)"
  shows "keeps v (call l op kw)"
  unfolding keeps_def
proof
  fix w
  show "v (snd (call l op kw w)) = v w"
    using call_state [OF assms(1,2), of w] assms(3) unfolding keeps_def by auto
qed

lemma keeps_result [inv_intros]: "keeps v m \<Longrightarrow> keeps v (result_as f m)"
  by (auto simp: result_as_def intro!: inv_intros)

lemma keeps_json_result [inv_intros]: "keeps v m \<Longrightarrow> keeps v (json_result f m)"
  by (auto simp: json_result_def intro!: inv_intros)

lemma keeps_container_call:
  assumes "\<And>s. carries (lk_cut l s) s" and "wf_items args" and "keeps v (perform_call (lk_env l) n meth args)"
  shows "keeps v (container_call l n meth args)"
  unfolding container_call_def
proof (rule keeps_call [OF assms(1)])
  fix c
  assume "plan (lk_env l) (JObject [(''op'', JText ''container_call''), (''name'', JText n), (''method'', JText meth), (''args'', JArray args)]) = Inr c"
  then have "c = HostCall n meth args"
    by (auto simp: plan_def Let_def cell_def in_set_def OPS_def plan_call_def get_default_def check_container_Inr)
  then show "keeps v (perform (lk_env l) c)" using assms(3) by (auto simp: perform_def Let_def intro!: inv_intros)
qed (use assms(2) in simp)

lemma keeps_container_get:
  assumes "\<And>s. carries (lk_cut l s) s" and "\<And>a. keeps v (perform_get (lk_env l) n a)"
  shows "keeps v (container_get l n a)"
  unfolding container_get_def
proof (rule keeps_call [OF assms(1)])
  fix c
  assume "plan (lk_env l) (JObject [(''op'', JText ''container_get''), (''name'', JText n), (''attr'', JText a)]) = Inr c"
  then have "c = HostGet n a"
    by (auto simp: plan_def Let_def cell_def in_set_def OPS_def plan_get_def check_container_Inr is_text_json_def)
  then show "keeps v (perform (lk_env l) c)" using assms(2) by (auto simp: perform_def Let_def intro!: inv_intros)
qed simp


lemma attach_argv_payload:
  assumes "attach_argv ''lxc-attach'' ((''op'', JText ''attach'') # attach_payload n argv [] input t) = Inr cmd"
  shows "cmd = attach_cmd n [] argv"
  using assms by (auto simp: attach_argv_def attach_payload_def cell_def check_container_Inr truthy_def attach_cmd_def comp_def split: if_splits)

lemma keeps_bind_ret: "keeps v (bind_eff m (\<lambda>x. ret (f x))) \<longleftrightarrow> keeps v m"
proof -
  have "v (snd (bind_eff m (\<lambda>x. ret (f x)) w)) = v (snd (m w))" for w
    by (cases "m w"; cases "fst (m w)") (simp_all add: bind_eff_def ret_def)
  then show ?thesis by (simp add: keeps_def)
qed

lemma plan_attach_request: "cell req ''op'' = JText ''attach'' \<Longrightarrow> plan env (JObject req) = plan_attach env req"
  by (simp add: plan_def Let_def in_set_def OPS_def then_check_def)

lemma keeps_attach:
  assumes l: "link_ok l" and d: "\<And>i. keeps v (attach_run (lk_env l) n argv [] (map_option bytes_of i) t)"
  shows "keeps v (client_attach_run l n argv [] (map_option bytes_of i) t)"
  unfolding client_attach_run_def
proof (rule keeps_bind [OF keeps_call])
  fix c
  let ?input = "map_option bytes_of i"
  let ?req = "(''op'', JText ''attach'') # attach_payload n argv [] ?input t"
  assume "plan (lk_env l) (JObject ?req) = Inr c"
  then have p: "plan_attach (lk_env l) ?req = Inr c" by (simp add: plan_attach_request cell_def)
  have b: "cell ?req ''input_b64'' = (case ?input of None \<Rightarrow> JNone | Some bytes \<Rightarrow> JText (b64encode (map cp bytes)))"
      "get_default ?req ''run_timeout'' (JInt 300) = JInt (int t)"
    by (simp_all add: cell_def attach_payload_def get_default_def)
  have bin: "he_bin (lk_env l) = ''lxc-attach''" "he_b64 (lk_env l) (b64encode (map cp bytes)) = Some bytes" for bytes
    using l by (simp_all add: link_ok_def)
  from p [unfolded plan_attach_def b] obtain cmd stdin where c: "c = HostAttach cmd stdin t" "attach_argv (he_bin (lk_env l)) ?req = Inr cmd" "stdin = None \<or> stdin = ?input"
    by (cases i) (auto simp: bin Let_def truthy_def split: if_splits)
  have "cmd = attach_cmd n [] argv" using attach_argv_payload c(2) bin by simp
  moreover obtain i' where "stdin = map_option bytes_of i'" using c(3) by (metis option.map(1))
  ultimately have "keeps v (he_run (lk_env l) cmd stdin t)"
    using d [of i'] unfolding attach_run_def keeps_bind_ret by simp
  then show "keeps v (perform (lk_env l) c)" unfolding c(1) by (auto simp: perform_def Let_def intro!: keeps_bind keeps_ret keeps_json_result)
qed (use l in \<open>simp_all add: link_ok_def attach_payload_def keeps_ret wf_items_iff list_all_iff split: option.splits\<close>)

lemma keeps_config:
  assumes cut: "\<And>s. carries (lk_cut l s) s"
  shows "keeps v (client_read_config l n)"
  unfolding client_read_config_def
proof (rule keeps_bind [OF keeps_call [OF cut]])
  fix c
  assume "plan (lk_env l) (JObject [(''op'', JText ''read_config''), (''name'', JText n)]) = Inr c"
  then have "c = HostConfig n" by (auto simp: plan_def Let_def cell_def in_set_def OPS_def plan_config_def check_container_Inr)
  moreover have "keeps v (op_read_config (lk_env l) n)" by (auto simp: keeps_def op_read_config_def split: sum.splits open_error.splits)
  ultimately show "keeps v (perform (lk_env l) c)" by (auto simp: perform_def Let_def intro!: inv_intros)
qed (simp_all add: keeps_ret)

lemma keeps_list:
  assumes cut: "\<And>s. carries (lk_cut l s) s" and k: "keeps v (lx_list (he_lxc (lk_env l)))"
  shows "keeps v (call l ''list_containers'' [(''active'', JBool True), (''defined'', JBool True)])"
proof (rule keeps_call [OF cut])
  fix c
  assume "plan (lk_env l) (JObject [(''op'', JText ''list_containers''), (''active'', JBool True), (''defined'', JBool True)]) = Inr c"
  then have "c = HostList True True" by (simp add: plan_def Let_def cell_def in_set_def OPS_def plan_list_def get_default_def then_check_def)
  then show "keeps v (perform (lk_env l) c)" using k by (auto simp: perform_def Let_def intro!: keeps_bind keeps_ret keeps_json_result)
qed simp

lemma keeps_calls:
  assumes conf: "lxc_confined (direct_lxc env) view" and nm: "n \<noteq> m"
  shows "keeps (view m) (perform_get env n a)"
    "meth \<in> {''start'', ''stop'', ''destroy'', ''save_config'', ''get_ips'', ''get_interfaces'', ''shutdown'', ''wait'',
      ''get_cgroup_item'', ''set_cgroup_item'', ''create''} \<Longrightarrow> keeps (view m) (perform_call env n meth l)"
    "keeps (view m) (lx_list (he_lxc env))" "keeps (view m) (attach_run env n argv [] (map_option bytes_of i) t)"
    "view m (lx_sleep (he_lxc env) d w) = view m w"
proof -
  let ?x = "he_lxc env"
  have c: "keeps (view m) (lx_running ?x n) \<and> keeps (view m) (lx_state ?x n) \<and> keeps (view m) (lx_init_pid ?x n) \<and> keeps (view m) (lx_defined ?x n)"
      "keeps (view m) (lx_start ?x n) \<and> keeps (view m) (lx_stop ?x n) \<and> keeps (view m) (lx_destroy ?x n) \<and> keeps (view m) (lx_save ?x n) \<and>
       keeps (view m) (lx_ips ?x n) \<and> keeps (view m) (lx_interfaces ?x n)"
      "(\<forall>t. keeps (view m) (lx_shutdown ?x n t)) \<and> (\<forall>s t. keeps (view m) (lx_wait ?x n s t)) \<and> (\<forall>k. keeps (view m) (lx_get_cgroup ?x n k)) \<and>
       (\<forall>k v. keeps (view m) (lx_set_cgroup ?x n k v)) \<and> (\<forall>a b c. keeps (view m) (lx_create ?x n a b c))"
    using conf nm unfolding lxc_confined_def direct_lxc_def by simp_all
  show "keeps (view m) (perform_get env n a)" using c(1) by (auto simp: perform_get_def Let_def intro!: keeps_json_result)
  show "keeps (view m) (perform_call env n meth l)" if "meth \<in> {''start'', ''stop'', ''destroy'', ''save_config'', ''get_ips'',
      ''get_interfaces'', ''shutdown'', ''wait'', ''get_cgroup_item'', ''set_cgroup_item'', ''create''}"
    unfolding perform_call_def Let_def
  proof (intro keeps_if keeps_json_result)
    show "keeps (view m) (case l ! 2 of
         JObject d \<Rightarrow> json_result JBool (lx_create ?x n (image_key d ''dist'') (image_key d ''release'') (image_key d ''arch''))
       | _ \<Rightarrow> raise_error ''no image'')"
      using c(3) by (cases "l ! 2") (simp_all add: keeps_raise keeps_json_result)
  qed (use c that in simp_all)
  show "keeps (view m) (lx_list ?x)" "keeps (view m) (attach_run env n argv [] (map_option bytes_of i) t)"
      "view m (lx_sleep ?x d w) = view m w"
    using conf nm unfolding lxc_confined_def direct_lxc_def by simp_all
qed

text \<open>
  C39: whatever the application asks of the helper, for any name and any arguments, an operation on one container
  touches no other, as with the library itself: every result on confined libraries holds with the helper in
  between.
\<close>

theorem helper_keeps_apart:
  assumes conf: "lxc_confined (direct_lxc (lk_env l)) view" and l: "link_ok l"
  shows "lxc_confined (helper_lxc l) view"
proof -
  have cut: "\<And>s. carries (lk_cut l s) s" using l by (simp add: link_ok_def)
  have list: "keeps (view m) (lx_list (helper_lxc l))" for m
  proof -
    have "keeps (view m) (lx_list (he_lxc (lk_env l)))" using conf unfolding lxc_confined_def direct_lxc_def by simp
    then show ?thesis unfolding helper_lxc_def by (simp add: keeps_result keeps_list [OF cut])
  qed
  have sleep: "view m (lx_sleep (helper_lxc l) d w) = view m w" for m d w
    using conf unfolding lxc_confined_def direct_lxc_def helper_lxc_def by simp
  have ops: "keeps (view m) (result_as f (container_get l n a))"
      "wf_items args \<Longrightarrow> meth \<in> {''start'', ''stop'', ''destroy'', ''save_config'', ''get_ips'', ''get_interfaces'', ''shutdown'', ''wait'',
        ''get_cgroup_item'', ''set_cgroup_item'', ''create''} \<Longrightarrow> keeps (view m) (result_as h (container_call l n meth args))"
      "keeps (view m) (client_attach_run l n argv [] (map_option bytes_of i) t)" "keeps (view m) (client_read_config l n)"
    if "n \<noteq> m" for n m a args meth argv i t and f :: "json \<Rightarrow> 'f" and h :: "json \<Rightarrow> 'h"
    using keeps_calls [OF conf that] that cut
    by (auto intro!: keeps_result keeps_container_get keeps_container_call keeps_attach [OF l] keeps_config)
  show ?thesis
    unfolding lxc_confined_def
    by (intro conjI allI impI list sleep) (simp_all add: helper_lxc_def image_dict_def ops)
qed



section \<open>A link for the witnesses\<close>

definition demo_link :: "'w lxc \<Rightarrow> 'w link" where
  "demo_link x = \<lparr>lk_env = demo_env x, lk_uid = 990, lk_up = True, lk_cut = (\<lambda>s. if s = [] then [] else [s])\<rparr>"

lemma demo_link_ok: "link_ok (demo_link x)"
proof -
  have "list_all (\<lambda>b. b < 256) (map cp s)" for s by (simp add: list_all_iff char_of_cp)
  then show ?thesis by (simp add: link_ok_def demo_link_def demo_env_def carries_def b64_roundtrip comp_def char_of_cp)
qed

abbreviation tiny_link :: "bool link" where
  "tiny_link \<equiv> demo_link tiny_host"

lemma tiny_call: "fst (perform_call tiny_env n m l w) = Inr j \<Longrightarrow> wf_json j \<and> weight j \<le> 400"
proof -
  have "returns (\<lambda>j. wf_json j \<and> weight j \<le> 400) (perform_call tiny_env n m l)"
    unfolding perform_call_def Let_def
  proof (intro returns_if)
    show "returns (\<lambda>j. wf_json j \<and> weight j \<le> 400) (case l ! 2 of
         JObject d \<Rightarrow> json_result JBool (lx_create (he_lxc tiny_env) n (image_key d ''dist'') (image_key d ''release'') (image_key d ''arch''))
       | _ \<Rightarrow> raise_error ''no image'')"
      by (cases "l ! 2") (simp_all add: returns_raise json_result_def returns_bind returns_ret)
  qed (simp_all add: returns_def json_result_def bind_eff_def ret_def demo_env_def tiny_host_def texts_json_def)
  then show "fst (perform_call tiny_env n m l w) = Inr j \<Longrightarrow> wf_json j \<and> weight j \<le> 400" unfolding returns_def by blast
qed

lemma tiny_get: "fst (perform_get tiny_env n a w) = Inr j \<Longrightarrow> wf_json j \<and> weight j \<le> 400"
  by (auto simp: perform_get_def Let_def json_result_def bind_eff_def ret_def demo_env_def tiny_host_def int_str_def nat_str.simps split: if_splits)

lemma tiny_perform: "perform tiny_env c w = (Inr (j, fd), w') \<Longrightarrow> wf_json j \<and> weight j \<le> 400"
proof (cases c)
  case (HostList a d)
  have "perform tiny_env (HostList a d) w = (Inr (texts_json [''a''], None), w)"
    by (cases a; cases d) (simp_all add: perform_def Let_def bind_eff_def ret_def json_result_def demo_env_def tiny_host_def)
  moreover assume "perform tiny_env c w = (Inr (j, fd), w')"
  ultimately show ?thesis unfolding HostList by (auto simp: texts_json_def)
next
  case (HostGet n a)
  assume "perform tiny_env c w = (Inr (j, fd), w')"
  then have "fst (perform_get tiny_env n a w) = Inr j"
    unfolding HostGet by (auto simp: perform_def Let_def bind_eff_def ret_def split: prod.splits sum.splits)
  then show ?thesis by (rule tiny_get)
next
  case (HostCall n m l)
  assume "perform tiny_env c w = (Inr (j, fd), w')"
  then have "fst (perform_call tiny_env n m l w) = Inr j"
    unfolding HostCall by (auto simp: perform_def Let_def bind_eff_def ret_def split: prod.splits sum.splits)
  then show ?thesis by (rule tiny_call)
qed (auto simp: perform_def Let_def bind_eff_def ret_def json_result_def demo_env_def tiny_host_def texts_json_def op_read_config_def
    process_json_def process_result_def int_str_def nat_str.simps)

lemma tiny_fits: "answers_fit (lk_env tiny_link)"
proof -
  have j: "fits (reply_json (Done j fd))" if "wf_json j" "weight j \<le> 400" for j fd
    by (rule fitsI) (use that in \<open>simp_all add: reply_json_def\<close>)
  have "fits (reply_json (Broken ''RuntimeError''))" by (rule fitsI) (simp_all add: reply_json_def)
  moreover have "he_describe tiny_env = (\<lambda>e. ''RuntimeError'')" "lk_env tiny_link = tiny_env" by (simp_all add: demo_env_def demo_link_def)
  ultimately show ?thesis using j tiny_perform unfolding answers_fit_def by auto
qed

lemma tiny_word: "container_word ''a''"
  by code_simp


lemma demo_keeps:
  "keeps v (attach_run (demo_env x) n argv [] i t)" "keeps v (read_container_config (demo_env x) n)" "he_lxc (demo_env x) = x"
  by (simp_all add: keeps_def attach_run_def read_container_config_def demo_env_def bind_eff_def ret_def)

theorem helper_keeps_apart_witness: "lxc_confined (helper_lxc (demo_link plain_host)) (\<lambda>m w. map_of w m)"
proof -
  have "lxc_confined (direct_lxc (demo_env plain_host)) (\<lambda>m w. map_of w m)"
    using plain_host_confined by (simp add: demo_keeps lxc_confined_def direct_lxc_def)
  then show ?thesis by (intro helper_keeps_apart demo_link_ok) (simp add: demo_link_def)
qed

end
