(* ===== verification/Requests.thy ===== *)
theory Requests
  imports Validation Licensing Lxc
begin

text \<open>
  The request models of \<^verbatim>\<open>models/\<close>: for each class its fields in order, with type, default, bounds and the
  validators written in the class, and what building an instance from a JSON body does with them. How pydantic
  reads a scalar (\<open>"5"\<close> as an integer, \<open>"yes"\<close> as a boolean, a date) is its own: the argument \<open>conv\<close>. What
  it documents of a model is written out: the fields are read in order; a field left out takes its default,
  unchecked unless \<open>validate_default\<close>; bounds are checked on the converted value, then the field's validator,
  which sees the earlier valid fields; every failing field is reported; the model's validator runs on valid
  fields; other keys are ignored. An enum member is its value, a moment its microseconds, a fraction its
  decimal text.
\<close>

section \<open>Fields\<close>

datatype field_type =
    TStr | TInt | TBool | TFloat | TTime | TDict
  | TEnum "string list"
  | TOptional field_type
  | TList field_type
  | TSelector

text \<open>The validators the classes define, one constructor each.\<close>

datatype field_check =
    Unchecked
  | InstallField string
  | DeploySiemIp
  | DeployAuthKey
  | AlphanumericName
  | AbsolutePath
  | BulkOperation
  | BenchmarkName
  | BenchmarkOs
  | AfterStart

record field_spec =
  fs_name :: string
  fs_type :: field_type
  fs_default :: "json option"
  fs_ge :: "int option"
  fs_le :: "int option"
  fs_min :: "nat option"
  fs_max :: "nat option"
  fs_pattern :: "regex option"
  fs_validate_default :: bool
  fs_check :: field_check

datatype request_error =
    Missing
  | WrongType
  | OutOfBounds
  | Invalid value_error
  | Refused string
  | NotAnObject

type_synonym fields = "(string \<times> json) list"

record request_model =
  rm_fields :: "field_spec list"
  rm_after :: "fields \<Rightarrow> string option"

definition required :: "string \<Rightarrow> field_type \<Rightarrow> field_spec" where
  "required n t = \<lparr>fs_name = n, fs_type = t, fs_default = None, fs_ge = None, fs_le = None, fs_min = None, fs_max = None,
     fs_pattern = None, fs_validate_default = False, fs_check = Unchecked\<rparr>"

definition defaulted :: "string \<Rightarrow> field_type \<Rightarrow> json \<Rightarrow> field_spec" where
  "defaulted n t v = required n t\<lparr>fs_default := Some v\<rparr>"

definition between :: "int \<Rightarrow> int \<Rightarrow> field_spec \<Rightarrow> field_spec" where
  "between a b f = f\<lparr>fs_ge := Some a, fs_le := Some b\<rparr>"

definition long :: "nat \<Rightarrow> nat \<Rightarrow> field_spec \<Rightarrow> field_spec" where
  "long a b f = f\<lparr>fs_min := Some a, fs_max := Some b\<rparr>"

definition at_most :: "nat \<Rightarrow> field_spec \<Rightarrow> field_spec" where
  "at_most b f = f\<lparr>fs_max := Some b\<rparr>"

definition some_items :: "field_spec \<Rightarrow> field_spec" where
  "some_items f = f\<lparr>fs_min := Some 1\<rparr>"

definition matching :: "regex \<Rightarrow> field_spec \<Rightarrow> field_spec" where
  "matching r f = f\<lparr>fs_pattern := Some r\<rparr>"

definition checked :: "field_check \<Rightarrow> field_spec \<Rightarrow> field_spec" where
  "checked c f = f\<lparr>fs_check := c\<rparr>"

definition validated :: "field_spec \<Rightarrow> field_spec" where
  "validated f = f\<lparr>fs_validate_default := True\<rparr>"

lemmas spec_defs = required_def defaulted_def between_def long_def at_most_def some_items_def matching_def checked_def validated_def

section \<open>The validators\<close>

definition truthy :: "json \<Rightarrow> bool" where
  "truthy v = (case v of JNone \<Rightarrow> False | JBool b \<Rightarrow> b | JInt i \<Rightarrow> i \<noteq> 0 | JText s \<Rightarrow> s \<noteq> [] | JArray xs \<Rightarrow> xs \<noteq> [] | JObject m \<Rightarrow> m \<noteq> [])"

definition given :: "fields \<Rightarrow> string \<Rightarrow> json" where
  "given data k = (case map_of data k of Some v \<Rightarrow> v | None \<Rightarrow> JNone)"

definition opt_text :: "json \<Rightarrow> string option" where
  "opt_text v = (case v of JText s \<Rightarrow> Some s | _ \<Rightarrow> None)"

definition text_json :: "string option \<Rightarrow> json" where
  "text_json v = (case v of Some s \<Rightarrow> JText s | None \<Rightarrow> JNone)"

definition install_field :: "string \<Rightarrow> json \<Rightarrow> request_error + json" where
  "install_field k v = (case map_of INSTALL_FIELD_CHECKS k of
     None \<Rightarrow> Inr v
   | Some check \<Rightarrow> (case check (opt_text v) of Inl e \<Rightarrow> Inl (Invalid e) | Inr w \<Rightarrow> Inr (text_json w)))"

definition validate_siem_ip :: "fields \<Rightarrow> json \<Rightarrow> request_error + json" where
  "validate_siem_ip data v =
     (if truthy (given data ''siem_type'') \<and> given data ''siem_type'' \<noteq> JText ''none''
         \<and> \<not> truthy (given data ''manager_profile_id'') \<and> \<not> truthy v
      then Inl (Refused ''siem_ip is required when deploying a SIEM agent'')
      else install_field ''siem_ip'' v)"

definition validate_siem_auth_key :: "fields \<Rightarrow> json \<Rightarrow> request_error + json" where
  "validate_siem_auth_key data v =
     (if truthy (given data ''manager_profile_id'') then install_field ''siem_auth_key'' v
      else if given data ''siem_type'' = JText ''utmstack'' \<and> \<not> truthy v
      then Inl (Refused ''siem_auth_key is required for UTMstack deployments'')
      else if given data ''siem_type'' = JText ''elastic'' \<and> \<not> truthy v
      then Inl (Refused ''siem_auth_key (enrollment token) is required for Elastic deployments'')
      else install_field ''siem_auth_key'' v)"

definition named_by :: "(string \<Rightarrow> value_error + string) \<Rightarrow> json \<Rightarrow> request_error + json" where
  "named_by check v = (case v of
     JText s \<Rightarrow> (case check s of Inl e \<Rightarrow> Inl (Invalid e) | Inr t \<Rightarrow> Inr (JText t))
   | _ \<Rightarrow> Inl WrongType)"

definition OPERATIONS :: "string list" where
  "OPERATIONS = [''start'', ''stop'', ''delete'']"

definition validate_operation :: "json \<Rightarrow> request_error + json" where
  "validate_operation v = (case v of
     JText s \<Rightarrow> if py_lower s \<notin> set OPERATIONS then Inl (Refused (''Operation must be one of: '' @ join_with '', '' OPERATIONS))
                else Inr (JText (py_lower s))
   | _ \<Rightarrow> Inl WrongType)"

definition validate_base_name :: "json \<Rightarrow> request_error + json" where
  "validate_base_name v = (if v \<in> {JNone, JText []} then Inr v
     else (case validate_group (opt_text v) of Inl e \<Rightarrow> Inl (Invalid e) | Inr s \<Rightarrow> Inr (JText s)))"

definition validate_os_type :: "json \<Rightarrow> request_error + json" where
  "validate_os_type v = (case v of
     JText s \<Rightarrow> if s \<noteq> [] \<and> s \<notin> set (map fst OS_IMAGES)
       then Inl (Refused (''must be one of: '' @ join_with '', '' (map fst OS_IMAGES))) else Inr v
   | _ \<Rightarrow> Inr v)"

definition validate_time_range :: "fields \<Rightarrow> json \<Rightarrow> request_error + json" where
  "validate_time_range data v = (case (map_of data ''start_time'', v) of
     (Some (JInt a), JInt b) \<Rightarrow> if b \<le> a then Inl (Refused ''end_time must be after start_time'') else Inr v
   | _ \<Rightarrow> Inr v)"

definition run_check :: "field_check \<Rightarrow> fields \<Rightarrow> json \<Rightarrow> request_error + json" where
  "run_check c data v = (case c of
     Unchecked \<Rightarrow> Inr v
   | InstallField k \<Rightarrow> install_field k v
   | DeploySiemIp \<Rightarrow> validate_siem_ip data v
   | DeployAuthKey \<Rightarrow> validate_siem_auth_key data v
   | AlphanumericName \<Rightarrow> named_by validate_alphanumeric_name v
   | AbsolutePath \<Rightarrow> named_by validate_absolute_path v
   | BulkOperation \<Rightarrow> validate_operation v
   | BenchmarkName \<Rightarrow> validate_base_name v
   | BenchmarkOs \<Rightarrow> validate_os_type v
   | AfterStart \<Rightarrow> validate_time_range data v)"

section \<open>Reading a request\<close>

primrec convert :: "(field_type \<Rightarrow> json \<Rightarrow> json option) \<Rightarrow> (json \<Rightarrow> json option) \<Rightarrow> field_type \<Rightarrow> json \<Rightarrow> json option" where
  "convert conv sub TStr j = conv TStr j"
| "convert conv sub TInt j = conv TInt j"
| "convert conv sub TBool j = conv TBool j"
| "convert conv sub TFloat j = conv TFloat j"
| "convert conv sub TTime j = conv TTime j"
| "convert conv sub TDict j = conv TDict j"
| "convert conv sub (TEnum vs) j = conv (TEnum vs) j"
| "convert conv sub (TOptional t) j = (if j = JNone then Some JNone else convert conv sub t j)"
| "convert conv sub (TList t) j = (case j of
     JArray xs \<Rightarrow> map_option JArray (those (map (convert conv sub t) xs)) | _ \<Rightarrow> None)"
| "convert conv sub TSelector j = sub j"

definition bounded :: "'a::ord option \<Rightarrow> 'a option \<Rightarrow> 'a \<Rightarrow> bool" where
  "bounded a b x = ((case a of None \<Rightarrow> True | Some l \<Rightarrow> l \<le> x) \<and> (case b of None \<Rightarrow> True | Some u \<Rightarrow> x \<le> u))"

definition in_bounds :: "field_spec \<Rightarrow> json \<Rightarrow> bool" where
  "in_bounds f v = (case v of
     JInt i \<Rightarrow> bounded (fs_ge f) (fs_le f) i
   | JText s \<Rightarrow> bounded (fs_min f) (fs_max f) (length s) \<and> (case fs_pattern f of None \<Rightarrow> True | Some r \<Rightarrow> re_fullmatch r s)
   | JArray xs \<Rightarrow> bounded (fs_min f) (fs_max f) (length xs)
   | _ \<Rightarrow> True)"

definition check_value ::
  "(field_type \<Rightarrow> json \<Rightarrow> json option) \<Rightarrow> (json \<Rightarrow> json option) \<Rightarrow> field_spec \<Rightarrow> fields \<Rightarrow> json \<Rightarrow> request_error + json" where
  "check_value conv sub f data j = (case convert conv sub (fs_type f) j of
     None \<Rightarrow> Inl WrongType
   | Some v \<Rightarrow> if \<not> in_bounds f v then Inl OutOfBounds else run_check (fs_check f) data v)"

definition read_field ::
  "(field_type \<Rightarrow> json \<Rightarrow> json option) \<Rightarrow> (json \<Rightarrow> json option) \<Rightarrow> fields \<Rightarrow> field_spec \<Rightarrow> fields \<Rightarrow> request_error + json" where
  "read_field conv sub input f data = (case map_of input (fs_name f) of
     Some j \<Rightarrow> check_value conv sub f data j
   | None \<Rightarrow> (case fs_default f of
       None \<Rightarrow> Inl Missing
     | Some v \<Rightarrow> if fs_validate_default f then check_value conv sub f data v else Inr v))"

fun read_fields ::
  "(field_type \<Rightarrow> json \<Rightarrow> json option) \<Rightarrow> (json \<Rightarrow> json option) \<Rightarrow> fields \<Rightarrow> field_spec list \<Rightarrow> fields
     \<Rightarrow> (string \<times> request_error) list \<times> fields" where
  "read_fields conv sub input [] data = ([], data)"
| "read_fields conv sub input (f # fs) data = (case read_field conv sub input f data of
     Inl e \<Rightarrow> (let (es, d) = read_fields conv sub input fs data in ((fs_name f, e) # es, d))
   | Inr v \<Rightarrow> read_fields conv sub input fs (data @ [(fs_name f, v)]))"

definition build ::
  "(field_type \<Rightarrow> json \<Rightarrow> json option) \<Rightarrow> (json \<Rightarrow> json option) \<Rightarrow> request_model \<Rightarrow> json \<Rightarrow> (string \<times> request_error) list + fields" where
  "build conv sub m j = (case j of
     JObject input \<Rightarrow> (case read_fields conv sub input (rm_fields m) [] of (es, data) \<Rightarrow>
       if es \<noteq> [] then Inl es
       else (case rm_after m data of Some e \<Rightarrow> Inl [([], Refused e)] | None \<Rightarrow> Inr data))
   | _ \<Rightarrow> Inl [([], NotAnObject)])"

section \<open>The models\<close>

definition SIEMType :: "string list" where
  "SIEMType = [''none'', ''wazuh'', ''ossec'', ''utmstack'', ''elastic'']"

definition OSType :: "string list" where
  "OSType = [''ubuntu_22_04'', ''ubuntu_24_04'', ''debian_12'']"

definition ParallelMode :: "string list" where
  "ParallelMode = [''sequential'', ''threading'', ''multiprocessing'']"

definition SyslogProtocol :: "string list" where
  "SyslogProtocol = [''udp'', ''tcp'']"

definition AgentLifecycleStatus :: "string list" where
  "AgentLifecycleStatus = [''running'', ''stopped'', ''error'', ''starting'', ''stopping'']"

definition SimulationProfile :: "string list" where
  "SimulationProfile = [''auth_bruteforce'', ''web_attacks'', ''malware_beacon'', ''lateral_movement'', ''data_exfiltration'',
     ''privilege_escalation'']"

definition SyslogDeviceType :: "string list" where
  "SyslogDeviceType = [''router'', ''switch'', ''firewall'', ''ids'', ''mixed'']"

definition ROLE_LITERAL :: "string list" where
  "ROLE_LITERAL = [''viewer'', ''operator'', ''admin'']"

abbreviation plain :: "field_spec list \<Rightarrow> request_model" where
  "plain fs \<equiv> \<lparr>rm_fields = fs, rm_after = (\<lambda>_. None)\<rparr>"

abbreviation opt_str :: "string \<Rightarrow> json \<Rightarrow> field_spec" where
  "opt_str n v \<equiv> defaulted n (TOptional TStr) v"

definition validate_naming :: "fields \<Rightarrow> string option" where
  "validate_naming data =
     (let base = (case given data ''agent_base_name'' of JText s \<Rightarrow> s | _ \<Rightarrow> []);
          cnt = (case given data ''count'' of JInt i \<Rightarrow> if i = 0 then 1 else i | _ \<Rightarrow> 1)
      in if 50 < length base + 1 + max 4 (length (int_str cnt))
         then Some (''Generated container names will exceed 50 characters. Max base_name length: ''
                @ int_str (50 - int (max 4 (length (int_str cnt))) - 1))
         else None)"

definition AgentDeploymentRequest :: request_model where
  "AgentDeploymentRequest = \<lparr>rm_fields =
     [between 1 1000 (required ''count'' TInt),
      opt_str ''manager_profile_id'' JNone,
      defaulted ''siem_type'' (TEnum SIEMType) (JText ''wazuh''),
      validated (checked DeploySiemIp (opt_str ''siem_ip'' JNone)),
      checked (InstallField ''siem_version'') (opt_str ''siem_version'' (JText ''4.14.2'')),
      defaulted ''os_type'' (TEnum OSType) (JText ''ubuntu_22_04''),
      checked (InstallField ''agent_group'') (defaulted ''agent_group'' TStr (JText ''default'')),
      checked AlphanumericName (long 1 30 (defaulted ''agent_base_name'' TStr (JText ''container''))),
      opt_str ''memory_limit'' (JText ''512MB''),
      between 2 10240 (defaulted ''cpu_shares'' (TOptional TInt) (JInt 1024)),
      opt_str ''config_template_id'' JNone,
      defaulted ''autostart'' (TOptional TBool) (JBool True),
      defaulted ''parallel_mode'' (TEnum ParallelMode) (JText ''multiprocessing''),
      defaulted ''auto_create_group'' (TOptional TBool) (JBool True),
      validated (checked DeployAuthKey (opt_str ''siem_auth_key'' JNone)),
      at_most 64 (opt_str ''deployment_id'' JNone)],
     rm_after = validate_naming\<rparr>"

definition validate_selector :: "fields \<Rightarrow> string option" where
  "validate_selector data =
     (if \<not> list_ex (\<lambda>k. truthy (given data k)) [''agent_ids'', ''siem_type'', ''agent_group'', ''count'', ''status'']
      then Some ''At least one selection criterion must be provided'' else None)"

definition AgentSelector :: request_model where
  "AgentSelector = \<lparr>rm_fields =
     [defaulted ''agent_ids'' (TOptional (TList TStr)) JNone,
      defaulted ''siem_type'' (TOptional (TEnum SIEMType)) JNone,
      opt_str ''agent_group'' JNone,
      between 1 1000 (defaulted ''count'' (TOptional TInt) JNone),
      defaulted ''status'' (TOptional (TEnum AgentLifecycleStatus)) JNone],
     rm_after = validate_selector\<rparr>"

definition SimulationStartRequest :: request_model where
  "SimulationStartRequest = plain
     [required ''profile_id'' (TEnum SimulationProfile),
      required ''agent_selector'' TSelector,
      between 1 86400 (defaulted ''duration'' TInt (JInt 300)),
      between 1 10000 (defaulted ''eps_target'' TInt (JInt 100)),
      opt_str ''detection_profile_id'' JNone]"

definition CustomLogSimulationRequest :: request_model where
  "CustomLogSimulationRequest = plain
     [required ''agent_selector'' TSelector,
      checked AbsolutePath (defaulted ''file_path'' TStr (JText ''/var/log/custom-eps.json'')),
      at_most 500 (defaulted ''message'' TStr (JText ''Custom EPS log event'')),
      defaulted ''src_ip'' TStr (JText ''192.168.1.100''),
      defaulted ''dest_ip'' TStr (JText ''10.0.0.1''),
      between 1 86400 (defaulted ''duration'' TInt (JInt 300)),
      between 1 10000 (defaulted ''eps'' TInt (JInt 100)),
      (defaulted ''seq_start'' TInt (JInt 1))\<lparr>fs_ge := Some 1\<rparr>,
      defaulted ''start_time'' (TOptional TTime) JNone,
      defaulted ''extra_fields'' TDict (JObject [])]"

definition SyslogSimulationRequest :: request_model where
  "SyslogSimulationRequest = plain
     [required ''target_ip'' TStr,
      between 1 65535 (defaulted ''target_port'' TInt (JInt 514)),
      defaulted ''protocol'' (TEnum SyslogProtocol) (JText ''tcp''),
      between 1 10000 (defaulted ''eps'' TInt (JInt 100)),
      between 1 86400 (defaulted ''duration'' TInt (JInt 300)),
      between 1 1000 (defaulted ''device_count'' TInt (JInt 4)),
      defaulted ''device_type'' (TEnum SyslogDeviceType) (JText ''mixed''),
      at_most 50 (defaulted ''device_name_prefix'' TStr (JText ''device'')),
      between 0 23 (defaulted ''facility'' TInt (JInt 1))]"

definition LogUploadRequest :: request_model where
  "LogUploadRequest = plain
     [required ''content'' TStr,
      checked AbsolutePath (required ''destination_path'' TStr),
      defaulted ''append'' TBool (JBool False)]"

definition LogScheduleRequest :: request_model where
  "LogScheduleRequest = plain
     [required ''content'' TStr,
      checked AbsolutePath (required ''destination_path'' TStr),
      defaulted ''append'' TBool (JBool True),
      between 5 86400 (defaulted ''interval_seconds'' TInt (JInt 120)),
      between 10 604800 (defaulted ''duration_seconds'' (TOptional TInt) JNone),
      defaulted ''indefinite'' TBool (JBool False)]"

definition hex_upper_pair :: regex where
  "hex_upper_pair = RSeq (RCls (\<lambda>c. ascii_digit c \<or> rrange (CHR ''A'') (CHR ''F'') c))
     (RCls (\<lambda>c. ascii_digit c \<or> rrange (CHR ''A'') (CHR ''F'') c))"

definition FINGERPRINT :: regex where
  "FINGERPRINT = RSeq (RRep (RSeq hex_upper_pair (rchr (CHR '':''))) 31 31) hex_upper_pair"

definition ManagerProfileCreate :: request_model where
  "ManagerProfileCreate = plain
     [long 1 100 (required ''name'' TStr),
      at_most 500 (opt_str ''description'' JNone),
      required ''siem_type'' (TEnum SIEMType),
      checked (InstallField ''siem_ip'') (opt_str ''siem_ip'' JNone),
      checked (InstallField ''siem_version'') (opt_str ''siem_version'' JNone),
      checked (InstallField ''siem_auth_key'') (opt_str ''siem_auth_key'' JNone),
      defaulted ''os_type'' (TEnum OSType) (JText ''ubuntu_22_04''),
      checked (InstallField ''agent_group'') (defaulted ''agent_group'' TStr (JText ''default'')),
      opt_str ''memory_limit'' (JText ''512MB''),
      between 2 10240 (defaulted ''cpu_shares'' (TOptional TInt) (JInt 1024)),
      opt_str ''config_template_id'' JNone,
      at_most 300 (opt_str ''detection_url'' JNone),
      at_most 200 (opt_str ''detection_username'' JNone),
      at_most 2000 (opt_str ''detection_secret'' JNone),
      matching FINGERPRINT (opt_str ''detection_fingerprint'' JNone),
      between 1 65535 (defaulted ''syslog_port'' (TOptional TInt) JNone),
      defaulted ''syslog_protocol'' (TOptional (TEnum SyslogProtocol)) JNone]"

definition ManagerProfileUpdate :: request_model where
  "ManagerProfileUpdate = plain
     [long 1 100 (opt_str ''name'' JNone),
      opt_str ''description'' JNone,
      defaulted ''siem_type'' (TOptional (TEnum SIEMType)) JNone,
      checked (InstallField ''siem_ip'') (opt_str ''siem_ip'' JNone),
      checked (InstallField ''siem_version'') (opt_str ''siem_version'' JNone),
      checked (InstallField ''siem_auth_key'') (opt_str ''siem_auth_key'' JNone),
      defaulted ''os_type'' (TOptional (TEnum OSType)) JNone,
      checked (InstallField ''agent_group'') (opt_str ''agent_group'' JNone),
      opt_str ''memory_limit'' JNone,
      between 2 10240 (defaulted ''cpu_shares'' (TOptional TInt) JNone),
      opt_str ''config_template_id'' JNone,
      at_most 300 (opt_str ''detection_url'' JNone),
      at_most 200 (opt_str ''detection_username'' JNone),
      at_most 2000 (opt_str ''detection_secret'' JNone),
      matching (ropt FINGERPRINT) (opt_str ''detection_fingerprint'' JNone),
      between 1 65535 (defaulted ''syslog_port'' (TOptional TInt) JNone),
      defaulted ''syslog_protocol'' (TOptional (TEnum SyslogProtocol)) JNone]"

definition GroupCreateRequest :: request_model where
  "GroupCreateRequest = plain
     [checked AlphanumericName (long 1 50 (required ''name'' TStr)),
      at_most 200 (opt_str ''description'' JNone)]"

definition GroupRenameRequest :: request_model where
  "GroupRenameRequest = plain
     [checked AlphanumericName (long 1 50 (required ''new_name'' TStr)),
      at_most 200 (opt_str ''description'' JNone)]"

definition GroupAgentRequest :: request_model where
  "GroupAgentRequest = plain [some_items (required ''agent_ids'' (TList TStr))]"

definition BulkOperationRequest :: request_model where
  "BulkOperationRequest = plain
     [some_items (required ''container_names'' (TList TStr)),
      checked BulkOperation (required ''operation'' TStr)]"

definition ConfigImportRequest :: request_model where
  "ConfigImportRequest = plain
     [long 1 100 (required ''name'' TStr),
      required ''siem_type'' (TEnum SIEMType),
      required ''content'' TStr,
      at_most 500 (opt_str ''description'' JNone),
      opt_str ''version'' JNone,
      defaulted ''tags'' (TList TStr) (JArray [])]"

definition BenchmarkStartRequest :: request_model where
  "BenchmarkStartRequest = plain
     [defaulted ''scenario_id'' TStr (JText ''linear_scale''),
      opt_str ''name'' JNone,
      opt_str ''siem_type'' (JText ''none''),
      checked (InstallField ''siem_ip'') (opt_str ''siem_ip'' JNone),
      checked (InstallField ''siem_version'') (opt_str ''siem_version'' JNone),
      checked (InstallField ''siem_auth_key'') (opt_str ''siem_auth_key'' JNone),
      checked BenchmarkName (opt_str ''base_name'' JNone),
      opt_str ''memory_limit'' (JText ''256MB''),
      checked BenchmarkOs (opt_str ''os_type'' (JText ''ubuntu_22_04'')),
      checked (InstallField ''agent_group'') (opt_str ''agent_group'' (JText ''benchmark'')),
      defaulted ''metric_interval'' (TOptional TInt) JNone,
      defaulted ''failure_threshold'' (TOptional TFloat) JNone,
      opt_str ''manager_profile_id'' JNone]"

definition BenchmarkCompareRequest :: request_model where
  "BenchmarkCompareRequest = plain [required ''benchmark_ids'' (TList TStr)]"

definition ReportGenerateRequest :: request_model where
  "ReportGenerateRequest = plain
     [required ''start_time'' TTime,
      checked AfterStart (required ''end_time'' TTime),
      defaulted ''siem_ids'' (TOptional (TList TStr)) JNone,
      defaulted ''scenario_ids'' (TOptional (TList TStr)) JNone,
      defaulted ''metrics'' (TList TStr) (JArray [JText ''all'']),
      defaulted ''include_findings'' TBool (JBool True),
      defaulted ''format'' TStr (JText ''json'')]"

text \<open>\<open>^[A-Za-z0-9][A-Za-z0-9_.-]*$\<close> and \<open>^[\w .:@/-]+$\<close>, whose \<open>\w\<close> is a letter or digit of any script.\<close>

definition USERNAME_PATTERN :: regex where
  "USERNAME_PATTERN = RSeq alnum_cls (RStar (RCls (one_of ''_.-'')))"

definition word_char :: "char \<Rightarrow> bool" where
  "word_char c = (ascii_alnum c \<or> c = CHR ''_'' \<or> cp c \<in> {170, 181, 186} \<or> 192 \<le> cp c \<and> cp c \<noteq> 215 \<and> cp c \<noteq> 247)"

definition TOKEN_NAME :: regex where
  "TOKEN_NAME = rplus (RCls (\<lambda>c. word_char c \<or> c \<in> set '' .:@/-''))"

abbreviation password :: "string \<Rightarrow> field_spec" where
  "password n \<equiv> long 8 256 (required n TStr)"

abbreviation confirmed :: "string \<Rightarrow> field_spec" where
  "confirmed n \<equiv> long 1 256 (required n TStr)"

definition LoginRequest :: request_model where
  "LoginRequest = plain [long 1 64 (required ''username'' TStr), confirmed ''password'']"

definition TwoFactorLoginRequest :: request_model where
  "TwoFactorLoginRequest = plain [long 1 128 (required ''mfa_token'' TStr), long 6 32 (required ''code'' TStr)]"

definition PasswordConfirmRequest :: request_model where
  "PasswordConfirmRequest = plain [confirmed ''current_password'']"

definition TwoFactorCodeRequest :: request_model where
  "TwoFactorCodeRequest = plain [long 6 32 (required ''code'' TStr)]"

definition TwoFactorDisableRequest :: request_model where
  "TwoFactorDisableRequest = plain [confirmed ''current_password'', long 6 32 (required ''code'' TStr)]"

definition SetupRequest :: request_model where
  "SetupRequest = plain [long 1 128 (required ''setup_token'' TStr),
     matching USERNAME_PATTERN (long 3 32 (required ''username'' TStr)), password ''password'']"

definition PasswordChangeRequest :: request_model where
  "PasswordChangeRequest = plain [confirmed ''current_password'', password ''new_password'']"

definition UserCreateRequest :: request_model where
  "UserCreateRequest = plain [matching USERNAME_PATTERN (long 3 32 (required ''username'' TStr)), password ''password'',
     defaulted ''role'' (TEnum ROLE_LITERAL) (JText ''viewer'')]"

definition UserUpdateRequest :: request_model where
  "UserUpdateRequest = plain [required ''role'' (TEnum ROLE_LITERAL)]"

definition PasswordResetRequest :: request_model where
  "PasswordResetRequest = plain [password ''new_password'']"

definition ApiTokenCreateRequest :: request_model where
  "ApiTokenCreateRequest = plain [matching TOKEN_NAME (long 1 64 (required ''name'' TStr)),
     defaulted ''role'' (TOptional (TEnum ROLE_LITERAL)) JNone,
     between 1 3650 (defaulted ''expires_in_days'' (TOptional TInt) (JInt 90))]"

definition REQUESTS :: "request_model list" where
  "REQUESTS = [AgentDeploymentRequest, SimulationStartRequest, CustomLogSimulationRequest, SyslogSimulationRequest, LogUploadRequest,
     LogScheduleRequest, ManagerProfileCreate, ManagerProfileUpdate, GroupCreateRequest, GroupRenameRequest, GroupAgentRequest,
     BulkOperationRequest, ConfigImportRequest, BenchmarkStartRequest, BenchmarkCompareRequest, ReportGenerateRequest, LoginRequest,
     TwoFactorLoginRequest, PasswordConfirmRequest, TwoFactorCodeRequest, TwoFactorDisableRequest, SetupRequest,
     PasswordChangeRequest, UserCreateRequest, UserUpdateRequest, PasswordResetRequest, ApiTokenCreateRequest]"

definition read_selector :: "(field_type \<Rightarrow> json \<Rightarrow> json option) \<Rightarrow> json \<Rightarrow> json option" where
  "read_selector conv j = (case build conv (\<lambda>_. None) AgentSelector j of Inr d \<Rightarrow> Some (JObject d) | Inl _ \<Rightarrow> None)"

definition accept_request :: "(field_type \<Rightarrow> json \<Rightarrow> json option) \<Rightarrow> request_model \<Rightarrow> json \<Rightarrow> (string \<times> request_error) list + fields" where
  "accept_request conv m j = build conv (read_selector conv) m j"

lemmas request_models = AgentDeploymentRequest_def SimulationStartRequest_def CustomLogSimulationRequest_def SyslogSimulationRequest_def
  LogUploadRequest_def LogScheduleRequest_def ManagerProfileCreate_def ManagerProfileUpdate_def GroupCreateRequest_def GroupRenameRequest_def
  GroupAgentRequest_def BulkOperationRequest_def ConfigImportRequest_def BenchmarkStartRequest_def BenchmarkCompareRequest_def
  ReportGenerateRequest_def LoginRequest_def TwoFactorLoginRequest_def PasswordConfirmRequest_def TwoFactorCodeRequest_def
  TwoFactorDisableRequest_def SetupRequest_def PasswordChangeRequest_def UserCreateRequest_def UserUpdateRequest_def PasswordResetRequest_def
  ApiTokenCreateRequest_def

section \<open>Accepted requests are well typed\<close>

primrec has_type :: "(json \<Rightarrow> bool) \<Rightarrow> field_type \<Rightarrow> json \<Rightarrow> bool" where
  "has_type P TStr v = (case v of JText _ \<Rightarrow> True | _ \<Rightarrow> False)"
| "has_type P TInt v = (case v of JInt _ \<Rightarrow> True | _ \<Rightarrow> False)"
| "has_type P TBool v = (case v of JBool _ \<Rightarrow> True | _ \<Rightarrow> False)"
| "has_type P TFloat v = (case v of JInt _ \<Rightarrow> True | JText _ \<Rightarrow> True | _ \<Rightarrow> False)"
| "has_type P TTime v = (case v of JInt _ \<Rightarrow> True | _ \<Rightarrow> False)"
| "has_type P TDict v = (case v of JObject _ \<Rightarrow> True | _ \<Rightarrow> False)"
| "has_type P (TEnum vs) v = (case v of JText s \<Rightarrow> s \<in> set vs | _ \<Rightarrow> False)"
| "has_type P (TOptional t) v = (v = JNone \<or> has_type P t v)"
| "has_type P (TList t) v = (case v of JArray xs \<Rightarrow> list_all (has_type P t) xs | _ \<Rightarrow> False)"
| "has_type P TSelector v = P v"

fun scalar :: "field_type \<Rightarrow> bool" where
  "scalar (TOptional t) = False"
| "scalar (TList t) = False"
| "scalar TSelector = False"
| "scalar t = True"

text \<open>What the code relies on: a value pydantic reads as a scalar type is one of that type.\<close>

definition reads_typed :: "(field_type \<Rightarrow> json \<Rightarrow> json option) \<Rightarrow> bool" where
  "reads_typed conv = (\<forall>t j v. scalar t \<longrightarrow> conv t j = Some v \<longrightarrow> has_type (\<lambda>_. False) t v)"

definition inert_or_empty :: "json \<Rightarrow> bool" where
  "inert_or_empty v = (case v of JNone \<Rightarrow> True | JText s \<Rightarrow> s = [] \<or> shell_inert s | _ \<Rightarrow> False)"

text \<open>What each validator promises of the value it lets through.\<close>

definition meets :: "field_check \<Rightarrow> json \<Rightarrow> bool" where
  "meets c v = (case c of
     Unchecked \<Rightarrow> True
   | AfterStart \<Rightarrow> True
   | AlphanumericName \<Rightarrow> (case v of JText s \<Rightarrow> shell_inert (if last s = CHR 0x0A then butlast s else s) | _ \<Rightarrow> False)
   | AbsolutePath \<Rightarrow> (case v of JText s \<Rightarrow> shell_inert s \<and> hd s = CHR ''/'' \<and> ''..'' \<notin> set (split_on (CHR ''/'') s) | _ \<Rightarrow> False)
   | BulkOperation \<Rightarrow> (case v of JText s \<Rightarrow> s \<in> set OPERATIONS | _ \<Rightarrow> False)
   | BenchmarkOs \<Rightarrow> (case v of JNone \<Rightarrow> True | JText s \<Rightarrow> s = [] \<or> s \<in> set (map fst OS_IMAGES) | _ \<Rightarrow> False)
   | _ \<Rightarrow> inert_or_empty v)"

definition fits :: "(json \<Rightarrow> bool) \<Rightarrow> field_spec \<Rightarrow> json \<Rightarrow> bool" where
  "fits P f v = (has_type P (fs_type f) v \<and> in_bounds f v \<and> meets (fs_check f) v)"

text \<open>Values in the order of the fields, each under its field's name and fitting it.\<close>

definition typed_fields :: "(json \<Rightarrow> bool) \<Rightarrow> field_spec list \<Rightarrow> fields \<Rightarrow> bool" where
  "typed_fields P fs data = list_all2 (\<lambda>f (k, v). k = fs_name f \<and> fits P f v) fs data"

definition typed_selector :: "json \<Rightarrow> bool" where
  "typed_selector v = (case v of JObject d \<Rightarrow> typed_fields (\<lambda>_. False) (rm_fields AgentSelector) d \<and> validate_selector d = None | _ \<Rightarrow> False)"

text \<open>
  A class is well written when validators stand on text fields, the one that rewrites its value on a field
  without bounds, and a default nothing checks fits its field.
\<close>

definition well_written :: "field_spec \<Rightarrow> bool" where
  "well_written f = ((fs_check f = Unchecked \<or> fs_check f = AfterStart \<or> fs_type f = TStr \<or> fs_type f = TOptional TStr)
     \<and> (fs_check f = BulkOperation \<longrightarrow> fs_type f = TStr \<and> fs_min f = None \<and> fs_max f = None \<and> Option.is_none (fs_pattern f))
     \<and> (case fs_default f of None \<Rightarrow> True | Some v \<Rightarrow> fs_validate_default f \<or> fits (\<lambda>_. False) f v))"

lemma models_well_written: "m \<in> set REQUESTS \<Longrightarrow> list_all well_written (rm_fields m)"
proof -
  have "list_all (\<lambda>m. list_all well_written (rm_fields m)) REQUESTS" by code_simp
  then show "m \<in> set REQUESTS \<Longrightarrow> list_all well_written (rm_fields m)" by (simp add: list_all_iff)
qed

lemma selector_well_written: "list_all well_written (rm_fields AgentSelector)"
  by code_simp

lemma has_type_mono: "(\<And>j. P j \<Longrightarrow> Q j) \<Longrightarrow> has_type P t v \<Longrightarrow> has_type Q t v"
  by (induction t arbitrary: v) (auto split: json.splits simp: list_all_iff)

lemma those_typed: "those (map g xs) = Some ys \<Longrightarrow> (\<And>x y. g x = Some y \<Longrightarrow> P y) \<Longrightarrow> list_all P ys"
  by (induction xs arbitrary: ys) (auto split: option.splits)

lemma convert_typed:
  assumes "reads_typed conv" "\<And>j v. sub j = Some v \<Longrightarrow> P v"
  shows "convert conv sub t j = Some v \<Longrightarrow> has_type P t v"
proof (induction t arbitrary: j v)
  case (TList t)
  then show ?case by (auto split: json.splits intro: those_typed)
next
  case (TOptional t)
  then show ?case by (auto split: if_splits)
qed (use assms in \<open>(force simp: reads_typed_def)+\<close>)

definition optional_text :: "json \<Rightarrow> bool" where
  "optional_text v = (v = JNone \<or> (\<exists>s. v = JText s))"

lemma optional_text_simps [simp]: "optional_text JNone" "optional_text (JText s)"
  by (simp_all add: optional_text_def)

lemma text_opt_text: "optional_text v \<Longrightarrow> text_json (opt_text v) = v"
  by (auto simp: optional_text_def text_json_def opt_text_def)

lemma optional_Inr:
  "optional check v = Inr w \<Longrightarrow> (\<And>s t. check (Some s) = Inr t \<Longrightarrow> t = s \<and> shell_inert s) \<Longrightarrow>
     w = v \<and> inert_or_empty (text_json v)"
  by (cases v) (auto simp: optional_def inert_or_empty_def text_json_def split: if_splits sum.splits)

lemma install_checks_inert:
  assumes "map_of INSTALL_FIELD_CHECKS k = Some check" "check v = Inr w"
  shows "w = v \<and> inert_or_empty (text_json v)"
proof -
  from assms(1) have "check \<in> optional ` {validate_host, validate_version, validate_token, validate_group}"
    by (auto simp: INSTALL_FIELD_CHECKS_def split: if_splits)
  then obtain c where c: "check = optional c" "c \<in> {validate_host, validate_version, validate_token, validate_group}" by auto
  from assms(2) [unfolded c(1)] show ?thesis
    by (rule optional_Inr) (use c(2) in \<open>auto simp: validators_Inr host_match_def intro: inert_patterns\<close>)
qed

lemma install_field_Inr:
  assumes "install_field k v = Inr w" "optional_text v" "map_of INSTALL_FIELD_CHECKS k \<noteq> None"
  shows "w = v \<and> inert_or_empty v"
proof -
  obtain check u where c: "map_of INSTALL_FIELD_CHECKS k = Some check" "check (opt_text v) = Inr u" "w = text_json u"
    using assms(1,3) by (auto simp: install_field_def split: option.splits sum.splits)
  show ?thesis using install_checks_inert [OF c(1,2)] c(3) text_opt_text [OF assms(2)] by simp
qed

lemma named_by_Inr: "named_by check v = Inr w \<Longrightarrow> \<exists>s t. v = JText s \<and> w = JText t \<and> check s = Inr t"
  by (auto simp: named_by_def split: json.splits sum.splits)

lemma alphanumeric_inert: "rmatch ALPHANUM_START t \<Longrightarrow> shell_inert t"
  unfolding re_fullmatch_def [symmetric] ALPHANUM_START_def alnum_cls_def
  by (erule pattern_inert) (auto intro: shell_inert_charI simp: alnum_not_dash)

lemma inert_last: "shell_inert t \<Longrightarrow> last t \<noteq> CHR 0x0A"
proof
  assume t: "shell_inert t" and l: "last t = CHR 0x0A"
  from t have "t \<noteq> []" "list_all shell_inert_char t" by (simp_all add: shell_inert_def)
  then have "shell_inert_char (last t)" by (simp add: list_all_iff)
  then show False using l by (simp add: shell_inert_char_def one_of_def ascii_alnum_def ascii_digit_def ascii_upper_def ascii_lower_def cp_def)
qed

lemma alphanumeric_name_inert:
  "validate_alphanumeric_name s = Inr t \<Longrightarrow> t = s \<and> shell_inert (if last s = CHR 0x0A then butlast s else s)"
  by (auto simp: validate_alphanumeric_name_def re_match_anchored_iff split: if_splits dest: alphanumeric_inert inert_last)

lemma absolute_path_inert:
  assumes "validate_absolute_path s = Inr t"
  shows "t = s \<and> shell_inert s \<and> hd s = CHR ''/'' \<and> ''..'' \<notin> set (split_on (CHR ''/'') s)"
proof -
  from validate_absolute_path_Inr [OF assms] have "t = s" "re_fullmatch PATH s" "''..'' \<notin> set (split_on (CHR ''/'') s)"
    by (auto simp: validate_container_path_Inr)
  then show ?thesis using PATH_shape [of s] inert_PATH [of s] by auto
qed

lemma group_inert: "validate_group v = Inr s \<Longrightarrow> v = Some s \<and> shell_inert s"
  by (auto simp: validators_Inr intro: inert_patterns)

text \<open>What a validator lets through it promises, and only the operation's name may change.\<close>

lemma run_check_meets:
  assumes c: "run_check c data v = Inr w" and v: "optional_text v \<or> c = Unchecked \<or> c = AfterStart"
    and k: "\<And>k. c = InstallField k \<Longrightarrow> map_of INSTALL_FIELD_CHECKS k \<noteq> None"
  shows "meets c w \<and> (c \<noteq> BulkOperation \<longrightarrow> w = v)"
proof (cases c)
  case (InstallField x)
  then show ?thesis using assms install_field_Inr [of x v w] by (auto simp: run_check_def meets_def)
next
  case DeploySiemIp
  have "install_field ''siem_ip'' v = Inr w" using c DeploySiemIp by (auto simp: run_check_def validate_siem_ip_def split: if_splits)
  then show ?thesis using v install_field_Inr [of "''siem_ip''" v w] DeploySiemIp by (auto simp: meets_def INSTALL_FIELD_CHECKS_def)
next
  case DeployAuthKey
  have "install_field ''siem_auth_key'' v = Inr w"
    using c DeployAuthKey by (auto simp: run_check_def validate_siem_auth_key_def split: if_splits)
  then show ?thesis using v install_field_Inr [of "''siem_auth_key''" v w] DeployAuthKey by (auto simp: meets_def INSTALL_FIELD_CHECKS_def)
next
  case AlphanumericName
  then show ?thesis using c by (auto simp: run_check_def meets_def dest!: named_by_Inr alphanumeric_name_inert)
next
  case AbsolutePath
  then show ?thesis using c by (auto simp: run_check_def meets_def dest!: named_by_Inr dest: absolute_path_inert)
next
  case BulkOperation
  then show ?thesis using c by (auto simp: run_check_def meets_def validate_operation_def split: json.splits if_splits)
next
  case BenchmarkName
  then show ?thesis using c v
    by (auto simp: run_check_def meets_def validate_base_name_def inert_or_empty_def optional_text_def opt_text_def
        split: if_splits sum.splits dest: group_inert)
next
  case BenchmarkOs
  then show ?thesis using c v by (auto simp: run_check_def meets_def validate_os_type_def optional_text_def simp del: set_map split: if_splits)
next
  case AfterStart
  then show ?thesis using c
    by (auto simp: run_check_def meets_def validate_time_range_def split: option.splits json.splits if_splits)
qed (use c in \<open>simp add: run_check_def meets_def\<close>)

definition known_check :: "field_check \<Rightarrow> bool" where
  "known_check c = (case c of InstallField k \<Rightarrow> k \<in> set (map fst INSTALL_FIELD_CHECKS) | _ \<Rightarrow> True)"

lemma models_known: "m \<in> set REQUESTS \<Longrightarrow> list_all (\<lambda>f. known_check (fs_check f)) (rm_fields m)"
proof -
  have "list_all (\<lambda>m. list_all (\<lambda>f. known_check (fs_check f)) (rm_fields m)) REQUESTS" by code_simp
  then show "m \<in> set REQUESTS \<Longrightarrow> list_all (\<lambda>f. known_check (fs_check f)) (rm_fields m)" by (simp add: list_all_iff)
qed

lemma check_value_fits:
  assumes conv: "reads_typed conv" "\<And>j v. sub j = Some v \<Longrightarrow> P v"
    and f: "well_written f" "known_check (fs_check f)"
    and w: "check_value conv sub f data j = Inr w"
  shows "fits P f w"
proof -
  obtain v where v: "convert conv sub (fs_type f) j = Some v" "in_bounds f v" "run_check (fs_check f) data v = Inr w"
    using w by (auto simp: check_value_def split: option.splits if_splits)
  have t: "has_type P (fs_type f) v" by (rule convert_typed [OF conv v(1)])
  have "optional_text v \<or> fs_check f = Unchecked \<or> fs_check f = AfterStart"
    using f(1) t unfolding well_written_def by (auto split: json.splits)
  moreover have "\<And>k. fs_check f = InstallField k \<Longrightarrow> map_of INSTALL_FIELD_CHECKS k \<noteq> None"
    using f(2) by (auto simp: known_check_def INSTALL_FIELD_CHECKS_def split: if_splits)
  ultimately have m: "meets (fs_check f) w" "fs_check f \<noteq> BulkOperation \<longrightarrow> w = v"
    using run_check_meets [OF v(3)] by blast+
  show ?thesis
  proof (cases "fs_check f = BulkOperation")
    case True
    then obtain s where "w = JText s" using m(1) by (auto simp: meets_def split: json.splits)
    then show ?thesis using True m(1) f(1) by (simp add: fits_def well_written_def in_bounds_def bounded_def Option.is_none_def)
  next
    case False
    then show ?thesis using m t v(2) by (simp add: fits_def)
  qed
qed

lemma read_field_fits:
  assumes conv: "reads_typed conv" "\<And>j v. sub j = Some v \<Longrightarrow> P v"
    and f: "well_written f" "known_check (fs_check f)"
    and w: "read_field conv sub input f data = Inr w"
  shows "fits P f w"
proof (cases "map_of input (fs_name f) = None \<and> \<not> fs_validate_default f")
  case True
  then have "fs_default f = Some w" using w by (auto simp: read_field_def split: option.splits if_splits)
  then have "fits (\<lambda>_. False) f w" using f(1) True by (simp add: well_written_def)
  then show ?thesis by (auto simp: fits_def intro: has_type_mono)
next
  case False
  then have "\<exists>j. check_value conv sub f data j = Inr w"
    using w by (auto simp: read_field_def split: option.splits if_splits)
  then obtain j where "check_value conv sub f data j = Inr w" by blast
  then show ?thesis using check_value_fits [where P = P and sub = sub, OF conv(1) conv(2) f] by simp
qed

lemma read_fields_typed:
  assumes conv: "reads_typed conv" "\<And>j v. sub j = Some v \<Longrightarrow> P v"
  shows "read_fields conv sub input fs data = ([], d) \<Longrightarrow> list_all well_written fs \<Longrightarrow> list_all (\<lambda>f. known_check (fs_check f)) fs \<Longrightarrow>
    \<exists>e. d = data @ e \<and> typed_fields P fs e"
proof (induction fs arbitrary: data)
  case (Cons f fs)
  obtain v where v: "read_field conv sub input f data = Inr v" "read_fields conv sub input fs (data @ [(fs_name f, v)]) = ([], d)"
    using Cons.prems(1) by (auto split: sum.splits prod.splits)
  obtain e where e: "d = (data @ [(fs_name f, v)]) @ e" "typed_fields P fs e"
    using Cons.IH [OF v(2)] Cons.prems(2,3) by auto
  moreover have "fits P f v" using read_field_fits [where P = P and sub = sub, OF conv(1) conv(2) _ _ v(1)] Cons.prems(2,3) by simp
  ultimately show ?case by (intro exI [of _ "(fs_name f, v) # e"]) (simp add: typed_fields_def)
qed (simp add: typed_fields_def)

lemma build_typed:
  assumes conv: "reads_typed conv" "\<And>j v. sub j = Some v \<Longrightarrow> P v"
    and m: "list_all well_written (rm_fields m)" "list_all (\<lambda>f. known_check (fs_check f)) (rm_fields m)"
    and b: "build conv sub m j = Inr d"
  shows "typed_fields P (rm_fields m) d \<and> rm_after m d = None"
proof -
  obtain input where "read_fields conv sub input (rm_fields m) [] = ([], d)" "rm_after m d = None"
    using b by (auto simp: build_def split: json.splits prod.splits option.splits if_splits)
  then show ?thesis using read_fields_typed [where P = P and sub = sub, OF conv(1) conv(2) _ m] by fastforce
qed

lemma read_selector_typed:
  assumes "reads_typed conv" "read_selector conv j = Some v"
  shows "typed_selector v"
proof -
  obtain d where d: "build conv (\<lambda>_. None) AgentSelector j = Inr d" "v = JObject d"
    using assms(2) by (auto simp: read_selector_def split: sum.splits)
  have "list_all (\<lambda>f. known_check (fs_check f)) (rm_fields AgentSelector)" by code_simp
  then have "typed_fields (\<lambda>_. False) (rm_fields AgentSelector) d \<and> rm_after AgentSelector d = None"
    using build_typed [OF assms(1) _ selector_well_written _ d(1)] by blast
  then show ?thesis by (simp add: typed_selector_def d(2) AgentSelector_def)
qed

lemma requests_typed:
  assumes "reads_typed conv" "m \<in> set REQUESTS" "accept_request conv m j = Inr d"
  shows "typed_fields typed_selector (rm_fields m) d \<and> rm_after m d = None"
  using build_typed [OF assms(1) read_selector_typed [OF assms(1)] models_well_written [OF assms(2)] models_known [OF assms(2)]] assms(3)
  by (simp add: accept_request_def)

text \<open>A reading that changes nothing: strict mode.\<close>

definition strict :: "field_type \<Rightarrow> json \<Rightarrow> json option" where
  "strict t j = (if scalar t \<and> has_type (\<lambda>_. False) t j then Some j else None)"

lemma strict_reads_typed: "reads_typed strict"
  by (simp add: reads_typed_def strict_def)

lemma typed_fields_get:
  assumes "typed_fields P fs d" "f \<in> set fs" "distinct (map fs_name fs)"
  shows "fits P f (given d (fs_name f))"
  using assms
proof (induction fs arbitrary: d)
  case (Cons g fs)
  obtain v e where d: "d = (fs_name g, v) # e" "fits P g v" "typed_fields P fs e"
    using Cons.prems(1) by (cases d) (auto simp: typed_fields_def)
  show ?case
  proof (cases "f = g")
    case False
    then have "fs_name f \<noteq> fs_name g" using Cons.prems(2,3) by (metis distinct.simps(2) imageI list.set_map list.simps(9) set_ConsD)
    then show ?thesis using Cons.IH [OF d(3)] Cons.prems(2,3) False by (simp add: d(1) given_def)
  qed (simp add: d given_def)
qed simp

lemma deployment_names_distinct: "distinct (map fs_name (rm_fields AgentDeploymentRequest))"
  by code_simp

section \<open>What the documentation of the API promises of each field\<close>

text \<open>
  The bounds written out, apart from the classes: for each model the fields of an accepted request in order,
  and what holds of each value.
\<close>

definition whole :: "int \<Rightarrow> int \<Rightarrow> json \<Rightarrow> bool" where
  "whole a b v = (\<exists>i. v = JInt i \<and> a \<le> i \<and> i \<le> b)"

definition some_text :: "json \<Rightarrow> bool" where
  "some_text v = (\<exists>s. v = JText s)"

definition text_of :: "nat \<Rightarrow> nat \<Rightarrow> json \<Rightarrow> bool" where
  "text_of a b v = (\<exists>s. v = JText s \<and> a \<le> length s \<and> length s \<le> b)"

definition among :: "string list \<Rightarrow> json \<Rightarrow> bool" where
  "among ws v = (\<exists>s. v = JText s \<and> s \<in> set ws)"

definition flag :: "json \<Rightarrow> bool" where
  "flag v = (\<exists>b. v = JBool b)"

definition maybe :: "(json \<Rightarrow> bool) \<Rightarrow> json \<Rightarrow> bool" where
  "maybe P v = (v = JNone \<or> P v)"

definition texts :: "json \<Rightarrow> bool" where
  "texts v = (\<exists>xs. v = JArray xs \<and> list_all some_text xs)"

text \<open>A name that is inert in a shell but for one line break that may end it.\<close>

definition plain_name :: "nat \<Rightarrow> nat \<Rightarrow> json \<Rightarrow> bool" where
  "plain_name a b v = (\<exists>s. v = JText s \<and> a \<le> length s \<and> length s \<le> b \<and> shell_inert (if last s = CHR 0x0A then butlast s else s))"

definition container_path :: "json \<Rightarrow> bool" where
  "container_path v = (\<exists>s. v = JText s \<and> shell_inert s \<and> hd s = CHR ''/'' \<and> ''..'' \<notin> set (split_on (CHR ''/'') s))"

definition hex_or_colon :: "char \<Rightarrow> bool" where
  "hex_or_colon c = (48 \<le> cp c \<and> cp c \<le> 57 \<or> 65 \<le> cp c \<and> cp c \<le> 70 \<or> c = CHR '':'')"

definition spelled :: "(char \<Rightarrow> bool) \<Rightarrow> nat \<Rightarrow> nat \<Rightarrow> json \<Rightarrow> bool" where
  "spelled p a b v = (\<exists>s. v = JText s \<and> list_all p s \<and> a \<le> length s \<and> length s \<le> b)"

definition username_text :: "json \<Rightarrow> bool" where
  "username_text v = (\<exists>s. v = JText s \<and> 3 \<le> length s \<and> length s \<le> 32 \<and> ascii_alnum (hd s) \<and>
     list_all (\<lambda>c. ascii_alnum c \<or> c \<in> set ''_.-'') s)"

definition selecting :: "json \<Rightarrow> bool" where
  "selecting v = (\<exists>i t g n s. v = JObject [(''agent_ids'', i), (''siem_type'', t), (''agent_group'', g), (''count'', n), (''status'', s)] \<and>
     maybe texts i \<and> maybe (among [''none'', ''wazuh'', ''ossec'', ''utmstack'', ''elastic'']) t \<and> maybe some_text g \<and>
     maybe (whole 1 1000) n \<and> maybe (among [''running'', ''stopped'', ''error'', ''starting'', ''stopping'']) s \<and>
     (i \<notin> {JNone, JArray []} \<or> t \<noteq> JNone \<or> g \<notin> {JNone, JText []} \<or> n \<noteq> JNone \<or> s \<noteq> JNone))"

abbreviation siems :: "string list" where
  "siems \<equiv> [''none'', ''wazuh'', ''ossec'', ''utmstack'', ''elastic'']"

abbreviation images :: "string list" where
  "images \<equiv> [''ubuntu_22_04'', ''ubuntu_24_04'', ''debian_12'']"

type_synonym promise = "string \<times> (json \<Rightarrow> bool)"

definition deployment_promise :: "promise list" where
  "deployment_promise =
     [(''count'', whole 1 1000), (''manager_profile_id'', maybe some_text), (''siem_type'', among siems),
      (''siem_ip'', inert_or_empty), (''siem_version'', inert_or_empty), (''os_type'', among images),
      (''agent_group'', inert_or_empty), (''agent_base_name'', plain_name 1 30), (''memory_limit'', maybe some_text),
      (''cpu_shares'', maybe (whole 2 10240)), (''config_template_id'', maybe some_text), (''autostart'', maybe flag),
      (''parallel_mode'', among [''sequential'', ''threading'', ''multiprocessing'']), (''auto_create_group'', maybe flag),
      (''siem_auth_key'', inert_or_empty), (''deployment_id'', maybe (text_of 0 64))]"

definition simulation_promises :: "(request_model \<times> promise list) list" where
  "simulation_promises =
     [(SimulationStartRequest,
       [(''profile_id'', among [''auth_bruteforce'', ''web_attacks'', ''malware_beacon'', ''lateral_movement'', ''data_exfiltration'',
            ''privilege_escalation'']),
        (''agent_selector'', selecting), (''duration'', whole 1 86400), (''eps_target'', whole 1 10000),
        (''detection_profile_id'', maybe some_text)]),
      (CustomLogSimulationRequest,
       [(''agent_selector'', selecting), (''file_path'', container_path), (''message'', text_of 0 500), (''src_ip'', some_text),
        (''dest_ip'', some_text), (''duration'', whole 1 86400), (''eps'', whole 1 10000),
        (''seq_start'', \<lambda>v. \<exists>i\<ge>1. v = JInt i), (''start_time'', maybe (\<lambda>v. \<exists>i. v = JInt i)),
        (''extra_fields'', \<lambda>v. \<exists>m. v = JObject m)]),
      (SyslogSimulationRequest,
       [(''target_ip'', some_text), (''target_port'', whole 1 65535), (''protocol'', among [''udp'', ''tcp'']),
        (''eps'', whole 1 10000), (''duration'', whole 1 86400), (''device_count'', whole 1 1000),
        (''device_type'', among [''router'', ''switch'', ''firewall'', ''ids'', ''mixed'']),
        (''device_name_prefix'', text_of 0 50), (''facility'', whole 0 23)]),
      (LogUploadRequest, [(''content'', some_text), (''destination_path'', container_path), (''append'', flag)]),
      (LogScheduleRequest,
       [(''content'', some_text), (''destination_path'', container_path), (''append'', flag), (''interval_seconds'', whole 5 86400),
        (''duration_seconds'', maybe (whole 10 604800)), (''indefinite'', flag)])]"

definition manager_promises :: "(request_model \<times> promise list) list" where
  "manager_promises =
     [(ManagerProfileCreate,
       [(''name'', text_of 1 100), (''description'', maybe (text_of 0 500)), (''siem_type'', among siems), (''siem_ip'', inert_or_empty),
        (''siem_version'', inert_or_empty), (''siem_auth_key'', inert_or_empty), (''os_type'', among images),
        (''agent_group'', inert_or_empty), (''memory_limit'', maybe some_text), (''cpu_shares'', maybe (whole 2 10240)),
        (''config_template_id'', maybe some_text), (''detection_url'', maybe (text_of 0 300)),
        (''detection_username'', maybe (text_of 0 200)), (''detection_secret'', maybe (text_of 0 2000)),
        (''detection_fingerprint'', maybe (spelled hex_or_colon 1 95)),
        (''syslog_port'', maybe (whole 1 65535)), (''syslog_protocol'', maybe (among [''udp'', ''tcp'']))]),
      (ManagerProfileUpdate,
       [(''name'', maybe (text_of 1 100)), (''description'', maybe some_text), (''siem_type'', maybe (among siems)),
        (''siem_ip'', inert_or_empty), (''siem_version'', inert_or_empty), (''siem_auth_key'', inert_or_empty),
        (''os_type'', maybe (among images)), (''agent_group'', inert_or_empty), (''memory_limit'', maybe some_text),
        (''cpu_shares'', maybe (whole 2 10240)), (''config_template_id'', maybe some_text), (''detection_url'', maybe (text_of 0 300)),
        (''detection_username'', maybe (text_of 0 200)), (''detection_secret'', maybe (text_of 0 2000)),
        (''detection_fingerprint'', maybe (spelled hex_or_colon 0 95)),
        (''syslog_port'', maybe (whole 1 65535)), (''syslog_protocol'', maybe (among [''udp'', ''tcp'']))])]"

definition other_promises :: "(request_model \<times> promise list) list" where
  "other_promises =
     [(GroupCreateRequest, [(''name'', plain_name 1 50), (''description'', maybe (text_of 0 200))]),
      (GroupRenameRequest, [(''new_name'', plain_name 1 50), (''description'', maybe (text_of 0 200))]),
      (GroupAgentRequest, [(''agent_ids'', \<lambda>v. texts v \<and> v \<noteq> JArray [])]),
      (BulkOperationRequest,
       [(''container_names'', \<lambda>v. texts v \<and> v \<noteq> JArray []), (''operation'', among [''start'', ''stop'', ''delete''])]),
      (ConfigImportRequest,
       [(''name'', text_of 1 100), (''siem_type'', among siems), (''content'', some_text), (''description'', maybe (text_of 0 500)),
        (''version'', maybe some_text), (''tags'', texts)]),
      (BenchmarkStartRequest,
       [(''scenario_id'', some_text), (''name'', maybe some_text), (''siem_type'', maybe some_text), (''siem_ip'', inert_or_empty),
        (''siem_version'', inert_or_empty), (''siem_auth_key'', inert_or_empty), (''base_name'', inert_or_empty),
        (''memory_limit'', maybe some_text), (''os_type'', maybe (among ([] # images))), (''agent_group'', inert_or_empty),
        (''metric_interval'', maybe (\<lambda>v. \<exists>i. v = JInt i)), (''failure_threshold'', maybe (\<lambda>v. some_text v \<or> (\<exists>i. v = JInt i))),
        (''manager_profile_id'', maybe some_text)]),
      (BenchmarkCompareRequest, [(''benchmark_ids'', texts)]),
      (ReportGenerateRequest,
       [(''start_time'', \<lambda>v. \<exists>i. v = JInt i), (''end_time'', \<lambda>v. \<exists>i. v = JInt i), (''siem_ids'', maybe texts),
        (''scenario_ids'', maybe texts), (''metrics'', texts), (''include_findings'', flag), (''format'', some_text)])]"

definition account_promises :: "(request_model \<times> promise list) list" where
  "account_promises =
     [(LoginRequest, [(''username'', text_of 1 64), (''password'', text_of 1 256)]),
      (TwoFactorLoginRequest, [(''mfa_token'', text_of 1 128), (''code'', text_of 6 32)]),
      (PasswordConfirmRequest, [(''current_password'', text_of 1 256)]),
      (TwoFactorCodeRequest, [(''code'', text_of 6 32)]),
      (TwoFactorDisableRequest, [(''current_password'', text_of 1 256), (''code'', text_of 6 32)]),
      (SetupRequest, [(''setup_token'', text_of 1 128), (''username'', username_text), (''password'', text_of 8 256)]),
      (PasswordChangeRequest, [(''current_password'', text_of 1 256), (''new_password'', text_of 8 256)]),
      (UserCreateRequest, [(''username'', username_text), (''password'', text_of 8 256),
        (''role'', among [''viewer'', ''operator'', ''admin''])]),
      (UserUpdateRequest, [(''role'', among [''viewer'', ''operator'', ''admin''])]),
      (PasswordResetRequest, [(''new_password'', text_of 8 256)]),
      (ApiTokenCreateRequest,
       [(''name'', text_of 1 64), (''role'', maybe (among [''viewer'', ''operator'', ''admin''])),
        (''expires_in_days'', maybe (whole 1 3650))])]"

definition PROMISES :: "(request_model \<times> promise list) list" where
  "PROMISES = (AgentDeploymentRequest, deployment_promise) # simulation_promises @ manager_promises @ other_promises @ account_promises"

text \<open>What one field may hold besides: a deployment names the manager and the key it needs, a report ends after it starts.\<close>

definition needs_met :: "fields \<Rightarrow> bool" where
  "needs_met d = (given d ''manager_profile_id'' \<in> {JNone, JText []} \<longrightarrow>
     (given d ''siem_type'' = JText ''none'' \<or> given d ''siem_ip'' \<notin> {JNone, JText []}) \<and>
     (given d ''siem_type'' \<in> {JText ''utmstack'', JText ''elastic''} \<longrightarrow> given d ''siem_auth_key'' \<notin> {JNone, JText []}))"

definition ends_after_start :: "fields \<Rightarrow> bool" where
  "ends_after_start d = (\<exists>a b. given d ''start_time'' = JInt a \<and> given d ''end_time'' = JInt b \<and> a < b)"

lemma all_promised: "map fst PROMISES = REQUESTS"
  by (simp add: PROMISES_def REQUESTS_def simulation_promises_def manager_promises_def other_promises_def account_promises_def)

lemmas promise_defs = whole_def some_text_def text_of_def among_def flag_def maybe_def plain_name_def container_path_def

definition keeps_promises :: "(json \<Rightarrow> bool) \<Rightarrow> request_model \<Rightarrow> promise list \<Rightarrow> bool" where
  "keeps_promises T m ps = list_all2 (\<lambda>f (k, P). fs_name f = k \<and> (\<forall>v. fits T f v \<longrightarrow> P v)) (rm_fields m) ps"

lemma texts_iff: "has_type P (TList TStr) v = texts v"
  by (auto simp: texts_def some_text_def list_all_iff split: json.splits)

lemma lpow_length: "(\<And>s. s \<in> A \<Longrightarrow> length s = n) \<Longrightarrow> s \<in> lpow k A \<Longrightarrow> length s = k * n"
  by (induction k arbitrary: s) (auto simp: lconc_def)

lemma hex_pair_length: "s \<in> rlang hex_upper_pair \<Longrightarrow> length s = 2"
  by (auto simp: hex_upper_pair_def lconc_def)

lemma fingerprint_spelled:
  assumes "re_fullmatch FINGERPRINT s"
  shows "list_all hex_or_colon s \<and> length s = 95"
proof
  have "hex_or_colon c" if "rchars FINGERPRINT c" for c
    using that by (auto simp: FINGERPRINT_def hex_upper_pair_def hex_or_colon_def rrange_def ascii_digit_def cp_def)
  then show "list_all hex_or_colon s"
    using assms rmatch_chars [of FINGERPRINT s] by (auto simp: re_fullmatch_def list_all_iff)
  obtain u v where s: "s = u @ v" "v \<in> rlang hex_upper_pair" "u \<in> lpow 31 (rlang (RSeq hex_upper_pair (rchr (CHR '':''))))"
    using assms by (auto simp: re_fullmatch_def rmatch_iff FINGERPRINT_def lconc_def [of "lpow 31 A" for A])
  have "length t = 3" if "t \<in> rlang (RSeq hex_upper_pair (rchr (CHR '':'')))" for t
    using that by (auto simp: lconc_def [of "rlang hex_upper_pair"] rchr_def dest: hex_pair_length)
  then have "length u = 31 * 3" using lpow_length s(3) by blast
  then show "length s = 95" using s hex_pair_length by simp
qed

lemma fingerprint_parts:
  "re_fullmatch FINGERPRINT s \<Longrightarrow> list_all hex_or_colon s" "re_fullmatch FINGERPRINT s \<Longrightarrow> length s = 95"
  "re_fullmatch (ropt FINGERPRINT) s \<Longrightarrow> list_all hex_or_colon s" "re_fullmatch (ropt FINGERPRINT) s \<Longrightarrow> length s \<le> 95"
  using fingerprint_spelled [of s] by (auto simp: re_fullmatch_def rmatch_iff ropt_def)

lemma username_spelled:
  assumes "re_fullmatch USERNAME_PATTERN s"
  shows "ascii_alnum (hd s) \<and> list_all (\<lambda>c. ascii_alnum c \<or> c \<in> set ''_.-'') s"
proof -
  obtain c t where s: "s = c # t" "ascii_alnum c" "rmatch (RStar (RCls (one_of ''_.-''))) t"
    using assms rmatch_head unfolding re_fullmatch_def USERNAME_PATTERN_def alnum_cls_def by blast
  have "ascii_alnum x \<or> x \<in> set ''_.-''" if "x \<in> set t" for x
    using rmatch_chars [OF s(3) that] by (simp add: one_of_def)
  then show ?thesis using s by (auto simp: list_all_iff)
qed

lemma username_parts:
  assumes "re_fullmatch USERNAME_PATTERN s"
  shows "ascii_alnum (hd s)" "list_all (\<lambda>c. ascii_alnum c \<or> c = CHR ''_'' \<or> c = CHR ''.'' \<or> c = CHR ''-'') s"
  using username_spelled [OF assms] by simp_all

lemma texts_array: "list_all (has_type P TStr) xs \<Longrightarrow> texts (JArray xs)"
  using texts_iff [of P "JArray xs"] by simp

lemma typed_singleton: "typed_fields P [] d = (d = [])"
  "typed_fields P (f # fs) d = (\<exists>v e. d = (fs_name f, v) # e \<and> fits P f v \<and> typed_fields P fs e)"
  by (auto simp: typed_fields_def list_all2_Cons1)

lemmas field_facts = spec_defs fits_def in_bounds_def bounded_def meets_def

lemma selector_kept: "keeps_promises (\<lambda>_. False) AgentSelector
    [(''agent_ids'', maybe texts), (''siem_type'', maybe (among siems)), (''agent_group'', maybe some_text), (''count'', maybe (whole 1 1000)),
     (''status'', maybe (among [''running'', ''stopped'', ''error'', ''starting'', ''stopping'']))]"
  by (simp add: keeps_promises_def AgentSelector_def)
    (auto simp: field_facts promise_defs texts_array SIEMType_def AgentLifecycleStatus_def split: json.splits)

lemma kept_promises: "keeps_promises T m ps \<Longrightarrow> typed_fields T (rm_fields m) d \<Longrightarrow> list_all2 (\<lambda>(k, v) (k', P). k = k' \<and> P v) d ps"
  unfolding keeps_promises_def typed_fields_def list_all2_conv_all_nth by (simp add: case_prod_beta)

lemma truthy_parts: "maybe texts v \<Longrightarrow> truthy v \<longleftrightarrow> v \<notin> {JNone, JArray []}" "maybe some_text v \<Longrightarrow> truthy v \<longleftrightarrow> v \<notin> {JNone, JText []}"
  "maybe (whole 1 b) v \<Longrightarrow> truthy v \<longleftrightarrow> v \<noteq> JNone" "maybe (among ws) v \<Longrightarrow> [] \<notin> set ws \<Longrightarrow> truthy v \<longleftrightarrow> v \<noteq> JNone"
  by (auto simp: promise_defs texts_def truthy_def)

lemma selector_selects:
  assumes "typed_selector v"
  shows "selecting v"
proof -
  obtain d where d: "v = JObject d" "typed_fields (\<lambda>_. False) (rm_fields AgentSelector) d" "validate_selector d = None"
    using assms by (auto simp: typed_selector_def split: json.splits)
  from kept_promises [OF selector_kept d(2)] obtain i t g n s where
    e: "d = [(''agent_ids'', i), (''siem_type'', t), (''agent_group'', g), (''count'', n), (''status'', s)]" "maybe texts i"
      "maybe (among siems) t" "maybe some_text g" "maybe (whole 1 1000) n"
      "maybe (among [''running'', ''stopped'', ''error'', ''starting'', ''stopping'']) s"
    by (auto simp: list_all2_Cons2)
  have "truthy i \<or> truthy t \<or> truthy g \<or> truthy n \<or> truthy s"
    using d(3) by (simp add: validate_selector_def e(1) given_def split: if_splits)
  moreover have "truthy t \<Longrightarrow> t \<noteq> JNone" "truthy s \<Longrightarrow> s \<noteq> JNone" "truthy n \<Longrightarrow> n \<noteq> JNone" by (auto simp: truthy_def)
  ultimately have "i \<notin> {JNone, JArray []} \<or> t \<noteq> JNone \<or> g \<notin> {JNone, JText []} \<or> n \<noteq> JNone \<or> s \<noteq> JNone"
    using truthy_parts(1) [OF e(2)] truthy_parts(2) [OF e(4)] by blast
  then show ?thesis unfolding selecting_def d(1) e(1) using e(2-6) by blast
qed

lemma deployment_kept: "keeps_promises typed_selector AgentDeploymentRequest deployment_promise"
  by (simp add: keeps_promises_def AgentDeploymentRequest_def deployment_promise_def)
    (auto simp: field_facts promise_defs SIEMType_def OSType_def ParallelMode_def split: json.splits)

lemma simulations_kept: "(m, ps) \<in> set simulation_promises \<Longrightarrow> keeps_promises typed_selector m ps"
  unfolding simulation_promises_def
  by (auto simp: keeps_promises_def request_models field_facts promise_defs SimulationProfile_def SyslogProtocol_def SyslogDeviceType_def
      selector_selects split: json.splits)

lemma managers_kept: "(m, ps) \<in> set manager_promises \<Longrightarrow> keeps_promises typed_selector m ps"
  unfolding manager_promises_def
  by (auto simp: keeps_promises_def request_models field_facts promise_defs SIEMType_def OSType_def SyslogProtocol_def spelled_def
      fingerprint_parts split: json.splits)

lemma others_kept: "(m, ps) \<in> set other_promises \<Longrightarrow> keeps_promises typed_selector m ps"
  unfolding other_promises_def
  by (auto simp: keeps_promises_def request_models field_facts promise_defs SIEMType_def texts_iff texts_array OPERATIONS_def OS_IMAGES_def
      split: json.splits)

lemma accounts_kept: "(m, ps) \<in> set account_promises \<Longrightarrow> keeps_promises typed_selector m ps"
  unfolding account_promises_def
  by (auto simp: keeps_promises_def request_models field_facts promise_defs ROLE_LITERAL_def username_text_def
      username_parts split: json.splits)

lemma promises_kept: "(m, ps) \<in> set PROMISES \<Longrightarrow> keeps_promises typed_selector m ps"
  using deployment_kept simulations_kept managers_kept others_kept accounts_kept by (auto simp: PROMISES_def)

text \<open>A validator that looks at earlier fields sees them as they are in the request.\<close>

lemma read_fields_prefix: "read_fields conv sub input fs data = (es, d) \<Longrightarrow> \<exists>b. d = data @ b"
proof (induction fs arbitrary: data es)
  case (Cons f fs)
  show ?case
  proof (cases "read_field conv sub input f data")
    case (Inl e)
    then show ?thesis using Cons.prems by (auto split: prod.splits intro: Cons.IH)
  next
    case (Inr v)
    then show ?thesis using Cons.prems Cons.IH [of "data @ [(fs_name f, v)]" es] by auto
  qed
qed simp

lemma read_fields_at:
  "read_fields conv sub input (fs @ f # gs) data = ([], d) \<Longrightarrow>
     \<exists>a v b. d = data @ a @ (fs_name f, v) # b \<and> map fst a = map fs_name fs \<and> read_field conv sub input f (data @ a) = Inr v"
proof (induction fs arbitrary: data)
  case Nil
  then obtain v where v: "read_field conv sub input f data = Inr v" "read_fields conv sub input gs (data @ [(fs_name f, v)]) = ([], d)"
    by (auto split: sum.splits prod.splits)
  show ?case using v(1) read_fields_prefix [OF v(2)] by auto
next
  case (Cons g fs)
  then obtain w where w: "read_field conv sub input g data = Inr w"
      "read_fields conv sub input (fs @ f # gs) (data @ [(fs_name g, w)]) = ([], d)"
    by (auto split: sum.splits prod.splits)
  obtain a v b where "d = (data @ [(fs_name g, w)]) @ a @ (fs_name f, v) # b" "map fst a = map fs_name fs"
      "read_field conv sub input f ((data @ [(fs_name g, w)]) @ a) = Inr v" using Cons.IH [OF w(2)] by blast
  then show ?case by (intro exI [of _ "(fs_name g, w) # a"] exI [of _ v] exI [of _ b]) simp
qed

lemma given_in: "k \<in> set (map fst a) \<Longrightarrow> given (a @ b) k = given a k"
  by (force simp: given_def map_add_def map_of_eq_None_iff split: option.splits)

lemma given_after: "k \<notin> set (map fst a) \<Longrightarrow> given (a @ (k, v) # b) k = v"
  by (simp add: given_def map_add_def map_of_eq_None_iff [THEN iffD2])

lemma accepted_field:
  assumes "accept_request conv m j = Inr d" "rm_fields m = fs @ f # gs" "fs_name f \<notin> set (map fs_name fs)"
  shows "\<exists>input a. map fst a = map fs_name fs \<and> read_field conv (read_selector conv) input f a = Inr (given d (fs_name f)) \<and>
    (\<forall>k \<in> set (map fs_name fs). given a k = given d k)"
proof -
  obtain input where "read_fields conv (read_selector conv) input (fs @ f # gs) [] = ([], d)"
    using assms(1,2) by (auto simp: accept_request_def build_def split: json.splits prod.splits option.splits if_splits)
  from read_fields_at [OF this] obtain a v b where d: "d = a @ (fs_name f, v) # b" "map fst a = map fs_name fs"
      "read_field conv (read_selector conv) input f a = Inr v" by auto
  have "given d (fs_name f) = v" unfolding d(1) by (rule given_after) (simp add: assms(3) d(2) del: set_map)
  moreover have "given a k = given d k" if "k \<in> set (map fs_name fs)" for k
    using given_in [of k a] that by (simp add: d(1,2) del: set_map)
  ultimately show ?thesis using d by blast
qed

lemma validated_check:
  assumes "read_field conv sub input f data = Inr v" "fs_validate_default f \<or> fs_default f = None"
  shows "\<exists>j u. convert conv sub (fs_type f) j = Some u \<and> run_check (fs_check f) data u = Inr v"
  using assms by (auto simp: read_field_def check_value_def split: option.splits if_splits)

lemma validated_text:
  assumes "reads_typed conv" "read_field conv sub input f data = Inr v" "fs_validate_default f" "fs_type f = TOptional TStr"
  shows "\<exists>u. optional_text u \<and> run_check (fs_check f) data u = Inr v"
proof -
  obtain j u where u: "convert conv sub (TOptional TStr) j = Some u" "run_check (fs_check f) data u = Inr v"
    using validated_check [OF assms(2)] assms(3,4) by auto
  have "has_type (\<lambda>_. True) (TOptional TStr) u" by (rule convert_typed [OF assms(1) _ u(1)]) simp
  then show ?thesis using u(2) by (auto simp: optional_text_def split: json.splits)
qed

lemma siem_ip_given:
  assumes "validate_siem_ip a u = Inr w" "optional_text u" "\<not> truthy (given a ''manager_profile_id'')"
    "truthy (given a ''siem_type'')" "given a ''siem_type'' \<noteq> JText ''none''"
  shows "w \<notin> {JNone, JText []}"
proof -
  have "truthy u" "install_field ''siem_ip'' u = Inr w" using assms by (auto simp: validate_siem_ip_def split: if_splits)
  then show ?thesis using install_field_Inr [of "''siem_ip''" u w] assms(2) by (auto simp: INSTALL_FIELD_CHECKS_def truthy_def)
qed

lemma siem_auth_key_given:
  assumes "validate_siem_auth_key a u = Inr w" "optional_text u" "\<not> truthy (given a ''manager_profile_id'')"
    "given a ''siem_type'' \<in> {JText ''utmstack'', JText ''elastic''}"
  shows "w \<notin> {JNone, JText []}"
proof -
  have "truthy u" "install_field ''siem_auth_key'' u = Inr w" using assms by (auto simp: validate_siem_auth_key_def split: if_splits)
  then show ?thesis using install_field_Inr [of "''siem_auth_key''" u w] assms(2) by (auto simp: INSTALL_FIELD_CHECKS_def truthy_def)
qed

lemma deployment_needs:
  assumes conv: "reads_typed conv" and d: "accept_request conv AgentDeploymentRequest j = Inr d"
    and t: "among siems (given d ''siem_type'')"
  shows "needs_met d"
proof -
  let ?fs = "rm_fields AgentDeploymentRequest"
  obtain i a where i: "read_field conv (read_selector conv) i (?fs ! 3) a = Inr (given d ''siem_ip'')"
      "given a ''manager_profile_id'' = given d ''manager_profile_id''" "given a ''siem_type'' = given d ''siem_type''"
    using accepted_field [OF d, of "take 3 ?fs" "?fs ! 3" "drop 4 ?fs"] by (auto simp: AgentDeploymentRequest_def spec_defs)
  have ip: "\<exists>u. optional_text u \<and> validate_siem_ip a u = Inr (given d ''siem_ip'')"
    using validated_text [OF conv i(1)] by (simp add: AgentDeploymentRequest_def spec_defs run_check_def)
  obtain i' a' where k: "read_field conv (read_selector conv) i' (?fs ! 14) a' = Inr (given d ''siem_auth_key'')"
      "given a' ''manager_profile_id'' = given d ''manager_profile_id''" "given a' ''siem_type'' = given d ''siem_type''"
    using accepted_field [OF d, of "take 14 ?fs" "?fs ! 14" "drop 15 ?fs"] by (auto simp: AgentDeploymentRequest_def spec_defs)
  have key: "\<exists>u. optional_text u \<and> validate_siem_auth_key a' u = Inr (given d ''siem_auth_key'')"
    using validated_text [OF conv k(1)] by (simp add: AgentDeploymentRequest_def spec_defs run_check_def)
  have t: "truthy (given d ''siem_type'')" using t by (auto simp: truthy_def among_def)
  show ?thesis unfolding needs_met_def
  proof (intro impI conjI)
    assume "given d ''manager_profile_id'' \<in> {JNone, JText []}"
    then have n: "\<not> truthy (given d ''manager_profile_id'')" by (auto simp: truthy_def)
    show "given d ''siem_type'' = JText ''none'' \<or> given d ''siem_ip'' \<notin> {JNone, JText []}"
      using siem_ip_given [of a] ip n t i(2,3) by metis
    assume "given d ''siem_type'' \<in> {JText ''utmstack'', JText ''elastic''}"
    then show "given d ''siem_auth_key'' \<notin> {JNone, JText []}" using siem_auth_key_given [of a'] key n k(2,3) by metis
  qed
qed

lemma report_ends:
  assumes "accept_request conv ReportGenerateRequest j = Inr d" "\<exists>i. given d ''start_time'' = JInt i" "\<exists>i. given d ''end_time'' = JInt i"
  shows "ends_after_start d"
proof -
  let ?fs = "rm_fields ReportGenerateRequest"
  obtain i a where i: "read_field conv (read_selector conv) i (?fs ! 1) a = Inr (given d ''end_time'')" "map fst a = [''start_time'']"
      "given a ''start_time'' = given d ''start_time''"
    using accepted_field [OF assms(1), of "take 1 ?fs" "?fs ! 1" "drop 2 ?fs"] by (auto simp: ReportGenerateRequest_def spec_defs)
  obtain u where "validate_time_range a u = Inr (given d ''end_time'')"
    using validated_check [OF i(1)] by (auto simp: ReportGenerateRequest_def spec_defs run_check_def)
  moreover have "map_of a ''start_time'' = Some (given d ''start_time'')" using i(2,3) by (auto simp: given_def)
  ultimately show ?thesis using assms(2,3)
    by (auto simp: ends_after_start_def validate_time_range_def split: json.splits if_splits)
qed

lemma typed_field:
  assumes "typed_fields P (rm_fields m) d" "rm_fields m = fs @ f # gs" "distinct (map fs_name (rm_fields m))"
  shows "fits P f (given d (fs_name f))"
  by (rule typed_fields_get [OF assms(1) _ assms(3)]) (simp add: assms(2))


definition sample_deployment :: json where
  "sample_deployment = JObject [(''count'', JInt 3), (''siem_type'', JText ''utmstack''), (''siem_ip'', JText ''10.0.0.7''),
     (''siem_auth_key'', JText ''k3y'')]"


section \<open>What the bounds give\<close>

lemma int_str_count: "1 \<le> i \<Longrightarrow> i \<le> 1000 \<Longrightarrow> length (int_str i) \<le> 4"
proof -
  assume i: "1 \<le> i" "i \<le> 1000"
  have "length (nat_str (nat i)) \<le> length (nat_str 1000)" by (rule length_nat_str_mono) (use i in simp)
  moreover have "length (nat_str 1000) = 4" by code_simp
  ultimately show ?thesis using i by (simp add: int_str_def)
qed

text \<open>
  The bounds of the fields already keep the generated names of a deployment at 35 characters, so the check of
  the whole request for names over 50 never refuses.
\<close>

lemma naming_never_refuses:
  assumes d: "typed_fields P (rm_fields AgentDeploymentRequest) d"
  shows "validate_naming d = None"
proof -
  have c: "between 1 1000 (required ''count'' TInt) \<in> set (rm_fields AgentDeploymentRequest)"
    and b: "checked AlphanumericName (long 1 30 (defaulted ''agent_base_name'' TStr (JText ''container''))) \<in> set (rm_fields AgentDeploymentRequest)"
    by (simp_all add: AgentDeploymentRequest_def)
  have "\<exists>i. given d ''count'' = JInt i \<and> 1 \<le> i \<and> i \<le> 1000"
    using typed_fields_get [OF d c deployment_names_distinct]
    by (auto simp: spec_defs fits_def in_bounds_def bounded_def split: json.splits)
  moreover have "\<exists>s. given d ''agent_base_name'' = JText s \<and> length s \<le> 30"
    using typed_fields_get [OF d b deployment_names_distinct]
    by (auto simp: spec_defs fits_def in_bounds_def bounded_def split: json.splits)
  ultimately obtain i s where v: "given d ''count'' = JInt i" "1 \<le> i" "i \<le> 1000" "given d ''agent_base_name'' = JText s" "length s \<le> 30"
    by blast
  then show ?thesis using int_str_count [OF v(2,3)] by (simp add: validate_naming_def max_def)
qed

text \<open>
  What the update of a manager profile accepts is not bounded as its creation is: any description passes.
\<close>

lemma update_unbounded:
  "accept_request strict ManagerProfileUpdate (JObject [(''description'', JText s)]) =
     Inr (map (\<lambda>f. (fs_name f, if fs_name f = ''description'' then JText s else JNone)) (rm_fields ManagerProfileUpdate))"
  by (simp add: accept_request_def build_def ManagerProfileUpdate_def read_field_def check_value_def strict_def spec_defs in_bounds_def
      bounded_def run_check_def)

lemma create_bounded:
  assumes "reads_typed conv" "accept_request conv ManagerProfileCreate j = Inr d" "given d ''description'' = JText s"
  shows "length s \<le> 500"
proof -
  have m: "ManagerProfileCreate \<in> set REQUESTS" by (simp add: REQUESTS_def)
  have t: "typed_fields typed_selector (rm_fields ManagerProfileCreate) d"
    using build_typed [OF assms(1) read_selector_typed [OF assms(1)] models_well_written [OF m] models_known [OF m]] assms(2)
    by (simp add: accept_request_def)
  have f: "at_most 500 (opt_str ''description'' JNone) \<in> set (rm_fields ManagerProfileCreate)" by (simp add: ManagerProfileCreate_def)
  have n: "distinct (map fs_name (rm_fields ManagerProfileCreate))" by code_simp
  show ?thesis using typed_fields_get [OF t f n] assms(3) by (simp add: spec_defs fits_def in_bounds_def bounded_def)
qed

end
