(* ===== verification/Records.thy ===== *)
theory Records
  imports Json_Text Systems "HOL-Library.List_Lexorder" "HOL-Library.Char_ord"
begin

text \<open>
  The durable dictionaries of \<^verbatim>\<open>services/records.py\<close> and the stores of \<^verbatim>\<open>state.py\<close>: a dictionary of JSON values
  with a table \<open>records\<close> behind it. New and replaced values are saved at once, values changed in place by
  \<open>flush\<close>. The state is the dictionary, the digests of what was saved and the table, which all stores share.
  SHA-1 is an argument and the time of a call another. A value \<open>json.dumps\<close> cannot write as it is (a task,
  a moment) is its \<open>str\<close>. Statements on the table are taken to succeed.
\<close>

section \<open>Stores and rows\<close>

record store_kind =
  sk_kind :: string
  sk_active :: "string list"
  sk_transient :: "string list"
  sk_prunable :: bool

record record_row =
  rr_kind :: string
  rr_id :: string
  rr_status :: "string option"
  rr_data :: string
  rr_created :: string
  rr_updated :: string

record rstore =
  rs_items :: "(string \<times> json) list"
  rs_saved :: "(string \<times> string) list"
  rs_attached :: bool
  rs_rows :: "record_row list"

definition persistent_store :: "string \<Rightarrow> store_kind" where
  "persistent_store kind = \<lparr>sk_kind = kind, sk_active = [''running'', ''starting'', ''queued''], sk_transient = [''task''], sk_prunable = True\<rparr>"

definition new_store :: "record_row list \<Rightarrow> rstore" where
  "new_store rows = \<lparr>rs_items = [], rs_saved = [], rs_attached = False, rs_rows = rows\<rparr>"

definition INTERRUPTED_STATUS :: string where
  "INTERRUPTED_STATUS = ''interrupted''"

section \<open>Writing a value\<close>

text \<open>\<open>sort_keys\<close>: every object's keys in order of their code points.\<close>

fun sort_keys :: "json \<Rightarrow> json" and sort_items :: "json list \<Rightarrow> json list" and sort_values :: "(string \<times> json) list \<Rightarrow> (string \<times> json) list" where
  "sort_keys (JArray js) = JArray (sort_items js)"
| "sort_keys (JObject kvs) = JObject (sort_key fst (sort_values kvs))"
| "sort_keys j = j"
| "sort_items [] = []"
| "sort_items (j # js) = sort_keys j # sort_items js"
| "sort_values [] = []"
| "sort_values ((k, v) # kvs) = (k, sort_keys v) # sort_values kvs"

definition drop_transient :: "store_kind \<Rightarrow> json \<Rightarrow> json" where
  "drop_transient k v = (case v of JObject m \<Rightarrow> JObject (filter (\<lambda>(x, _). x \<notin> set (sk_transient k)) m) | _ \<Rightarrow> v)"

definition serialize :: "store_kind \<Rightarrow> json \<Rightarrow> string" where
  "serialize k v = dumps (sort_keys (drop_transient k v))"

definition status_of :: "json \<Rightarrow> string option" where
  "status_of v = (case v of
     JObject m \<Rightarrow> (case map_of m ''status'' of Some (JText s) \<Rightarrow> Some s | _ \<Rightarrow> None)
   | _ \<Rightarrow> None)"

section \<open>Saving\<close>

definition row_of :: "store_kind \<Rightarrow> string \<Rightarrow> record_row \<Rightarrow> bool" where
  "row_of k key r = (rr_kind r = sk_kind k \<and> rr_id r = key)"

definition upsert :: "store_kind \<Rightarrow> string \<Rightarrow> string \<Rightarrow> string option \<Rightarrow> string \<Rightarrow> record_row list \<Rightarrow> record_row list" where
  "upsert k now key status txt rows =
     (if fetchone (row_of k key) rows = None
      then rows @ [\<lparr>rr_kind = sk_kind k, rr_id = key, rr_status = status, rr_data = txt, rr_created = now, rr_updated = now\<rparr>]
      else sql_update (row_of k key) (\<lambda>r. r\<lparr>rr_status := status, rr_data := txt, rr_updated := now\<rparr>) rows)"

definition save :: "store_kind \<Rightarrow> (string \<Rightarrow> string) \<Rightarrow> string \<Rightarrow> string \<Rightarrow> rstore \<Rightarrow> rstore" where
  "save k sha now key s =
     (if \<not> rs_attached s then s
      else (case map_of (rs_items s) key of
        None \<Rightarrow> s
      | Some v \<Rightarrow> if v = JNone then s
          else (let txt = serialize k v in
            if map_of (rs_saved s) key = Some (sha txt) then s
            else s\<lparr>rs_saved := AList.update key (sha txt) (rs_saved s),
                   rs_rows := upsert k now key (status_of v) txt (rs_rows s)\<rparr>)))"

definition flush_one :: "store_kind \<Rightarrow> (string \<Rightarrow> string) \<Rightarrow> string \<Rightarrow> string \<Rightarrow> nat \<times> rstore \<Rightarrow> nat \<times> rstore" where
  "flush_one k sha now key = (\<lambda>(n, s). let s' = save k sha now key s in
     (if map_of (rs_saved s') key \<noteq> map_of (rs_saved s) key then Suc n else n, s'))"

definition flush :: "store_kind \<Rightarrow> (string \<Rightarrow> string) \<Rightarrow> string \<Rightarrow> rstore \<Rightarrow> nat \<times> rstore" where
  "flush k sha now s = fold (flush_one k sha now) (map fst (rs_items s)) (0, s)"

definition delete_row :: "store_kind \<Rightarrow> string \<Rightarrow> rstore \<Rightarrow> rstore" where
  "delete_row k key s =
     (let s = s\<lparr>rs_saved := AList.delete key (rs_saved s)\<rparr>
      in if \<not> rs_attached s then s else s\<lparr>rs_rows := sql_delete (row_of k key) (rs_rows s)\<rparr>)"

definition forget_record :: "store_kind \<Rightarrow> string \<Rightarrow> rstore \<Rightarrow> rstore" where
  "forget_record k key s = delete_row k key (s\<lparr>rs_items := AList.delete key (rs_items s)\<rparr>)"

definition prune_ids :: "store_kind \<Rightarrow> string \<Rightarrow> record_row list \<Rightarrow> string list" where
  "prune_ids k before rows = map rr_id (filter (\<lambda>r. rr_kind r = sk_kind k \<and> rr_updated r < before
     \<and> (case rr_status r of None \<Rightarrow> [] | Some x \<Rightarrow> x) \<notin> set (sk_active k)) rows)"

definition prune_records :: "store_kind \<Rightarrow> string \<Rightarrow> rstore \<Rightarrow> nat \<times> rstore" where
  "prune_records k before s =
     (if \<not> sk_prunable k \<or> \<not> rs_attached s then (0, s)
      else (let ids = prune_ids k before (rs_rows s) in (length ids, fold (forget_record k) ids s)))"

section \<open>Loading\<close>

definition mark_interrupted :: "store_kind \<Rightarrow> string \<Rightarrow> json \<Rightarrow> json" where
  "mark_interrupted k now v = (case v of
     JObject m \<Rightarrow> (case map_of m ''status'' of
         Some (JText st) \<Rightarrow> if st \<in> set (sk_active k)
           then JObject (AList.update ''interrupted_at'' (JText now) (AList.update ''status'' (JText INTERRUPTED_STATUS)
                  (AList.update ''status_before_restart'' (JText st) m)))
           else v
       | _ \<Rightarrow> v)
   | _ \<Rightarrow> v)"

definition is_active :: "store_kind \<Rightarrow> json \<Rightarrow> bool" where
  "is_active k v = (case status_of v of Some st \<Rightarrow> st \<in> set (sk_active k) | None \<Rightarrow> False)"

definition pending_check :: "json \<Rightarrow> bool" where
  "pending_check v = (case v of
     JObject m \<Rightarrow> (case map_of m ''detection'' of Some d \<Rightarrow> status_of d \<in> {Some ''waiting'', Some ''checking''} | None \<Rightarrow> False)
   | _ \<Rightarrow> False)"

definition not_checked :: "json \<Rightarrow> json" where
  "not_checked v = (case v of
     JObject m \<Rightarrow> (case map_of m ''detection'' of
         Some (JObject d) \<Rightarrow> JObject (AList.update ''detection'' (JObject (AList.update ''error''
            (JText ''Habeny restarted before the check; run it again'') (AList.update ''status'' (JText ''not_checked'') d))) m)
       | _ \<Rightarrow> v)
   | _ \<Rightarrow> v)"

definition revived :: "store_kind \<Rightarrow> string \<Rightarrow> json \<Rightarrow> json" where
  "revived k now v = (let w = mark_interrupted k now v in if pending_check w then not_checked w else w)"

definition load_row :: "store_kind \<Rightarrow> (string \<Rightarrow> string) \<Rightarrow> string \<Rightarrow> record_row \<Rightarrow> string list \<times> rstore \<Rightarrow> string + (string list \<times> rstore)" where
  "load_row k sha now r = (\<lambda>(interrupted, s). case loads (rr_data r) of
     None \<Rightarrow> Inl ''JSONDecodeError''
   | Some v \<Rightarrow>
      (let s1 = s\<lparr>rs_items := AList.update (rr_id r) (revived k now v) (rs_items s),
                  rs_saved := AList.update (rr_id r) (sha (rr_data r)) (rs_saved s)\<rparr>;
           s2 = (if pending_check (mark_interrupted k now v) then save k sha now (rr_id r) s1 else s1)
       in Inr (if is_active k v then interrupted @ [rr_id r] else interrupted, s2)))"

fun load_rows :: "store_kind \<Rightarrow> (string \<Rightarrow> string) \<Rightarrow> string \<Rightarrow> record_row list \<Rightarrow> string list \<times> rstore \<Rightarrow> string + (string list \<times> rstore)" where
  "load_rows k sha now [] x = Inr x"
| "load_rows k sha now (r # rows) x = (case load_row k sha now r x of Inl e \<Rightarrow> Inl e | Inr y \<Rightarrow> load_rows k sha now rows y)"

definition load :: "store_kind \<Rightarrow> (string \<Rightarrow> string) \<Rightarrow> string \<Rightarrow> rstore \<Rightarrow> string + (string list \<times> rstore)" where
  "load k sha now s =
     (let rows = sort_key rr_created (filter (\<lambda>r. rr_kind r = sk_kind k) (rs_rows s))
      in case load_rows k sha now rows ([], s\<lparr>rs_attached := True\<rparr>) of
           Inl e \<Rightarrow> Inl e
         | Inr (ids, t) \<Rightarrow> Inr (ids, fold (save k sha now) ids t))"

section \<open>The dictionary\<close>

definition set_record :: "store_kind \<Rightarrow> (string \<Rightarrow> string) \<Rightarrow> string \<Rightarrow> string \<Rightarrow> json \<Rightarrow> rstore \<Rightarrow> rstore" where
  "set_record k sha now key v s = save k sha now key (s\<lparr>rs_items := AList.update key v (rs_items s)\<rparr>)"

text \<open>\<open>KeyError\<close> leaves everything as it was.\<close>

definition del_record :: "store_kind \<Rightarrow> string \<Rightarrow> rstore \<Rightarrow> (string + unit) \<times> rstore" where
  "del_record k key s = (if map_of (rs_items s) key = None then (Inl key, s) else (Inr (), forget_record k key s))"

definition pop_record :: "store_kind \<Rightarrow> string \<Rightarrow> json option \<Rightarrow> rstore \<Rightarrow> (string + json) \<times> rstore" where
  "pop_record k key dflt s = (case map_of (rs_items s) key of
     None \<Rightarrow> (case dflt of None \<Rightarrow> (Inl key, s) | Some d \<Rightarrow> (Inr d, s))
   | Some v \<Rightarrow> (Inr v, forget_record k key s))"

definition setdefault :: "store_kind \<Rightarrow> (string \<Rightarrow> string) \<Rightarrow> string \<Rightarrow> string \<Rightarrow> json \<Rightarrow> rstore \<Rightarrow> json \<times> rstore" where
  "setdefault k sha now key dflt s = (case map_of (rs_items s) key of
     Some v \<Rightarrow> (v, s)
   | None \<Rightarrow> (dflt, set_record k sha now key dflt s))"

definition update_records :: "store_kind \<Rightarrow> (string \<Rightarrow> string) \<Rightarrow> string \<Rightarrow> (string \<times> json) list \<Rightarrow> rstore \<Rightarrow> rstore" where
  "update_records k sha now kvs s = fold (\<lambda>(key, v). set_record k sha now key v) kvs s"

definition clear_records :: "store_kind \<Rightarrow> rstore \<Rightarrow> rstore" where
  "clear_records k s = fold (forget_record k) (map fst (rs_items s)) s"

text \<open>A value changed in place: the code mutates the dictionary it holds; nothing is saved.\<close>

definition mutate :: "string \<Rightarrow> (json \<Rightarrow> json) \<Rightarrow> rstore \<Rightarrow> rstore" where
  "mutate key f s = (case map_of (rs_items s) key of
     None \<Rightarrow> s
   | Some v \<Rightarrow> s\<lparr>rs_items := AList.update key (f v) (rs_items s)\<rparr>)"

section \<open>The dictionary and its table in step\<close>

definition row_map :: "store_kind \<Rightarrow> record_row list \<Rightarrow> string \<Rightarrow> string option" where
  "row_map k rows key = map_option rr_data (fetchone (row_of k key) rows)"

definition unique_rows :: "record_row list \<Rightarrow> bool" where
  "unique_rows rows = distinct (map (\<lambda>r. (rr_kind r, rr_id r)) rows)"

text \<open>The digests are those of the rows, and every row stands for a value of the dictionary.\<close>

definition in_step :: "store_kind \<Rightarrow> (string \<Rightarrow> string) \<Rightarrow> rstore \<Rightarrow> bool" where
  "in_step k sha s = (rs_attached s \<and> distinct (map fst (rs_items s)) \<and> unique_rows (rs_rows s)
     \<and> map_of (rs_saved s) = (\<lambda>key. map_option sha (row_map k (rs_rows s) key))
     \<and> (\<forall>key. row_map k (rs_rows s) key \<noteq> None \<longrightarrow> map_of (rs_items s) key \<noteq> None))"

lemma row_of_key: "row_of k key r \<longleftrightarrow> (rr_kind r, rr_id r) = (sk_kind k, key)"
  by (simp add: row_of_def)

lemma fetchone_append: "fetchone P (rows @ [r]) = (case fetchone P rows of None \<Rightarrow> if P r then Some r else None | x \<Rightarrow> x)"
  by (induction rows) (simp_all add: fetchone_def)

lemma fetchone_update:
  "(\<And>r. P (f r) \<longleftrightarrow> P r) \<Longrightarrow> fetchone P (sql_update Q f rows) = map_option (\<lambda>r. if Q r then f r else r) (fetchone P rows)"
  by (induction rows) (auto simp: fetchone_def sql_update_def)

lemma fetchone_delete_same: "fetchone P (sql_delete P rows) = None"
  by (auto simp: fetchone_None)

lemma fetchone_delete_other: "(\<And>r. P r \<Longrightarrow> \<not> Q r) \<Longrightarrow> fetchone P (sql_delete Q rows) = fetchone P rows"
  by (induction rows) (auto simp: fetchone_def sql_delete_def)

lemma row_map_upsert:
  "row_map k' (upsert k now key st txt rows) key' =
     (if sk_kind k' = sk_kind k \<and> key' = key then Some txt else row_map k' rows key')"
proof (cases "fetchone (row_of k key) rows")
  case None
  then have "fetchone (row_of k' key') rows = None" if "sk_kind k' = sk_kind k" "key' = key" using that by (simp add: row_of_def [abs_def])
  then show ?thesis using None
    by (auto simp: upsert_def row_map_def fetchone_append row_of_def split: option.splits)
next
  case (Some r)
  have u: "\<And>r. row_of k' key' (r\<lparr>rr_status := st, rr_data := txt, rr_updated := now\<rparr>) \<longleftrightarrow> row_of k' key' r" by (simp add: row_of_def)
  have same: "fetchone (row_of k' key') rows = Some r" if "sk_kind k' = sk_kind k" "key' = key"
    using Some that by (simp add: row_of_def [abs_def])
  show ?thesis
  proof (cases "fetchone (row_of k' key') rows")
    case None
    then show ?thesis using same Some u by (auto simp: upsert_def row_map_def fetchone_update)
  next
    fix q assume q: "fetchone (row_of k' key') rows = Some q"
    then have "rr_kind q = sk_kind k'" "rr_id q = key'" using fetchone_Some [OF q] by (simp_all add: row_of_def)
    then show ?thesis using q Some u by (auto simp: upsert_def row_map_def fetchone_update row_of_def)
  qed
qed

lemma unique_upsert: "unique_rows rows \<Longrightarrow> unique_rows (upsert k now key st txt rows)"
proof -
  assume u: "unique_rows rows"
  have "map (\<lambda>r. (rr_kind r, rr_id r)) (sql_update (row_of k key) (\<lambda>r. r\<lparr>rr_status := st, rr_data := txt, rr_updated := now\<rparr>) rows)
      = map (\<lambda>r. (rr_kind r, rr_id r)) rows" by (rule sql_update_keeps) simp
  then show ?thesis using u
    by (auto simp: unique_rows_def upsert_def fetchone_None row_of_def simp del: map_map)
qed

lemma unique_delete: "unique_rows rows \<Longrightarrow> unique_rows (sql_delete P rows)"
  by (simp add: unique_rows_def)

lemma row_map_delete:
  "row_map k' (sql_delete (row_of k key) rows) key' = (if sk_kind k' = sk_kind k \<and> key' = key then None else row_map k' rows key')"
proof (cases "sk_kind k' = sk_kind k \<and> key' = key")
  case True
  then have "row_of k' key' = row_of k key" by (simp add: row_of_def fun_eq_iff)
  then show ?thesis using True by (simp add: row_map_def fetchone_delete_same)
next
  case False
  then have "fetchone (row_of k' key') (sql_delete (row_of k key) rows) = fetchone (row_of k' key') rows"
    by (intro fetchone_delete_other) (auto simp: row_of_def)
  then show ?thesis using False by (simp only: row_map_def if_False)
qed

text \<open>What saving does: nothing to the values, and the row is the value's text unless it has the text's digest already.\<close>

lemma save_frame [simp]:
  "rs_items (save k sha now key s) = rs_items s" "rs_attached (save k sha now key s) = rs_attached s"
  by (simp_all add: save_def Let_def split: option.splits)

lemma save_other: "\<not> (sk_kind k' = sk_kind k \<and> key' = key) \<Longrightarrow> row_map k' (rs_rows (save k sha now key s)) key' = row_map k' (rs_rows s) key'"
  by (auto simp: save_def Let_def row_map_upsert split: option.splits)

lemma save_saved_other: "key' \<noteq> key \<Longrightarrow> map_of (rs_saved (save k sha now key s)) key' = map_of (rs_saved s) key'"
  by (auto simp: save_def Let_def update_conv split: option.splits)

lemma save_saved: "rs_attached s \<Longrightarrow> map_of (rs_items s) key = Some v \<Longrightarrow> v \<noteq> JNone \<Longrightarrow>
    map_of (rs_saved (save k sha now key s)) key = Some (sha (serialize k v))"
  by (auto simp: save_def Let_def update_conv)

lemma save_in_step: "in_step k sha s \<Longrightarrow> in_step k sha (save k sha now key s)"
  by (auto simp: in_step_def save_def Let_def row_map_upsert unique_upsert update_conv fun_eq_iff split: option.splits)

lemma forget_record_frame [simp]:
  "rs_items (forget_record k key s) = AList.delete key (rs_items s)" "rs_attached (forget_record k key s) = rs_attached s"
  by (simp_all add: forget_record_def delete_row_def Let_def)

lemma forget_record_in_step: "in_step k sha s \<Longrightarrow> in_step k sha (forget_record k key s)"
  by (auto simp: in_step_def forget_record_def delete_row_def Let_def row_map_delete unique_delete delete_conv distinct_delete fun_eq_iff
      dest: distinct_delete)

lemma items_in_step: "in_step k sha s \<Longrightarrow> in_step k sha (s\<lparr>rs_items := AList.update key v (rs_items s)\<rparr>)"
  by (auto simp: in_step_def distinct_update update_conv)

lemma set_in_step: "in_step k sha s \<Longrightarrow> in_step k sha (set_record k sha now key v s)"
  by (simp add: set_record_def save_in_step items_in_step)

lemma mutate_in_step: "in_step k sha s \<Longrightarrow> in_step k sha (mutate key f s)"
  by (simp add: mutate_def items_in_step split: option.splits)

lemma fold_in_step: "(\<And>x s. in_step k sha s \<Longrightarrow> in_step k sha (f x s)) \<Longrightarrow> in_step k sha s \<Longrightarrow> in_step k sha (fold f xs s)"
  by (induction xs arbitrary: s) auto

lemma fold_flush: "snd (fold (flush_one k sha now) keys (n, s)) = fold (save k sha now) keys s"
  by (induction keys arbitrary: n s) (simp_all add: flush_one_def Let_def)

lemma flush_snd: "snd (flush k sha now s) = fold (save k sha now) (map fst (rs_items s)) s"
  by (simp add: flush_def fold_flush)

lemma fold_save_items [simp]:
  "rs_items (fold (save k sha now) keys s) = rs_items s" "rs_attached (fold (save k sha now) keys s) = rs_attached s"
  by (induction keys arbitrary: s) simp_all

lemma fold_save_saved_other: "key \<notin> set keys \<Longrightarrow> map_of (rs_saved (fold (save k sha now) keys s)) key = map_of (rs_saved s) key"
  by (induction keys arbitrary: s) (simp_all add: save_saved_other)

lemma fold_save_saved:
  "rs_attached s \<Longrightarrow> map_of (rs_items s) key = Some v \<Longrightarrow> v \<noteq> JNone \<Longrightarrow> key \<in> set keys \<Longrightarrow>
     map_of (rs_saved (fold (save k sha now) keys s)) key = Some (sha (serialize k v))"
proof (induction keys arbitrary: s)
  case (Cons a keys)
  show ?case
  proof (cases "key \<in> set keys")
    case False
    then have "a = key" using Cons.prems(4) by simp
    then show ?thesis using False Cons.prems save_saved fold_save_saved_other by simp
  qed (use Cons in simp)
qed simp

text \<open>Only texts of the dictionary enter the table.\<close>

lemma upsert_data: "rr_data ` set (upsert k now key st txt rows) \<subseteq> insert txt (rr_data ` set rows)"
  by (auto simp: upsert_def set_sql_update)

lemma insert_sub: "t \<in> B \<Longrightarrow> insert t A \<subseteq> A \<union> B"
  by blast

lemma save_data: "rr_data ` set (rs_rows (save k sha now key s)) \<subseteq> rr_data ` set (rs_rows s) \<union> serialize k ` snd ` set (rs_items s)"
proof (cases "map_of (rs_items s) key")
  case (Some v)
  have "serialize k v \<in> serialize k ` snd ` set (rs_items s)" by (intro imageI image_eqI [OF _ map_of_SomeD [OF Some]]) simp
  note sub = subset_trans [OF upsert_data insert_sub [OF this]]
  have "rs_rows (save k sha now key s) = rs_rows s \<or>
      rs_rows (save k sha now key s) = upsert k now key (status_of v) (serialize k v) (rs_rows s)"
    by (simp add: save_def Let_def Some)
  then show ?thesis using sub by (elim disjE) (simp_all only: Un_upper1)
qed (simp add: save_def)

lemma fold_save_data:
  "rr_data ` set (rs_rows (fold (save k sha now) keys s)) \<subseteq> rr_data ` set (rs_rows s) \<union> serialize k ` snd ` set (rs_items s)"
proof (induction keys arbitrary: s)
  case (Cons a keys)
  have "rr_data ` set (rs_rows (fold (save k sha now) (a # keys) s))
      \<subseteq> rr_data ` set (rs_rows (save k sha now a s)) \<union> serialize k ` snd ` set (rs_items s)"
    using Cons [of "save k sha now a s"] by simp
  then show ?case using save_data [of k sha now a s] by (meson Un_least le_sup_iff order_trans sup_ge2)
qed simp

text \<open>No two of the texts that are or were to be stored have the same digest.\<close>

definition no_collision :: "store_kind \<Rightarrow> (string \<Rightarrow> string) \<Rightarrow> rstore \<Rightarrow> bool" where
  "no_collision k sha s = inj_on sha (rr_data ` set (rs_rows s) \<union> serialize k ` snd ` set (rs_items s))"

lemma row_map_data: "row_map k rows key = Some txt \<Longrightarrow> txt \<in> rr_data ` set rows"
  by (auto simp: row_map_def dest: fetchone_Some)

lemma flush_rows:
  assumes s: "in_step k sha s" and c: "no_collision k sha s" and v: "map_of (rs_items s) key = Some v" "v \<noteq> JNone"
  shows "row_map k (rs_rows (snd (flush k sha now s))) key = Some (serialize k v)"
proof -
  let ?t = "snd (flush k sha now s)"
  have t: "in_step k sha ?t" unfolding flush_snd by (intro fold_in_step save_in_step s)
  have m: "(key, v) \<in> set (rs_items s)" using map_of_SomeD [OF v(1)] .
  have "rs_attached s" using s by (simp add: in_step_def)
  then have "map_of (rs_saved ?t) key = Some (sha (serialize k v))"
    unfolding flush_snd by (rule fold_save_saved [OF _ v]) (use m in force)
  then obtain d where x: "row_map k (rs_rows ?t) key = Some d" "sha d = sha (serialize k v)"
    using t by (auto simp: in_step_def)
  have "d \<in> rr_data ` set (rs_rows s) \<union> serialize k ` snd ` set (rs_items s)"
    by (rule subsetD [OF fold_save_data]) (use row_map_data [OF x(1)] in \<open>simp only: flush_snd\<close>)
  moreover have "serialize k v \<in> rr_data ` set (rs_rows s) \<union> serialize k ` snd ` set (rs_items s)"
    by (intro UnI2 imageI image_eqI [OF _ m]) simp
  ultimately have "d = serialize k v" using inj_onD [OF c [unfolded no_collision_def] x(2)] by blast
  then show ?thesis using x(1) by simp
qed

lemma flush_rows_none: "in_step k sha s \<Longrightarrow> map_of (rs_items s) key = None \<Longrightarrow> row_map k (rs_rows (snd (flush k sha now s))) key = None"
proof -
  assume s: "in_step k sha s" and n: "map_of (rs_items s) key = None"
  have "in_step k sha (snd (flush k sha now s))" unfolding flush_snd by (intro fold_in_step save_in_step s)
  then have "row_map k (rs_rows (snd (flush k sha now s))) key \<noteq> None \<longrightarrow> map_of (rs_items (snd (flush k sha now s))) key \<noteq> None"
    unfolding in_step_def by blast
  moreover have "map_of (rs_items (snd (flush k sha now s))) key = None" using n by (simp add: flush_snd)
  ultimately show ?thesis by blast
qed

section \<open>Written values are read back\<close>

lemma wf_sort_values: "wf_pairs kvs \<longleftrightarrow> list_all (wf_json \<circ> snd) kvs"
  by (simp add: wf_pairs_iff comp_def split_def)

lemma keys_sort_values [simp]: "map fst (sort_values kvs) = map fst kvs"
  by (induction kvs) auto

lemma wf_sort:
  "wf_json j \<Longrightarrow> wf_json (sort_keys j)"
  "wf_items js \<Longrightarrow> wf_items (sort_items js)"
  "wf_pairs kvs \<Longrightarrow> wf_pairs (sort_values kvs)"
proof (induction j and js and kvs rule: sort_keys_sort_items_sort_values.induct)
  case (2 kvs)
  have "distinct (map fst (sort_key fst (sort_values kvs)))"
    using 2(2) by (metis distinct_map keys_sort_values wf_json.simps(2) distinct_sort set_sort)
  moreover have "wf_pairs (sort_key fst (sort_values kvs))" using 2 by (simp add: wf_sort_values list_all_iff)
  ultimately show ?case by simp
qed simp_all

lemma wf_drop: "wf_json v \<Longrightarrow> wf_json (drop_transient k v)"
  by (cases v) (force simp: drop_transient_def distinct_map_filter wf_sort_values list_all_iff)+

lemma loads_serialize: "wf_json v \<Longrightarrow> loads (serialize k v) = Some (sort_keys (drop_transient k v))"
  by (simp add: serialize_def loads_dumps wf_sort(1) wf_drop)

section \<open>Loading the table\<close>

text \<open>While loading, the digests are those of the rows already read.\<close>

definition loading :: "store_kind \<Rightarrow> (string \<Rightarrow> string) \<Rightarrow> string set \<Rightarrow> rstore \<Rightarrow> bool" where
  "loading k sha D s = (rs_attached s \<and> distinct (map fst (rs_items s)) \<and> unique_rows (rs_rows s)
     \<and> map_of (rs_saved s) = (\<lambda>key. if key \<in> D then map_option sha (row_map k (rs_rows s) key) else None)
     \<and> D \<subseteq> dom (map_of (rs_items s)))"

lemma save_loading: "loading k sha D s \<Longrightarrow> key \<in> D \<Longrightarrow> loading k sha D (save k sha now key s)"
  by (auto simp: loading_def save_def Let_def row_map_upsert unique_upsert update_conv fun_eq_iff split: option.splits)

lemma load_row_loading:
  assumes l: "loading k sha D s" and r: "row_map k (rs_rows s) (rr_id r) = Some (rr_data r)" and v: "loads (rr_data r) = Some v"
  shows "\<exists>t. load_row k sha now r (ids, s) = Inr (if is_active k v then ids @ [rr_id r] else ids, t) \<and> loading k sha (insert (rr_id r) D) t
     \<and> map_of (rs_items t) = (map_of (rs_items s))(rr_id r \<mapsto> revived k now v)
     \<and> (\<forall>key. key \<noteq> rr_id r \<longrightarrow> row_map k (rs_rows t) key = row_map k (rs_rows s) key)"
proof -
  let ?s = "s\<lparr>rs_items := AList.update (rr_id r) (revived k now v) (rs_items s), rs_saved := AList.update (rr_id r) (sha (rr_data r)) (rs_saved s)\<rparr>"
  have s: "loading k sha (insert (rr_id r) D) ?s"
    using l r by (auto simp: loading_def distinct_update update_conv fun_eq_iff)
  then have "loading k sha (insert (rr_id r) D) (save k sha now (rr_id r) ?s)" by (rule save_loading) simp
  with s show ?thesis using v save_other [of k k _ "rr_id r" sha now ?s] by (auto simp: load_row_def Let_def update_conv)
qed

definition row_value :: "record_row \<Rightarrow> json" where
  "row_value r = the (loads (rr_data r))"

lemma load_rows_loading:
  "loading k sha D s \<Longrightarrow> distinct (map rr_id rows) \<Longrightarrow> (\<And>r. r \<in> set rows \<Longrightarrow> row_map k (rs_rows s) (rr_id r) = Some (rr_data r)) \<Longrightarrow>
   (\<And>r. r \<in> set rows \<Longrightarrow> loads (rr_data r) \<noteq> None) \<Longrightarrow>
   \<exists>t. load_rows k sha now rows (ids, s) = Inr (ids @ map rr_id (filter (\<lambda>r. is_active k (row_value r)) rows), t)
     \<and> loading k sha (rr_id ` set rows \<union> D) t
     \<and> map_of (rs_items t) = map_of (rs_items s) ++ map_of (map (\<lambda>r. (rr_id r, revived k now (row_value r))) rows)
     \<and> (\<forall>key. key \<notin> rr_id ` set rows \<longrightarrow> row_map k (rs_rows t) key = row_map k (rs_rows s) key)"
proof (induction rows arbitrary: ids D s)
  case (Cons r rows)
  obtain v where v: "loads (rr_data r) = Some v" using Cons.prems(4) [of r] by auto
  then have w: "row_value r = v" by (simp add: row_value_def)
  have m: "row_map k (rs_rows s) (rr_id r) = Some (rr_data r)" by (rule Cons.prems(3)) simp
  let ?ids = "if is_active k v then ids @ [rr_id r] else ids"
  obtain t where t: "load_row k sha now r (ids, s) = Inr (?ids, t)" "loading k sha (insert (rr_id r) D) t"
    "map_of (rs_items t) = (map_of (rs_items s))(rr_id r \<mapsto> revived k now v)"
    "\<And>key. key \<noteq> rr_id r \<Longrightarrow> row_map k (rs_rows t) key = row_map k (rs_rows s) key"
    using load_row_loading [OF Cons.prems(1) m v] by blast
  have rows: "row_map k (rs_rows t) (rr_id q) = Some (rr_data q)" if q: "q \<in> set rows" for q
  proof -
    have "rr_id q \<noteq> rr_id r" using Cons.prems(2) q by (metis distinct.simps(2) image_eqI list.simps(9) list.set_map)
    then show ?thesis using t(4) Cons.prems(3) [of q] q by simp
  qed
  obtain u where u: "load_rows k sha now rows (?ids, t) = Inr (?ids @ map rr_id (filter (\<lambda>r. is_active k (row_value r)) rows), u)"
    "loading k sha (rr_id ` set rows \<union> insert (rr_id r) D) u"
    "map_of (rs_items u) = map_of (rs_items t) ++ map_of (map (\<lambda>r. (rr_id r, revived k now (row_value r))) rows)"
    "\<And>key. key \<notin> rr_id ` set rows \<Longrightarrow> row_map k (rs_rows u) key = row_map k (rs_rows t) key"
    using Cons.IH [OF t(2), of ?ids] Cons.prems(2,4) rows by auto
  have "map_of (map (\<lambda>r. (rr_id r, revived k now (row_value r))) rows) (rr_id r) = None"
    using Cons.prems(2) by (auto simp: map_of_eq_None_iff image_image)
  then have items: "map_of (rs_items u) = map_of (rs_items s) ++ map_of (map (\<lambda>r. (rr_id r, revived k now (row_value r))) (r # rows))"
    using u(3) t(3) w by (auto simp: fun_eq_iff map_add_def split: option.splits)
  show ?case
  proof (intro exI [of _ u] conjI items)
    show "load_rows k sha now (r # rows) (ids, s) = Inr (ids @ map rr_id (filter (\<lambda>r. is_active k (row_value r)) (r # rows)), u)"
      using u(1) t(1) w by auto
    show "loading k sha (rr_id ` set (r # rows) \<union> D) u" using u(2) by simp
    show "\<forall>key. key \<notin> rr_id ` set (r # rows) \<longrightarrow> row_map k (rs_rows u) key = row_map k (rs_rows s) key" using u(4) t(4) by simp
  qed
qed simp

lemma load_rows_parsed: "load_rows k sha now rows x = Inr y \<Longrightarrow> r \<in> set rows \<Longrightarrow> loads (rr_data r) \<noteq> None"
  by (induction rows arbitrary: x) (auto simp: load_row_def split: sum.splits prod.splits option.splits)

abbreviation kind_rows :: "store_kind \<Rightarrow> record_row list \<Rightarrow> record_row list" where
  "kind_rows k rows \<equiv> sort_key rr_created (filter (\<lambda>r. rr_kind r = sk_kind k) rows)"

lemma unique_kind_ids: "unique_rows rows \<Longrightarrow> distinct (map rr_id (filter (\<lambda>r. rr_kind r = sk_kind k) rows))"
  by (induction rows) (force simp: unique_rows_def)+

lemma distinct_map_sort_key: "distinct (map f xs) \<Longrightarrow> distinct (map f (sort_key g xs))"
  by (simp add: distinct_map)

lemma kind_ids: "unique_rows rows \<Longrightarrow> distinct (map rr_id (kind_rows k rows))"
  by (intro distinct_map_sort_key unique_kind_ids)

lemma row_map_row: "unique_rows rows \<Longrightarrow> r \<in> set rows \<Longrightarrow> rr_kind r = sk_kind k \<Longrightarrow> row_map k rows (rr_id r) = Some (rr_data r)"
proof -
  assume u: "unique_rows rows" and r: "r \<in> set rows" "rr_kind r = sk_kind k"
  have "row_of k (rr_id r) = (\<lambda>x. (rr_kind x, rr_id x) = (rr_kind r, rr_id r))" using r(2) by (simp add: row_of_def [abs_def] fun_eq_iff)
  then show ?thesis using fetchone_key [OF u [unfolded unique_rows_def] r(1)] by (simp add: row_map_def)
qed

lemma row_map_id: "row_map k rows key \<noteq> None \<Longrightarrow> key \<in> rr_id ` set (kind_rows k rows)"
  by (auto simp: row_map_def row_of_def dest!: fetchone_Some)

text \<open>Loading an unused store from a sound table of readable rows.\<close>

lemma load_new:
  assumes u: "unique_rows rows" and p: "\<And>r. r \<in> set rows \<Longrightarrow> rr_kind r = sk_kind k \<Longrightarrow> loads (rr_data r) \<noteq> None"
  shows "\<exists>t. load k sha now (new_store rows) = Inr (map rr_id (filter (\<lambda>r. is_active k (row_value r)) (kind_rows k rows)), t)
     \<and> in_step k sha t
     \<and> map_of (rs_items t) = map_of (map (\<lambda>r. (rr_id r, revived k now (row_value r))) (kind_rows k rows))"
proof -
  let ?s = "new_store rows\<lparr>rs_attached := True\<rparr>" and ?ids = "map rr_id (filter (\<lambda>r. is_active k (row_value r)) (kind_rows k rows))"
  have s: "loading k sha {} ?s" using u by (simp add: loading_def new_store_def fun_eq_iff)
  have m: "\<And>r. r \<in> set (kind_rows k rows) \<Longrightarrow> row_map k (rs_rows ?s) (rr_id r) = Some (rr_data r)"
    using row_map_row [OF u] by (simp add: new_store_def)
  obtain t where t: "load_rows k sha now (kind_rows k rows) ([], ?s) = Inr (?ids, t)" "loading k sha (rr_id ` set (kind_rows k rows)) t"
    "map_of (rs_items t) = map_of (map (\<lambda>r. (rr_id r, revived k now (row_value r))) (kind_rows k rows))"
    "\<And>key. key \<notin> rr_id ` set (kind_rows k rows) \<Longrightarrow> row_map k (rs_rows t) key = row_map k rows key"
    using load_rows_loading [where now = now and ids = "[]" and rows = "kind_rows k rows", OF s kind_ids [OF u] m] p by (auto simp: new_store_def)
  have none: "row_map k (rs_rows t) key = None" if "key \<notin> rr_id ` set (kind_rows k rows)" for key
    using t(4) [OF that] that row_map_id [of k rows key] by argo
  have "map_of (rs_items t) key \<noteq> None" if "row_map k (rs_rows t) key \<noteq> None" for key
    using none [of key] that t(2) unfolding loading_def by (meson domIff subsetD)
  then have "in_step k sha t" using t(2) none unfolding in_step_def loading_def by (simp add: fun_eq_iff)
  then have "in_step k sha (fold (save k sha now) ?ids t)" by (intro fold_in_step save_in_step)
  then show ?thesis using t(1,3) by (simp add: load_def Let_def) (simp add: new_store_def)
qed

section \<open>Every operation\<close>

datatype record_op =
    SetRecord string string json
  | DelRecord string
  | PopRecord string "json option"
  | SetDefault string string json
  | UpdateRecords string "(string \<times> json) list"
  | ClearRecords
  | Mutate string "json \<Rightarrow> json"
  | SaveRecord string string
  | Flush string
  | Prune string

primrec run_op :: "store_kind \<Rightarrow> (string \<Rightarrow> string) \<Rightarrow> record_op \<Rightarrow> rstore \<Rightarrow> rstore" where
  "run_op k sha (SetRecord now key v) s = set_record k sha now key v s"
| "run_op k sha (DelRecord key) s = snd (del_record k key s)"
| "run_op k sha (PopRecord key d) s = snd (pop_record k key d s)"
| "run_op k sha (SetDefault now key d) s = snd (setdefault k sha now key d s)"
| "run_op k sha (UpdateRecords now kvs) s = update_records k sha now kvs s"
| "run_op k sha ClearRecords s = clear_records k s"
| "run_op k sha (Mutate key f) s = mutate key f s"
| "run_op k sha (SaveRecord now key) s = save k sha now key s"
| "run_op k sha (Flush now) s = snd (flush k sha now s)"
| "run_op k sha (Prune before) s = snd (prune_records k before s)"

lemma run_op_in_step: "in_step k sha s \<Longrightarrow> in_step k sha (run_op k sha x s)"
proof (cases x)
  case (UpdateRecords now kvs)
  moreover assume "in_step k sha s"
  ultimately show ?thesis by (simp add: update_records_def fold_in_step set_in_step split_def)
qed (auto simp: set_in_step del_record_def pop_record_def setdefault_def clear_records_def prune_records_def flush_snd Let_def
    intro!: fold_in_step save_in_step forget_record_in_step mutate_in_step split: option.splits)

text \<open>What of the dictionary survives: the values without their transient keys, with their keys in order.\<close>

definition persistent_view :: "store_kind \<Rightarrow> rstore \<Rightarrow> string \<Rightarrow> json option" where
  "persistent_view k s key = map_option (\<lambda>v. sort_keys (drop_transient k v)) (map_of (rs_items s) key)"

text \<open>
  C28: whatever is done to a store after it was loaded, values changed in place included: once it is flushed, a later
  start reads back every value, without its transient keys and with its keys in order; a value whose work was
  under way comes back as interrupted, a detection check that was cut off as not checked, and nothing else comes
  back. The ids load returns are those of the values under way. The values are JSON objects with distinct keys, and
  no two texts at hand have the same digest.
\<close>

theorem restart_keeps_records:
  assumes l: "unique_rows rows" "load k sha first (new_store rows) = Inr (ids, s0)"
    and s: "s = fold (run_op k sha) ops s0" and c: "no_collision k sha s"
    and w: "\<And>key v. map_of (rs_items s) key = Some v \<Longrightarrow> wf_json v \<and> v \<noteq> JNone"
  shows "\<exists>ids t. load k sha later (new_store (rs_rows (snd (flush k sha now s)))) = Inr (ids, t) \<and>
     map_of (rs_items t) = (\<lambda>key. map_option (revived k later) (persistent_view k s key)) \<and>
     set ids = {key. \<exists>v. persistent_view k s key = Some v \<and> is_active k v}"
proof -
  let ?image = "persistent_view k s"
  have "\<And>r. r \<in> set rows \<Longrightarrow> rr_kind r = sk_kind k \<Longrightarrow> loads (rr_data r) \<noteq> None"
    using l(2) load_rows_parsed [where k = k and sha = sha and now = first and rows = "kind_rows k rows"]
    by (fastforce simp: load_def Let_def new_store_def split: sum.splits)
  then have "in_step k sha s0" using load_new [OF l(1), of k sha first] l(2) by auto
  then have step: "in_step k sha s" unfolding s by (intro fold_in_step run_op_in_step)
  let ?t = "snd (flush k sha now s)" let ?rows = "kind_rows k (rs_rows ?t)"
  have t: "in_step k sha ?t" unfolding flush_snd by (intro fold_in_step save_in_step step)
  then have u: "unique_rows (rs_rows ?t)" by (simp add: in_step_def)
  have v: "?image (rr_id r) = Some (row_value r) \<and> loads (rr_data r) \<noteq> None" if r: "r \<in> set (rs_rows ?t)" "rr_kind r = sk_kind k" for r
  proof -
    have m: "row_map k (rs_rows ?t) (rr_id r) = Some (rr_data r)" by (rule row_map_row [OF u r])
    then obtain v where x: "map_of (rs_items s) (rr_id r) = Some v"
      using flush_rows_none [OF step, where key = "rr_id r" and now = now] by (cases "map_of (rs_items s) (rr_id r)") auto
    then have "rr_data r = serialize k v" using flush_rows [OF step c x, where now = now] w m by fastforce
    then show ?thesis using loads_serialize [of v k] w [OF x] x by (simp add: row_value_def persistent_view_def)
  qed
  have ids: "rr_id ` set ?rows = dom ?image"
  proof
    show "rr_id ` set ?rows \<subseteq> dom ?image" using v by (auto simp: domIff)
    show "dom ?image \<subseteq> rr_id ` set ?rows"
    proof
      fix key assume "key \<in> dom ?image"
      then obtain x where x: "map_of (rs_items s) key = Some x" by (auto simp: persistent_view_def)
      have "row_map k (rs_rows ?t) key = Some (serialize k x)" by (rule flush_rows [OF step c x]) (use w [OF x] in simp)
      then show "key \<in> rr_id ` set ?rows" by (intro row_map_id) simp
    qed
  qed
  obtain q where q: "load k sha later (new_store (rs_rows ?t)) = Inr (map rr_id (filter (\<lambda>r. is_active k (row_value r)) ?rows), q)"
    "map_of (rs_items q) = map_of (map (\<lambda>r. (rr_id r, revived k later (row_value r))) ?rows)"
    using load_new [OF u, of k sha later] v by auto
  have "map_of (map (\<lambda>r. (rr_id r, revived k later (row_value r))) ?rows) key = map_option (revived k later) (?image key)" for key
  proof (cases "key \<in> rr_id ` set ?rows")
    case True
    then obtain r where r: "r \<in> set ?rows" "key = rr_id r" by auto
    have d: "distinct (map fst (map (\<lambda>r. (rr_id r, revived k later (row_value r))) ?rows))"
      using kind_ids [OF u, of k] by (simp add: comp_def)
    have "map_of (map (\<lambda>r. (rr_id r, revived k later (row_value r))) ?rows) key = Some (revived k later (row_value r))"
      unfolding r(2) by (rule map_of_is_SomeI [OF d]) (use r(1) in simp)
    then show ?thesis using v [of r] r by simp
  next
    case False
    then have "?image key = None" using ids by auto
    moreover have "map_of (map (\<lambda>r. (rr_id r, revived k later (row_value r))) ?rows) key = None"
      using False by (auto simp: map_of_eq_None_iff image_image)
    ultimately show ?thesis by simp
  qed
  moreover have "set (map rr_id (filter (\<lambda>r. is_active k (row_value r)) ?rows)) = {key. \<exists>v. ?image key = Some v \<and> is_active k v}"
    using v ids by (fastforce simp: domIff)
  ultimately show ?thesis using q by (intro exI conjI) (auto simp: fun_eq_iff)
qed

text \<open>A simulation is started, counts its events in place and is still running when the server stops.\<close>

definition demo_kind :: store_kind where
  "demo_kind = persistent_store ''simulation''"

definition demo_ops :: "record_op list" where
  "demo_ops = [SetRecord ''1'' ''a'' (JObject [(''status'', JText ''running''), (''events'', JInt 0), (''task'', JText ''<Task>'')]),
     Mutate ''a'' (\<lambda>v. case v of JObject m \<Rightarrow> JObject (AList.update ''events'' (JInt 7) m) | _ \<Rightarrow> v),
     SetRecord ''1'' ''b'' (JObject []), DelRecord ''b'']"

definition demo_store :: rstore where
  "demo_store = fold (run_op demo_kind (\<lambda>x. x)) demo_ops (new_store []\<lparr>rs_attached := True\<rparr>)"

theorem restart_keeps_records_witness:
  "\<exists>ids t. load demo_kind (\<lambda>x. x) ''3'' (new_store (rs_rows (snd (flush demo_kind (\<lambda>x. x) ''2'' demo_store)))) = Inr (ids, t) \<and>
     map_of (rs_items t) = (\<lambda>key. map_option (revived demo_kind ''3'') (persistent_view demo_kind demo_store key)) \<and>
     set ids = {key. \<exists>v. persistent_view demo_kind demo_store key = Some v \<and> is_active demo_kind v}"
proof (rule restart_keeps_records [where rows = "[]" and first = "''0''" and ops = demo_ops])
  show "unique_rows []" by (simp add: unique_rows_def)
  show "load demo_kind (\<lambda>x. x) ''0'' (new_store []) = Inr ([], new_store []\<lparr>rs_attached := True\<rparr>)"
    by (simp add: load_def new_store_def)
  show "demo_store = fold (run_op demo_kind (\<lambda>x. x)) demo_ops (new_store []\<lparr>rs_attached := True\<rparr>)" by (rule demo_store_def)
  show "no_collision demo_kind (\<lambda>x. x) demo_store" by (simp add: no_collision_def)
  have "rs_items demo_store = [(''a'', JObject [(''status'', JText ''running''), (''events'', JInt 7), (''task'', JText ''<Task>'')])]"
    by code_simp
  then show "\<And>key v. map_of (rs_items demo_store) key = Some v \<Longrightarrow> wf_json v \<and> v \<noteq> JNone"
    by (auto split: if_splits)
qed

section \<open>Stores share a table\<close>

lemma fold_other:
  "(\<And>x s. row_map k' (rs_rows (f x s)) = row_map k' (rs_rows s)) \<Longrightarrow> row_map k' (rs_rows (fold f xs s)) = row_map k' (rs_rows s)"
  by (induction xs arbitrary: s) simp_all

text \<open>No operation of a store touches the rows of another kind.\<close>

lemma stores_apart:
  assumes k: "sk_kind k' \<noteq> sk_kind k"
  shows "row_map k' (rs_rows (run_op k sha x s)) = row_map k' (rs_rows s)"
proof -
  have save: "row_map k' (rs_rows (save k sha now key s)) = row_map k' (rs_rows s)" for now key s
    using k by (auto simp: fun_eq_iff save_other)
  have set: "row_map k' (rs_rows (set_record k sha now key v s)) = row_map k' (rs_rows s)" for now key v s
    by (simp add: set_record_def save)
  have forget_record: "row_map k' (rs_rows (forget_record k key s)) = row_map k' (rs_rows s)" for key s
    using k by (auto simp: fun_eq_iff forget_record_def delete_row_def Let_def row_map_delete)
  show ?thesis
    by (cases x) (auto simp: save set forget_record del_record_def pop_record_def setdefault_def update_records_def clear_records_def mutate_def
        flush_snd prune_records_def Let_def split_def intro!: fold_other split: option.splits)
qed

text \<open>
  What is pruned is decided by the saved status: a value that became active in place and is not flushed yet is
  forgotten while it runs.
\<close>

lemma prune_ignores_memory:
  "let s = fold (run_op demo_kind (\<lambda>x. x)) [SetRecord ''1'' ''a'' (JObject [(''status'', JText ''completed'')]),
       Mutate ''a'' (\<lambda>v. JObject [(''status'', JText ''running'')])] (new_store []\<lparr>rs_attached := True\<rparr>)
   in map_of (rs_items s) ''a'' = Some (JObject [(''status'', JText ''running'')]) \<and>
      map_of (rs_items (run_op demo_kind (\<lambda>x. x) (Prune ''2'') s)) ''a'' = None"
  by code_simp

section \<open>The server's stores\<close>

definition STORES :: "store_kind list" where
  "STORES = [persistent_store ''simulation'', persistent_store ''report'', persistent_store ''report_files'',
     persistent_store ''config_template''\<lparr>sk_prunable := False\<rparr>, persistent_store ''log_schedule'', persistent_store ''deployment'']"

type_synonym stores = "(store_kind \<times> rstore) list"

text \<open>Each store sees the table as the one before it left it.\<close>

fun load_persisted_state :: "(string \<Rightarrow> string) \<Rightarrow> string \<Rightarrow> stores \<Rightarrow> record_row list \<Rightarrow> string + ((string \<times> string list) list \<times> stores \<times> record_row list)" where
  "load_persisted_state sha now [] rows = Inr ([], [], rows)"
| "load_persisted_state sha now ((k, s) # ks) rows = (case load k sha now (s\<lparr>rs_rows := rows\<rparr>) of
     Inl e \<Rightarrow> Inl e
   | Inr (ids, t) \<Rightarrow> (case load_persisted_state sha now ks (rs_rows t) of
       Inl e \<Rightarrow> Inl e
     | Inr (found, ts, rows') \<Rightarrow> Inr (AList.update (sk_kind k) ids found, (k, t) # ts, rows')))"

fun flush_persisted_state :: "(string \<Rightarrow> string) \<Rightarrow> string \<Rightarrow> stores \<Rightarrow> record_row list \<Rightarrow> nat \<times> stores \<times> record_row list" where
  "flush_persisted_state sha now [] rows = (0, [], rows)"
| "flush_persisted_state sha now ((k, s) # ks) rows = (case flush k sha now (s\<lparr>rs_rows := rows\<rparr>) of
     (n, t) \<Rightarrow> (case flush_persisted_state sha now ks (rs_rows t) of (m, ts, rows') \<Rightarrow> (n + m, (k, t) # ts, rows')))"

definition interrupt_running :: "string \<Rightarrow> json \<Rightarrow> json" where
  "interrupt_running now v = (case v of
     JObject m \<Rightarrow> if map_of m ''status'' = Some (JText ''running'')
       then JObject (AList.update ''interrupted_at'' (JText now) (AList.update ''status'' (JText INTERRUPTED_STATUS)
              (AList.update ''status_before_restart'' (JText ''running'') m)))
       else v
   | _ \<Rightarrow> v)"

definition interrupt_running_simulations :: "string \<Rightarrow> rstore \<Rightarrow> rstore" where
  "interrupt_running_simulations now s = s\<lparr>rs_items := map (\<lambda>(key, v). (key, interrupt_running now v)) (rs_items s)\<rparr>"

text \<open>The files of the old configuration directory in order of their names; one that cannot be read or parsed is \<open>None\<close>.\<close>

definition import_template :: "store_kind \<Rightarrow> (string \<Rightarrow> string) \<Rightarrow> string \<Rightarrow> json option \<Rightarrow> nat \<times> rstore \<Rightarrow> nat \<times> rstore" where
  "import_template k sha now f = (\<lambda>(n, s). case f of
     Some (JObject m) \<Rightarrow> (case map_of m ''template_id'' of
         Some (JText i) \<Rightarrow> if i \<noteq> [] \<and> map_of (rs_items s) i = None then (Suc n, set_record k sha now i (JObject m) s) else (n, s)
       | _ \<Rightarrow> (n, s))
   | _ \<Rightarrow> (n, s))"

definition import_legacy_config_templates :: "store_kind \<Rightarrow> (string \<Rightarrow> string) \<Rightarrow> string \<Rightarrow> json option list \<Rightarrow> rstore \<Rightarrow> nat \<times> rstore" where
  "import_legacy_config_templates k sha now files s = fold (import_template k sha now) files (0, s)"

lemma import_one_keeps: "map_of (rs_items (snd x)) i = Some v \<Longrightarrow> map_of (rs_items (snd (import_template k sha now f x))) i = Some v"
  by (cases x) (auto simp: import_template_def set_record_def update_conv split: option.splits json.splits)

lemma import_keeps:
  "map_of (rs_items s) i = Some v \<Longrightarrow> map_of (rs_items (snd (import_legacy_config_templates k sha now files s))) i = Some v"
proof -
  have "map_of (rs_items (snd x)) i = Some v \<Longrightarrow> map_of (rs_items (snd (fold (import_template k sha now) files x))) i = Some v" for x
    by (induction files arbitrary: x) (simp_all add: import_one_keeps)
  then show "map_of (rs_items s) i = Some v \<Longrightarrow> map_of (rs_items (snd (import_legacy_config_templates k sha now files s))) i = Some v"
    by (simp add: import_legacy_config_templates_def)
qed

text \<open>
  A stop and a start agree: a running simulation the stop interrupted and flushed is loaded as it is, and one
  the stop missed (a crash) is interrupted by the load; both remember that they were running.
\<close>

lemma interrupted_once: "map_of m ''status'' = Some (JText ''running'') \<Longrightarrow>
    mark_interrupted demo_kind now (interrupt_running now' (JObject m)) = interrupt_running now' (JObject m) \<and>
    mark_interrupted demo_kind now (JObject m) = interrupt_running now (JObject m)"
  by (simp add: mark_interrupted_def interrupt_running_def update_conv demo_kind_def persistent_store_def INTERRUPTED_STATUS_def)

end
