(* ===== verification/Simulation.thy ===== *)
theory Simulation
  imports Agents Alerts Records Scripts
begin

text \<open>
  \<^verbatim>\<open>services/simulation.py\<close>: which containers a simulation runs on, the three kinds of runs and what they leave
  in the simulation's record, and the announcement of the result. A run shares the store of simulations with
  the routes: what they did to it between two of its steps is part of its input (\<open>rd_before\<close>, \<open>rd_during\<close>), as
  are the clock and what the containers or the network answered. Metrics are left out.
\<close>

record 'w sim_site =
  sm_site :: "'w site"
  sm_store :: rstore
  sm_sent :: "notification list"

definition SIMULATIONS :: store_kind where
  "SIMULATIONS = persistent_store ''simulation''"

section \<open>Records\<close>

definition put :: "string \<Rightarrow> json \<Rightarrow> json \<Rightarrow> json" where
  "put k v r = (case r of JObject m \<Rightarrow> JObject (AList.update k v m) | _ \<Rightarrow> r)"

definition puts :: "(string \<times> json) list \<Rightarrow> json \<Rightarrow> json" where
  "puts kvs r = fold (\<lambda>(k, v). put k v) kvs r"

text \<open>\<open>simulations_db.get(id)\<close> and a key of it; a missing one is \<open>JNone\<close>.\<close>

definition entry :: "json \<Rightarrow> string \<Rightarrow> json" where
  "entry r k = (case r of JObject m \<Rightarrow> (case map_of m k of Some v \<Rightarrow> v | None \<Rightarrow> JNone) | _ \<Rightarrow> JNone)"

definition sim_record :: "rstore \<Rightarrow> string \<Rightarrow> json" where
  "sim_record s i = (case map_of (rs_items s) i of Some r \<Rightarrow> r | None \<Rightarrow> JObject [])"

definition sim_status :: "rstore \<Rightarrow> string \<Rightarrow> string option" where
  "sim_status s i = (case map_of (rs_items s) i of Some r \<Rightarrow> (case entry r ''status'' of JText x \<Rightarrow> Some x | _ \<Rightarrow> None) | None \<Rightarrow> None)"

definition amend :: "string \<Rightarrow> (json \<Rightarrow> json) \<Rightarrow> 'w sim_site \<Rightarrow> 'w sim_site" where
  "amend i f s = s\<lparr>sm_store := mutate i f (sm_store s)\<rparr>"

definition log_sim :: "string \<Rightarrow> (string \<times> json) list \<Rightarrow> string \<Rightarrow> 'w sim_site \<Rightarrow> 'w sim_site" where
  "log_sim a det st s = s\<lparr>sm_site := snd (log_action a det st (sm_site s))\<rparr>"

section \<open>Choosing containers\<close>

record selector =
  sl_ids :: "string list"
  sl_siem :: "string option"
  sl_group :: "string option"
  sl_count :: "nat option"
  sl_status :: "string option"

definition wanted :: "string option \<Rightarrow> json \<Rightarrow> bool" where
  "wanted x v = (x = None \<or> x = Some [] \<or> v = JText (the x))"

definition matches :: "'w site_env \<Rightarrow> selector \<Rightarrow> string \<Rightarrow> (bool, 'w site) eff" where
  "matches env sel n =
     (if sl_ids sel \<noteq> [] \<and> n \<notin> set (sl_ids sel) then ret False
      else bind_eff (on_host (lx_running (se_lxc env) n)) (\<lambda>up.
        if \<not> up then ret False
        else if sl_status sel \<noteq> None \<and> sl_status sel \<noteq> Some ''running'' then ret False
        else bind_eff (get_eff (\<lambda>s. read_agent_metadata (se_codec env) n (si_fleet s))) (\<lambda>md.
          ret (wanted (sl_siem sel) (cell md ''siem_type'') \<and> wanted (sl_group sel) (cell md ''agent_group'')))))"

fun matching_names :: "'w site_env \<Rightarrow> selector \<Rightarrow> string list \<Rightarrow> (string list, 'w site) eff" where
  "matching_names env sel [] = ret []"
| "matching_names env sel (n # ns) = bind_eff (matches env sel n) (\<lambda>m.
     bind_eff (matching_names env sel ns) (\<lambda>rest. ret (if m then n # rest else rest)))"

text \<open>\<open>random.sample\<close> is the argument \<open>sample\<close>.\<close>

definition select_agents_for_simulation ::
  "'w site_env \<Rightarrow> (string list \<Rightarrow> nat \<Rightarrow> string list) \<Rightarrow> user option \<Rightarrow> selector \<Rightarrow> (string list, 'w site) eff" where
  "select_agents_for_simulation env sample u sel =
     bind_eff (on_host (lx_list (se_lxc env))) (\<lambda>names.
     bind_eff (get_eff (\<lambda>s. visible u names (si_ten s))) (\<lambda>seen.
     bind_eff (matching_names env sel seen) (\<lambda>sel_names.
       ret (case sl_count sel of None \<Rightarrow> sel_names
         | Some k \<Rightarrow> if k = 0 then sel_names else sample sel_names (min k (length sel_names))))))"

section \<open>The announcement\<close>

definition sim_level :: "string \<Rightarrow> string" where
  "sim_level st = (if st = ''completed'' then ''success'' else if st = ''stopped'' then ''info''
     else if st = ''interrupted'' then ''warning'' else ''error'')"

definition first_text :: "json list \<Rightarrow> string \<Rightarrow> string" where
  "first_text vs d = (case filter (\<lambda>v. case v of JText t \<Rightarrow> t \<noteq> [] | _ \<Rightarrow> False) vs of JText t # _ \<Rightarrow> t | _ \<Rightarrow> d)"

definition first_array :: "json list \<Rightarrow> nat" where
  "first_array vs = (case filter (\<lambda>v. case v of JArray xs \<Rightarrow> xs \<noteq> [] | _ \<Rightarrow> False) vs of JArray xs # _ \<Rightarrow> length xs | _ \<Rightarrow> 0)"

definition finished_simulation :: "string \<Rightarrow> json \<Rightarrow> string \<Rightarrow> notification" where
  "finished_simulation i r status = \<lparr>nt_event = ''simulation.finished'',
     nt_title = ''Simulation '' @ status @ '': '' @ first_text [entry r ''type'', entry r ''profile_id''] ''simulation'',
     nt_text = first_text [entry r ''error''] [],
     nt_level = sim_level status,
     nt_fields = [(''simulation_id'', JText i),
       (''events'', case entry r ''events_generated'' of JNone \<Rightarrow> JInt 0 | v \<Rightarrow> v),
       (''containers'', JInt (int (first_array [entry r ''agents'', entry r ''containers''])))],
     nt_link = ''/simulations''\<rparr>"

definition announce_finished :: "string \<Rightarrow> 'w sim_site \<Rightarrow> 'w sim_site" where
  "announce_finished i s =
     (let r = sim_record (sm_store s) i; status = (case entry r ''status'' of JText x \<Rightarrow> x | _ \<Rightarrow> ''unknown'')
      in if status = ''running'' then s else s\<lparr>sm_sent := sm_sent s @ [finished_simulation i r status]\<rparr>)"

section \<open>Attack simulations\<close>

text \<open>
  One second of a run: the clock when the loop looks at it, what others did to the store before that, what each
  container reported (or raised), and what others did while they were written.
\<close>

record round =
  rd_now :: rat
  rd_before :: "rstore \<Rightarrow> rstore"
  rd_written :: "string \<Rightarrow> string + written"
  rd_during :: "rstore \<Rightarrow> rstore"

record tally =
  ta_events :: nat
  ta_failures :: nat
  ta_last_error :: "string option"

fun first_raised :: "(string + 'a) list \<Rightarrow> string + 'a list" where
  "first_raised [] = Inr []"
| "first_raised (Inl e # rs) = Inl e"
| "first_raised (Inr x # rs) = (case first_raised rs of Inl e \<Rightarrow> Inl e | Inr xs \<Rightarrow> Inr (x # xs))"

definition add_written :: "written \<Rightarrow> tally \<Rightarrow> tally" where
  "add_written w t = (let t = t\<lparr>ta_events := ta_events t + wr_events w\<rparr> in
     if wr_success w then t
     else t\<lparr>ta_failures := Suc (ta_failures t),
            ta_last_error := (case wr_error w of Some e \<Rightarrow> if e \<noteq> [] then Some e else ta_last_error t | None \<Rightarrow> ta_last_error t)\<rparr>)"

definition progress_fields :: "tally \<Rightarrow> (string \<times> json) list" where
  "progress_fields t = [(''events_generated'', JInt (int (ta_events t))), (''failed_writes'', JInt (int (ta_failures t)))] @
     (case ta_last_error t of Some e \<Rightarrow> if e \<noteq> [] then [(''last_error'', JText e)] else [] | None \<Rightarrow> [])"

definition others :: "(rstore \<Rightarrow> rstore) \<Rightarrow> 'w sim_site \<Rightarrow> 'w sim_site" where
  "others f s = s\<lparr>sm_store := f (sm_store s)\<rparr>"

text \<open>\<open>None\<close>: the rounds ran out before the loop ended.\<close>

fun attack_rounds :: "string \<Rightarrow> string list \<Rightarrow> rat \<Rightarrow> round list \<Rightarrow> tally \<Rightarrow> 'w sim_site \<Rightarrow> ((string + tally) \<times> 'w sim_site) option" where
  "attack_rounds i names end_time [] t s = None"
| "attack_rounds i names end_time (r # rs) t s =
     (let s = others (rd_before r) s in
      if \<not> rd_now r < end_time then Some (Inr t, s)
      else if sim_status (sm_store s) i \<noteq> Some ''running'' then Some (Inr t, s)
      else (case first_raised (map (rd_written r) names) of
          Inl e \<Rightarrow> Some (Inl e, others (rd_during r) s)
        | Inr ws \<Rightarrow> let t = fold add_written ws t in
            attack_rounds i names end_time rs t (amend i (puts (progress_fields t)) (others (rd_during r) s))))"

definition settle_attack :: "string \<Rightarrow> string \<Rightarrow> tally \<Rightarrow> 'w sim_site \<Rightarrow> 'w sim_site" where
  "settle_attack now i t s =
     (let outcome = (if sim_status (sm_store s) i = Some ''running''
            then (if ta_events t \<noteq> 0 then [(''status'', JText ''completed'')]
                  else [(''status'', JText ''failed''), (''error'', JText (case ta_last_error t of Some e \<Rightarrow> if e \<noteq> [] then e else ''No events were written'' | None \<Rightarrow> ''No events were written''))])
            else [])
      in log_sim ''simulation_completed'' [(''simulation_id'', JText i), (''events_generated'', JInt (int (ta_events t))),
             (''failed_writes'', JInt (int (ta_failures t)))]
           (if ta_events t \<noteq> 0 \<and> ta_failures t = 0 then ''success'' else if ta_events t \<noteq> 0 then ''partial'' else ''error'')
           (amend i (puts (outcome @ [(''completed_at'', JText now), (''events_generated'', JInt (int (ta_events t)))])) s))"

definition fail_attack :: "string \<Rightarrow> string \<Rightarrow> 'w sim_site \<Rightarrow> 'w sim_site" where
  "fail_attack i e s = amend i (puts [(''status'', JText ''failed''), (''error'', JText e)]) s"

definition detection_waits :: "string \<Rightarrow> 'w sim_site \<Rightarrow> bool" where
  "detection_waits i s = (let r = sim_record (sm_store s) i in
     entry r ''status'' = JText ''completed'' \<and> entry (entry r ''detection'') ''status'' = JText ''waiting'')"

text \<open>The result tells whether a detection check follows.\<close>

definition run_simulation :: "string \<Rightarrow> string \<Rightarrow> string \<Rightarrow> string list \<Rightarrow> rat \<Rightarrow> rat \<Rightarrow> round list \<Rightarrow> 'w sim_site \<Rightarrow> (bool \<times> 'w sim_site) option" where
  "run_simulation now attacker i names start duration rounds s =
     (case attack_rounds i names (start + duration) rounds \<lparr>ta_events = 0, ta_failures = 0, ta_last_error = None\<rparr>
         (amend i (puts [(''attacker_ip'', JText attacker)]) s) of
        None \<Rightarrow> None
      | Some (r, s1) \<Rightarrow>
          let s2 = announce_finished i (case r of Inl e \<Rightarrow> fail_attack i e s1 | Inr t \<Rightarrow> settle_attack now i t s1)
          in Some (detection_waits i s2, s2))"

section \<open>Custom log simulations\<close>

record custom_result =
  cu_name :: string
  cu_result :: "string + cmd_result"

definition custom_failure :: "custom_result \<Rightarrow> json option" where
  "custom_failure c = (case cu_result c of
     Inl e \<Rightarrow> Some (JObject [(''container'', JText (cu_name c)), (''error'', JText e)])
   | Inr r \<Rightarrow> if cr_success r then None else Some (JObject [(''container'', JText (cu_name c)), (''error'', JText (cr_stderr r))]))"

text \<open>The results come back in the order of the containers, after what others did to the store meanwhile.\<close>

definition run_custom_log_simulation :: "string \<Rightarrow> string \<Rightarrow> int \<Rightarrow> int \<Rightarrow> (rstore \<Rightarrow> rstore) \<Rightarrow> custom_result list \<Rightarrow> 'w sim_site \<Rightarrow> 'w sim_site" where
  "run_custom_log_simulation now i eps duration meanwhile results s =
     (let errors = List.map_filter custom_failure results; good = length results - length errors;
          events = eps * duration * int good;
          s1 = amend i (puts ([(''events_generated'', JInt events), (''completed_at'', JText now),
              (''status'', JText (if good = length results then ''completed'' else ''failed''))] @
              (if errors \<noteq> [] then [(''errors'', JArray errors)] else []))) (others meanwhile s);
          s2 = log_sim ''custom_log_simulation_completed'' [(''simulation_id'', JText i), (''successful_containers'', JInt (int good)),
              (''failed_containers'', JInt (int (length results - good))), (''events_generated'', JInt events)] ''success'' s1
      in announce_finished i s2)"

section \<open>Syslog simulations\<close>

record syslog_request =
  sy_target_ip :: string
  sy_target_port :: int
  sy_protocol :: string
  sy_eps :: nat
  sy_duration :: nat
  sy_devices :: nat
  sy_device_type :: string
  sy_prefix :: string
  sy_facility :: int

definition device_types :: "syslog_request \<Rightarrow> string list" where
  "device_types q = (if sy_device_type q \<noteq> ''mixed'' then [sy_device_type q] else [''router'', ''switch'', ''firewall'', ''ids''])"

definition syslog_device :: "syslog_request \<Rightarrow> nat \<Rightarrow> string \<times> string \<times> string" where
  "syslog_device q k = (sy_prefix q @ ''-'' @ zfill 2 (nat_str (k + 1)),
     ''10.0.'' @ nat_str (k mod 254 + 1) @ ''.'' @ nat_str (k mod 250 + 1),
     device_types q ! (k mod length (device_types q)))"

definition device_rate :: "syslog_request \<Rightarrow> nat \<Rightarrow> nat" where
  "device_rate q k = sy_eps q div sy_devices q + (if k < sy_eps q mod sy_devices q then 1 else 0)"

text \<open>The messages of one second in order: of which device, and the how manieth of it.\<close>

definition second_messages :: "syslog_request \<Rightarrow> (nat \<times> nat) list" where
  "second_messages q = concat (map (\<lambda>k. map (\<lambda>j. (k, j)) [0..<device_rate q k]) [0..<sy_devices q])"

record second =
  se_before :: "rstore \<Rightarrow> rstore"
  se_sent :: "string \<Rightarrow> bool"
  se_draw :: "nat \<Rightarrow> nat \<Rightarrow> syslog_draw"

definition device_message :: "syslog_request \<Rightarrow> second \<Rightarrow> nat \<times> nat \<Rightarrow> string option" where
  "device_message q x kj = (case syslog_device q (fst kj) of (name, ip, typ) \<Rightarrow>
     build_syslog_message name ip typ (sy_facility q) (se_draw x (fst kj) (snd kj)))"

text \<open>How many messages of a second arrived and how many did not; an exception is \<open>Inl\<close>.\<close>

definition send_second :: "syslog_request \<Rightarrow> second \<Rightarrow> string + nat \<times> nat" where
  "send_second q x = (let ms = map (device_message q x) (second_messages q) in
     if None \<in> set ms then Inl ''KeyError''
     else let good = length (filter (\<lambda>m. se_sent x (the m)) ms) in Inr (good, length ms - good))"

fun syslog_seconds :: "string \<Rightarrow> syslog_request \<Rightarrow> second list \<Rightarrow> nat \<Rightarrow> nat \<Rightarrow> 'w sim_site \<Rightarrow> (string + nat \<times> nat) \<times> 'w sim_site" where
  "syslog_seconds i q [] sent failed s = (Inr (sent, failed), s)"
| "syslog_seconds i q (x # xs) sent failed s =
     (let s = others (se_before x) s in
      if sim_status (sm_store s) i \<noteq> Some ''running'' then (Inr (sent, failed), s)
      else (case send_second q x of Inl e \<Rightarrow> (Inl e, s) | Inr (a, b) \<Rightarrow> syslog_seconds i q xs (sent + a) (failed + b) s))"

definition run_syslog_simulation :: "string \<Rightarrow> string \<Rightarrow> syslog_request \<Rightarrow> (nat \<Rightarrow> second) \<Rightarrow> (rstore \<Rightarrow> rstore) \<Rightarrow> 'w sim_site \<Rightarrow> 'w sim_site" where
  "run_syslog_simulation now i q seconds after s =
     announce_finished i (case syslog_seconds i q (map seconds [0..<sy_duration q]) 0 0 s of
       (Inl e, s1) \<Rightarrow> log_sim ''syslog_simulation_failed'' [(''simulation_id'', JText i), (''error'', JText e)] ''error'' (fail_attack i e s1)
     | (Inr (sent, failed), s1) \<Rightarrow>
         let s1 = others after s1;
             outcome = (if sim_status (sm_store s1) i = Some ''running''
               then [(''status'', JText (if 0 < sent then ''completed'' else ''failed''))] else []);
             s2 = amend i (puts ([(''events_generated'', JInt (int sent)), (''completed_at'', JText now)] @ outcome @
               [(''messages_failed'', JInt (int failed))])) s1
         in log_sim ''syslog_simulation_completed'' [(''simulation_id'', JText i), (''messages_sent'', JInt (int sent)),
              (''messages_failed'', JInt (int failed))] ''success'' s2)"

section \<open>What a record holds after the writes\<close>

lemma entry_put: "entry (put k v r) k' = (if k = k' \<and> (\<exists>m. r = JObject m) then v else entry r k')"
  by (cases r) (auto simp: entry_def put_def update_conv)

lemma put_object: "(\<exists>m. put k v r = JObject m) \<longleftrightarrow> (\<exists>m. r = JObject m)"
  by (cases r) (auto simp: put_def)

lemma puts_simps [simp]: "puts [] r = r" "puts ((k, v) # kvs) r = puts kvs (put k v r)"
  by (simp_all add: puts_def)

lemma entry_plain: "(\<And>m. r \<noteq> JObject m) \<Longrightarrow> entry r k = JNone"
  by (cases r) (auto simp: entry_def)

lemma entry_puts_other: "k \<notin> set (map fst kvs) \<Longrightarrow> entry (puts kvs r) k = entry r k"
  by (induction kvs arbitrary: r) (auto simp: entry_put)

definition text_option :: "json \<Rightarrow> string option" where
  "text_option v = (case v of JText x \<Rightarrow> Some x | _ \<Rightarrow> None)"

lemma sim_status_alt: "sim_status s i = (case map_of (rs_items s) i of Some r \<Rightarrow> text_option (entry r ''status'') | None \<Rightarrow> None)"
  by (simp add: sim_status_def text_option_def split: option.splits)

lemma sim_status_mutate: "sim_status (mutate i f s) i = (case map_of (rs_items s) i of Some r \<Rightarrow> text_option (entry (f r) ''status'') | None \<Rightarrow> None)"
  by (simp add: sim_status_alt mutate_def update_conv split: option.splits)

lemma status_object: "sim_status s i = Some x \<Longrightarrow> \<exists>m. map_of (rs_items s) i = Some (JObject m)"
  by (auto simp: sim_status_def entry_def split: option.splits json.splits)

lemma status_amend_other:
  "''status'' \<notin> set (map fst kvs) \<Longrightarrow> sim_status (sm_store (amend i (puts kvs) s)) i = sim_status (sm_store s) i"
  by (simp add: amend_def sim_status_mutate entry_puts_other split: option.splits) (simp add: sim_status_alt split: option.splits)

lemma store_frame [simp]:
  "sm_store (log_sim a d st s) = sm_store s" "sm_store (announce_finished i s) = sm_store s" "sm_store (others f s) = f (sm_store s)"
  by (simp_all add: log_sim_def announce_finished_def others_def Let_def)

section \<open>The rounds of an attack\<close>

text \<open>The loop's state after rounds none of which ended it.\<close>

fun written_rounds :: "string \<Rightarrow> string list \<Rightarrow> rat \<Rightarrow> round list \<Rightarrow> tally \<Rightarrow> 'w sim_site \<Rightarrow> (tally \<times> 'w sim_site) option" where
  "written_rounds i names end_time [] t s = Some (t, s)"
| "written_rounds i names end_time (r # rs) t s =
     (let s = others (rd_before r) s in
      if \<not> rd_now r < end_time \<or> sim_status (sm_store s) i \<noteq> Some ''running'' then None
      else (case first_raised (map (rd_written r) names) of
          Inl e \<Rightarrow> None
        | Inr ws \<Rightarrow> let t = fold add_written ws t in
            written_rounds i names end_time rs t (amend i (puts (progress_fields t)) (others (rd_during r) s))))"

lemma attack_rounds_append:
  "written_rounds i names e pre t s = Some (t1, s1) \<Longrightarrow> attack_rounds i names e (pre @ post) t s = attack_rounds i names e post t1 s1"
  by (induction pre arbitrary: t s) (auto simp: Let_def split: if_splits sum.splits)

lemma attack_runs_out: "attack_rounds i names e rs t s = None \<Longrightarrow> r \<in> set rs \<Longrightarrow> rd_now r < e"
  by (induction rs arbitrary: t s) (auto simp: Let_def split: if_splits sum.splits)

text \<open>The loop sleeps a second after every round, so the clock at the rounds gives how many there can be.\<close>

definition ticking :: "rat \<Rightarrow> round list \<Rightarrow> bool" where
  "ticking start rs = ((rs \<noteq> [] \<longrightarrow> start \<le> rd_now (hd rs)) \<and> (\<forall>k. Suc k < length rs \<longrightarrow> rd_now (rs ! k) + 1 \<le> rd_now (rs ! Suc k)))"

lemma ticking_at: "ticking start rs \<Longrightarrow> k < length rs \<Longrightarrow> start + of_nat k \<le> rd_now (rs ! k)"
proof (induction k)
  case 0
  then show ?case by (cases rs) (auto simp: ticking_def)
next
  case (Suc k)
  then have "start + of_nat k \<le> rd_now (rs ! k)" "rd_now (rs ! k) + 1 \<le> rd_now (rs ! Suc k)" by (auto simp: ticking_def)
  then show ?case by (simp add: algebra_simps)
qed

lemma settled_status: "sim_status (sm_store (settle_attack now i t s)) i \<noteq> Some ''running''"
proof (cases "sim_status (sm_store s) i = Some ''running''")
  case True
  then obtain m where "map_of (rs_items (sm_store s)) i = Some (JObject m)" using status_object by blast
  then show ?thesis using True
    by (auto simp: settle_attack_def Let_def amend_def sim_status_mutate entry_put put_object text_option_def)
next
  case False
  have "sim_status (sm_store (settle_attack now i t s)) i = sim_status (sm_store s) i"
    using False by (simp add: settle_attack_def Let_def status_amend_other)
  then show ?thesis using False by simp
qed

lemma failed_status: "sim_status (sm_store (fail_attack i e s)) i \<noteq> Some ''running''"
proof (cases "map_of (rs_items (sm_store s)) i")
  case (Some r)
  then show ?thesis
    by (cases r) (simp_all add: fail_attack_def amend_def sim_status_mutate entry_put put_object text_option_def entry_plain)
qed (simp add: fail_attack_def amend_def sim_status_mutate)

text \<open>
  C32: an attack simulation of so many seconds ends after at most one round more than that, whatever containers report
  or raise and whatever others do to its record, and leaves the record not running.
\<close>

theorem attack_ends:
  assumes "ticking start rounds" "d < length rounds"
  shows "\<exists>b t. run_simulation now attacker i names start (of_nat d) rounds s = Some (b, t) \<and> sim_status (sm_store t) i \<noteq> Some ''running''"
proof -
  let ?t = "\<lparr>ta_events = 0, ta_failures = 0, ta_last_error = None\<rparr>" and ?s = "amend i (puts [(''attacker_ip'', JText attacker)]) s"
  have "\<not> rd_now (rounds ! d) < start + of_nat d" using ticking_at [OF assms] by simp
  then have "attack_rounds i names (start + of_nat d) rounds ?t ?s \<noteq> None"
    using attack_runs_out [OF _ nth_mem [OF assms(2)]] by blast
  then obtain x where "attack_rounds i names (start + of_nat d) rounds ?t ?s = Some x" by blast
  then obtain r s1 where "attack_rounds i names (start + of_nat d) rounds ?t ?s = Some (r, s1)" by (cases x) simp
  then show ?thesis using settled_status failed_status
    by (cases r) (simp_all add: run_simulation_def Let_def)
qed

text \<open>The result of a round all of whose containers were written.\<close>

lemma first_raised_Inr: "first_raised rs = Inr xs \<Longrightarrow> rs = map Inr xs"
  by (induction rs arbitrary: xs rule: first_raised.induct) (auto split: sum.splits)

lemma fold_add_events: "ta_events (fold add_written ws t) = ta_events t + sum_list (map wr_events ws)"
  by (induction ws arbitrary: t) (auto simp: add_written_def Let_def)

definition round_events :: "string list \<Rightarrow> round \<Rightarrow> nat" where
  "round_events names r = sum_list (map (\<lambda>n. case rd_written r n of Inr w \<Rightarrow> wr_events w | Inl e \<Rightarrow> 0) names)"

lemma round_events_Inr: "first_raised (map (rd_written r) names) = Inr ws \<Longrightarrow> sum_list (map wr_events ws) = round_events names r"
proof -
  assume "first_raised (map (rd_written r) names) = Inr ws"
  then have "map (rd_written r) names = map Inr ws" by (rule first_raised_Inr)
  then have "map (\<lambda>x. case x of Inr w \<Rightarrow> wr_events w | Inl e \<Rightarrow> 0) (map (rd_written r) names) = map (\<lambda>x. case x of Inr w \<Rightarrow> wr_events w | Inl e \<Rightarrow> 0) (map Inr ws)"
    by simp
  then show ?thesis by (simp add: round_events_def comp_def)
qed

lemma written_events:
  "written_rounds i names e rs t s = Some (t1, s1) \<Longrightarrow> ta_events t1 = ta_events t + sum_list (map (round_events names) rs)"
proof (induction i names e rs t s rule: written_rounds.induct)
  case (2 i names e r rs t s)
  obtain ws where w: "first_raised (map (rd_written r) names) = Inr ws"
    using 2(2) by (auto simp: Let_def split: if_splits sum.splits)
  have "written_rounds i names e rs (fold add_written ws t) (amend i (puts (progress_fields (fold add_written ws t)))
      (others (rd_during r) (others (rd_before r) s))) = Some (t1, s1)" and c: "rd_now r < e" "sim_status (rd_before r (sm_store s)) i = Some ''running''"
    using 2(2) w by (auto simp: Let_def split: if_splits)
  then have "ta_events t1 = ta_events (fold add_written ws t) + sum_list (map (round_events names) rs)"
    using 2(1) [OF refl] w by (simp add: others_def)
  then show ?case using round_events_Inr [OF w] by (simp add: fold_add_events)
qed simp

lemma settle_stopped:
  assumes "sim_status (sm_store s) i = Some st" "st \<noteq> ''running''"
  shows "sim_status (sm_store (settle_attack now i t s)) i = Some st \<and>
    entry (sim_record (sm_store (settle_attack now i t s)) i) ''events_generated'' = JInt (int (ta_events t))"
proof
  show "sim_status (sm_store (settle_attack now i t s)) i = Some st"
    using assms by (simp add: settle_attack_def Let_def status_amend_other)
  obtain m where "map_of (rs_items (sm_store s)) i = Some (JObject m)" using status_object [OF assms(1)] by blast
  then show "entry (sim_record (sm_store (settle_attack now i t s)) i) ''events_generated'' = JInt (int (ta_events t))"
    using assms by (simp add: settle_attack_def Let_def amend_def mutate_def sim_record_def update_conv entry_put put_object)
qed

text \<open>
  Stopping an attack simulation, or interrupting it, takes effect at its next second: nothing is written after it,
  whatever would have followed, the record keeps the status it was given, and it tells the events written until then.
\<close>

theorem stopped_attack_stays:
  assumes w: "written_rounds i names (start + d) pre \<lparr>ta_events = 0, ta_failures = 0, ta_last_error = None\<rparr>
      (amend i (puts [(''attacker_ip'', JText attacker)]) s) = Some (t1, s1)"
    and st: "sim_status (rd_before r (sm_store s1)) i = Some st" "st \<noteq> ''running''"
  shows "\<exists>b t. run_simulation now attacker i names start d (pre @ r # post) s = Some (b, t) \<and> sim_status (sm_store t) i = Some st \<and>
     entry (sim_record (sm_store t) i) ''events_generated'' = JInt (int (sum_list (map (round_events names) pre)))"
proof -
  have e: "ta_events t1 = sum_list (map (round_events names) pre)" using written_events [OF w] by simp
  have "attack_rounds i names (start + d) (pre @ r # post) \<lparr>ta_events = 0, ta_failures = 0, ta_last_error = None\<rparr>
      (amend i (puts [(''attacker_ip'', JText attacker)]) s) = Some (Inr t1, others (rd_before r) s1)"
    using st by (simp add: attack_rounds_append [OF w] Let_def)
  then have "run_simulation now attacker i names start d (pre @ r # post) s =
      Some (detection_waits i (announce_finished i (settle_attack now i t1 (others (rd_before r) s1))),
        announce_finished i (settle_attack now i t1 (others (rd_before r) s1)))"
    by (simp add: run_simulation_def Let_def)
  then show ?thesis using settle_stopped [of "others (rd_before r) s1" i st now t1] st e by simp
qed

text \<open>A second of a run in which one container writes and another fails, and a stop before the next.\<close>

definition demo_site :: "rstore \<Rightarrow> unit sim_site" where
  "demo_site st = \<lparr>sm_site = \<lparr>si_host = (), si_fleet = empty_fleet, si_ten = empty_tenancy, si_log = []\<rparr>, sm_store = st, sm_sent = []\<rparr>"

definition demo_sims :: rstore where
  "demo_sims = new_store []\<lparr>rs_items := [(''s'', JObject [(''status'', JText ''running''), (''profile_id'', JText ''web_attacks'')])]\<rparr>"

definition demo_round :: "rat \<Rightarrow> (rstore \<Rightarrow> rstore) \<Rightarrow> round" where
  "demo_round k f = \<lparr>rd_now = k, rd_before = f,
     rd_written = (\<lambda>n. Inr (if n = ''a'' then \<lparr>wr_success = True, wr_events = 5, wr_error = None\<rparr>
        else \<lparr>wr_success = False, wr_events = 0, wr_error = Some ''no output''\<rparr>)), rd_during = (\<lambda>x. x)\<rparr>"

definition stop_s :: "rstore \<Rightarrow> rstore" where
  "stop_s = mutate ''s'' (put ''status'' (JText ''stopped''))"

theorem attack_ends_witness:
  "\<exists>b t. run_simulation ''t'' ''203.0.113.9'' ''s'' [''a'', ''b''] 0 (of_nat 1) [demo_round 0 (\<lambda>x. x), demo_round 1 (\<lambda>x. x)] (demo_site demo_sims) = Some (b, t)
     \<and> sim_status (sm_store t) ''s'' \<noteq> Some ''running''"
proof (rule attack_ends)
  show "ticking 0 [demo_round 0 (\<lambda>x. x), demo_round 1 (\<lambda>x. x)]" by (auto simp: ticking_def demo_round_def less_Suc_eq)
  show "1 < length [demo_round 0 (\<lambda>x. x), demo_round 1 (\<lambda>x. x)]" by simp
qed

theorem stopped_attack_stays_witness:
  "\<exists>b t. run_simulation ''t'' ''203.0.113.9'' ''s'' [''a'', ''b''] 0 9 ([demo_round 0 (\<lambda>x. x)] @ demo_round 1 stop_s # []) (demo_site demo_sims) = Some (b, t) \<and>
     sim_status (sm_store t) ''s'' = Some ''stopped'' \<and>
     entry (sim_record (sm_store t) ''s'') ''events_generated'' = JInt (int (sum_list (map (round_events [''a'', ''b'']) [demo_round 0 (\<lambda>x. x)])))"
proof -
  let ?w = "written_rounds ''s'' [''a'', ''b''] (0 + 9) [demo_round 0 (\<lambda>x. x)] \<lparr>ta_events = 0, ta_failures = 0, ta_last_error = None\<rparr>
      (amend ''s'' (puts [(''attacker_ip'', JText ''203.0.113.9'')]) (demo_site demo_sims))"
  obtain t1 s1 where w: "?w = Some (t1, s1)" and i: "rs_items (sm_store s1) =
      [(''s'', JObject [(''status'', JText ''running''), (''profile_id'', JText ''web_attacks''), (''attacker_ip'', JText ''203.0.113.9''),
        (''events_generated'', JInt 5), (''failed_writes'', JInt 1), (''last_error'', JText ''no output'')])]"
    by (simp add: demo_round_def demo_site_def demo_sims_def new_store_def amend_def mutate_def others_def sim_status_def entry_def
        put_def Let_def add_written_def progress_fields_def)
  have "sim_status (rd_before (demo_round 1 stop_s) (sm_store s1)) ''s'' = Some ''stopped''"
    by (simp add: demo_round_def stop_s_def sim_status_mutate i entry_put text_option_def)
  then show ?thesis by (intro stopped_attack_stays [OF w]) simp_all
qed

section \<open>Syslog runs\<close>

lemma sum_first: "sum_list (map (\<lambda>k. if k < m then 1 else 0 :: nat) [0..<n]) = min m n"
  by (induction n) auto

lemma sum_list_offset: "sum_list (map (\<lambda>k. a + f k :: nat) xs) = length xs * a + sum_list (map f xs)"
  by (induction xs) auto

lemma sum_device_rates: "0 < sy_devices q \<Longrightarrow> sum_list (map (device_rate q) [0..<sy_devices q]) = sy_eps q"
proof -
  assume n: "0 < sy_devices q"
  have d: "device_rate q = (\<lambda>k. sy_eps q div sy_devices q + (if k < sy_eps q mod sy_devices q then 1 else 0))"
    by (simp add: device_rate_def fun_eq_iff)
  have "sy_eps q mod sy_devices q < sy_devices q" using n by simp
  then show ?thesis unfolding d sum_list_offset sum_first by (simp add: min_def)
qed

lemma second_messages_length: "0 < sy_devices q \<Longrightarrow> length (second_messages q) = sy_eps q"
  using sum_device_rates [of q] by (simp add: second_messages_def length_concat comp_def)

lemma send_second_counts:
  assumes "0 < sy_devices q"
  shows "\<exists>a b. send_second q x = Inr (a, b) \<and> a + b = sy_eps q"
proof -
  have "device_message q x kj \<noteq> None" for kj
    using syslog_message_built [of _ _ _ "sy_facility q" "se_draw x (fst kj) (snd kj)"] by (auto simp: device_message_def syslog_device_def)
  then have "None \<notin> set (map (device_message q x) (second_messages q))" by (auto simp: image_iff) (metis option.distinct(1))
  then show ?thesis using second_messages_length [OF assms]
    by (auto simp: send_second_def Let_def intro!: le_add_diff_inverse simp del: map_map
        intro: order_trans [OF length_filter_le])
qed

fun seconds_run :: "string \<Rightarrow> second list \<Rightarrow> 'w sim_site \<Rightarrow> nat" where
  "seconds_run i [] s = 0"
| "seconds_run i (x # xs) s = (let s = others (se_before x) s in
     if sim_status (sm_store s) i \<noteq> Some ''running'' then 0 else Suc (seconds_run i xs s))"

text \<open>
  A syslog simulation sends exactly the events per second that were asked for in every second it runs, spread over
  its devices so that no two differ by more than one message, each message sent or counted as failed; a message can
  always be built. It runs until its record is no longer running, at most its duration.
\<close>

theorem syslog_rate:
  assumes "0 < sy_devices q"
  shows "\<exists>sent failed t. syslog_seconds i q xs 0 0 s = (Inr (sent, failed), t) \<and> sent + failed = sy_eps q * seconds_run i xs s \<and>
     seconds_run i xs s \<le> length xs \<and> (\<forall>j<sy_devices q. \<forall>k<sy_devices q. device_rate q j \<le> device_rate q k + 1)"
proof -
  have "\<exists>sent failed t. syslog_seconds i q xs a b s = (Inr (sent, failed), t) \<and> sent + failed = a + b + sy_eps q * seconds_run i xs s" for a b
  proof (induction xs arbitrary: a b s)
    case (Cons x xs)
    show ?case
    proof (cases "sim_status (sm_store (others (se_before x) s)) i = Some ''running''")
      case True
      obtain c d where c: "send_second q x = Inr (c, d)" "c + d = sy_eps q" using send_second_counts [OF assms] by blast
      obtain sent failed t where "syslog_seconds i q xs (a + c) (b + d) (others (se_before x) s) = (Inr (sent, failed), t)"
        "sent + failed = a + c + (b + d) + sy_eps q * seconds_run i xs (others (se_before x) s)" using Cons by blast
      then show ?thesis using True c by (simp add: Let_def)
    qed (simp add: Let_def)
  qed simp
  moreover have "seconds_run i xs s \<le> length xs" by (induction xs arbitrary: s) (auto simp: Let_def)
  ultimately show ?thesis by (fastforce simp: device_rate_def)
qed

definition demo_syslog :: syslog_request where
  "demo_syslog = \<lparr>sy_target_ip = ''10.1.1.1'', sy_target_port = 514, sy_protocol = ''udp'', sy_eps = 7, sy_duration = 3, sy_devices = 3,
     sy_device_type = ''mixed'', sy_prefix = ''edge'', sy_facility = 1\<rparr>"

definition demo_second :: "(rstore \<Rightarrow> rstore) \<Rightarrow> second" where
  "demo_second f = \<lparr>se_before = f, se_sent = (\<lambda>m. length m < 100),
     se_draw = (\<lambda>k j. \<lparr>sd_time = ''Sep 24 20:15:01'', sd_severity = 6, sd_template = j, sd_iface = 1, sd_iface_alt = 2, sd_peer_ip = ''1.2.3.4'',
       sd_src_ip = ''10.10.10.10'', sd_dst_ip = ''5.6.7.8'', sd_src_port = 1024, sd_dst_port = 2048, sd_conn = 1000, sd_min = 1, sd_sec = 2,
       sd_bytes = 100, sd_vlan = 3, sd_mac = ''00:11:22:33:44:55'', sd_sig = 1001\<rparr>)\<rparr>"

theorem syslog_rate_witness:
  "\<exists>sent failed t. syslog_seconds ''s'' demo_syslog [demo_second (\<lambda>r. r), demo_second stop_s] 0 0 (demo_site demo_sims) = (Inr (sent, failed), t) \<and>
     sent + failed = 7"
proof -
  have "seconds_run ''s'' [demo_second (\<lambda>r. r), demo_second stop_s] (demo_site demo_sims) = 1"
    by (simp add: demo_second_def demo_site_def demo_sims_def new_store_def stop_s_def mutate_def put_def
        sim_status_def entry_def Let_def)
  then show ?thesis using syslog_rate [of demo_syslog "''s''" "[demo_second (\<lambda>r. r), demo_second stop_s]" "demo_site demo_sims"]
    by (auto simp: demo_syslog_def)
qed

section \<open>Custom log runs\<close>

text \<open>
  The two other kinds of runs leave a stopped record alone; a custom log simulation overwrites it: stopping it
  neither ends its scripts nor stays visible.
\<close>

lemma custom_overrides_stop:
  assumes "sim_status (meanwhile (sm_store s)) i = Some ''stopped''"
  shows "sim_status (sm_store (run_custom_log_simulation now i eps duration meanwhile results s)) i \<in> {Some ''completed'', Some ''failed''}"
proof -
  obtain m where "map_of (rs_items (meanwhile (sm_store s))) i = Some (JObject m)" using status_object [OF assms] by blast
  then show ?thesis
    by (auto simp: run_custom_log_simulation_def Let_def amend_def sim_status_mutate entry_put put_object text_option_def)
qed

text \<open>The announcement looks for containers under keys no simulation's record has, so it always counts none.\<close>

lemma announced_containers:
  "entry r ''agents'' = JNone \<Longrightarrow> entry r ''containers'' = JNone \<Longrightarrow> map_of (nt_fields (finished_simulation i r st)) ''containers'' = Some (JInt 0)"
  by (simp add: finished_simulation_def first_array_def)

section \<open>The containers chosen\<close>

text \<open>\<open>random.sample\<close>: so many different elements.\<close>

definition samples :: "(string list \<Rightarrow> nat \<Rightarrow> string list) \<Rightarrow> bool" where
  "samples f = (\<forall>xs k. k \<le> length xs \<longrightarrow> set (f xs k) \<subseteq> set xs \<and> length (f xs k) = k)"

lemma returns_matches: "returns (\<lambda>m. m \<longrightarrow> sl_ids sel = [] \<or> n \<in> set (sl_ids sel)) (matches env sel n)"
  unfolding matches_def by (intro inv_intros) auto

lemma returnsD: "returns P m \<Longrightarrow> m w = (Inr x, w') \<Longrightarrow> P x"
  unfolding returns_def by (metis fst_conv)

lemma bind_Inr: "bind_eff m f w = (Inr y, w') \<Longrightarrow> \<exists>x w1. m w = (Inr x, w1) \<and> f x w1 = (Inr y, w')"
  by (auto simp: bind_eff_def split: prod.splits sum.splits)

lemma matching_names_sub:
  "matching_names env sel ns w = (Inr xs, w') \<Longrightarrow> set xs \<subseteq> {n \<in> set ns. sl_ids sel = [] \<or> n \<in> set (sl_ids sel)}"
proof (induction ns arbitrary: xs w w')
  case (Cons n ns)
  from Cons.prems obtain m w1 where m: "matches env sel n w = (Inr m, w1)"
    "bind_eff (matching_names env sel ns) (\<lambda>rest. ret (if m then n # rest else rest)) w1 = (Inr xs, w')"
    by (auto dest: bind_Inr)
  then obtain rest w2 where r: "matching_names env sel ns w1 = (Inr rest, w2)" "xs = (if m then n # rest else rest)"
    by (auto dest!: bind_Inr simp: ret_def)
  have "m \<longrightarrow> sl_ids sel = [] \<or> n \<in> set (sl_ids sel)" using returnsD [OF returns_matches m(1)] .
  then show ?case using Cons.IH [OF r(1)] r(2) by auto
qed (simp add: ret_def)

text \<open>
  A simulation is given only containers that its user may see and that the selector names, if it names any, and
  no more of them than asked for.
\<close>

theorem selected_containers:
  assumes "samples sample" and r: "select_agents_for_simulation env sample u sel w = (Inr ns, w')"
  shows "(\<forall>n\<in>set ns. can_see u n (si_ten w) \<and> (sl_ids sel = [] \<or> n \<in> set (sl_ids sel))) \<and>
     (\<forall>k. sl_count sel = Some k \<longrightarrow> 0 < k \<longrightarrow> length ns \<le> k)"
proof -
  from r obtain names w1 where l: "on_host (lx_list (se_lxc env)) w = (Inr names, w1)"
    "bind_eff (get_eff (\<lambda>s. visible u names (si_ten s))) (\<lambda>seen. bind_eff (matching_names env sel seen) (\<lambda>xs.
       ret (case sl_count sel of None \<Rightarrow> xs | Some k \<Rightarrow> if k = 0 then xs else sample xs (min k (length xs))))) w1 = (Inr ns, w')"
    unfolding select_agents_for_simulation_def by (auto dest: bind_Inr)
  have t: "si_ten w1 = si_ten w" using l(1) by (auto simp: on_host_def split: prod.splits)
  obtain xs w2 where x: "matching_names env sel (visible u names (si_ten w)) w1 = (Inr xs, w2)"
    "ns = (case sl_count sel of None \<Rightarrow> xs | Some k \<Rightarrow> if k = 0 then xs else sample xs (min k (length xs)))"
    using l(2) t by (auto dest!: bind_Inr simp: get_eff_def ret_def)
  have "sample xs (min k (length xs)) = ns \<Longrightarrow> set ns \<subseteq> set xs \<and> length ns \<le> k" for k
    using assms(1) unfolding samples_def by (metis min.cobounded1 min.cobounded2)
  then have "set ns \<subseteq> set xs" "\<forall>k. sl_count sel = Some k \<longrightarrow> 0 < k \<longrightarrow> length ns \<le> k"
    using x(2) by (auto split: option.splits if_splits)
  moreover have "\<forall>n\<in>set xs. can_see u n (si_ten w) \<and> (sl_ids sel = [] \<or> n \<in> set (sl_ids sel))"
    using matching_names_sub [OF x(1)] by (auto simp: visible_alt can_see_alt)
  ultimately show ?thesis by blast
qed

definition any_one :: selector where
  "any_one = \<lparr>sl_ids = [''a'', ''b''], sl_siem = None, sl_group = None, sl_count = Some 1, sl_status = Some ''running''\<rparr>"

theorem selected_containers_witness:
  "\<exists>ns w'. select_agents_for_simulation plain_site_env (\<lambda>xs k. take k xs) None any_one plain_site = (Inr ns, w') \<and>
     set ns \<subseteq> {''a'', ''b''} \<and> length ns \<le> 1"
proof -
  have s: "samples (\<lambda>xs k. take k xs)" by (auto simp: samples_def dest: in_set_takeD)
  have "\<exists>ns w'. select_agents_for_simulation plain_site_env (\<lambda>xs k. take k xs) None any_one plain_site = (Inr ns, w')"
    by (simp add: select_agents_for_simulation_def plain_site_env_def plain_site_def plain_host_def any_one_def bind_eff_def on_host_def
        ret_def get_eff_def visible_alt is_unrestricted_def matches_def)
  then obtain ns w' where r: "select_agents_for_simulation plain_site_env (\<lambda>xs k. take k xs) None any_one plain_site = (Inr ns, w')" by blast
  from selected_containers [OF s r] r show ?thesis by (auto simp: any_one_def)
qed

end
