(* ===== verification/Detection.thy ===== *)
theory Detection
  imports Hosts Fleet_Db Json_Text
begin

text \<open>
  \<^verbatim>\<open>services/detection.py\<close>: asking a SIEM's search API what it raised for the targets of an attack simulation, and
  the comparison with what the profile should trigger. The connection is that of \<open>Hosts\<close>. Times are
  microseconds; how Python parses and writes ISO times, rounds to a decimal and encodes base64 are arguments, and
  a fraction is a rational. The SIEM's answers have the documented shape; a missing or odd part reads as nothing.
\<close>

record detection_env =
  de_host :: host_env
  de_iso :: "string \<Rightarrow> int option"
  de_show_time :: "int \<Rightarrow> string"
  de_now :: int
  de_round1 :: "rat \<Rightarrow> rat"
  de_b64 :: "string \<Rightarrow> string"

datatype detection_error =
    DetectionError string
  | CertificateNeeded string
  | Uncaught string

definition DETECTION_MAX_BODY :: nat where
  "DETECTION_MAX_BODY = 8 * 1024 * 1024"

definition SUPPORTED :: "string list" where
  "SUPPORTED = [''wazuh'', ''elastic'']"

definition EXPECTED_WAZUH :: "(string \<times> (string \<times> string) list) list" where
  "EXPECTED_WAZUH =
     [(''auth_bruteforce'', [(''5710'', ''sshd: Attempt to login using a non-existent user''),
        (''5712'', ''sshd: brute force trying to get access to the system'')]),
      (''web_attacks'', [(''31103'', ''SQL injection attempt''), (''31104'', ''Common web attack''),
        (''31105'', ''XSS (Cross Site Scripting) attempt'')]),
      (''malware_beacon'', [(''4101'', ''Firewall drop event'')]),
      (''lateral_movement'', [(''5715'', ''sshd: authentication success''), (''5501'', ''PAM: Login session opened'')]),
      (''data_exfiltration'', [(''5402'', ''Successful sudo to ROOT executed'')]),
      (''privilege_escalation'', [(''5401'', ''Three failed attempts to run sudo''),
        (''5405'', ''Unauthorized user attempted to use sudo''), (''5302'', ''User missed the password to change UID to root'')])]"

definition expected_rules :: "string \<Rightarrow> string \<Rightarrow> (string \<times> string) list" where
  "expected_rules siem profile = (if siem = ''wazuh''
     then (case map_of EXPECTED_WAZUH profile of Some rs \<Rightarrow> rs | None \<Rightarrow> []) else [])"

record backend =
  bk_index :: string
  bk_time :: string
  bk_host :: string
  bk_rule_id :: string
  bk_rule_name :: string
  bk_level :: string
  bk_technique :: string
  bk_events :: "string option"

definition BACKENDS :: "(string \<times> backend) list" where
  "BACKENDS =
     [(''wazuh'', \<lparr>bk_index = ''wazuh-alerts-*'', bk_time = ''timestamp'', bk_host = ''agent.name'', bk_rule_id = ''rule.id'',
         bk_rule_name = ''rule.description'', bk_level = ''rule.level'', bk_technique = ''rule.mitre.id'', bk_events = None\<rparr>),
      (''elastic'', \<lparr>bk_index = ''.alerts-security.alerts-*'', bk_time = ''@timestamp'', bk_host = ''host.name'',
         bk_rule_id = ''kibana.alert.rule.uuid'', bk_rule_name = ''kibana.alert.rule.name'', bk_level = ''kibana.alert.severity'',
         bk_technique = ''kibana.alert.rule.threat.technique.id'', bk_events = Some ''logs-*''\<rparr>)]"

section \<open>The connection\<close>

definition url_extra :: "string \<Rightarrow> string \<times> string" where
  "url_extra url = (let rest = snd (url_netloc (snd (url_scheme (clean_url url))));
      tail = dropWhile (\<lambda>c. c \<notin> set ''?#'') rest in
      (if prefix ''?'' tail then takeWhile (\<lambda>c. c \<noteq> CHR ''#'') (tl tail) else [], drop 1 (dropWhile (\<lambda>c. c \<noteq> CHR ''#'') tail)))"

definition url_user :: "string \<Rightarrow> string" where
  "url_user url = (let n = up_netloc (url_split url) in
     if CHR ''@'' \<in> set n then takeWhile (\<lambda>c. c \<noteq> CHR '':'') (join_with ''@'' (butlast (split_on (CHR ''@'') n))) else [])"

definition normalize_detection_url :: "string \<Rightarrow> detection_error + string" where
  "normalize_detection_url given =
     (let url = rstrip_by (\<lambda>c. c = CHR ''/'') (py_strip given); parts = url_split url in
      if up_scheme parts \<notin> {''https'', ''http''} \<or> hostname parts = [] then
        Inl (DetectionError ''The detection URL must be http(s)://host:port, e.g. https://wazuh-indexer:9200'')
      else if fst (url_extra url) \<noteq> [] \<or> snd (url_extra url) \<noteq> [] \<or> url_user url \<noteq> [] then
        Inl (DetectionError ''The detection URL can't contain a query, fragment or credentials'')
      else Inr url)"

definition column :: "manager_row \<Rightarrow> string \<Rightarrow> string" where
  "column m c = text_of (cell (mg_cols m) c)"

definition configured :: "manager_row option \<Rightarrow> bool" where
  "configured m = (case m of None \<Rightarrow> False | Some r \<Rightarrow> column r ''detection_url'' \<noteq> [] \<and> column r ''siem_type'' \<in> set SUPPORTED)"

definition auth_header :: "detection_env \<Rightarrow> manager_row \<Rightarrow> (string \<times> string) list" where
  "auth_header env m = (let user = column m ''detection_username''; secret = column m ''detection_secret'' in
     if user \<noteq> [] \<and> secret \<noteq> [] then [(''Authorization'', ''Basic '' @ de_b64 env (user @ '':'' @ secret))]
     else if secret \<noteq> [] then [(''Authorization'', ''ApiKey '' @ secret)]
     else [])"

definition refusal_reason :: "json \<Rightarrow> json" where
  "refusal_reason payload = (case field payload ''error'' of JObject m \<Rightarrow> field (JObject m) ''reason'' | v \<Rightarrow> v)"

definition search :: "detection_env \<Rightarrow> manager_row \<Rightarrow> string \<Rightarrow> json \<Rightarrow> detection_error + json" where
  "search env m index body = (case normalize_detection_url (column m ''detection_url'') of
     Inl e \<Rightarrow> Inl e
   | Inr url \<Rightarrow> (case open_conn (de_host env) url (if column m ''detection_fingerprint'' = [] then None else Some (column m ''detection_fingerprint'')) of
       Inl (FingerprintNeeded f) \<Rightarrow> Inl (CertificateNeeded f)
     | Inl (HostError e) \<Rightarrow> Inl (DetectionError e)
     | Inl (NetworkError e) \<Rightarrow> Inl (Uncaught e)
     | Inr _ \<Rightarrow> (case he_send (de_host env) url \<lparr>rq_method = ''POST'',
            rq_target = up_path (url_split url) @ ''/'' @ index @ ''/_search?ignore_unavailable=true&allow_no_indices=true'',
            rq_headers = [(''Content-Type'', ''application/json''), (''Accept'', ''application/json'')] @ auth_header env m,
            rq_body = Some (dumps body)\<rparr> of
         Inl e \<Rightarrow> Inl (DetectionError (url @ '': '' @ e))
       | Inr r \<Rightarrow>
           if rs_status r \<in> {401, 403} then Inl (DetectionError (''The SIEM rejected the credentials (HTTP '' @ nat_str (rs_status r) @ '')''))
           else if DETECTION_MAX_BODY < length (rs_data r) then Inl (DetectionError ''The SIEM's answer is too large'')
           else (case he_loads (de_host env) (if rs_data r = [] then ''{}'' else rs_data r) of
               None \<Rightarrow> Inl (DetectionError (url @ '' didn't answer like Elasticsearch/OpenSearch (HTTP '' @ nat_str (rs_status r) @ '')''))
             | Some payload \<Rightarrow> if 400 \<le> rs_status r
                 then Inl (DetectionError (''The SIEM refused the search (HTTP '' @ nat_str (rs_status r) @ ''): '' @
                        take 200 (he_show (de_host env) (refusal_reason payload))))
                 else Inr payload))))"

section \<open>The questions\<close>

definition text_set :: "string list \<Rightarrow> json" where
  "text_set ns = JArray (map JText (sort (remdups ns)))"

definition window_query :: "backend \<Rightarrow> string list \<Rightarrow> string \<Rightarrow> string \<Rightarrow> json" where
  "window_query b names start_text end_text = JObject [(''bool'', JObject [(''filter'', JArray
     [JObject [(''terms'', JObject [(bk_host b, text_set (names @ map py_lower names))])],
      JObject [(''range'', JObject [(bk_time b, JObject [(''gte'', JText start_text), (''lte'', JText end_text)])])]])])]"

definition terms_agg :: "string \<Rightarrow> nat \<Rightarrow> (string \<times> json) list \<Rightarrow> json" where
  "terms_agg f n aggs = JObject ((''terms'', JObject [(''field'', JText f), (''size'', JInt (int n))]) #
     (if aggs = [] then [] else [(''aggs'', JObject aggs)]))"

definition first_agg :: "backend \<Rightarrow> string \<times> json" where
  "first_agg b = (''first'', JObject [(''min'', JObject [(''field'', JText (bk_time b))])])"

definition check_body :: "backend \<Rightarrow> string list \<Rightarrow> string \<Rightarrow> string \<Rightarrow> json" where
  "check_body b names start_text end_text = JObject
     [(''size'', JInt 0), (''track_total_hits'', JBool True), (''query'', window_query b names start_text end_text),
      (''aggs'', JObject
        [(''hosts'', terms_agg (bk_host b) (max 10 (length names * 2)) [first_agg b, (''rules'', terms_agg (bk_rule_id b) 100 [first_agg b])]),
         (''rules'', terms_agg (bk_rule_id b) 200 [(''sample'', JObject [(''top_hits'', JObject [(''size'', JInt 1),
            (''_source'', JArray [JText (bk_rule_name b), JText (bk_level b), JText (bk_technique b)])])])])])]"

definition ingestion_body :: "backend \<Rightarrow> string list \<Rightarrow> string \<Rightarrow> string \<Rightarrow> json" where
  "ingestion_body b names start_text end_text = JObject
     [(''size'', JInt 0), (''track_total_hits'', JBool True), (''query'', window_query b names start_text end_text),
      (''aggs'', JObject [(''hosts'', terms_agg (bk_host b) (max 10 (length names * 2)) [first_agg b])])]"

definition hits_total :: "json \<Rightarrow> json" where
  "hits_total result = (case field (field result ''hits'') ''total'' of
     JObject m \<Rightarrow> (case map_of m ''value'' of Some v \<Rightarrow> v | None \<Rightarrow> JInt 0)
   | v \<Rightarrow> if falsy v then JInt 0 else v)"

definition test_connection :: "detection_env \<Rightarrow> manager_row \<Rightarrow> detection_error + json" where
  "test_connection env m = (case map_of BACKENDS (column m ''siem_type'') of
     None \<Rightarrow> Inl (Uncaught (column m ''siem_type''))
   | Some b \<Rightarrow> (case search env m (bk_index b) (JObject [(''size'', JInt 0), (''track_total_hits'', JBool True),
        (''query'', JObject [(''range'', JObject [(bk_time b, JObject [(''gte'', JText (de_show_time env (de_now env - 86400 * 1000000)))])])])]) of
       Inl e \<Rightarrow> Inl e | Inr result \<Rightarrow> Inr (hits_total result)))"

section \<open>Reading the answers\<close>

text \<open>\<open>Z\<close> becomes \<open>+00:00\<close> and a final \<open>+hhmm\<close> gets its colon.\<close>

definition zone_colon :: "string \<Rightarrow> string" where
  "zone_colon s = (let n = length s; z = drop (n - 5) s in
     if 5 \<le> n \<and> hd z \<in> set ''+-'' \<and> list_all ascii_digit (tl z) then take (n - 2) s @ '':'' @ drop (n - 2) s else s)"

definition utc_offset :: "string \<Rightarrow> string" where
  "utc_offset s = concat (map (\<lambda>c. if c = CHR ''Z'' then ''+00:00'' else [c]) s)"

definition parse_time :: "detection_env \<Rightarrow> json \<Rightarrow> int option" where
  "parse_time env v = (case v of
     JNone \<Rightarrow> None
   | JInt ms \<Rightarrow> Some (ms * 1000)
   | JText t \<Rightarrow> de_iso env (zone_colon (utc_offset t))
   | _ \<Rightarrow> None)"

definition first_time :: "detection_env \<Rightarrow> json \<Rightarrow> int option" where
  "first_time env bucket = (let f = field bucket ''first'' in case field f ''value'' of
     JInt ms \<Rightarrow> parse_time env (JInt ms) | _ \<Rightarrow> parse_time env (field f ''value_as_string''))"

fun dig :: "string \<Rightarrow> json \<Rightarrow> string list \<Rightarrow> json" where
  "dig dotted v [] = v"
| "dig dotted v (p # ps) = (if has_field v dotted then field v dotted else dig dotted (field v p) ps)"

definition buckets :: "json \<Rightarrow> string \<Rightarrow> json list" where
  "buckets aggs name = (case field (field aggs name) ''buckets'' of JArray bs \<Rightarrow> bs | _ \<Rightarrow> [])"

definition key_text :: "json \<Rightarrow> string" where
  "key_text bucket = (case field bucket ''key'' of JText t \<Rightarrow> t | JInt i \<Rightarrow> int_str i | _ \<Rightarrow> [])"

definition doc_count :: "json \<Rightarrow> int" where
  "doc_count bucket = (case field bucket ''doc_count'' of JInt i \<Rightarrow> i | _ \<Rightarrow> 0)"

record target =
  tg_name :: string
  tg_alerts :: int
  tg_detected :: bool
  tg_first :: "int option"
  tg_ttd :: "rat option"

definition new_target :: "string \<Rightarrow> target" where
  "new_target n = \<lparr>tg_name = n, tg_alerts = 0, tg_detected = False, tg_first = None, tg_ttd = None\<rparr>"

definition seconds_after :: "int \<Rightarrow> int \<Rightarrow> rat" where
  "seconds_after start t = max 0 (of_int (t - start) / 1000000)"

definition relevant_times :: "detection_env \<Rightarrow> (string \<times> string) list \<Rightarrow> json \<Rightarrow> int list" where
  "relevant_times env expected bucket =
     (let times = dict_of (map (\<lambda>r. (key_text r, first_time env r)) (buckets bucket ''rules''))
      in List.map_filter (\<lambda>(rid, t). if expected = [] \<or> rid \<in> set (map fst expected) then t else None) times)"

definition see_host :: "detection_env \<Rightarrow> int \<Rightarrow> (string \<times> string) list \<Rightarrow> json \<Rightarrow> target \<Rightarrow> target" where
  "see_host env start expected bucket row =
     (let row = row\<lparr>tg_alerts := doc_count bucket\<rparr>; ts = relevant_times env expected bucket in
      if ts = [] then row
      else row\<lparr>tg_detected := True, tg_first := Some (Min (set ts)), tg_ttd := Some (de_round1 env (seconds_after start (Min (set ts))))\<rparr>)"

definition targets_of :: "string list \<Rightarrow> (string \<times> target) list" where
  "targets_of names = dict_of (map (\<lambda>n. (n, new_target n)) names)"

definition see_bucket ::
  "detection_env \<Rightarrow> int \<Rightarrow> (string \<times> string) list \<Rightarrow> (string \<times> string) list \<Rightarrow> json \<Rightarrow> (string \<times> target) list \<Rightarrow> (string \<times> target) list" where
  "see_bucket env start expected wanted bucket rows = (case map_of wanted (py_lower (key_text bucket)) of
     None \<Rightarrow> rows
   | Some n \<Rightarrow> if n = [] then rows else AList.map_entry n (see_host env start expected bucket) rows)"

record rule_seen =
  ru_id :: string
  ru_name :: json
  ru_level :: json
  ru_technique :: json
  ru_count :: int
  ru_expected :: bool

definition see_rule :: "backend \<Rightarrow> (string \<times> string) list \<Rightarrow> json \<Rightarrow> rule_seen" where
  "see_rule b expected bucket =
     (let source = (case field (field (field bucket ''sample'') ''hits'') ''hits'' of JArray (h # _) \<Rightarrow> field h ''_source'' | _ \<Rightarrow> JObject []);
          rid = key_text bucket; get = (\<lambda>d. dig d source (split_on (CHR ''.'') d)); name = get (bk_rule_name b)
      in \<lparr>ru_id = rid, ru_name = (if falsy name then JText (case map_of expected rid of Some n \<Rightarrow> n | None \<Rightarrow> []) else name),
          ru_level = get (bk_level b), ru_technique = get (bk_technique b), ru_count = doc_count bucket,
          ru_expected = (rid \<in> set (map fst expected))\<rparr>)"

definition median :: "rat list \<Rightarrow> rat" where
  "median xs = (let ys = sort xs; n = length ys in
     if odd n then ys ! (n div 2) else (ys ! (n div 2 - 1) + ys ! (n div 2)) / 2)"

definition spread :: "rat list \<Rightarrow> (rat \<times> rat) option" where
  "spread xs = (if xs = [] then None else Some (median xs, Max (set xs)))"

datatype ingestion = IngestionError string | Ingestion json nat "(rat \<times> rat) option"

record found =
  fo_siem :: string
  fo_window :: "string \<times> string"
  fo_containers :: nat
  fo_detected :: nat
  fo_rate :: rat
  fo_ttd :: "(rat \<times> rat) option"
  fo_alerts :: int
  fo_rules :: "rule_seen list"
  fo_expected :: "(string \<times> string \<times> bool) list"
  fo_missed :: "string list"
  fo_rows :: "target list"
  fo_basis :: string
  fo_ingestion :: "ingestion option"

definition ingested :: "detection_env \<Rightarrow> manager_row \<Rightarrow> backend \<Rightarrow> string list \<Rightarrow> int \<Rightarrow> string \<Rightarrow> detection_error + ingestion" where
  "ingested env m b names start until =
     (case search env m (the (bk_events b)) (ingestion_body b names (de_show_time env start) until) of
        Inl (Uncaught e) \<Rightarrow> Inl (Uncaught e)
      | Inl (DetectionError e) \<Rightarrow> Inr (IngestionError e)
      | Inl (CertificateNeeded f) \<Rightarrow> Inr (IngestionError f)
      | Inr result \<Rightarrow> (let bs = buckets (field result ''aggregations'') ''hosts''
          in Inr (Ingestion (hits_total result) (length bs) (spread (map (seconds_after start) (List.map_filter (first_time env) bs))))))"

definition compare_answer ::
  "detection_env \<Rightarrow> string \<Rightarrow> backend \<Rightarrow> (string \<times> string) list \<Rightarrow> string list \<Rightarrow> int \<Rightarrow> string \<Rightarrow> json \<Rightarrow> found" where
  "compare_answer env siem b expected names start until result =
     (let aggs = field result ''aggregations'';
          wanted = dict_of (map (\<lambda>n. (py_lower n, n)) names);
          rows = map snd (fold (see_bucket env start expected wanted) (buckets aggs ''hosts'') (targets_of names));
          rules = map (see_rule b expected) (buckets aggs ''rules''); seen = map ru_id rules;
          detected = filter tg_detected rows
      in \<lparr>fo_siem = siem, fo_window = (de_show_time env start, until), fo_containers = length names, fo_detected = length detected,
          fo_rate = (if names = [] then 0 else de_round1 env (100 * of_nat (length detected) / of_nat (length names))),
          fo_ttd = spread (List.map_filter tg_ttd detected), fo_alerts = sum_list (map tg_alerts rows), fo_rules = rules,
          fo_expected = map (\<lambda>(rid, name). (rid, name, rid \<in> set seen)) expected,
          fo_missed = filter (\<lambda>rid. rid \<notin> set seen) (map fst expected), fo_rows = rows,
          fo_basis = (if expected \<noteq> [] then ''expected rules'' else ''any alert''), fo_ingestion = None\<rparr>)"

definition check_detection :: "detection_env \<Rightarrow> manager_row \<Rightarrow> string \<Rightarrow> string list \<Rightarrow> json \<Rightarrow> string \<Rightarrow> detection_error + found" where
  "check_detection env m profile names started until =
     (let siem = column m ''siem_type'' in case map_of BACKENDS siem of
        None \<Rightarrow> Inl (Uncaught siem)
      | Some b \<Rightarrow>
          (let expected = expected_rules siem profile;
               start = (case parse_time env started of Some t \<Rightarrow> t | None \<Rightarrow> de_now env)
           in case search env m (bk_index b) (check_body b names (de_show_time env start) until) of
                Inl e \<Rightarrow> Inl e
              | Inr result \<Rightarrow> (let f = compare_answer env siem b expected names start until result in
                  case bk_events b of
                    None \<Rightarrow> Inr f
                  | Some _ \<Rightarrow> (case ingested env m b names start until of Inl e \<Rightarrow> Inl e | Inr g \<Rightarrow> Inr (f\<lparr>fo_ingestion := Some g\<rparr>)))))"

section \<open>What a check says\<close>

lemma dict_of_distinct: "distinct (map fst (m @ kvs)) \<Longrightarrow> foldl (\<lambda>m (k, v). AList.update k v m) m kvs = m @ kvs"
proof (induction kvs arbitrary: m)
  case (Cons p kvs)
  have "fst p \<notin> fst ` set m" using Cons.prems by auto
  then have "AList.update (fst p) (snd p) m = m @ [p]" by (simp add: update_fresh)
  then show ?case using Cons.IH [of "m @ [p]"] Cons.prems by (simp add: split_def)
qed simp

lemma wanted_iff:
  assumes "distinct (map py_lower names)"
  shows "map_of (dict_of (map (\<lambda>n. (py_lower n, n)) names)) x = Some n \<longleftrightarrow> n \<in> set names \<and> py_lower n = x"
proof -
  have "dict_of (map (\<lambda>n. (py_lower n, n)) names) = map (\<lambda>n. (py_lower n, n)) names"
    using dict_of_distinct [of "[]" "map (\<lambda>n. (py_lower n, n)) names"] assms by (simp add: dict_of_def comp_def)
  moreover have "distinct (map fst (map (\<lambda>n. (py_lower n, n)) names))" using assms by (simp add: comp_def)
  from map_of_eq_Some_iff [OF this, of x n] have "map_of (map (\<lambda>n. (py_lower n, n)) names) x = Some n \<longleftrightarrow> n \<in> set names \<and> py_lower n = x"
    by auto
  ultimately show ?thesis by simp
qed

lemma targets_distinct: "distinct names \<Longrightarrow> targets_of names = map (\<lambda>n. (n, new_target n)) names"
  using dict_of_distinct [of "[]" "map (\<lambda>n. (n, new_target n)) names"] by (simp add: targets_of_def dict_of_def comp_def)

lemma key_in: "map fst xs = ns \<Longrightarrow> (m, r) \<in> set xs \<Longrightarrow> m \<in> set ns"
  by (metis fst_conv image_eqI list.set_map)

lemma keys_map_entry: "map fst (AList.map_entry k f xs) = map fst xs"
  by (induction xs) auto

lemma see_bucket_keys: "map fst (see_bucket env start expected wanted b rows) = map fst rows"
  by (simp add: see_bucket_def keys_map_entry split: option.splits)

lemma fold_bucket_keys: "map fst (fold (see_bucket env start expected wanted) bs rows) = map fst rows"
  by (induction bs arbitrary: rows) (simp_all add: see_bucket_keys)

lemma see_host_simps: "tg_name (see_host env start expected b row) = tg_name row"
    "tg_detected (see_host env start expected b row) \<longleftrightarrow> tg_detected row \<or> relevant_times env expected b \<noteq> []"
  by (simp_all add: see_host_def Let_def)

definition hits_target :: "detection_env \<Rightarrow> (string \<times> string) list \<Rightarrow> (string \<times> string) list \<Rightarrow> string \<Rightarrow> json \<Rightarrow> bool" where
  "hits_target env expected wanted n b = (map_of wanted (py_lower (key_text b)) = Some n \<and> n \<noteq> [] \<and> relevant_times env expected b \<noteq> [])"

lemma see_bucket_target:
  "map_of rows n = Some r0 \<Longrightarrow> \<exists>r. map_of (see_bucket env start expected wanted b rows) n = Some r \<and> tg_name r = tg_name r0 \<and>
     (tg_detected r \<longleftrightarrow> tg_detected r0 \<or> hits_target env expected wanted n b)"
  by (auto simp: see_bucket_def map_of_map_entry hits_target_def see_host_simps split: option.splits)

lemma fold_bucket_target:
  "map_of rows n = Some r0 \<Longrightarrow> \<exists>r. map_of (fold (see_bucket env start expected wanted) bs rows) n = Some r \<and> tg_name r = tg_name r0 \<and>
     (tg_detected r \<longleftrightarrow> tg_detected r0 \<or> (\<exists>b\<in>set bs. hits_target env expected wanted n b))"
proof (induction bs arbitrary: rows r0)
  case (Cons b bs)
  obtain r1 where r1: "map_of (see_bucket env start expected wanted b rows) n = Some r1" "tg_name r1 = tg_name r0"
    "tg_detected r1 \<longleftrightarrow> tg_detected r0 \<or> hits_target env expected wanted n b" using see_bucket_target [OF Cons.prems] by blast
  from Cons.IH [OF r1(1)] show ?case using r1 by auto
qed simp

text \<open>
  C33: for targets whose names differ in more than case: the check reports every target once and in order; a target
  counts as detected exactly when the SIEM reports, for a host of that name in any case, a rule at a known time,
  one of the expected ones if the profile has any; and what is missed is what was expected and not seen on any host.
\<close>

theorem detection_exact:
  assumes n: "distinct (map py_lower names)" "[] \<notin> set names"
  shows "map tg_name (fo_rows (compare_answer env siem b expected names start until result)) = names \<and>
     (\<forall>row\<in>set (fo_rows (compare_answer env siem b expected names start until result)). tg_detected row \<longleftrightarrow>
        (\<exists>h\<in>set (buckets (field result ''aggregations'') ''hosts''). py_lower (key_text h) = py_lower (tg_name row) \<and> relevant_times env expected h \<noteq> [])) \<and>
     fo_detected (compare_answer env siem b expected names start until result) \<le> length names \<and>
     set (fo_missed (compare_answer env siem b expected names start until result)) =
        fst ` set expected - set (map key_text (buckets (field result ''aggregations'') ''rules''))"
proof -
  let ?f = "compare_answer env siem b expected names start until result"
  let ?bs = "buckets (field result ''aggregations'') ''hosts''" and ?w = "dict_of (map (\<lambda>n. (py_lower n, n)) names)"
  let ?rows = "fold (see_bucket env start expected ?w) ?bs (targets_of names)"
  have d: "distinct names" using n(1) by (simp add: distinct_map)
  note t = targets_distinct [OF d]
  have k: "map fst ?rows = names" by (simp add: fold_bucket_keys t comp_def)
  have row: "tg_name r = m \<and> (tg_detected r \<longleftrightarrow> (\<exists>h\<in>set ?bs. hits_target env expected ?w m h))" if "(m, r) \<in> set ?rows" for m r
  proof -
    have "map_of ?rows m = Some r" using that k d by simp
    moreover have "m \<in> set names" by (rule key_in [OF k that])
    then have "map_of (targets_of names) m = Some (new_target m)" using d by (simp add: t map_of_map_keys comp_def)
    ultimately show ?thesis using fold_bucket_target [of "targets_of names" m "new_target m" env start expected ?w ?bs]
      by (auto simp: new_target_def)
  qed
  have names: "map tg_name (map snd ?rows) = names"
  proof -
    have "map tg_name (map snd ?rows) = map fst ?rows" using row by (auto simp: comp_def intro!: map_cong)
    then show ?thesis using k by simp
  qed
  have rows: "fo_rows ?f = map snd ?rows" by (simp add: compare_answer_def Let_def)
  have det: "tg_detected r \<longleftrightarrow> (\<exists>h\<in>set ?bs. py_lower (key_text h) = py_lower (tg_name r) \<and> relevant_times env expected h \<noteq> [])"
    if r: "r \<in> set (map snd ?rows)" for r
  proof -
    obtain m where m: "(m, r) \<in> set ?rows" using r by auto
    then have "m \<in> set names" by (rule key_in [OF k])
    then have "m \<noteq> []" using n(2) by blast
    have "hits_target env expected ?w m h \<longleftrightarrow> py_lower (key_text h) = py_lower m \<and> relevant_times env expected h \<noteq> []" for h
      using \<open>m \<noteq> []\<close> \<open>m \<in> set names\<close> by (simp add: hits_target_def wanted_iff [OF n(1)] eq_commute [of "py_lower m"])
    then show ?thesis using row [OF m] by simp
  qed
  have "length (map snd ?rows) = length names" using arg_cong [OF k, of length] by simp
  then have "length (filter tg_detected (map snd ?rows)) \<le> length names"
    using length_filter_le [of tg_detected "map snd ?rows"] by (simp only:)
  then have len: "fo_detected ?f \<le> length names" by (simp only: compare_answer_def Let_def found.simps)
  have missed: "set (fo_missed ?f) = fst ` set expected - set (map key_text (buckets (field result ''aggregations'') ''rules''))"
  proof -
    have "ru_id (see_rule b expected x) = key_text x" for x by (simp add: see_rule_def Let_def)
    then have "map ru_id (map (see_rule b expected) (buckets (field result ''aggregations'') ''rules'')) =
        map key_text (buckets (field result ''aggregations'') ''rules'')" by simp
    then have "fo_missed ?f = filter (\<lambda>rid. rid \<notin> set (map key_text (buckets (field result ''aggregations'') ''rules''))) (map fst expected)"
      by (simp only: compare_answer_def Let_def found.simps)
    then show ?thesis by auto
  qed
  show ?thesis unfolding rows by (intro conjI ballI det names len missed)
qed

text \<open>
  A SIEM whose search API is plain HTTP and refuses the connection: the error is not one of those the callers of
  the check handle.
\<close>

lemma plain_http_uncaught:
  assumes "normalize_detection_url (column m ''detection_url'') = Inr url" "up_scheme (url_split url) = ''http''"
    "he_peer (de_host env) url = Refused e" "column m ''siem_type'' = ''wazuh''"
  shows "check_detection env m profile names started until = Inl (Uncaught e)"
  using assms by (simp add: check_detection_def BACKENDS_def search_def open_conn_def Let_def)

definition demo_detection_env :: detection_env where
  "demo_detection_env = \<lparr>de_host = \<lparr>he_peer = (\<lambda>u. Peer True []), he_send = (\<lambda>u q. Inl ''down''), he_loads = loads, he_show = (\<lambda>j. []),
     he_enc = (\<lambda>x. x), he_dec = Some\<rparr>, de_iso = (\<lambda>t. Some 0), de_show_time = (\<lambda>t. ''t''), de_now = 0, de_round1 = (\<lambda>x. x), de_b64 = (\<lambda>x. x)\<rparr>"

definition demo_answer :: json where
  "demo_answer = JObject [(''aggregations'', JObject [(''hosts'', JObject [(''buckets'', JArray
     [JObject [(''key'', JText ''WEB-1''), (''doc_count'', JInt 4), (''rules'', JObject [(''buckets'', JArray
        [JObject [(''key'', JText ''31103''), (''doc_count'', JInt 4), (''first'', JObject [(''value'', JInt 5000)])]])])]])])])]"

theorem detection_exact_witness:
  "fo_rows (compare_answer demo_detection_env ''wazuh'' (the (map_of BACKENDS ''wazuh'')) (expected_rules ''wazuh'' ''web_attacks'')
     [''web-1'', ''web-2''] 0 ''u'' demo_answer) =
     [\<lparr>tg_name = ''web-1'', tg_alerts = 4, tg_detected = True, tg_first = Some 5000000, tg_ttd = Some 5\<rparr>, new_target ''web-2''] \<and>
   set (fo_missed (compare_answer demo_detection_env ''wazuh'' (the (map_of BACKENDS ''wazuh'')) (expected_rules ''wazuh'' ''web_attacks'')
     [''web-1'', ''web-2''] 0 ''u'' demo_answer)) = {''31103'', ''31104'', ''31105''}"
proof -
  have n: "distinct (map py_lower [''web-1'', ''web-2''])" by code_simp
  have r: "fo_rows (compare_answer demo_detection_env ''wazuh'' (the (map_of BACKENDS ''wazuh'')) (expected_rules ''wazuh'' ''web_attacks'')
     [''web-1'', ''web-2''] 0 ''u'' demo_answer) =
     [\<lparr>tg_name = ''web-1'', tg_alerts = 4, tg_detected = True, tg_first = Some 5000000, tg_ttd = Some 5\<rparr>, new_target ''web-2'']"
    by code_simp
  have e: "fst ` set (expected_rules ''wazuh'' ''web_attacks'') - set (map key_text (buckets (field demo_answer ''aggregations'') ''rules'')) =
      {''31103'', ''31104'', ''31105''}" by code_simp
  show ?thesis using detection_exact [OF n, where env = demo_detection_env and siem = "''wazuh''" and b = "the (map_of BACKENDS ''wazuh'')"
      and expected = "expected_rules ''wazuh'' ''web_attacks''" and start = 0 and until = "''u''" and result = demo_answer] r e by simp
qed

end
