(* ===== verification/Sql.thy ===== *)
theory Sql
  imports Prelude
begin

text \<open>
  SQLite as the migrations use it: tables with their columns, keys and rows, indexes and triggers, the version
  number of the file (\<open>PRAGMA user_version\<close>), and the statements they run. A statement gives an error, and
  changes nothing then, or the new database. Left out are collations, foreign keys and the text of triggers, which
  no statement of a migration depends on. \<open>AUTOINCREMENT\<close> counts from the largest id present.
\<close>

section \<open>Tables\<close>

datatype sql_value = SNull | SInt int | SText string

type_synonym sql_row = "(string \<times> sql_value) list"

record sql_column =
  co_name :: string
  co_default :: sql_value
  co_required :: bool
  co_auto :: bool

record sql_table =
  tb_columns :: "sql_column list"
  tb_keys :: "string list list"
  tb_rows :: "sql_row list"

record sql_index =
  ix_name :: string
  ix_table :: string
  ix_columns :: "string list"
  ix_unique :: bool

record database =
  db_version :: nat
  db_tables :: "(string \<times> sql_table) list"
  db_indexes :: "sql_index list"
  db_triggers :: "(string \<times> string) list"

type_synonym statement = "database \<Rightarrow> string + database"

definition EMPTY_DB :: database where
  "EMPTY_DB = \<lparr>db_version = 0, db_tables = [], db_indexes = [], db_triggers = []\<rparr>"

text \<open>Columns: of plain type, \<open>NOT NULL\<close>, with a default, and \<open>INTEGER PRIMARY KEY AUTOINCREMENT\<close>.\<close>

definition col :: "string \<Rightarrow> sql_column" where
  "col n = \<lparr>co_name = n, co_default = SNull, co_required = False, co_auto = False\<rparr>"

definition col_required :: "string \<Rightarrow> sql_column" where
  "col_required n = (col n)\<lparr>co_required := True\<rparr>"

definition col_default :: "string \<Rightarrow> sql_value \<Rightarrow> sql_column" where
  "col_default n v = (col n)\<lparr>co_default := v\<rparr>"

definition col_auto :: "string \<Rightarrow> sql_column" where
  "col_auto n = (col n)\<lparr>co_auto := True\<rparr>"

definition val_of :: "sql_row \<Rightarrow> string \<Rightarrow> sql_value" where
  "val_of r c = (case map_of r c of Some v \<Rightarrow> v | None \<Rightarrow> SNull)"

definition set_cells :: "(string \<times> sql_value) list \<Rightarrow> sql_row \<Rightarrow> sql_row" where
  "set_cells kvs r = map (\<lambda>(c, v). (c, case map_of kvs c of Some w \<Rightarrow> w | None \<Rightarrow> v)) r"

definition rows_of :: "database \<Rightarrow> string \<Rightarrow> sql_row list" where
  "rows_of db t = (case map_of (db_tables db) t of Some x \<Rightarrow> tb_rows x | None \<Rightarrow> [])"

definition columns_of :: "database \<Rightarrow> string \<Rightarrow> string list" where
  "columns_of db t = (case map_of (db_tables db) t of Some x \<Rightarrow> map co_name (tb_columns x) | None \<Rightarrow> [])"

definition has_table :: "database \<Rightarrow> string \<Rightarrow> bool" where
  "has_table db t = (t \<in> set (map fst (db_tables db)))"

section \<open>Statements\<close>

definition with_table :: "string \<Rightarrow> (sql_table \<Rightarrow> string + sql_table) \<Rightarrow> statement" where
  "with_table n f db = (case map_of (db_tables db) n of
     None \<Rightarrow> Inl (''no such table: '' @ n)
   | Some t \<Rightarrow> (case f t of Inl e \<Rightarrow> Inl e | Inr t' \<Rightarrow> Inr (db\<lparr>db_tables := AList.update n t' (db_tables db)\<rparr>)))"

definition create_table :: "string \<Rightarrow> sql_column list \<Rightarrow> string list list \<Rightarrow> statement" where
  "create_table n cs keys db =
     (if has_table db n then Inl (''table '' @ n @ '' already exists'')
      else Inr (db\<lparr>db_tables := db_tables db @ [(n, \<lparr>tb_columns = cs, tb_keys = keys, tb_rows = []\<rparr>)]\<rparr>))"

definition create_missing :: "string \<Rightarrow> sql_column list \<Rightarrow> string list list \<Rightarrow> statement" where
  "create_missing n cs keys db = (if has_table db n then Inr db else create_table n cs keys db)"

definition drop_table :: "string \<Rightarrow> statement" where
  "drop_table n db =
     (if \<not> has_table db n then Inl (''no such table: '' @ n)
      else Inr (db\<lparr>db_tables := AList.delete n (db_tables db), db_indexes := filter (\<lambda>i. ix_table i \<noteq> n) (db_indexes db),
                   db_triggers := filter (\<lambda>(g, t). t \<noteq> n) (db_triggers db)\<rparr>))"

definition add_column :: "string \<Rightarrow> sql_column \<Rightarrow> statement" where
  "add_column n c = with_table n (\<lambda>t.
     if co_name c \<in> set (map co_name (tb_columns t)) then Inl (''duplicate column name: '' @ co_name c)
     else if co_required c \<and> co_default c = SNull then Inl ''Cannot add a NOT NULL column with default value NULL''
     else Inr (t\<lparr>tb_columns := tb_columns t @ [c], tb_rows := map (\<lambda>r. r @ [(co_name c, co_default c)]) (tb_rows t)\<rparr>))"

definition drop_column :: "string \<Rightarrow> string \<Rightarrow> statement" where
  "drop_column n c db = with_table n (\<lambda>t.
     if c \<notin> set (map co_name (tb_columns t)) then Inl (''no such column: '' @ c)
     else if c \<in> set (concat (tb_keys t)) then Inl (''cannot drop UNIQUE column: '' @ c)
     else if \<exists>i\<in>set (db_indexes db). ix_table i = n \<and> c \<in> set (ix_columns i) then Inl (''error after drop column: no such column: '' @ c)
     else Inr (t\<lparr>tb_columns := filter (\<lambda>x. co_name x \<noteq> c) (tb_columns t), tb_rows := map (AList.delete c) (tb_rows t)\<rparr>)) db"

text \<open>Two rows agree on a key when no column of it is NULL and all are equal.\<close>

definition agrees :: "string list \<Rightarrow> sql_row \<Rightarrow> sql_row \<Rightarrow> bool" where
  "agrees cs a b = list_all (\<lambda>c. val_of a c \<noteq> SNull \<and> val_of a c = val_of b c) cs"

fun all_differ :: "string list \<Rightarrow> sql_row list \<Rightarrow> bool" where
  "all_differ cs [] = True"
| "all_differ cs (r # rs) = (list_all (\<lambda>x. \<not> agrees cs r x) rs \<and> all_differ cs rs)"

definition create_index :: "bool \<Rightarrow> bool \<Rightarrow> string \<Rightarrow> string \<Rightarrow> string list \<Rightarrow> statement" where
  "create_index if_missing unique i n cs db =
     (if i \<in> set (map ix_name (db_indexes db)) then (if if_missing then Inr db else Inl (''index '' @ i @ '' already exists''))
      else if \<not> has_table db n then Inl (''no such table: '' @ n)
      else if \<not> set cs \<subseteq> set (columns_of db n) then Inl ''no such column''
      else if unique \<and> \<not> all_differ cs (rows_of db n) then Inl ''UNIQUE constraint failed''
      else Inr (db\<lparr>db_indexes := db_indexes db @ [\<lparr>ix_name = i, ix_table = n, ix_columns = cs, ix_unique = unique\<rparr>]\<rparr>))"

definition create_trigger :: "string \<Rightarrow> string \<Rightarrow> statement" where
  "create_trigger g n db =
     (if g \<in> set (map fst (db_triggers db)) then Inl (''trigger '' @ g @ '' already exists'')
      else if \<not> has_table db n then Inl (''no such table: '' @ n)
      else Inr (db\<lparr>db_triggers := db_triggers db @ [(g, n)]\<rparr>))"

definition next_id :: "string \<Rightarrow> sql_row list \<Rightarrow> int" where
  "next_id c rows = foldl (\<lambda>m r. case val_of r c of SInt i \<Rightarrow> max m i | _ \<Rightarrow> m) 0 rows + 1"

definition full_row :: "sql_table \<Rightarrow> (string \<times> sql_value) list \<Rightarrow> sql_row" where
  "full_row t vals = map (\<lambda>c. (co_name c, case map_of vals (co_name c) of Some v \<Rightarrow> v
     | None \<Rightarrow> if co_auto c then SInt (next_id (co_name c) (tb_rows t)) else co_default c)) (tb_columns t)"

definition unique_keys :: "string \<Rightarrow> database \<Rightarrow> string list list" where
  "unique_keys n db = (case map_of (db_tables db) n of Some t \<Rightarrow> tb_keys t | None \<Rightarrow> []) @
     map ix_columns (filter (\<lambda>i. ix_unique i \<and> ix_table i = n) (db_indexes db))"

definition insert_row :: "string \<Rightarrow> (string \<times> sql_value) list \<Rightarrow> statement" where
  "insert_row n vals db = with_table n (\<lambda>t. let r = full_row t vals in
     if \<not> set (map fst vals) \<subseteq> set (map co_name (tb_columns t)) then Inl ''no such column''
     else if \<exists>c\<in>set (tb_columns t). co_required c \<and> val_of r (co_name c) = SNull then Inl ''NOT NULL constraint failed''
     else if \<exists>k\<in>set (unique_keys n db). \<exists>x\<in>set (tb_rows t). agrees k r x then Inl ''UNIQUE constraint failed''
     else Inr (t\<lparr>tb_rows := tb_rows t @ [r]\<rparr>)) db"

text \<open>Conditions and new values may depend on the whole table; no statement here changes a key.\<close>

definition update_rows :: "string \<Rightarrow> (sql_row list \<Rightarrow> sql_row \<Rightarrow> bool) \<Rightarrow> (string \<times> sql_value) list \<Rightarrow> statement" where
  "update_rows n P kvs = with_table n (\<lambda>t.
     if \<not> set (map fst kvs) \<subseteq> set (map co_name (tb_columns t)) then Inl ''no such column''
     else Inr (t\<lparr>tb_rows := sql_update (P (tb_rows t)) (set_cells kvs) (tb_rows t)\<rparr>))"

definition delete_rows :: "string \<Rightarrow> (sql_row \<Rightarrow> bool) \<Rightarrow> statement" where
  "delete_rows n P = with_table n (\<lambda>t. Inr (t\<lparr>tb_rows := sql_delete P (tb_rows t)\<rparr>))"

text \<open>One after the other up to the first error, and \<open>contextlib.suppress\<close>.\<close>

fun run_all :: "statement list \<Rightarrow> statement" where
  "run_all [] db = Inr db"
| "run_all (f # fs) db = (case f db of Inl e \<Rightarrow> Inl e | Inr db' \<Rightarrow> run_all fs db')"

definition suppress :: "statement \<Rightarrow> statement" where
  "suppress f db = (case f db of Inl e \<Rightarrow> Inr db | Inr db' \<Rightarrow> Inr db')"

section \<open>Facts\<close>

lemma run_all_append: "run_all (fs @ gs) db = (case run_all fs db of Inl e \<Rightarrow> Inl e | Inr db' \<Rightarrow> run_all gs db')"
  by (induction fs arbitrary: db) (auto split: sum.splits)

lemma lookup_set_cells: "map_of (set_cells kvs r) c = (case map_of r c of None \<Rightarrow> None
    | Some v \<Rightarrow> Some (case map_of kvs c of Some w \<Rightarrow> w | None \<Rightarrow> v))"
  by (induction r) (auto simp: set_cells_def split: option.splits)

lemma keys_set_cells [simp]: "map fst (set_cells kvs r) = map fst r"
  by (induction r) (auto simp: set_cells_def)

lemma val_of_set_cells: "c \<in> set (map fst r) \<Longrightarrow> val_of (set_cells kvs r) c = (case map_of kvs c of Some w \<Rightarrow> w | None \<Rightarrow> val_of r c)"
  by (auto simp: val_of_def lookup_set_cells split: option.splits dest: map_of_eq_None_iff [THEN iffD1])

lemma val_of_set_cells_other: "map_of kvs c = None \<Longrightarrow> val_of (set_cells kvs r) c = val_of r c"
  by (simp add: val_of_def lookup_set_cells split: option.splits)

lemma with_table_Inr:
  "with_table n f db = Inr db' \<longleftrightarrow> (\<exists>t t'. map_of (db_tables db) n = Some t \<and> f t = Inr t' \<and> db' = db\<lparr>db_tables := AList.update n t' (db_tables db)\<rparr>)"
  by (auto simp: with_table_def split: option.splits sum.splits)

lemma map_of_update_table: "map_of (AList.update n t ts) m = (if m = n then Some t else map_of ts m)"
  by (simp add: update_conv)

lemma map_of_delete_table: "map_of (AList.delete n ts) m = (if m = n then None else map_of ts m)"
  by (simp add: delete_conv)

lemma keys_full_row: "map fst (full_row t vals) = map co_name (tb_columns t)"
  by (simp add: full_row_def comp_def)

lemma val_of_full_row:
  assumes "c \<in> set (tb_columns t)" "distinct (map co_name (tb_columns t))"
  shows "val_of (full_row t vals) (co_name c) = (case map_of vals (co_name c) of Some v \<Rightarrow> v
     | None \<Rightarrow> if co_auto c then SInt (next_id (co_name c) (tb_rows t)) else co_default c)"
proof -
  have "(co_name c, case map_of vals (co_name c) of Some v \<Rightarrow> v
     | None \<Rightarrow> if co_auto c then SInt (next_id (co_name c) (tb_rows t)) else co_default c) \<in> set (full_row t vals)"
    using assms(1) by (auto simp: full_row_def)
  moreover have "distinct (map fst (full_row t vals))" using assms(2) by (simp add: keys_full_row)
  ultimately show ?thesis by (simp add: val_of_def map_of_eq_Some_iff [THEN iffD2])
qed

end
