(* ===== verification/Schema.thy ===== *)
theory Schema
  imports Sql Audit_Trail Json_Text Hosts
begin

text \<open>
  The migrations \<^verbatim>\<open>migrations/v0001\<close> to \<^verbatim>\<open>v0010\<close>, each \<open>up\<close> and, where it exists, \<open>down\<close>, as lists of the statements
  they run. \<open>mig_env\<close> holds the clock, \<open>uuid4\<close> (by the number of the call), SHA-256, the canonical text of details,
  \<open>str()\<close> of a JSON value, and the activity files of earlier versions in order (\<open>None\<close>: could not be read). In those
  files user, token and request id are texts or null.
\<close>

record mig_env =
  mi_now :: string
  mi_uuid :: "nat \<Rightarrow> string"
  mi_sha :: "string \<Rightarrow> string"
  mi_canon :: "json \<Rightarrow> string"
  mi_show :: "json \<Rightarrow> string"
  mi_files :: "string option list"

section \<open>The baseline\<close>

definition BASE_TABLES :: "(string \<times> sql_column list \<times> string list list) list" where
  "BASE_TABLES = [
    (''meta'', [col ''key'', col_required ''value''], [[''key'']]),
    (''agents'', [col ''agent_name'', col_required ''seq_id''] @ map col [''siem_type'', ''siem_ip'', ''siem_version'', ''agent_group'',
       ''os_type'', ''config_template_id'', ''lifecycle_status'', ''state'', ''init_pid'', ''ip_addresses'', ''siem_agent_status'',
       ''siem_agent_running'', ''siem_agent_last_check'', ''manager_host'', ''manager_port'', ''manager_status'',
       ''manager_reachable'', ''created_at'', ''updated_at'', ''deleted_at''], [[''agent_name''], [''seq_id'']]),
    (''groups'', map col [''name'', ''description'', ''created_at'', ''updated_at''], [[''name'']]),
    (''managers'', [col ''manager_id'', col_required ''name'', col ''description'', col_required ''siem_type'', col ''siem_ip'',
       col ''siem_version'', col ''siem_auth_key'', col_default ''os_type'' (SText ''ubuntu_22_04''),
       col_default ''agent_group'' (SText ''default''), col_default ''memory_limit'' (SText ''512MB''),
       col_default ''cpu_shares'' (SInt 1024), col ''config_template_id'', col ''created_at'', col ''updated_at''],
       [[''manager_id''], [''name'']]),
    (''syslog_configs'', [col ''config_id'', col_required ''name'', col ''description'', col ''manager_profile_id'',
       col_required ''target_ip'', col_default ''target_port'' (SInt 514), col_default ''protocol'' (SText ''tcp''), col ''siem_type'',
       col_default ''enabled'' (SInt 1), col ''created_at'', col ''updated_at''], [[''config_id''], [''name'']]),
    (''metrics'', [col_auto ''id'', col_required ''metric_type'', col_required ''metric_name'', col_required ''value'', col ''tags'',
       col_required ''recorded_at''], [[''id'']]),
    (''benchmarks'', [col ''benchmark_id'', col_required ''scenario_id'', col ''name'', col_default ''siem_type'' (SText ''none''),
       col_default ''status'' (SText ''pending''), col ''config'', col ''phases'', col_default ''current_phase'' (SInt 0), col ''results'',
       col ''started_at'', col ''completed_at'', col ''created_at''], [[''benchmark_id'']]),
    (''benchmark_metrics'', [col_auto ''id'', col_required ''benchmark_id'', col_default ''phase'' (SInt 0), col_required ''category'',
       col_required ''metric_name'', col_required ''value'', col ''tags'', col_required ''recorded_at''], [[''id'']]),
    (''benchmark_bottlenecks'', [col_auto ''id'', col_required ''benchmark_id'', col_default ''phase'' (SInt 0), col_required ''severity'',
       col_required ''component'', col_required ''title'', col ''description'', col ''threshold'', col ''actual_value'',
       col ''recommendation'', col ''first_seen'', col_default ''occurrences'' (SInt 1)], [[''id'']]),
    (''users'', [col_auto ''id'', col_required ''username'', col_required ''password_hash'',
       (col_required ''is_admin'')\<lparr>co_default := SInt 0\<rparr>, (col_required ''role'')\<lparr>co_default := SText ''operator''\<rparr>,
       col_required ''created_at'', col ''last_login_at''], [[''id''], [''username'']]),
    (''sessions'', [col ''token_hash'', col_required ''user_id'', col_required ''created_at'', col_required ''expires_at''],
       [[''token_hash'']])]"

definition BASE_INDEXES :: "(string \<times> string \<times> string) list" where
  "BASE_INDEXES = [(''idx_sessions_expires'', ''sessions'', ''expires_at''), (''idx_bm_metrics_bid'', ''benchmark_metrics'', ''benchmark_id''),
    (''idx_bm_metrics_time'', ''benchmark_metrics'', ''recorded_at''), (''idx_bm_bottlenecks_bid'', ''benchmark_bottlenecks'', ''benchmark_id''),
    (''idx_metrics_type'', ''metrics'', ''metric_type''), (''idx_metrics_time'', ''metrics'', ''recorded_at''),
    (''idx_agents_seq_id'', ''agents'', ''seq_id''), (''idx_agents_siem_type'', ''agents'', ''siem_type''),
    (''idx_agents_group'', ''agents'', ''agent_group'')]"

definition LATER_COLUMNS :: "(string \<times> sql_column) list" where
  "LATER_COLUMNS = [(''benchmarks'', col_default ''siem_type'' (SText ''none'')),
    (''users'', (col_required ''is_admin'')\<lparr>co_default := SInt 0\<rparr>), (''users'', (col_required ''role'')\<lparr>co_default := SText ''operator''\<rparr>),
    (''sessions'', col ''ip''), (''sessions'', col ''user_agent''), (''sessions'', col ''last_seen_at''),
    (''users'', col ''totp_secret''), (''users'', (col_required ''totp_enabled'')\<lparr>co_default := SInt 0\<rparr>),
    (''users'', col ''totp_last_step''), (''users'', col ''recovery_codes''), (''users'', col ''oidc_subject'')]"

definition HISTORY_COLUMNS :: "sql_column list" where
  "HISTORY_COLUMNS = col_auto ''id'' # map col_required [''version'', ''name'', ''direction'', ''app_version'', ''applied_at'']"

definition lowest_id :: "sql_row list \<Rightarrow> sql_row \<Rightarrow> bool" where
  "lowest_id rows r = (case val_of r ''id'' of
     SInt i \<Rightarrow> list_all (\<lambda>x. case val_of x ''id'' of SInt j \<Rightarrow> i \<le> j | _ \<Rightarrow> True) rows | _ \<Rightarrow> False)"

definition is_admin_row :: "sql_row \<Rightarrow> bool" where
  "is_admin_row r = (val_of r ''is_admin'' = SInt 1)"

definition up_baseline :: statement where
  "up_baseline = run_all (
     map (\<lambda>(n, cs, ks). create_missing n cs ks) BASE_TABLES @
     map (\<lambda>(i, n, c). create_index True False i n [c]) BASE_INDEXES @
     map (\<lambda>(n, c). suppress (add_column n c)) LATER_COLUMNS @
     [create_index True True ''idx_users_oidc_subject'' ''users'' [''oidc_subject''],
      update_rows ''users'' (\<lambda>rows r. lowest_id rows r \<and> \<not> list_ex is_admin_row rows) [(''is_admin'', SInt 1)],
      update_rows ''users'' (\<lambda>rows r. is_admin_row r \<and> val_of r ''role'' \<noteq> SText ''admin'') [(''role'', SText ''admin'')],
      create_missing ''schema_history'' HISTORY_COLUMNS [[''id'']]])"

section \<open>Records, tokens, audit trail, notifications, teams, hosts\<close>

definition up_records :: statement where
  "up_records = run_all [
     create_table ''records'' [col_required ''kind'', col_required ''id'', col ''status'', col_required ''data'',
       col_required ''created_at'', col_required ''updated_at''] [[''kind'', ''id'']],
     create_index False False ''idx_records_kind_updated'' ''records'' [''kind'', ''updated_at'']]"

definition up_api_tokens :: statement where
  "up_api_tokens = run_all [
     create_table ''api_tokens'' ([col_auto ''id''] @ map col_required [''user_id'', ''name'', ''token_hash'', ''prefix'', ''role'', ''created_at''] @
       map col [''expires_at'', ''last_used_at'', ''last_used_ip'']) [[''id''], [''token_hash'']],
     create_index False False ''idx_api_tokens_user'' ''api_tokens'' [''user_id'']]"

definition opt_value :: "string option \<Rightarrow> sql_value" where
  "opt_value v = (case v of None \<Rightarrow> SNull | Some s \<Rightarrow> SText s)"

definition value_opt :: "sql_value \<Rightarrow> string option" where
  "value_opt v = (case v of SText s \<Rightarrow> Some s | _ \<Rightarrow> None)"

definition text_value :: "sql_value \<Rightarrow> string" where
  "text_value v = (case v of SText s \<Rightarrow> s | _ \<Rightarrow> [])"

definition nat_value :: "sql_value \<Rightarrow> nat" where
  "nat_value v = (case v of SInt i \<Rightarrow> nat i | _ \<Rightarrow> 0)"

text \<open>A row of \<open>audit_log\<close> as a row of the table, and back; the trail with its anchor, as \<open>services/audit.py\<close> reads it.\<close>

definition audit_cells :: "audit_row \<Rightarrow> sql_row" where
  "audit_cells r = [(''id'', SInt (int (al_id r))), (''ts'', SText (al_ts r)), (''action'', SText (al_action r)), (''status'', SText (al_status r)),
     (''username'', opt_value (al_user r)), (''token'', opt_value (al_token r)), (''ip'', opt_value (al_ip r)),
     (''request_id'', opt_value (al_request r)), (''details'', SText (al_details r)), (''prev_hash'', SText (al_prev r)),
     (''hash'', SText (al_hash r))]"

definition audit_of_cells :: "sql_row \<Rightarrow> audit_row" where
  "audit_of_cells c = \<lparr>al_id = nat_value (val_of c ''id''), al_ts = text_value (val_of c ''ts''), al_action = text_value (val_of c ''action''),
     al_status = text_value (val_of c ''status''), al_user = value_opt (val_of c ''username''), al_token = value_opt (val_of c ''token''),
     al_ip = value_opt (val_of c ''ip''), al_request = value_opt (val_of c ''request_id''), al_details = text_value (val_of c ''details''),
     al_prev = text_value (val_of c ''prev_hash''), al_hash = text_value (val_of c ''hash'')\<rparr>"

definition meta_value :: "database \<Rightarrow> string \<Rightarrow> string option" where
  "meta_value db k = (case fetchone (\<lambda>r. val_of r ''key'' = SText k) (rows_of db ''meta'') of
     Some r \<Rightarrow> value_opt (val_of r ''value'') | None \<Rightarrow> None)"

definition audit_view :: "database \<Rightarrow> audit_db" where
  "audit_view db = \<lparr>trail = map audit_of_cells (rows_of db ''audit_log''),
     anchor = (case meta_value db ''audit_anchor_id'' of Some s \<Rightarrow> nat_val s | None \<Rightarrow> 0,
               case meta_value db ''audit_anchor_hash'' of Some s \<Rightarrow> s | None \<Rightarrow> GENESIS)\<rparr>"

definition opt_text :: "json \<Rightarrow> string option" where
  "opt_text v = (case v of JText s \<Rightarrow> Some s | _ \<Rightarrow> None)"

definition get_or :: "json \<Rightarrow> string \<Rightarrow> json \<Rightarrow> json" where
  "get_or e k d = (if has_field e k then field e k else d)"

definition import_entry :: "mig_env \<Rightarrow> json \<Rightarrow> statement" where
  "import_entry env e db =
     (let details = mi_canon env (if is_object (field e ''details'') then field e ''details'' else JObject [(''value'', field e ''details'')]);
          a = fst (append_entry (mi_sha env) (mi_show env (get_or e ''timestamp'' (JText []))) (mi_show env (field e ''action''))
            (mi_show env (get_or e ''status'' (JText ''success''))) (opt_text (field e ''user'')) (opt_text (field e ''token'')) None
            (opt_text (field e ''request_id'')) details (audit_view db))
      in insert_row ''audit_log'' (audit_cells (last (trail a))) db)"

text \<open>The lines of a file that hold an entry.\<close>

definition entry_of_line :: "string \<Rightarrow> json option" where
  "entry_of_line line = (let l = py_strip line in
     if l \<noteq> [] \<and> hd l = CHR ''{'' \<and> last l = CHR ''}'' then
       (case loads l of Some e \<Rightarrow> if is_object e \<and> \<not> falsy (field e ''action'') then Some e else None | None \<Rightarrow> None)
     else None)"

definition activity_entries :: "mig_env \<Rightarrow> json list" where
  "activity_entries env =
     concat (map (\<lambda>f. case f of None \<Rightarrow> [] | Some text \<Rightarrow> List.map_filter entry_of_line (splitlines text)) (mi_files env))"

definition import_activity_files :: "mig_env \<Rightarrow> statement" where
  "import_activity_files env = run_all (map (import_entry env) (activity_entries env))"

definition AUDIT_COLUMNS :: "sql_column list" where
  "AUDIT_COLUMNS = [col ''id'', col_required ''ts'', col_required ''action'', col_required ''status''] @
     map col [''username'', ''token'', ''ip'', ''request_id''] @ map col_required [''details'', ''prev_hash'', ''hash'']"

definition up_audit_log :: "mig_env \<Rightarrow> statement" where
  "up_audit_log env = run_all [
     create_table ''audit_log'' AUDIT_COLUMNS [[''id'']],
     create_index False False ''idx_audit_ts'' ''audit_log'' [''ts''],
     create_index False False ''idx_audit_user_ts'' ''audit_log'' [''username'', ''ts''],
     create_index False False ''idx_audit_action_ts'' ''audit_log'' [''action'', ''ts''],
     create_trigger ''audit_log_no_update'' ''audit_log'',
     import_activity_files env]"

definition down_audit_log :: statement where
  "down_audit_log = run_all [drop_table ''audit_log'',
     delete_rows ''meta'' (\<lambda>r. val_of r ''key'' \<in> {SText ''audit_anchor_id'', SText ''audit_anchor_hash''})]"

definition up_notifications :: statement where
  "up_notifications = create_table ''notification_channels'' ([col_auto ''id''] @ map col_required [''name'', ''type'', ''config'', ''events''] @
     [(col_required ''only_problems'')\<lparr>co_default := SInt 0\<rparr>, (col_required ''enabled'')\<lparr>co_default := SInt 1\<rparr>, col_required ''created_at'',
      col_required ''updated_at''] @ map col [''last_sent_at'', ''last_status'', ''last_error'']) [[''id''], [''name'']]"

definition up_teams :: statement where
  "up_teams = run_all [
     create_table ''teams'' [col_auto ''id'', col_required ''name'', col ''description'', col ''max_containers'', col_required ''created_at'']
       [[''id''], [''name'']],
     add_column ''users'' (col ''team_id''), add_column ''users'' (col ''max_containers''),
     create_table ''container_owners'' [col ''name'', col ''team_id'', col ''owner_id'', col_required ''created_at''] [[''name'']],
     create_index False False ''idx_container_owners_team'' ''container_owners'' [''team_id''],
     create_index False False ''idx_container_owners_owner'' ''container_owners'' [''owner_id'']]"

definition up_hosts :: statement where
  "up_hosts = create_table ''hosts'' ([col_auto ''id''] @ map col_required [''name'', ''url'', ''token''] @ map col [''fingerprint'', ''team_id''] @
     [col_required ''created_at''] @ map col [''last_checked_at'', ''last_status'', ''last_error'', ''version'']) [[''id''], [''name'']]"

definition DETECTION_COLUMNS :: "string list" where
  "DETECTION_COLUMNS = [''detection_url'', ''detection_username'', ''detection_secret'', ''detection_fingerprint'']"

definition up_detection_api :: statement where
  "up_detection_api = run_all (map (\<lambda>c. add_column ''managers'' (col c)) DETECTION_COLUMNS)"

definition down_detection_api :: statement where
  "down_detection_api = run_all (map (drop_column ''managers'') (rev DETECTION_COLUMNS))"

section \<open>Syslog targets\<close>

text \<open>\<open>ORDER BY created_at, name\<close>: NULL comes first.\<close>

definition order_key :: "sql_value \<Rightarrow> string" where
  "order_key v = (case v of SText s \<Rightarrow> CHR 0x00 # s | _ \<Rightarrow> [])"

definition config_order :: "sql_row list \<Rightarrow> sql_row list" where
  "config_order rows = sort_key (\<lambda>r. order_key (val_of r ''created_at'')) (sort_key (\<lambda>r. order_key (val_of r ''name'')) rows)"

definition name_candidate :: "string \<Rightarrow> nat \<Rightarrow> string" where
  "name_candidate name n = (if n = 1 then name else if n = 2 then name @ '' (syslog)'' else name @ '' (syslog '' @ nat_str (n - 1) @ '')'')"

lemma name_candidate_inj: "0 < m \<Longrightarrow> 0 < n \<Longrightarrow> name_candidate name m = name_candidate name n \<Longrightarrow> m = n"
proof -
  have d: "nat_str a \<noteq> []" "CHR '')'' \<notin> set (nat_str a)" for a using nat_str_digits [of "CHR '')''" a] by (auto simp: ascii_digit_def cp_def)
  have "nat_str a = nat_str b \<longleftrightarrow> a = b" for a b by (metis nat_val_nat_str)
  then show "0 < m \<Longrightarrow> 0 < n \<Longrightarrow> name_candidate name m = name_candidate name n \<Longrightarrow> m = n"
    using d by (auto simp: name_candidate_def split: if_splits)
qed

function unique_from :: "string list \<Rightarrow> string \<Rightarrow> nat \<Rightarrow> string" where
  "unique_from taken name n = (if name_candidate name (Suc n) \<in> set taken then unique_from taken name (Suc n) else name_candidate name (Suc n))"
  by pat_completeness auto
termination
proof (relation "measure (\<lambda>(taken, name, n). card {k. n \<le> k \<and> name_candidate name (Suc k) \<in> set taken})", goal_cases)
  case (2 taken name n)
  let ?K = "\<lambda>n. {k. n \<le> k \<and> name_candidate name (Suc k) \<in> set taken}"
  have "inj (\<lambda>k. name_candidate name (Suc k))" using name_candidate_inj [of "Suc _" "Suc _" name] by (auto intro!: injI)
  then have "finite ((\<lambda>k. name_candidate name (Suc k)) -` set taken)" by (intro finite_vimageI) auto
  then have "finite (?K n)" by (rule rev_finite_subset) auto
  moreover have "n \<in> ?K n" "n \<notin> ?K (Suc n)" "?K (Suc n) \<subseteq> ?K n" using 2 by auto
  then have "?K (Suc n) \<subset> ?K n" by blast
  ultimately show ?case by (simp add: psubset_card_mono)
qed simp

declare unique_from.simps [simp del]

lemma unique_from_fresh: "unique_from taken name n \<notin> set taken"
  by (induction taken name n rule: unique_from.induct) (simp add: unique_from.simps)

text \<open>The first candidate is the name itself.\<close>

definition unique_name :: "database \<Rightarrow> string \<Rightarrow> string" where
  "unique_name db name = unique_from (map (\<lambda>r. text_value (val_of r ''name'')) (rows_of db ''managers'')) name 0"

definition no_value :: "sql_value \<Rightarrow> bool" where
  "no_value v = (v \<in> {SNull, SInt 0, SText []})"

definition target_port :: "sql_row \<Rightarrow> sql_value" where
  "target_port r = (if no_value (val_of r ''target_port'') then SInt 514 else val_of r ''target_port'')"

definition target_protocol :: "sql_row \<Rightarrow> sql_value" where
  "target_protocol r = SText (py_lower (if no_value (val_of r ''protocol'') then ''tcp'' else text_value (val_of r ''protocol'')))"

definition linked_profile :: "database \<Rightarrow> sql_row \<Rightarrow> sql_row option" where
  "linked_profile db r = (if no_value (val_of r ''manager_profile_id'') then None
     else fetchone (\<lambda>m. val_of m ''manager_id'' = val_of r ''manager_profile_id'') (rows_of db ''managers''))"

definition takes_target :: "sql_row \<Rightarrow> sql_row \<Rightarrow> bool" where
  "takes_target m r = (val_of m ''syslog_port'' = SNull \<and> (no_value (val_of m ''siem_ip'') \<or> val_of m ''siem_ip'' = val_of r ''target_ip''))"

definition move_config :: "mig_env \<Rightarrow> nat \<times> sql_row \<Rightarrow> statement" where
  "move_config env ir db = (case ir of (i, r) \<Rightarrow>
     if (case linked_profile db r of Some m \<Rightarrow> takes_target m r | None \<Rightarrow> False) then
       update_rows ''managers'' (\<lambda>rows m. val_of m ''manager_id'' = val_of r ''manager_profile_id'')
         [(''siem_ip'', val_of r ''target_ip''), (''syslog_port'', target_port r), (''syslog_protocol'', target_protocol r),
          (''updated_at'', SText (mi_now env))] db
     else insert_row ''managers'' [(''manager_id'', SText (mi_uuid env i)), (''name'', SText (unique_name db (text_value (val_of r ''name'')))),
       (''description'', if no_value (val_of r ''description'') then SText ''Syslog destination'' else val_of r ''description''),
       (''siem_type'', SText ''none''), (''siem_ip'', val_of r ''target_ip''), (''syslog_port'', target_port r),
       (''syslog_protocol'', target_protocol r),
       (''created_at'', if no_value (val_of r ''created_at'') then SText (mi_now env) else val_of r ''created_at''),
       (''updated_at'', SText (mi_now env))] db)"

definition move_configs :: "mig_env \<Rightarrow> statement" where
  "move_configs env db = run_all (map (move_config env) (List.enumerate 0 (config_order (rows_of db ''syslog_configs'')))) db"

definition up_syslog_targets :: "mig_env \<Rightarrow> statement" where
  "up_syslog_targets env = run_all [
     add_column ''managers'' (col ''syslog_port''), add_column ''managers'' (col ''syslog_protocol''), add_column ''agents'' (col ''syslog_listener''),
     move_configs env, drop_table ''syslog_configs'']"

definition SYSLOG_CONFIGS :: "sql_column list \<times> string list list" where
  "SYSLOG_CONFIGS = the (map_of BASE_TABLES ''syslog_configs'')"

definition has_target :: "sql_row \<Rightarrow> bool" where
  "has_target m = (val_of m ''syslog_port'' \<noteq> SNull \<and> val_of m ''siem_ip'' \<noteq> SNull \<and> val_of m ''siem_ip'' \<noteq> SText [])"

definition restore_config :: "mig_env \<Rightarrow> nat \<times> sql_row \<Rightarrow> statement" where
  "restore_config env im = (case im of (i, m) \<Rightarrow> insert_row ''syslog_configs'' [(''config_id'', SText (mi_uuid env i)), (''name'', val_of m ''name''),
     (''description'', val_of m ''description''), (''manager_profile_id'', val_of m ''manager_id''), (''target_ip'', val_of m ''siem_ip''),
     (''target_port'', val_of m ''syslog_port''),
     (''protocol'', if no_value (val_of m ''syslog_protocol'') then SText ''tcp'' else val_of m ''syslog_protocol''),
     (''siem_type'', if val_of m ''siem_type'' = SText ''none'' then SNull else val_of m ''siem_type''),
     (''created_at'', SText (mi_now env)), (''updated_at'', SText (mi_now env))])"

definition restore_configs :: "mig_env \<Rightarrow> statement" where
  "restore_configs env db = run_all (map (restore_config env) (List.enumerate 0 (filter has_target (rows_of db ''managers'')))) db"

definition down_syslog_targets :: "mig_env \<Rightarrow> statement" where
  "down_syslog_targets env = run_all [
     create_table ''syslog_configs'' (fst SYSLOG_CONFIGS) (snd SYSLOG_CONFIGS), restore_configs env,
     drop_column ''managers'' ''syslog_protocol'', drop_column ''managers'' ''syslog_port'', drop_column ''agents'' ''syslog_listener'']"

section \<open>Retired images\<close>

definition REPLACED :: "(string \<times> string) list" where
  "REPLACED = [(''ubuntu_20_04'', ''ubuntu_24_04''), (''debian_11'', ''debian_12''), (''centos_8'', ''ubuntu_22_04'')]"

definition up_current_os_images :: statement where
  "up_current_os_images = run_all (map (\<lambda>(old, new). update_rows ''managers'' (\<lambda>rows m. val_of m ''os_type'' = SText old) [(''os_type'', SText new)]) REPLACED)"

section \<open>The list of migrations\<close>

record migration =
  mg_name :: string
  mg_up :: statement
  mg_down :: "statement option"

definition mig :: "string \<Rightarrow> statement \<Rightarrow> statement option \<Rightarrow> migration" where
  "mig n u d = \<lparr>mg_name = n, mg_up = u, mg_down = d\<rparr>"

definition ALL_MIGRATIONS :: "mig_env \<Rightarrow> migration list" where
  "ALL_MIGRATIONS env = [
     mig ''baseline'' up_baseline None,
     mig ''records'' up_records (Some (drop_table ''records'')),
     mig ''api_tokens'' up_api_tokens (Some (drop_table ''api_tokens'')),
     mig ''audit_log'' (up_audit_log env) (Some down_audit_log),
     mig ''notifications'' up_notifications (Some (drop_table ''notification_channels'')),
     mig ''teams'' up_teams None,
     mig ''hosts'' up_hosts (Some (drop_table ''hosts'')),
     mig ''detection_api'' up_detection_api (Some down_detection_api),
     mig ''syslog_targets'' (up_syslog_targets env) (Some (down_syslog_targets env)),
     mig ''current_os_images'' up_current_os_images (Some Inr)]"

end
