(* ===== verification/Migrations.thy ===== *)
theory Migrations
  imports Schema
begin

text \<open>
  \<^verbatim>\<open>migrations/__init__.py\<close>: applying and undoing migrations, backups of the database file, and restoring one. The
  site is the database file, the files of the backup directory and files elsewhere; what a file holds that is not
  a sound database is one of two kinds. A migration and its entry in \<open>schema_history\<close> are one transaction.
\<close>

datatype stored = Sound database | Damaged | Foreign

record db_site =
  ds_db :: "database option"
  ds_backups :: "(string \<times> stored) list"
  ds_files :: "(string \<times> stored) list"

record engine =
  en_migrations :: "migration list"
  en_stem :: string
  en_stamp :: string
  en_now :: string
  en_app :: string

definition KEEP_BACKUPS :: nat where
  "KEEP_BACKUPS = 10"

section \<open>The migrations there are\<close>

text \<open>\<open>^v(\d{4})_(\w+)$\<close> on a module's name.\<close>

definition module_version :: "string \<Rightarrow> nat option" where
  "module_version n = (let ds = take 4 (drop 1 n); rest = drop 6 n in
     if take 1 n = ''v'' \<and> length ds = 4 \<and> list_all ascii_digit ds \<and> take 1 (drop 5 n) = ''_'' \<and> rest \<noteq> [] \<and>
        list_all (\<lambda>c. py_alnum c \<or> c = CHR ''_'') rest then Some (nat_val ds) else None)"

definition all_migrations :: "(string \<times> migration) list \<Rightarrow> string + migration list" where
  "all_migrations modules =
     (let found = List.map_filter (\<lambda>(n, m). map_option (\<lambda>v. (v, m)) (module_version n)) modules; sorted_found = sort_key fst found
      in if map fst sorted_found = [1..<Suc (length found)] then Inr (map snd sorted_found)
         else Inl ''migrations must be numbered 1..n without gaps'')"

definition numbered :: "engine \<Rightarrow> (nat \<times> migration) list" where
  "numbered en = List.enumerate 1 (en_migrations en)"

definition latest_version :: "engine \<Rightarrow> nat" where
  "latest_version en = length (en_migrations en)"

definition current_version :: "db_site \<Rightarrow> nat" where
  "current_version s = (case ds_db s of None \<Rightarrow> 0 | Some d \<Rightarrow> db_version d)"

definition pending :: "engine \<Rightarrow> nat \<Rightarrow> (nat \<times> migration) list" where
  "pending en current = filter (\<lambda>(v, m). current < v) (numbered en)"

section \<open>Backups\<close>

definition list_backups :: "engine \<Rightarrow> db_site \<Rightarrow> string list" where
  "list_backups en s = rev (sort (filter (\<lambda>n. prefix (en_stem en @ ''-'') n \<and> suffix ''.db'' n) (map fst (ds_backups s))))"

definition backup_name :: "engine \<Rightarrow> string \<Rightarrow> db_site \<Rightarrow> string" where
  "backup_name en label s = en_stem en @ ''-'' @ en_stamp en @ ''-v'' @ nat_str (current_version s) @ ''-'' @ label @ ''.db''"

text \<open>Connecting to a database file that is not there makes an empty one.\<close>

definition opened :: "db_site \<Rightarrow> database" where
  "opened s = (case ds_db s of Some d \<Rightarrow> d | None \<Rightarrow> EMPTY_DB)"

definition backup :: "engine \<Rightarrow> string \<Rightarrow> db_site \<Rightarrow> string \<times> db_site" where
  "backup en label s =
     (let n = backup_name en label s;
          s1 = s\<lparr>ds_db := Some (opened s), ds_backups := AList.update n (Sound (opened s)) (ds_backups s)\<rparr>
      in (n, s1\<lparr>ds_backups := fold AList.delete (drop KEEP_BACKUPS (list_backups en s1)) (ds_backups s1)\<rparr>))"

datatype place = InBackups string | Elsewhere string

fun file_at :: "place \<Rightarrow> db_site \<Rightarrow> stored option" where
  "file_at (InBackups n) s = map_of (ds_backups s) n"
| "file_at (Elsewhere n) s = map_of (ds_files s) n"

definition restore :: "engine \<Rightarrow> place \<Rightarrow> db_site \<Rightarrow> (string + nat) \<times> db_site" where
  "restore en p s = (case file_at p s of
     None \<Rightarrow> (Inl ''not found'', s)
   | Some Damaged \<Rightarrow> (Inl ''is damaged (integrity check failed)'', s)
   | Some Foreign \<Rightarrow> (Inl ''isn't a Habeny database backup'', s)
   | Some (Sound d) \<Rightarrow>
       if latest_version en < db_version d then (Inl ''newer than this Habeny'', s)
       else let s1 = (if ds_db s = None then s else snd (backup en ''before-restore'' s)) in
         (case file_at p s1 of
            Some (Sound d') \<Rightarrow> (Inr (db_version d), s1\<lparr>ds_db := Some d'\<rparr>)
          | _ \<Rightarrow> (Inl ''OperationalError: unable to open database file'', s1)))"

section \<open>Applying\<close>

definition record_step :: "engine \<Rightarrow> nat \<Rightarrow> migration \<Rightarrow> string \<Rightarrow> statement" where
  "record_step en v m direction = insert_row ''schema_history'' [(''version'', SInt (int v)), (''name'', SText (mg_name m)),
     (''direction'', SText direction), (''app_version'', SText (en_app en)), (''applied_at'', SText (en_now en))]"

definition step_up :: "engine \<Rightarrow> nat \<times> migration \<Rightarrow> statement" where
  "step_up en vm db = (case vm of (v, m) \<Rightarrow> (case run_all [mg_up m, record_step en v m ''up''] db of
     Inl e \<Rightarrow> Inl e | Inr db' \<Rightarrow> Inr (db'\<lparr>db_version := v\<rparr>)))"

definition step_down :: "engine \<Rightarrow> nat \<times> migration \<Rightarrow> statement" where
  "step_down en vm db = (case vm of (v, m) \<Rightarrow> (case mg_down m of
     None \<Rightarrow> Inl ''can't be undone''
   | Some f \<Rightarrow> (case run_all [f, record_step en v m ''down''] db of
       Inl e \<Rightarrow> Inl e | Inr db' \<Rightarrow> Inr (db'\<lparr>db_version := v - 1\<rparr>))))"

text \<open>Each step in a transaction of its own: the database after the last that succeeded, and the one that failed.\<close>

fun transactions :: "('m \<Rightarrow> statement) \<Rightarrow> 'm list \<Rightarrow> database \<Rightarrow> ('m \<times> string) option \<times> database" where
  "transactions step [] db = (None, db)"
| "transactions step (m # ms) db = (case step m db of Inl e \<Rightarrow> (Some (m, e), db) | Inr db' \<Rightarrow> transactions step ms db')"

definition migrate :: "engine \<Rightarrow> bool \<Rightarrow> db_site \<Rightarrow> (string + (nat \<times> migration) list) \<times> db_site" where
  "migrate en make_backup s =
     (let d = opened s; s = s\<lparr>ds_db := Some d\<rparr>; todo = pending en (db_version d) in
      if latest_version en < db_version d then (Inl ''it was upgraded by a newer version'', s)
      else if todo = [] then (Inr [], s)
      else let s = (if make_backup \<and> db_tables d \<noteq> [] then snd (backup en (''before-v'' @ nat_str (fst (last todo))) s) else s) in
        (case transactions (step_up en) todo d of
           (Some ((v, m), e), d') \<Rightarrow> (Inl (''Migration v'' @ zfill 4 (nat_str v) @ '' ('' @ mg_name m @
               '') failed and was rolled back; the database is unchanged at v'' @ nat_str (v - 1) @ '': '' @ e), s\<lparr>ds_db := Some d'\<rparr>)
         | (None, d') \<Rightarrow> (Inr todo, s\<lparr>ds_db := Some d'\<rparr>)))"

definition downgrade :: "engine \<Rightarrow> int \<Rightarrow> db_site \<Rightarrow> (string + (nat \<times> migration) list) \<times> db_site" where
  "downgrade en target s =
     (let d = opened s; s = s\<lparr>ds_db := Some d\<rparr>; current = db_version d in
      if current \<le> 1 then (Inl ''nothing to undo'', s)
      else if \<not> (1 \<le> target \<and> target < int current) then (Inl ''can only downgrade to a version between'', s)
      else let steps = filter (\<lambda>(v, m). target < int v \<and> v \<le> current) (rev (numbered en)) in
        if \<exists>(v, m)\<in>set steps. mg_down m = None then (Inl ''can't be undone automatically; restore a backup instead'', s)
        else let s = snd (backup en (''before-downgrade-v'' @ int_str target) s) in
          (case transactions (step_down en) steps d of
             (Some ((v, m), e), d') \<Rightarrow> (Inl (''Undoing v'' @ zfill 4 (nat_str v) @ '' failed and was rolled back: '' @ e), s\<lparr>ds_db := Some d'\<rparr>)
           | (None, d') \<Rightarrow> (Inr steps, s\<lparr>ds_db := Some d'\<rparr>)))"

record db_status =
  dt_current :: nat
  dt_latest :: nat
  dt_pending :: "nat list"
  dt_too_new :: bool
  dt_backups :: "string list"

definition db_status_of :: "engine \<Rightarrow> db_site \<Rightarrow> db_status" where
  "db_status_of en s = \<lparr>dt_current = current_version s, dt_latest = latest_version en, dt_pending = map fst (pending en (current_version s)),
     dt_too_new = (latest_version en < current_version s), dt_backups = list_backups en s\<rparr>"

section \<open>What migrating leaves\<close>

text \<open>The steps from one version to another, all of which succeed.\<close>

fun applied :: "engine \<Rightarrow> nat \<Rightarrow> nat \<Rightarrow> database \<Rightarrow> database option" where
  "applied en v 0 d = Some d"
| "applied en v (Suc k) d = (case step_up en (Suc v, en_migrations en ! v) d of Inl e \<Rightarrow> None | Inr d' \<Rightarrow> applied en (Suc v) k d')"

lemma enumerate_drop: "filter (\<lambda>(v, m). k < v) (List.enumerate (Suc j) ms) = (if j \<le> k then drop (k - j) (List.enumerate (Suc j) ms) else List.enumerate (Suc j) ms)"
proof (induction ms arbitrary: j)
  case (Cons m ms)
  show ?case
  proof (cases "j < k")
    case True
    then obtain i where "k - j = Suc i" "k - Suc j = i" by (metis Suc_diff_Suc)
    then show ?thesis using Cons [of "Suc j"] True by simp
  next
    case False
    then show ?thesis using Cons [of "Suc j"] by auto
  qed
qed simp

lemma pending_drop: "pending en k = drop k (numbered en)"
  using enumerate_drop [of k 0] by (simp add: pending_def numbered_def)

lemma pending_Cons: "k < latest_version en \<Longrightarrow> pending en k = (Suc k, en_migrations en ! k) # pending en (Suc k)"
  by (simp add: pending_drop numbered_def latest_version_def Cons_nth_drop_Suc [symmetric] nth_enumerate_eq)

lemma pending_none: "latest_version en \<le> k \<Longrightarrow> pending en k = []"
  by (simp add: pending_drop numbered_def latest_version_def)

lemma step_up_version: "step_up en (v, m) d = Inr d' \<Longrightarrow> db_version d' = v"
  by (auto simp: step_up_def split: sum.splits)

lemma transactions_up:
  assumes "db_version d = v" "v \<le> latest_version en"
  shows "\<exists>k d'. v + k \<le> latest_version en \<and> applied en v k d = Some d' \<and> db_version d' = v + k \<and>
     snd (transactions (step_up en) (pending en v) d) = d' \<and>
     (fst (transactions (step_up en) (pending en v) d) = None \<longleftrightarrow> v + k = latest_version en) \<and>
     (v + k < latest_version en \<longrightarrow> (\<exists>e. step_up en (Suc (v + k), en_migrations en ! (v + k)) d' = Inl e))"
  using assms
proof (induction "latest_version en - v" arbitrary: v d)
  case 0
  then show ?case by (intro exI [of _ 0] exI [of _ d]) (simp add: pending_none)
next
  case (Suc n)
  then have lt: "v < latest_version en" by simp
  show ?case
  proof (cases "step_up en (Suc v, en_migrations en ! v) d")
    case (Inl e)
    then show ?thesis using Suc.prems lt by (intro exI [of _ 0] exI [of _ d]) (simp add: pending_Cons)
  next
    case (Inr d1)
    then have v: "db_version d1 = Suc v" by (rule step_up_version)
    have "n = latest_version en - Suc v" "Suc v \<le> latest_version en" using Suc.hyps(2) lt by auto
    from Suc.hyps(1) [OF this(1) v this(2)] show ?thesis
    proof (elim exE conjE, goal_cases)
      case (1 k d')
      then show ?case using Inr lt by (intro exI [of _ "Suc k"] exI [of _ d']) (simp add: pending_Cons)
    qed
  qed
qed

lemma opened_Some: "ds_db s = Some d \<Longrightarrow> opened s = d"
  by (simp add: opened_def)

lemma backup_db: "ds_db (snd (backup en label s)) = Some (opened s)"
  by (simp add: backup_def Let_def)

text \<open>
  C29: migrating applies the pending migrations in order, each completely or not at all: the database ends at the
  version up to which every step succeeded, with exactly those steps applied, the call succeeds exactly if that
  is the last one, and otherwise the next step is one that fails.
\<close>

theorem migrate_outcome:
  assumes "ds_db s = Some d" "db_version d \<le> latest_version en"
  shows "\<exists>k d'. ds_db (snd (migrate en b s)) = Some d' \<and> applied en (db_version d) k d = Some d' \<and> db_version d' = db_version d + k \<and>
     ((\<exists>done. fst (migrate en b s) = Inr done) \<longleftrightarrow> db_version d + k = latest_version en) \<and>
     (db_version d + k < latest_version en \<longrightarrow> (\<exists>e. step_up en (Suc (db_version d + k), en_migrations en ! (db_version d + k)) d' = Inl e))"
proof (cases "db_version d = latest_version en")
  case True
  then show ?thesis using assms
    by (intro exI [of _ 0] exI [of _ d]) (simp add: migrate_def Let_def opened_Some pending_none)
next
  case False
  then have lt: "db_version d < latest_version en" using assms(2) by simp
  have p: "pending en (db_version d) \<noteq> []" using lt by (simp add: pending_Cons)
  from transactions_up [OF refl assms(2)] show ?thesis
  proof (elim exE conjE, goal_cases)
    case (1 k d')
    obtain r where "transactions (step_up en) (pending en (db_version d)) d = (r, d')" using 1(4) by (cases "transactions (step_up en) (pending en (db_version d)) d") simp
    then show ?case using 1 lt p assms
      by (intro exI [of _ k] exI [of _ d']) (auto simp: migrate_def Let_def opened_Some split: option.splits)
  qed
qed

section \<open>Backups that are kept\<close>

lemma not_dropped:
  fixes x :: "'a::linorder"
  assumes "distinct xs" "length (filter (\<lambda>y. x < y) xs) < k"
  shows "x \<notin> set (drop k (rev (sort xs)))"
proof
  let ?ys = "rev (sort xs)"
  assume x: "x \<in> set (drop k ?ys)"
  then have l: "length (take k ?ys) = k" by (cases "k < length ?ys") auto
  have s: "sorted_wrt (\<ge>) ?ys" by (simp add: sorted_wrt_rev)
  have d: "distinct (take k ?ys @ drop k ?ys)" using assms(1) by (simp only: append_take_drop_id distinct_rev distinct_sort)
  have "sorted_wrt (\<ge>) (take k ?ys @ drop k ?ys)" using s by (simp only: append_take_drop_id)
  then have "\<forall>y\<in>set (take k ?ys). x \<le> y" using x unfolding sorted_wrt_append by blast
  moreover have "x \<notin> set (take k ?ys)" using d x unfolding distinct_append by blast
  ultimately have "\<forall>y\<in>set (take k ?ys). x < y" by (metis order_less_le)
  then have "filter (\<lambda>y. x < y) (take k ?ys) = take k ?ys" by simp
  then have "length (filter (\<lambda>y. x < y) (take k ?ys)) = k" using l by (simp only:)
  then have "k \<le> length (filter (\<lambda>y. x < y) (take k ?ys @ drop k ?ys))" by (simp only: filter_append length_append le_add1)
  also have "\<dots> = length (filter (\<lambda>y. x < y) ?ys)" by (simp only: append_take_drop_id)
  also have "\<dots> = length (filter (\<lambda>y. x < y) xs)"
    by (simp add: rev_filter [symmetric] filter_sort)
  finally show False using assms(2) by simp
qed

lemma map_of_delete_all: "map_of (fold AList.delete ns xs) n = (if n \<in> set ns then None else map_of xs n)"
  by (induction ns arbitrary: xs) (auto simp: delete_conv)

text \<open>The directory before the oldest files are removed.\<close>

definition with_backup :: "engine \<Rightarrow> string \<Rightarrow> db_site \<Rightarrow> db_site" where
  "with_backup en label s = s\<lparr>ds_db := Some (opened s), ds_backups := AList.update (backup_name en label s) (Sound (opened s)) (ds_backups s)\<rparr>"

lemma backup_lookup:
  "map_of (ds_backups (snd (backup en label s))) n =
     (if n \<in> set (drop KEEP_BACKUPS (list_backups en (with_backup en label s))) then None
      else if n = backup_name en label s then Some (Sound (opened s)) else map_of (ds_backups s) n)"
  by (simp add: backup_def Let_def with_backup_def map_of_delete_all update_conv)

definition own_backups :: "engine \<Rightarrow> db_site \<Rightarrow> string list" where
  "own_backups en s = filter (\<lambda>n. prefix (en_stem en @ ''-'') n \<and> suffix ''.db'' n) (map fst (ds_backups s))"

lemma list_backups_alt: "list_backups en s = rev (sort (own_backups en s))"
  by (simp add: list_backups_def own_backups_def)

lemma set_list_backups: "set (list_backups en s) = {n \<in> set (map fst (ds_backups s)). prefix (en_stem en @ ''-'') n \<and> suffix ''.db'' n}"
  by (auto simp: list_backups_def)

lemma distinct_own: "distinct (map fst (ds_backups s)) \<Longrightarrow> distinct (own_backups en s)"
  by (simp add: own_backups_def)

lemma distinct_fold_delete: "distinct (map fst xs) \<Longrightarrow> distinct (map fst (fold AList.delete ns xs))"
  by (induction ns arbitrary: xs) (simp_all add: distinct_delete)

lemma distinct_with_backup: "distinct (map fst (ds_backups s)) \<Longrightarrow> distinct (map fst (ds_backups (with_backup en label s)))"
  by (simp add: with_backup_def distinct_update)

lemma distinct_backup: "distinct (map fst (ds_backups s)) \<Longrightarrow> distinct (map fst (ds_backups (snd (backup en label s))))"
  by (simp add: backup_def Let_def distinct_fold_delete distinct_update)

lemma own_after:
  "set (own_backups en (with_backup en label s)) \<subseteq> insert (backup_name en label s) (set (own_backups en s))"
  by (auto simp: own_backups_def with_backup_def dom_update)

lemma kept_backup:
  assumes d: "distinct (map fst (ds_backups s))"
    and few: "\<And>m. m \<in> set (own_backups en s) \<Longrightarrow> n < m \<Longrightarrow> m = backup_name en label s"
  shows "map_of (ds_backups (snd (backup en label s))) n =
     (if n = backup_name en label s then Some (Sound (opened s)) else map_of (ds_backups s) n)"
proof -
  let ?s = "with_backup en label s" and ?nm = "backup_name en label s"
  have "set (filter (\<lambda>m. n < m) (own_backups en ?s)) \<subseteq> {?nm}" using own_after [of en label s] few by auto
  moreover have "distinct (filter (\<lambda>m. n < m) (own_backups en ?s))" using distinct_own [OF distinct_with_backup [OF d]] by simp
  ultimately have "length (filter (\<lambda>m. n < m) (own_backups en ?s)) \<le> 1"
    by (metis card_mono card_Suc_eq distinct_card finite.emptyI finite.insertI card.empty empty_iff One_nat_def)
  then have "n \<notin> set (drop KEEP_BACKUPS (list_backups en ?s))"
    unfolding list_backups_alt by (intro not_dropped distinct_own distinct_with_backup d) (simp add: KEEP_BACKUPS_def)
  then show ?thesis by (simp add: backup_lookup)
qed

lemma label_differs: "backup_name en' ''before-restore'' t \<noteq> backup_name en (''before-v'' @ nat_str n) s"
proof
  assume "backup_name en' ''before-restore'' t = backup_name en (''before-v'' @ nat_str n) s"
  then have "(en_stem en' @ ''-'' @ en_stamp en' @ ''-v'' @ nat_str (current_version t) @ ''-'' @ ''before-restore'') @ ''.db'' =
      (en_stem en @ ''-'' @ en_stamp en @ ''-v'' @ nat_str (current_version s) @ ''-before-v'' @ nat_str n) @ ''.db''"
    by (simp add: backup_name_def)
  then have "last (en_stem en' @ ''-'' @ en_stamp en' @ ''-v'' @ nat_str (current_version t) @ ''-'' @ ''before-restore'') =
      last (en_stem en @ ''-'' @ en_stamp en @ ''-v'' @ nat_str (current_version s) @ ''-before-v'' @ nat_str n)"
    by (simp only: append_same_eq)
  then have "last (nat_str n) = CHR ''e''" by simp
  then have "CHR ''e'' \<in> set (nat_str n)" using last_in_set [OF nat_str_nonempty [of n]] by metis
  then show False using nat_str_digits [of "CHR ''e''" n] by (simp add: ascii_digit_def cp_def)
qed

lemma pending_last: "k < latest_version en \<Longrightarrow> fst (last (pending en k)) = latest_version en"
  by (simp add: pending_drop numbered_def latest_version_def last_conv_nth nth_enumerate_eq flip: length_greater_0_conv)

lemma migrate_backups:
  assumes "ds_db s = Some d" "db_tables d \<noteq> []" "db_version d < latest_version en"
  shows "ds_backups (snd (migrate en True s)) = ds_backups (snd (backup en (''before-v'' @ nat_str (latest_version en)) s)) \<and>
     (\<exists>d'. ds_db (snd (migrate en True s)) = Some d')"
proof -
  have p: "pending en (db_version d) \<noteq> []" using assms(3) by (simp add: pending_Cons)
  have s: "s\<lparr>ds_db := Some d\<rparr> = s" using assms(1) by simp
  show ?thesis using assms p by (auto simp: migrate_def Let_def opened_Some pending_last s split: prod.splits option.splits)
qed

text \<open>
  C30: an upgrade can be undone, whether it succeeded or failed in the middle: the database as it was is among the
  backups, and restoring that file later brings exactly it back, provided the clock was not set back, so that
  no older backup has a later name.
\<close>

theorem upgrade_undone:
  assumes d: "ds_db s = Some d" "db_tables d \<noteq> []" "db_version d < latest_version en" "distinct (map fst (ds_backups s))"
    and newest: "\<forall>n\<in>set (list_backups en s). n \<le> backup_name en (''before-v'' @ nat_str (latest_version en)) s"
    and later: "en_stem en' = en_stem en" "latest_version en' = latest_version en"
  shows "fst (restore en' (InBackups (backup_name en (''before-v'' @ nat_str (latest_version en)) s)) (snd (migrate en True s))) = Inr (db_version d) \<and>
     ds_db (snd (restore en' (InBackups (backup_name en (''before-v'' @ nat_str (latest_version en)) s)) (snd (migrate en True s)))) = Some d"
proof -
  let ?l = "''before-v'' @ nat_str (latest_version en)" and ?t = "snd (migrate en True s)"
  let ?nm = "backup_name en ?l s" and ?old = "snd (backup en ?l s)"
  have b: "ds_backups ?t = ds_backups ?old" and t: "\<exists>d'. ds_db ?t = Some d'" using migrate_backups [OF d(1-3)] by auto
  have old: "m \<le> ?nm" if "m \<in> set (own_backups en s)" for m
    using newest that by (auto simp: set_list_backups own_backups_def)
  have first: "map_of (ds_backups ?t) ?nm = Some (Sound d)"
    unfolding b using kept_backup [OF d(4), of en ?nm ?l] old d(1) by (auto simp: opened_Some not_less [symmetric])
  have sub: "set (own_backups en ?old) \<subseteq> insert ?nm (set (own_backups en s))"
  proof -
    have "set (map fst (ds_backups ?old)) \<subseteq> insert ?nm (set (map fst (ds_backups s)))"
    proof
      fix m assume "m \<in> set (map fst (ds_backups ?old))"
      then have "map_of (ds_backups ?old) m \<noteq> None" by (simp add: map_of_eq_None_iff)
      then have "m = ?nm \<or> map_of (ds_backups s) m \<noteq> None" unfolding backup_lookup by (auto split: if_splits)
      then show "m \<in> insert ?nm (set (map fst (ds_backups s)))" by (auto simp: map_of_eq_None_iff)
    qed
    then show ?thesis by (auto simp: own_backups_def)
  qed
  have own: "own_backups en' ?t = own_backups en ?old" using later b by (simp add: own_backups_def)
  have dt: "distinct (map fst (ds_backups ?t))" using b distinct_backup [OF d(4), of en ?l] by simp
  have "map_of (ds_backups (snd (backup en' ''before-restore'' ?t))) ?nm = map_of (ds_backups ?t) ?nm"
  proof -
    have "m = backup_name en' ''before-restore'' ?t" if "m \<in> set (own_backups en' ?t)" "?nm < m" for m
      using that sub old own by (force simp: not_less [symmetric])
    from kept_backup [OF dt this] show ?thesis using label_differs [of en' ?t en "latest_version en" s] by metis
  qed
  then show ?thesis using first t later d(3) by (auto simp: restore_def Let_def)
qed

text \<open>
  Restoring the oldest of the ten files kept: the backup made first displaces that very file, so the call fails and
  the file is lost.
\<close>

lemma oldest_displaced:
  fixes x :: "'a::linorder"
  assumes "distinct xs" "length xs = Suc k" "x \<in> set xs" "\<forall>y\<in>set xs. x \<le> y"
  shows "x \<in> set (drop k (rev (sort xs)))"
proof -
  let ?ys = "rev (sort xs)"
  have "sort xs \<noteq> []" using assms(2) by (metis length_sort list.size(3) nat.simps(3))
  then obtain a rest where a: "sort xs = a # rest" by (cases "sort xs") auto
  then have "a = x" using assms(3,4) sorted_sort [of xs] by (metis antisym list.set_intros(1) set_ConsD set_sort sorted_simps(2))
  moreover have "length rest = k" using a assms(2) by (metis length_Cons length_sort nat.inject)
  ultimately show ?thesis using a by simp
qed

lemma restore_loses_oldest:
  assumes "distinct (map fst (ds_backups s))" "ds_db s = Some d" "length (own_backups en s) = KEEP_BACKUPS"
    and n: "n \<in> set (own_backups en s)" "\<forall>m\<in>set (own_backups en s). n \<le> m" "n < backup_name en ''before-restore'' s"
    and new: "backup_name en ''before-restore'' s \<notin> set (map fst (ds_backups s))"
    and f: "map_of (ds_backups s) n = Some (Sound d0)" "db_version d0 \<le> latest_version en"
  shows "fst (restore en (InBackups n) s) = Inl ''OperationalError: unable to open database file'' \<and>
     n \<notin> set (map fst (ds_backups (snd (restore en (InBackups n) s))))"
proof -
  let ?nm = "backup_name en ''before-restore'' s" and ?s = "with_backup en ''before-restore'' s"
  have u: "AList.update ?nm (Sound (opened s)) (ds_backups s) = ds_backups s @ [(?nm, Sound (opened s))]" using new by (simp add: update_fresh)
  have "suffix ''.db'' ?nm"
    by (rule suffixI [of _ "en_stem en @ ''-'' @ en_stamp en @ ''-v'' @ nat_str (current_version s) @ ''-before-restore''"]) (simp add: backup_name_def)
  moreover have "prefix (en_stem en @ ''-'') ?nm" by (simp add: backup_name_def)
  ultimately have own: "own_backups en ?s = own_backups en s @ [?nm]" by (simp add: own_backups_def with_backup_def u)
  have "n \<in> set (drop KEEP_BACKUPS (rev (sort (own_backups en ?s))))"
    by (rule oldest_displaced) (use n own assms(3) distinct_own [OF distinct_with_backup [OF assms(1)], of en en "''before-restore''"] in auto)
  then have "map_of (ds_backups (snd (backup en ''before-restore'' s))) n = None" (is "?none") by (simp add: backup_lookup list_backups_alt)
  moreover have "n \<notin> set (map fst (ds_backups (snd (backup en ''before-restore'' s))))" using \<open>?none\<close> unfolding map_of_eq_None_iff set_map .
  ultimately show ?thesis using f assms(2) by (simp add: restore_def Let_def)
qed

text \<open>
  Downgrading a database that a newer Habeny has migrated undoes only the migrations known here and then claims the
  target version, whatever the unknown migrations have changed.
\<close>

lemma pending_numbers: "map fst (pending en k) = [Suc k..<Suc (latest_version en)]"
  by (simp add: pending_drop numbered_def latest_version_def drop_map [symmetric] del: upt_Suc)

lemma transactions_down: "transactions (step_down en) vs d = (None, d') \<Longrightarrow> vs \<noteq> [] \<Longrightarrow> db_version d' = fst (last vs) - 1"
proof (induction vs arbitrary: d)
  case (Cons vm vs)
  obtain v m where vm: "vm = (v, m)" by (cases vm)
  from Cons.prems(1) obtain d1 where d1: "step_down en (v, m) d = Inr d1" "transactions (step_down en) vs d1 = (None, d')"
    by (auto simp: vm split: sum.splits)
  then have "db_version d1 = v - 1" by (auto simp: step_down_def split: option.splits sum.splits)
  then show ?case using Cons.IH [OF d1(2)] d1(2) by (cases "vs = []") (auto simp: vm)
qed simp

lemma downgrade_newer:
  assumes d: "ds_db s = Some d" "latest_version en < db_version d" "1 \<le> target" "target < latest_version en"
    and r: "fst (downgrade en (int target) s) = Inr steps"
  shows "map fst steps = rev [Suc target..<Suc (latest_version en)] \<and> (\<exists>d'. ds_db (snd (downgrade en (int target) s)) = Some d' \<and> db_version d' = target)"
proof -
  have st: "filter (\<lambda>(v, m). target < v \<and> v \<le> db_version d) (rev (numbered en)) = rev (pending en target)"
    unfolding rev_filter [symmetric] pending_def using d(2)
    by (intro arg_cong [where f = rev] filter_cong) (auto simp: numbered_def latest_version_def in_set_enumerate_eq)
  have p: "pending en target = (Suc target, en_migrations en ! target) # pending en (Suc target)" using d(4) by (rule pending_Cons)
  obtain e d' where t: "transactions (step_down en) (rev (pending en target)) d = (e, d')" by (cases "transactions (step_down en) (rev (pending en target)) d")
  have dg: "steps = rev (pending en target) \<and> ds_db (snd (downgrade en (int target) s)) = Some d' \<and> e = None"
    using r d by (auto simp: downgrade_def Let_def opened_Some st t split: if_splits option.splits)
  moreover have "map fst (rev (pending en target)) = rev [Suc target..<Suc (latest_version en)]" by (simp add: rev_map [symmetric] pending_numbers del: upt_Suc)
  moreover have "db_version d' = target" using transactions_down [of en "rev (pending en target)" d d'] t dg p by simp
  ultimately show ?thesis by blast
qed

section \<open>Witnesses\<close>

definition demo_mig :: mig_env where
  "demo_mig = \<lparr>mi_now = ''2026-01-01'', mi_uuid = (\<lambda>i. ''u'' @ nat_str i), mi_sha = (\<lambda>x. x), mi_canon = dumps, mi_show = text_of, mi_files = []\<rparr>"

definition demo_engine :: engine where
  "demo_engine = \<lparr>en_migrations = ALL_MIGRATIONS demo_mig, en_stem = ''habeny'', en_stamp = ''20260101-000000'', en_now = ''2026-01-01'', en_app = ''2.2''\<rparr>"

definition demo_v9 :: database where
  "demo_v9 = EMPTY_DB\<lparr>db_version := 9, db_tables := [
     (''managers'', \<lparr>tb_columns = [col ''manager_id'', col ''os_type''], tb_keys = [[''manager_id'']],
        tb_rows = [[(''manager_id'', SText ''m''), (''os_type'', SText ''debian_11'')]]\<rparr>),
     (''schema_history'', \<lparr>tb_columns = HISTORY_COLUMNS, tb_keys = [[''id'']], tb_rows = []\<rparr>)]\<rparr>"

definition demo_db_site :: db_site where
  "demo_db_site = \<lparr>ds_db = Some demo_v9, ds_backups = [], ds_files = []\<rparr>"

lemma demo_latest: "latest_version demo_engine = 10"
  by (simp add: latest_version_def demo_engine_def ALL_MIGRATIONS_def)

theorem migrate_outcome_witness:
  "\<exists>k d'. ds_db (snd (migrate demo_engine True demo_db_site)) = Some d' \<and> db_version d' = 9 + k \<and>
     ((\<exists>done. fst (migrate demo_engine True demo_db_site) = Inr done) \<longleftrightarrow> 9 + k = (10::nat))"
  using migrate_outcome [of demo_db_site demo_v9 demo_engine True] by (auto simp: demo_db_site_def demo_v9_def demo_latest)

theorem upgrade_undone_witness:
  "ds_db (snd (restore (demo_engine\<lparr>en_stamp := ''20260102-000000''\<rparr>) (InBackups ''habeny-20260101-000000-v9-before-v10.db'')
     (snd (migrate demo_engine True demo_db_site)))) = Some demo_v9"
proof -
  have n: "backup_name demo_engine (''before-v'' @ nat_str 10) demo_db_site = ''habeny-20260101-000000-v9-before-v10.db''" by code_simp
  show ?thesis
    using upgrade_undone [of demo_db_site demo_v9 demo_engine "demo_engine\<lparr>en_stamp := ''20260102-000000''\<rparr>"] n demo_latest
    by (simp add: demo_db_site_def demo_v9_def list_backups_def latest_version_def)
qed

end
