(* ===== verification/Upgrades.thy ===== *)
theory Upgrades
  imports Migrations
begin

text \<open>
  What the migrations do to the data they meet: the imported audit trail verifies, every syslog destination becomes
  a SIEM target, an old database gets an administrator.
\<close>

section \<open>The imported audit trail\<close>

lemma audit_of_cells_cells [simp]: "audit_of_cells (audit_cells r) = r"
  by (cases r) (simp add: audit_of_cells_def audit_cells_def val_of_def opt_value_def value_opt_def text_value_def nat_value_def split: option.splits)

lemma full_audit_row: "tb_columns t = AUDIT_COLUMNS \<Longrightarrow> full_row t (audit_cells r) = audit_cells r"
  by (simp add: full_row_def AUDIT_COLUMNS_def audit_cells_def col_def col_required_def)

lemma rows_of_update: "rows_of (db\<lparr>db_tables := AList.update n t (db_tables db)\<rparr>) m = (if m = n then tb_rows t else rows_of db m)"
  by (simp add: rows_of_def update_conv)

lemma insert_rowD:
  assumes "insert_row n vals db = Inr db'"
  obtains t where "map_of (db_tables db) n = Some t"
    "db' = db\<lparr>db_tables := AList.update n (t\<lparr>tb_rows := tb_rows t @ [full_row t vals]\<rparr>) (db_tables db)\<rparr>"
  using assms by (auto simp: insert_row_def with_table_Inr Let_def split: if_splits)

definition audit_ready :: "(string \<Rightarrow> string) \<Rightarrow> nat \<Rightarrow> database \<Rightarrow> bool" where
  "audit_ready sha n db = ((\<exists>t. map_of (db_tables db) ''audit_log'' = Some t \<and> tb_columns t = AUDIT_COLUMNS) \<and>
     chained sha (anchor (audit_view db)) (trail (audit_view db)) \<and> length (trail (audit_view db)) = n)"

lemma import_entry_ready:
  assumes r: "audit_ready (mi_sha env) n db" and i: "import_entry env e db = Inr db'"
  shows "audit_ready (mi_sha env) (Suc n) db'"
proof -
  obtain t where t: "map_of (db_tables db) ''audit_log'' = Some t" "tb_columns t = AUDIT_COLUMNS" using r by (auto simp: audit_ready_def)
  obtain ts action status user token request details where
    "insert_row ''audit_log'' (audit_cells (last (trail (fst (append_entry (mi_sha env) ts action status user token None request details (audit_view db)))))) db = Inr db'"
    using i by (simp add: import_entry_def Let_def)
  moreover obtain a where a: "a = fst (append_entry (mi_sha env) ts action status user token None request details (audit_view db))" by blast
  ultimately have ins: "insert_row ''audit_log'' (audit_cells (last (trail a))) db = Inr db'" by simp
  have tr: "trail a = trail (audit_view db) @ [last (trail a)]" "anchor a = anchor (audit_view db)"
    by (simp_all add: a append_entry_def Let_def split: prod.splits)
  from ins obtain t' where t': "map_of (db_tables db) ''audit_log'' = Some t'"
    "db' = db\<lparr>db_tables := AList.update ''audit_log'' (t'\<lparr>tb_rows := tb_rows t' @ [full_row t' (audit_cells (last (trail a)))]\<rparr>) (db_tables db)\<rparr>"
    by (rule insert_rowD)
  have "t' = t" using t(1) t'(1) by simp
  have db': "db' = db\<lparr>db_tables := AList.update ''audit_log'' (t\<lparr>tb_rows := tb_rows t @ [audit_cells (last (trail a))]\<rparr>) (db_tables db)\<rparr>"
    unfolding t'(2) \<open>t' = t\<close> full_audit_row [OF t(2)] ..
  have "trail (audit_view db') = trail (audit_view db) @ [last (trail a)]" using t(1) by (simp add: audit_view_def db' rows_of_update) (simp add: rows_of_def)
  moreover have "anchor (audit_view db') = anchor (audit_view db)" by (simp add: audit_view_def meta_value_def db' rows_of_update)
  ultimately have v: "audit_view db' = a" using tr by (cases a, cases "audit_view db'") simp
  have c: "chained (mi_sha env) (anchor a) (trail a)"
  proof -
    obtain a' i d where a': "append_entry (mi_sha env) ts action status user token None request details (audit_view db) = (a', i, d)"
      by (rule prod_cases3)
    then have "a = a'" by (simp add: a)
    then show ?thesis using append_entry_chained [OF _ a'] r by (simp add: audit_ready_def)
  qed
  have "map_of (db_tables db') ''audit_log'' = Some (t\<lparr>tb_rows := tb_rows t @ [audit_cells (last (trail a))]\<rparr>)"
    by (simp add: db' update_conv)
  moreover have "length (trail a) = Suc n" using r arg_cong [OF tr(1), of length] by (simp add: audit_ready_def)
  ultimately show ?thesis using c t(2) by (simp add: audit_ready_def v)
qed

lemma import_all_ready:
  "audit_ready (mi_sha env) n db \<Longrightarrow> run_all (map (import_entry env) es) db = Inr db' \<Longrightarrow> audit_ready (mi_sha env) (n + length es) db'"
proof (induction es arbitrary: n db)
  case (Cons e es)
  from Cons.prems(2) obtain db1 where d: "import_entry env e db = Inr db1" "run_all (map (import_entry env) es) db1 = Inr db'"
    by (auto split: sum.splits)
  show ?case using Cons.IH [OF import_entry_ready [OF Cons.prems(1) d(1)] d(2)] by simp
qed simp

lemma create_tableD:
  assumes "create_table n cs ks db = Inr db'"
  shows "rows_of db' m = rows_of db m" "map_of (db_tables db') n = Some \<lparr>tb_columns = cs, tb_keys = ks, tb_rows = []\<rparr>"
    "\<not> has_table db n" "db_tables db' = db_tables db @ [(n, \<lparr>tb_columns = cs, tb_keys = ks, tb_rows = []\<rparr>)]" "db_indexes db' = db_indexes db"
  using assms by (auto simp: create_table_def rows_of_def has_table_def map_add_def split: if_splits option.splits dest: map_of_SomeD)
    (force dest: map_of_SomeD)+

lemma create_indexD: "create_index missing unique i n cs db = Inr db' \<Longrightarrow> db_tables db' = db_tables db"
  by (auto simp: create_index_def split: if_splits)

lemma create_triggerD: "create_trigger g n db = Inr db' \<Longrightarrow> db_tables db' = db_tables db"
  by (auto simp: create_trigger_def split: if_splits)

text \<open>
  After the migration that brings the activity files of earlier versions into the database, the audit trail
  verifies, and it holds one entry for each line of those files that is one.
\<close>

theorem imported_trail_verifies:
  assumes "up_audit_log env db = Inr db'" "meta_value db ''audit_anchor_id'' = None" "meta_value db ''audit_anchor_hash'' = None"
  shows "v_ok (verify (mi_sha env) (audit_view db')) \<and> v_checked (verify (mi_sha env) (audit_view db')) = length (activity_entries env)"
proof -
  from assms(1) obtain d1 d5 where d1: "create_table ''audit_log'' AUDIT_COLUMNS [[''id'']] db = Inr d1"
    and d5: "db_tables d5 = db_tables d1" and im: "import_activity_files env d5 = Inr db'"
    by (auto simp: up_audit_log_def split: sum.splits dest!: create_indexD create_triggerD)
  note c = create_tableD [OF d1]
  have "rows_of db ''audit_log'' = []" using c(3) by (simp add: rows_of_def has_table_def map_of_eq_None_iff [THEN iffD2])
  moreover have "rows_of d5 m = rows_of db m" for m using c(1) [of m] by (simp add: rows_of_def d5)
  ultimately have v: "audit_view d5 = empty_audit"
    using assms(2,3) by (simp add: audit_view_def meta_value_def empty_audit_def)
  have "audit_ready (mi_sha env) 0 d5" using c(2) by (simp add: audit_ready_def v d5 empty_audit_def)
  from import_all_ready [OF this] im have "audit_ready (mi_sha env) (length (activity_entries env)) db'" by (simp add: import_activity_files_def)
  then show ?thesis using verify_ok verify_chained by (auto simp: audit_ready_def)
qed

section \<open>Syslog destinations\<close>

definition MANAGERS_V8 :: "sql_column list" where
  "MANAGERS_V8 = fst (the (map_of BASE_TABLES ''managers'')) @ map col DETECTION_COLUMNS"

definition MANAGERS_V9 :: "sql_column list" where
  "MANAGERS_V9 = MANAGERS_V8 @ [col ''syslog_port'', col ''syslog_protocol'']"

lemmas manager_columns = MANAGERS_V9_def MANAGERS_V8_def BASE_TABLES_def DETECTION_COLUMNS_def col_def col_required_def col_default_def

lemma manager_names: "map co_name MANAGERS_V9 = [''manager_id'', ''name'', ''description'', ''siem_type'', ''siem_ip'', ''siem_version'',
    ''siem_auth_key'', ''os_type'', ''agent_group'', ''memory_limit'', ''cpu_shares'', ''config_template_id'', ''created_at'', ''updated_at'',
    ''detection_url'', ''detection_username'', ''detection_secret'', ''detection_fingerprint'', ''syslog_port'', ''syslog_protocol'']"
  by (simp add: manager_columns)

lemma manager_required: "c \<in> set MANAGERS_V9 \<Longrightarrow> co_required c \<Longrightarrow> co_name c \<in> {''name'', ''siem_type''}"
  by (auto simp: manager_columns)

lemma all_differ_eq: "all_differ [c] rows \<Longrightarrow> a \<in> set rows \<Longrightarrow> b \<in> set rows \<Longrightarrow> val_of a c = val_of b c \<Longrightarrow> val_of a c \<noteq> SNull \<Longrightarrow> a = b"
  by (induction rows) (auto simp: agrees_def list_all_iff)

lemma all_differ_map: "(\<And>x c. c \<in> set cs \<Longrightarrow> val_of (f x) c = val_of x c) \<Longrightarrow> all_differ cs (map f rows) = all_differ cs rows"
proof (induction rows)
  case (Cons r rows)
  have "agrees cs (f r) (f x) = agrees cs r x" for x using Cons.prems by (simp add: agrees_def list_all_iff)
  then show ?case using Cons by (simp add: list_all_iff)
qed simp

lemma all_differ_append: "all_differ cs (rows @ [r]) \<longleftrightarrow> all_differ cs rows \<and> (\<forall>x\<in>set rows. \<not> agrees cs x r)"
  by (induction rows) (auto simp: list_all_iff)

definition managers_ready :: "mig_env \<Rightarrow> nat \<Rightarrow> database \<Rightarrow> bool" where
  "managers_ready env k db = (\<exists>t. map_of (db_tables db) ''managers'' = Some t \<and> tb_columns t = MANAGERS_V9 \<and>
     tb_keys t = [[''manager_id''], [''name'']] \<and> (\<forall>r\<in>set (tb_rows t). map fst r = map co_name MANAGERS_V9) \<and>
     all_differ [''manager_id''] (tb_rows t) \<and> (\<forall>i\<in>set (db_indexes db). ix_table i = ''managers'' \<longrightarrow> \<not> ix_unique i) \<and>
     (\<forall>j\<ge>k. \<forall>m\<in>set (tb_rows t). val_of m ''manager_id'' \<noteq> SText (mi_uuid env j)))"

text \<open>A SIEM target holds a destination; one that stays has its values, its syslog settings filled in at most.\<close>

definition holds_target :: "sql_row \<Rightarrow> sql_row \<Rightarrow> bool" where
  "holds_target m r = (val_of m ''siem_ip'' = val_of r ''target_ip'' \<and> val_of m ''syslog_port'' = target_port r \<and> val_of m ''syslog_protocol'' = target_protocol r)"

definition stays :: "sql_row \<Rightarrow> sql_row \<Rightarrow> bool" where
  "stays m m' = ((\<forall>c. c \<notin> {''siem_ip'', ''syslog_port'', ''syslog_protocol'', ''updated_at''} \<longrightarrow> val_of m' c = val_of m c) \<and>
     (no_value (val_of m ''siem_ip'') \<or> val_of m' ''siem_ip'' = val_of m ''siem_ip'') \<and>
     (val_of m ''syslog_port'' \<noteq> SNull \<longrightarrow> val_of m' ''siem_ip'' = val_of m ''siem_ip'' \<and> val_of m' ''syslog_port'' = val_of m ''syslog_port'' \<and>
        val_of m' ''syslog_protocol'' = val_of m ''syslog_protocol''))"

lemma stays_refl: "stays m m"
  by (simp add: stays_def)

lemma stays_trans:
  assumes "stays a b" "stays b c"
  shows "stays a c"
proof -
  have "val_of c x = val_of a x" if "x \<notin> {''siem_ip'', ''syslog_port'', ''syslog_protocol'', ''updated_at''}" for x
    using assms that unfolding stays_def by metis
  moreover have "no_value (val_of a ''siem_ip'') \<or> val_of c ''siem_ip'' = val_of a ''siem_ip''" using assms unfolding stays_def by metis
  moreover have "val_of a ''syslog_port'' \<noteq> SNull \<longrightarrow> val_of c ''siem_ip'' = val_of a ''siem_ip'' \<and>
      val_of c ''syslog_port'' = val_of a ''syslog_port'' \<and> val_of c ''syslog_protocol'' = val_of a ''syslog_protocol''"
    using assms unfolding stays_def by metis
  ultimately show ?thesis unfolding stays_def by blast
qed

lemma target_port_set: "target_port r \<noteq> SNull"
  by (simp add: target_port_def no_value_def)

lemma holds_stays: "holds_target m r \<Longrightarrow> stays m m' \<Longrightarrow> holds_target m' r"
  using target_port_set [of r] by (simp add: holds_target_def stays_def)

definition target_cells :: "mig_env \<Rightarrow> sql_row \<Rightarrow> (string \<times> sql_value) list" where
  "target_cells env r = [(''siem_ip'', val_of r ''target_ip''), (''syslog_port'', target_port r), (''syslog_protocol'', target_protocol r),
     (''updated_at'', SText (mi_now env))]"

lemma move_linked:
  assumes ready: "managers_ready env k db" and m: "linked_profile db r = Some m" "takes_target m r"
  shows "\<exists>db'. move_config env (k, r) db = Inr db' \<and> managers_ready env (Suc k) db' \<and> (\<exists>x\<in>set (rows_of db' ''managers''). holds_target x r) \<and>
     (\<forall>x\<in>set (rows_of db ''managers''). \<exists>y\<in>set (rows_of db' ''managers''). stays x y) \<and> db_indexes db' = db_indexes db"
proof -
  obtain t where t: "map_of (db_tables db) ''managers'' = Some t" "tb_columns t = MANAGERS_V9" "tb_keys t = [[''manager_id''], [''name'']]"
    "\<forall>r\<in>set (tb_rows t). map fst r = map co_name MANAGERS_V9" "all_differ [''manager_id''] (tb_rows t)"
    "\<forall>i\<in>set (db_indexes db). ix_table i = ''managers'' \<longrightarrow> \<not> ix_unique i"
    "\<forall>j\<ge>k. \<forall>m\<in>set (tb_rows t). val_of m ''manager_id'' \<noteq> SText (mi_uuid env j)"
    using ready by (auto simp: managers_ready_def)
  have rows: "rows_of db ''managers'' = tb_rows t" by (simp add: rows_of_def t(1))
  let ?P = "\<lambda>x. val_of x ''manager_id'' = val_of r ''manager_profile_id''" and ?f = "set_cells (target_cells env r)"
  let ?rows = "sql_update ?P ?f (tb_rows t)"
  define db' where "db' = db\<lparr>db_tables := AList.update ''managers'' (t\<lparr>tb_rows := ?rows\<rparr>) (db_tables db)\<rparr>"
  have pid: "val_of r ''manager_profile_id'' \<noteq> SNull" "m \<in> set (tb_rows t)" "?P m"
    using m(1) fetchone_Some [of ?P "tb_rows t" m] by (auto simp: linked_profile_def no_value_def rows split: if_splits)
  have same: "val_of (?f x) c = val_of x c" if "c \<notin> {''siem_ip'', ''syslog_port'', ''syslog_protocol'', ''updated_at''}" for x c
    using that by (auto intro!: val_of_set_cells_other simp: target_cells_def)
  have only: "x = m" if "x \<in> set (tb_rows t)" "?P x" for x using all_differ_eq [OF t(5) that(1) pid(2)] that(2) pid by simp
  have "set (map fst (target_cells env r)) \<subseteq> set (map co_name (tb_columns t))" unfolding t(2) manager_names by (simp add: target_cells_def)
  then have "move_config env (k, r) db = Inr db'"
    using m by (simp add: move_config_def update_rows_def with_table_def t(1) db'_def target_cells_def [symmetric])
  moreover have new: "rows_of db' ''managers'' = ?rows" by (simp add: db'_def rows_of_update)
  moreover have "managers_ready env (Suc k) db'"
  proof -
    have "all_differ [''manager_id''] ?rows" unfolding sql_update_def
      by (subst all_differ_map) (use same [of "''manager_id''"] t(5) in auto)
    then show ?thesis using t same [of "''manager_id''"]
      by (auto simp: managers_ready_def db'_def map_of_update_table set_sql_update)
  qed
  moreover have "holds_target (?f m) r"
  proof -
    have k: "map fst m = map co_name MANAGERS_V9" using t(4) pid(2) by blast
    then have "c \<in> set (map fst m)" if "c \<in> {''siem_ip'', ''syslog_port'', ''syslog_protocol''}" for c using that unfolding k manager_names by auto
    then show ?thesis by (simp add: holds_target_def val_of_set_cells target_cells_def)
  qed
  moreover have "?f m \<in> set ?rows" using pid by (auto simp: set_sql_update)
  moreover have "stays m (?f m)"
  proof -
    have "\<forall>c. c \<notin> {''siem_ip'', ''syslog_port'', ''syslog_protocol'', ''updated_at''} \<longrightarrow> val_of (?f m) c = val_of m c" using same by blast
    moreover have "no_value (val_of m ''siem_ip'') \<or> val_of (?f m) ''siem_ip'' = val_of m ''siem_ip''"
      using m(2) \<open>holds_target (?f m) r\<close> unfolding takes_target_def holds_target_def by metis
    moreover have "val_of m ''syslog_port'' = SNull" using m(2) by (simp add: takes_target_def)
    ultimately show ?thesis unfolding stays_def by blast
  qed
  moreover have "\<exists>y\<in>set ?rows. stays x y" if "x \<in> set (tb_rows t)" for x
  proof (cases "?P x")
    case True
    then show ?thesis using only [OF that] \<open>?f m \<in> set ?rows\<close> \<open>stays m (?f m)\<close> by blast
  next
    case False
    then show ?thesis using that stays_refl by (auto simp: set_sql_update)
  qed
  moreover have "db_indexes db' = db_indexes db" by (simp add: db'_def)
  ultimately show ?thesis unfolding rows by (intro exI [of _ db'] conjI ballI) (simp_all only:, blast+)
qed

definition new_profile :: "mig_env \<Rightarrow> nat \<Rightarrow> string \<Rightarrow> sql_row \<Rightarrow> (string \<times> sql_value) list" where
  "new_profile env i name r = [(''manager_id'', SText (mi_uuid env i)), (''name'', SText name),
       (''description'', if no_value (val_of r ''description'') then SText ''Syslog destination'' else val_of r ''description''),
       (''siem_type'', SText ''none''), (''siem_ip'', val_of r ''target_ip''), (''syslog_port'', target_port r),
       (''syslog_protocol'', target_protocol r),
       (''created_at'', if no_value (val_of r ''created_at'') then SText (mi_now env) else val_of r ''created_at''),
       (''updated_at'', SText (mi_now env))]"

lemma val_of_new_row:
  assumes "tb_columns t = MANAGERS_V9" "n \<in> set (map co_name MANAGERS_V9)" "map_of vals n = Some v"
  shows "val_of (full_row t vals) n = v"
proof -
  obtain c where c: "c \<in> set MANAGERS_V9" "co_name c = n" using assms(2) by auto
  have d: "distinct (map co_name MANAGERS_V9)" unfolding manager_names by simp
  show ?thesis using val_of_full_row [of c t vals] c d assms(1,3) by simp
qed

lemma move_new:
  assumes ready: "managers_ready env k db" and inj: "inj (mi_uuid env)"
    and no: "\<not> (case linked_profile db r of Some m \<Rightarrow> takes_target m r | None \<Rightarrow> False)"
  shows "\<exists>db'. move_config env (k, r) db = Inr db' \<and> managers_ready env (Suc k) db' \<and> (\<exists>x\<in>set (rows_of db' ''managers''). holds_target x r) \<and>
     (\<forall>x\<in>set (rows_of db ''managers''). \<exists>y\<in>set (rows_of db' ''managers''). stays x y) \<and> db_indexes db' = db_indexes db"
proof -
  obtain t where t: "map_of (db_tables db) ''managers'' = Some t" "tb_columns t = MANAGERS_V9" "tb_keys t = [[''manager_id''], [''name'']]"
    "\<forall>r\<in>set (tb_rows t). map fst r = map co_name MANAGERS_V9" "all_differ [''manager_id''] (tb_rows t)"
    "\<forall>i\<in>set (db_indexes db). ix_table i = ''managers'' \<longrightarrow> \<not> ix_unique i"
    "\<forall>j\<ge>k. \<forall>m\<in>set (tb_rows t). val_of m ''manager_id'' \<noteq> SText (mi_uuid env j)"
    using ready by (auto simp: managers_ready_def)
  have rows: "rows_of db ''managers'' = tb_rows t" by (simp add: rows_of_def t(1))
  let ?name = "unique_name db (text_value (val_of r ''name''))"
  let ?vals = "new_profile env k ?name r"
  let ?r = "full_row t ?vals"
  define db' where "db' = db\<lparr>db_tables := AList.update ''managers'' (t\<lparr>tb_rows := tb_rows t @ [?r]\<rparr>) (db_tables db)\<rparr>"
  note val = val_of_new_row [OF t(2), unfolded manager_names, of _ ?vals]
  have id: "val_of ?r ''manager_id'' = SText (mi_uuid env k)" and nm: "val_of ?r ''name'' = SText ?name" and ty: "val_of ?r ''siem_type'' = SText ''none''"
    by (rule val; simp add: new_profile_def)+
  have h: "holds_target ?r r" unfolding holds_target_def by (intro conjI; rule val; simp add: new_profile_def)
  have nf: "val_of x ''name'' \<noteq> SText ?name" if "x \<in> set (tb_rows t)" for x
    using unique_from_fresh [of "map (\<lambda>r. text_value (val_of r ''name'')) (tb_rows t)" "text_value (val_of r ''name'')" 0] that
    by (force simp: unique_name_def rows text_value_def)
  have uf: "val_of x ''manager_id'' \<noteq> SText (mi_uuid env k)" if "x \<in> set (tb_rows t)" for x using t(7) that by blast
  have fresh: "\<not> agrees [''name''] ?r x" "\<not> agrees [''manager_id''] ?r x" "\<not> agrees [''manager_id''] x ?r" if "x \<in> set (tb_rows t)" for x
    using nf [OF that] uf [OF that] by (simp_all add: agrees_def id nm not_sym)
  have keys: "unique_keys ''managers'' db = [[''manager_id''], [''name'']]" using t(1,3,6) by (auto simp: unique_keys_def filter_empty_conv)
  have "\<not> (\<exists>c\<in>set MANAGERS_V9. co_required c \<and> val_of ?r (co_name c) = SNull)" using manager_required nm ty by fastforce
  moreover have "set (map fst ?vals) \<subseteq> set (map co_name MANAGERS_V9)" unfolding manager_names by (simp add: new_profile_def)
  ultimately have "insert_row ''managers'' ?vals db = Inr db'"
    using fresh by (simp add: insert_row_def with_table_def t(1,2) keys Let_def db'_def)
  then have "move_config env (k, r) db = Inr db'" using no by (simp add: move_config_def new_profile_def [symmetric])
  moreover have new: "rows_of db' ''managers'' = tb_rows t @ [?r]" by (simp add: db'_def rows_of_update)
  moreover have "managers_ready env (Suc k) db'"
  proof -
    have "all_differ [''manager_id''] (tb_rows t @ [?r])" using t(5) fresh(3) by (simp add: all_differ_append)
    moreover have "map fst ?r = map co_name MANAGERS_V9" by (simp only: keys_full_row t(2))
    moreover have "mi_uuid env k \<noteq> mi_uuid env j" if "Suc k \<le> j" for j using that inj by (auto dest: injD)
    ultimately show ?thesis using t id by (simp add: managers_ready_def db'_def map_of_update_table)
  qed
  moreover have "\<exists>y\<in>set (rows_of db' ''managers''). holds_target y r" using h new by auto
  moreover have "\<forall>x\<in>set (tb_rows t). \<exists>y\<in>set (rows_of db' ''managers''). stays x y" using stays_refl new by auto
  moreover have "db_indexes db' = db_indexes db" by (simp add: db'_def)
  ultimately show ?thesis unfolding rows by blast
qed

definition all_stay :: "database \<Rightarrow> database \<Rightarrow> bool" where
  "all_stay db db' = (\<forall>x\<in>set (rows_of db ''managers''). \<exists>y\<in>set (rows_of db' ''managers''). stays x y)"

lemma all_stay_trans: "all_stay a b \<Longrightarrow> all_stay b c \<Longrightarrow> all_stay a c"
  unfolding all_stay_def using stays_trans by blast

lemma move_one:
  assumes "managers_ready env k db" "inj (mi_uuid env)"
  shows "\<exists>db'. move_config env (k, r) db = Inr db' \<and> managers_ready env (Suc k) db' \<and> (\<exists>x\<in>set (rows_of db' ''managers''). holds_target x r) \<and> all_stay db db'"
proof (cases "linked_profile db r")
  case None
  then show ?thesis using move_new [OF assms, of r] unfolding all_stay_def by auto
next
  case (Some m)
  show ?thesis
  proof (cases "takes_target m r")
    case True
    then show ?thesis using move_linked [OF assms(1) Some] unfolding all_stay_def by blast
  next
    case False
    then show ?thesis using move_new [OF assms, of r] Some unfolding all_stay_def by auto
  qed
qed

lemma move_all:
  assumes "managers_ready env k db" "inj (mi_uuid env)"
  shows "\<exists>db'. run_all (map (move_config env) (List.enumerate k rs)) db = Inr db' \<and> managers_ready env (k + length rs) db' \<and>
     (\<forall>r\<in>set rs. \<exists>x\<in>set (rows_of db' ''managers''). holds_target x r) \<and> all_stay db db'"
  using assms(1)
proof (induction rs arbitrary: k db)
  case Nil
  then show ?case using stays_refl by (auto simp: all_stay_def)
next
  case (Cons r rs)
  obtain d1 where d1: "move_config env (k, r) db = Inr d1" "managers_ready env (Suc k) d1" "\<exists>x\<in>set (rows_of d1 ''managers''). holds_target x r"
    "all_stay db d1" using move_one [OF Cons.prems assms(2), of r] by blast
  from Cons.IH [OF d1(2)] obtain db' where db': "run_all (map (move_config env) (List.enumerate (Suc k) rs)) d1 = Inr db'"
    "managers_ready env (Suc k + length rs) db'" "\<forall>r\<in>set rs. \<exists>x\<in>set (rows_of db' ''managers''). holds_target x r" "all_stay d1 db'" by blast
  have "\<exists>y\<in>set (rows_of db' ''managers''). holds_target y r" using d1(3) db'(4) holds_stays unfolding all_stay_def by blast
  then show ?case using d1 db' all_stay_trans [OF d1(4) db'(4)] by simp
qed

text \<open>What the migration asks of a database at version 8.\<close>

definition at_v8 :: "database \<Rightarrow> bool" where
  "at_v8 db = ((\<exists>t. map_of (db_tables db) ''managers'' = Some t \<and> tb_columns t = MANAGERS_V8 \<and>
     tb_keys t = [[''manager_id''], [''name'']] \<and> (\<forall>r\<in>set (tb_rows t). map fst r = map co_name MANAGERS_V8) \<and>
     all_differ [''manager_id''] (tb_rows t)) \<and> (\<forall>i\<in>set (db_indexes db). ix_table i = ''managers'' \<longrightarrow> \<not> ix_unique i) \<and>
     has_table db ''agents'' \<and> ''syslog_listener'' \<notin> set (columns_of db ''agents'') \<and> has_table db ''syslog_configs'')"

lemma val_of_append_null: "val_of (r @ [(c, SNull)]) x = val_of r x"
  by (auto simp: val_of_def map_add_def split: option.splits)

lemma val_of_append_nulls: "val_of (r @ [(c, SNull), (d, SNull)]) x = val_of r x"
  using val_of_append_null [of "r @ [(c, SNull)]" d x] by (simp add: val_of_append_null)

lemma has_table_map: "has_table db n \<longleftrightarrow> map_of (db_tables db) n \<noteq> None"
  by (simp add: has_table_def map_of_eq_None_iff)

lemma with_table_has: "with_table n f db = Inr db' \<Longrightarrow> has_table db' m = has_table db m"
  by (auto simp: with_table_Inr has_table_map map_of_update_table split: if_splits)

lemma move_has: "move_config env ir db = Inr db' \<Longrightarrow> has_table db' m = has_table db m"
  by (cases ir) (auto simp: move_config_def update_rows_def insert_row_def dest: with_table_has split: if_splits)

lemma moves_have: "run_all (map (move_config env) irs) db = Inr db' \<Longrightarrow> has_table db' m = has_table db m"
  by (induction irs arbitrary: db) (auto split: sum.splits dest: move_has)

lemma add_plain_column:
  assumes "map_of (db_tables db) n = Some t" "c \<notin> set (map co_name (tb_columns t))"
  shows "add_column n (col c) db = Inr (db\<lparr>db_tables := AList.update n (t\<lparr>tb_columns := tb_columns t @ [col c],
     tb_rows := map (\<lambda>r. r @ [(c, SNull)]) (tb_rows t)\<rparr>) (db_tables db)\<rparr>)"
  using assms by (simp add: add_column_def with_table_def col_def)

text \<open>
  C31: upgrading a database at version 8 succeeds and loses no syslog destination: each saved one is a SIEM target's
  address, port (514 when none was set) and protocol then, and every SIEM target there was is still there as it was,
  with its syslog settings filled in at most.
\<close>

theorem no_destination_lost:
  assumes v8: "at_v8 db" and inj: "inj (mi_uuid env)"
    and fresh: "\<forall>i. \<forall>m\<in>set (rows_of db ''managers''). val_of m ''manager_id'' \<noteq> SText (mi_uuid env i)"
  shows "\<exists>db'. up_syslog_targets env db = Inr db' \<and> \<not> has_table db' ''syslog_configs'' \<and>
     (\<forall>r\<in>set (rows_of db ''syslog_configs''). \<exists>m\<in>set (rows_of db' ''managers''). holds_target m r) \<and>
     (\<forall>m\<in>set (rows_of db ''managers''). \<exists>m'\<in>set (rows_of db' ''managers''). stays m m')"
proof -
  obtain t where t: "map_of (db_tables db) ''managers'' = Some t" "tb_columns t = MANAGERS_V8" "tb_keys t = [[''manager_id''], [''name'']]"
    "\<forall>r\<in>set (tb_rows t). map fst r = map co_name MANAGERS_V8" "all_differ [''manager_id''] (tb_rows t)"
    using v8 by (auto simp: at_v8_def)
  obtain a where a: "map_of (db_tables db) ''agents'' = Some a" "''syslog_listener'' \<notin> set (map co_name (tb_columns a))"
    using v8 by (auto simp: at_v8_def has_table_def columns_of_def dest: weak_map_of_SomeI)
  have idx: "\<forall>i\<in>set (db_indexes db). ix_table i = ''managers'' \<longrightarrow> \<not> ix_unique i" using v8 by (simp add: at_v8_def)
  let ?f = "\<lambda>r. r @ [(''syslog_port'', SNull)]" and ?g = "\<lambda>r. r @ [(''syslog_protocol'', SNull)]" and ?h = "\<lambda>r. r @ [(''syslog_listener'', SNull)]"
  let ?t1 = "t\<lparr>tb_columns := tb_columns t @ [col ''syslog_port''], tb_rows := map ?f (tb_rows t)\<rparr>"
  let ?t2 = "?t1\<lparr>tb_columns := tb_columns ?t1 @ [col ''syslog_protocol''], tb_rows := map ?g (tb_rows ?t1)\<rparr>"
  define d1 where "d1 = db\<lparr>db_tables := AList.update ''managers'' ?t1 (db_tables db)\<rparr>"
  define d2 where "d2 = d1\<lparr>db_tables := AList.update ''managers'' ?t2 (db_tables d1)\<rparr>"
  define d3 where "d3 = d2\<lparr>db_tables := AList.update ''agents'' (a\<lparr>tb_columns := tb_columns a @ [col ''syslog_listener''], tb_rows := map ?h (tb_rows a)\<rparr>) (db_tables d2)\<rparr>"
  have names8: "''syslog_port'' \<notin> set (map co_name MANAGERS_V8)" "''syslog_protocol'' \<notin> set (map co_name (MANAGERS_V8 @ [col ''syslog_port'']))"
    by (simp_all add: manager_columns)
  have s1: "add_column ''managers'' (col ''syslog_port'') db = Inr d1" unfolding d1_def by (rule add_plain_column [OF t(1)]) (use t(2) names8 in simp)
  have s2: "add_column ''managers'' (col ''syslog_protocol'') d1 = Inr d2" unfolding d2_def
    by (rule add_plain_column) (use t(2) names8 in \<open>simp_all add: d1_def map_of_update_table\<close>)
  have s3: "add_column ''agents'' (col ''syslog_listener'') d2 = Inr d3" unfolding d3_def
    by (rule add_plain_column) (use a in \<open>simp_all add: d1_def d2_def map_of_update_table\<close>)
  have m3: "map_of (db_tables d3) ''managers'' = Some ?t2" by (simp add: d3_def d2_def map_of_update_table)
  have ad: "all_differ [''manager_id''] (tb_rows ?t2)" using t(5) by (simp add: all_differ_map val_of_append_null del: map_map)
  have i3: "db_indexes d3 = db_indexes db" by (simp add: d1_def d2_def d3_def)
  have ready: "managers_ready env 0 d3"
    unfolding managers_ready_def m3 using t fresh idx ad
    by (intro exI [of _ ?t2]) (auto simp: val_of_append_null MANAGERS_V9_def i3 rows_of_def col_def val_of_append_nulls)
  have st: "all_stay db d3" unfolding all_stay_def
  proof
    fix x assume "x \<in> set (rows_of db ''managers'')"
    then have "?g (?f x) \<in> set (rows_of d3 ''managers'')" using t(1) m3 by (auto simp: rows_of_def)
    moreover have "stays x (?g (?f x))" by (simp add: stays_def val_of_append_null del: append_assoc)
    ultimately show "\<exists>y\<in>set (rows_of d3 ''managers''). stays x y" by blast
  qed
  have cf: "rows_of d3 ''syslog_configs'' = rows_of db ''syslog_configs''" "has_table d3 ''syslog_configs''"
    using v8 by (auto simp: rows_of_def d1_def d2_def d3_def map_of_update_table at_v8_def has_table_def dom_update)
  obtain d4 where d4: "move_configs env d3 = Inr d4" "\<forall>r\<in>set (rows_of db ''syslog_configs''). \<exists>x\<in>set (rows_of d4 ''managers''). holds_target x r" "all_stay d3 d4"
    using move_all [OF ready inj, of "config_order (rows_of d3 ''syslog_configs'')"] by (auto simp: move_configs_def config_order_def cf(1))
  have h4: "has_table d4 ''syslog_configs''" using d4(1) cf(2) moves_have by (auto simp: move_configs_def)
  obtain d5 where d5: "drop_table ''syslog_configs'' d4 = Inr d5" "db_tables d5 = AList.delete ''syslog_configs'' (db_tables d4)"
    using h4 by (simp add: drop_table_def)
  have "rows_of d5 ''managers'' = rows_of d4 ''managers''" "\<not> has_table d5 ''syslog_configs''"
    by (simp_all add: rows_of_def has_table_map d5(2) map_of_delete_table)
  moreover have "up_syslog_targets env db = Inr d5" by (simp add: up_syslog_targets_def s1 s2 s3 d4(1) d5(1))
  moreover have "all_stay db d4" using st d4(3) by (rule all_stay_trans)
  ultimately show ?thesis using d4(2) unfolding all_stay_def by (intro exI [of _ d5] conjI) simp_all
qed

section \<open>The first administrator\<close>

lemma update_rowsD:
  assumes "update_rows n P kvs db = Inr db'"
  shows "rows_of db' n = sql_update (P (rows_of db n)) (set_cells kvs) (rows_of db n)" "m \<noteq> n \<Longrightarrow> rows_of db' m = rows_of db m"
  using assms by (auto simp: update_rows_def with_table_Inr rows_of_update rows_of_def update_conv split: if_splits)

lemma create_missing_rows: "create_missing n cs ks db = Inr db' \<Longrightarrow> rows_of db' m = rows_of db m"
  using create_tableD(1) [of n cs ks db db' m] by (auto simp: create_missing_def split: if_splits)

lemma lowest_exists:
  assumes "rows \<noteq> []" "\<forall>r\<in>set rows. \<exists>i. val_of r ''id'' = SInt i"
  shows "\<exists>r\<in>set rows. lowest_id rows r"
proof -
  let ?id = "\<lambda>r. case val_of r ''id'' of SInt i \<Rightarrow> i | _ \<Rightarrow> 0"
  obtain r where r: "r \<in> set rows" "\<forall>x\<in>set rows. ?id r \<le> ?id x"
    using assms(1) arg_min_least [of "set rows" _ ?id] arg_min_if_finite(1) [of "set rows" ?id] by (metis finite_set set_empty)
  obtain i where i: "val_of r ''id'' = SInt i" using assms(2) r(1) by blast
  have "case val_of x ''id'' of SInt j \<Rightarrow> i \<le> j | _ \<Rightarrow> True" if "x \<in> set rows" for x
    using r(2) i that by (auto split: sql_value.splits)
  then have "lowest_id rows r" by (simp add: lowest_id_def i list_all_iff)
  then show ?thesis using r(1) by blast
qed

text \<open>
  A database of any earlier version that has accounts has an administrator after the baseline: the oldest account, if
  there was none. Whoever is an administrator has the role too.
\<close>

theorem baseline_has_admin:
  assumes up: "up_baseline db = Inr db'" and some: "rows_of db' ''users'' \<noteq> []"
    and rows: "\<forall>r\<in>set (rows_of db' ''users''). (\<exists>i. val_of r ''id'' = SInt i) \<and> {''is_admin'', ''role''} \<subseteq> set (map fst r)"
  shows "(\<exists>r\<in>set (rows_of db' ''users''). is_admin_row r) \<and>
     (\<forall>r\<in>set (rows_of db' ''users''). is_admin_row r \<longrightarrow> val_of r ''role'' = SText ''admin'')"
proof -
  let ?P = "\<lambda>rows r. lowest_id rows r \<and> \<not> list_ex is_admin_row rows" and ?Q = "\<lambda>rows r. is_admin_row r \<and> val_of r ''role'' \<noteq> SText ''admin''"
  obtain d1 d2 d3 where d: "update_rows ''users'' ?P [(''is_admin'', SInt 1)] d1 = Inr d2" "update_rows ''users'' ?Q [(''role'', SText ''admin'')] d2 = Inr d3"
    "create_missing ''schema_history'' HISTORY_COLUMNS [[''id'']] d3 = Inr db'"
    using up by (auto simp: up_baseline_def run_all_append split: sum.splits)
  let ?r1 = "rows_of d1 ''users''" and ?f = "set_cells [(''is_admin'', SInt 1)]" and ?g = "set_cells [(''role'', SText ''admin'')]"
  have r2: "rows_of d2 ''users'' = sql_update (?P ?r1) ?f ?r1" by (rule update_rowsD(1) [OF d(1)])
  have r3: "rows_of db' ''users'' = sql_update (?Q (rows_of d2 ''users'')) ?g (rows_of d2 ''users'')"
    using create_missing_rows [OF d(3)] update_rowsD(1) [OF d(2)] by simp
  have f: "val_of (?f r) ''id'' = val_of r ''id''" "val_of (?g r) ''id'' = val_of r ''id''" "val_of (?g r) ''is_admin'' = val_of r ''is_admin''" for r
    by (simp_all add: val_of_set_cells_other)
  have wf: "(\<exists>i. val_of r ''id'' = SInt i) \<and> ''is_admin'' \<in> set (map fst r)" if "r \<in> set ?r1" for r
  proof -
    let ?r2 = "if ?P ?r1 r then ?f r else r"
    have "?r2 \<in> set (rows_of d2 ''users'')" using that by (auto simp: r2 set_sql_update)
    then have "(if ?Q (rows_of d2 ''users'') ?r2 then ?g ?r2 else ?r2) \<in> set (rows_of db' ''users'')" by (auto simp: r3 set_sql_update)
    from rows [rule_format, OF this] show ?thesis by (auto simp: f simp del: set_map split: if_splits)
  qed
  have admin2: "\<exists>r\<in>set (rows_of d2 ''users''). is_admin_row r"
  proof (cases "list_ex is_admin_row ?r1")
    case True
    then show ?thesis by (auto simp: r2 set_sql_update list_ex_iff)
  next
    case False
    have "?r1 \<noteq> []" using some r2 r3 by (auto simp: sql_update_def)
    then obtain r where r: "r \<in> set ?r1" "lowest_id ?r1 r" using lowest_exists wf by blast
    then have "?f r \<in> set (rows_of d2 ''users'')" using False by (auto simp: r2 set_sql_update)
    moreover have "is_admin_row (?f r)" using wf [OF r(1)] by (simp add: is_admin_row_def val_of_set_cells del: set_map)
    ultimately show ?thesis by blast
  qed
  then obtain a where a: "a \<in> set (rows_of d2 ''users'')" "is_admin_row a" by blast
  let ?a = "if ?Q (rows_of d2 ''users'') a then ?g a else a"
  have "?a \<in> set (rows_of db' ''users'')" using a(1) unfolding r3 set_sql_update by (rule imageI)
  moreover have "is_admin_row ?a" using a(2) by (simp add: is_admin_row_def f)
  ultimately have "\<exists>r\<in>set (rows_of db' ''users''). is_admin_row r" by blast
  moreover have "val_of r ''role'' = SText ''admin''" if "r \<in> set (rows_of db' ''users'')" "is_admin_row r" for r
  proof -
    have k: "''role'' \<in> set (map fst r)" using rows that(1) by blast
    from that(1) obtain x where x: "x \<in> set (rows_of d2 ''users'')" "r = (if ?Q (rows_of d2 ''users'') x then ?g x else x)" by (auto simp: r3 set_sql_update)
    show ?thesis using k x(2) that(2) by (auto simp: val_of_set_cells simp del: set_map split: if_splits)
  qed
  ultimately show ?thesis by blast
qed

section \<open>Witnesses\<close>

definition old_db :: database where
  "old_db = EMPTY_DB\<lparr>db_version := 8, db_tables := [
     (''meta'', \<lparr>tb_columns = [col ''key'', col_required ''value''], tb_keys = [[''key'']], tb_rows = []\<rparr>),
     (''agents'', \<lparr>tb_columns = [col ''agent_name''], tb_keys = [[''agent_name'']], tb_rows = []\<rparr>),
     (''managers'', \<lparr>tb_columns = MANAGERS_V8, tb_keys = [[''manager_id''], [''name'']],
        tb_rows = [map (\<lambda>c. (co_name c, if co_name c = ''manager_id'' then SText ''m1'' else SNull)) MANAGERS_V8]\<rparr>),
     (''syslog_configs'', \<lparr>tb_columns = fst SYSLOG_CONFIGS, tb_keys = snd SYSLOG_CONFIGS,
        tb_rows = [[(''config_id'', SText ''c1''), (''name'', SText ''siem''), (''manager_profile_id'', SText ''m1''), (''target_ip'', SText ''10.0.0.9'')]]\<rparr>)]\<rparr>"

theorem no_destination_lost_witness:
  "\<exists>db'. up_syslog_targets demo_mig old_db = Inr db' \<and>
     (\<exists>m\<in>set (rows_of db' ''managers''). val_of m ''siem_ip'' = SText ''10.0.0.9'' \<and> val_of m ''syslog_port'' = SInt 514 \<and> val_of m ''syslog_protocol'' = SText ''tcp'')"
proof -
  let ?r = "[(''config_id'', SText ''c1''), (''name'', SText ''siem''), (''manager_profile_id'', SText ''m1''), (''target_ip'', SText ''10.0.0.9'')]"
  have "at_v8 old_db" by (simp add: at_v8_def old_db_def EMPTY_DB_def has_table_def columns_of_def col_def comp_def)
  moreover have "inj (mi_uuid demo_mig)" by (rule injI) (auto simp: demo_mig_def dest: arg_cong [of _ _ nat_val])
  moreover have "\<forall>i. \<forall>m\<in>set (rows_of old_db ''managers''). val_of m ''manager_id'' \<noteq> SText (mi_uuid demo_mig i)"
    by (simp add: old_db_def rows_of_def EMPTY_DB_def manager_columns val_of_def demo_mig_def)
  moreover have "?r \<in> set (rows_of old_db ''syslog_configs'')" by (simp add: old_db_def rows_of_def EMPTY_DB_def)
  moreover have "target_port ?r = SInt 514" "target_protocol ?r = SText ''tcp''" "val_of ?r ''target_ip'' = SText ''10.0.0.9''" by code_simp+
  ultimately show ?thesis using no_destination_lost [of old_db demo_mig] unfolding holds_target_def by metis
qed

definition one_entry :: mig_env where
  "one_entry = demo_mig\<lparr>mi_files := [Some ('' {'' @ [CHR 0x22] @ ''action'' @ [CHR 0x22] @ '':'' @ [CHR 0x22] @ ''login'' @ [CHR 0x22] @ ''} '' @ [CHR 0x0A] @ ''x''), None]\<rparr>"

theorem imported_trail_verifies_witness:
  "\<exists>db'. up_audit_log one_entry old_db = Inr db' \<and> v_ok (verify (\<lambda>x. x) (audit_view db')) \<and> v_checked (verify (\<lambda>x. x) (audit_view db')) = 1"
proof -
  have n: "length (activity_entries one_entry) = 1" by code_simp
  have "case up_audit_log one_entry old_db of Inl _ \<Rightarrow> False | Inr _ \<Rightarrow> True" by code_simp
  then obtain db' where u: "up_audit_log one_entry old_db = Inr db'" by (auto split: sum.splits)
  have "meta_value old_db ''audit_anchor_id'' = None" "meta_value old_db ''audit_anchor_hash'' = None" by code_simp+
  from imported_trail_verifies [OF u this] show ?thesis using u n by (auto simp: one_entry_def demo_mig_def)
qed

definition old_users :: database where
  "old_users = EMPTY_DB\<lparr>db_tables := [(''users'', \<lparr>tb_columns = [col_auto ''id'', col_required ''username'', col_required ''password_hash'',
     col_required ''created_at'', col ''last_login_at''], tb_keys = [[''id''], [''username'']],
     tb_rows = [[(''id'', SInt 2), (''username'', SText ''bob''), (''password_hash'', SText ''x''), (''created_at'', SText ''t''), (''last_login_at'', SNull)],
       [(''id'', SInt 1), (''username'', SText ''ann''), (''password_hash'', SText ''x''), (''created_at'', SText ''t''), (''last_login_at'', SNull)]]\<rparr>)]\<rparr>"

theorem baseline_has_admin_witness:
  "\<exists>db'. up_baseline old_users = Inr db' \<and> (\<exists>r\<in>set (rows_of db' ''users''). is_admin_row r)"
proof -
  let ?ok = "\<lambda>db'. rows_of db' ''users'' \<noteq> [] \<and> list_all (\<lambda>r. (case val_of r ''id'' of SInt i \<Rightarrow> True | _ \<Rightarrow> False) \<and>
      {''is_admin'', ''role''} \<subseteq> set (map fst r)) (rows_of db' ''users'')"
  have c: "(case v of SInt i \<Rightarrow> True | _ \<Rightarrow> False) \<longleftrightarrow> (\<exists>i. v = SInt i)" for v by (cases v) auto
  have "case up_baseline old_users of Inl _ \<Rightarrow> False | Inr db' \<Rightarrow> ?ok db'" by code_simp
  then obtain db' where u: "up_baseline old_users = Inr db'" "?ok db'" by (auto split: sum.splits)
  then have "\<forall>r\<in>set (rows_of db' ''users''). (\<exists>i. val_of r ''id'' = SInt i) \<and> {''is_admin'', ''role''} \<subseteq> set (map fst r)"
    unfolding list_all_iff c by blast
  then show ?thesis using baseline_has_admin [OF u(1)] u by blast
qed

end
