(* ===== verification/Notify.thy ===== *)
theory Notify
  imports Alerts Fleet_Db Json_Text Hosts "HOL-Library.Multiset"
begin

text \<open>
  \<^verbatim>\<open>services/notify.py\<close>: notification channels and the delivery of messages. The table is the list of its rows; the
  delivery thread, its queue, the timers of retries and the administrators who change channels meanwhile are a step
  relation. The environment holds the settings, the cipher, HMAC and the three characters outside
  the model's strings.
\<close>

record notify_env =
  ne_smtp :: bool
  ne_url :: string
  ne_host :: string
  ne_version :: string
  ne_enc :: "string \<Rightarrow> string"
  ne_dec :: "string \<Rightarrow> string option"
  ne_hmac :: "string \<Rightarrow> string \<Rightarrow> string"
  ne_show :: "json \<Rightarrow> string"
  ne_ellipsis :: string
  ne_bullets :: string
  ne_dash :: string

type_synonym settings = "(string \<times> json) list"

record channel_row =
  ch_id :: nat
  ch_name :: string
  ch_type :: string
  ch_config :: string
  ch_events :: "string list"
  ch_problems :: bool
  ch_enabled :: bool
  ch_created :: string
  ch_updated :: string
  ch_result :: "(string \<times> string option) option"

record channel =
  cn_row :: channel_row
  cn_config :: settings

definition EVENTS :: "string list" where
  "EVENTS = [''deployment.finished'', ''simulation.finished'', ''benchmark.finished'', ''alert.firing'', ''alert.resolved'']"

definition CHANNEL_TYPES :: "string list" where
  "CHANNEL_TYPES = [''email'', ''slack'', ''webhook'']"

definition SECRET_FIELDS :: "(string \<times> string list) list" where
  "SECRET_FIELDS = [(''slack'', [''url'']), (''webhook'', [''url'', ''secret''])]"

definition secret_fields :: "string \<Rightarrow> string list" where
  "secret_fields t = (case map_of SECRET_FIELDS t of Some fs \<Rightarrow> fs | None \<Rightarrow> [])"

definition PROBLEM_LEVELS :: "string list" where
  "PROBLEM_LEVELS = [''warning'', ''error'']"

definition RETRY_DELAYS :: "nat list" where
  "RETRY_DELAYS = [5, 30, 120]"

section \<open>Settings\<close>

definition setting :: "settings \<Rightarrow> string \<Rightarrow> json" where
  "setting m k = (case map_of m k of Some v \<Rightarrow> v | None \<Rightarrow> JNone)"

text \<open>\<open>s.split("://", 1)\<close> at its first occurrence.\<close>

fun after_scheme :: "string \<Rightarrow> (string \<times> string) option" where
  "after_scheme [] = None"
| "after_scheme (c # s) = (if take 3 (c # s) = ''://'' then Some ([], drop 2 s)
     else map_option (\<lambda>(a, b). (c # a, b)) (after_scheme s))"

definition hint :: "notify_env \<Rightarrow> string \<Rightarrow> string option \<Rightarrow> string" where
  "hint env f v = (case v of None \<Rightarrow> [] | Some s \<Rightarrow> if s = [] then [] else
     (case after_scheme s of
        Some (scheme, rest) \<Rightarrow> if f = ''url'' then scheme @ ''://'' @ takeWhile (\<lambda>c. c \<noteq> CHR ''/'') rest @ ''/'' @ ne_ellipsis env else ne_bullets env
      | None \<Rightarrow> ne_bullets env))"

definition text_setting :: "json \<Rightarrow> string option" where
  "text_setting v = (case v of JText s \<Rightarrow> Some s | _ \<Rightarrow> None)"

definition opt_json :: "string option \<Rightarrow> json" where
  "opt_json v = (case v of Some s \<Rightarrow> JText s | None \<Rightarrow> JNone)"

text \<open>\<open>_row\<close>: the secret fields in clear for delivery, as hints otherwise.\<close>

definition shown_field :: "notify_env \<Rightarrow> bool \<Rightarrow> string \<Rightarrow> settings \<Rightarrow> settings" where
  "shown_field env shown f m = (if falsy (setting m f) then m
     else let clear_text = decrypt_secret (ne_dec env) (text_setting (setting m f))
       in AList.update f (if shown then opt_json clear_text else JText (hint env f clear_text)) m)"

definition row_channel :: "notify_env \<Rightarrow> bool \<Rightarrow> channel_row \<Rightarrow> channel" where
  "row_channel env shown r = \<lparr>cn_row = r, cn_config = fold (shown_field env shown) (secret_fields (ch_type r))
     (case loads (ch_config r) of Some (JObject m) \<Rightarrow> m | _ \<Rightarrow> [])\<rparr>"

definition semicolons :: "string \<Rightarrow> string" where
  "semicolons s = map (\<lambda>c. if c = CHR '';'' then CHR '','' else c) s"

text \<open>\<open>to\<close> as a list, from a list or a text; other values in the list make the check of the addresses fail.\<close>

definition addresses :: "json \<Rightarrow> json list" where
  "addresses v = (case v of
     JText s \<Rightarrow> map JText (filter (\<lambda>a. a \<noteq> []) (map py_strip (split_on (CHR '','') (semicolons s))))
   | JArray vs \<Rightarrow> vs
   | _ \<Rightarrow> [])"

definition address_ok :: "json \<Rightarrow> bool" where
  "address_ok v = (case v of JText a \<Rightarrow> CHR ''@'' \<in> set a \<and> CHR '' '' \<notin> set a \<and> length a \<le> 254 | _ \<Rightarrow> False)"

definition validate :: "notify_env \<Rightarrow> string \<Rightarrow> settings \<Rightarrow> string + settings" where
  "validate env t m =
     (if t \<notin> set CHANNEL_TYPES then Inl ''type must be one of email, slack, webhook''
      else if t = ''email'' then
        let to_list = addresses (setting m ''to'') in
        if to_list = [] \<or> \<not> list_all address_ok to_list then Inl ''to: one or more email addresses''
        else if \<not> ne_smtp env then Inl ''email needs a mail server''
        else Inr [(''to'', JArray (take 50 to_list))]
      else
        let url = (case setting m ''url'' of JText s \<Rightarrow> py_strip s | _ \<Rightarrow> []) in
        if \<not> (prefix ''https://'' url \<or> prefix ''http://'' url) \<or> 2000 < length url then Inl ''url: an http(s) address''
        else Inr ([(''url'', JText url)] @
          (if t = ''webhook'' \<and> \<not> falsy (setting m ''secret'') then [(''secret'', JText (take 200 (ne_show env (setting m ''secret''))))] else [])))"

definition store_field :: "notify_env \<Rightarrow> string \<Rightarrow> settings \<Rightarrow> settings" where
  "store_field env f m = (if falsy (setting m f) then m
     else AList.update f (opt_json (encrypt_secret (ne_enc env) (text_setting (setting m f)))) m)"

definition store_settings :: "notify_env \<Rightarrow> string \<Rightarrow> settings \<Rightarrow> string" where
  "store_settings env t m = dumps (JObject (fold (store_field env) (secret_fields t) m))"

definition check_events :: "string list \<Rightarrow> string + string list" where
  "check_events es = (if \<exists>e\<in>set es. e \<notin> set EVENTS then Inl ''unknown events'' else Inr (sort (remdups es)))"

section \<open>Channels\<close>

text \<open>The rows, and the highest id there ever was: the key is \<open>AUTOINCREMENT\<close>, so no id is used twice.\<close>

record channels =
  ct_rows :: "channel_row list"
  ct_last :: nat

definition list_channels :: "notify_env \<Rightarrow> channels \<Rightarrow> channel list" where
  "list_channels env tab = map (row_channel env False) (sort_key (\<lambda>r. nocase (ch_name r)) (ct_rows tab))"

definition get_channel :: "notify_env \<Rightarrow> bool \<Rightarrow> nat \<Rightarrow> channels \<Rightarrow> channel option" where
  "get_channel env shown i tab = map_option (row_channel env shown) (fetchone (\<lambda>r. ch_id r = i) (ct_rows tab))"

definition next_channel :: "channels \<Rightarrow> nat" where
  "next_channel tab = Suc (foldl max (ct_last tab) (map ch_id (ct_rows tab)))"

definition create_channel ::
  "notify_env \<Rightarrow> string \<Rightarrow> string \<Rightarrow> string \<Rightarrow> settings \<Rightarrow> string list \<Rightarrow> bool \<Rightarrow> bool \<Rightarrow> channels \<Rightarrow> string + channels \<times> channel" where
  "create_channel env now name t m events problems enabled tab =
     (case validate env t m of Inl e \<Rightarrow> Inl e | Inr cleaned \<Rightarrow>
        (case check_events events of Inl e \<Rightarrow> Inl e | Inr es \<Rightarrow>
           if name \<in> set (map ch_name (ct_rows tab)) then Inl (''a channel named '' @ name @ '' exists'')
           else let r = \<lparr>ch_id = next_channel tab, ch_name = name, ch_type = t, ch_config = store_settings env t cleaned, ch_events = es,
               ch_problems = problems, ch_enabled = enabled, ch_created = now, ch_updated = now, ch_result = None\<rparr>
             in Inr (\<lparr>ct_rows = ct_rows tab @ [r], ct_last = ch_id r\<rparr>, row_channel env False r)))"

definition merged_settings :: "settings \<Rightarrow> settings \<Rightarrow> settings" where
  "merged_settings old new = foldl (\<lambda>m (k, v). AList.update k v m) old (filter (\<lambda>(k, v). v \<noteq> JNone \<and> v \<noteq> JText []) new)"

definition update_channel ::
  "notify_env \<Rightarrow> string \<Rightarrow> nat \<Rightarrow> string \<Rightarrow> settings \<Rightarrow> string list \<Rightarrow> bool \<Rightarrow> bool \<Rightarrow> channels \<Rightarrow> string + channels \<times> channel option" where
  "update_channel env now i name m events problems enabled tab =
     (case get_channel env True i tab of None \<Rightarrow> Inr (tab, None) | Some current \<Rightarrow>
        let t = ch_type (cn_row current) in
        (case validate env t (merged_settings (cn_config current) m) of Inl e \<Rightarrow> Inl e | Inr cleaned \<Rightarrow>
          (case check_events events of Inl e \<Rightarrow> Inl e | Inr es \<Rightarrow>
            if \<exists>r\<in>set (ct_rows tab). ch_id r \<noteq> i \<and> ch_name r = name then Inl (''a channel named '' @ name @ '' exists'')
            else let tab' = tab\<lparr>ct_rows := sql_update (\<lambda>r. ch_id r = i) (\<lambda>r. r\<lparr>ch_name := name, ch_config := store_settings env t cleaned,
                  ch_events := es, ch_problems := problems, ch_enabled := enabled, ch_updated := now\<rparr>) (ct_rows tab)\<rparr>
              in Inr (tab', get_channel env False i tab'))))"

definition delete_channel :: "notify_env \<Rightarrow> nat \<Rightarrow> channels \<Rightarrow> channels \<times> channel option" where
  "delete_channel env i tab = (case get_channel env False i tab of
     None \<Rightarrow> (tab, None) | Some c \<Rightarrow> (tab\<lparr>ct_rows := sql_delete (\<lambda>r. ch_id r = i) (ct_rows tab)\<rparr>, Some c))"

definition record_delivery :: "string \<Rightarrow> nat \<Rightarrow> string option \<Rightarrow> channels \<Rightarrow> channels" where
  "record_delivery now i error tab = tab\<lparr>ct_rows := sql_update (\<lambda>r. ch_id r = i) (\<lambda>r. r\<lparr>ch_result := Some (now, error)\<rparr>) (ct_rows tab)\<rparr>"

section \<open>Messages\<close>

record message =
  ms_event :: string
  ms_level :: string
  ms_title :: string
  ms_text :: string
  ms_fields :: settings
  ms_link :: "string option"
  ms_time :: string

definition rstrip_slashes :: "string \<Rightarrow> string" where
  "rstrip_slashes s = rstrip_by (\<lambda>c. c = CHR ''/'') s"

definition make_message :: "notify_env \<Rightarrow> string \<Rightarrow> string \<Rightarrow> string \<Rightarrow> string \<Rightarrow> string \<Rightarrow> settings \<Rightarrow> string option \<Rightarrow> message" where
  "make_message env now event level title text_part fs link =
     (let base = rstrip_slashes (ne_url env) in
      \<lparr>ms_event = event, ms_level = level, ms_title = title, ms_text = text_part, ms_fields = fs,
       ms_link = (case link of Some l \<Rightarrow> if base \<noteq> [] \<and> prefix ''/'' l then Some (base @ l) else link | None \<Rightarrow> None),
       ms_time = now\<rparr>)"

definition message_json :: "notify_env \<Rightarrow> message \<Rightarrow> json" where
  "message_json env m = (let base = rstrip_slashes (ne_url env) in JObject
     [(''event'', JText (ms_event m)), (''level'', JText (ms_level m)), (''title'', JText (ms_title m)), (''text'', JText (ms_text m)),
      (''fields'', JObject (ms_fields m)), (''link'', opt_json (ms_link m)), (''time'', JText (ms_time m)),
      (''server'', JObject [(''host'', JText (ne_host env)), (''version'', JText (ne_version env)),
         (''url'', if base = [] then JNone else JText base)])])"

definition ICONS :: "(string \<times> string) list" where
  "ICONS = [(''success'', '':white_check_mark:''), (''info'', '':information_source:''), (''warning'', '':warning:''), (''error'', '':x:'')]"

definition upper_char :: "char \<Rightarrow> char" where
  "upper_char c = (if 97 \<le> cp c \<and> cp c \<le> 122 then char_of (cp c - 32) else c)"

text \<open>\<open>k.replace('_', ' ').capitalize()\<close> of an ASCII key.\<close>

definition field_title :: "string \<Rightarrow> string" where
  "field_title k = (case map (\<lambda>c. if c = CHR ''_'' then CHR '' '' else c) k of [] \<Rightarrow> [] | c # s \<Rightarrow> upper_char c # py_lower s)"

definition plain_text :: "notify_env \<Rightarrow> message \<Rightarrow> string" where
  "plain_text env m = py_strip (join_with [CHR 0x0A] (
     (if ms_text m \<noteq> [] then [ms_text m, []] else []) @
     map (\<lambda>(k, v). field_title k @ '': '' @ ne_show env v) (ms_fields m) @
     (case ms_link m of Some l \<Rightarrow> if l \<noteq> [] then [[], l] else [] | None \<Rightarrow> []) @
     [[], ne_dash env @ '' Habeny on '' @ ne_host env]))"

text \<open>What goes out: an HTTP request (address, body and own headers) or a mail (recipients, subject, text).\<close>

datatype outgoing = Post string string "(string \<times> string) list" | Mail "json list" string string

definition url_of :: "settings \<Rightarrow> string" where
  "url_of m = (case setting m ''url'' of JText u \<Rightarrow> u | _ \<Rightarrow> [])"

definition webhook_headers :: "notify_env \<Rightarrow> settings \<Rightarrow> message \<Rightarrow> string \<Rightarrow> (string \<times> string) list" where
  "webhook_headers env m msg body = [(''X-Habeny-Event'', ms_event msg)] @
     (case setting m ''secret'' of JText s \<Rightarrow> if s \<noteq> [] then [(''X-Habeny-Signature'', ''sha256='' @ ne_hmac env s body)] else [] | _ \<Rightarrow> [])"

definition outgoing_of :: "notify_env \<Rightarrow> channel \<Rightarrow> message \<Rightarrow> string + outgoing" where
  "outgoing_of env c m =
     (let t = ch_type (cn_row c); s = cn_config c in
      if t = ''slack'' then Inr (Post (url_of s) (dumps (JObject [(''text'', JText
          ((case map_of ICONS (ms_level m) of Some i \<Rightarrow> i | None \<Rightarrow> []) @ '' *'' @ ms_title m @ ''*'' @ [CHR 0x0A] @ plain_text env m))])) [])
      else if t = ''webhook'' then (let body = dumps (message_json env m) in Inr (Post (url_of s) body (webhook_headers env s m body)))
      else if \<not> ne_smtp env then Inl ''no mail server configured (HABENY_SMTP_HOST)''
      else Inr (Mail (case setting s ''to'' of JArray vs \<Rightarrow> vs | _ \<Rightarrow> []) (''[Habeny] '' @ ms_title m) (plain_text env m)))"

text \<open>\<open>deliver\<close>: the network's answer is \<open>net\<close>, its error an exception.\<close>

definition deliver :: "notify_env \<Rightarrow> (outgoing \<Rightarrow> string option) \<Rightarrow> channel \<Rightarrow> message \<Rightarrow> string option" where
  "deliver env net c m = (case outgoing_of env c m of Inl e \<Rightarrow> Some e | Inr out \<Rightarrow> net out)"

definition wants :: "string \<Rightarrow> string \<Rightarrow> channel_row \<Rightarrow> bool" where
  "wants event level r = (ch_enabled r \<and> (ch_events r = [] \<or> event \<in> set (ch_events r)) \<and> (ch_problems r \<longrightarrow> level \<in> set PROBLEM_LEVELS))"

definition send_test :: "notify_env \<Rightarrow> string \<Rightarrow> (outgoing \<Rightarrow> string option) \<Rightarrow> nat \<Rightarrow> channels \<Rightarrow> string + string option \<times> channels" where
  "send_test env now net i rows = (case get_channel env True i rows of
     None \<Rightarrow> Inl ''channel not found''
   | Some c \<Rightarrow>
       (let msg = make_message env now ''test'' ''info'' ''Test notification'' (''Channel '' @ [CHR 0x27] @ ch_name (cn_row c) @ [CHR 0x27] @ '' is set up correctly.'')
              [(''channel'', JText (ch_name (cn_row c)))] (Some ''/notifications'');
            r = deliver env net c msg
        in Inr (r, record_delivery now i (map_option (take 500) r) rows)))"

section \<open>Delivery\<close>

record delivery =
  jb_channel :: nat
  jb_message :: message
  jb_attempt :: nat

text \<open>
  The last five are what has become of the messages: the world and the logs see it, not the program. The tries are
  all the deliveries attempted, with the message and the channel of each.
\<close>

record dispatcher =
  dp_channels :: channels
  dp_queue :: "delivery list"
  dp_timers :: "delivery list"
  dp_sent :: "(nat \<times> message) list"
  dp_failed :: "(nat \<times> message) list"
  dp_refused :: "(nat \<times> message) list"
  dp_crashed :: "(nat \<times> message) list"
  dp_tries :: "(nat \<times> message) list"

definition QUEUE_SIZE :: nat where
  "QUEUE_SIZE = 1000"

definition job_of :: "delivery \<Rightarrow> nat \<times> message" where
  "job_of j = (jb_channel j, jb_message j)"

definition submit :: "nat \<Rightarrow> message \<Rightarrow> dispatcher \<Rightarrow> dispatcher" where
  "submit i m d = (if length (dp_queue d) < QUEUE_SIZE then d\<lparr>dp_queue := dp_queue d @ [\<lparr>jb_channel = i, jb_message = m, jb_attempt = 0\<rparr>]\<rparr>
     else d\<lparr>dp_refused := dp_refused d @ [(i, m)]\<rparr>)"

text \<open>
  A statement on the table may fail: \<open>_run\<close> logs what \<open>_handle\<close> raises when it can not read the channel, and the message is
  gone; \<open>_record_result\<close> ignores its own failure.
\<close>

record faults =
  fa_lookup :: bool
  fa_record :: bool

definition handle_job :: "notify_env \<Rightarrow> string \<Rightarrow> (outgoing \<Rightarrow> string option) \<Rightarrow> faults \<Rightarrow> delivery \<Rightarrow> dispatcher \<Rightarrow> dispatcher" where
  "handle_job env now net fa j d = (if fa_lookup fa then d\<lparr>dp_crashed := dp_crashed d @ [job_of j]\<rparr> else
     (case get_channel env True (jb_channel j) (dp_channels d) of
     None \<Rightarrow> d\<lparr>dp_refused := dp_refused d @ [job_of j]\<rparr>
   | Some c \<Rightarrow> if \<not> ch_enabled (cn_row c) then d\<lparr>dp_refused := dp_refused d @ [job_of j]\<rparr> else
       let d = d\<lparr>dp_tries := dp_tries d @ [job_of j]\<rparr>;
           recorded = (\<lambda>e. if fa_record fa then dp_channels d else record_delivery now (jb_channel j) e (dp_channels d)) in
       (case deliver env net c (jb_message j) of
          Some e \<Rightarrow> if jb_attempt j < length RETRY_DELAYS then d\<lparr>dp_timers := dp_timers d @ [j\<lparr>jb_attempt := Suc (jb_attempt j)\<rparr>]\<rparr>
            else d\<lparr>dp_channels := recorded (Some (take 500 e)), dp_failed := dp_failed d @ [job_of j]\<rparr>
        | None \<Rightarrow> d\<lparr>dp_channels := recorded None, dp_sent := dp_sent d @ [job_of j]\<rparr>)))"

text \<open>\<open>fails\<close>: the channels could not be read, and nobody is told.\<close>

definition emit ::
  "notify_env \<Rightarrow> bool \<Rightarrow> string \<Rightarrow> string \<Rightarrow> string \<Rightarrow> string \<Rightarrow> string \<Rightarrow> settings \<Rightarrow> string option \<Rightarrow> dispatcher \<Rightarrow> string + nat \<times> dispatcher" where
  "emit env fails now event title text_part level fs link d =
     (if event \<notin> set EVENTS then Inl (''unknown event '' @ event)
      else if fails then Inr (0, d)
      else let chosen = filter (\<lambda>c. wants event level (cn_row c)) (list_channels env (dp_channels d));
               msg = make_message env now event level title text_part fs link
        in Inr (length chosen, fold (\<lambda>c. submit (ch_id (cn_row c)) msg) chosen d))"

text \<open>
  The steps: the thread takes the next job; a timer puts its job back, waiting while the queue is full;
  somebody emits; an administrator changes the channels.
\<close>

inductive work :: "notify_env \<Rightarrow> dispatcher \<Rightarrow> dispatcher \<Rightarrow> bool" for env where
  take_job: "dp_queue d = j # js \<Longrightarrow> work env d (handle_job env now net fa j (d\<lparr>dp_queue := js\<rparr>))"
| timer: "dp_timers d = js @ j # ks \<Longrightarrow> length (dp_queue d) < QUEUE_SIZE \<Longrightarrow>
    work env d (d\<lparr>dp_timers := js @ ks, dp_queue := dp_queue d @ [j]\<rparr>)"

inductive_cases workE: "work env d d'"

definition idle :: "channels \<Rightarrow> dispatcher" where
  "idle tab = \<lparr>dp_channels = tab, dp_queue = [], dp_timers = [], dp_sent = [], dp_failed = [], dp_refused = [], dp_crashed = [], dp_tries = []\<rparr>"

text \<open>A run of the program, with everything that was emitted to a channel in it.\<close>

inductive runs :: "notify_env \<Rightarrow> (nat \<times> message) list \<Rightarrow> dispatcher \<Rightarrow> bool" for env where
  start: "runs env [] (idle tab)"
| works: "runs env ms d \<Longrightarrow> work env d d' \<Longrightarrow> runs env ms d'"
| emits: "runs env ms d \<Longrightarrow> emit env False now event title text_part level fs link d = Inr (n, d') \<Longrightarrow>
    runs env (ms @ map (\<lambda>c. (ch_id (cn_row c), make_message env now event level title text_part fs link))
      (filter (\<lambda>c. wants event level (cn_row c)) (list_channels env (dp_channels d)))) d'"
| unread: "runs env ms d \<Longrightarrow> emit env True now event title text_part level fs link d = Inr (n, d') \<Longrightarrow> runs env ms d'"
| admin: "runs env ms d \<Longrightarrow> runs env ms (d\<lparr>dp_channels := tab\<rparr>)"

section \<open>Every message is accounted for\<close>

definition waiting :: "dispatcher \<Rightarrow> delivery list" where
  "waiting d = dp_queue d @ dp_timers d"

definition settled :: "dispatcher \<Rightarrow> (nat \<times> message) list" where
  "settled d = dp_sent d @ dp_failed d @ dp_refused d @ dp_crashed d"

text \<open>How often a message may still be tried on a channel.\<close>

definition tries_left :: "nat \<times> message \<Rightarrow> delivery list \<Rightarrow> nat" where
  "tries_left p js = sum_list (map (\<lambda>j. if job_of j = p then 4 - jb_attempt j else 0) js)"

definition accounts_for :: "(nat \<times> message) list \<Rightarrow> dispatcher \<Rightarrow> bool" where
  "accounts_for ms d = (mset ms = image_mset job_of (mset (waiting d)) + mset (settled d) \<and>
     (\<forall>j\<in>set (waiting d). jb_attempt j \<le> 3) \<and> (\<forall>p. count_list (dp_tries d) p + tries_left p (waiting d) \<le> 4 * count_list ms p))"

lemma accounts_parts:
  assumes "accounts_for ms d"
  shows "mset ms = image_mset job_of (mset (waiting d)) + mset (settled d)" "\<forall>j\<in>set (waiting d). jb_attempt j \<le> 3"
    "count_list (dp_tries d) p + tries_left p (waiting d) \<le> 4 * count_list ms p"
  using assms unfolding accounts_for_def by blast+

lemma accountsI:
  assumes "mset ms = image_mset job_of (mset (waiting d)) + mset (settled d)" "\<forall>j\<in>set (waiting d). jb_attempt j \<le> 3"
    "\<And>p. count_list (dp_tries d) p + tries_left p (waiting d) \<le> 4 * count_list ms p"
  shows "accounts_for ms d"
  using assms unfolding accounts_for_def by blast

lemma retries: "length RETRY_DELAYS = 3"
  by (simp add: RETRY_DELAYS_def)

lemma tries_left_append [simp]: "tries_left p (js @ ks) = tries_left p js + tries_left p ks"
  by (simp add: tries_left_def)

lemma tries_left_Cons [simp]: "tries_left p (j # js) = (if job_of j = p then 4 - jb_attempt j else 0) + tries_left p js" "tries_left p [] = 0"
  by (simp_all add: tries_left_def)

lemma job_again [simp]: "job_of (j\<lparr>jb_attempt := n\<rparr>) = job_of j"
  by (simp add: job_of_def)

lemma handle_accounts:
  assumes a: "accounts_for ms d" and q: "dp_queue d = j # js"
  shows "accounts_for ms (handle_job env now net fa j (d\<lparr>dp_queue := js\<rparr>))"
proof -
  have j: "jb_attempt j \<le> 3" and c: "mset ms = add_mset (job_of j) (image_mset job_of (mset (js @ dp_timers d)) + mset (settled d))"
    and l: "\<forall>k\<in>set (js @ dp_timers d). jb_attempt k \<le> 3"
    and t: "\<And>p. count_list (dp_tries d) p + (if job_of j = p then 4 - jb_attempt j else 0) + tries_left p (js @ dp_timers d) \<le> 4 * count_list ms p"
    using accounts_parts [OF a] q by (simp_all add: waiting_def add_ac)
  have t': "count_list (dp_tries d) p + tries_left p js + tries_left p (dp_timers d) \<le> 4 * count_list ms p" for p
    using t [of p] by simp
  have t1: "count_list (dp_tries d @ [job_of j]) p + tries_left p js + tries_left p (dp_timers d) \<le> 4 * count_list ms p" for p
    using t [of p] j by (auto split: if_splits)
  show ?thesis
  proof (cases "fa_lookup fa")
    case True
    then show ?thesis using c t' l by (simp add: accounts_for_def handle_job_def waiting_def settled_def add_ac)
  next
    case look: False
    show ?thesis
    proof (cases "get_channel env True (jb_channel j) (dp_channels d)")
      case None
      then show ?thesis using look c t' l by (simp add: accounts_for_def handle_job_def waiting_def settled_def add_ac)
    next
      case (Some ch)
      note ch = Some
      show ?thesis
      proof (cases "ch_enabled (cn_row ch)")
        case False
        then show ?thesis using look ch c t' l by (simp add: accounts_for_def handle_job_def waiting_def settled_def add_ac)
      next
        case en: True
        show ?thesis
        proof (cases "deliver env net ch (jb_message j)")
          case None
          then show ?thesis using look ch en c t1 l by (simp add: accounts_for_def handle_job_def waiting_def settled_def Let_def add_ac)
        next
          case (Some e)
          show ?thesis
          proof (cases "jb_attempt j < 3")
            case True
            let ?d = "d\<lparr>dp_queue := js, dp_tries := dp_tries d @ [job_of j], dp_timers := dp_timers d @ [j\<lparr>jb_attempt := Suc (jb_attempt j)\<rparr>]\<rparr>"
            have e: "handle_job env now net fa j (d\<lparr>dp_queue := js\<rparr>) = ?d"
              using look ch en Some True by (simp add: handle_job_def Let_def retries)
            show ?thesis unfolding e
            proof (rule accountsI)
              show "count_list (dp_tries ?d) p + tries_left p (waiting ?d) \<le> 4 * count_list ms p" for p
                using t [of p] True by (auto simp: waiting_def split: if_splits)
            qed (use c l True in \<open>simp_all add: waiting_def settled_def\<close>)
          next
            case False
            then show ?thesis using look ch en Some c t1 l
              by (simp add: accounts_for_def handle_job_def waiting_def settled_def Let_def retries add_ac)
          qed
        qed
      qed
    qed
  qed
qed

lemma work_accounts: "work env d d' \<Longrightarrow> accounts_for ms d \<Longrightarrow> accounts_for ms d'"
proof (erule workE, goal_cases)
  case (1 j js now net fa)
  then show ?case by (simp only: handle_accounts)
next
  case (2 js j ks)
  then show ?case by (auto simp: accounts_for_def waiting_def settled_def add_ac)
qed

lemma submit_accounts:
  assumes a: "accounts_for ms d"
  shows "accounts_for (ms @ [(i, m)]) (submit i m d)"
proof (rule accountsI)
  show "count_list (dp_tries (submit i m d)) p + tries_left p (waiting (submit i m d)) \<le> 4 * count_list (ms @ [(i, m)]) p" for p
    using accounts_parts(3) [OF a, of p] by (auto simp: submit_def waiting_def job_of_def)
qed (use accounts_parts(1,2) [OF a] in \<open>auto simp: submit_def waiting_def settled_def job_of_def add_ac\<close>)

lemma submits_account: "accounts_for ms d \<Longrightarrow> accounts_for (ms @ map (\<lambda>c. (f c, m)) cs) (fold (\<lambda>c. submit (f c) m) cs d)"
proof (induction cs arbitrary: ms d)
  case (Cons c cs)
  then show ?case using Cons.IH [OF submit_accounts [OF Cons.prems, of "f c" m]] by simp
qed simp

lemma runs_account: "runs env ms d \<Longrightarrow> accounts_for ms d"
proof (induction rule: runs.induct)
  case (start tab)
  then show ?case by (simp add: accounts_for_def idle_def waiting_def settled_def)
next
  case (works ms d d')
  then show ?case using work_accounts by blast
next
  case (emits ms d now event title text_part level fs link n d')
  then show ?case by (auto simp: emit_def Let_def submits_account split: if_splits)
next
  case (unread ms d now event title text_part level fs link n d')
  then show ?case by (auto simp: emit_def split: if_splits)
next
  case (admin ms d tab)
  then show ?case by (simp add: accounts_for_def waiting_def settled_def)
qed

text \<open>What is left to do: less with every step of the thread or a timer.\<close>

definition weight :: "dispatcher \<Rightarrow> nat" where
  "weight d = sum_list (map (\<lambda>j. 2 * (4 - jb_attempt j)) (dp_queue d)) + sum_list (map (\<lambda>j. 2 * (4 - jb_attempt j) + 1) (dp_timers d))"

lemma work_weight: "work env d d' \<Longrightarrow> \<forall>j\<in>set (waiting d). jb_attempt j \<le> 3 \<Longrightarrow> weight d' < weight d"
proof (erule workE, goal_cases)
  case (1 j js now net fa)
  then have "jb_attempt j \<le> 3" by (simp add: waiting_def)
  then show ?case using 1 by (auto simp: weight_def handle_job_def Let_def retries split: option.splits)
next
  case (2 js j ks)
  then show ?case by (simp add: weight_def)
qed

lemma works_bounded: "(work env ^^ n) d d' \<Longrightarrow> accounts_for ms d \<Longrightarrow> n + weight d' \<le> weight d \<and> accounts_for ms d'"
proof (induction n arbitrary: d')
  case (Suc n)
  then obtain d1 where d1: "(work env ^^ n) d d1" "work env d1 d'" by auto
  with Suc have "n + weight d1 \<le> weight d" "accounts_for ms d1" by blast+
  then show ?case using work_weight [OF d1(2)] work_accounts [OF d1(2)] by (auto simp: accounts_for_def)
qed simp

lemma can_work: "waiting d \<noteq> [] \<Longrightarrow> \<exists>d'. work env d d'"
proof (cases "dp_queue d")
  case Nil
  moreover assume "waiting d \<noteq> []"
  ultimately obtain j ks where "dp_timers d = [] @ j # ks" by (cases "dp_timers d") (auto simp: waiting_def)
  from timer [OF this] show ?thesis using Nil by (auto simp: QUEUE_SIZE_def)
qed (use take_job in blast)

text \<open>
  C16: every message emitted to a channel is, at any moment, waiting, sent, given up, refused or lost to a failing statement on the
  table, and exactly once; no message is tried on a channel more than four times for each time it was emitted there; and once
  nothing more is emitted the thread is done after a bounded number of steps, no message left waiting.
\<close>

theorem messages_settle:
  assumes "runs env ms d" and "(work env ^^ n) d d'"
  shows "mset ms = image_mset job_of (mset (waiting d')) +
       mset (dp_sent d' @ dp_failed d' @ dp_refused d' @ dp_crashed d') \<and>
     (\<forall>p. count_list (dp_tries d') p \<le> 4 * count_list ms p) \<and>
     n \<le> weight d \<and> (waiting d' \<noteq> [] \<longrightarrow> (\<exists>d''. work env d' d''))"
proof -
  have w: "n + weight d' \<le> weight d" "accounts_for ms d'" using works_bounded [OF assms(2) runs_account [OF assms(1)]] by blast+
  have "mset ms = image_mset job_of (mset (waiting d')) + mset (settled d')"
    and t: "\<And>p. count_list (dp_tries d') p + tries_left p (waiting d') \<le> 4 * count_list ms p"
    by (rule accounts_parts [OF w(2)])+
  moreover have "count_list (dp_tries d') p \<le> 4 * count_list ms p" for p using t [of p] by simp
  ultimately show ?thesis using w(1) can_work [of d' env] unfolding settled_def by auto
qed

section \<open>What a channel stores and shows\<close>

lemma new_channel_id: "\<forall>x\<in>set (ct_rows tab). ch_id x < next_channel tab" "ct_last tab < next_channel tab"
proof -
  have m: "a \<le> foldl max a xs \<and> (\<forall>x\<in>set xs. x \<le> foldl max a xs)" for a :: nat and xs
  proof (induction xs arbitrary: a)
    case (Cons x xs)
    show ?case using Cons.IH [of "max a x"] by simp
  qed simp
  show "\<forall>x\<in>set (ct_rows tab). ch_id x < next_channel tab" "ct_last tab < next_channel tab"
    using m [of "ct_last tab" "map ch_id (ct_rows tab)"] by (simp_all add: next_channel_def less_Suc_eq_le)
qed

lemma fetch_new_channel:
  assumes "ch_id r = next_channel tab"
  shows "fetchone (\<lambda>x. ch_id x = next_channel tab) (ct_rows tab @ [r]) = Some r"
proof -
  have "\<forall>x\<in>set rows. ch_id x \<noteq> n \<Longrightarrow> ch_id r = n \<Longrightarrow> find (\<lambda>x. ch_id x = n) (rows @ [r]) = Some r" for n rows
    by (induction rows) auto
  then show ?thesis using new_channel_id(1) [of tab] assms by (simp add: fetchone_def less_imp_neq)
qed

definition plain_setting :: "json \<Rightarrow> bool" where
  "plain_setting v = (\<not> is_encrypted (text_setting v))"

lemma http_plain: "prefix ''https://'' u \<or> prefix ''http://'' u \<Longrightarrow> \<not> is_encrypted (Some u) \<and> u \<noteq> []"
  by (cases u) (auto simp: is_encrypted_def PREFIX_def)

text \<open>The settings that are accepted, and what becomes of them in the database, in delivery and in lists.\<close>

lemma accepted_settings:
  assumes v: "validate env t m = Inr cleaned" and secret: "plain_setting (setting cleaned ''secret'')"
  obtains "secret_fields t = []"
  | u where "t = ''slack'' \<or> t = ''webhook''" "\<not> is_encrypted (Some u)" "u \<noteq> []" "cleaned = [(''url'', JText u)]"
  | u v where "t = ''webhook''" "\<not> is_encrypted (Some u)" "u \<noteq> []" "\<not> is_encrypted (Some v)" "cleaned = [(''url'', JText u), (''secret'', JText v)]"
proof -
  let ?url = "case setting m ''url'' of JText s \<Rightarrow> py_strip s | _ \<Rightarrow> []"
  consider "t = ''email''" | "t = ''slack''" | "t = ''webhook''" using v by (auto simp: validate_def CHANNEL_TYPES_def split: if_splits)
  then show thesis
  proof cases
    case 1
    then show thesis using that(1) by (simp add: secret_fields_def SECRET_FIELDS_def)
  next
    case 2
    then have "prefix ''https://'' ?url \<or> prefix ''http://'' ?url" "cleaned = [(''url'', JText ?url)]"
      using v by (simp_all add: validate_def CHANNEL_TYPES_def Let_def split: if_splits)
    then show thesis using 2 http_plain that(2) by blast
  next
    case 3
    then have u: "prefix ''https://'' ?url \<or> prefix ''http://'' ?url"
      and c: "cleaned = [(''url'', JText ?url)] \<or> (\<exists>v. cleaned = [(''url'', JText ?url), (''secret'', JText v)])"
      using v by (simp_all add: validate_def CHANNEL_TYPES_def Let_def split: if_splits) blast
    have "\<not> is_encrypted (Some v)" if "cleaned = [(''url'', JText ?url), (''secret'', JText v)]" for v
      using secret unfolding that by (simp add: plain_setting_def setting_def text_setting_def)
    then show thesis using 3 http_plain [OF u] c that(2,3) by blast
  qed
qed

lemma field_steps:
  "store_field env f m = (if falsy (setting m f) then m else AList.update f (opt_json (encrypt_secret (ne_enc env) (text_setting (setting m f)))) m)"
  "shown_field env True f m = (if falsy (setting m f) then m else AList.update f (opt_json (decrypt_secret (ne_dec env) (text_setting (setting m f)))) m)"
  "shown_field env False f m = (if falsy (setting m f) then m else AList.update f (JText (hint env f (decrypt_secret (ne_dec env) (text_setting (setting m f))))) m)"
  by (simp_all add: store_field_def shown_field_def Let_def)

lemma settings_kept:
  assumes cipher: "\<And>s. ne_dec env (ne_enc env s) = Some s" and v: "validate env t m = Inr cleaned" "plain_setting (setting cleaned ''secret'')"
  shows "fold (shown_field env True) (secret_fields t) (fold (store_field env) (secret_fields t) cleaned) = cleaned" (is ?shown)
    "\<forall>f\<in>set (secret_fields t). falsy (setting (fold (store_field env) (secret_fields t) cleaned) f) \<or>
       is_encrypted (text_setting (setting (fold (store_field env) (secret_fields t) cleaned) f))" (is ?stored)
    "\<forall>f\<in>set (secret_fields t). falsy (setting cleaned f) \<or>
       setting (fold (shown_field env False) (secret_fields t) (fold (store_field env) (secret_fields t) cleaned)) f = JText (hint env f (text_setting (setting cleaned f)))" (is ?listed)
proof -
  have enc: "encrypt_secret (ne_enc env) (Some s) = Some (PREFIX @ ne_enc env s)" "decrypt_secret (ne_dec env) (Some (PREFIX @ ne_enc env s)) = Some s"
    "is_encrypted (Some (PREFIX @ ne_enc env s))" "PREFIX @ ne_enc env s \<noteq> []" if "\<not> is_encrypted (Some s)" "s \<noteq> []" for s
    using that cipher [of s] by (simp_all add: encrypt_secret_def decrypt_secret_def is_encrypted_def PREFIX_def)
  have f: "falsy (JText s) \<longleftrightarrow> s = []" "falsy JNone" "text_setting (JText s) = Some s" "opt_json (Some s) = JText s" for s
    by (simp_all add: falsy_def text_setting_def opt_json_def)
  note defs = secret_fields_def SECRET_FIELDS_def field_steps setting_def f
  show ?shown
    by (rule accepted_settings [OF v]) (use enc in \<open>auto simp: defs split: if_splits\<close>)
  show ?stored
    by (rule accepted_settings [OF v]) (use enc in \<open>auto simp: defs split: if_splits\<close>)
  show ?listed
    by (rule accepted_settings [OF v]) (use enc in \<open>auto simp: defs split: if_splits\<close>)
qed

lemma accepted_wf: "validate env t m = Inr cleaned \<Longrightarrow> wf_json (JObject cleaned)"
proof -
  assume v: "validate env t m = Inr cleaned"
  have "wf_items xs" if "list_all address_ok xs" for xs
    using that by (induction xs) (auto simp: address_ok_def split: json.splits)
  moreover have "list_all address_ok (take n xs)" if "list_all address_ok xs" for n xs
    using that by (auto simp: list_all_iff dest: in_set_takeD)
  ultimately show ?thesis using v by (auto simp: validate_def Let_def split: if_splits)
qed

lemma stored_wf: "validate env t m = Inr cleaned \<Longrightarrow> wf_json (JObject (fold (store_field env) fs cleaned))"
proof -
  have one: "wf_json (JObject (store_field env f x))" if "wf_json (JObject x)" for f x
    using that by (auto simp: store_field_def distinct_update wf_pairs_update opt_json_def split: option.splits)
  have "wf_json (JObject x) \<Longrightarrow> wf_json (JObject (fold (store_field env) fs x))" for x
    by (induction fs arbitrary: x) (simp_all add: one del: wf_json.simps)
  then show "validate env t m = Inr cleaned \<Longrightarrow> ?thesis" using accepted_wf by blast
qed

text \<open>
  C17: a channel that was added is delivered to with exactly the settings that were accepted, under an id that no channel
  has or had; the other channels stay as they are. What the database keeps of its secret settings is encrypted, and what is listed are hints.
\<close>

theorem channel_settings:
  assumes cipher: "\<And>s. ne_dec env (ne_enc env s) = Some s"
    and new: "create_channel env now name t m events problems enabled tab = Inr (tab', c)" "validate env t m = Inr cleaned"
    and secret: "plain_setting (setting cleaned ''secret'')"
  shows "(\<exists>ch i. get_channel env True i tab' = Some ch \<and> cn_config ch = cleaned \<and> ch_id (cn_row ch) = i \<and> ch_name (cn_row ch) = name \<and>
       ct_last tab < i \<and> i \<notin> ch_id ` set (ct_rows tab) \<and> ct_last tab' = i \<and> ct_rows tab' = ct_rows tab @ [cn_row ch]) \<and>
     (\<exists>stored. loads (ch_config (cn_row c)) = Some (JObject stored) \<and>
       (\<forall>f\<in>set (secret_fields t). falsy (setting stored f) \<or> is_encrypted (text_setting (setting stored f)))) \<and>
     (\<forall>f\<in>set (secret_fields t). falsy (setting cleaned f) \<or> setting (cn_config c) f = JText (hint env f (text_setting (setting cleaned f))))"
proof -
  obtain es r where r: "tab' = \<lparr>ct_rows = ct_rows tab @ [r], ct_last = ch_id r\<rparr>" "r = \<lparr>ch_id = next_channel tab, ch_name = name, ch_type = t,
      ch_config = store_settings env t cleaned,
      ch_events = es, ch_problems = problems, ch_enabled = enabled, ch_created = now, ch_updated = now, ch_result = None\<rparr>"
    and c: "c = row_channel env False r"
    using new by (auto simp: create_channel_def Let_def split: sum.splits if_splits)
  have g: "get_channel env True (next_channel tab) tab' = Some (row_channel env True r)"
    unfolding r(1) get_channel_def channels.simps by (subst fetch_new_channel) (simp_all add: r(2))
  have stored: "loads (ch_config r) = Some (JObject (fold (store_field env) (secret_fields t) cleaned))"
    using loads_dumps [OF stored_wf [OF new(2)]] by (simp add: r(2) store_settings_def)
  have ty: "ch_type r = t" by (simp add: r(2))
  have ids: "ct_last tab < next_channel tab" "next_channel tab \<notin> ch_id ` set (ct_rows tab)" using new_channel_id [of tab] by auto
  have row: "cn_row (row_channel env True r) = r" "cn_config (row_channel env True r) = cleaned"
    using settings_kept(1) [OF cipher new(2) secret] by (simp_all add: row_channel_def stored ty)
  have one: "\<exists>ch i. get_channel env True i tab' = Some ch \<and> cn_config ch = cleaned \<and> ch_id (cn_row ch) = i \<and> ch_name (cn_row ch) = name \<and>
       ct_last tab < i \<and> i \<notin> ch_id ` set (ct_rows tab) \<and> ct_last tab' = i \<and> ct_rows tab' = ct_rows tab @ [cn_row ch]"
    by (intro exI [of _ "row_channel env True r"] exI [of _ "next_channel tab"] conjI) (use g ids row in \<open>simp_all add: r\<close>)
  moreover have "\<exists>stored. loads (ch_config (cn_row c)) = Some (JObject stored) \<and>
       (\<forall>f\<in>set (secret_fields t). falsy (setting stored f) \<or> is_encrypted (text_setting (setting stored f)))"
    using settings_kept(2) [OF cipher new(2) secret] by (simp add: c row_channel_def stored)
  moreover have "\<forall>f\<in>set (secret_fields t). falsy (setting cleaned f) \<or> setting (cn_config c) f = JText (hint env f (text_setting (setting cleaned f)))"
    using settings_kept(3) [OF cipher new(2) secret] by (simp add: c row_channel_def stored ty)
  ultimately show ?thesis by blast
qed

section \<open>Witnesses\<close>

definition demo_notify :: notify_env where
  "demo_notify = \<lparr>ne_smtp = False, ne_url = ''https://lab/'', ne_host = ''lab'', ne_version = ''2'', ne_enc = rev, ne_dec = (\<lambda>s. Some (rev s)),
     ne_hmac = (\<lambda>k b. k), ne_show = text_of, ne_ellipsis = ''...'', ne_bullets = ''***'', ne_dash = ''-''\<rparr>"

definition demo_channel :: channel_row where
  "demo_channel = \<lparr>ch_id = 1, ch_name = ''ops'', ch_type = ''webhook'', ch_config = dumps (JObject [(''url'', JText ''http://x'')]), ch_events = [],
     ch_problems = False, ch_enabled = True, ch_created = ''t'', ch_updated = ''t'', ch_result = None\<rparr>"

definition demo_message :: message where
  "demo_message = make_message demo_notify ''t'' ''alert.firing'' ''warning'' ''Disk'' [] [] (Some ''/monitoring'')"

definition demo_queued :: dispatcher where
  "demo_queued = (idle \<lparr>ct_rows = [demo_channel], ct_last = 1\<rparr>)\<lparr>dp_queue := [\<lparr>jb_channel = 1, jb_message = demo_message, jb_attempt = 0\<rparr>]\<rparr>"

lemma demo_emit: "emit demo_notify False ''t'' ''alert.firing'' ''Disk'' [] ''warning'' [] (Some ''/monitoring'') (idle \<lparr>ct_rows = [demo_channel], ct_last = 1\<rparr>) = Inr (1, demo_queued)"
  by code_simp

theorem messages_settle_witness:
  "\<exists>d d'. runs demo_notify [(1, demo_message)] d \<and> (work demo_notify ^^ 1) d d' \<and> dp_sent d' = [(1, demo_message)] \<and> waiting d' = [] \<and>
     mset [(1, demo_message)] = image_mset job_of (mset (waiting d')) + mset (dp_sent d' @ dp_failed d' @ dp_refused d' @ dp_crashed d')"
proof -
  let ?j = "\<lparr>jb_channel = 1, jb_message = demo_message, jb_attempt = 0\<rparr>" and ?net = "\<lambda>out :: outgoing. None :: string option"
  let ?d = demo_queued
  have "runs demo_notify ([] @ map (\<lambda>c. (ch_id (cn_row c), make_message demo_notify ''t'' ''alert.firing'' ''warning'' ''Disk'' [] [] (Some ''/monitoring'')))
      (filter (\<lambda>c. wants ''alert.firing'' ''warning'' (cn_row c)) (list_channels demo_notify (dp_channels (idle \<lparr>ct_rows = [demo_channel], ct_last = 1\<rparr>))))) ?d"
    by (rule runs.emits [OF runs.start demo_emit])
  then have r: "runs demo_notify [(1, demo_message)] ?d"
    by (simp add: idle_def list_channels_def row_channel_def demo_channel_def wants_def demo_message_def)
  let ?d' = "handle_job demo_notify ''t'' ?net \<lparr>fa_lookup = False, fa_record = False\<rparr> ?j (?d\<lparr>dp_queue := []\<rparr>)"
  have w: "(work demo_notify ^^ 1) ?d ?d'" using take_job [of ?d ?j "[]" demo_notify "''t''" ?net "\<lparr>fa_lookup = False, fa_record = False\<rparr>"] by (simp add: demo_queued_def idle_def eq_OO)
  have s: "dp_sent ?d' = [(1, demo_message)]" "waiting ?d' = []"
    by (simp_all add: demo_queued_def handle_job_def idle_def get_channel_def fetchone_def row_channel_def demo_channel_def deliver_def outgoing_of_def Let_def job_of_def waiting_def)
  show ?thesis using messages_settle [OF r w] r w s by blast
qed

definition demo_settings :: settings where
  "demo_settings = [(''url'', JText '' https://x/y ''), (''secret'', JText ''k'')]"

theorem channel_settings_witness:
  "\<exists>tab c ch. create_channel demo_notify ''t'' ''ops'' ''webhook'' demo_settings [] False True \<lparr>ct_rows = [], ct_last = 6\<rparr> = Inr (tab, c) \<and>
     get_channel demo_notify True (ct_last tab) tab = Some ch \<and> 6 < ct_last tab \<and>
     cn_config ch = [(''url'', JText ''https://x/y''), (''secret'', JText ''k'')]"
proof -
  have v: "validate demo_notify ''webhook'' demo_settings = Inr [(''url'', JText ''https://x/y''), (''secret'', JText ''k'')]" by code_simp
  have p: "plain_setting (setting [(''url'', JText ''https://x/y''), (''secret'', JText ''k'')] ''secret'')" by code_simp
  have "case create_channel demo_notify ''t'' ''ops'' ''webhook'' demo_settings [] False True \<lparr>ct_rows = [], ct_last = 6\<rparr> of Inl _ \<Rightarrow> False | Inr _ \<Rightarrow> True"
    by (simp add: create_channel_def v check_events_def Let_def)
  then obtain rows c where c: "create_channel demo_notify ''t'' ''ops'' ''webhook'' demo_settings [] False True \<lparr>ct_rows = [], ct_last = 6\<rparr> = Inr (rows, c)"
    by (auto split: sum.splits)
  have "ne_dec demo_notify (ne_enc demo_notify x) = Some x" for x by (simp add: demo_notify_def)
  from channel_settings [OF this c v p, THEN conjunct1] c show ?thesis by fastforce
qed

end
