(* ===== verification/Benchmarks.thy ===== *)
theory Benchmarks
  imports Deployment Alerts Tenancy "HOL-Library.Product_Lexorder"
begin

text \<open>
  \<^verbatim>\<open>services/benchmarks.py\<close>: the three tables, the scenarios, the measurements and the bottlenecks found in them, the
  summary of a benchmark and the comparison of several. A floating point number is a rational; how Python
  rounds and writes one is an argument. A column of JSON text holds the value the text stands for, or the
  text when it is not JSON; the dictionary of the results is a record of its keys, each there or not.
\<close>

section \<open>Scenarios\<close>

record phase =
  ph_agents :: "int option"
  ph_eps :: "int option"
  ph_duration :: "int option"
  ph_label :: "string option"
  ph_extra :: "(string \<times> string list) list"

record scenario =
  sc_id :: string
  sc_name :: string
  sc_description :: string
  sc_phases :: "phase list"
  sc_threshold :: rat
  sc_interval :: int

definition phase_of :: "int \<Rightarrow> int \<Rightarrow> int \<Rightarrow> string \<Rightarrow> phase" where
  "phase_of k eps duration label =
     \<lparr>ph_agents = Some k, ph_eps = Some eps, ph_duration = Some duration, ph_label = Some label, ph_extra = []\<rparr>"

definition SCENARIOS :: "(string \<times> scenario) list" where
  "SCENARIOS =
     [(''linear_scale'', \<lparr>sc_id = ''linear_scale'', sc_name = ''Linear Scale Test'',
         sc_description = ''Deploy agents in increasing increments to find maximum stable capacity'',
         sc_phases = [phase_of 5 10 120 ''Warmup (5 agents)'', phase_of 10 50 300 ''Light (10 agents)'',
           phase_of 25 100 300 ''Medium (25 agents)'', phase_of 50 200 300 ''Heavy (50 agents)'', phase_of 100 500 300 ''Max (100 agents)''],
         sc_threshold = 20 / 100, sc_interval = 15\<rparr>),
      (''burst_load'', \<lparr>sc_id = ''burst_load'', sc_name = ''Burst Load Test'',
         sc_description = ''Sudden spike of agents and events to test resilience'',
         sc_phases = [phase_of 5 10 60 ''Baseline'', phase_of 50 1000 120 ''Burst'', phase_of 5 10 120 ''Recovery''],
         sc_threshold = 30 / 100, sc_interval = 10\<rparr>),
      (''sustained_load'', \<lparr>sc_id = ''sustained_load'', sc_name = ''Sustained Load Test'',
         sc_description = ''Run at target capacity for extended duration to detect stability issues'',
         sc_phases = [phase_of 20 200 600 ''Sustained (20 agents, 10 min)''],
         sc_threshold = 10 / 100, sc_interval = 15\<rparr>),
      (''mixed_workload'', \<lparr>sc_id = ''mixed_workload'', sc_name = ''Mixed Workload Test'',
         sc_description = ''Mix of SIEM types and simulation profiles'',
         sc_phases = [(phase_of 10 50 180 ''Mixed deploy'')\<lparr>ph_extra := [(''siem_types'', [''wazuh'', ''ossec'', ''utmstack''])]\<rparr>,
           (phase_of 10 200 180 ''Mixed sims'')\<lparr>ph_extra := [(''profiles'', [''auth_bruteforce'', ''web_attacks'', ''malware_beacon''])]\<rparr>],
         sc_threshold = 15 / 100, sc_interval = 15\<rparr>),
      (''stress_test'', \<lparr>sc_id = ''stress_test'', sc_name = ''Stress Test'',
         sc_description = ''Push the platform to breaking point to find absolute limits'',
         sc_phases = [phase_of 10 100 60 ''Ramp 1'', phase_of 25 500 60 ''Ramp 2'', phase_of 50 1000 60 ''Ramp 3'',
           phase_of 100 2000 120 ''Ramp 4'', phase_of 200 5000 120 ''Breaking Point''],
         sc_threshold = 50 / 100, sc_interval = 10\<rparr>)]"

record rule =
  br_component :: string
  br_metric :: string
  br_threshold :: rat
  br_shown :: string
  br_severity :: string
  br_title :: string
  br_advice :: string

definition BOTTLENECK_RULES :: "rule list" where
  "BOTTLENECK_RULES =
     [\<lparr>br_component = ''siem_cpu'', br_metric = ''system_cpu_percent'', br_threshold = 85, br_shown = ''85'', br_severity = ''critical'',
        br_title = ''SIEM host CPU overloaded'',
        br_advice = ''Consider vertical scaling or distributing agents across multiple managers''\<rparr>,
      \<lparr>br_component = ''system_memory'', br_metric = ''system_memory_percent'', br_threshold = 90, br_shown = ''90'', br_severity = ''critical'',
        br_title = ''System memory critically high'', br_advice = ''Reduce container count or increase host RAM''\<rparr>,
      \<lparr>br_component = ''system_memory'', br_metric = ''system_memory_percent'', br_threshold = 75, br_shown = ''75'', br_severity = ''warning'',
        br_title = ''System memory usage elevated'', br_advice = ''Monitor memory trend; consider reducing memory_limit per container''\<rparr>,
      \<lparr>br_component = ''system_disk'', br_metric = ''system_disk_percent'', br_threshold = 90, br_shown = ''90'', br_severity = ''critical'',
        br_title = ''Disk space critically low'', br_advice = ''Clean up logs and old containers; expand storage''\<rparr>,
      \<lparr>br_component = ''deployment'', br_metric = ''deploy_failure_rate'', br_threshold = 20, br_shown = ''20'', br_severity = ''critical'',
        br_title = ''High deployment failure rate'', br_advice = ''Check network connectivity and SIEM manager availability''\<rparr>,
      \<lparr>br_component = ''deployment'', br_metric = ''deploy_time_p90'', br_threshold = 300, br_shown = ''300'', br_severity = ''warning'',
        br_title = ''Slow deployment times (P90 > 5 min)'', br_advice = ''Enable agent package caching; check host I/O performance''\<rparr>,
      \<lparr>br_component = ''platform_api'', br_metric = ''api_latency_p90'', br_threshold = 5000, br_shown = ''5000'', br_severity = ''warning'',
        br_title = ''API response times degraded'', br_advice = ''Check database performance and host CPU load''\<rparr>,
      \<lparr>br_component = ''agent_disconnect'', br_metric = ''agent_disconnect_rate'', br_threshold = 5, br_shown = ''5'', br_severity = ''warning'',
        br_title = ''Agent disconnect rate exceeds 5%'', br_advice = ''Check network capacity and SIEM manager connection limits''\<rparr>,
      \<lparr>br_component = ''system_load'', br_metric = ''system_load_per_core'', br_threshold = 2, br_shown = ''2.0'', br_severity = ''warning'',
        br_title = ''CPU load significantly exceeds core count'', br_advice = ''Reduce concurrent deployments or container count''\<rparr>]"

section \<open>Settings, results and the tables\<close>

datatype cfg_value = CNone | CText string | CInt int | CFloat rat | CPhases "phase list"

type_synonym cfg = "(string \<times> cfg_value) list"
type_synonym measured = "(string \<times> rat) list"

record phase_result =
  pr_phase :: nat
  pr_label :: string
  pr_status :: string
  pr_reason :: "string option"
  pr_target :: "(int \<times> int \<times> int) option"
  pr_deploy :: measured
  pr_samples :: "nat option"

record bottleneck =
  bn_id :: nat
  bn_benchmark :: string
  bn_phase :: nat
  bn_severity :: string
  bn_component :: string
  bn_title :: string
  bn_description :: string
  bn_threshold :: rat
  bn_actual :: rat
  bn_advice :: string
  bn_first_seen :: string
  bn_occurrences :: nat

record bm_summary =
  su_verdict :: string
  su_max_agents :: int
  su_peak_eps :: int
  su_deployments :: rat
  su_successful :: rat
  su_failed :: rat
  su_rate :: rat
  su_avg_time :: rat
  su_phases_completed :: nat
  su_phases :: nat
  su_critical :: nat
  su_bottlenecks :: nat
  su_details :: "bottleneck list"

record bm_live =
  lv_phase :: nat
  lv_label :: string
  lv_elapsed :: rat
  lv_metrics :: measured
  lv_deploy :: measured

record results =
  rs_live :: "bm_live option"
  rs_error :: "string option"
  rs_phases :: "phase_result list option"
  rs_summary :: "bm_summary option"
  rs_abort_reason :: "string option"

definition no_results :: results where
  "no_results = \<lparr>rs_live = None, rs_error = None, rs_phases = None, rs_summary = None, rs_abort_reason = None\<rparr>"

text \<open>A cell of JSON text; \<open>json.loads(cell or "{}")\<close> is \<open>loaded\<close>, \<open>None\<close> for its \<open>ValueError\<close>.\<close>

datatype 'a json_cell = Null | Unreadable string | Stored 'a

definition loaded :: "'a \<Rightarrow> 'a json_cell \<Rightarrow> 'a option" where
  "loaded e c = (case c of Null \<Rightarrow> Some e | Unreadable t \<Rightarrow> if t = [] then Some e else None | Stored v \<Rightarrow> Some v)"

record benchmark =
  bm_id :: string
  bm_scenario :: string
  bm_name :: "string option"
  bm_siem :: string
  bm_status :: string
  bm_config :: "cfg json_cell"
  bm_phases :: "phase list json_cell"
  bm_current :: nat
  bm_results :: "results json_cell"
  bm_started :: "string option"
  bm_completed :: "string option"
  bm_created :: "string option"

record bm_metric =
  bk_benchmark :: string
  bk_phase :: nat
  bk_category :: string
  bk_name :: string
  bk_value :: rat
  bk_at :: string

text \<open>
  \<open>bw_active\<close> is \<open>active_benchmarks\<close>: the running benchmarks, as dictionaries shared with their runs. What goes to the
  notifications and to the activity log is kept as the list of what was sent.
\<close>

record bench =
  bw_rows :: "benchmark list"
  bw_metrics :: "bm_metric list"
  bw_bottlenecks :: "bottleneck list"
  bw_next :: nat
  bw_active :: "(string \<times> benchmark) list"
  bw_fleet :: fleet
  bw_tenancy :: tenancy
  bw_sent :: "notification list"
  bw_logged :: "(string \<times> (string \<times> json) list) list"

definition SECRET_CONFIG_KEYS :: "string list" where
  "SECRET_CONFIG_KEYS = [''siem_auth_key'']"

text \<open>\<open>before\<close> and the times are ISO texts, compared as texts; the chunks of 500 delete the same rows.\<close>

definition before_or_none :: "string option \<Rightarrow> string \<Rightarrow> bool" where
  "before_or_none t limit = (case t of None \<Rightarrow> False | Some x \<Rightarrow> x < limit)"

definition is_old :: "string \<Rightarrow> benchmark \<Rightarrow> bool" where
  "is_old before r = (bm_status r \<notin> {''running'', ''pending''} \<and>
     before_or_none (case bm_completed r of None \<Rightarrow> bm_created r | Some t \<Rightarrow> Some t) before)"

definition prune_finished :: "string \<Rightarrow> bench \<Rightarrow> nat \<times> bench" where
  "prune_finished before w = (let ids = map bm_id (filter (is_old before) (bw_rows w)) in
     (length ids, w\<lparr>bw_metrics := sql_delete (\<lambda>m. bk_benchmark m \<in> set ids) (bw_metrics w),
        bw_bottlenecks := sql_delete (\<lambda>b. bn_benchmark b \<in> set ids) (bw_bottlenecks w),
        bw_rows := sql_delete (\<lambda>r. bm_id r \<in> set ids) (bw_rows w)\<rparr>))"

definition storable_config :: "cfg \<Rightarrow> cfg" where
  "storable_config c = filter (\<lambda>(k, v). k \<notin> set SECRET_CONFIG_KEYS) c"

definition has_secret :: "cfg \<Rightarrow> bool" where
  "has_secret c = list_ex (\<lambda>k. k \<in> set (map fst c)) SECRET_CONFIG_KEYS"

definition needs_scrub :: "benchmark \<Rightarrow> bool" where
  "needs_scrub r = (case loaded [] (bm_config r) of None \<Rightarrow> False | Some c \<Rightarrow> has_secret c)"

definition scrubbed :: "benchmark \<Rightarrow> benchmark" where
  "scrubbed r = (case loaded [] (bm_config r) of None \<Rightarrow> r | Some c \<Rightarrow> r\<lparr>bm_config := Stored (storable_config c)\<rparr>)"

definition scrub_stored_benchmark_secrets :: "bench \<Rightarrow> nat \<times> bench" where
  "scrub_stored_benchmark_secrets w =
     (rowcount needs_scrub (bw_rows w), w\<lparr>bw_rows := sql_update needs_scrub scrubbed (bw_rows w)\<rparr>)"

text \<open>An insert, or an update of four columns when the id is there.\<close>

definition stored_row :: "benchmark \<Rightarrow> benchmark" where
  "stored_row b = b\<lparr>bm_config := (case bm_config b of Stored c \<Rightarrow> Stored (storable_config c) | c \<Rightarrow> c)\<rparr>"

definition save_benchmark :: "benchmark \<Rightarrow> bench \<Rightarrow> bench" where
  "save_benchmark b w = w\<lparr>bw_rows := (if bm_id b \<in> bm_id ` set (bw_rows w)
     then sql_update (\<lambda>r. bm_id r = bm_id b)
        (\<lambda>r. r\<lparr>bm_status := bm_status b, bm_current := bm_current b, bm_results := bm_results b, bm_completed := bm_completed b\<rparr>)
        (bw_rows w)
     else bw_rows w @ [stored_row b])\<rparr>"

definition record_bm_metrics_batch :: "string \<Rightarrow> string \<Rightarrow> nat \<Rightarrow> (string \<times> string \<times> rat) list \<Rightarrow> bench \<Rightarrow> bench" where
  "record_bm_metrics_batch now i n rows w = w\<lparr>bw_metrics := bw_metrics w @ map (\<lambda>(c, k, v).
     \<lparr>bk_benchmark = i, bk_phase = n, bk_category = c, bk_name = k, bk_value = v, bk_at = now\<rparr>) rows\<rparr>"

definition is_for :: "string \<Rightarrow> rule \<Rightarrow> bottleneck \<Rightarrow> bool" where
  "is_for i r b = (bn_benchmark b = i \<and> bn_component b = br_component r \<and> bn_title b = br_title r)"

definition seen_again :: "rat \<Rightarrow> bottleneck \<Rightarrow> bottleneck" where
  "seen_again actual b = b\<lparr>bn_occurrences := bn_occurrences b + 1, bn_actual := actual\<rparr>"

definition record_bottleneck :: "string \<Rightarrow> string \<Rightarrow> nat \<Rightarrow> rule \<Rightarrow> string \<Rightarrow> rat \<Rightarrow> bench \<Rightarrow> bench" where
  "record_bottleneck now i n r description actual w =
     (case fetchone (is_for i r) (bw_bottlenecks w) of
        Some e \<Rightarrow> w\<lparr>bw_bottlenecks := sql_update (\<lambda>b. bn_id b = bn_id e) (seen_again actual) (bw_bottlenecks w)\<rparr>
      | None \<Rightarrow> w\<lparr>bw_bottlenecks := bw_bottlenecks w @ [\<lparr>bn_id = bw_next w, bn_benchmark = i, bn_phase = n, bn_severity = br_severity r,
          bn_component = br_component r, bn_title = br_title r, bn_description = description, bn_threshold = br_threshold r,
          bn_actual = actual, bn_advice = br_advice r, bn_first_seen = now, bn_occurrences = 1\<rparr>], bw_next := bw_next w + 1\<rparr>)"

section \<open>Measurements\<close>

text \<open>
  What is read of the host: CPUs, the two lines of \<^verbatim>\<open>/proc/meminfo\<close> in kB, the first number of \<^verbatim>\<open>/proc/loadavg\<close>
  and \<open>statvfs\<close> of the root; \<open>None\<close> when reading raises.
\<close>

record host_reading =
  hr_cpus :: nat
  hr_mem_total :: nat
  hr_mem_available :: nat
  hr_load :: rat
  hr_blocks :: nat
  hr_block_size :: nat
  hr_free_blocks :: nat

definition percent_used :: "rat \<Rightarrow> rat \<Rightarrow> rat" where
  "percent_used total_size free = (if total_size \<noteq> 0 then (total_size - free) / total_size * 100 else 0)"

definition collect_system_metrics :: "host_reading option \<Rightarrow> measured" where
  "collect_system_metrics hr = (case hr of None \<Rightarrow> [] | Some h \<Rightarrow>
     (let cpus = of_nat (if hr_cpus h = 0 then 1 else hr_cpus h); mem_total = hr_mem_total h div 1024; mem_avail = hr_mem_available h div 1024;
        disk_total = of_nat (hr_blocks h * hr_block_size h) / 1024 ^ 3; disk_free = of_nat (hr_free_blocks h * hr_block_size h) / 1024 ^ 3 in
      [(''system_cpu_count'', cpus), (''system_cpu_percent'', min (hr_load h / cpus * 100) 100), (''system_load_1m'', hr_load h),
       (''system_load_per_core'', hr_load h / cpus), (''system_memory_percent'', percent_used (of_nat mem_total) (of_nat mem_avail)),
       (''system_memory_available_mb'', of_nat mem_avail), (''system_disk_percent'', percent_used disk_total disk_free)]))"

text \<open>Whether each container runs; \<open>None\<close> when LXC raises.\<close>

definition collect_container_metrics :: "bool list option \<Rightarrow> measured" where
  "collect_container_metrics cs = (case cs of
     None \<Rightarrow> [(''containers_total'', 0), (''containers_running'', 0), (''containers_stopped'', 0)]
   | Some up \<Rightarrow> (let running = length (filter (\<lambda>b. b) up) in
       [(''containers_total'', of_nat (length up)), (''containers_running'', of_nat running),
        (''containers_stopped'', of_nat (length up) - of_nat running)]))"

definition collect_all_metrics ::
  "string \<Rightarrow> string \<Rightarrow> nat \<Rightarrow> host_reading option \<Rightarrow> bool list option \<Rightarrow> bench \<Rightarrow> measured \<times> bench" where
  "collect_all_metrics now i n hr cs w = (let s = collect_system_metrics hr; c = collect_container_metrics cs;
      rows = map (\<lambda>(k, v). (''system'', k, v)) s @ map (\<lambda>(k, v). (''container'', k, v)) c in
     (s @ c, if rows \<noteq> [] then record_bm_metrics_batch now i n rows w else w))"

definition metric_or_0 :: "measured \<Rightarrow> string \<Rightarrow> rat" where
  "metric_or_0 m k = (case map_of m k of None \<Rightarrow> 0 | Some v \<Rightarrow> v)"

definition metric_map :: "measured \<Rightarrow> measured" where
  "metric_map m = map (\<lambda>k. (k, metric_or_0 m k))
     [''system_cpu_percent'', ''system_memory_percent'', ''system_disk_percent'', ''system_load_per_core'']"

definition crosses :: "rule \<Rightarrow> measured \<Rightarrow> bool" where
  "crosses r m = (case map_of (metric_map m) (br_metric r) of None \<Rightarrow> False | Some v \<Rightarrow> br_threshold r < v)"

definition detect_bottlenecks :: "(nat \<Rightarrow> rat \<Rightarrow> string) \<Rightarrow> string \<Rightarrow> string \<Rightarrow> nat \<Rightarrow> measured \<Rightarrow> bench \<Rightarrow> bench" where
  "detect_bottlenecks show_rat now i n m w = fold (\<lambda>r w. if crosses r m
     then let v = metric_or_0 m (br_metric r) in record_bottleneck now i n r
        (br_metric r @ '' = '' @ show_rat 1 v @ '' (threshold: '' @ br_shown r @ '')'') v w
     else w) BOTTLENECK_RULES w"

section \<open>The summary and the comparison\<close>

text \<open>\<open>ORDER BY severity, occurrences DESC\<close>; rows that tie stay in the order of the table.\<close>

definition benchmark_bottlenecks :: "string \<Rightarrow> bench \<Rightarrow> bottleneck list" where
  "benchmark_bottlenecks i w =
     sort_key (\<lambda>b. (bn_severity b, - int (bn_occurrences b))) (filter (\<lambda>b. bn_benchmark b = i) (bw_bottlenecks w))"

definition build_summary :: "(nat \<Rightarrow> rat \<Rightarrow> rat) \<Rightarrow> string \<Rightarrow> phase_result list \<Rightarrow> int \<Rightarrow> int \<Rightarrow> bench \<Rightarrow> bm_summary" where
  "build_summary rounded i prs max_agents peak w =
     (let sum_of = (\<lambda>k. sum_list (map (\<lambda>p. metric_or_0 (pr_deploy p) k) prs));
        deploys = sum_of ''deploy_total''; success = sum_of ''deploy_success''; failed = sum_of ''deploy_failures'';
        times = filter (\<lambda>t. 0 < t) (map (\<lambda>p. metric_or_0 (pr_deploy p) ''deploy_time_avg'') prs);
        bottlenecks = benchmark_bottlenecks i w; critical = filter (\<lambda>b. bn_severity b = ''critical'') bottlenecks in
      \<lparr>su_verdict = (if critical \<noteq> [] then ''FAIL''
         else if 0 < failed \<and> 0 < deploys \<and> 5 / 100 < failed / deploys then ''WARN'' else ''PASS''),
       su_max_agents = max_agents, su_peak_eps = peak, su_deployments = deploys, su_successful = success, su_failed = failed,
       su_rate = (if deploys \<noteq> 0 then rounded 1 (success / deploys * 100) else 0),
       su_avg_time = (if times \<noteq> [] then rounded 1 (sum_list times / of_nat (length times)) else 0),
       su_phases_completed = length (filter (\<lambda>p. pr_status p = ''completed'') prs), su_phases = length prs,
       su_critical = length critical, su_bottlenecks = length bottlenecks, su_details = take 10 bottlenecks\<rparr>)"

record bm_entry =
  en_benchmark :: string
  en_name :: "string option"
  en_scenario :: string
  en_type :: string
  en_status :: string
  en_started :: "string option"
  en_max_agents :: rat
  en_rate :: rat
  en_deploy_time :: rat
  en_verdict :: string
  en_bottlenecks :: rat

record bm_change =
  cg_metric :: string
  cg_baseline :: rat
  cg_current :: rat
  cg_delta :: rat
  cg_percent :: rat

record bm_comparison =
  co_entries :: "bm_entry list"
  co_winner :: "string option"
  co_improvements :: "bm_change list"
  co_regressions :: "bm_change list"
  co_summary :: "string option"

definition text_or :: "cfg \<Rightarrow> string \<Rightarrow> string \<Rightarrow> string" where
  "text_or c k d = (case map_of c k of Some (CText t) \<Rightarrow> if t = [] then d else t | _ \<Rightarrow> d)"

definition entry_of :: "benchmark \<Rightarrow> cfg \<Rightarrow> results \<Rightarrow> bm_entry" where
  "entry_of r c rs = (let s = rs_summary rs; of_summary = (\<lambda>f. case s of None \<Rightarrow> 0 | Some x \<Rightarrow> f x) in
     \<lparr>en_benchmark = bm_id r, en_name = bm_name r, en_scenario = bm_scenario r, en_type = text_or c ''siem_type'' (bm_siem r),
      en_status = bm_status r, en_started = bm_started r, en_max_agents = of_summary (\<lambda>x. of_int (su_max_agents x)),
      en_rate = of_summary su_rate, en_deploy_time = of_summary su_avg_time,
      en_verdict = (case s of None \<Rightarrow> ''N/A'' | Some x \<Rightarrow> su_verdict x), en_bottlenecks = of_summary (\<lambda>x. of_nat (su_bottlenecks x))\<rparr>)"

definition bm_score :: "bm_entry \<Rightarrow> rat" where
  "bm_score e = en_max_agents e * 10 + en_rate e - en_deploy_time e - en_bottlenecks e * 5"

definition best_of :: "bm_entry list \<Rightarrow> rat \<times> string option" where
  "best_of es = fold (\<lambda>e (best, i). if best < bm_score e then (bm_score e, Some (en_benchmark e)) else (best, i)) es (-1, None)"

definition change_of :: "(nat \<Rightarrow> rat \<Rightarrow> rat) \<Rightarrow> bm_entry \<Rightarrow> bm_entry \<Rightarrow> string \<times> (bm_entry \<Rightarrow> rat) \<times> bool \<Rightarrow> (bm_change \<times> bool) option" where
  "change_of rounded base current = (\<lambda>(k, f, lower_better).
     let bv = f base; cv = f current; delta = cv - bv in
     if bv = 0 \<and> cv = 0 then None
     else let c = \<lparr>cg_metric = k, cg_baseline = bv, cg_current = cv, cg_delta = rounded 2 delta,
            cg_percent = (if bv \<noteq> 0 then rounded 1 (\<bar>delta\<bar> / bv * 100) else 0)\<rparr> in
       if (if lower_better then cv < bv else bv < cv) then Some (c, True)
       else if delta \<noteq> 0 then Some (c, False) else None)"

definition compared :: "(string \<times> (bm_entry \<Rightarrow> rat) \<times> bool) list" where
  "compared = [(''max_agents'', en_max_agents, False), (''success_rate'', en_rate, False), (''avg_deploy_time'', en_deploy_time, True)]"

definition compared_rows :: "string list \<Rightarrow> bench \<Rightarrow> benchmark list" where
  "compared_rows ids w = List.map_filter (\<lambda>i. fetchone (\<lambda>r. bm_id r = i) (bw_rows w)) ids"

definition entries_of :: "benchmark list \<Rightarrow> bm_entry list option" where
  "entries_of rows = those (map (\<lambda>r. case (loaded no_results (bm_results r), loaded [] (bm_config r)) of
     (Some rs, Some c) \<Rightarrow> Some (entry_of r c rs) | _ \<Rightarrow> None) rows)"

definition best_text :: "(rat \<Rightarrow> string) \<Rightarrow> bm_entry \<Rightarrow> string" where
  "best_text show_num e = ''Best performing: \"'' @ (case en_name e of None \<Rightarrow> ''None'' | Some n \<Rightarrow> n) @ ''\" with '' @ show_num (en_max_agents e) @ '' max agents, '' @
     show_num (en_rate e) @ ''% success rate, '' @ show_num (en_deploy_time e) @ ''s avg deploy. Verdict: '' @ en_verdict e @ ''.''"

text \<open>\<open>Inl None\<close>: a cell is not JSON (\<open>ValueError\<close>); \<open>Inl (Some m)\<close>: the error answered.\<close>

definition compare_benchmarks ::
  "(nat \<Rightarrow> rat \<Rightarrow> rat) \<Rightarrow> (rat \<Rightarrow> string) \<Rightarrow> string list \<Rightarrow> bench \<Rightarrow> string option + bm_comparison" where
  "compare_benchmarks rounded show_num ids w = (case entries_of (compared_rows ids w) of
     None \<Rightarrow> Inl None
   | Some es \<Rightarrow>
       if length es < 2 then Inl (Some ''Need at least 2 benchmarks to compare'')
       else let winner = snd (best_of es); changes = List.map_filter (change_of rounded (hd es) (last es)) compared in
         Inr \<lparr>co_entries = es, co_winner = winner,
           co_improvements = map fst (filter snd changes), co_regressions = map fst (filter (\<lambda>c. \<not> snd c) changes),
           co_summary = (case winner of None \<Rightarrow> None | Some i \<Rightarrow> if i = [] then None else map_option (best_text show_num) (List.find (\<lambda>e. en_benchmark e = i) es))\<rparr>)"

section \<open>Queries and recovery\<close>

definition get_benchmark :: "string \<Rightarrow> bench \<Rightarrow> benchmark option" where
  "get_benchmark i w = fetchone (\<lambda>r. bm_id r = i) (bw_rows w)"

definition list_benchmarks :: "bench \<Rightarrow> benchmark list" where
  "list_benchmarks w = rev (sort_key (\<lambda>r. case bm_created r of None \<Rightarrow> (0::nat, []) | Some t \<Rightarrow> (1, t)) (rev (bw_rows w)))"

definition get_benchmark_metrics :: "string \<Rightarrow> string option \<Rightarrow> nat \<Rightarrow> bench \<Rightarrow> bm_metric list" where
  "get_benchmark_metrics i category limit w = take limit (rev (sort_key bk_at (rev (filter
     (\<lambda>m. bk_benchmark m = i \<and> (case category of None \<Rightarrow> True | Some c \<Rightarrow> c = [] \<or> bk_category m = c)) (bw_metrics w)))))"

definition is_stale :: "bench \<Rightarrow> benchmark \<Rightarrow> bool" where
  "is_stale w r = (bm_status r = ''running'' \<and> bm_id r \<notin> fst ` set (bw_active w))"

text \<open>\<open>json_set\<close> fails on a text that is not JSON: then the whole cleanup raises and nothing is kept.\<close>

definition marked_stale :: "string \<Rightarrow> benchmark \<Rightarrow> benchmark" where
  "marked_stale now r = r\<lparr>bm_status := ''aborted'', bm_completed := Some now,
     bm_results := (case bm_results r of Stored rs \<Rightarrow> Stored (rs\<lparr>rs_abort_reason := Some ''Server restart or crash recovery''\<rparr>)
       | c \<Rightarrow> Stored (no_results\<lparr>rs_abort_reason := Some ''Server restart or crash recovery''\<rparr>))\<rparr>"

definition unreadable :: "'a json_cell \<Rightarrow> bool" where
  "unreadable c = (case c of Unreadable _ \<Rightarrow> True | _ \<Rightarrow> False)"

definition cleanup_stale_benchmarks :: "string \<Rightarrow> bench \<Rightarrow> string + nat \<times> bench" where
  "cleanup_stale_benchmarks now w =
     (if list_ex (\<lambda>r. is_stale w r \<and> unreadable (bm_results r)) (bw_rows w) then Inl ''malformed JSON''
      else Inr (rowcount (is_stale w) (bw_rows w), w\<lparr>bw_rows := sql_update (is_stale w) (marked_stale now) (bw_rows w)\<rparr>))"

section \<open>Bottlenecks count the measurements above a threshold\<close>

definition above :: "string \<Rightarrow> rule \<Rightarrow> bm_metric \<Rightarrow> bool" where
  "above i r m = (bk_benchmark m = i \<and> bk_category m = ''system'' \<and> bk_name m = br_metric r \<and> br_threshold r < bk_value m)"

definition occurrences :: "string \<Rightarrow> rule \<Rightarrow> bench \<Rightarrow> nat list" where
  "occurrences i r w = map bn_occurrences (filter (is_for i r) (bw_bottlenecks w))"

definition bump :: "nat list \<Rightarrow> nat list" where
  "bump ks = (case ks of [] \<Rightarrow> [1] | k # ks \<Rightarrow> Suc k # ks)"

definition bn_numbered :: "bench \<Rightarrow> bool" where
  "bn_numbered w = (distinct (map bn_id (bw_bottlenecks w)) \<and> (\<forall>b\<in>set (bw_bottlenecks w). bn_id b < bw_next w))"

definition of_host :: "rule \<Rightarrow> bool" where
  "of_host r = (br_metric r \<in> {''system_cpu_percent'', ''system_memory_percent'', ''system_disk_percent'', ''system_load_per_core''})"

definition from_rules :: "string \<Rightarrow> bench \<Rightarrow> bool" where
  "from_rules i w = (\<forall>b\<in>set (bw_bottlenecks w). bn_benchmark b = i \<longrightarrow>
     (\<exists>r\<in>set BOTTLENECK_RULES. is_for i r b \<and> of_host r \<and> bn_severity b = br_severity r))"

definition exactly :: "nat \<Rightarrow> nat list" where
  "exactly k = (if k = 0 then [] else [k])"

definition counted :: "string \<Rightarrow> bench \<Rightarrow> bool" where
  "counted i w = (\<forall>r\<in>set BOTTLENECK_RULES. occurrences i r w = exactly (length (filter (above i r) (bw_metrics w))))"

lemma bump_exactly: "bump (exactly k) = exactly (Suc k)"
  by (simp add: bump_def exactly_def)

lemma titles_distinct: "distinct (map br_title BOTTLENECK_RULES)"
  by (simp add: BOTTLENECK_RULES_def)

lemma rules_apart_titles:
  "r \<in> set BOTTLENECK_RULES \<Longrightarrow> q \<in> set BOTTLENECK_RULES \<Longrightarrow> br_component r = br_component q \<and> br_title r = br_title q \<Longrightarrow> r = q"
  using titles_distinct by (metis distinct_map_eq)

lemma rules_apart:
  "r \<in> set BOTTLENECK_RULES \<Longrightarrow> q \<in> set BOTTLENECK_RULES \<Longrightarrow> is_for i r b \<Longrightarrow> is_for i q b \<Longrightarrow> r = q"
  by (rule rules_apart_titles) (simp_all add: is_for_def)

lemma update_absent: "key e \<notin> key ` set xs \<Longrightarrow> map (\<lambda>b. if key b = key e then f b else b) xs = xs"
  by (rule map_idI) (metis image_eqI)

lemma filter_update_first:
  assumes "distinct (map key xs)" "List.find P xs = Some e" "\<And>b. P (f b) = P b" "\<And>b. g (f b) = Suc (g b)"
  shows "map g (filter P (map (\<lambda>b. if key b = key e then f b else b) xs)) = bump (map g (filter P xs))"
  using assms(1,2)
proof (induction xs)
  case (Cons x xs)
  show ?case
  proof (cases "P x")
    case True
    then have e: "e = x" using Cons.prems(2) by simp
    have "map (\<lambda>b. if key b = key x then f b else b) xs = xs" using Cons.prems(1) by (simp add: update_absent)
    then show ?thesis using True e by (simp add: assms(3,4) bump_def)
  next
    case False
    then have "List.find P xs = Some e" using Cons.prems(2) by simp
    then show ?thesis using Cons False by (simp add: assms(3))
  qed
qed simp

lemma filter_update_other:
  assumes "distinct (map key xs)" "e \<in> set xs" "\<not> P e" "\<And>b. P (f b) = P b"
  shows "map g (filter P (map (\<lambda>b. if key b = key e then f b else b) xs)) = map g (filter P xs)"
  using assms(1,2)
proof (induction xs)
  case (Cons x xs)
  show ?case
  proof (cases "x = e")
    case True
    have "map (\<lambda>b. if key b = key e then f b else b) xs = xs" using Cons.prems(1) True by (simp add: update_absent)
    then show ?thesis using True assms(3,4) by simp
  next
    case False
    then have "e \<in> set xs" "key x \<noteq> key e" using Cons.prems by (auto simp: rev_image_eqI)
    then show ?thesis using Cons by simp
  qed
qed simp

lemma seen_again_simps [simp]: "bn_id (seen_again v b) = bn_id b" "bn_benchmark (seen_again v b) = bn_benchmark b"
  "bn_severity (seen_again v b) = bn_severity b"
  "bn_component (seen_again v b) = bn_component b" "bn_title (seen_again v b) = bn_title b" "is_for i r (seen_again v b) = is_for i r b"
  "bn_occurrences (seen_again v b) = Suc (bn_occurrences b)"
  by (simp_all add: seen_again_def is_for_def)

lemma bottleneck_numbered: "bn_numbered w \<Longrightarrow> bn_numbered (record_bottleneck now i n r d v w)"
  by (fastforce simp: bn_numbered_def record_bottleneck_def sql_update_def comp_def if_distrib split: option.split cong: if_cong)

lemma bottleneck_from_rules:
  "r \<in> set BOTTLENECK_RULES \<Longrightarrow> of_host r \<Longrightarrow> from_rules i w \<Longrightarrow> from_rules i (record_bottleneck now i n r d v w)"
  by (auto simp: from_rules_def record_bottleneck_def sql_update_def is_for_def split: option.split)

lemma occurrences_bumped:
  assumes "bn_numbered w"
  shows "occurrences i r (record_bottleneck now i n r d v w) = bump (occurrences i r w)"
proof (cases "fetchone (is_for i r) (bw_bottlenecks w)")
  case None
  then have "filter (is_for i r) (bw_bottlenecks w) = []" by (simp add: fetchone_None filter_empty_conv)
  then show ?thesis using None by (simp add: occurrences_def record_bottleneck_def is_for_def bump_def)
next
  case (Some e)
  have "distinct (map bn_id (bw_bottlenecks w))" using assms by (simp add: bn_numbered_def)
  from filter_update_first [OF this Some [unfolded fetchone_def], of "seen_again v" bn_occurrences]
  show ?thesis using Some by (simp add: occurrences_def record_bottleneck_def sql_update_def)
qed

lemma occurrences_other:
  assumes "bn_numbered w" "r \<in> set BOTTLENECK_RULES" "q \<in> set BOTTLENECK_RULES" "q \<noteq> r"
  shows "occurrences i q (record_bottleneck now i n r d v w) = occurrences i q w"
proof (cases "fetchone (is_for i r) (bw_bottlenecks w)")
  case None
  have "\<not> (br_component r = br_component q \<and> br_title r = br_title q)" using rules_apart_titles [OF assms(2,3)] assms(4) by blast
  then show ?thesis using None by (auto simp: occurrences_def record_bottleneck_def is_for_def)
next
  case (Some e)
  have e: "e \<in> set (bw_bottlenecks w)" "is_for i r e" using Some by (simp_all add: fetchone_Some)
  then have "\<not> is_for i q e" using rules_apart [OF assms(2,3)] assms(4) by blast
  moreover have "distinct (map bn_id (bw_bottlenecks w))" using assms by (simp add: bn_numbered_def)
  ultimately show ?thesis using Some filter_update_other [OF _ e(1), where key = bn_id and P = "is_for i q" and g = bn_occurrences and
      f = "seen_again v"]
    by (simp add: occurrences_def record_bottleneck_def sql_update_def)
qed

text \<open>What one measurement does to the bottlenecks, rule by rule.\<close>

definition noted :: "(nat \<Rightarrow> rat \<Rightarrow> string) \<Rightarrow> string \<Rightarrow> string \<Rightarrow> nat \<Rightarrow> measured \<Rightarrow> rule \<Rightarrow> bench \<Rightarrow> bench" where
  "noted show_rat now i n m r w = (if crosses r m
     then let v = metric_or_0 m (br_metric r) in record_bottleneck now i n r
        (br_metric r @ '' = '' @ show_rat 1 v @ '' (threshold: '' @ br_shown r @ '')'') v w
     else w)"

lemma detect_noted: "detect_bottlenecks sh now i n m = fold (noted sh now i n m) BOTTLENECK_RULES"
  by (rule ext) (simp add: detect_bottlenecks_def noted_def [abs_def])

lemma fold_noted:
  assumes "bn_numbered w" "set rs \<subseteq> set BOTTLENECK_RULES" "distinct rs" "q \<in> set BOTTLENECK_RULES"
  shows "bn_numbered (fold (noted sh now i n m) rs w) \<and>
    occurrences i q (fold (noted sh now i n m) rs w) = (if q \<in> set rs \<and> crosses q m then bump (occurrences i q w) else occurrences i q w)"
  using assms(1-3)
proof (induction rs arbitrary: w)
  case (Cons r rs)
  have n: "bn_numbered (noted sh now i n m r w)" using Cons.prems(1) by (simp add: noted_def Let_def bottleneck_numbered)
  have "occurrences i q (noted sh now i n m r w) =
      (if q = r \<and> crosses q m then bump (occurrences i q w) else occurrences i q w)"
    using Cons.prems(1,2) assms(4) by (auto simp: noted_def Let_def occurrences_bumped occurrences_other)
  then show ?case using Cons.IH [OF n] Cons.prems(2,3) by auto
qed simp

lemma rules_distinct: "distinct BOTTLENECK_RULES"
  using titles_distinct by (simp add: distinct_map)

lemma detect_occurrences:
  "bn_numbered w \<Longrightarrow> q \<in> set BOTTLENECK_RULES \<Longrightarrow> occurrences i q (detect_bottlenecks sh now i n m w) =
     (if crosses q m then bump (occurrences i q w) else occurrences i q w)"
  using fold_noted [OF _ subset_refl rules_distinct] by (simp add: detect_noted)

lemma detect_numbered: "bn_numbered w \<Longrightarrow> bn_numbered (detect_bottlenecks sh now i n m w)"
  by (simp add: detect_noted) (rule fold_invariant [where P = bn_numbered and Q = "\<lambda>_. True"];
    simp add: noted_def Let_def bottleneck_numbered)

lemma crosses_of_host: "crosses r m \<Longrightarrow> of_host r"
  by (auto simp: crosses_def metric_map_def of_host_def split: if_splits)

lemma detect_from_rules: "from_rules i w \<Longrightarrow> from_rules i (detect_bottlenecks sh now i n m w)"
  by (simp add: detect_noted) (rule fold_invariant [where P = "from_rules i" and Q = "\<lambda>r. r \<in> set BOTTLENECK_RULES"];
    simp add: noted_def Let_def bottleneck_from_rules crosses_of_host)

text \<open>Detecting only touches the table of bottlenecks.\<close>

definition same_but_bottlenecks :: "bench \<Rightarrow> bench \<Rightarrow> bool" where
  "same_but_bottlenecks w v = (bw_rows v = bw_rows w \<and> bw_metrics v = bw_metrics w \<and> bw_active v = bw_active w \<and>
     bw_fleet v = bw_fleet w \<and> bw_tenancy v = bw_tenancy w \<and> bw_sent v = bw_sent w \<and> bw_logged v = bw_logged w)"

lemma bottleneck_rest: "same_but_bottlenecks w v \<Longrightarrow> same_but_bottlenecks w (record_bottleneck now i n r d x v)"
  by (simp add: same_but_bottlenecks_def record_bottleneck_def split: option.split)

lemma detect_rest: "same_but_bottlenecks w (detect_bottlenecks sh now i n m w)"
proof -
  have "same_but_bottlenecks w v \<Longrightarrow> same_but_bottlenecks w (noted sh now i n m r v)" for r v
    by (simp add: noted_def Let_def bottleneck_rest)
  then show ?thesis unfolding detect_noted
    by (intro fold_invariant [where P = "same_but_bottlenecks w" and Q = "\<lambda>_. True"]) (simp_all add: same_but_bottlenecks_def)
qed

text \<open>A measurement stores, above a rule's threshold, one value when the rule is crossed and none otherwise.\<close>

definition over :: "rule \<Rightarrow> string \<times> rat \<Rightarrow> bool" where
  "over r kv = (fst kv = br_metric r \<and> br_threshold r < snd kv)"

definition system_sample :: "rat \<Rightarrow> rat \<Rightarrow> rat \<Rightarrow> rat \<Rightarrow> rat \<Rightarrow> rat \<Rightarrow> rat \<Rightarrow> measured" where
  "system_sample a b c d e f g = [(''system_cpu_count'', a), (''system_cpu_percent'', b), (''system_load_1m'', c), (''system_load_per_core'', d),
     (''system_memory_percent'', e), (''system_memory_available_mb'', f), (''system_disk_percent'', g)]"

lemma system_cases:
  obtains "collect_system_metrics hr = []" | a b c d e f g where "collect_system_metrics hr = system_sample a b c d e f g"
  by (cases hr) (simp_all add: collect_system_metrics_def system_sample_def Let_def)

lemma container_cases:
  obtains x y z where "collect_container_metrics cs = [(''containers_total'', x), (''containers_running'', y), (''containers_stopped'', z)]"
  by (cases cs) (simp_all add: collect_container_metrics_def Let_def)

lemma rule_metrics:
  "r \<in> set BOTTLENECK_RULES \<Longrightarrow> 0 \<le> br_threshold r \<and> br_metric r \<in> {''system_cpu_percent'', ''system_memory_percent'',
     ''system_disk_percent'', ''system_load_per_core'', ''deploy_failure_rate'', ''deploy_time_p90'', ''api_latency_p90'', ''agent_disconnect_rate''}"
  by (auto simp: BOTTLENECK_RULES_def)

lemma sample_over:
  assumes "br_metric r = k" "k \<in> {''system_cpu_percent'', ''system_memory_percent'',
     ''system_disk_percent'', ''system_load_per_core'', ''deploy_failure_rate'', ''deploy_time_p90'', ''api_latency_p90'', ''agent_disconnect_rate''}"
  shows "length (filter (over r) (system_sample a b c d e f g)) =
    (if crosses r (system_sample a b c d e f g @ [(''containers_total'', x), (''containers_running'', y), (''containers_stopped'', z)]) then 1 else 0)"
  using assms(2) by (elim insertE emptyE) (simp_all add: assms(1) crosses_def metric_map_def metric_or_0_def system_sample_def over_def)

lemma over_crosses:
  assumes "r \<in> set BOTTLENECK_RULES"
  shows "length (filter (over r) (collect_system_metrics hr)) =
    (if crosses r (collect_system_metrics hr @ collect_container_metrics cs) then 1 else 0)"
proof -
  obtain x y z where c: "collect_container_metrics cs = [(''containers_total'', x), (''containers_running'', y), (''containers_stopped'', z)]"
    by (rule container_cases)
  show ?thesis
  proof (cases hr rule: system_cases)
    case 1
    then show ?thesis using rule_metrics [OF assms] by (auto simp: c crosses_def metric_map_def metric_or_0_def)
  next
    case (2 a b c' d e f g)
    then show ?thesis using sample_over [OF refl] rule_metrics [OF assms] by (simp only: 2 c)
  qed
qed

lemma above_crosses:
  assumes "r \<in> set BOTTLENECK_RULES"
  shows "length (filter (above i r) (bw_metrics (snd (collect_all_metrics now i n hr cs w)))) =
    length (filter (above i r) (bw_metrics w)) + (if crosses r (fst (collect_all_metrics now i n hr cs w)) then 1 else 0)"
proof -
  have "filter (above i r) (map (\<lambda>(c, k, v). \<lparr>bk_benchmark = i, bk_phase = n, bk_category = c, bk_name = k, bk_value = v, bk_at = now\<rparr>)
      (map (\<lambda>(k, v). (''system'', k, v)) s @ map (\<lambda>(k, v). (''container'', k, v)) c)) =
    map (\<lambda>(k, v). \<lparr>bk_benchmark = i, bk_phase = n, bk_category = ''system'', bk_name = k, bk_value = v, bk_at = now\<rparr>) (filter (over r) s)"
    for s c by (auto simp: filter_map comp_def above_def over_def [abs_def] case_prod_beta' filter_empty_conv)
  then show ?thesis using over_crosses [OF assms, of hr cs]
    by (auto simp: collect_all_metrics_def Let_def record_bm_metrics_batch_def simp del: map_append map_map)
qed

lemma measured_counted:
  assumes "counted i w" "bn_numbered w" "collect_all_metrics now i n hr cs w = (m, w1)"
  shows "counted i (detect_bottlenecks sh now i n m w1)" "bn_numbered (detect_bottlenecks sh now i n m w1)"
proof -
  have b: "bw_bottlenecks w1 = bw_bottlenecks w" "bw_next w1 = bw_next w"
    using assms(3) by (auto simp: collect_all_metrics_def Let_def record_bm_metrics_batch_def split: if_splits)
  then have n: "bn_numbered w1" using assms(2) by (simp add: bn_numbered_def)
  then show "bn_numbered (detect_bottlenecks sh now i n m w1)" by (rule detect_numbered)
  have metrics: "bw_metrics (detect_bottlenecks sh now i n m w1) = bw_metrics w1" using detect_rest by (simp add: same_but_bottlenecks_def)
  show "counted i (detect_bottlenecks sh now i n m w1)" unfolding counted_def
  proof
    fix r assume r: "r \<in> set BOTTLENECK_RULES"
    have "occurrences i r w1 = exactly (length (filter (above i r) (bw_metrics w)))"
      using assms(1) r b by (simp add: counted_def occurrences_def)
    then show "occurrences i r (detect_bottlenecks sh now i n m w1) =
        exactly (length (filter (above i r) (bw_metrics (detect_bottlenecks sh now i n m w1))))"
      using above_crosses [OF r, of i now n hr cs w] assms(3)
      by (simp add: detect_occurrences [OF n r] metrics bump_exactly)
  qed
qed

end
