(* ===== verification/Benchmark_Runs.thy ===== *)
theory Benchmark_Runs
  imports Benchmarks
begin

text \<open>
  \<open>run_benchmark\<close> of \<^verbatim>\<open>services/benchmarks.py\<close> and the requests of \<^verbatim>\<open>routes/benchmarks.py\<close> that change something. A run
  only waits while it sleeps between two measurements, so a stop comes there: \<open>ro_stop\<close>. Given are what the
  workers return for a container, in which order they finish, the clock, the measurements, and the
  exceptions of the database.
\<close>

section \<open>Requests on a running benchmark\<close>

definition upd_active :: "string \<Rightarrow> (benchmark \<Rightarrow> benchmark) \<Rightarrow> bench \<Rightarrow> bench" where
  "upd_active i f w = w\<lparr>bw_active := AList.map_entry i f (bw_active w)\<rparr>"

definition save_active :: "string \<Rightarrow> bench \<Rightarrow> bench" where
  "save_active i w = (case map_of (bw_active w) i of None \<Rightarrow> w | Some b \<Rightarrow> save_benchmark b w)"

definition stop_benchmark :: "string \<Rightarrow> string \<Rightarrow> bench \<Rightarrow> (bool \<times> string) \<times> bench" where
  "stop_benchmark now i w =
     (if i \<in> fst ` set (bw_active w) then ((True, ''Benchmark stop requested''), upd_active i (\<lambda>b. b\<lparr>bm_status := ''stopped''\<rparr>) w)
      else case get_benchmark i w of
        Some b \<Rightarrow> if bm_status b = ''running''
          then ((True, ''Stale benchmark marked as aborted''), save_benchmark (b\<lparr>bm_status := ''aborted'', bm_completed := Some now\<rparr>) w)
          else ((False, ''Benchmark not found or not running''), w)
      | None \<Rightarrow> ((False, ''Benchmark not found or not running''), w))"

section \<open>A run\<close>

record bench_env =
  be_workers :: nat
  be_show :: "nat \<Rightarrow> rat \<Rightarrow> string"
  be_round :: "nat \<Rightarrow> rat \<Rightarrow> rat"
  be_codec :: codec
  be_worker :: "deploy_config \<Rightarrow> string \<Rightarrow> string + deploy_result"

text \<open>One turn of the monitoring loop: the clock at its condition, what is measured, whether a stop comes during the sleep.\<close>

record bm_round =
  ro_clock :: rat
  ro_now :: string
  ro_host :: "host_reading option"
  ro_containers :: "bool list option"
  ro_elapsed :: rat
  ro_fault :: "string option"
  ro_stop :: bool

record phase_run =
  pi_now :: string
  pi_seconds :: int
  pi_listed :: "string + string list"
  pi_pool :: "string option"
  pi_order :: "string list \<Rightarrow> string list"
  pi_stamp :: "string \<Rightarrow> string"
  pi_deploy_seconds :: rat
  pi_fault :: "string option"
  pi_start :: rat
  pi_rounds :: "bm_round list"

record run_input =
  ri_now :: string
  ri_end :: string
  ri_phase :: "nat \<Rightarrow> phase_run"

definition cfg_text :: "cfg \<Rightarrow> string \<Rightarrow> string \<Rightarrow> string" where
  "cfg_text c k d = (case map_of c k of Some (CText t) \<Rightarrow> t | _ \<Rightarrow> d)"

definition cfg_number :: "cfg \<Rightarrow> string \<Rightarrow> rat \<Rightarrow> rat" where
  "cfg_number c k d = (case map_of c k of Some (CInt n) \<Rightarrow> of_int n | Some (CFloat r) \<Rightarrow> r | _ \<Rightarrow> d)"

definition cfg_int :: "cfg \<Rightarrow> string \<Rightarrow> int \<Rightarrow> int" where
  "cfg_int c k d = (case map_of c k of Some (CInt n) \<Rightarrow> n | _ \<Rightarrow> d)"

definition cfg_phases :: "cfg \<Rightarrow> scenario \<Rightarrow> phase list" where
  "cfg_phases c s = (case map_of c ''phases'' of Some (CPhases ps) \<Rightarrow> if ps = [] then sc_phases s else ps | _ \<Rightarrow> sc_phases s)"

definition or_value :: "'a option \<Rightarrow> 'a \<Rightarrow> 'a" where
  "or_value x d = (case x of None \<Rightarrow> d | Some v \<Rightarrow> v)"

definition bm_base_name :: "string \<Rightarrow> cfg \<Rightarrow> string" where
  "bm_base_name i c = cfg_text c ''base_name'' (''bm-'' @ take 8 i)"

definition agent_names :: "string \<Rightarrow> nat \<Rightarrow> int \<Rightarrow> string list" where
  "agent_names base n amount = map (\<lambda>j. base @ ''-p'' @ nat_str n @ ''-'' @ zfill 4 (nat_str j)) [1..<nat amount + 1]"

definition deploy_settings :: "cfg \<Rightarrow> deploy_config" where
  "deploy_settings c = \<lparr>dc_siem_type = cfg_text c ''siem_type'' ''none'', dc_siem_ip = Some (cfg_text c ''siem_ip'' []),
     dc_siem_version = Some (cfg_text c ''siem_version'' []), dc_os_type = text_or c ''os_type'' ''ubuntu_22_04'',
     dc_agent_group = cfg_text c ''agent_group'' ''benchmark'', dc_memory_limit = Some (cfg_text c ''memory_limit'' ''256MB''),
     dc_cpu_shares = Some (cfg_int c ''cpu_shares'' 512), dc_template = None, dc_auth_key = Some (cfg_text c ''siem_auth_key'' [])\<rparr>"

text \<open>The times and the number of failures, as \<open>as_completed\<close> hands the results over.\<close>

definition take_result ::
  "bench_env \<Rightarrow> cfg \<Rightarrow> (string \<Rightarrow> string) \<Rightarrow> string \<Rightarrow> (rat list \<times> int) \<times> bench \<Rightarrow> (rat list \<times> int) \<times> bench" where
  "take_result env c time_of n = (\<lambda>((ts, failed), w). case be_worker env (deploy_settings c) n of
     Inl _ \<Rightarrow> ((ts, failed + 1), w)
   | Inr r \<Rightarrow> ((ts @ [or_value (dr_time r) 0], if dr_success r then failed else failed + 1),
       w\<lparr>bw_fleet := persist_deploy_result (be_codec env) (time_of n) (Some (cfg_text c ''siem_type'' ''none'')) r (bw_fleet w)\<rparr>))"

definition deploy_phase ::
  "bench_env \<Rightarrow> string \<Rightarrow> cfg \<Rightarrow> user option \<Rightarrow> nat \<Rightarrow> int \<Rightarrow> phase_run \<Rightarrow> bench \<Rightarrow> (rat list \<times> int) \<times> bench" where
  "deploy_phase env i c owner n amount p w = (let names = agent_names (bm_base_name i c) n amount in
     case pi_listed p of
       Inl _ \<Rightarrow> (([], amount), w)
     | Inr existing \<Rightarrow> (case record_owner (pi_seconds p) (filter (\<lambda>x. x \<notin> set existing) names) owner (bw_tenancy w) of
         Inl _ \<Rightarrow> (([], amount), w)
       | Inr t \<Rightarrow> (let w1 = w\<lparr>bw_tenancy := t\<rparr> in
           if min (int (be_workers env)) amount \<le> 0 \<or> pi_pool p \<noteq> None then (([], amount), w1)
           else fold (take_result env c (pi_stamp p)) (pi_order p names) (([], 0), w1))))"

definition deploy_metrics :: "int \<Rightarrow> int \<Rightarrow> rat \<Rightarrow> rat list \<Rightarrow> measured" where
  "deploy_metrics amount failed seconds ts = (let sorted_times = (if ts = [] then [0] else sort ts); n = length sorted_times in
     [(''deploy_total'', of_int amount), (''deploy_success'', of_int (amount - failed)), (''deploy_failures'', of_int failed),
      (''deploy_failure_rate'', if amount \<noteq> 0 then of_int failed / of_int amount * 100 else 0),
      (''deploy_elapsed_seconds'', seconds),
      (''deploy_rate_per_min'', if 0 < seconds then of_int (amount - failed) / (seconds / 60) else 0),
      (''deploy_time_avg'', sum_list ts / of_nat n), (''deploy_time_p50'', sorted_times ! (n div 2)),
      (''deploy_time_p90'', sorted_times ! (n * 9 div 10)), (''deploy_time_p99'', sorted_times ! min (n * 99 div 100) (n - 1)),
      (''deploy_time_min'', hd sorted_times), (''deploy_time_max'', last sorted_times)])"

definition set_live :: "string \<Rightarrow> bm_live \<Rightarrow> bench \<Rightarrow> bench" where
  "set_live i l = upd_active i (\<lambda>b. b\<lparr>bm_results := (case bm_results b of Stored rs \<Rightarrow> Stored (rs\<lparr>rs_live := Some l\<rparr>) | c \<Rightarrow> c)\<rparr>)"

text \<open>One measurement, up to the end of the sleep.\<close>

definition measure_once :: "bench_env \<Rightarrow> string \<Rightarrow> nat \<Rightarrow> string \<Rightarrow> measured \<Rightarrow> bm_round \<Rightarrow> bench \<Rightarrow> bench" where
  "measure_once env i n label dep r w =
     (let (m, w1) = collect_all_metrics (ro_now r) i n (ro_host r) (ro_containers r) w;
          w2 = detect_bottlenecks (be_show env) (ro_now r) i n m w1;
          w3 = set_live i \<lparr>lv_phase = n, lv_label = label, lv_elapsed = ro_elapsed r, lv_metrics = m, lv_deploy = dep\<rparr> w2 in
      if ro_stop r then snd (stop_benchmark (ro_now r) i w3) else w3)"

text \<open>The loop: the exception that ended it, and how often it measured. \<open>None\<close>: still going after the turns given.\<close>

fun monitor ::
  "bench_env \<Rightarrow> string \<Rightarrow> nat \<Rightarrow> string \<Rightarrow> measured \<Rightarrow> rat \<Rightarrow> rat \<Rightarrow> bm_round list \<Rightarrow> nat \<Rightarrow> bench \<Rightarrow> ((string option \<times> nat) \<times> bench) option" where
  "monitor env i n label dep start duration [] k w = None"
| "monitor env i n label dep start duration (r # rs) k w =
     (if duration \<le> ro_clock r - start then Some ((None, k), w)
      else case ro_fault r of
        Some e \<Rightarrow> Some ((Some e, k), w)
      | None \<Rightarrow> monitor env i n label dep start duration rs (k + 1) (measure_once env i n label dep r w))"

record bm_tally =
  ta_results :: "phase_result list"
  ta_aborted :: bool
  ta_max :: int
  ta_peak :: int

definition begin_phase :: "string \<Rightarrow> nat \<Rightarrow> bench \<Rightarrow> bench" where
  "begin_phase i n w = save_active i (upd_active i (\<lambda>b. b\<lparr>bm_current := n, bm_status := ''running''\<rparr>) w)"

definition is_stopped :: "string \<Rightarrow> bench \<Rightarrow> bool" where
  "is_stopped i w = (case map_of (bw_active w) i of None \<Rightarrow> False | Some b \<Rightarrow> bm_status b = ''stopped'')"

text \<open>What ends a phase: the next one, the end of the loop (\<open>Break\<close>), an exception.\<close>

datatype phase_end = Next | Break | Raised string

definition phase_label :: "nat \<Rightarrow> phase \<Rightarrow> string" where
  "phase_label n p = or_value (ph_label p) (''Phase '' @ nat_str n)"

definition aborted_phase :: "bench_env \<Rightarrow> rat \<Rightarrow> nat \<Rightarrow> phase \<Rightarrow> int \<Rightarrow> int \<Rightarrow> measured \<Rightarrow> phase_result" where
  "aborted_phase env threshold n p amount failed dep = \<lparr>pr_phase = n, pr_label = phase_label n p, pr_status = ''aborted'',
     pr_reason = Some (''Failure rate '' @ be_show env 0 (of_int failed / of_int amount * 100) @ ''% exceeded threshold '' @
       be_show env 0 (threshold * 100) @ ''%''), pr_target = None, pr_deploy = dep, pr_samples = None\<rparr>"

definition completed_phase :: "nat \<Rightarrow> phase \<Rightarrow> int \<Rightarrow> measured \<Rightarrow> nat \<Rightarrow> phase_result" where
  "completed_phase n p amount dep k = \<lparr>pr_phase = n, pr_label = phase_label n p, pr_status = ''completed'', pr_reason = None,
     pr_target = Some (amount, or_value (ph_eps p) 100, or_value (ph_duration p) 300), pr_deploy = dep, pr_samples = Some k\<rparr>"

definition watch_phase ::
  "bench_env \<Rightarrow> string \<Rightarrow> nat \<Rightarrow> phase \<Rightarrow> int \<Rightarrow> int \<Rightarrow> measured \<Rightarrow> phase_run \<Rightarrow> bm_tally \<Rightarrow> bench \<Rightarrow> (phase_end \<times> bm_tally \<times> bench) option" where
  "watch_phase env i n p amount failed dep x t w =
     (case monitor env i n (phase_label n p) dep (pi_start x) (of_int (or_value (ph_duration p) 300)) (pi_rounds x) 0 w of
        None \<Rightarrow> None
      | Some ((Some e, k), w1) \<Rightarrow> Some (Raised e, t, w1)
      | Some ((None, k), w1) \<Rightarrow>
          if is_stopped i w1 then Some (Break, t\<lparr>ta_aborted := True\<rparr>, w1)
          else Some (Next, t\<lparr>ta_results := ta_results t @ [completed_phase n p amount dep k],
            ta_max := max (ta_max t) (amount - failed), ta_peak := max (ta_peak t) (or_value (ph_eps p) 100)\<rparr>, w1))"

definition run_phase ::
  "bench_env \<Rightarrow> string \<Rightarrow> cfg \<Rightarrow> rat \<Rightarrow> user option \<Rightarrow> nat \<Rightarrow> phase \<Rightarrow> phase_run \<Rightarrow> bm_tally \<Rightarrow> bench \<Rightarrow> (phase_end \<times> bm_tally \<times> bench) option" where
  "run_phase env i c threshold owner n p x t w0 =
     (let amount = or_value (ph_agents p) 5; ((ts, failed), w1) = deploy_phase env i c owner n amount x (begin_phase i n w0);
          dep = deploy_metrics amount failed (pi_deploy_seconds x) ts in
      case pi_fault x of
        Some e \<Rightarrow> Some (Raised e, t, w1)
      | None \<Rightarrow> (let w2 = record_bm_metrics_batch (pi_now x) i n (map (\<lambda>(k, v). (''deployment'', k, v)) dep) w1 in
          if 0 < amount \<and> threshold < of_int failed / of_int amount
          then Some (Break, t\<lparr>ta_results := ta_results t @ [aborted_phase env threshold n p amount failed dep], ta_aborted := True\<rparr>, w2)
          else watch_phase env i n p amount failed dep x t w2))"

fun run_phases ::
  "bench_env \<Rightarrow> string \<Rightarrow> cfg \<Rightarrow> rat \<Rightarrow> user option \<Rightarrow> (nat \<Rightarrow> phase_run) \<Rightarrow> nat \<Rightarrow> phase list \<Rightarrow> bm_tally \<Rightarrow> bench \<Rightarrow>
     (string option \<times> bm_tally \<times> bench) option" where
  "run_phases env i c threshold owner inp n [] t w = Some (None, t, w)"
| "run_phases env i c threshold owner inp n (p # ps) t w = (case run_phase env i c threshold owner n p (inp n) t w of
     None \<Rightarrow> None
   | Some (Raised e, t1, w1) \<Rightarrow> Some (Some e, t1, w1)
   | Some (Break, t1, w1) \<Rightarrow> Some (None, t1, w1)
   | Some (Next, t1, w1) \<Rightarrow> run_phases env i c threshold owner inp (n + 1) ps t1 w1)"

section \<open>The whole benchmark\<close>

definition new_benchmark :: "string \<Rightarrow> string \<Rightarrow> scenario \<Rightarrow> cfg \<Rightarrow> string \<Rightarrow> benchmark" where
  "new_benchmark i sid s c now = \<lparr>bm_id = i, bm_scenario = sid, bm_name = Some (text_or c ''name'' (sc_name s)),
     bm_siem = cfg_text c ''siem_type'' ''none'', bm_status = ''running'', bm_config = Stored c, bm_phases = Stored (cfg_phases c s),
     bm_current = 0, bm_results = Stored no_results, bm_started = Some now, bm_completed = None, bm_created = Some now\<rparr>"

definition bm_level :: "string \<Rightarrow> string" where
  "bm_level status = (if status = ''completed'' then ''success'' else if status = ''aborted'' then ''warning''
     else if status = ''stopped'' then ''info'' else ''error'')"

definition announce_benchmark :: "benchmark \<Rightarrow> int \<Rightarrow> int \<Rightarrow> notification" where
  "announce_benchmark b max_agents peak = \<lparr>nt_event = ''benchmark.finished'',
     nt_title = ''Benchmark '' @ bm_status b @ '': '' @ or_default (bm_name b) (bm_scenario b),
     nt_text = (case bm_results b of Stored rs \<Rightarrow> or_default (rs_error rs) [] | _ \<Rightarrow> []), nt_level = bm_level (bm_status b),
     nt_fields = [(''benchmark_id'', JText (bm_id b)), (''siem_type'', JText (bm_siem b)),
       (''max_stable_containers'', JInt max_agents), (''peak_eps'', JInt peak)], nt_link = ''/benchmarks''\<rparr>"

definition final_results :: "string option \<Rightarrow> phase_result list \<Rightarrow> bm_summary \<Rightarrow> results \<Rightarrow> results" where
  "final_results e prs s rs = rs\<lparr>rs_error := (case e of None \<Rightarrow> rs_error rs | Some x \<Rightarrow> Some x), rs_phases := Some prs, rs_summary := Some s\<rparr>"

text \<open>The status is that of the whole run: what a stop left there is replaced.\<close>

definition finish_benchmark :: "bench_env \<Rightarrow> string \<Rightarrow> string \<Rightarrow> string option \<Rightarrow> bm_tally \<Rightarrow> bench \<Rightarrow> bench" where
  "finish_benchmark env i now e t w =
     (let s = build_summary (be_round env) i (ta_results t) (ta_max t) (ta_peak t) w;
          w1 = upd_active i (\<lambda>b. b\<lparr>bm_status := (if e \<noteq> None then ''failed'' else if ta_aborted t then ''aborted'' else ''completed''),
            bm_completed := Some now,
            bm_results := (case bm_results b of Stored rs \<Rightarrow> Stored (final_results e (ta_results t) s rs) | c \<Rightarrow> c)\<rparr>) w;
          w2 = save_active i w1 in
      w2\<lparr>bw_active := AList.delete i (bw_active w2),
         bw_sent := bw_sent w2 @ (case map_of (bw_active w2) i of None \<Rightarrow> [] | Some b \<Rightarrow> [announce_benchmark b (ta_max t) (ta_peak t)])\<rparr>)"

definition no_tally :: bm_tally where
  "no_tally = \<lparr>ta_results = [], ta_aborted = False, ta_max = 0, ta_peak = 0\<rparr>"

definition run_benchmark ::
  "bench_env \<Rightarrow> run_input \<Rightarrow> string \<Rightarrow> string \<Rightarrow> cfg \<Rightarrow> user option \<Rightarrow> bench \<Rightarrow> string + bench option" where
  "run_benchmark env inp i sid c owner w = (case map_of SCENARIOS sid of
     None \<Rightarrow> Inl (''Unknown scenario: '' @ sid)
   | Some s \<Rightarrow> (let b = new_benchmark i sid s c (ri_now inp); w1 = save_benchmark b w;
         w2 = w1\<lparr>bw_active := AList.update i b (bw_active w1)\<rparr> in
       Inr (map_option (\<lambda>(e, t, w3). finish_benchmark env i (ri_end inp) e t w3)
         (run_phases env i c (cfg_number c ''failure_threshold'' (sc_threshold s)) owner (ri_phase inp) 0 (cfg_phases c s) no_tally w2))))"

section \<open>What a run keeps\<close>

text \<open>
  \<open>running i c w v\<close>: a run of \<open>i\<close> that began at \<open>w\<close> is at \<open>v\<close>. Its dictionary is among the active ones, its row is in the table
  without secrets, the other rows and what was announced are as at \<open>w\<close>.
\<close>

definition other_rows :: "string \<Rightarrow> bench \<Rightarrow> benchmark list" where
  "other_rows i w = filter (\<lambda>r. bm_id r \<noteq> i) (bw_rows w)"

definition own_rows :: "string \<Rightarrow> bench \<Rightarrow> benchmark list" where
  "own_rows i w = filter (\<lambda>r. bm_id r = i) (bw_rows w)"

definition active_ok :: "string \<Rightarrow> bench \<Rightarrow> bool" where
  "active_ok i w = (case map_of (bw_active w) i of None \<Rightarrow> False
     | Some b \<Rightarrow> bm_id b = i \<and> (case bm_results b of Stored _ \<Rightarrow> True | _ \<Rightarrow> False))"

definition row_ok :: "string \<Rightarrow> cfg \<Rightarrow> bench \<Rightarrow> bool" where
  "row_ok i c w = (case own_rows i w of [r] \<Rightarrow> bm_config r = Stored (storable_config c) | _ \<Rightarrow> False)"

definition running :: "string \<Rightarrow> cfg \<Rightarrow> bench \<Rightarrow> bench \<Rightarrow> bool" where
  "running i c w v = (other_rows i v = other_rows i w \<and> bw_sent v = bw_sent w \<and> active_ok i v \<and> row_ok i c v)"

definition tracked :: "string \<Rightarrow> bench \<Rightarrow> bool" where
  "tracked i w = (bn_numbered w \<and> counted i w \<and> from_rules i w)"

definition same_tables :: "bench \<Rightarrow> bench \<Rightarrow> bool" where
  "same_tables w v = (bw_rows v = bw_rows w \<and> bw_metrics v = bw_metrics w \<and> bw_bottlenecks v = bw_bottlenecks w \<and> bw_next v = bw_next w \<and>
     bw_active v = bw_active w \<and> bw_sent v = bw_sent w)"

lemma running_cong:
  "running i c w v \<Longrightarrow> bw_rows u = bw_rows v \<Longrightarrow> bw_sent u = bw_sent v \<Longrightarrow> bw_active u = bw_active v \<Longrightarrow> running i c w u"
  by (simp add: running_def other_rows_def own_rows_def active_ok_def row_ok_def)

lemma tracked_cong:
  "tracked i v \<Longrightarrow> bw_metrics u = bw_metrics v \<Longrightarrow> bw_bottlenecks u = bw_bottlenecks v \<Longrightarrow> bw_next u = bw_next v \<Longrightarrow> tracked i u"
  by (simp add: tracked_def bn_numbered_def counted_def from_rules_def occurrences_def)

lemma same_tables_running: "same_tables v u \<Longrightarrow> running i c w v \<Longrightarrow> running i c w u"
  by (rule running_cong) (simp_all add: same_tables_def)

lemma same_tables_tracked: "same_tables v u \<Longrightarrow> tracked i v \<Longrightarrow> tracked i u"
  by (rule tracked_cong) (simp_all add: same_tables_def)

lemma map_of_upd_active: "map_of (bw_active (upd_active i f w)) i = map_option f (map_of (bw_active w) i)"
  by (simp add: upd_active_def AList.map_of_map_entry split: option.split)

lemma upd_active_rest [simp]: "bw_rows (upd_active i f w) = bw_rows w" "bw_metrics (upd_active i f w) = bw_metrics w"
  "bw_bottlenecks (upd_active i f w) = bw_bottlenecks w" "bw_next (upd_active i f w) = bw_next w" "bw_sent (upd_active i f w) = bw_sent w"
  by (simp_all add: upd_active_def)

lemma upd_active_tracked: "tracked i (upd_active j f w) = tracked i w"
  by (simp add: tracked_def bn_numbered_def counted_def from_rules_def occurrences_def)

lemma upd_active_running:
  assumes "running i c w v"
    "\<And>b. bm_id (f b) = bm_id b" "\<And>b rs. bm_results b = Stored rs \<Longrightarrow> \<exists>rs. bm_results (f b) = Stored rs"
  shows "running i c w (upd_active i f v)"
proof -
  have "active_ok i (upd_active i f v)" using assms
    by (fastforce simp: running_def active_ok_def map_of_upd_active split: option.splits json_cell.splits)
  then show ?thesis using assms(1) by (simp add: running_def other_rows_def own_rows_def row_ok_def)
qed

lemma save_active_rest [simp]: "bw_metrics (save_active i w) = bw_metrics w" "bw_bottlenecks (save_active i w) = bw_bottlenecks w"
  "bw_next (save_active i w) = bw_next w" "bw_sent (save_active i w) = bw_sent w" "bw_active (save_active i w) = bw_active w"
  by (simp_all add: save_active_def save_benchmark_def split: option.split)

lemma save_active_tracked: "tracked i (save_active j w) = tracked i w"
  by (simp add: tracked_def bn_numbered_def counted_def from_rules_def occurrences_def)

definition overwrite :: "benchmark \<Rightarrow> benchmark \<Rightarrow> benchmark" where
  "overwrite b r = r\<lparr>bm_status := bm_status b, bm_current := bm_current b, bm_results := bm_results b, bm_completed := bm_completed b\<rparr>"

lemma save_others: "other_rows (bm_id b) (save_benchmark b w) = other_rows (bm_id b) w"
proof -
  have "filter (\<lambda>r. bm_id r \<noteq> bm_id b) (sql_update (\<lambda>r. bm_id r = bm_id b) (overwrite b) rows) = filter (\<lambda>r. bm_id r \<noteq> bm_id b) rows" for rows
    by (induction rows) (auto simp: sql_update_def overwrite_def)
  then show ?thesis by (simp add: other_rows_def save_benchmark_def stored_row_def overwrite_def [abs_def])
qed

lemma save_own: "own_rows (bm_id b) w = [r] \<Longrightarrow> own_rows (bm_id b) (save_benchmark b w) = [overwrite b r]"
proof -
  have "filter (\<lambda>r. bm_id r = bm_id b) (sql_update (\<lambda>r. bm_id r = bm_id b) (overwrite b) rows) =
      map (overwrite b) (filter (\<lambda>r. bm_id r = bm_id b) rows)" for rows
    by (induction rows) (auto simp: sql_update_def overwrite_def)
  moreover assume r: "own_rows (bm_id b) w = [r]"
  moreover have "bm_id b \<in> bm_id ` set (bw_rows w)"
  proof -
    have "r \<in> set (own_rows (bm_id b) w)" using r by simp
    then show ?thesis by (auto simp: own_rows_def intro: rev_image_eqI)
  qed
  ultimately show ?thesis by (simp add: own_rows_def save_benchmark_def overwrite_def [abs_def])
qed

lemma save_active_running: "running i c w v \<Longrightarrow> running i c w (save_active i v)"
proof -
  assume r: "running i c w v"
  then obtain b x where b: "map_of (bw_active v) i = Some b" "bm_id b = i" and x: "own_rows i v = [x]" "bm_config x = Stored (storable_config c)"
    by (auto simp: running_def active_ok_def row_ok_def split: option.splits list.splits)
  have "own_rows i (save_benchmark b v) = [overwrite b x]" "other_rows i (save_benchmark b v) = other_rows i v"
    using save_own [of b v x] save_others [of b v] b x by simp_all
  then show ?thesis using r b x(2) by (simp add: save_active_def running_def active_ok_def row_ok_def overwrite_def save_benchmark_def)
qed

lemma begin_phase_running: "running i c w v \<Longrightarrow> running i c w (begin_phase i n v)"
  unfolding begin_phase_def by (rule save_active_running, rule upd_active_running) auto

lemma begin_phase_tracked: "tracked i v \<Longrightarrow> tracked i (begin_phase j n v)"
  by (simp add: begin_phase_def save_active_tracked upd_active_tracked)

lemma same_tables_refl [simp]: "same_tables w w"
  by (simp add: same_tables_def)

lemma deploy_phase_same: "same_tables w (snd (deploy_phase env i c owner n amount p w))"
proof -
  have "same_tables w (snd x) \<Longrightarrow> same_tables w (snd (take_result env c f a x))" for f a x
    by (auto simp: take_result_def same_tables_def case_prod_beta' split: sum.split)
  then have "same_tables w (snd x) \<Longrightarrow> same_tables w (snd (fold (take_result env c f) ns x))" for f ns x
    by (induction ns arbitrary: x) simp_all
  then show ?thesis by (auto simp: deploy_phase_def Let_def same_tables_def split: sum.split)
qed

lemma batch_running: "running i c w v \<Longrightarrow> running i c w (record_bm_metrics_batch now i n rows v)"
  by (rule running_cong) (simp_all add: record_bm_metrics_batch_def)

lemma batch_tracked: "tracked i v \<Longrightarrow> tracked i (record_bm_metrics_batch now j n (map (\<lambda>(k, v). (''deployment'', k, v)) dep) v)"
  by (simp add: tracked_def bn_numbered_def counted_def from_rules_def occurrences_def record_bm_metrics_batch_def above_def comp_def case_prod_beta')

lemma stop_running:
  "running i c w v \<Longrightarrow> snd (stop_benchmark now i v) = upd_active i (\<lambda>b. b\<lparr>bm_status := ''stopped''\<rparr>) v"
  by (auto simp: running_def active_ok_def stop_benchmark_def split: option.splits dest: map_of_SomeD intro: rev_image_eqI)

lemma measure_parts:
  assumes "running i c w v"
  shows "running i c w (measure_once env i n label dep r v)"
    "tracked i v \<Longrightarrow> tracked i (measure_once env i n label dep r v)"
    "is_stopped i (measure_once env i n label dep r v) \<longleftrightarrow> ro_stop r \<or> is_stopped i v"
proof -
  obtain m w1 where m: "collect_all_metrics (ro_now r) i n (ro_host r) (ro_containers r) v = (m, w1)" by fastforce
  define w2 where "w2 = detect_bottlenecks (be_show env) (ro_now r) i n m w1"
  define w3 where "w3 = set_live i \<lparr>lv_phase = n, lv_label = label, lv_elapsed = ro_elapsed r, lv_metrics = m, lv_deploy = dep\<rparr> w2"
  have w1: "bw_rows w1 = bw_rows v" "bw_sent w1 = bw_sent v" "bw_active w1 = bw_active v"
    using m by (auto simp: collect_all_metrics_def Let_def record_bm_metrics_batch_def split: if_splits)
  have w2: "bw_rows w2 = bw_rows v" "bw_sent w2 = bw_sent v" "bw_active w2 = bw_active v"
    using detect_rest w1 by (simp_all add: w2_def same_but_bottlenecks_def)
  have r2: "running i c w w2" by (rule running_cong [OF assms w2])
  have r3: "running i c w w3" unfolding w3_def set_live_def by (rule upd_active_running [OF r2]) auto
  have f: "measure_once env i n label dep r v = (if ro_stop r then upd_active i (\<lambda>b. b\<lparr>bm_status := ''stopped''\<rparr>) w3 else w3)"
    using m by (simp add: measure_once_def stop_running [OF r3] flip: w2_def w3_def)
  show "running i c w (measure_once env i n label dep r v)" using r3 by (simp add: f upd_active_running)
  have t2: "tracked i w2" if "tracked i v"
    using that measured_counted [OF _ _ m] detect_from_rules [of i w1] m unfolding w2_def
    by (auto simp: tracked_def from_rules_def collect_all_metrics_def Let_def record_bm_metrics_batch_def split: if_splits)
  then show "tracked i v \<Longrightarrow> tracked i (measure_once env i n label dep r v)"
    by (simp add: f w3_def set_live_def upd_active_tracked)
  obtain b where b: "map_of (bw_active v) i = Some b" using assms by (auto simp: running_def active_ok_def split: option.splits)
  then show "is_stopped i (measure_once env i n label dep r v) \<longleftrightarrow> ro_stop r \<or> is_stopped i v"
    by (auto simp: f w3_def set_live_def is_stopped_def map_of_upd_active w2)
qed

text \<open>The turns in which the loop measures.\<close>

definition measured_rounds :: "rat \<Rightarrow> rat \<Rightarrow> bm_round list \<Rightarrow> bm_round list" where
  "measured_rounds start duration rs = takeWhile (\<lambda>r. ro_clock r - start < duration) rs"

lemma monitor_cases:
  assumes "monitor env i n label dep start duration (r # rs) k v = Some ((e, k'), v')"
  obtains (over) "duration \<le> ro_clock r - start" "e = None" "v' = v"
    | (raised) x where "e = Some x" "v' = v"
    | (turn) "\<not> duration \<le> ro_clock r - start"
        "monitor env i n label dep start duration rs (k + 1) (measure_once env i n label dep r v) = Some ((e, k'), v')"
proof (cases "duration \<le> ro_clock r - start")
  case True
  then show ?thesis using assms over by simp
next
  case False
  show ?thesis
  proof (cases "ro_fault r")
    case None then show ?thesis using False assms turn by simp
  next
    case (Some x)
    then have "e = Some x" "v' = v" using False assms by simp_all
    then show ?thesis by (rule raised)
  qed
qed

lemma monitor_keeps:
  assumes "monitor env i n label dep start duration rs k v = Some ((e, k'), v')" "running i c w v"
  shows "running i c w v' \<and> (tracked i v \<longrightarrow> tracked i v') \<and>
    (e = None \<longrightarrow> (is_stopped i v' \<longleftrightarrow> is_stopped i v \<or> (\<exists>r\<in>set (measured_rounds start duration rs). ro_stop r)))"
  using assms
proof (induction rs arbitrary: k v)
  case (Cons r rs)
  from Cons.prems(1) show ?case
  proof (cases rule: monitor_cases)
    case over then show ?thesis using Cons.prems(2) by (simp add: measured_rounds_def)
  next
    case raised then show ?thesis using Cons.prems(2) by simp
  next
    case turn
    have "set (measured_rounds start duration (r # rs)) = insert r (set (measured_rounds start duration rs))"
      using turn(1) by (simp add: measured_rounds_def)
    then show ?thesis using Cons.IH [OF turn(2) measure_parts(1) [OF Cons.prems(2)]] measure_parts(2,3) [OF Cons.prems(2)] by auto
  qed
qed simp

lemma monitor_ends: "\<exists>r\<in>set rs. duration \<le> ro_clock r - start \<Longrightarrow> monitor env i n label dep start duration rs k v \<noteq> None"
proof (induction rs arbitrary: k v)
  case (Cons r rs)
  show ?case
  proof (cases "duration \<le> ro_clock r - start")
    case False
    then have "monitor env i n label dep start duration rs (k + 1) (measure_once env i n label dep r v) \<noteq> None" using Cons by auto
    then show ?thesis by (simp split: option.split)
  qed simp
qed simp

text \<open>A phase, and the phases one after the other.\<close>

lemma begin_phase_not_stopped: "running i c w v \<Longrightarrow> \<not> is_stopped i (begin_phase i n v)"
  by (auto simp: running_def active_ok_def begin_phase_def is_stopped_def map_of_upd_active split: option.splits)

lemma watch_phase_keeps:
  assumes "watch_phase env i n p amount failed dep x t v = Some (z, t1, v1)" "running i c w v" "\<not> is_stopped i v"
  shows "running i c w v1 \<and> (tracked i v \<longrightarrow> tracked i v1) \<and> length (ta_results t1) \<le> Suc (length (ta_results t)) \<and>
    (z = Next \<longrightarrow> length (ta_results t1) = Suc (length (ta_results t)) \<and> ta_aborted t1 = ta_aborted t \<and>
       \<not> (\<exists>r\<in>set (measured_rounds (pi_start x) (of_int (or_value (ph_duration p) 300)) (pi_rounds x)). ro_stop r)) \<and>
    (z = Break \<longrightarrow> ta_aborted t1)"
proof -
  obtain e k v2 where m: "monitor env i n (phase_label n p) dep (pi_start x) (of_int (or_value (ph_duration p) 300)) (pi_rounds x) 0 v = Some ((e, k), v2)"
    using assms(1) by (auto simp: watch_phase_def split: option.splits)
  note keeps = monitor_keeps [OF m assms(2)]
  show ?thesis
  proof (cases e)
    case None then show ?thesis using assms(1,3) m keeps by (auto simp: watch_phase_def split: if_splits)
  next
    case (Some y) then show ?thesis using assms(1) m keeps by (auto simp: watch_phase_def)
  qed
qed

lemma deployed_running:
  assumes "running i c w v"
  shows "running i c w (snd (deploy_phase env i c owner n amount x (begin_phase i n v)))"
    "tracked i v \<Longrightarrow> tracked i (snd (deploy_phase env i c owner n amount x (begin_phase i n v)))"
    "\<not> is_stopped i (snd (deploy_phase env i c owner n amount x (begin_phase i n v)))"
  using same_tables_running [OF deploy_phase_same begin_phase_running [OF assms]] same_tables_tracked [OF deploy_phase_same begin_phase_tracked]
    begin_phase_not_stopped [OF assms] deploy_phase_same
  by (simp_all add: is_stopped_def same_tables_def)

lemma run_phase_keeps:
  assumes "run_phase env i c threshold owner n p x t v = Some (z, t1, v1)" "running i c w v"
  shows "running i c w v1 \<and> (tracked i v \<longrightarrow> tracked i v1) \<and> length (ta_results t1) \<le> Suc (length (ta_results t)) \<and>
    (z = Next \<longrightarrow> length (ta_results t1) = Suc (length (ta_results t)) \<and> ta_aborted t1 = ta_aborted t \<and>
       \<not> (\<exists>r\<in>set (measured_rounds (pi_start x) (of_int (or_value (ph_duration p) 300)) (pi_rounds x)). ro_stop r)) \<and>
    (z = Break \<longrightarrow> ta_aborted t1)"
proof -
  obtain ts failed w1 where d: "deploy_phase env i c owner n (or_value (ph_agents p) 5) x (begin_phase i n v) = ((ts, failed), w1)"
    by (metis surj_pair)
  have w1: "running i c w w1" "tracked i v \<Longrightarrow> tracked i w1" "\<not> is_stopped i w1"
    using deployed_running [OF assms(2)] d by (metis snd_conv)+
  define dep where "dep = deploy_metrics (or_value (ph_agents p) 5) failed (pi_deploy_seconds x) ts"
  define w2 where "w2 = record_bm_metrics_batch (pi_now x) i n (map (\<lambda>(k, v). (''deployment'', k, v)) dep) w1"
  have w2: "running i c w w2" "tracked i v \<Longrightarrow> tracked i w2" "\<not> is_stopped i w2"
    unfolding w2_def by (rule batch_running [OF w1(1)], erule batch_tracked [OF w1(2)],
      use w1(3) in \<open>simp add: is_stopped_def record_bm_metrics_batch_def\<close>)
  show ?thesis
  proof (cases "pi_fault x")
    case (Some e)
    then show ?thesis using assms(1) d w1 by (auto simp: run_phase_def)
  next
    case None
    then have r: "(if 0 < or_value (ph_agents p) 5 \<and> threshold < of_int failed / of_int (or_value (ph_agents p) 5)
       then Some (Break, t\<lparr>ta_results := ta_results t @ [aborted_phase env threshold n p (or_value (ph_agents p) 5) failed dep], ta_aborted := True\<rparr>, w2)
       else watch_phase env i n p (or_value (ph_agents p) 5) failed dep x t w2) = Some (z, t1, v1)"
      using assms(1) d unfolding run_phase_def Let_def dep_def w2_def by simp
    then show ?thesis
    proof (cases "0 < or_value (ph_agents p) 5 \<and> threshold < of_int failed / of_int (or_value (ph_agents p) 5)")
      case True then show ?thesis using r w2 by auto
    next
      case False
      then have "watch_phase env i n p (or_value (ph_agents p) 5) failed dep x t w2 = Some (z, t1, v1)" using r by (simp only: if_False)
      then show ?thesis using watch_phase_keeps [OF _ w2(1,3)] w2(2) by blast
    qed
  qed
qed

lemma run_phases_keeps:
  assumes "run_phases env i c threshold owner inp n ps t v = Some (e, t1, v1)" "running i c w v" "\<not> ta_aborted t"
  shows "running i c w v1 \<and> (tracked i v \<longrightarrow> tracked i v1) \<and> length (ta_results t1) \<le> length (ta_results t) + length ps \<and>
    (e = None \<and> \<not> ta_aborted t1 \<longrightarrow> length (ta_results t1) = length (ta_results t) + length ps \<and>
      (\<forall>j<length ps. \<forall>r\<in>set (measured_rounds (pi_start (inp (n + j))) (of_int (or_value (ph_duration (ps ! j)) 300)) (pi_rounds (inp (n + j)))).
         \<not> ro_stop r))"
  using assms
proof (induction ps arbitrary: n t v)
  case (Cons p ps)
  obtain z t2 v2 where z: "run_phase env i c threshold owner n p (inp n) t v = Some (z, t2, v2)"
    using Cons.prems(1) by (auto split: option.splits)
  note keeps = run_phase_keeps [OF z Cons.prems(2)]
  show ?case
  proof (cases z)
    case Next
    then have "run_phases env i c threshold owner inp (n + 1) ps t2 v2 = Some (e, t1, v1)" using Cons.prems(1) z by simp
    then have IH: "running i c w v1 \<and> (tracked i v2 \<longrightarrow> tracked i v1) \<and> length (ta_results t1) \<le> length (ta_results t2) + length ps \<and>
      (e = None \<and> \<not> ta_aborted t1 \<longrightarrow> length (ta_results t1) = length (ta_results t2) + length ps \<and>
      (\<forall>j<length ps. \<forall>r\<in>set (measured_rounds (pi_start (inp (n + 1 + j))) (of_int (or_value (ph_duration (ps ! j)) 300)) (pi_rounds (inp (n + 1 + j)))).
         \<not> ro_stop r))" using Cons.IH [of "n + 1" t2 v2] Cons.prems(3) keeps Next by simp
    then show ?thesis using keeps Next by (auto simp: less_Suc_eq_0_disj)
  next
    case Break
    then show ?thesis using Cons.prems z keeps by auto
  next
    case (Raised x)
    then show ?thesis using Cons.prems z keeps by auto
  qed
qed simp

text \<open>Every sleep takes the interval, and the turns given reach the end of the phase.\<close>

definition paced :: "rat \<Rightarrow> rat \<Rightarrow> phase_run \<Rightarrow> bool" where
  "paced interval duration x = (pi_rounds x \<noteq> [] \<and> duration \<le> of_nat (length (pi_rounds x) - 1) * interval \<and>
     (\<forall>k<length (pi_rounds x). pi_start x + of_nat k * interval \<le> ro_clock (pi_rounds x ! k)))"

lemma paced_ends:
  assumes "paced interval duration x"
  shows "\<exists>r\<in>set (pi_rounds x). duration \<le> ro_clock r - pi_start x"
proof -
  obtain k where k: "length (pi_rounds x) = Suc k" using assms by (cases "pi_rounds x") (simp_all add: paced_def)
  then have "pi_start x + of_nat k * interval \<le> ro_clock (pi_rounds x ! k)" "duration \<le> of_nat k * interval"
    using assms by (simp_all add: paced_def)
  then have "duration \<le> ro_clock (pi_rounds x ! k) - pi_start x" by simp
  then show ?thesis using nth_mem [of k "pi_rounds x"] k by auto
qed

lemma watch_phase_ends:
  assumes "paced interval (of_int (or_value (ph_duration p) 300)) x"
  shows "watch_phase env i n p amount failed dep x t v \<noteq> None"
  using monitor_ends [OF paced_ends [OF assms], of env i n "phase_label n p" dep 0 v]
  by (auto simp: watch_phase_def split: option.split)

lemma run_phase_ends:
  "paced interval (of_int (or_value (ph_duration p) 300)) x \<Longrightarrow> run_phase env i c threshold owner n p x t v \<noteq> None"
  using watch_phase_ends by (simp add: run_phase_def Let_def case_prod_beta' del: not_None_eq split: option.split)

lemma run_phases_end:
  "(\<forall>j<length ps. paced interval (of_int (or_value (ph_duration (ps ! j)) 300)) (inp (n + j))) \<Longrightarrow>
     run_phases env i c threshold owner inp n ps t v \<noteq> None"
proof (induction ps arbitrary: n t v)
  case (Cons p ps)
  have "run_phase env i c threshold owner n p (inp n) t v \<noteq> None" using Cons.prems by (intro run_phase_ends) force
  moreover have "run_phases env i c threshold owner inp (n + 1) ps t1 v1 \<noteq> None" for t1 v1
    using Cons.prems by (intro Cons.IH) force
  ultimately show ?case by (auto split: phase_end.split)
qed simp

text \<open>The start and the end of the benchmark.\<close>

definition unknown_id :: "string \<Rightarrow> bench \<Rightarrow> bool" where
  "unknown_id i w = (i \<notin> bm_id ` set (bw_rows w) \<and> i \<notin> bk_benchmark ` set (bw_metrics w) \<and> i \<notin> bn_benchmark ` set (bw_bottlenecks w) \<and> bn_numbered w)"

definition new_id :: "string \<Rightarrow> bench \<Rightarrow> bool" where
  "new_id i w = (i \<notin> bm_id ` set (bw_rows w))"

lemma unknown_new: "unknown_id i w \<Longrightarrow> new_id i w"
  by (simp add: unknown_id_def new_id_def)

definition started :: "run_input \<Rightarrow> string \<Rightarrow> string \<Rightarrow> scenario \<Rightarrow> cfg \<Rightarrow> bench \<Rightarrow> bench" where
  "started inp i sid s c w = (let b = new_benchmark i sid s c (ri_now inp); w1 = save_benchmark b w
     in w1\<lparr>bw_active := AList.update i b (bw_active w1)\<rparr>)"

lemma started_running: "new_id i w \<Longrightarrow> running i c w (started inp i sid s c w)"
proof -
  assume u: "new_id i w"
  then have "filter (\<lambda>r. bm_id r = i) (bw_rows w) = []" by (auto simp: new_id_def filter_empty_conv)
  then show ?thesis using u
    by (simp add: running_def started_def Let_def save_benchmark_def other_rows_def own_rows_def active_ok_def row_ok_def new_id_def
        new_benchmark_def stored_row_def update_conv')
qed

lemma started_tracked: "unknown_id i w \<Longrightarrow> tracked i (started inp i sid s c w)"
proof -
  assume u: "unknown_id i w"
  then have "filter (is_for i r) (bw_bottlenecks w) = []" "filter (above i r) (bw_metrics w) = []" for r
    by (auto simp: unknown_id_def filter_empty_conv is_for_def above_def)
  then have "counted i w" by (simp add: counted_def occurrences_def exactly_def)
  then have "tracked i w" using u by (auto simp: tracked_def from_rules_def unknown_id_def)
  then show ?thesis by (rule tracked_cong) (simp_all add: started_def Let_def save_benchmark_def)
qed

lemma upd_own: "running i c w v \<Longrightarrow> \<exists>b x. map_of (bw_active v) i = Some b \<and> bm_id b = i \<and> (\<exists>rs. bm_results b = Stored rs) \<and>
    own_rows i v = [x] \<and> bm_config x = Stored (storable_config c)"
  by (auto simp: running_def active_ok_def row_ok_def split: option.splits list.splits json_cell.splits)

lemma own_get: "own_rows i w = [x] \<Longrightarrow> get_benchmark i w = Some x"
proof -
  assume "own_rows i w = [x]"
  then have "filter (\<lambda>r. bm_id r = i) (bw_rows w) = [x]" by (simp add: own_rows_def)
  moreover have "find P xs = (case filter P xs of [] \<Rightarrow> None | y # _ \<Rightarrow> Some y)" for P and xs :: "benchmark list" by (induction xs) auto
  ultimately show ?thesis by (simp add: get_benchmark_def fetchone_def)
qed

lemma map_of_delete: "map_of (AList.delete k xs) k = None"
  by (simp add: delete_conv')

definition final_status :: "string option \<Rightarrow> bm_tally \<Rightarrow> string" where
  "final_status e t = (if e \<noteq> None then ''failed'' else if ta_aborted t then ''aborted'' else ''completed'')"

lemma finish_benchmark_row:
  assumes "running i c w v"
  shows "\<exists>x rs. get_benchmark i (finish_benchmark env i now e t v) = Some x \<and> own_rows i (finish_benchmark env i now e t v) = [x] \<and> bm_status x = final_status e t \<and>
     bm_completed x = Some now \<and> bm_config x = Stored (storable_config c) \<and>
     bm_results x = Stored (final_results e (ta_results t) (build_summary (be_round env) i (ta_results t) (ta_max t) (ta_peak t) v) rs) \<and>
     map_of (bw_active (finish_benchmark env i now e t v)) i = None \<and>
     other_rows i (finish_benchmark env i now e t v) = other_rows i w \<and>
     (\<exists>n. bw_sent (finish_benchmark env i now e t v) = bw_sent w @ [n] \<and> nt_level n = bm_level (final_status e t))"
proof -
  obtain b x rs where b: "map_of (bw_active v) i = Some b" "bm_id b = i" "bm_results b = Stored rs"
    and x: "own_rows i v = [x]" "bm_config x = Stored (storable_config c)" using upd_own [OF assms] by blast
  define s where "s = build_summary (be_round env) i (ta_results t) (ta_max t) (ta_peak t) v"
  define b' where "b' = b\<lparr>bm_status := final_status e t, bm_completed := Some now, bm_results := Stored (final_results e (ta_results t) s rs)\<rparr>"
  define f where "f = (\<lambda>b::benchmark. b\<lparr>bm_status := final_status e t, bm_completed := Some now,
            bm_results := (case bm_results b of Stored rs \<Rightarrow> Stored (final_results e (ta_results t) s rs) | c \<Rightarrow> c)\<rparr>)"
  have fb: "f b = b'" using b by (simp add: f_def b'_def)
  have u: "map_of (bw_active (upd_active i f v)) i = Some b'" using b fb by (simp add: map_of_upd_active)
  then have sv: "save_active i (upd_active i f v) = save_benchmark b' (upd_active i f v)" by (simp add: save_active_def)
  have "finish_benchmark env i now e t v = (let w2 = save_active i (upd_active i f v) in
      w2\<lparr>bw_active := AList.delete i (bw_active w2),
         bw_sent := bw_sent w2 @ (case map_of (bw_active w2) i of None \<Rightarrow> [] | Some b \<Rightarrow> [announce_benchmark b (ta_max t) (ta_peak t)])\<rparr>)"
    by (simp add: finish_benchmark_def f_def final_status_def Let_def flip: s_def)
  then have fin: "finish_benchmark env i now e t v = (save_benchmark b' (upd_active i f v))\<lparr>bw_active := AList.delete i (bw_active (upd_active i f v)),
      bw_sent := bw_sent v @ [announce_benchmark b' (ta_max t) (ta_peak t)]\<rparr>"
    using u by (simp add: Let_def) (simp add: sv)
  have id: "bm_id b' = i" using b by (simp add: b'_def)
  have "own_rows i (upd_active i f v) = [x]" using x by (simp add: own_rows_def)
  then have own: "own_rows i (save_benchmark b' (upd_active i f v)) = [overwrite b' x]" using save_own [of b'] id by simp
  have "other_rows i (upd_active i f v) = other_rows i w" using assms by (simp add: running_def other_rows_def)
  then have oth: "other_rows i (save_benchmark b' (upd_active i f v)) = other_rows i w" using save_others [of b'] id by simp
  have g0: "own_rows i (finish_benchmark env i now e t v) = [overwrite b' x]" using own by (simp add: fin own_rows_def)
  then have g: "get_benchmark i (finish_benchmark env i now e t v) = Some (overwrite b' x)" by (rule own_get)
  have p: "bm_status (overwrite b' x) = final_status e t" "bm_completed (overwrite b' x) = Some now"
    "bm_config (overwrite b' x) = Stored (storable_config c)" "bm_results (overwrite b' x) = Stored (final_results e (ta_results t) s rs)"
    using x by (simp_all add: overwrite_def b'_def)
  have a: "map_of (bw_active (finish_benchmark env i now e t v)) i = None" by (simp add: fin map_of_delete)
  have o: "other_rows i (finish_benchmark env i now e t v) = other_rows i w" using oth by (simp add: fin other_rows_def)
  have n: "bw_sent (finish_benchmark env i now e t v) = bw_sent w @ [announce_benchmark b' (ta_max t) (ta_peak t)]"
    "nt_level (announce_benchmark b' (ta_max t) (ta_peak t)) = bm_level (final_status e t)"
    using assms by (simp_all add: fin running_def announce_benchmark_def b'_def)
  show ?thesis unfolding s_def [symmetric] using g g0 p a o n by blast
qed

lemma run_benchmark_started:
  "map_of SCENARIOS sid = Some s \<Longrightarrow> run_benchmark env inp i sid c owner w =
     Inr (map_option (\<lambda>(e, t, v). finish_benchmark env i (ri_end inp) e t v)
       (run_phases env i c (cfg_number c ''failure_threshold'' (sc_threshold s)) owner (ri_phase inp) 0 (cfg_phases c s) no_tally
         (started inp i sid s c w)))"
  by (simp add: run_benchmark_def started_def Let_def)

definition phase_duration :: "cfg \<Rightarrow> scenario \<Rightarrow> nat \<Rightarrow> rat" where
  "phase_duration c s j = of_int (or_value (ph_duration (cfg_phases c s ! j)) 300)"

definition metric_interval :: "cfg \<Rightarrow> scenario \<Rightarrow> rat" where
  "metric_interval c s = cfg_number c ''metric_interval'' (of_int (sc_interval s))"

definition all_paced :: "run_input \<Rightarrow> cfg \<Rightarrow> scenario \<Rightarrow> bool" where
  "all_paced inp c s = (\<forall>j<length (cfg_phases c s). paced (metric_interval c s) (phase_duration c s j) (ri_phase inp j))"

lemma run_returns:
  "map_of SCENARIOS sid = Some s \<Longrightarrow> all_paced inp c s \<Longrightarrow> \<exists>w'. run_benchmark env inp i sid c owner w = Inr (Some w')"
  using run_phases_end [of "cfg_phases c s" "metric_interval c s" "ri_phase inp" 0]
  by (simp add: run_benchmark_started all_paced_def phase_duration_def)

lemma critical_rows:
  assumes "from_rules i v"
  shows "(\<exists>b\<in>set (bw_bottlenecks v). bn_benchmark b = i \<and> bn_severity b = ''critical'') \<longleftrightarrow>
    (\<exists>r\<in>set BOTTLENECK_RULES. br_severity r = ''critical'' \<and> of_host r \<and> (\<exists>b\<in>set (bw_bottlenecks v). is_for i r b))" (is "?l \<longleftrightarrow> ?r")
proof
  assume ?l then show ?r using assms unfolding from_rules_def by metis
next
  assume ?r
  then obtain r b where r: "r \<in> set BOTTLENECK_RULES" "br_severity r = ''critical''" and b: "b \<in> set (bw_bottlenecks v)" "is_for i r b" by blast
  have id: "bn_benchmark b = i" using b(2) by (simp add: is_for_def)
  then obtain q where "q \<in> set BOTTLENECK_RULES" "is_for i q b" "bn_severity b = br_severity q"
    using assms b(1) unfolding from_rules_def by blast
  then show ?l using rules_apart [OF r(1) _ b(2)] r(2) b(1) id by metis
qed

lemma run_benchmark_run:
  assumes "run_benchmark env inp i sid c owner w = Inr (Some w')" "new_id i w"
  obtains s e t v where "map_of SCENARIOS sid = Some s" "w' = finish_benchmark env i (ri_end inp) e t v" "running i c w v"
    "unknown_id i w \<longrightarrow> tracked i v"
    "length (ta_results t) \<le> length (cfg_phases c s)"
    "e = None \<and> \<not> ta_aborted t \<longrightarrow> length (ta_results t) = length (cfg_phases c s) \<and>
      (\<forall>j<length (cfg_phases c s). \<forall>r\<in>set (measured_rounds (pi_start (ri_phase inp j)) (phase_duration c s j) (pi_rounds (ri_phase inp j))).
         \<not> ro_stop r)"
proof -
  obtain s where s: "map_of SCENARIOS sid = Some s" using assms(1) by (auto simp: run_benchmark_def split: option.splits)
  then obtain e t v where r: "run_phases env i c (cfg_number c ''failure_threshold'' (sc_threshold s)) owner (ri_phase inp) 0 (cfg_phases c s) no_tally
         (started inp i sid s c w) = Some (e, t, v)" and w': "w' = finish_benchmark env i (ri_end inp) e t v"
    using assms(1) by (auto simp: run_benchmark_started)
  show ?thesis
    using that [OF s w'] run_phases_keeps [OF r started_running [OF assms(2)]] started_tracked [of i w inp sid s c]
    by (simp add: no_tally_def phase_duration_def)
qed

text \<open>
  C34: a benchmark that starts under a new id ends, when every sleep takes at least the configured interval and the clock is read often
  enough to pass each phase's duration. It then has left memory, its row is completed, aborted or failed with the
  time of the end, its results name at most the configured phases, one announcement went out with the level of
  that status, and no other benchmark's row changed. It is completed only if every phase was and no stop came while one
  of them was measured, so a stop is never lost.
\<close>

theorem benchmark_ends:
  assumes "map_of SCENARIOS sid = Some s" "unknown_id i w" "all_paced inp c s"
  shows "\<exists>w' x rs prs n. run_benchmark env inp i sid c owner w = Inr (Some w') \<and> get_benchmark i w' = Some x \<and>
    bm_status x \<in> {''completed'', ''aborted'', ''failed''} \<and> bm_completed x = Some (ri_end inp) \<and> map_of (bw_active w') i = None \<and>
    other_rows i w' = other_rows i w \<and> bw_sent w' = bw_sent w @ [n] \<and> nt_level n = bm_level (bm_status x) \<and>
    bm_results x = Stored rs \<and> rs_phases rs = Some prs \<and> length prs \<le> length (cfg_phases c s) \<and>
    (bm_status x = ''completed'' \<longrightarrow> length prs = length (cfg_phases c s) \<and>
      (\<forall>j<length (cfg_phases c s). \<forall>r\<in>set (measured_rounds (pi_start (ri_phase inp j)) (phase_duration c s j) (pi_rounds (ri_phase inp j))).
         \<not> ro_stop r))"
proof -
  obtain w' where w': "run_benchmark env inp i sid c owner w = Inr (Some w')" using run_returns [OF assms(1,3)] by blast
  from w' unknown_new [OF assms(2)] obtain s' e t v where s': "map_of SCENARIOS sid = Some s'" and fin: "w' = finish_benchmark env i (ri_end inp) e t v"
    and run: "running i c w v" and len: "length (ta_results t) \<le> length (cfg_phases c s')" and
    ok: "e = None \<and> \<not> ta_aborted t \<longrightarrow> length (ta_results t) = length (cfg_phases c s') \<and>
      (\<forall>j<length (cfg_phases c s'). \<forall>r\<in>set (measured_rounds (pi_start (ri_phase inp j)) (phase_duration c s' j) (pi_rounds (ri_phase inp j))).
         \<not> ro_stop r)" by (rule run_benchmark_run)
  have s: "s' = s" using s' assms(1) by simp
  obtain x rs n where x: "get_benchmark i w' = Some x" "bm_status x = final_status e t" "bm_completed x = Some (ri_end inp)"
    "bm_results x = Stored (final_results e (ta_results t) (build_summary (be_round env) i (ta_results t) (ta_max t) (ta_peak t) v) rs)"
    "map_of (bw_active w') i = None" "other_rows i w' = other_rows i w" "bw_sent w' = bw_sent w @ [n]" "nt_level n = bm_level (final_status e t)"
    using finish_benchmark_row [OF run, of env "ri_end inp" e t] unfolding fin by blast
  have st: "final_status e t \<in> {''completed'', ''aborted'', ''failed''}" "final_status e t = ''completed'' \<longleftrightarrow> e = None \<and> \<not> ta_aborted t"
    by (simp_all add: final_status_def)
  have p: "rs_phases (final_results e (ta_results t) su rs) = Some (ta_results t)" for su by (simp add: final_results_def)
  show ?thesis
    by (intro exI conjI, rule w', rule x(1), use st x in simp, rule x(3), rule x(5), rule x(6), rule x(7), use x in simp, rule x(4), rule p,
      use len s in simp, use st x ok s in simp)
qed

text \<open>
  The limits of the host, written out: title of the bottleneck, measurement, limit. \<open>over_limit\<close> counts the stored measurements
  of a benchmark's host above a limit.
\<close>

definition HOST_LIMITS :: "(string \<times> string \<times> rat) list" where
  "HOST_LIMITS = [(''SIEM host CPU overloaded'', ''system_cpu_percent'', 85),
     (''System memory critically high'', ''system_memory_percent'', 90),
     (''System memory usage elevated'', ''system_memory_percent'', 75),
     (''Disk space critically low'', ''system_disk_percent'', 90),
     (''CPU load significantly exceeds core count'', ''system_load_per_core'', 2)]"

definition over_limit :: "string \<Rightarrow> string \<Rightarrow> rat \<Rightarrow> bench \<Rightarrow> nat" where
  "over_limit i metric limit w = length (filter (\<lambda>m. bk_benchmark m = i \<and> bk_category m = ''system'' \<and> bk_name m = metric \<and> limit < bk_value m) (bw_metrics w))"

lemma over_limit_above: "length (filter (above i r) (bw_metrics w)) = over_limit i (br_metric r) (br_threshold r) w"
  unfolding over_limit_def above_def by (rule refl)

lemma host_limits: "HOST_LIMITS = map (\<lambda>r. (br_title r, br_metric r, br_threshold r)) (filter of_host BOTTLENECK_RULES)"
  by (simp add: HOST_LIMITS_def BOTTLENECK_RULES_def of_host_def)

lemma host_limit_rule:
  "(title, metric, limit) \<in> set HOST_LIMITS \<Longrightarrow>
    \<exists>r\<in>set BOTTLENECK_RULES. br_title r = title \<and> br_metric r = metric \<and> br_threshold r = limit"
  unfolding host_limits by auto

lemma host_rule_limit: "r \<in> set BOTTLENECK_RULES \<Longrightarrow> of_host r \<Longrightarrow> br_title r \<in> fst ` set HOST_LIMITS"
  unfolding host_limits by force

lemma titled_rows:
  assumes t: "from_rules i w" and r: "r \<in> set BOTTLENECK_RULES"
  shows "filter (\<lambda>b. bn_benchmark b = i \<and> bn_title b = br_title r) (bw_bottlenecks w) = filter (is_for i r) (bw_bottlenecks w)"
proof (rule filter_cong [OF refl])
  fix b assume b: "b \<in> set (bw_bottlenecks w)"
  show "(bn_benchmark b = i \<and> bn_title b = br_title r) = is_for i r b"
  proof
    assume x: "bn_benchmark b = i \<and> bn_title b = br_title r"
    then obtain q where q: "q \<in> set BOTTLENECK_RULES" "is_for i q b" using t b unfolding from_rules_def by blast
    then have "br_title q = br_title r" using x by (simp add: is_for_def)
    then have "q = r" using distinct_map_eq [OF titles_distinct q(1) r] by blast
    then show "is_for i r b" using q(2) by simp
  qed (simp add: is_for_def)
qed

lemma critical_limits:
  "(\<exists>r\<in>set BOTTLENECK_RULES. br_severity r = ''critical'' \<and> of_host r \<and> P (br_metric r) (br_threshold r)) \<longleftrightarrow>
     P ''system_cpu_percent'' 85 \<or> P ''system_memory_percent'' 90 \<or> P ''system_disk_percent'' 90"
  by (simp add: BOTTLENECK_RULES_def of_host_def)


section \<open>Requests\<close>

text \<open>
  \<^verbatim>\<open>POST /benchmarks/start\<close>: \<open>sq_fields\<close> is \<open>request.model_dump()\<close>. The answer carries the id and the settings of the run
  that is added to the background tasks, with its owner.
\<close>

record start_request =
  sq_scenario :: string
  sq_fields :: cfg
  sq_name :: "string option"

datatype start_answer = Refused http_error | NotStarted string | Started string cfg "user option"

definition given_value :: "cfg_value \<Rightarrow> bool" where
  "given_value v = (v \<noteq> CNone \<and> v \<noteq> CText [])"

definition FILLED_FIELDS :: "string list" where
  "FILLED_FIELDS = [''siem_type'', ''siem_ip'', ''siem_version'', ''siem_auth_key'', ''os_type'', ''agent_group'']"

definition fill_field :: "manager_row \<Rightarrow> string \<Rightarrow> cfg \<Rightarrow> cfg" where
  "fill_field m f c = (let v = text_of (cell (mg_cols m) f) in
     if v \<noteq> [] \<and> (map_of c f = None \<or> (f = ''siem_type'' \<and> map_of c f = Some (CText ''none'')))
     then AList.update f (CText v) c else c)"

definition settings_of :: "cipher \<Rightarrow> start_request \<Rightarrow> fleet \<Rightarrow> http_error + cfg" where
  "settings_of ci q db = (let c = filter (\<lambda>(k, v). given_value v) (sq_fields q); c1 = AList.delete ''manager_profile_id'' c in
     case map_of c ''manager_profile_id'' of
       Some (CText p) \<Rightarrow> (case get_manager ci p db of
           None \<Rightarrow> Inl (HTTPError 404 (''Manager profile '' @ [CHR 0x27] @ p @ [CHR 0x27] @ '' not found''))
         | Some m \<Rightarrow> Inr (fold (fill_field m) FILLED_FIELDS c1))
     | _ \<Rightarrow> Inr c1)"

definition needs_key :: "cfg \<Rightarrow> bool" where
  "needs_key c = (cfg_text c ''siem_type'' [] \<in> {''utmstack'', ''elastic''} \<and> cfg_text c ''siem_auth_key'' [] = [])"

definition wanted_containers :: "cfg \<Rightarrow> scenario \<Rightarrow> int" where
  "wanted_containers c s = sum_list (map (\<lambda>p. or_value (ph_agents p) 5) (cfg_phases c s))"

definition start_benchmark ::
  "cipher \<Rightarrow> http_error option \<Rightarrow> string \<Rightarrow> string + string list \<Rightarrow> start_request \<Rightarrow> user option \<Rightarrow> bench \<Rightarrow> start_answer \<times> bench" where
  "start_benchmark ci license i listed q u w =
     (case license of Some e \<Rightarrow> (Refused e, w) | None \<Rightarrow>
      (case map_of SCENARIOS (sq_scenario q) of
         None \<Rightarrow> (Refused (HTTPError 400 (''Unknown scenario: '' @ sq_scenario q)), w)
       | Some s \<Rightarrow> (case settings_of ci q (bw_fleet w) of
           Inl e \<Rightarrow> (Refused e, w)
         | Inr c0 \<Rightarrow>
             if needs_key c0 then (Refused (HTTPError 400 ''An auth key / enrollment token is required for UTMstack and Elastic''), w)
             else let c = (case sq_name q of None \<Rightarrow> c0 | Some n \<Rightarrow> if n = [] then c0 else AList.update ''name'' (CText n) c0) in
               (case listed of
                  Inl e \<Rightarrow> (NotStarted e, w)
                | Inr existing \<Rightarrow> (case check_quota u (wanted_containers c s) existing (bw_tenancy w) of
                    Some e \<Rightarrow> (Refused e, w)
                  | None \<Rightarrow> (Started i c u, w\<lparr>bw_logged := bw_logged w @ [(''benchmark_started'',
                      [(''benchmark_id'', JText i), (''scenario'', JText (sq_scenario q))])]\<rparr>))))))"

section \<open>An example\<close>

text \<open>
  One phase of ten seconds with one container, which deploys in seven seconds; a stop comes during the only sleep. The host is
  short of memory. The administrator's profile has an auth key.
\<close>

definition small_phase :: phase where
  "small_phase = phase_of 1 10 10 ''Small''"

definition small_cfg :: cfg where
  "small_cfg = [(''siem_type'', CText ''wazuh''), (''siem_auth_key'', CText ''secret''), (''phases'', CPhases [small_phase]), (''metric_interval'', CInt 10)]"

definition small_env :: bench_env where
  "small_env = \<lparr>be_workers = 4, be_show = \<lambda>_ _. ''0'', be_round = \<lambda>_ r. r, be_codec = \<lparr>c_dumps = \<lambda>_. [], c_loads = \<lambda>_. None\<rparr>,
     be_worker = \<lambda>_ n. Inr \<lparr>dr_name = n, dr_seq = None, dr_success = True, dr_error = None, dr_ip = None, dr_install_message = None,
       dr_time = Some 7, dr_metadata = []\<rparr>\<rparr>"

definition small_round :: "rat \<Rightarrow> bool \<Rightarrow> bm_round" where
  "small_round t stop = \<lparr>ro_clock = t, ro_now = ''n'', ro_host = Some \<lparr>hr_cpus = 2, hr_mem_total = 1024000, hr_mem_available = 51200, hr_load = 1,
     hr_blocks = 100, hr_block_size = 1, hr_free_blocks = 50\<rparr>, ro_containers = Some [True], ro_elapsed = t, ro_fault = None, ro_stop = stop\<rparr>"

definition small_input :: "bool \<Rightarrow> run_input" where
  "small_input stop = \<lparr>ri_now = ''t0'', ri_end = ''t1'', ri_phase = \<lambda>_. \<lparr>pi_now = ''n'', pi_seconds = 0, pi_listed = Inr [], pi_pool = None, pi_order = id,
     pi_stamp = \<lambda>_. ''n'', pi_deploy_seconds = 8, pi_fault = None, pi_start = 0, pi_rounds = [small_round 0 stop, small_round 10 False]\<rparr>\<rparr>"

definition empty_bench :: bench where
  "empty_bench = \<lparr>bw_rows = [], bw_metrics = [], bw_bottlenecks = [], bw_next = 1, bw_active = [],
     bw_fleet = \<lparr>agents = [], next_seq = None, groups = [], managers = [], metrics = []\<rparr>,
     bw_tenancy = \<lparr>acc = empty_accounts, teams = [], next_team = 1, owner_rows = [], hosts = [], next_host = 1\<rparr>, bw_sent = [], bw_logged = []\<rparr>"

lemma small_scenario: "map_of SCENARIOS ''burst_load'' = Some (the (map_of SCENARIOS ''burst_load''))"
  by (simp add: SCENARIOS_def)

lemma small_paced: "all_paced (small_input stop) small_cfg s"
  by (simp add: all_paced_def paced_def phase_duration_def metric_interval_def cfg_number_def cfg_phases_def small_cfg_def small_input_def
      small_round_def small_phase_def phase_of_def or_value_def less_Suc_eq)

lemma small_unknown: "unknown_id i empty_bench"
  by (simp add: unknown_id_def empty_bench_def bn_numbered_def)

theorem benchmark_ends_witness:
  "\<exists>w' x rs prs n. run_benchmark small_env (small_input True) ''b1'' ''burst_load'' small_cfg None empty_bench = Inr (Some w') \<and>
    get_benchmark ''b1'' w' = Some x \<and> bm_status x \<in> {''aborted'', ''failed''} \<and> bw_sent w' = [n] \<and> nt_level n = bm_level (bm_status x) \<and>
    bm_results x = Stored rs \<and> rs_phases rs = Some prs"
proof -
  have stopped: "\<exists>r\<in>set (measured_rounds (pi_start (ri_phase (small_input True) 0)) (phase_duration small_cfg s 0)
      (pi_rounds (ri_phase (small_input True) 0))). ro_stop r" for s
    by (simp add: measured_rounds_def phase_duration_def cfg_phases_def small_cfg_def small_input_def small_round_def small_phase_def
        phase_of_def or_value_def)
  have len: "0 < length (cfg_phases small_cfg s)" for s by (simp add: cfg_phases_def small_cfg_def)
  have "bw_sent empty_bench = []" by (simp add: empty_bench_def)
  then show ?thesis using benchmark_ends [OF small_scenario small_unknown small_paced, of small_env "True" "''b1''" None] stopped len
    by (elim exE conjE) (metis append_Nil insertE insert_iff)
qed


section \<open>Secrets\<close>

definition free_of_keys :: "benchmark \<Rightarrow> bool" where
  "free_of_keys r = (case bm_config r of Stored c \<Rightarrow> \<not> has_secret c | _ \<Rightarrow> True)"

definition keys_free :: "bench \<Rightarrow> bool" where
  "keys_free w = list_all free_of_keys (bw_rows w)"

lemma storable_free: "\<not> has_secret (storable_config c)"
  by (auto simp: has_secret_def storable_config_def SECRET_CONFIG_KEYS_def)

lemma scrubbed_free: "needs_scrub r \<Longrightarrow> free_of_keys (scrubbed r)" "\<not> needs_scrub r \<Longrightarrow> free_of_keys r"
  using storable_free by (auto simp: free_of_keys_def needs_scrub_def scrubbed_def loaded_def split: json_cell.splits)

lemma update_free: "keys_free w \<Longrightarrow> (\<And>r. free_of_keys r \<Longrightarrow> free_of_keys (f r)) \<Longrightarrow> keys_free (w\<lparr>bw_rows := sql_update P f (bw_rows w)\<rparr>)"
  by (auto simp: keys_free_def sql_update_def list_all_iff)

lemma save_free: "keys_free w \<Longrightarrow> keys_free (save_benchmark b w)"
  using storable_free by (auto simp: keys_free_def save_benchmark_def list_all_iff sql_update_def free_of_keys_def stored_row_def split: json_cell.splits)

lemma stop_free: "keys_free w \<Longrightarrow> keys_free (snd (stop_benchmark now i w))"
proof -
  assume k: "keys_free w"
  then have "keys_free (upd_active i f w)" for f by (simp add: keys_free_def)
  then show ?thesis using k save_free by (simp add: stop_benchmark_def split: option.split)
qed

lemma rows_split: "set (bw_rows w) = set (other_rows i w) \<union> set (own_rows i w)"
  by (auto simp: other_rows_def own_rows_def)

lemma run_free:
  assumes "run_benchmark env inp i sid c owner w = Inr (Some w')" "new_id i w" "keys_free w"
  shows "keys_free w'"
proof -
  from assms(1,2) obtain s :: scenario and e t v where fin: "w' = finish_benchmark env i (ri_end inp) e t v" and run: "running i c w v"
    by (rule run_benchmark_run)
  obtain x where x: "own_rows i w' = [x]" "bm_config x = Stored (storable_config c)" "other_rows i w' = other_rows i w"
    using finish_benchmark_row [OF run, of env "ri_end inp" e t] unfolding fin by blast
  then show ?thesis using assms(3) storable_free rows_split [of w i] rows_split [of w' i]
    by (auto simp: keys_free_def list_all_iff free_of_keys_def)
qed

text \<open>What happens to the table of benchmarks: a run has a new random id, the rest may come at any time.\<close>

datatype bench_op =
    ScrubOp
  | StopOp string string
  | CleanupOp string
  | PruneOp string
  | RunOp run_input string string cfg "user option"

fun bench_step :: "bench_env \<Rightarrow> bench_op \<Rightarrow> bench \<Rightarrow> bench" where
  "bench_step env ScrubOp w = snd (scrub_stored_benchmark_secrets w)"
| "bench_step env (StopOp now i) w = snd (stop_benchmark now i w)"
| "bench_step env (CleanupOp now) w = (case cleanup_stale_benchmarks now w of Inl e \<Rightarrow> w | Inr (k, v) \<Rightarrow> v)"
| "bench_step env (PruneOp limit) w = snd (prune_finished limit w)"
| "bench_step env (RunOp inp i sid c owner) w =
     (if new_id i w then case run_benchmark env inp i sid c owner w of Inr (Some v) \<Rightarrow> v | _ \<Rightarrow> w else w)"

lemma scrub_free: "keys_free (snd (scrub_stored_benchmark_secrets w))"
  by (auto simp: scrub_stored_benchmark_secrets_def keys_free_def sql_update_def list_all_iff scrubbed_free)

lemma prune_free: "keys_free w \<Longrightarrow> keys_free (snd (prune_finished now w))"
  by (simp add: prune_finished_def Let_def keys_free_def list_all_iff)

lemma cleanup_free: "keys_free w \<Longrightarrow> cleanup_stale_benchmarks now w = Inr (k, v) \<Longrightarrow> keys_free v"
  by (auto simp: cleanup_stale_benchmarks_def marked_stale_def free_of_keys_def intro!: update_free split: if_splits)

interpretation benching: op_system "bench_step env" keys_free
proof
  show "keys_free w \<Longrightarrow> keys_free (bench_step env op w)" for w op
    by (cases op) (auto simp: scrub_free stop_free prune_free split: sum.split option.split intro: cleanup_free run_free)
qed

text \<open>
  C36: auth keys of SIEMs stay out of the table of benchmarks. What the start of Habeny does to old rows leaves none behind, and
  after it no sequence of runs (whatever their settings and however they end), stops, cleanups and retention brings one in.
\<close>

theorem keys_never_stored:
  "keys_free (run_ops (bench_step env) ops (snd (scrub_stored_benchmark_secrets w)))"
  by (rule benching.run_inv, rule scrub_free)

lemma keys_example:
  "has_secret small_cfg \<and> bw_rows (run_ops (bench_step small_env) [RunOp (small_input True) ''b1'' ''burst_load'' small_cfg None] empty_bench) \<noteq> []"
proof -
  obtain v where v: "run_benchmark small_env (small_input True) ''b1'' ''burst_load'' small_cfg None empty_bench = Inr (Some v)"
    using run_returns [OF small_scenario small_paced] by blast
  from v unknown_new [OF small_unknown] obtain s :: scenario and e t u where
    fin: "v = finish_benchmark small_env ''b1'' (ri_end (small_input True)) e t u" and run: "running ''b1'' small_cfg empty_bench u"
    by (rule run_benchmark_run)
  obtain x where "own_rows ''b1'' v = [x]"
    using finish_benchmark_row [OF run, of small_env "ri_end (small_input True)" e t] unfolding fin by blast
  then have "bw_rows v \<noteq> []" by (auto simp: own_rows_def)
  then show ?thesis using v unknown_new [OF small_unknown]
    by (simp add: has_secret_def small_cfg_def SECRET_CONFIG_KEYS_def)
qed

section \<open>Start of the server\<close>

text \<open>After a restart nothing is in memory: the cleanup leaves no benchmark running.\<close>

lemma restart_settles:
  "bw_active w = [] \<Longrightarrow> cleanup_stale_benchmarks now w = Inr (k, v) \<Longrightarrow> r \<in> set (bw_rows v) \<Longrightarrow> bm_status r \<noteq> ''running''"
  by (auto simp: cleanup_stale_benchmarks_def is_stale_def marked_stale_def sql_update_def split: if_splits)

lemma cleanup_spares_active:
  "cleanup_stale_benchmarks now w = Inr (k, v) \<Longrightarrow> i \<in> fst ` set (bw_active w) \<Longrightarrow> own_rows i v = own_rows i w"
proof -
  have "filter (\<lambda>r. bm_id r = i) (sql_update (is_stale w) (marked_stale now) rows) = filter (\<lambda>r. bm_id r = i) rows"
    if "i \<in> fst ` set (bw_active w)" for rows
    using that by (induction rows) (auto simp: sql_update_def is_stale_def marked_stale_def)
  then show "cleanup_stale_benchmarks now w = Inr (k, v) \<Longrightarrow> i \<in> fst ` set (bw_active w) \<Longrightarrow> own_rows i v = own_rows i w"
    by (auto simp: cleanup_stale_benchmarks_def own_rows_def split: if_splits)
qed

lemma retention_spares_running:
  "r \<in> set (bw_rows w) \<Longrightarrow> bm_status r \<in> {''running'', ''pending''} \<Longrightarrow> distinct (map bm_id (bw_rows w)) \<Longrightarrow>
     r \<in> set (bw_rows (snd (prune_finished limit w)))"
  by (auto simp: prune_finished_def Let_def is_old_def dest: distinct_map_eq)

section \<open>What the code does differently\<close>

text \<open>The rules on deployments, the API and the agents are never applied: no value of theirs is looked at.\<close>

lemma deployment_rules_silent:
  "br_metric r \<in> {''deploy_failure_rate'', ''deploy_time_p90'', ''api_latency_p90'', ''agent_disconnect_rate''} \<Longrightarrow>
     \<not> crosses r m"
  by (auto simp: crosses_def metric_map_def)

text \<open>The system and the group of a profile are not used: the request's own defaults are there already.\<close>

lemma profile_system_ignored:
  assumes "map_of c ''os_type'' = Some v" "map_of c ''agent_group'' = Some u"
  shows "map_of (fold (fill_field m) FILLED_FIELDS c) ''os_type'' = Some v \<and> map_of (fold (fill_field m) FILLED_FIELDS c) ''agent_group'' = Some u"
proof -
  have "map_of (fill_field m f d) k = map_of d k" if "map_of d k \<noteq> None" "k \<noteq> ''siem_type''" for f d k
    using that by (auto simp: fill_field_def Let_def update_conv' split: if_splits)
  then have "map_of (fold (fill_field m) fs d) k = map_of d k" if "map_of d k \<noteq> None" "k \<noteq> ''siem_type''" for fs d k
    using that by (induction fs arbitrary: d) simp_all
  then show ?thesis using assms by simp
qed

text \<open>A stopped benchmark is recorded and announced as aborted: the level for stopped ones is never used.\<close>

lemma never_stopped: "final_status e t \<noteq> ''stopped''"
  by (simp add: final_status_def)

end
